(* ===== verification/Prelude.thy ===== *)
theory Prelude
  imports Main "HOL-Library.AList" "HOL-Library.Multiset" "HOL-Library.Word"
begin

text \<open>
  The shared part of the development: the collections of facts the component theories
  extend, hash maps with an explicit iteration order, results that can be an error, and the
  interface of a state machine with an invariant.

  A Rust hash map (\<open>HashMap\<close>, \<open>DashMap\<close>) is an association list. The list's order is the
  map's iteration order, which Rust leaves open: wherever the code iterates over a map, the
  theorems hold for every list with the invariant \<open>hm_ok\<close>, hence for every order, or take
  the order as a parameter of its own. Insertion overwrites the entry of a key that is
  present and leaves the others as they are.
\<close>

named_theorems inv_defs \<open>definitions of the invariants\<close>
named_theorems op_defs \<open>definitions of the operations\<close>

section \<open>Hash maps\<close>

type_synonym ('k, 'v) hmap = "('k \<times> 'v) list"

abbreviation hm_get :: "('k, 'v) hmap \<Rightarrow> 'k \<Rightarrow> 'v option" where
  "hm_get \<equiv> map_of"

abbreviation hm_keys :: "('k, 'v) hmap \<Rightarrow> 'k list" where
  "hm_keys m \<equiv> map fst m"

abbreviation hm_values :: "('k, 'v) hmap \<Rightarrow> 'v list" where
  "hm_values m \<equiv> map snd m"

abbreviation hm_insert :: "'k \<Rightarrow> 'v \<Rightarrow> ('k, 'v) hmap \<Rightarrow> ('k, 'v) hmap" where
  "hm_insert \<equiv> AList.update"

abbreviation hm_remove :: "'k \<Rightarrow> ('k, 'v) hmap \<Rightarrow> ('k, 'v) hmap" where
  "hm_remove \<equiv> AList.delete"

text \<open>The keys of a map as a set, and the invariant that every key occurs once.\<close>

definition hm_dom :: "('k, 'v) hmap \<Rightarrow> 'k set" where
  "hm_dom m = set (map fst m)"

definition hm_ok :: "('k, 'v) hmap \<Rightarrow> bool" where
  "hm_ok m \<longleftrightarrow> distinct (map fst m)"

definition hm_has :: "'k \<Rightarrow> ('k, 'v) hmap \<Rightarrow> bool" where
  "hm_has k m \<longleftrightarrow> hm_get m k \<noteq> None"

text \<open>Changing a value in place (\<open>get_mut\<close>, \<open>values_mut\<close>) and \<open>retain\<close>.\<close>

definition hm_modify :: "'k \<Rightarrow> ('v \<Rightarrow> 'v) \<Rightarrow> ('k, 'v) hmap \<Rightarrow> ('k, 'v) hmap" where
  "hm_modify k f m = map (\<lambda>(k', v). (k', if k' = k then f v else v)) m"

definition hm_map_values :: "('k \<Rightarrow> 'v \<Rightarrow> 'w) \<Rightarrow> ('k, 'v) hmap \<Rightarrow> ('k, 'w) hmap" where
  "hm_map_values f m = map (\<lambda>(k, v). (k, f k v)) m"

definition hm_retain :: "('k \<Rightarrow> 'v \<Rightarrow> bool) \<Rightarrow> ('k, 'v) hmap \<Rightarrow> ('k, 'v) hmap" where
  "hm_retain P m = filter (\<lambda>(k, v). P k v) m"

lemma hm_ok_Nil [simp]: "hm_ok []"
  by (simp add: hm_ok_def)

lemma hm_ok_Cons [simp]: "hm_ok ((k, v) # m) \<longleftrightarrow> k \<notin> hm_dom m \<and> hm_ok m"
  by (simp add: hm_ok_def hm_dom_def)

lemma hm_dom_Nil [simp]: "hm_dom [] = {}"
  by (simp add: hm_dom_def)

lemma hm_dom_Cons [simp]: "hm_dom ((k, v) # m) = insert k (hm_dom m)"
  by (simp add: hm_dom_def)

lemma hm_finite_dom [simp]: "finite (hm_dom m)"
  by (simp add: hm_dom_def)

lemma hm_card_dom: "hm_ok m \<Longrightarrow> card (hm_dom m) = length m"
  unfolding hm_ok_def hm_dom_def by (drule distinct_card) simp

lemma hm_set_keys: "set (hm_keys m) = hm_dom m"
  by (simp add: hm_dom_def)

lemma hm_get_None: "hm_get m k = None \<longleftrightarrow> k \<notin> hm_dom m"
  by (simp add: hm_dom_def map_of_eq_None_iff)

lemma hm_has_iff [simp]: "hm_has k m \<longleftrightarrow> k \<in> hm_dom m"
  by (simp add: hm_has_def hm_get_None)

lemma hm_get_dom: "hm_get m k = Some v \<Longrightarrow> k \<in> hm_dom m"
  by (metis hm_get_None option.distinct(1))

lemma hm_dom_get: "k \<in> hm_dom m \<Longrightarrow> \<exists>v. hm_get m k = Some v"
  by (metis hm_get_None not_Some_eq)

lemma hm_ex_get: "(\<exists>v. hm_get m k = Some v) \<longleftrightarrow> k \<in> hm_dom m"
  using hm_dom_get hm_get_dom by metis

lemma hm_get_mem: "hm_get m k = Some v \<Longrightarrow> (k, v) \<in> set m"
  by (rule map_of_SomeD)

lemma hm_ok_mem: "hm_ok m \<Longrightarrow> (k, v) \<in> set m \<longleftrightarrow> hm_get m k = Some v"
  by (simp add: hm_ok_def)

lemma hm_get_insert [simp]: "hm_get (hm_insert k v m) k' = (if k' = k then Some v else hm_get m k')"
  by (simp add: update_conv')

lemma hm_dom_insert [simp]: "hm_dom (hm_insert k v m) = insert k (hm_dom m)"
  by (auto simp: hm_dom_def update_keys simp del: set_map)

lemma hm_ok_insert [simp]: "hm_ok m \<Longrightarrow> hm_ok (hm_insert k v m)"
  unfolding hm_ok_def by (rule distinct_update)

lemma hm_get_remove [simp]: "hm_get (hm_remove k m) k' = (if k' = k then None else hm_get m k')"
  by (simp add: delete_conv')

lemma hm_dom_remove [simp]: "hm_dom (hm_remove k m) = hm_dom m - {k}"
  by (simp add: hm_dom_def delete_keys)

lemma hm_ok_remove [simp]: "hm_ok m \<Longrightarrow> hm_ok (hm_remove k m)"
  unfolding hm_ok_def by (rule distinct_delete)

lemma hm_keys_modify [simp]: "hm_keys (hm_modify k f m) = hm_keys m"
  by (simp add: hm_modify_def case_prod_beta comp_def)

lemma hm_dom_modify [simp]: "hm_dom (hm_modify k f m) = hm_dom m"
  by (simp only: hm_dom_def hm_keys_modify)

lemma hm_ok_modify [simp]: "hm_ok (hm_modify k f m) = hm_ok m"
  by (simp only: hm_ok_def hm_keys_modify)

lemma hm_get_modify [simp]:
  "hm_get (hm_modify k f m) k' = (if k' = k then map_option f (hm_get m k) else hm_get m k')"
  by (induction m) (auto simp: hm_modify_def)

lemma hm_keys_map_values [simp]: "hm_keys (hm_map_values f m) = hm_keys m"
  by (simp add: hm_map_values_def case_prod_beta comp_def)

lemma hm_dom_map_values [simp]: "hm_dom (hm_map_values f m) = hm_dom m"
  by (simp only: hm_dom_def hm_keys_map_values)

lemma hm_ok_map_values [simp]: "hm_ok (hm_map_values f m) = hm_ok m"
  by (simp only: hm_ok_def hm_keys_map_values)

lemma hm_get_map_values [simp]: "hm_get (hm_map_values f m) k = map_option (f k) (hm_get m k)"
  by (induction m) (auto simp: hm_map_values_def)

lemma hm_length_map_values [simp]: "length (hm_map_values f m) = length m"
  by (simp add: hm_map_values_def)

lemma hm_length_modify [simp]: "length (hm_modify k f m) = length m"
  by (simp add: hm_modify_def)

lemma hm_dom_retain: "hm_dom (hm_retain P m) \<subseteq> hm_dom m"
  by (auto simp: hm_retain_def hm_dom_def)

lemma hm_ok_retain [simp]: "hm_ok m \<Longrightarrow> hm_ok (hm_retain P m)"
  unfolding hm_retain_def hm_ok_def by (rule distinct_map_filter)

lemma hm_get_retain:
  "hm_ok m \<Longrightarrow> hm_get (hm_retain P m) k =
    (case hm_get m k of None \<Rightarrow> None | Some v \<Rightarrow> if P k v then Some v else None)"
proof (induction m)
  case Nil
  then show ?case by (simp add: hm_retain_def)
next
  case (Cons kv m)
  obtain k' v' where kv: "kv = (k', v')" by (cases kv)
  with Cons.prems have fresh: "k' \<notin> hm_dom m" and ok: "hm_ok m" by auto
  from fresh have "hm_get m k' = None" by (simp add: hm_get_None)
  with Cons.IH [OF ok] kv show ?case by (auto simp: hm_retain_def)
qed

lemma hm_length_insert:
  "length (hm_insert k v m) = (if k \<in> hm_dom m then length m else Suc (length m))"
  by (induction m) auto

lemma hm_length_remove:
  "hm_ok m \<Longrightarrow> length (hm_remove k m) = (if k \<in> hm_dom m then length m - 1 else length m)"
  using hm_card_dom [of m] hm_card_dom [OF hm_ok_remove, of m k] by (auto simp: card_Diff_singleton_if)

section \<open>Lists\<close>

lemma count_list_filter_neq [simp]:
  "count_list (filter (\<lambda>x. x \<noteq> i) xs) u = (if u = i then 0 else count_list xs u)"
  by (induction xs) auto

lemma find_mem: "find P xs = Some x \<Longrightarrow> x \<in> set xs \<and> P x"
  by (auto simp: find_Some_iff)

text \<open>\<open>min_by_key\<close> returns the first least element, \<open>max_by\<close> the last greatest one; \<open>le x y\<close> stands for a
  comparison of \<open>x\<close> with \<open>y\<close> that does not answer \<open>Greater\<close>.\<close>

fun first_min :: "('a \<Rightarrow> 'k :: linorder) \<Rightarrow> 'a \<Rightarrow> 'a list \<Rightarrow> 'a" where
  "first_min key best [] = best"
| "first_min key best (x # xs) = first_min key (if key x < key best then x else best) xs"

fun last_max :: "('a \<Rightarrow> 'a \<Rightarrow> bool) \<Rightarrow> 'a \<Rightarrow> 'a list \<Rightarrow> 'a" where
  "last_max le best [] = best"
| "last_max le best (x # xs) = last_max le (if le best x then x else best) xs"

lemma first_min_least:
  "first_min key best xs \<in> insert best (set xs)" "\<forall>y \<in> insert best (set xs). key (first_min key best xs) \<le> key y"
proof (induction xs arbitrary: best)
  case (Cons x xs)
  {
    case 1
    show ?case using Cons.IH(1) [of "if key x < key best then x else best"] by auto
  next
    case 2
    show ?case using Cons.IH(2) [of "if key x < key best then x else best"] by (fastforce split: if_splits)
  }
qed simp_all

lemma last_max_mem: "last_max le best xs \<in> insert best (set xs)"
  by (induction le best xs rule: last_max.induct) auto

lemma last_max_greatest:
  assumes "\<And>a b c. a \<in> A \<Longrightarrow> b \<in> A \<Longrightarrow> c \<in> A \<Longrightarrow> le a b \<Longrightarrow> le b c \<Longrightarrow> le a c"
    and "\<And>a b. a \<in> A \<Longrightarrow> b \<in> A \<Longrightarrow> le a b \<or> le b a" and "insert best (set xs) \<subseteq> A"
  shows "last_max le best xs \<in> insert best (set xs) \<and> (\<forall>y \<in> insert best (set xs). le y (last_max le best xs))"
  using assms(3)
proof (induction xs arbitrary: best)
  case Nil
  then show ?case using assms(2) [of best best] by auto
next
  case (Cons x xs)
  let ?b = "if le best x then x else best"
  have A: "x \<in> A" "best \<in> A" "?b \<in> A" "set xs \<subseteq> A" using Cons.prems by auto
  have IH: "last_max le ?b xs \<in> insert ?b (set xs)" "\<forall>y \<in> insert ?b (set xs). le y (last_max le ?b xs)"
    using Cons.IH [of ?b] A by blast+
  have up: "le ?b (last_max le ?b xs)" using IH(2) by blast
  have "insert ?b (set xs) \<subseteq> A" using A(3, 4) by (simp only: insert_subset)
  from subsetD [OF this IH(1)] have m: "last_max le ?b xs \<in> A" .
  have "le x ?b" "le best ?b" using A assms(2) [of best x] assms(2) [of best best] assms(2) [of x x] by auto
  then have "le x (last_max le ?b xs)" "le best (last_max le ?b xs)" using assms(1) [OF A(1, 3) m _ up] assms(1) [OF A(2, 3) m _ up] by blast+
  with IH show ?case by (auto split: if_splits)
qed

section \<open>Results\<close>

fun ok_bind :: "'e + 'a \<Rightarrow> ('a \<Rightarrow> 'e + 'b) \<Rightarrow> 'e + 'b" where
  "ok_bind (Inl e) f = Inl e"
| "ok_bind (Inr a) f = f a"

definition ok_or :: "'e \<Rightarrow> 'a option \<Rightarrow> 'e + 'a" where
  "ok_or e x = (case x of None \<Rightarrow> Inl e | Some a \<Rightarrow> Inr a)"

lemma ok_or_simps [simp]: "ok_or e None = Inl e" "ok_or e (Some a) = Inr a"
  by (simp_all add: ok_or_def)

lemma ok_or_Inr [simp]: "ok_or e x = Inr a \<longleftrightarrow> x = Some a"
  by (cases x) (auto simp: ok_or_def)

lemma ok_or_Inl [simp]: "ok_or e x = Inl e' \<longleftrightarrow> x = None \<and> e' = e"
  by (cases x) (auto simp: ok_or_def)

lemma ok_bind_Inr: "ok_bind x f = Inr b \<longleftrightarrow> (\<exists>a. x = Inr a \<and> f a = Inr b)"
  by (cases x) auto

section \<open>State machines\<close>

text \<open>The states a machine reaches from an initial state by its steps.\<close>

inductive reaches :: "('s \<Rightarrow> bool) \<Rightarrow> ('s \<Rightarrow> 's \<Rightarrow> bool) \<Rightarrow> 's \<Rightarrow> bool"
  for init :: "'s \<Rightarrow> bool" and step :: "'s \<Rightarrow> 's \<Rightarrow> bool" where
  reaches_init: "init s \<Longrightarrow> reaches init step s"
| reaches_step: "reaches init step s \<Longrightarrow> step s t \<Longrightarrow> reaches init step t"

text \<open>
  The contract of a component whose operations keep an invariant: the invariant holds where
  the component starts and every operation keeps it. What a client gets is that it holds in
  every state the component reaches and along every sequence of further steps.
\<close>

locale machine =
  fixes init :: "'s \<Rightarrow> bool" and step :: "'s \<Rightarrow> 's \<Rightarrow> bool" and inv :: "'s \<Rightarrow> bool"
  assumes inv_init: "init s \<Longrightarrow> inv s"
    and inv_step: "inv s \<Longrightarrow> step s t \<Longrightarrow> inv t"
begin

lemma reaches_inv: "reaches init step s \<Longrightarrow> inv s"
  by (induction rule: reaches.induct) (auto intro: inv_init inv_step)

lemma steps_inv: "step\<^sup>*\<^sup>* s t \<Longrightarrow> inv s \<Longrightarrow> inv t"
  by (induction rule: rtranclp_induct) (auto intro: inv_step)

end

end
