(* ===== verification/Core.thy ===== *)
theory Core
  imports Prelude
begin

text \<open>
  The crate \<open>core\<close>: the error type every fallible operation returns (\<open>core/src/error.rs\<close>),
  identifiers (\<open>core/src/id.rs\<close>) and the request context (\<open>core/src/context.rs\<close>), with the
  decimal and UUID texts that \<open>format!\<close> puts into the messages. An identifier is the number
  its 128-bit UUID stands for; a fresh one, which \<open>Uuid::now_v7\<close> supplies, is an argument of
  the operation that asks for it.
\<close>

section \<open>Errors\<close>

datatype ls_error =
    InvalidArgument string | NotFound string | AlreadyExists string | Internal string
  | NotImplemented string | Unsupported string | Timeout string
  | RuntimeNotInitialized | RuntimeAlreadyInitialized | RuntimeState string
  | SessionNotFound string | SessionExpired string
  | PermissionDenied string | AuthenticationFailed string | QuotaExceeded string
  | Plugin string | PluginNotFound string | Llm string | Embedding string | Storage string
  | EventBus string | Config string | Serialization string | Validation string
  | External string

type_synonym 'a ls_result = "ls_error + 'a"

text \<open>The text of an error, as its \<open>Display\<close> writes it.\<close>

fun error_text :: "ls_error \<Rightarrow> string" where
  "error_text (InvalidArgument s) = ''invalid argument: '' @ s"
| "error_text (NotFound s) = ''not found: '' @ s"
| "error_text (AlreadyExists s) = ''already exists: '' @ s"
| "error_text (Internal s) = ''internal error: '' @ s"
| "error_text (NotImplemented s) = ''not implemented: '' @ s"
| "error_text (Unsupported s) = ''unsupported operation: '' @ s"
| "error_text (Timeout s) = ''timeout: '' @ s"
| "error_text RuntimeNotInitialized = ''runtime not initialized''"
| "error_text RuntimeAlreadyInitialized = ''runtime already initialized''"
| "error_text (RuntimeState s) = ''runtime state error: '' @ s"
| "error_text (SessionNotFound s) = ''session not found: '' @ s"
| "error_text (SessionExpired s) = ''session expired: '' @ s"
| "error_text (PermissionDenied s) = ''permission denied: '' @ s"
| "error_text (AuthenticationFailed s) = ''authentication failed: '' @ s"
| "error_text (QuotaExceeded s) = ''quota exceeded: '' @ s"
| "error_text (Plugin s) = ''plugin error: '' @ s"
| "error_text (PluginNotFound s) = ''plugin not found: '' @ s"
| "error_text (Llm s) = ''llm error: '' @ s"
| "error_text (Embedding s) = ''embedding error: '' @ s"
| "error_text (Storage s) = ''storage error: '' @ s"
| "error_text (EventBus s) = ''eventbus error: '' @ s"
| "error_text (Config s) = ''config error: '' @ s"
| "error_text (Serialization s) = ''serialization error: '' @ s"
| "error_text (Validation s) = ''validation failed: '' @ s"
| "error_text (External s) = ''external error: '' @ s"

section \<open>Numbers and identifiers as text\<close>

definition digit_char :: "nat \<Rightarrow> char" where
  "digit_char d = (if d < 10 then char_of (48 + d) else char_of (87 + d))"

fun show_nat :: "nat \<Rightarrow> string" where
  "show_nat n = (if n < 10 then [digit_char n] else show_nat (n div 10) @ [digit_char (n mod 10)])"

declare show_nat.simps [simp del]

fun hex_digits :: "nat \<Rightarrow> nat \<Rightarrow> string" where
  "hex_digits 0 n = []"
| "hex_digits (Suc k) n = hex_digits k (n div 16) @ [digit_char (n mod 16)]"

type_synonym ls_id = nat

definition show_id :: "ls_id \<Rightarrow> string" where
  "show_id n = (let h = hex_digits 32 n in
     take 8 h @ ''-'' @ take 4 (drop 8 h) @ ''-'' @ take 4 (drop 12 h) @ ''-''
     @ take 4 (drop 16 h) @ ''-'' @ drop 20 h)"

definition nil_id :: ls_id where
  "nil_id = 0"

definition is_nil :: "ls_id \<Rightarrow> bool" where
  "is_nil n \<longleftrightarrow> n = 0"

lemma length_hex_digits [simp]: "length (hex_digits k n) = k"
  by (induction k arbitrary: n) auto

lemma length_show_id: "length (show_id n) = 36"
  by (simp add: show_id_def Let_def)

section \<open>Integers and text\<close>

text \<open>The cast of a \<open>u64\<close> to \<open>i64\<close>, which wraps, and the bounds of the two types.\<close>

definition as_i64 :: "nat \<Rightarrow> int" where
  "as_i64 n = (if n < 2 ^ 63 then int n else int n - 2 ^ 64)"

lemma as_i64_small [simp]: "n < 2 ^ 63 \<Longrightarrow> as_i64 n = int n"
  by (simp add: as_i64_def)

definition starts_with :: "string \<Rightarrow> string \<Rightarrow> bool" where
  "starts_with s p \<longleftrightarrow> take (length p) s = p"

section \<open>JSON values\<close>

datatype json = Null | Bool bool | Number int | Str string | Array "json list"
  | Object "(string \<times> json) list"

section \<open>The request context\<close>

record ls_context =
  ctx_session :: ls_id
  ctx_trace :: ls_id
  ctx_tenant :: "string option"
  ctx_user :: "string option"
  ctx_created :: int
  ctx_metadata :: "(string, string) hmap"

text \<open>\<open>fresh\<close> is the identifier \<open>LsId::new\<close> returns, \<open>now\<close> the clock.\<close>

definition ctx_new :: "int \<Rightarrow> ls_id \<Rightarrow> ls_id \<Rightarrow> ls_context" where
  "ctx_new now session trace = \<lparr>ctx_session = session, ctx_trace = trace, ctx_tenant = None,
     ctx_user = None, ctx_created = now, ctx_metadata = []\<rparr>"

definition ctx_with_tenant :: "string \<Rightarrow> ls_context \<Rightarrow> ls_context" where
  "ctx_with_tenant t c = c\<lparr>ctx_tenant := Some t\<rparr>"

definition ctx_with_user :: "string \<Rightarrow> ls_context \<Rightarrow> ls_context" where
  "ctx_with_user u c = c\<lparr>ctx_user := Some u\<rparr>"

definition ctx_with_metadata :: "string \<Rightarrow> string \<Rightarrow> ls_context \<Rightarrow> ls_context" where
  "ctx_with_metadata k v c = c\<lparr>ctx_metadata := hm_insert k v (ctx_metadata c)\<rparr>"

definition ctx_child :: "int \<Rightarrow> ls_id \<Rightarrow> ls_context \<Rightarrow> ls_context" where
  "ctx_child now fresh c = (ctx_new now (ctx_session c) fresh)
     \<lparr>ctx_tenant := ctx_tenant c, ctx_user := ctx_user c, ctx_metadata := ctx_metadata c\<rparr>"

end
