(* ===== verification/Dag_Graph.thy ===== *)
theory Dag_Graph
  imports Core
begin

text \<open>
  The graph of the workflow engine (\<open>backends/src/workflow/dag.rs\<close>): its nodes, its adjacency
  map and the depth-first search \<open>has_cycle\<close> that guards every new edge. The search is proved
  to answer exactly whether the adjacency map has a cycle, whatever order its keys and
  neighbours are visited in.
\<close>

section \<open>The search for a cycle\<close>

type_synonym adjacency = "(ls_id, ls_id list) hmap"

definition neighbors :: "adjacency \<Rightarrow> ls_id \<Rightarrow> ls_id list" where
  "neighbors adj u = (case hm_get adj u of None \<Rightarrow> [] | Some vs \<Rightarrow> vs)"

definition edges :: "adjacency \<Rightarrow> (ls_id \<times> ls_id) set" where
  "edges adj = {(u, v). v \<in> set (neighbors adj u)}"

lemma neighbors_not_key: "u \<notin> hm_dom adj \<Longrightarrow> neighbors adj u = []"
  by (simp add: neighbors_def hm_get_None [THEN iffD2])

text \<open>
  The inner function \<open>dfs\<close>: \<open>dfs_next\<close> is its loop over the neighbours, where the recursive
  call \<open>dfs(next, ..)\<close> is its body written out (mark \<open>next\<close> visited and on the stack, loop
  over its neighbours, take it off the stack); \<open>dfs_visit\<close> is a call from outside. Both
  return the answer with the sets \<open>visited\<close> and \<open>in_stack\<close> as they leave them; a \<open>True\<close>
  returns at once and leaves the stack as it is.
\<close>

function dfs_next :: "adjacency \<Rightarrow> ls_id list \<Rightarrow> ls_id set \<Rightarrow> ls_id set \<Rightarrow> bool \<times> ls_id set \<times> ls_id set"
where
  "dfs_next adj [] visited in_stack = (False, visited, in_stack)"
| "dfs_next adj (next # rest) visited in_stack =
     (if next \<notin> visited then
        (case dfs_next adj (neighbors adj next) (insert next visited) (insert next in_stack) of
           (found, visited', in_stack') \<Rightarrow>
             if found then (True, visited', in_stack')
             else dfs_next adj rest visited' (in_stack' - {next}))
      else if next \<in> in_stack then (True, visited, in_stack)
      else dfs_next adj rest visited in_stack)"
  by pat_completeness auto

lemma dfs_next_grows_partial:
  "dfs_next_dom (adj, ns, V, S) \<Longrightarrow> V \<subseteq> fst (snd (dfs_next adj ns V S))"
proof (induction adj ns V S rule: dfs_next.pinduct)
  case (1 adj V S)
  then show ?case by (simp add: dfs_next.psimps)
next
  case (2 adj n ns V S)
  obtain b V' S' where r: "dfs_next adj (neighbors adj n) (insert n V) (insert n S) = (b, V', S')"
    by (cases "dfs_next adj (neighbors adj n) (insert n V) (insert n S)")
  show ?case
  proof (cases "n \<in> V")
    case True
    with 2 show ?thesis by (simp add: dfs_next.psimps)
  next
    case False
    from 2(2) [OF False] r have "V \<subseteq> V'" by auto
    moreover from 2(3) [OF False r [symmetric] refl] have
      "\<not> b \<Longrightarrow> V' \<subseteq> fst (snd (dfs_next adj ns V' (S' - {n})))" by simp
    ultimately show ?thesis using 2(1) False r by (auto simp: dfs_next.psimps)
  qed
qed

termination dfs_next
proof (relation "inv_image (less_than <*lex*> less_than)
    (\<lambda>(adj, ns, V, S). (card (hm_dom adj - V), length ns))", goal_cases)
  case 1
  show ?case by auto
next
  case (2 adj n ns V S)
  show ?case
  proof (cases "n \<in> hm_dom adj")
    case True
    with 2 have "card (hm_dom adj - insert n V) < card (hm_dom adj - V)"
      by (intro psubset_card_mono) auto
    then show ?thesis by simp
  next
    case False
    then have "hm_dom adj - insert n V = hm_dom adj - V" by auto
    with False show ?thesis by (simp add: neighbors_not_key)
  qed
next
  case (3 adj n ns V S r p V1 S1)
  from 3(2,3) have "dfs_next adj (neighbors adj n) (insert n V) (insert n S) = (r, V1, S1)"
    by simp
  with dfs_next_grows_partial [OF 3(5)] have "V \<subseteq> V1" by simp
  then have "card (hm_dom adj - V1) \<le> card (hm_dom adj - V)"
    by (intro card_mono) auto
  then show ?case by auto
next
  case (4 adj n ns V S)
  then show ?case by simp
qed

definition dfs_visit :: "adjacency \<Rightarrow> ls_id \<Rightarrow> ls_id set \<Rightarrow> ls_id set \<Rightarrow> bool \<times> ls_id set \<times> ls_id set" where
  "dfs_visit adj node visited in_stack =
     (case dfs_next adj (neighbors adj node) (insert node visited) (insert node in_stack) of
        (found, visited', in_stack') \<Rightarrow>
          if found then (True, visited', in_stack')
          else (False, visited', in_stack' - {node}))"

fun cycle_from :: "adjacency \<Rightarrow> ls_id list \<Rightarrow> ls_id set \<Rightarrow> ls_id set \<Rightarrow> bool" where
  "cycle_from adj [] visited in_stack = False"
| "cycle_from adj (node # rest) visited in_stack =
     (if node \<notin> visited then
        (case dfs_visit adj node visited in_stack of
           (found, visited', in_stack') \<Rightarrow>
             found \<or> cycle_from adj rest visited' in_stack')
      else cycle_from adj rest visited in_stack)"

definition has_cycle :: "adjacency \<Rightarrow> bool" where
  "has_cycle adj = cycle_from adj (hm_keys adj) {} {}"

section \<open>What the search answers\<close>

text \<open>
  Between two steps of the search the finished nodes (visited, off the stack) are closed under
  edges and none of them is on a cycle.
\<close>

definition dfs_inv :: "adjacency \<Rightarrow> ls_id set \<Rightarrow> ls_id set \<Rightarrow> bool" where
  "dfs_inv adj V S \<longleftrightarrow> S \<subseteq> V \<and> (\<forall>u \<in> V - S. set (neighbors adj u) \<subseteq> V - S)
     \<and> (\<forall>u \<in> V - S. (u, u) \<notin> (edges adj)\<^sup>+)"

lemma edges_iff [simp]: "(u, v) \<in> edges adj \<longleftrightarrow> v \<in> set (neighbors adj u)"
  by (simp add: edges_def)

lemma trancl_closed:
  "(u, v) \<in> (edges adj)\<^sup>+ \<Longrightarrow> u \<in> F \<Longrightarrow> \<forall>x \<in> F. set (neighbors adj x) \<subseteq> F \<Longrightarrow> v \<in> F"
  by (induction rule: trancl_induct) auto

text \<open>A node all of whose successors are finished can be finished itself.\<close>

lemma dfs_inv_finish:
  assumes inv: "dfs_inv adj V (insert n S)" and n: "n \<notin> S"
    and succ: "set (neighbors adj n) \<subseteq> V - insert n S"
  shows "dfs_inv adj V S"
proof -
  let ?F = "V - insert n S"
  from inv have closed: "\<forall>x \<in> ?F. set (neighbors adj x) \<subseteq> ?F"
    and acyc: "\<forall>u \<in> ?F. (u, u) \<notin> (edges adj)\<^sup>+" and sub: "insert n S \<subseteq> V"
    by (auto simp: dfs_inv_def)
  have "(n, n) \<notin> (edges adj)\<^sup>+"
  proof
    assume "(n, n) \<in> (edges adj)\<^sup>+"
    then obtain m where m: "m \<in> set (neighbors adj n)" and mn: "(m, n) \<in> (edges adj)\<^sup>*"
      by (auto dest: tranclD)
    from m succ have "m \<in> ?F" by auto
    with mn trancl_closed [OF _ _ closed, of m n] have "n \<in> ?F"
      by (auto simp: rtrancl_eq_or_trancl)
    then show False by simp
  qed
  moreover have "V - S = insert n ?F" using sub n by auto
  ultimately show ?thesis using sub acyc closed succ by (auto simp: dfs_inv_def)
qed

lemma dfs_next_grows: "dfs_next adj ns V S = (b, V', S') \<Longrightarrow> V \<subseteq> V'"
proof (induction adj ns V S arbitrary: b V' S' rule: dfs_next.induct)
  case (1 adj V S)
  then show ?case by simp
next
  case (2 adj n ns V S)
  obtain c V1 S1 where sub: "dfs_next adj (neighbors adj n) (insert n V) (insert n S) = (c, V1, S1)"
    by (cases "dfs_next adj (neighbors adj n) (insert n V) (insert n S)")
  show ?case
  proof (cases "n \<in> V")
    case True
    with 2 show ?thesis by (auto split: if_splits)
  next
    case False
    with "2.IH"(1) [OF False sub] "2.IH"(2) [OF False sub [symmetric] refl] "2.prems" sub
    show ?thesis by (auto split: if_splits)
  qed
qed

text \<open>
  A search that finds nothing leaves the stack as it was, keeps the invariant and has finished
  every node it was asked about.
\<close>

lemma dfs_next_False:
  assumes "dfs_next adj ns V S = (False, V', S')" and "dfs_inv adj V S"
  shows "S' = S \<and> dfs_inv adj V' S \<and> set ns \<subseteq> V' - S"
  using assms
proof (induction adj ns V S arbitrary: V' S' rule: dfs_next.induct)
  case (1 adj V S)
  then show ?case by simp
next
  case (2 adj n ns V S)
  show ?case
  proof (cases "n \<in> V")
    case True
    with "2.prems" have nS: "n \<notin> S" and rest: "dfs_next adj ns V S = (False, V', S')"
      by (auto split: if_splits)
    have "S' = S \<and> dfs_inv adj V' S \<and> set ns \<subseteq> V' - S"
      using "2.IH"(3) True nS rest "2.prems"(2) by blast
    moreover have "n \<in> V'" using dfs_next_grows [OF rest] True by blast
    ultimately show ?thesis using nS by auto
  next
    case False
    with "2.prems" obtain V1 S1 where
      sub: "dfs_next adj (neighbors adj n) (insert n V) (insert n S) = (False, V1, S1)" and
      rest: "dfs_next adj ns V1 (S1 - {n}) = (False, V', S')"
      by (auto split: prod.splits if_splits)
    from "2.prems"(2) False have nS: "n \<notin> S" and inv: "dfs_inv adj (insert n V) (insert n S)"
      by (auto simp: dfs_inv_def)
    have sub': "S1 = insert n S \<and> dfs_inv adj V1 (insert n S) \<and> set (neighbors adj n) \<subseteq> V1 - insert n S"
      using "2.IH"(1) [OF False sub inv] by blast
    then have "dfs_inv adj V1 S" using dfs_inv_finish nS by blast
    moreover from sub' nS have "S1 - {n} = S" by auto
    ultimately have fin: "S' = S \<and> dfs_inv adj V' S \<and> set ns \<subseteq> V' - S"
      using "2.IH"(2) [OF False sub [symmetric] refl _ _] rest by simp
    moreover have "n \<in> V'" using dfs_next_grows [OF sub] dfs_next_grows [OF rest] by blast
    ultimately show ?thesis using nS by auto
  qed
qed

text \<open>A search that finds something has found a cycle: every node on the stack reaches the next.\<close>

lemma dfs_next_stack:
  "dfs_next adj ns V S = (False, V', S') \<Longrightarrow> S \<subseteq> V \<Longrightarrow> S' = S"
proof (induction adj ns V S arbitrary: V' S' rule: dfs_next.induct)
  case (1 adj V S)
  then show ?case by simp
next
  case (2 adj n ns V S)
  show ?case
  proof (cases "n \<in> V")
    case True
    with "2.prems" "2.IH"(3) show ?thesis by (auto split: if_splits)
  next
    case False
    with "2.prems" obtain V1 S1 where
      sub: "dfs_next adj (neighbors adj n) (insert n V) (insert n S) = (False, V1, S1)" and
      rest: "dfs_next adj ns V1 (S1 - {n}) = (False, V', S')"
      by (auto split: prod.splits if_splits)
    have "S1 = insert n S" using "2.IH"(1) [OF False sub] "2.prems"(2) by blast
    then have "S1 - {n} = S" using False "2.prems"(2) by auto
    moreover have "S \<subseteq> V1" using dfs_next_grows [OF sub] "2.prems"(2) by blast
    ultimately show ?thesis
      using "2.IH"(2) [OF False sub [symmetric] refl _ _] rest by simp
  qed
qed

lemma dfs_next_True:
  assumes "dfs_next adj ns V S = (True, V', S')" and "S \<subseteq> V"
    and "\<forall>s \<in> S. \<forall>n \<in> set ns. (s, n) \<in> (edges adj)\<^sup>+"
  shows "\<not> acyclic (edges adj)"
  using assms
proof (induction adj ns V S arbitrary: V' S' rule: dfs_next.induct)
  case (1 adj V S)
  then show ?case by simp
next
  case (2 adj n ns V S)
  show ?case
  proof (cases "n \<in> V")
    case True
    show ?thesis
    proof (cases "n \<in> S")
      case True
      with "2.prems"(3) show ?thesis by (auto simp: acyclic_def)
    next
      case False
      with "2.IH"(3) True "2.prems" show ?thesis by simp
    qed
  next
    case new: False
    obtain b V1 S1 where
      sub: "dfs_next adj (neighbors adj n) (insert n V) (insert n S) = (b, V1, S1)"
      by (cases "dfs_next adj (neighbors adj n) (insert n V) (insert n S)")
    show ?thesis
    proof (cases b)
      case True
      have "\<forall>s \<in> insert n S. \<forall>m \<in> set (neighbors adj n). (s, m) \<in> (edges adj)\<^sup>+"
        using "2.prems"(3) by (auto intro: trancl_into_trancl)
      moreover have "insert n S \<subseteq> insert n V" using "2.prems"(2) by auto
      ultimately show ?thesis using "2.IH"(1) [OF new] sub True by simp
    next
      case False
      with sub "2.prems"(2) have "S1 = insert n S" by (auto dest!: dfs_next_stack)
      then have "S1 - {n} = S" using new "2.prems"(2) by auto
      moreover have "S \<subseteq> V1" using dfs_next_grows [OF sub] "2.prems"(2) by blast
      ultimately show ?thesis
        using "2.IH"(2) [OF new sub [symmetric] refl False] sub new False "2.prems" by simp
    qed
  qed
qed

lemma cycle_from_sound:
  "cycle_from adj ns V {} \<Longrightarrow> \<not> acyclic (edges adj)"
proof (induction ns arbitrary: V)
  case Nil
  then show ?case by simp
next
  case (Cons n ns)
  obtain b V1 S1 where
    sub: "dfs_next adj (neighbors adj n) (insert n V) {n} = (b, V1, S1)"
    by (cases "dfs_next adj (neighbors adj n) (insert n V) {n}")
  show ?case
  proof (cases "n \<notin> V \<and> b")
    case True
    have "\<forall>s \<in> {n}. \<forall>m \<in> set (neighbors adj n). (s, m) \<in> (edges adj)\<^sup>+"
      by (auto intro: r_into_trancl)
    with dfs_next_True [of adj "neighbors adj n" "insert n V" "{n}" V1 S1] sub True
    show ?thesis by simp
  next
    case False
    have "\<not> b \<Longrightarrow> S1 = {n}" using dfs_next_stack [of adj _ "insert n V" "{n}"] sub by simp
    with False Cons sub show ?thesis by (auto simp: dfs_visit_def split: if_splits)
  qed
qed

lemma cycle_from_complete:
  "\<not> cycle_from adj ns V {} \<Longrightarrow> dfs_inv adj V {} \<Longrightarrow>
    \<exists>V'. dfs_inv adj V' {} \<and> V \<union> set ns \<subseteq> V'"
proof (induction ns arbitrary: V)
  case Nil
  then show ?case by auto
next
  case (Cons n ns)
  show ?case
  proof (cases "n \<in> V")
    case True
    with Cons show ?thesis by force
  next
    case False
    with Cons.prems obtain V1 S1 where
      sub: "dfs_next adj (neighbors adj n) (insert n V) {n} = (False, V1, S1)" and
      rest: "\<not> cycle_from adj ns V1 (S1 - {n})"
      by (auto simp: dfs_visit_def split: prod.splits if_splits)
    have "dfs_inv adj (insert n V) {n}" using Cons.prems(2) False by (auto simp: dfs_inv_def)
    from dfs_next_False [OF sub this] have "S1 = {n}" and "dfs_inv adj V1 {}"
      using dfs_inv_finish [of adj V1 n "{}"] by auto
    with rest Cons.IH [of V1] obtain V' where "dfs_inv adj V' {}" "V1 \<union> set ns \<subseteq> V'" by auto
    with dfs_next_grows [OF sub] show ?thesis by (intro exI [of _ V']) auto
  qed
qed

theorem has_cycle_iff: "has_cycle adj \<longleftrightarrow> \<not> acyclic (edges adj)"
proof
  assume "has_cycle adj"
  then show "\<not> acyclic (edges adj)" unfolding has_cycle_def by (rule cycle_from_sound)
next
  have inv0: "dfs_inv adj {} {}" by (simp add: dfs_inv_def)
  show "has_cycle adj" if cyc: "\<not> acyclic (edges adj)"
  proof (rule ccontr)
    assume "\<not> has_cycle adj"
    then have "\<not> cycle_from adj (hm_keys adj) {} {}" by (simp add: has_cycle_def)
    from cycle_from_complete [OF this inv0]
    obtain V where V: "dfs_inv adj V {}" "hm_dom adj \<subseteq> V" by (auto simp: hm_dom_def)
    from cyc obtain u where u: "(u, u) \<in> (edges adj)\<^sup>+" by (auto simp: acyclic_def)
    then obtain w where "w \<in> set (neighbors adj u)" by (auto dest: tranclD)
    then have "u \<in> hm_dom adj" using neighbors_not_key [of u adj] by (cases "u \<in> hm_dom adj") auto
    with V u show False by (auto simp: dfs_inv_def)
  qed
qed

end
