(* ===== verification/Dag_State.thy ===== *)
theory Dag_State
  imports Dag_Graph
begin

text \<open>
  The workflow graph and the operations that build and change it (\<open>WorkflowDag\<close> in
  \<open>backends/src/workflow/dag.rs\<close>), the invariant of the graph and its preservation by every
  operation.

  A node handler is a closure of the caller. It is given by what each of its attempts does: it
  returns after some milliseconds, or panics. The event handler is kept as whether one is set;
  the events it receives are the log of an execution.
\<close>

section \<open>Data\<close>

datatype attempt = Returned nat "json ls_result" | Panicked

type_synonym node_handler = "ls_context \<Rightarrow> json \<Rightarrow> nat \<Rightarrow> attempt"

record workflow_node =
  wn_id :: ls_id
  wn_name :: string
  wn_description :: string
  wn_deps :: "ls_id list"
  wn_config :: json
  wn_timeout_secs :: nat
  wn_retry_count :: nat
  wn_retry_delay_ms :: nat
  wn_skip_if :: "string option"

definition workflow_node_new :: "ls_id \<Rightarrow> string \<Rightarrow> string \<Rightarrow> json \<Rightarrow> workflow_node" where
  "workflow_node_new i name description config = \<lparr>wn_id = i, wn_name = name,
     wn_description = description, wn_deps = [], wn_config = config, wn_timeout_secs = 0,
     wn_retry_count = 0, wn_retry_delay_ms = 1000, wn_skip_if = None\<rparr>"

record workflow_dag =
  wd_id :: ls_id
  wd_name :: string
  wd_nodes :: "(ls_id, workflow_node) hmap"
  wd_handlers :: "(ls_id, node_handler) hmap"
  wd_adj :: adjacency
  wd_event_handler :: bool

record workflow_info =
  wi_id :: ls_id
  wi_name :: string
  wi_node_count :: nat
  wi_edge_count :: nat

section \<open>Operations\<close>

definition dag_new :: "ls_id \<Rightarrow> string \<Rightarrow> workflow_dag" where
  "dag_new fresh name = \<lparr>wd_id = fresh, wd_name = name, wd_nodes = [], wd_handlers = [],
     wd_adj = [], wd_event_handler = False\<rparr>"

definition with_id :: "ls_id \<Rightarrow> workflow_dag \<Rightarrow> workflow_dag" where
  "with_id i g = g\<lparr>wd_id := i\<rparr>"

definition set_event_handler :: "workflow_dag \<Rightarrow> workflow_dag" where
  "set_event_handler g = g\<lparr>wd_event_handler := True\<rparr>"

definition get_node :: "workflow_dag \<Rightarrow> ls_id \<Rightarrow> workflow_node option" where
  "get_node g i = hm_get (wd_nodes g) i"

definition get_handler :: "workflow_dag \<Rightarrow> ls_id \<Rightarrow> node_handler option" where
  "get_handler g i = hm_get (wd_handlers g) i"

definition node_not_found :: "ls_id \<Rightarrow> ls_error" where
  "node_not_found i = NotFound (''node '' @ show_id i @ '' not found'')"

definition set_node_timeout :: "ls_id \<Rightarrow> nat \<Rightarrow> workflow_dag \<Rightarrow> workflow_dag ls_result" where
  "set_node_timeout i timeout_secs g =
     (case hm_get (wd_nodes g) i of
        None \<Rightarrow> Inl (node_not_found i)
      | Some _ \<Rightarrow> Inr (g\<lparr>wd_nodes := hm_modify i (\<lambda>n. n\<lparr>wn_timeout_secs := timeout_secs\<rparr>) (wd_nodes g)\<rparr>))"

definition set_node_retry :: "ls_id \<Rightarrow> nat \<Rightarrow> nat \<Rightarrow> workflow_dag \<Rightarrow> workflow_dag ls_result" where
  "set_node_retry i retry_count retry_delay_ms g =
     (case hm_get (wd_nodes g) i of
        None \<Rightarrow> Inl (node_not_found i)
      | Some _ \<Rightarrow> Inr (g\<lparr>wd_nodes := hm_modify i
          (\<lambda>n. n\<lparr>wn_retry_count := retry_count, wn_retry_delay_ms := retry_delay_ms\<rparr>) (wd_nodes g)\<rparr>))"

definition set_node_skip_if :: "ls_id \<Rightarrow> string option \<Rightarrow> workflow_dag \<Rightarrow> workflow_dag ls_result" where
  "set_node_skip_if i skip_if g =
     (case hm_get (wd_nodes g) i of
        None \<Rightarrow> Inl (node_not_found i)
      | Some _ \<Rightarrow> Inr (g\<lparr>wd_nodes := hm_modify i (\<lambda>n. n\<lparr>wn_skip_if := skip_if\<rparr>) (wd_nodes g)\<rparr>))"

text \<open>\<open>entry(id).or_default()\<close>: a key that is present keeps its list.\<close>

definition adj_or_default :: "ls_id \<Rightarrow> adjacency \<Rightarrow> adjacency" where
  "adj_or_default i adj = (if hm_has i adj then adj else hm_insert i [] adj)"

definition adj_push :: "ls_id \<Rightarrow> ls_id \<Rightarrow> adjacency \<Rightarrow> adjacency" where
  "adj_push src dst adj = hm_modify src (\<lambda>vs. vs @ [dst]) (adj_or_default src adj)"

definition add_node_full ::
  "ls_id \<Rightarrow> string \<Rightarrow> string \<Rightarrow> json \<Rightarrow> node_handler \<Rightarrow> nat \<Rightarrow> nat \<Rightarrow> nat \<Rightarrow> string option
   \<Rightarrow> workflow_dag \<Rightarrow> workflow_dag" where
  "add_node_full i name description config handler timeout_secs retry_count retry_delay_ms skip_if g =
     g\<lparr>wd_nodes := hm_insert i \<lparr>wn_id = i, wn_name = name, wn_description = description,
          wn_deps = [], wn_config = config, wn_timeout_secs = timeout_secs,
          wn_retry_count = retry_count, wn_retry_delay_ms = retry_delay_ms, wn_skip_if = skip_if\<rparr>
          (wd_nodes g),
       wd_handlers := hm_insert i handler (wd_handlers g),
       wd_adj := adj_or_default i (wd_adj g)\<rparr>"

definition add_node ::
  "ls_id \<Rightarrow> string \<Rightarrow> string \<Rightarrow> json \<Rightarrow> node_handler \<Rightarrow> workflow_dag \<Rightarrow> workflow_dag" where
  "add_node i name description config handler g =
     add_node_full i name description config handler 0 0 1000 None g"

definition add_edge :: "ls_id \<Rightarrow> ls_id \<Rightarrow> workflow_dag \<Rightarrow> workflow_dag ls_result" where
  "add_edge src dst g =
     (if \<not> hm_has src (wd_nodes g) then Inl (node_not_found src)
      else if \<not> hm_has dst (wd_nodes g) then Inl (node_not_found dst)
      else if src = dst then Inl (Validation ''self-dependency is not allowed'')
      else if has_cycle (adj_push src dst (wd_adj g)) then
        Inl (Validation (''adding edge '' @ show_id src @ '' -> '' @ show_id dst
               @ '' would create a cycle''))
      else Inr (g\<lparr>wd_adj := adj_push src dst (wd_adj g),
                  wd_nodes := hm_modify dst (\<lambda>n. n\<lparr>wn_deps := wn_deps n @ [src]\<rparr>) (wd_nodes g)\<rparr>))"

text \<open>
  A batch of edges stops at the first error and keeps the edges added before it: the result is
  the error, if there is one, with the graph as it is left.
\<close>

fun add_edges :: "(ls_id \<times> ls_id) list \<Rightarrow> workflow_dag \<Rightarrow> unit ls_result \<times> workflow_dag" where
  "add_edges [] g = (Inr (), g)"
| "add_edges ((src, dst) # rest) g =
     (case add_edge src dst g of Inl e \<Rightarrow> (Inl e, g) | Inr g' \<Rightarrow> add_edges rest g')"

definition remove_node :: "ls_id \<Rightarrow> workflow_dag \<Rightarrow> workflow_dag ls_result" where
  "remove_node i g =
     (if \<not> hm_has i (wd_nodes g) then Inl (node_not_found i)
      else Inr (g\<lparr>
        wd_nodes := hm_map_values (\<lambda>_ n. n\<lparr>wn_deps := filter (\<lambda>d. d \<noteq> i) (wn_deps n)\<rparr>)
          (hm_remove i (wd_nodes g)),
        wd_handlers := hm_remove i (wd_handlers g),
        wd_adj := hm_map_values (\<lambda>_ vs. filter (\<lambda>v. v \<noteq> i) vs) (hm_remove i (wd_adj g))\<rparr>))"

definition edge_count :: "workflow_dag \<Rightarrow> nat" where
  "edge_count g = sum_list (map length (hm_values (wd_adj g)))"

definition node_count :: "workflow_dag \<Rightarrow> nat" where
  "node_count g = length (wd_nodes g)"

definition dag_info :: "workflow_dag \<Rightarrow> workflow_info" where
  "dag_info g = \<lparr>wi_id = wd_id g, wi_name = wd_name g, wi_node_count = length (wd_nodes g),
     wi_edge_count = sum_list (map length (hm_values (wd_adj g)))\<rparr>"

definition root_nodes :: "workflow_dag \<Rightarrow> ls_id list" where
  "root_nodes g = map fst (filter (\<lambda>(_, n). wn_deps n = []) (wd_nodes g))"

definition leaf_nodes :: "workflow_dag \<Rightarrow> ls_id list" where
  "leaf_nodes g = filter (\<lambda>i. neighbors (wd_adj g) i = []) (hm_keys (wd_nodes g))"

text \<open>\<open>Clone\<close>: handlers cannot be cloned, so a copy has none, and no event handler.\<close>

definition dag_clone :: "workflow_dag \<Rightarrow> workflow_dag" where
  "dag_clone g = g\<lparr>wd_handlers := [], wd_event_handler := False\<rparr>"

text \<open>The simplified interface \<open>Workflow\<close>: a configuration record with defaults.\<close>

record node_config =
  nc_description :: string
  nc_config :: json
  nc_timeout_secs :: nat
  nc_retry_count :: nat
  nc_retry_delay_ms :: nat
  nc_skip_if :: "string option"

definition node_config_default :: node_config where
  "node_config_default = \<lparr>nc_description = [], nc_config = Null, nc_timeout_secs = 0,
     nc_retry_count = 0, nc_retry_delay_ms = 1000, nc_skip_if = None\<rparr>"

definition workflow_add_node :: "ls_id \<Rightarrow> string \<Rightarrow> node_handler \<Rightarrow> workflow_dag \<Rightarrow> workflow_dag" where
  "workflow_add_node i name handler g = add_node i name [] Null handler g"

definition workflow_add_node_with ::
  "ls_id \<Rightarrow> string \<Rightarrow> node_config \<Rightarrow> node_handler \<Rightarrow> workflow_dag \<Rightarrow> workflow_dag" where
  "workflow_add_node_with i name c handler g =
     add_node_full i name (nc_description c) (nc_config c) handler (nc_timeout_secs c)
       (nc_retry_count c) (nc_retry_delay_ms c) (nc_skip_if c) g"

section \<open>The invariant\<close>

definition deps_agree :: "(ls_id, workflow_node) hmap \<Rightarrow> adjacency \<Rightarrow> bool" where
  "deps_agree nodes adj \<longleftrightarrow>
     (\<forall>v n. hm_get nodes v = Some n \<longrightarrow> wn_id n = v \<and>
        (\<forall>u. count_list (wn_deps n) u = count_list (neighbors adj u) v))"

text \<open>The shape of a graph, cyclic or not: what a deserialised workflow can be expected to be.\<close>

definition dag_shape :: "workflow_dag \<Rightarrow> bool" where
  "dag_shape g \<longleftrightarrow> hm_ok (wd_nodes g) \<and> hm_ok (wd_adj g) \<and> hm_ok (wd_handlers g)
     \<and> hm_dom (wd_adj g) = hm_dom (wd_nodes g)
     \<and> hm_dom (wd_handlers g) \<subseteq> hm_dom (wd_nodes g)
     \<and> (\<forall>u. set (neighbors (wd_adj g) u) \<subseteq> hm_dom (wd_nodes g))
     \<and> deps_agree (wd_nodes g) (wd_adj g)"

definition dag_inv :: "workflow_dag \<Rightarrow> bool" where
  "dag_inv g \<longleftrightarrow> dag_shape g \<and> acyclic (edges (wd_adj g))"

lemmas dag_inv_defs = dag_inv_def dag_shape_def deps_agree_def

section \<open>How the operations change the adjacency\<close>

lemma dom_or_default [simp]: "hm_dom (adj_or_default i adj) = insert i (hm_dom adj)"
  by (auto simp: adj_or_default_def)

lemma neighbors_Some: "hm_get adj u = Some vs \<Longrightarrow> neighbors adj u = vs"
  by (simp add: neighbors_def)

lemma neighbors_or_default [simp]: "neighbors (adj_or_default i adj) u = neighbors adj u"
  using neighbors_not_key [of i adj] by (auto simp: adj_or_default_def neighbors_def)

lemma neighbors_push [simp]:
  "neighbors (adj_push src dst adj) u = neighbors adj u @ (if u = src then [dst] else [])"
proof -
  obtain vs where vs: "hm_get (adj_or_default src adj) src = Some vs"
    using hm_dom_get [of src "adj_or_default src adj"] by auto
  then have "vs = neighbors adj src"
    using neighbors_or_default [of src adj src] by (simp add: neighbors_def)
  then show ?thesis
    using vs neighbors_or_default [of src adj u] by (auto simp: adj_push_def neighbors_def)
qed

lemma dom_push [simp]: "hm_dom (adj_push src dst adj) = insert src (hm_dom adj)"
  by (simp add: adj_push_def)

lemma ok_or_default [simp]: "hm_ok adj \<Longrightarrow> hm_ok (adj_or_default i adj)"
  by (simp add: adj_or_default_def)

lemma ok_push [simp]: "hm_ok adj \<Longrightarrow> hm_ok (adj_push src dst adj)"
  by (simp add: adj_push_def)

lemma neighbors_drop:
  "neighbors (hm_map_values (\<lambda>_ vs. filter (\<lambda>v. v \<noteq> i) vs) (hm_remove i adj)) u =
    (if u = i then [] else filter (\<lambda>v. v \<noteq> i) (neighbors adj u))"
  by (auto simp: neighbors_def split: option.split)

lemma edges_push [simp]: "edges (adj_push i j adj) = insert (i, j) (edges adj)"
  by (auto simp: edges_def split: if_splits)

section \<open>The operations keep the invariant\<close>

lemma dag_inv_new: "dag_inv (dag_new i name)"
  by (simp add: dag_inv_defs dag_new_def neighbors_def edges_def acyclic_def)

lemma dag_inv_add_node_full:
  assumes inv: "dag_inv g" and fresh: "\<not> hm_has i (wd_nodes g)"
  shows "dag_inv (add_node_full i name d c h ts rc rd sk g)"
proof -
  from fresh inv have i: "i \<notin> hm_dom (wd_adj g)"
    and no_in: "\<And>u. i \<notin> set (neighbors (wd_adj g) u)" by (auto simp: dag_inv_def dag_shape_def)
  have "edges (adj_or_default i (wd_adj g)) = edges (wd_adj g)" by (simp add: edges_def)
  moreover have "\<And>u. count_list (neighbors (wd_adj g) u) i = 0"
    using no_in by (simp add: count_list_0_iff)
  ultimately show ?thesis using inv
    by (auto simp: dag_inv_defs add_node_full_def )
qed

lemma add_edge_Inr:
  "add_edge src dst g = Inr g' \<longleftrightarrow> hm_has src (wd_nodes g) \<and> hm_has dst (wd_nodes g) \<and> src \<noteq> dst
     \<and> acyclic (edges (adj_push src dst (wd_adj g)))
     \<and> g' = g\<lparr>wd_adj := adj_push src dst (wd_adj g),
               wd_nodes := hm_modify dst (\<lambda>n. n\<lparr>wn_deps := wn_deps n @ [src]\<rparr>) (wd_nodes g)\<rparr>"
  by (auto simp: add_edge_def has_cycle_iff)

lemma dag_inv_add_edge:
  assumes inv: "dag_inv g" and add: "add_edge src dst g = Inr g'"
  shows "dag_inv g'"
proof -
  from add have g': "g' = g\<lparr>wd_adj := adj_push src dst (wd_adj g),
      wd_nodes := hm_modify dst (\<lambda>n. n\<lparr>wn_deps := wn_deps n @ [src]\<rparr>) (wd_nodes g)\<rparr>"
    and ends: "src \<in> hm_dom (wd_nodes g)" "dst \<in> hm_dom (wd_nodes g)"
    and acyc: "acyclic (edges (adj_push src dst (wd_adj g)))"
    by (auto simp: add_edge_Inr )
  have "deps_agree (wd_nodes g') (wd_adj g')"
    using inv by (auto simp: g' dag_inv_defs)
  then show ?thesis using inv ends acyc
    unfolding dag_inv_def dag_shape_def g' by (auto)
qed

lemma dag_inv_remove_node:
  assumes inv: "dag_inv g" and rm: "remove_node i g = Inr g'"
  shows "dag_inv g'"
proof -
  let ?adj = "hm_map_values (\<lambda>_ vs. filter (\<lambda>v. v \<noteq> i) vs) (hm_remove i (wd_adj g))"
  let ?nodes = "hm_map_values (\<lambda>_ n. n\<lparr>wn_deps := filter (\<lambda>d. d \<noteq> i) (wn_deps n)\<rparr>)
    (hm_remove i (wd_nodes g))"
  from rm have g': "g' = g\<lparr>wd_nodes := ?nodes, wd_handlers := hm_remove i (wd_handlers g), wd_adj := ?adj\<rparr>"
    by (auto simp: remove_node_def split: if_splits)
  have "edges ?adj \<subseteq> edges (wd_adj g)" by (auto simp: edges_def neighbors_drop split: if_splits)
  with inv have "acyclic (edges ?adj)" by (auto simp: dag_inv_def dag_shape_def intro: acyclic_subset)
  moreover have "deps_agree ?nodes ?adj"
    using inv by (auto simp: dag_inv_defs neighbors_drop)
  ultimately show ?thesis using inv
    unfolding dag_inv_def dag_shape_def g' by (auto simp: neighbors_drop)
qed

text \<open>Changing a node's settings leaves its identifier and its dependencies.\<close>

lemma deps_agree_modify:
  "deps_agree nodes adj \<Longrightarrow> (\<And>n. wn_id (f n) = wn_id n \<and> wn_deps (f n) = wn_deps n)
    \<Longrightarrow> deps_agree (hm_modify i f nodes) adj"
  by (simp add: deps_agree_def) (metis (no_types, lifting) map_option_eq_Some)

lemma dag_inv_modify:
  "dag_inv g \<Longrightarrow> (\<And>n. wn_id (f n) = wn_id n \<and> wn_deps (f n) = wn_deps n)
    \<Longrightarrow> dag_inv (g\<lparr>wd_nodes := hm_modify i f (wd_nodes g)\<rparr>)"
  unfolding dag_inv_def dag_shape_def by (simp add: deps_agree_modify)

lemma dag_inv_set_timeout: "dag_inv g \<Longrightarrow> set_node_timeout i t g = Inr g' \<Longrightarrow> dag_inv g'"
  by (auto simp: set_node_timeout_def intro: dag_inv_modify split: option.splits)

lemma dag_inv_set_retry: "dag_inv g \<Longrightarrow> set_node_retry i c d g = Inr g' \<Longrightarrow> dag_inv g'"
  by (auto simp: set_node_retry_def intro: dag_inv_modify split: option.splits)

lemma dag_inv_set_skip_if: "dag_inv g \<Longrightarrow> set_node_skip_if i sk g = Inr g' \<Longrightarrow> dag_inv g'"
  by (auto simp: set_node_skip_if_def intro: dag_inv_modify split: option.splits)

lemma dag_inv_add_edges: "dag_inv g \<Longrightarrow> dag_inv (snd (add_edges es g))"
  by (induction es g rule: add_edges.induct) (auto dest: dag_inv_add_edge split: sum.splits)

lemma dag_inv_frame [simp]:
  "dag_inv (with_id i g) = dag_inv g" "dag_inv (set_event_handler g) = dag_inv g"
  "dag_inv g \<Longrightarrow> dag_inv (dag_clone g)"
  by (auto simp: dag_inv_def dag_shape_def with_id_def set_event_handler_def dag_clone_def)

section \<open>The graph as a state machine\<close>

text \<open>Everything a client of \<open>WorkflowDag\<close> can do to the graph.\<close>

inductive dag_step :: "workflow_dag \<Rightarrow> workflow_dag \<Rightarrow> bool" where
  step_id: "dag_step g (with_id i g)"
| step_handler: "dag_step g (set_event_handler g)"
| step_timeout: "set_node_timeout i t g = Inr g' \<Longrightarrow> dag_step g g'"
| step_retry: "set_node_retry i c d g = Inr g' \<Longrightarrow> dag_step g g'"
| step_skip: "set_node_skip_if i sk g = Inr g' \<Longrightarrow> dag_step g g'"
| step_add: "\<not> hm_has i (wd_nodes g) \<Longrightarrow> dag_step g (add_node_full i name ds c h ts rc rd sk g)"
| step_edge: "add_edge src dst g = Inr g' \<Longrightarrow> dag_step g g'"
| step_edges: "dag_step g (snd (add_edges es g))"
| step_remove: "remove_node i g = Inr g' \<Longrightarrow> dag_step g g'"
| step_clone: "dag_step g (dag_clone g)"

lemma dag_step_inv: "dag_step g g' \<Longrightarrow> dag_inv g \<Longrightarrow> dag_inv g'"
  by (induction rule: dag_step.induct)
    (auto intro: dag_inv_set_timeout dag_inv_set_retry dag_inv_set_skip_if dag_inv_add_node_full
      dag_inv_add_edge dag_inv_add_edges dag_inv_remove_node)

definition dag_init :: "workflow_dag \<Rightarrow> bool" where
  "dag_init g \<longleftrightarrow> (\<exists>i name. g = dag_new i name)"

interpretation dag_machine: machine dag_init dag_step dag_inv
  by unfold_locales (auto simp: dag_init_def dag_inv_new dag_step_inv)

end
