(* ===== verification/Dag_Topo.thy ===== *)
theory Dag_Topo
  imports Dag_State
begin

text \<open>
  The topological sort of the workflow engine (\<open>topological_sort\<close> in
  \<open>backends/src/workflow/dag.rs\<close>, Kahn's algorithm): on a graph of the right shape it never
  underflows an in-degree, and it returns an order of all nodes, dependencies first, exactly
  when the graph has no cycle.

  The map of in-degrees is iterated once, to find the first nodes; its iteration order is the
  parameter \<open>ord\<close>, which permutes a list. The subtraction \<open>*deg -= 1\<close> panics at zero, and a
  panic is \<open>None\<close>.
\<close>

section \<open>The algorithm\<close>

type_synonym indegrees = "(ls_id, nat) hmap"

definition indeg_start :: "ls_id list \<Rightarrow> indegrees" where
  "indeg_start ids = fold (\<lambda>i m. if hm_has i m then m else hm_insert i 0 m) ids []"

definition indeg_bump :: "ls_id \<Rightarrow> indegrees \<Rightarrow> indegrees" where
  "indeg_bump v m = (if hm_has v m then hm_modify v Suc m else hm_insert v 1 m)"

definition indeg_count :: "ls_id list list \<Rightarrow> indegrees \<Rightarrow> indegrees" where
  "indeg_count vss m = fold (\<lambda>vs. fold indeg_bump vs) vss m"

fun relax :: "ls_id list \<Rightarrow> indegrees \<Rightarrow> ls_id list \<Rightarrow> (indegrees \<times> ls_id list) option" where
  "relax [] m queue = Some (m, queue)"
| "relax (v # vs) m queue =
     (case hm_get m v of
        None \<Rightarrow> relax vs m queue
      | Some d \<Rightarrow>
          if d = 0 then None
          else relax vs (hm_modify v (\<lambda>d. d - 1) m) (if d - 1 = 0 then queue @ [v] else queue))"

lemma sum_modify_less:
  "hm_get m v = Some (d::nat) \<Longrightarrow> 0 < d \<Longrightarrow>
    sum_list (hm_values (hm_modify v (\<lambda>d. d - 1) m)) < sum_list (hm_values m)"
proof (induction m)
  case Nil
  then show ?case by simp
next
  case (Cons kv m)
  have le: "sum_list (hm_values (hm_modify v (\<lambda>d. d - 1) m)) \<le> sum_list (hm_values m)"
    by (induction m) (auto simp: hm_modify_def)
  obtain k e where kv: "kv = (k, e)" by (cases kv)
  show ?case
  proof (cases "k = v")
    case True
    with Cons.prems kv le show ?thesis by (simp add: hm_modify_def)
  next
    case False
    with Cons kv show ?thesis by (simp add: hm_modify_def)
  qed
qed

lemma relax_measure:
  "relax vs m q = Some (m', q') \<Longrightarrow>
    sum_list (hm_values m') + length q' \<le> sum_list (hm_values m) + length q"
proof (induction vs m q rule: relax.induct)
  case (1 m q)
  then show ?case by simp
next
  case (2 v vs m q)
  show ?case
  proof (cases "hm_get m v")
    case None
    with 2 show ?thesis by simp
  next
    case (Some d)
    with "2.prems" have "0 < d" by (auto split: if_splits)
    with 2 Some sum_modify_less [OF Some] show ?thesis by (auto split: if_splits)
  qed
qed

function kahn_loop :: "adjacency \<Rightarrow> indegrees \<Rightarrow> ls_id list \<Rightarrow> ls_id list \<Rightarrow> ls_id list option" where
  "kahn_loop adj m [] result = Some result"
| "kahn_loop adj m (i # queue) result =
     (case (case hm_get adj i of None \<Rightarrow> Some (m, queue) | Some dependents \<Rightarrow> relax dependents m queue) of
        None \<Rightarrow> None
      | Some (m', queue') \<Rightarrow> kahn_loop adj m' queue' (result @ [i]))"
  by pat_completeness auto
termination
proof (relation "measure (\<lambda>(adj, m, queue, result). sum_list (hm_values m) + length queue)", goal_cases)
  case 1
  show ?case by simp
next
  case (2 adj m i queue result p m' queue')
  then show ?case by (auto dest: relax_measure split: option.splits)
qed

definition topological_sort ::
  "((ls_id \<times> nat) list \<Rightarrow> (ls_id \<times> nat) list) \<Rightarrow> workflow_dag \<Rightarrow> ls_id list ls_result option" where
  "topological_sort ord g =
     (let indeg = indeg_count (hm_values (wd_adj g)) (indeg_start (hm_keys (wd_nodes g)));
          queue = map fst (filter (\<lambda>(_, d). d = 0) (ord indeg))
      in case kahn_loop (wd_adj g) indeg queue [] of
           None \<Rightarrow> None
         | Some result \<Rightarrow>
             Some (if length result \<noteq> length (wd_nodes g) then Inl (Internal ''graph contains a cycle'')
                   else Inr result))"

text \<open>An iteration order of a map: some permutation of its entries.\<close>

definition permutes_entries :: "('a list \<Rightarrow> 'a list) \<Rightarrow> bool" where
  "permutes_entries ord \<longleftrightarrow> (\<forall>xs. mset (ord xs) = mset xs)"

section \<open>The in-degrees\<close>

definition deg :: "indegrees \<Rightarrow> ls_id \<Rightarrow> nat" where
  "deg m v = (case hm_get m v of None \<Rightarrow> 0 | Some d \<Rightarrow> d)"

lemma deg_not_dom: "v \<notin> hm_dom m \<Longrightarrow> deg m v = 0"
  by (simp add: deg_def hm_get_None [THEN iffD2])

lemma indeg_start_props:
  "hm_ok (indeg_start ids) \<and> hm_dom (indeg_start ids) = set ids \<and> deg (indeg_start ids) v = 0"
proof -
  let ?f = "\<lambda>i m. if hm_has i m then m else hm_insert i (0::nat) m"
  have "hm_ok m \<Longrightarrow> (\<forall>v. deg m v = 0) \<Longrightarrow>
      hm_ok (fold ?f ids m) \<and> hm_dom (fold ?f ids m) = hm_dom m \<union> set ids \<and> deg (fold ?f ids m) v = 0" for m
    by (induction ids arbitrary: m) (auto simp: deg_def)
  from this [of "[]"] show ?thesis by (simp add: indeg_start_def deg_def)
qed

lemma indeg_bump_props:
  "deg (indeg_bump v m) u = deg m u + (if u = v then 1 else 0)"
  "hm_dom (indeg_bump v m) = insert v (hm_dom m)"
  "hm_ok m \<Longrightarrow> hm_ok (indeg_bump v m)"
  using deg_not_dom [of v m] hm_dom_get [of v m]
  by (auto simp: indeg_bump_def deg_def)

lemma fold_bump:
  "deg (fold indeg_bump vs m) u = deg m u + count_list vs u"
  "hm_dom (fold indeg_bump vs m) = hm_dom m \<union> set vs"
  "hm_ok m \<Longrightarrow> hm_ok (fold indeg_bump vs m)"
  by (induction vs arbitrary: m) (auto simp: indeg_bump_props)

lemma indeg_count_props:
  "deg (indeg_count vss m) u = deg m u + sum_list (map (\<lambda>vs. count_list vs u) vss)"
  "hm_dom (indeg_count vss m) = hm_dom m \<union> (\<Union>vs \<in> set vss. set vs)"
  "hm_ok m \<Longrightarrow> hm_ok (indeg_count vss m)"
  unfolding indeg_count_def by (induction vss arbitrary: m) (auto simp: fold_bump)

lemma sum_over_adj:
  "hm_ok adj \<Longrightarrow> sum_list (map (\<lambda>vs. f vs) (hm_values adj)) = (\<Sum>u \<in> hm_dom adj. f (neighbors adj u))"
proof (induction adj)
  case Nil
  then show ?case by simp
next
  case (Cons kv adj)
  obtain k vs where kv: "kv = (k, vs)" by (cases kv)
  with Cons.prems have k: "k \<notin> hm_dom adj" and ok: "hm_ok adj" by auto
  have "(\<Sum>u \<in> hm_dom adj. f (neighbors (kv # adj) u)) = (\<Sum>u \<in> hm_dom adj. f (neighbors adj u))"
    using k by (intro sum.cong) (auto simp: kv neighbors_def)
  with Cons.IH [OF ok] k show ?case by (simp add: kv neighbors_def)
qed

section \<open>The loop\<close>

text \<open>The predecessors that are still to be output, counted with the multiplicity of their edges.\<close>

definition pending :: "adjacency \<Rightarrow> ls_id set \<Rightarrow> ls_id \<Rightarrow> nat" where
  "pending adj R v = (\<Sum>u \<in> R. count_list (neighbors adj u) v)"

lemma pending_0: "finite R \<Longrightarrow> pending adj R v = 0 \<longleftrightarrow> (\<forall>u \<in> R. v \<notin> set (neighbors adj u))"
  by (simp add: pending_def count_list_0_iff)

text \<open>\<open>xs\<close> lists every node after the nodes it depends on.\<close>

fun deps_first :: "adjacency \<Rightarrow> ls_id list \<Rightarrow> ls_id set \<Rightarrow> bool" where
  "deps_first adj [] done_ids = True"
| "deps_first adj (v # vs) done_ids =
     ((\<forall>u. v \<in> set (neighbors adj u) \<longrightarrow> u \<in> done_ids) \<and> deps_first adj vs (insert v done_ids))"

lemma deps_first_snoc:
  "deps_first adj (vs @ [v]) D \<longleftrightarrow>
    deps_first adj vs D \<and> (\<forall>u. v \<in> set (neighbors adj u) \<longrightarrow> u \<in> D \<union> set vs)"
  by (induction vs arbitrary: D) auto

lemma relax_spec:
  assumes "\<forall>v. deg m v = base v + count_list vs v" and "set vs \<subseteq> hm_dom m"
  shows "\<exists>m' new. relax vs m q = Some (m', q @ new) \<and> (\<forall>v. deg m' v = base v)
    \<and> hm_dom m' = hm_dom m \<and> distinct new \<and> set new = {v \<in> set vs. base v = 0}"
  using assms
proof (induction vs arbitrary: m q)
  case Nil
  then show ?case by simp
next
  case (Cons v vs)
  from Cons.prems(2) obtain d where d: "hm_get m v = Some d" using hm_dom_get by fastforce
  from Cons.prems(1) have "deg m v = base v + Suc (count_list vs v)" by simp
  with d have dv: "d = base v + Suc (count_list vs v)" by (simp add: deg_def)
  let ?m = "hm_modify v (\<lambda>d. d - 1) m"
  let ?q = "if d - 1 = 0 then q @ [v] else q"
  have "\<forall>u. deg ?m u = base u + count_list vs u"
    using Cons.prems(1) d dv by (auto simp: deg_def)
  moreover have "set vs \<subseteq> hm_dom ?m" using Cons.prems(2) by simp
  ultimately obtain m' new where IH: "relax vs ?m ?q = Some (m', ?q @ new)" "\<forall>v. deg m' v = base v"
    "hm_dom m' = hm_dom m" "distinct new" "set new = {v \<in> set vs. base v = 0}"
    using Cons.IH [of ?m ?q] by auto
  have run: "relax (v # vs) m q = Some (m', ?q @ new)" using d dv IH(1) by simp
  show ?case
  proof (cases "d - 1 = 0")
    case True
    with dv have "base v = 0" and "v \<notin> set vs" by (auto simp: count_list_0_iff)
    with True run IH show ?thesis by (intro exI [of _ m'] exI [of _ "v # new"]) auto
  next
    case False
    then have "base v = 0 \<Longrightarrow> v \<in> set vs" using dv count_list_0_iff [of vs v] by auto
    with False run IH show ?thesis by (intro exI [of _ m'] exI [of _ new]) auto
  qed
qed

definition kahn_inv :: "adjacency \<Rightarrow> ls_id set \<Rightarrow> indegrees \<Rightarrow> ls_id list \<Rightarrow> ls_id list \<Rightarrow> bool" where
  "kahn_inv adj N m queue result \<longleftrightarrow>
     hm_dom m = N \<and> distinct (result @ queue) \<and> set (result @ queue) \<subseteq> N
     \<and> (\<forall>v. deg m v = pending adj (N - set result) v)
     \<and> (\<forall>v \<in> N. v \<in> set (result @ queue) \<longleftrightarrow> deg m v = 0)
     \<and> deps_first adj result {}"

lemma kahn_step:
  assumes inv: "kahn_inv adj N m (i # queue) result" and fin: "finite N"
    and targets: "\<forall>u. set (neighbors adj u) \<subseteq> N" and dom: "hm_dom adj = N"
  shows "\<exists>m' queue'. kahn_loop adj m (i # queue) result = kahn_loop adj m' queue' (result @ [i])
    \<and> kahn_inv adj N m' queue' (result @ [i])"
proof -
  let ?R = "N - set result" and ?R' = "N - set (result @ [i])"
  from inv have i: "i \<in> N" "i \<notin> set result" "i \<notin> set queue" and domm: "hm_dom m = N"
    and di: "deg m i = 0" and deg_all: "\<forall>v. deg m v = pending adj ?R v"
    by (auto simp: kahn_inv_def)
  have split: "pending adj ?R v = pending adj ?R' v + count_list (neighbors adj i) v" for v
  proof -
    have "?R - {i} = ?R'" and "i \<in> ?R" using i by auto
    then show ?thesis
      unfolding pending_def using sum.remove [of ?R i "\<lambda>u. count_list (neighbors adj u) v"] fin
      by (metis add.commute finite_Diff)
  qed
  from i dom obtain vs where vs: "hm_get adj i = Some vs" using hm_dom_get by fastforce
  then have nb: "neighbors adj i = vs" by (rule neighbors_Some)
  have "\<forall>v. deg m v = pending adj ?R' v + count_list vs v" using deg_all split nb by simp
  moreover have "set vs \<subseteq> hm_dom m" using targets nb domm by blast
  ultimately obtain m' new where r: "relax vs m queue = Some (m', queue @ new)"
    "\<forall>v. deg m' v = pending adj ?R' v" "hm_dom m' = hm_dom m" "distinct new"
    "set new = {v \<in> set vs. pending adj ?R' v = 0}"
    using relax_spec [of m "pending adj ?R'" vs queue] by auto
  have new: "v \<in> set new \<longleftrightarrow> deg m v \<noteq> 0 \<and> deg m' v = 0" for v
    using r(2,5) deg_all split [of v] nb by (auto simp: count_list_0_iff)
  have old: "v \<in> N \<Longrightarrow> v \<in> set (result @ i # queue) \<longleftrightarrow> deg m v = 0" for v
    using inv by (auto simp: kahn_inv_def)
  have mono: "deg m v = 0 \<Longrightarrow> deg m' v = 0" for v using r(2) deg_all split [of v] by simp
  have "set new \<subseteq> N" using r(5) targets nb by blast
  moreover have "deps_first adj (result @ [i]) {}"
  proof -
    have "u \<in> set result" if "i \<in> set (neighbors adj u)" for u
    proof (rule ccontr)
      assume "u \<notin> set result"
      moreover have "u \<in> N" using that dom neighbors_not_key [of u adj] by fastforce
      ultimately have "u \<in> ?R" by simp
      with that di deg_all pending_0 [of ?R adj i] fin show False by auto
    qed
    then show ?thesis using inv by (simp add: kahn_inv_def deps_first_snoc)
  qed
  moreover have "distinct (result @ i # queue @ new)"
  proof -
    have "set new \<inter> set (result @ i # queue) = {}"
      using new old \<open>set new \<subseteq> N\<close> by blast
    moreover have "distinct (result @ i # queue)" using inv by (simp add: kahn_inv_def)
    ultimately show ?thesis using r(4) by auto
  qed
  moreover have "\<forall>v \<in> N. v \<in> set (result @ i # queue @ new) \<longleftrightarrow> deg m' v = 0"
  proof
    fix v assume v: "v \<in> N"
    have "v \<in> set (result @ i # queue @ new) \<longleftrightarrow> v \<in> set (result @ i # queue) \<or> v \<in> set new"
      by auto
    also have "\<dots> \<longleftrightarrow> deg m' v = 0" using old [OF v] new [of v] mono [of v] by blast
    finally show "v \<in> set (result @ i # queue @ new) \<longleftrightarrow> deg m' v = 0" .
  qed
  ultimately have "kahn_inv adj N m' (queue @ new) (result @ [i])"
    using inv r(2,3) by (auto simp: kahn_inv_def)
  moreover have "kahn_loop adj m (i # queue) result = kahn_loop adj m' (queue @ new) (result @ [i])"
    using vs r(1) by simp
  ultimately show ?thesis by blast
qed

text \<open>
  The loop never underflows, and ends with a list of nodes, dependencies first, that every
  node left out has a predecessor outside of.
\<close>

lemma kahn_loop_spec:
  assumes "kahn_inv adj N m queue result" and fin: "finite N"
    and targets: "\<forall>u. set (neighbors adj u) \<subseteq> N" and dom: "hm_dom adj = N"
  shows "\<exists>m' out. kahn_loop adj m queue result = Some out \<and> kahn_inv adj N m' [] out"
  using assms(1)
proof (induction "card N - length result" arbitrary: m queue result rule: less_induct)
  case less
  show ?case
  proof (cases queue)
    case Nil
    with less.prems show ?thesis by auto
  next
    case (Cons i rest)
    with kahn_step [OF _ fin targets dom] less.prems obtain m' queue' where
      step: "kahn_loop adj m queue result = kahn_loop adj m' queue' (result @ [i])" and
      inv: "kahn_inv adj N m' queue' (result @ [i])" by blast
    from inv have "distinct (result @ [i])" "set (result @ [i]) \<subseteq> N" by (auto simp: kahn_inv_def)
    then have "length (result @ [i]) \<le> card N"
      using card_mono [OF fin] distinct_card by metis
    then have "card N - length (result @ [i]) < card N - length result" by simp
    from less.hyps [OF this inv] step show ?thesis by simp
  qed
qed

section \<open>Correctness\<close>

lemma deps_first_position:
  "deps_first adj xs D \<Longrightarrow> distinct xs \<Longrightarrow> D \<inter> set xs = {} \<Longrightarrow> v \<in> set xs \<Longrightarrow>
    v \<in> set (neighbors adj u) \<Longrightarrow>
    u \<in> D \<or> length (takeWhile (\<lambda>w. w \<noteq> u) xs) < length (takeWhile (\<lambda>w. w \<noteq> v) xs)"
proof (induction xs arbitrary: D)
  case Nil
  then show ?case by simp
next
  case (Cons x xs)
  show ?case
  proof (cases "v = x")
    case True
    with Cons.prems show ?thesis by auto
  next
    case False
    with Cons.IH [of "insert x D"] Cons.prems
    have "u \<in> insert x D \<or> length (takeWhile (\<lambda>w. w \<noteq> u) xs) < length (takeWhile (\<lambda>w. w \<noteq> v) xs)"
      by auto
    with False show ?thesis by auto
  qed
qed

lemma deps_first_take:
  "deps_first adj xs D \<Longrightarrow> k < length xs \<Longrightarrow> xs ! k \<in> set (neighbors adj u) \<Longrightarrow> u \<in> D \<union> set (take k xs)"
proof (induction xs arbitrary: D k)
  case Nil
  then show ?case by simp
next
  case (Cons x xs)
  show ?case
  proof (cases k)
    case 0
    with Cons.prems show ?thesis by auto
  next
    case (Suc k')
    with Cons.IH [of "insert x D" k'] Cons.prems show ?thesis by auto
  qed
qed

lemma deps_first_acyclic:
  assumes "deps_first adj xs {}" and "distinct xs" and "\<And>u. set (neighbors adj u) \<subseteq> set xs"
  shows "acyclic (edges adj)"
proof -
  have "edges adj \<subseteq> inv_image less_than (\<lambda>v. length (takeWhile (\<lambda>w. w \<noteq> v) xs))"
    using deps_first_position [OF assms(1,2)] assms(3) by fastforce
  then show ?thesis by (meson acyclic_subset wf_acyclic wf_inv_image wf_less_than)
qed

text \<open>On an acyclic graph nothing is left out.\<close>

lemma kahn_complete:
  assumes inv: "kahn_inv adj N m [] out" and fin: "finite N" and acyc: "acyclic (edges adj)"
    and targets: "\<forall>u. set (neighbors adj u) \<subseteq> N" and dom: "hm_dom adj = N"
  shows "set out = N"
proof (rule ccontr)
  assume "set out \<noteq> N"
  with inv have R: "N - set out \<noteq> {}" by (auto simp: kahn_inv_def)
  have "edges adj \<subseteq> N \<times> N"
    using targets dom neighbors_not_key by (fastforce simp: edges_def)
  with fin have "wf (edges adj)"
    using acyc by (meson finite_SigmaI finite_acyclic_wf finite_subset)
  with R obtain z where z: "z \<in> N - set out" "\<And>y. (y, z) \<in> edges adj \<Longrightarrow> y \<notin> N - set out"
    by (metis ex_in_conv wfE_min)
  from z(1) inv have "pending adj (N - set out) z \<noteq> 0" by (auto simp: kahn_inv_def)
  then obtain u where "u \<in> N - set out" "z \<in> set (neighbors adj u)"
    using pending_0 [of "N - set out" adj z] fin by auto
  with z(2) show False by auto
qed

lemma kahn_inv_start:
  assumes shape: "dag_shape g" and ord: "permutes_entries ord"
  shows "\<exists>indeg. indeg = indeg_count (hm_values (wd_adj g)) (indeg_start (hm_keys (wd_nodes g)))
    \<and> kahn_inv (wd_adj g) (hm_dom (wd_nodes g)) indeg (map fst (filter (\<lambda>(_, d). d = 0) (ord indeg))) []"
proof -
  let ?N = "hm_dom (wd_nodes g)" and ?adj = "wd_adj g"
  define m where "m = indeg_count (hm_values ?adj) (indeg_start (hm_keys (wd_nodes g)))"
  let ?q = "map fst (filter (\<lambda>(_, d). d = 0) (ord m))"
  from shape have okadj: "hm_ok ?adj" and dom: "hm_dom ?adj = ?N"
    and targets: "\<And>u. set (neighbors ?adj u) \<subseteq> ?N" by (auto simp: dag_shape_def)
  have "set vs \<subseteq> ?N" if "vs \<in> set (hm_values ?adj)" for vs
  proof -
    from that obtain u where "(u, vs) \<in> set ?adj" by auto
    with okadj have "neighbors ?adj u = vs" by (simp add: hm_ok_mem neighbors_Some)
    with targets show ?thesis by metis
  qed
  then have domm: "hm_dom m = ?N"
    using indeg_start_props by (auto simp: m_def indeg_count_props hm_set_keys simp del: set_map)
  have degm: "deg m v = pending ?adj (?N - set []) v" for v
    using sum_over_adj [OF okadj, of "\<lambda>vs. count_list vs v"] indeg_start_props dom
    by (simp add: m_def indeg_count_props pending_def)
  have okm: "hm_ok m" using indeg_start_props by (simp add: m_def indeg_count_props)
  from ord have perm: "mset (ord m) = mset m" by (simp add: permutes_entries_def)
  then have seto: "set (ord m) = set m" by (metis set_mset_mset)
  from perm have "mset (map fst (ord m)) = mset (map fst m)" by (metis mset_map)
  with okm have "distinct (map fst (ord m))" unfolding hm_ok_def by (metis mset_eq_imp_distinct_iff)
  then have "distinct ?q" by (rule distinct_map_filter)
  moreover have inq: "v \<in> set ?q \<longleftrightarrow> v \<in> ?N \<and> deg m v = 0" for v
  proof -
    have "v \<in> set ?q \<longleftrightarrow> (v, 0) \<in> set m" using seto by force
    also have "\<dots> \<longleftrightarrow> v \<in> ?N \<and> deg m v = 0"
      using okm domm hm_dom_get [of v m] hm_get_dom [of m v] by (auto simp: hm_ok_mem deg_def)
    finally show ?thesis .
  qed
  ultimately have "kahn_inv ?adj ?N m ?q []" using domm degm by (auto simp: kahn_inv_def)
  then show ?thesis using m_def by blast
qed

text \<open>
  \<open>sorted_nodes g ns\<close>: \<open>ns\<close> lists every node of \<open>g\<close> once, after the nodes it depends on.
\<close>

definition sorted_nodes :: "workflow_dag \<Rightarrow> ls_id list \<Rightarrow> bool" where
  "sorted_nodes g ns \<longleftrightarrow>
     distinct ns \<and> set ns = hm_dom (wd_nodes g) \<and> deps_first (wd_adj g) ns {}"

lemma topological_sort_cases:
  assumes shape: "dag_shape g" and ord: "permutes_entries ord"
  shows "if acyclic (edges (wd_adj g))
    then \<exists>ns. topological_sort ord g = Some (Inr ns) \<and> sorted_nodes g ns
    else topological_sort ord g = Some (Inl (Internal ''graph contains a cycle''))"
proof -
  let ?N = "hm_dom (wd_nodes g)" and ?adj = "wd_adj g"
  let ?m = "indeg_count (hm_values ?adj) (indeg_start (hm_keys (wd_nodes g)))"
  from shape have dom: "hm_dom ?adj = ?N" and ok: "hm_ok (wd_nodes g)"
    and targets: "\<forall>u. set (neighbors ?adj u) \<subseteq> ?N" by (auto simp: dag_shape_def)
  have fin: "finite ?N" by simp
  from kahn_inv_start [OF shape ord] kahn_loop_spec [OF _ fin targets dom]
  obtain m' ns where run:
    "kahn_loop ?adj ?m (map fst (filter (\<lambda>(_, d). d = 0) (ord ?m))) [] = Some ns"
    and inv: "kahn_inv ?adj ?N m' [] ns" by blast
  from inv have ns: "distinct ns" "set ns \<subseteq> ?N" "deps_first ?adj ns {}" by (auto simp: kahn_inv_def)
  have len: "length ns = length (wd_nodes g) \<longleftrightarrow> set ns = ?N"
    using hm_card_dom [OF ok] distinct_card [OF ns(1)] card_subset_eq [OF fin ns(2)] by auto
  have res: "topological_sort ord g = Some (if length ns \<noteq> length (wd_nodes g)
      then Inl (Internal ''graph contains a cycle'') else Inr ns)"
    using run by (simp add: topological_sort_def Let_def)
  show ?thesis
  proof (cases "acyclic (edges ?adj)")
    case True
    with kahn_complete [OF inv fin _ targets dom] len res ns show ?thesis
      by (simp add: sorted_nodes_def)
  next
    case False
    have "set ns \<noteq> ?N"
      using False deps_first_acyclic [OF ns(3,1)] targets by auto
    with False len res show ?thesis by simp
  qed
qed

end
