(* ===== verification/Dag_Exec.thy ===== *)
theory Dag_Exec
  imports Dag_Topo
begin

text \<open>
  The execution of a workflow (\<open>execute_inner\<close>, \<open>execute\<close>, \<open>resume\<close> and \<open>snapshot\<close> in
  \<open>backends/src/workflow/dag.rs\<close>): rounds over the ready nodes, the skip condition, the tasks
  with their attempts, time limit and backoff, and the collection of their results.

  The tasks of a round run concurrently and share nothing with the engine, so each is a
  function of its node, context and input; the engine emits every event itself, in the order of
  the log here. Wall-clock fields (\<open>started_at\<close>, \<open>completed_at\<close>, \<open>timestamp\<close>,
  \<open>total_duration_ms\<close>) are left out; \<open>duration_ms\<close> is the sum of what the attempts and the
  waits between them take.
\<close>

section \<open>Data\<close>

datatype node_status = Pending | Running | Completed | Failed | Skipped | TimedOut

fun node_status_text :: "node_status \<Rightarrow> string" where
  "node_status_text Pending = ''pending''"
| "node_status_text Running = ''running''"
| "node_status_text Completed = ''completed''"
| "node_status_text Failed = ''failed''"
| "node_status_text Skipped = ''skipped''"
| "node_status_text TimedOut = ''timed_out''"

record node_result =
  nr_node_id :: ls_id
  nr_node_name :: string
  nr_status :: node_status
  nr_output :: "json option"
  nr_error :: "string option"
  nr_duration_ms :: nat
  nr_attempts :: nat

datatype workflow_event =
    WorkflowStarted ls_id string
  | NodeStarted ls_id string
  | NodeCompleted ls_id string nat nat
  | NodeFailed ls_id string string nat nat
  | NodeSkipped ls_id string string
  | NodeTimedOut ls_id string nat
  | WorkflowCompleted ls_id string bool

record workflow_result =
  wr_workflow_id :: ls_id
  wr_workflow_name :: string
  wr_success :: bool
  wr_node_results :: "node_result list"

record exec_snapshot =
  es_completed :: "ls_id set"
  es_results :: "(ls_id, node_result) hmap"
  es_outputs :: "(ls_id, json) hmap"
  es_failed :: bool

definition snapshot_of ::
  "ls_id set \<Rightarrow> (ls_id, node_result) hmap \<Rightarrow> (ls_id, json) hmap \<Rightarrow> bool \<Rightarrow> exec_snapshot" where
  "snapshot_of completed results outputs failed = \<lparr>es_completed = completed,
     es_results = results, es_outputs = outputs, es_failed = failed\<rparr>"

text \<open>
  The local variables of the loop, with the events emitted so far, and what an execution takes
  from its surroundings: whether the build checks integer overflow, the clock and the trace
  identifiers of the child contexts.
\<close>

record run_state =
  rs_completed :: "ls_id set"
  rs_results :: "(ls_id, node_result) hmap"
  rs_outputs :: "(ls_id, json) hmap"
  rs_failed :: bool
  rs_log :: "workflow_event list"

record exec_env =
  ee_checked :: bool
  ee_now :: int
  ee_trace :: "ls_id \<Rightarrow> ls_id"

definition emit :: "workflow_dag \<Rightarrow> workflow_event \<Rightarrow> run_state \<Rightarrow> run_state" where
  "emit g ev st = (if wd_event_handler g then st\<lparr>rs_log := rs_log st @ [ev]\<rparr> else st)"

section \<open>The task of a node\<close>

text \<open>
  The \<open>u32\<close> arithmetic of the retries: on overflow a checked build panics and an unchecked one
  wraps around. A product of a \<open>Duration\<close> whose seconds leave \<open>u64\<close> panics in both.
\<close>

definition max_attempts :: "bool \<Rightarrow> nat \<Rightarrow> nat option" where
  "max_attempts checked retry =
     (if retry = 0 then Some 1
      else if retry + 1 < 2 ^ 32 then Some (retry + 1)
      else if checked then None else Some ((retry + 1) mod 2 ^ 32))"

definition backoff :: "bool \<Rightarrow> nat \<Rightarrow> nat \<Rightarrow> nat option" where
  "backoff checked delay_ms attempts =
     (let factor = (if attempts - 1 < 32 then Some (2 ^ (attempts - 1))
                    else if checked then None else Some 0)
      in case factor of
           None \<Rightarrow> None
         | Some f \<Rightarrow> if delay_ms * f div 1000 < 2 ^ 64 then Some (delay_ms * f) else None)"

text \<open>
  One attempt: how long it takes and what it gives, \<open>None\<close> for a panic. A time limit cuts an
  attempt that takes longer.
\<close>

definition timeout_error :: "string \<Rightarrow> nat \<Rightarrow> ls_error" where
  "timeout_error name secs =
     Timeout (''node '' @ [CHR 0x27] @ name @ [CHR 0x27] @ '' timed out after '' @ show_nat secs @ ''s'')"

definition run_attempt ::
  "node_handler option \<Rightarrow> workflow_node \<Rightarrow> ls_context \<Rightarrow> json \<Rightarrow> nat \<Rightarrow> (nat \<times> json ls_result) option" where
  "run_attempt h n ctx input attempts =
     (case h of
        None \<Rightarrow> Some (0, Inr Null)
      | Some f \<Rightarrow>
          (case f ctx input attempts of
             Panicked \<Rightarrow> None
           | Returned ms r \<Rightarrow>
               if wn_timeout_secs n > 0 \<and> ms > 1000 * wn_timeout_secs n
               then Some (1000 * wn_timeout_secs n, Inl (timeout_error (wn_name n) (wn_timeout_secs n)))
               else Some (ms, r)))"

type_synonym task_outcome = "(json ls_result \<times> nat \<times> nat) option"

function attempt_loop ::
  "bool \<Rightarrow> node_handler option \<Rightarrow> workflow_node \<Rightarrow> ls_context \<Rightarrow> json \<Rightarrow> nat \<Rightarrow> nat \<Rightarrow> nat \<Rightarrow> task_outcome" where
  "attempt_loop checked h n ctx input max_tries done_tries elapsed =
     (let attempts = done_tries + 1
      in case run_attempt h n ctx input attempts of
           None \<Rightarrow> None
         | Some (ms, Inr output) \<Rightarrow> Some (Inr output, elapsed + ms, attempts)
         | Some (ms, Inl e) \<Rightarrow>
             if attempts \<ge> max_tries then Some (Inl e, elapsed + ms, attempts)
             else (case backoff checked (wn_retry_delay_ms n) attempts of
                     None \<Rightarrow> None
                   | Some d \<Rightarrow> attempt_loop checked h n ctx input max_tries attempts (elapsed + ms + d)))"
  by pat_completeness auto

termination
  by (relation "measure (\<lambda>(_, _, _, _, _, max_tries, done_tries, _). max_tries - done_tries)") auto

declare attempt_loop.simps [simp del]

definition run_task :: "exec_env \<Rightarrow> workflow_dag \<Rightarrow> ls_context \<Rightarrow> json \<Rightarrow> workflow_node \<Rightarrow> ls_id \<Rightarrow> task_outcome" where
  "run_task env g ctx input n i =
     (case max_attempts (ee_checked env) (wn_retry_count n) of
        None \<Rightarrow> None
      | Some m \<Rightarrow> attempt_loop (ee_checked env) (hm_get (wd_handlers g) i) n
          (ctx_child (ee_now env) (ee_trace env i) ctx) input m 0 0)"

section \<open>A round\<close>

definition ready_nodes :: "workflow_dag \<Rightarrow> ls_id list \<Rightarrow> ls_id set \<Rightarrow> ls_id list" where
  "ready_nodes g order completed =
     filter (\<lambda>i. i \<notin> completed \<and>
       (case hm_get (wd_nodes g) i of
          None \<Rightarrow> False
        | Some n \<Rightarrow> list_all (\<lambda>d. d \<in> completed) (wn_deps n))) order"

definition should_skip :: "workflow_dag \<Rightarrow> (ls_id, json) hmap \<Rightarrow> string \<Rightarrow> bool" where
  "should_skip g outputs skip_node_name =
     list_ex (\<lambda>(nid, output).
       case hm_get (wd_nodes g) nid of
         None \<Rightarrow> False
       | Some n \<Rightarrow> wn_name n = skip_node_name \<and> output = Bool True) outputs"

definition skips :: "workflow_dag \<Rightarrow> (ls_id, json) hmap \<Rightarrow> workflow_node \<Rightarrow> bool" where
  "skips g outputs n = (case wn_skip_if n of None \<Rightarrow> False | Some s \<Rightarrow> should_skip g outputs s)"

definition skip_node :: "workflow_dag \<Rightarrow> ls_id \<Rightarrow> workflow_node \<Rightarrow> string \<Rightarrow> run_state \<Rightarrow> run_state" where
  "skip_node g i n skip_node_name st =
     emit g (NodeSkipped i (wn_name n)
         (''skipped by condition from node '' @ [CHR 0x27] @ skip_node_name @ [CHR 0x27]))
       (st\<lparr>rs_completed := insert i (rs_completed st),
           rs_results := hm_insert i \<lparr>nr_node_id = i, nr_node_name = wn_name n, nr_status = Skipped,
             nr_output = None, nr_error = None, nr_duration_ms = 0, nr_attempts = 0\<rparr> (rs_results st)\<rparr>)"

text \<open>The first half of a round: every ready node is skipped or its task is spawned.\<close>

fun start_ready ::
  "exec_env \<Rightarrow> workflow_dag \<Rightarrow> ls_context \<Rightarrow> json \<Rightarrow> ls_id list \<Rightarrow> run_state
   \<Rightarrow> run_state \<times> (ls_id \<times> task_outcome) list" where
  "start_ready env g ctx input [] st = (st, [])"
| "start_ready env g ctx input (i # ready) st =
     (case hm_get (wd_nodes g) i of
        None \<Rightarrow> start_ready env g ctx input ready st
      | Some n \<Rightarrow>
          if skips g (rs_outputs st) n
          then start_ready env g ctx input ready (skip_node g i n (the (wn_skip_if n)) st)
          else (let (st', handles) =
                  start_ready env g ctx input ready (emit g (NodeStarted i (wn_name n)) st)
                in (st', (i, run_task env g ctx input n i) # handles)))"

text \<open>The second half: the results are collected in the order of the tasks.\<close>

definition is_timeout :: "ls_error \<Rightarrow> bool" where
  "is_timeout e = (case e of Timeout _ \<Rightarrow> True | _ \<Rightarrow> False)"

definition collect_ok :: "workflow_dag \<Rightarrow> ls_id \<Rightarrow> json \<Rightarrow> nat \<Rightarrow> nat \<Rightarrow> run_state \<Rightarrow> run_state" where
  "collect_ok g i output duration attempts st =
     (let st1 = st\<lparr>rs_completed := insert i (rs_completed st),
                   rs_outputs := hm_insert i output (rs_outputs st)\<rparr>
      in case hm_get (wd_nodes g) i of
           None \<Rightarrow> st1
         | Some n \<Rightarrow> emit g (NodeCompleted i (wn_name n) duration attempts)
             (st1\<lparr>rs_results := hm_insert i \<lparr>nr_node_id = i, nr_node_name = wn_name n,
                nr_status = Completed, nr_output = Some output, nr_error = None,
                nr_duration_ms = duration, nr_attempts = attempts\<rparr> (rs_results st1)\<rparr>))"

definition collect_err :: "workflow_dag \<Rightarrow> ls_id \<Rightarrow> ls_error \<Rightarrow> nat \<Rightarrow> nat \<Rightarrow> run_state \<Rightarrow> run_state" where
  "collect_err g i e duration attempts st =
     (let st1 = st\<lparr>rs_failed := True\<rparr>
      in case hm_get (wd_nodes g) i of
           None \<Rightarrow> st1
         | Some n \<Rightarrow>
             emit g (if is_timeout e then NodeTimedOut i (wn_name n) (wn_timeout_secs n)
                     else NodeFailed i (wn_name n) (error_text e) duration attempts)
               (st1\<lparr>rs_results := hm_insert i \<lparr>nr_node_id = i, nr_node_name = wn_name n,
                  nr_status = (if is_timeout e then TimedOut else Failed), nr_output = None,
                  nr_error = Some (error_text e), nr_duration_ms = duration,
                  nr_attempts = attempts\<rparr> (rs_results st1)\<rparr>))"

fun collect :: "workflow_dag \<Rightarrow> ls_id \<times> task_outcome \<Rightarrow> run_state \<Rightarrow> run_state" where
  "collect g (i, Some (Inr output, duration, attempts)) st = collect_ok g i output duration attempts st"
| "collect g (i, Some (Inl e, duration, attempts)) st = collect_err g i e duration attempts st"
| "collect g (i, None) st = st\<lparr>rs_failed := True\<rparr>"

definition run_round ::
  "exec_env \<Rightarrow> workflow_dag \<Rightarrow> ls_context \<Rightarrow> json \<Rightarrow> ls_id list \<Rightarrow> run_state \<Rightarrow> run_state" where
  "run_round env g ctx input ready st =
     (let (st', handles) = start_ready env g ctx input ready st in fold (collect g) handles st')"


text \<open>How a round changes the log, the completed nodes and the failure flag.\<close>

definition start_event :: "workflow_dag \<Rightarrow> (ls_id, json) hmap \<Rightarrow> ls_id \<Rightarrow> workflow_event" where
  "start_event g outputs i = (let n = the (hm_get (wd_nodes g) i) in
     if skips g outputs n then NodeSkipped i (wn_name n)
       (''skipped by condition from node '' @ [CHR 0x27] @ the (wn_skip_if n) @ [CHR 0x27])
     else NodeStarted i (wn_name n))"

definition skipped_in :: "workflow_dag \<Rightarrow> (ls_id, json) hmap \<Rightarrow> ls_id \<Rightarrow> bool" where
  "skipped_in g outputs i \<longleftrightarrow> skips g outputs (the (hm_get (wd_nodes g) i))"

lemma emit_simps [simp]:
  "rs_completed (emit g ev st) = rs_completed st" "rs_results (emit g ev st) = rs_results st"
  "rs_outputs (emit g ev st) = rs_outputs st" "rs_failed (emit g ev st) = rs_failed st"
  "rs_log (emit g ev st) = rs_log st @ (if wd_event_handler g then [ev] else [])"
  by (auto simp: emit_def)

lemma skip_node_simps [simp]:
  "rs_completed (skip_node g i n s st) = insert i (rs_completed st)"
  "rs_outputs (skip_node g i n s st) = rs_outputs st"
  "rs_failed (skip_node g i n s st) = rs_failed st"
  by (auto simp: skip_node_def)

lemma start_ready_closed:
  assumes "start_ready env g ctx input ready st = (st', handles)" "set ready \<subseteq> hm_dom (wd_nodes g)"
  shows "rs_completed st' = rs_completed st \<union> {i \<in> set ready. skipped_in g (rs_outputs st) i}
    \<and> rs_failed st' = rs_failed st \<and> rs_outputs st' = rs_outputs st
    \<and> rs_log st' = rs_log st @ (if wd_event_handler g then map (start_event g (rs_outputs st)) ready else [])
    \<and> handles = map (\<lambda>i. (i, run_task env g ctx input (the (hm_get (wd_nodes g) i)) i))
        (filter (\<lambda>i. \<not> skipped_in g (rs_outputs st) i) ready)"
  using assms
proof (induction ready arbitrary: st st' handles)
  case Nil
  then show ?case by simp
next
  case (Cons i ready)
  then obtain n where n: "hm_get (wd_nodes g) i = Some n" using hm_dom_get [of i "wd_nodes g"] by auto
  show ?case
  proof (cases "skips g (rs_outputs st) n")
    case True
    with Cons.prems n have "start_ready env g ctx input ready
        (skip_node g i n (the (wn_skip_if n)) st) = (st', handles)" by simp
    from Cons.IH [OF this] Cons.prems True n show ?thesis
      by (auto simp: skipped_in_def start_event_def Let_def skip_node_def)
  next
    case False
    with Cons.prems n obtain hs where
      "start_ready env g ctx input ready (emit g (NodeStarted i (wn_name n)) st) = (st', hs)"
      and hs: "handles = (i, run_task env g ctx input n i) # hs"
      by (auto simp: Let_def split: prod.splits)
    from Cons.IH [OF this(1)] Cons.prems False n hs show ?thesis
      by (auto simp: skipped_in_def start_event_def Let_def)
  qed
qed

fun collect_event :: "workflow_dag \<Rightarrow> ls_id \<times> task_outcome \<Rightarrow> workflow_event list" where
  "collect_event g (i, Some (Inr output, duration, attempts)) =
     [NodeCompleted i (wn_name (the (hm_get (wd_nodes g) i))) duration attempts]"
| "collect_event g (i, Some (Inl e, duration, attempts)) =
     [if is_timeout e then NodeTimedOut i (wn_name (the (hm_get (wd_nodes g) i)))
        (wn_timeout_secs (the (hm_get (wd_nodes g) i)))
      else NodeFailed i (wn_name (the (hm_get (wd_nodes g) i))) (error_text e) duration attempts]"
| "collect_event g (i, None) = []"

fun task_ok :: "ls_id \<times> task_outcome \<Rightarrow> bool" where
  "task_ok (i, Some (Inr output, duration, attempts)) = True"
| "task_ok h = False"

lemma collect_closed:
  assumes "fst h \<in> hm_dom (wd_nodes g)"
  shows "rs_completed (collect g h st) = rs_completed st \<union> (if task_ok h then {fst h} else {})
    \<and> rs_failed (collect g h st) = (rs_failed st \<or> \<not> task_ok h)
    \<and> rs_log (collect g h st) = rs_log st @ (if wd_event_handler g then collect_event g h else [])"
proof -
  obtain n where n: "hm_get (wd_nodes g) (fst h) = Some n" using hm_dom_get [OF assms] by blast
  obtain i t where h: "h = (i, t)" by (cases h)
  show ?thesis
  proof (cases t)
    case None
    then show ?thesis by (simp add: h)
  next
    case (Some q)
    obtain r d a where q: "q = (r, d, a)" by (cases q)
    show ?thesis using n by (cases r) (simp_all add: h Some q collect_ok_def collect_err_def)
  qed
qed

lemma fold_collect_closed:
  assumes "fst ` set hs \<subseteq> hm_dom (wd_nodes g)"
  shows "rs_completed (fold (collect g) hs st) = rs_completed st \<union> fst ` {h \<in> set hs. task_ok h}
    \<and> rs_failed (fold (collect g) hs st) = (rs_failed st \<or> (\<exists>h \<in> set hs. \<not> task_ok h))
    \<and> rs_log (fold (collect g) hs st) =
        rs_log st @ (if wd_event_handler g then concat (map (collect_event g) hs) else [])"
  using assms
proof (induction hs arbitrary: st)
  case Nil
  then show ?case by simp
next
  case (Cons h hs)
  from Cons.prems have h: "fst h \<in> hm_dom (wd_nodes g)" and hs: "fst ` set hs \<subseteq> hm_dom (wd_nodes g)" by auto
  show ?case using Cons.IH [OF hs, of "collect g h st"] collect_closed [OF h, of st]
    by (auto simp del: collect.simps)
qed

text \<open>The tasks of a round.\<close>

definition round_tasks ::
  "exec_env \<Rightarrow> workflow_dag \<Rightarrow> ls_context \<Rightarrow> json \<Rightarrow> ls_id list \<Rightarrow> (ls_id, json) hmap
   \<Rightarrow> (ls_id \<times> task_outcome) list" where
  "round_tasks env g ctx input ready outputs =
     map (\<lambda>i. (i, run_task env g ctx input (the (hm_get (wd_nodes g) i)) i))
       (filter (\<lambda>i. \<not> skipped_in g outputs i) ready)"

lemma run_round_closed:
  assumes "set ready \<subseteq> hm_dom (wd_nodes g)"
  shows "rs_completed (run_round env g ctx input ready st) = rs_completed st
      \<union> {i \<in> set ready. skipped_in g (rs_outputs st) i}
      \<union> fst ` {h \<in> set (round_tasks env g ctx input ready (rs_outputs st)). task_ok h}"
    and "rs_failed (run_round env g ctx input ready st) \<longleftrightarrow> rs_failed st
      \<or> (\<exists>h \<in> set (round_tasks env g ctx input ready (rs_outputs st)). \<not> task_ok h)"
    and "rs_log (run_round env g ctx input ready st) = rs_log st @ (if wd_event_handler g
        then map (start_event g (rs_outputs st)) ready
          @ concat (map (collect_event g) (round_tasks env g ctx input ready (rs_outputs st))) else [])"
proof -
  obtain st' handles where start: "start_ready env g ctx input ready st = (st', handles)"
    by fastforce
  note closed = start_ready_closed [OF start assms]
  then have tasks: "handles = round_tasks env g ctx input ready (rs_outputs st)"
    by (simp add: round_tasks_def)
  with closed assms have "fst ` set handles \<subseteq> hm_dom (wd_nodes g)" by (auto simp: round_tasks_def)
  note fold = fold_collect_closed [OF this, of st']
  show "rs_completed (run_round env g ctx input ready st) = rs_completed st
      \<union> {i \<in> set ready. skipped_in g (rs_outputs st) i}
      \<union> fst ` {h \<in> set (round_tasks env g ctx input ready (rs_outputs st)). task_ok h}"
    "rs_failed (run_round env g ctx input ready st) \<longleftrightarrow> rs_failed st
      \<or> (\<exists>h \<in> set (round_tasks env g ctx input ready (rs_outputs st)). \<not> task_ok h)"
    "rs_log (run_round env g ctx input ready st) = rs_log st @ (if wd_event_handler g
        then map (start_event g (rs_outputs st)) ready
          @ concat (map (collect_event g) (round_tasks env g ctx input ready (rs_outputs st))) else [])"
    using fold closed tasks start by (simp_all add: run_round_def)
qed

lemma ready_nodes_iff:
  "i \<in> set (ready_nodes g order C) \<longleftrightarrow> i \<in> set order \<and> i \<notin> C
    \<and> (\<exists>n. hm_get (wd_nodes g) i = Some n \<and> set (wn_deps n) \<subseteq> C)"
  by (auto simp: ready_nodes_def list_all_iff split: option.splits)

lemma ready_nodes_dom: "set (ready_nodes g order C) \<subseteq> hm_dom (wd_nodes g)"
  by (auto simp: ready_nodes_iff intro: hm_get_dom)

text \<open>A round that does not fail completes every ready node, so the rounds end.\<close>

lemma run_round_completes:
  assumes "set ready \<subseteq> hm_dom (wd_nodes g)" "\<not> rs_failed (run_round env g ctx input ready st)"
  shows "rs_completed (run_round env g ctx input ready st) = rs_completed st \<union> set ready"
proof -
  from run_round_closed(2) [OF assms(1)] assms(2)
  have "{h \<in> set (round_tasks env g ctx input ready (rs_outputs st)). task_ok h}
      = set (round_tasks env g ctx input ready (rs_outputs st))" by auto
  with run_round_closed(1) [OF assms(1)] show ?thesis
    by (auto simp: round_tasks_def image_iff)
qed

section \<open>The rounds\<close>

function run_rounds ::
  "exec_env \<Rightarrow> workflow_dag \<Rightarrow> ls_context \<Rightarrow> json \<Rightarrow> ls_id list \<Rightarrow> run_state \<Rightarrow> run_state" where
  "run_rounds env g ctx input order st =
     (if rs_failed st then st
      else (let ready = ready_nodes g order (rs_completed st)
            in if ready = [] then st
               else run_rounds env g ctx input order (run_round env g ctx input ready st)))"
  by pat_completeness auto

definition rounds_left :: "ls_id list \<Rightarrow> run_state \<Rightarrow> nat" where
  "rounds_left order st =
     (if rs_failed st then 0 else Suc (card (set order - rs_completed st)))"

lemma rounds_left_less:
  assumes "\<not> rs_failed st" "ready_nodes g order (rs_completed st) \<noteq> []"
  shows "rounds_left order (run_round env g ctx input (ready_nodes g order (rs_completed st)) st)
    < rounds_left order st"
proof (cases "rs_failed (run_round env g ctx input (ready_nodes g order (rs_completed st)) st)")
  case True
  with assms show ?thesis by (simp add: rounds_left_def)
next
  case False
  let ?ready = "ready_nodes g order (rs_completed st)"
  from assms(2) have "hd ?ready \<in> set ?ready" by simp
  then have "hd ?ready \<in> set order - rs_completed st" "hd ?ready \<in> set ?ready"
    by (auto simp: ready_nodes_iff)
  then have "set order - (rs_completed st \<union> set ?ready) \<subset> set order - rs_completed st" by blast
  with run_round_completes [OF ready_nodes_dom False] False assms(1) show ?thesis
    by (simp add: rounds_left_def psubset_card_mono)
qed

termination run_rounds
  by (relation "measure (\<lambda>(_, _, _, _, order, st). rounds_left order st)")
    (auto simp: rounds_left_less)

declare run_rounds.simps [simp del]

section \<open>An execution\<close>

definition restore :: "exec_snapshot option \<Rightarrow> run_state" where
  "restore snap = (case snap of
     None \<Rightarrow> \<lparr>rs_completed = {}, rs_results = [], rs_outputs = [], rs_failed = False, rs_log = []\<rparr>
   | Some s \<Rightarrow> \<lparr>rs_completed = es_completed s, rs_results = es_results s,
       rs_outputs = es_outputs s, rs_failed = es_failed s, rs_log = []\<rparr>)"

fun take_results :: "ls_id list \<Rightarrow> (ls_id, node_result) hmap \<Rightarrow> node_result list" where
  "take_results [] m = []"
| "take_results (i # is) m =
     (case hm_get m i of
        None \<Rightarrow> take_results is m
      | Some r \<Rightarrow> r # take_results is (hm_remove i m))"

definition finish :: "workflow_dag \<Rightarrow> ls_id list \<Rightarrow> run_state \<Rightarrow> workflow_result \<times> workflow_event list" where
  "finish g order st =
     (\<lparr>wr_workflow_id = wd_id g, wr_workflow_name = wd_name g, wr_success = (\<not> rs_failed st),
       wr_node_results = take_results order (rs_results st)\<rparr>,
      rs_log (emit g (WorkflowCompleted (wd_id g) (wd_name g) (\<not> rs_failed st)) st))"

definition execute_inner ::
  "((ls_id \<times> nat) list \<Rightarrow> (ls_id \<times> nat) list) \<Rightarrow> exec_env \<Rightarrow> workflow_dag \<Rightarrow> ls_context \<Rightarrow> json
   \<Rightarrow> exec_snapshot option \<Rightarrow> (workflow_result \<times> workflow_event list) ls_result option" where
  "execute_inner ord env g ctx input snap =
     (case topological_sort ord g of
        None \<Rightarrow> None
      | Some (Inl e) \<Rightarrow> Some (Inl e)
      | Some (Inr order) \<Rightarrow> Some (Inr (finish g order
          (run_rounds env g ctx input order
            (emit g (WorkflowStarted (wd_id g) (wd_name g)) (restore snap))))))"

definition execute ::
  "((ls_id \<times> nat) list \<Rightarrow> (ls_id \<times> nat) list) \<Rightarrow> exec_env \<Rightarrow> workflow_dag \<Rightarrow> ls_context \<Rightarrow> json
   \<Rightarrow> (workflow_result \<times> workflow_event list) ls_result option" where
  "execute ord env g ctx input = execute_inner ord env g ctx input None"

definition resume ::
  "((ls_id \<times> nat) list \<Rightarrow> (ls_id \<times> nat) list) \<Rightarrow> exec_env \<Rightarrow> workflow_dag \<Rightarrow> ls_context \<Rightarrow> json
   \<Rightarrow> exec_snapshot \<Rightarrow> (workflow_result \<times> workflow_event list) ls_result option" where
  "resume ord env g ctx input snap = execute_inner ord env g ctx input (Some snap)"

end
