(* ===== verification/Dag_Run.thy ===== *)
theory Dag_Run
  imports Dag_Exec
begin

text \<open>
  What an execution of a workflow guarantees: it runs every node unless one fails, starts a node
  once and after the nodes it depends on, reports one result per node in topological order, and
  a resumed execution continues as the original one would have.
\<close>

section \<open>Induction over the rounds\<close>

lemma run_rounds_invariant:
  assumes "P st"
    and "\<And>st. P st \<Longrightarrow> \<not> rs_failed st \<Longrightarrow>
      P (run_round env g ctx input (ready_nodes g order (rs_completed st)) st)"
  shows "P (run_rounds env g ctx input order st)"
  using assms
proof (induction env g ctx input order st rule: run_rounds.induct)
  case (1 env g ctx input order st)
  then show ?case by (subst run_rounds.simps) (auto simp: Let_def)
qed

lemma run_rounds_end:
  "rs_failed (run_rounds env g ctx input order st)
    \<or> ready_nodes g order (rs_completed (run_rounds env g ctx input order st)) = []"
proof (induction env g ctx input order st rule: run_rounds.induct)
  case (1 env g ctx input order st)
  show ?case
    using 1 by (subst (1 2) run_rounds.simps) (auto simp: Let_def)
qed

section \<open>Every node is completed\<close>

lemma deps_neighbors:
  "dag_shape g \<Longrightarrow> hm_get (wd_nodes g) v = Some n \<Longrightarrow>
    u \<in> set (wn_deps n) \<longleftrightarrow> v \<in> set (neighbors (wd_adj g) u)"
  unfolding dag_shape_def deps_agree_def by (metis count_list_0_iff)

lemma deps_first_all_completed:
  assumes shape: "dag_shape g" and stuck: "ready_nodes g order C = []"
  shows "deps_first (wd_adj g) vs D \<Longrightarrow> D \<subseteq> C \<Longrightarrow> set vs \<subseteq> set order \<inter> hm_dom (wd_nodes g)
    \<Longrightarrow> set vs \<subseteq> C"
proof (induction vs arbitrary: D)
  case Nil
  then show ?case by simp
next
  case (Cons v vs)
  then obtain n where n: "hm_get (wd_nodes g) v = Some n" using hm_dom_get [of v "wd_nodes g"] by auto
  have "set (wn_deps n) \<subseteq> C" using Cons.prems deps_neighbors [OF shape n] by auto
  moreover have "v \<notin> set (ready_nodes g order C)" using stuck by simp
  ultimately have "v \<in> C" using Cons.prems n by (auto simp: ready_nodes_iff)
  with Cons show ?case by auto
qed

lemma run_rounds_completes:
  assumes "dag_shape g" "sorted_nodes g order" "\<not> rs_failed (run_rounds env g ctx input order st)"
  shows "set order \<subseteq> rs_completed (run_rounds env g ctx input order st)"
  using assms run_rounds_end [of env g ctx input order st]
    deps_first_all_completed [of g order _ order "{}"] by (auto simp: sorted_nodes_def)

section \<open>The order of the events\<close>

fun finished_id :: "workflow_event \<Rightarrow> ls_id option" where
  "finished_id (NodeCompleted i nm d a) = Some i"
| "finished_id (NodeSkipped i nm why) = Some i"
| "finished_id ev = None"

definition finished :: "workflow_event list \<Rightarrow> ls_id set" where
  "finished log = {i. \<exists>ev \<in> set log. finished_id ev = Some i}"

fun started_id :: "workflow_event \<Rightarrow> ls_id list" where
  "started_id (NodeStarted i nm) = [i]"
| "started_id ev = []"

definition started :: "workflow_event list \<Rightarrow> ls_id list" where
  "started log = concat (map started_id log)"

text \<open>
  The nodes a started node depends on were completed before the execution or are reported as
  completed or skipped earlier in the log.
\<close>

definition starts_after_deps :: "workflow_dag \<Rightarrow> ls_id set \<Rightarrow> workflow_event list \<Rightarrow> bool" where
  "starts_after_deps g C log \<longleftrightarrow>
     (\<forall>k < length log. \<forall>i nm. log ! k = NodeStarted i nm \<longrightarrow>
        (\<exists>n. get_node g i = Some n \<and> set (wn_deps n) \<subseteq> C \<union> finished (take k log)))"

lemma finished_append [simp]: "finished (xs @ ys) = finished xs \<union> finished ys"
  by (auto simp: finished_def)

lemma finished_Nil [simp]: "finished [] = {}"
  by (simp add: finished_def)

lemma started_append [simp]: "started (xs @ ys) = started xs @ started ys"
  by (simp add: started_def)

lemma starts_after_deps_append:
  assumes "starts_after_deps g C log"
    and "\<And>i nm. NodeStarted i nm \<in> set evs \<Longrightarrow>
      \<exists>n. get_node g i = Some n \<and> set (wn_deps n) \<subseteq> C \<union> finished log"
  shows "starts_after_deps g C (log @ evs)"
  unfolding starts_after_deps_def
proof (intro allI impI)
  fix k i nm
  assume k: "k < length (log @ evs)" and ev: "(log @ evs) ! k = NodeStarted i nm"
  show "\<exists>n. get_node g i = Some n \<and> set (wn_deps n) \<subseteq> C \<union> finished (take k (log @ evs))"
  proof (cases "k < length log")
    case True
    with assms(1) ev show ?thesis by (auto simp: starts_after_deps_def nth_append)
  next
    case False
    with k have "k - length log < length evs" by simp
    from nth_mem [OF this] False ev have "NodeStarted i nm \<in> set evs" by (simp add: nth_append)
    from assms(2) [OF this] False show ?thesis by auto
  qed
qed

lemma finished_start:
  "finished (map (start_event g outputs) ready) = {i \<in> set ready. skipped_in g outputs i}"
proof (induction ready)
  case Nil
  then show ?case by simp
next
  case (Cons i ready)
  have "finished (start_event g outputs i # evs) =
      (if skipped_in g outputs i then {i} else {}) \<union> finished evs" for evs
    by (auto simp: finished_def start_event_def skipped_in_def Let_def)
  with Cons show ?case by auto
qed

lemma started_start:
  "started (map (start_event g outputs) ready) = filter (\<lambda>i. \<not> skipped_in g outputs i) ready"
  by (induction ready) (auto simp: started_def start_event_def skipped_in_def Let_def)

lemma collect_event_finished: "finished (collect_event g h) = (if task_ok h then {fst h} else {})"
  by (cases "(g, h)" rule: collect_event.cases) (auto simp: finished_def)

lemma collect_event_started: "started (collect_event g h) = []"
  by (cases "(g, h)" rule: collect_event.cases) (auto simp: started_def)

lemma finished_collect:
  "finished (concat (map (collect_event g) hs)) = fst ` {h \<in> set hs. task_ok h}"
  by (induction hs) (auto simp: collect_event_finished)

lemma started_collect: "started (concat (map (collect_event g) hs)) = []"
  by (induction hs) (simp_all add: collect_event_started, simp add: started_def)

lemma start_event_started:
  "start_event g outputs i' = NodeStarted i nm \<Longrightarrow> i' = i"
  by (simp add: start_event_def Let_def split: if_splits)

lemma collect_event_not_started: "NodeStarted i nm \<notin> set (collect_event g h)"
  by (cases "(g, h)" rule: collect_event.cases) auto

definition log_inv :: "workflow_dag \<Rightarrow> ls_id set \<Rightarrow> run_state \<Rightarrow> bool" where
  "log_inv g C st \<longleftrightarrow> rs_completed st = C \<union> finished (rs_log st)
     \<and> starts_after_deps g C (rs_log st)
     \<and> distinct (started (rs_log st)) \<and> set (started (rs_log st)) \<inter> C = {}
     \<and> (rs_failed st \<or> set (started (rs_log st)) \<subseteq> rs_completed st)"

lemma log_inv_round:
  assumes inv: "log_inv g C st" and ok: "\<not> rs_failed st" and h: "wd_event_handler g"
    and order: "distinct order"
  shows "log_inv g C (run_round env g ctx input (ready_nodes g order (rs_completed st)) st)"
    (is "log_inv g C ?st'")
proof -
  let ?ready = "ready_nodes g order (rs_completed st)"
  let ?tasks = "round_tasks env g ctx input ?ready (rs_outputs st)"
  note closed = run_round_closed [OF ready_nodes_dom, of env g ctx input order "rs_completed st" st]
  have log: "rs_log ?st' = rs_log st @ map (start_event g (rs_outputs st)) ?ready
      @ concat (map (collect_event g) ?tasks)" using closed(3) h by simp
  have started: "started (rs_log ?st') = started (rs_log st)
      @ filter (\<lambda>i. \<not> skipped_in g (rs_outputs st) i) ?ready"
    by (simp add: log started_start started_collect)
  have distinct: "distinct ?ready" using order by (simp add: ready_nodes_def)
  have fresh: "set ?ready \<inter> rs_completed st = {}" by (auto simp: ready_nodes_iff)
  have completed: "rs_completed ?st' = C \<union> finished (rs_log ?st')"
    unfolding closed(1) log finished_append finished_start finished_collect
    using inv unfolding log_inv_def by blast
  have "starts_after_deps g C (rs_log ?st')"
    unfolding log
  proof (rule starts_after_deps_append)
    show "starts_after_deps g C (rs_log st)" using inv by (simp add: log_inv_def)
    fix i nm
    assume "NodeStarted i nm \<in> set (map (start_event g (rs_outputs st)) ?ready
      @ concat (map (collect_event g) ?tasks))"
    then have "i \<in> set ?ready"
      using collect_event_not_started by (auto dest: start_event_started [OF sym])
    with inv show "\<exists>n. get_node g i = Some n \<and> set (wn_deps n) \<subseteq> C \<union> finished (rs_log st)"
      by (auto simp: ready_nodes_iff log_inv_def get_node_def)
  qed
  moreover have old: "set (started (rs_log st)) \<subseteq> rs_completed st"
    "distinct (started (rs_log st))" "set (started (rs_log st)) \<inter> C = {}" "C \<subseteq> rs_completed st"
    using inv ok by (auto simp: log_inv_def)
  moreover have "rs_failed ?st' \<or> set (started (rs_log ?st')) \<subseteq> rs_completed ?st'"
    using run_round_completes [OF ready_nodes_dom, of env g ctx input order "rs_completed st" st] old(1)
    unfolding started by auto
  moreover have "distinct (started (rs_log ?st'))" "set (started (rs_log ?st')) \<inter> C = {}"
    unfolding started using old distinct fresh by auto
  ultimately show ?thesis unfolding log_inv_def using completed by blast
qed

lemma log_inv_rounds:
  assumes "log_inv g C st" "wd_event_handler g" "distinct order"
  shows "log_inv g C (run_rounds env g ctx input order st)"
  by (rule run_rounds_invariant) (use assms log_inv_round in auto)

section \<open>The attempts of a task\<close>

lemma attempt_loop_attempts:
  assumes "attempt_loop checked h n ctx input m k t = Some (r, d, a)"
  shows "k < a \<and> a \<le> max m (k + 1) \<and> (\<forall>e. r = Inl e \<longrightarrow> m \<le> a)"
  using assms
proof (induction checked h n ctx input m k t rule: attempt_loop.induct)
  case (1 checked h n ctx input m k t)
  show ?case
  proof (cases "run_attempt h n ctx input (k + 1)")
    case None
    with 1 show ?thesis by (simp add: attempt_loop.simps [of checked h n ctx input m k t])
  next
    case (Some q)
    obtain ms r' where q: "q = (ms, r')" by (cases q)
    note unfolded = 1(2) [unfolded attempt_loop.simps [of checked h n ctx input m k t] Let_def Some q]
    show ?thesis
    proof (cases r')
      case (Inr out)
      with unfolded show ?thesis by auto
    next
      case (Inl e)
      show ?thesis
      proof (cases "m \<le> k + 1")
        case True
        with unfolded Inl show ?thesis by auto
      next
        case False
        with unfolded Inl obtain w where w: "backoff checked (wn_retry_delay_ms n) (k + 1) = Some w"
          and rest: "attempt_loop checked h n ctx input m (k + 1) (t + ms + w) = Some (r, d, a)"
          by (auto split: option.splits)
        from 1(1) [OF refl Some q [symmetric] Inl False w rest] False show ?thesis by auto
      qed
    qed
  qed
qed

lemma max_attempts_le:
  "max_attempts checked retry = Some m \<Longrightarrow> m \<le> retry + 1 \<and> (retry + 1 < 2 ^ 32 \<longrightarrow> m = retry + 1)"
  by (auto simp: max_attempts_def split: if_splits intro: order_trans [OF mod_less_eq_dividend])

lemma run_task_attempts:
  assumes "run_task env g ctx input n i = Some (r, d, a)"
  shows "1 \<le> a \<and> a \<le> wn_retry_count n + 1
    \<and> (\<forall>e. r = Inl e \<longrightarrow> wn_retry_count n + 1 < 2 ^ 32 \<longrightarrow> a = wn_retry_count n + 1)"
proof -
  from assms obtain m where m: "max_attempts (ee_checked env) (wn_retry_count n) = Some m"
    and loop: "attempt_loop (ee_checked env) (hm_get (wd_handlers g) i) n
      (ctx_child (ee_now env) (ee_trace env i) ctx) input m 0 0 = Some (r, d, a)"
    by (auto simp: run_task_def split: option.splits)
  from attempt_loop_attempts [OF loop] max_attempts_le [OF m] show ?thesis by auto
qed

section \<open>The results\<close>

definition is_done :: "node_status \<Rightarrow> bool" where
  "is_done s \<longleftrightarrow> s = Completed \<or> s = Skipped"

text \<open>What a recorded result says of its node, whether or not the node is completed.\<close>

definition result_ok :: "workflow_dag \<Rightarrow> ls_id \<Rightarrow> node_result \<Rightarrow> bool" where
  "result_ok g i r \<longleftrightarrow> nr_node_id r = i \<and>
     (\<exists>n. get_node g i = Some n \<and> nr_node_name r = wn_name n \<and>
       (case nr_status r of
          Completed \<Rightarrow> nr_output r \<noteq> None \<and> nr_error r = None
            \<and> 1 \<le> nr_attempts r \<and> nr_attempts r \<le> wn_retry_count n + 1
        | Skipped \<Rightarrow> nr_output r = None \<and> nr_error r = None \<and> nr_attempts r = 0 \<and> wn_skip_if n \<noteq> None
        | Pending \<Rightarrow> False
        | Running \<Rightarrow> False
        | _ \<Rightarrow> nr_output r = None \<and> nr_error r \<noteq> None
            \<and> 1 \<le> nr_attempts r \<and> nr_attempts r \<le> wn_retry_count n + 1
            \<and> (wn_retry_count n + 1 < 2 ^ 32 \<longrightarrow> nr_attempts r = wn_retry_count n + 1)))"

definition results_inv ::
  "workflow_dag \<Rightarrow> ls_id set \<Rightarrow> (ls_id, node_result) hmap \<Rightarrow> bool \<Rightarrow> bool" where
  "results_inv g C R F \<longleftrightarrow> hm_ok R \<and> C \<subseteq> hm_dom R
     \<and> (\<forall>i r. hm_get R i = Some r \<longrightarrow> result_ok g i r \<and> (i \<in> C \<longleftrightarrow> is_done (nr_status r))
          \<and> (i \<notin> C \<longrightarrow> F))"

abbreviation state_inv :: "workflow_dag \<Rightarrow> run_state \<Rightarrow> bool" where
  "state_inv g st \<equiv> results_inv g (rs_completed st) (rs_results st) (rs_failed st)"

lemma results_inv_done:
  assumes "results_inv g C R F" "result_ok g i r" "is_done (nr_status r)"
  shows "results_inv g (insert i C) (hm_insert i r R) F"
  using assms by (auto simp: results_inv_def)

lemma results_inv_error:
  assumes "results_inv g C R F" "result_ok g i r" "\<not> is_done (nr_status r)" "i \<notin> C"
  shows "results_inv g C (hm_insert i r R) True"
  using assms by (auto simp: results_inv_def)

lemma results_inv_fail: "results_inv g C R F \<Longrightarrow> results_inv g C R True"
  by (auto simp: results_inv_def)

lemma start_ready_results:
  assumes "start_ready env g ctx input ready st = (st', handles)" "state_inv g st"
  shows "state_inv g st'"
  using assms
proof (induction ready arbitrary: st st' handles)
  case Nil
  then show ?case by simp
next
  case (Cons i ready)
  show ?case
  proof (cases "hm_get (wd_nodes g) i")
    case None
    with Cons show ?thesis by simp
  next
    case (Some n)
    show ?thesis
    proof (cases "skips g (rs_outputs st) n")
      case True
      then have "wn_skip_if n \<noteq> None" by (auto simp: skips_def split: option.splits)
      with Cons.prems(2) Some have "state_inv g (skip_node g i n (the (wn_skip_if n)) st)"
        by (auto simp: skip_node_def intro!: results_inv_done
            simp: result_ok_def get_node_def is_done_def)
      with Cons.IH Cons.prems(1) Some True show ?thesis by auto
    next
      case False
      with Cons.prems Some obtain hs where
        "start_ready env g ctx input ready (emit g (NodeStarted i (wn_name n)) st) = (st', hs)"
        by (auto simp: Let_def split: prod.splits)
      from Cons.IH [OF this] Cons.prems(2) show ?thesis by simp
    qed
  qed
qed

definition task_of :: "exec_env \<Rightarrow> workflow_dag \<Rightarrow> ls_context \<Rightarrow> json \<Rightarrow> ls_id \<times> task_outcome \<Rightarrow> bool" where
  "task_of env g ctx input h \<longleftrightarrow>
     (\<exists>n. hm_get (wd_nodes g) (fst h) = Some n \<and> snd h = run_task env g ctx input n (fst h))"

lemma collect_results:
  assumes "task_of env g ctx input h" "state_inv g st" "fst h \<notin> rs_completed st"
  shows "state_inv g (collect g h st)"
proof -
  obtain i t where h: "h = (i, t)" by (cases h)
  with assms(1) obtain n where n: "hm_get (wd_nodes g) i = Some n"
    and t: "t = run_task env g ctx input n i" by (auto simp: task_of_def)
  show ?thesis
  proof (cases t)
    case None
    with h assms(2) show ?thesis by (simp add: results_inv_fail)
  next
    case (Some q)
    obtain r d a where q: "q = (r, d, a)" by (cases q)
    note bounds = run_task_attempts [OF t [symmetric, unfolded Some q]]
    show ?thesis
    proof (cases r)
      case (Inl e)
      with assms n h Some q bounds show ?thesis
        by (auto simp: collect_err_def Let_def intro!: results_inv_error
            simp: result_ok_def get_node_def is_done_def)
    next
      case (Inr out)
      with assms n h Some q bounds show ?thesis
        by (auto simp: collect_ok_def Let_def intro!: results_inv_done
            simp: result_ok_def get_node_def is_done_def)
    qed
  qed
qed

lemma disjoint_grown: "A \<subseteq> insert x B \<Longrightarrow> x \<notin> S \<Longrightarrow> S \<inter> B = {} \<Longrightarrow> S \<inter> A = {}"
  by blast

lemma fold_collect_results:
  assumes "\<forall>h \<in> set hs. task_of env g ctx input h" "distinct (map fst hs)"
    "state_inv g st" "fst ` set hs \<inter> rs_completed st = {}"
  shows "state_inv g (fold (collect g) hs st)"
  using assms
proof (induction hs arbitrary: st)
  case Nil
  then show ?case by simp
next
  case (Cons h hs)
  then have task: "task_of env g ctx input h" by simp
  then have "fst h \<in> hm_dom (wd_nodes g)" by (auto simp: task_of_def intro: hm_get_dom)
  from collect_closed [OF this, of st]
  have "rs_completed (collect g h st) \<subseteq> insert (fst h) (rs_completed st)" by auto
  moreover have "fst h \<notin> fst ` set hs" "fst ` set hs \<inter> rs_completed st = {}"
    using Cons.prems(2,4) by simp_all
  ultimately have "fst ` set hs \<inter> rs_completed (collect g h st) = {}" by (rule disjoint_grown)
  with Cons collect_results [OF task, of st] show ?case
    by (simp del: collect.simps)
qed

lemma round_results:
  assumes inv: "state_inv g st" and order: "distinct order"
  shows "state_inv g (run_round env g ctx input (ready_nodes g order (rs_completed st)) st)"
proof -
  let ?ready = "ready_nodes g order (rs_completed st)"
  obtain st' hs where start: "start_ready env g ctx input ?ready st = (st', hs)" by fastforce
  note closed = start_ready_closed [OF start ready_nodes_dom]
  have ready: "distinct ?ready" "set ?ready \<inter> rs_completed st = {}"
    using order by (simp add: ready_nodes_def) (auto simp: ready_nodes_iff)
  have ids: "map fst hs = filter (\<lambda>i. \<not> skipped_in g (rs_outputs st) i) ?ready"
    using closed by (simp add: comp_def)
  have tasks: "\<forall>h \<in> set hs. task_of env g ctx input h"
    using closed by (auto simp: task_of_def ready_nodes_iff)
  have "set (map fst hs) \<inter> rs_completed st' = {}"
    unfolding ids using closed ready(2) by auto
  moreover have "distinct (map fst hs)" unfolding ids using ready(1) by simp
  ultimately have "state_inv g (fold (collect g) hs st')"
    using fold_collect_results [OF tasks _ start_ready_results [OF start inv]] by simp
  then show ?thesis by (simp add: run_round_def start)
qed

lemma rounds_results:
  assumes "state_inv g st" "distinct order"
  shows "state_inv g (run_rounds env g ctx input order st)"
  by (rule run_rounds_invariant [where P = "state_inv g"]) (use assms round_results in auto)

lemma take_results_map:
  "distinct order \<Longrightarrow> take_results order R = map (the \<circ> hm_get R) (filter (\<lambda>i. i \<in> hm_dom R) order)"
proof (induction order arbitrary: R)
  case Nil
  then show ?case by simp
next
  case (Cons i order)
  have same: "map (the \<circ> hm_get (hm_remove i R)) (filter (\<lambda>j. j \<in> hm_dom (hm_remove i R)) order)
      = map (the \<circ> hm_get R) (filter (\<lambda>j. j \<in> hm_dom R) order)"
    using Cons.prems by (intro map_cong filter_cong) auto
  show ?case
  proof (cases "hm_get R i")
    case None
    then have "i \<notin> hm_dom R" by (simp add: hm_get_None)
    with Cons None show ?thesis by simp
  next
    case (Some r)
    with Cons same hm_get_dom [OF Some] show ?thesis by (simp add: comp_def)
  qed
qed

section \<open>Checkpoints\<close>

text \<open>The rounds read no event, so an earlier log stays in front of theirs.\<close>

definition add_log :: "workflow_event list \<Rightarrow> run_state \<Rightarrow> run_state" where
  "add_log l st = st\<lparr>rs_log := l @ rs_log st\<rparr>"

lemma add_log_simps [simp]:
  "rs_completed (add_log l st) = rs_completed st" "rs_results (add_log l st) = rs_results st"
  "rs_outputs (add_log l st) = rs_outputs st" "rs_failed (add_log l st) = rs_failed st"
  by (simp_all add: add_log_def)

lemma emit_add_log: "emit g ev (add_log l st) = add_log l (emit g ev st)"
  by (simp add: emit_def add_log_def)

lemma skip_node_add_log: "skip_node g i n s (add_log l st) = add_log l (skip_node g i n s st)"
  by (simp add: skip_node_def emit_def add_log_def)

lemma start_ready_add_log:
  "start_ready env g ctx input ready (add_log l st) =
    map_prod (add_log l) id (start_ready env g ctx input ready st)"
  by (induction ready arbitrary: st)
    (auto simp: skip_node_add_log emit_add_log Let_def split: option.splits prod.splits)

lemma collect_add_log: "collect g h (add_log l st) = add_log l (collect g h st)"
proof -
  obtain i t where h: "h = (i, t)" by (cases h)
  show ?thesis
  proof (cases t)
    case None
    then show ?thesis by (simp add: h add_log_def)
  next
    case (Some q)
    obtain r d a where q: "q = (r, d, a)" by (cases q)
    show ?thesis
      by (cases r) (auto simp: h Some q collect_ok_def collect_err_def Let_def emit_def add_log_def
          split: option.split)
  qed
qed

lemma fold_collect_add_log: "fold (collect g) hs (add_log l st) = add_log l (fold (collect g) hs st)"
  by (induction hs arbitrary: st) (simp_all add: collect_add_log del: collect.simps)

lemma run_round_add_log:
  "run_round env g ctx input ready (add_log l st) = add_log l (run_round env g ctx input ready st)"
  by (simp add: run_round_def start_ready_add_log map_prod_def fold_collect_add_log split: prod.split)

lemma run_rounds_add_log:
  "run_rounds env g ctx input order (add_log l st) = add_log l (run_rounds env g ctx input order st)"
proof (induction env g ctx input order st rule: run_rounds.induct)
  case (1 env g ctx input order st)
  then show ?case
    by (subst (1 2) run_rounds.simps) (simp add: Let_def run_round_add_log)
qed

text \<open>The state after at most \<open>k\<close> rounds, where a checkpoint can be taken.\<close>

fun rounds_upto ::
  "nat \<Rightarrow> exec_env \<Rightarrow> workflow_dag \<Rightarrow> ls_context \<Rightarrow> json \<Rightarrow> ls_id list \<Rightarrow> run_state \<Rightarrow> run_state" where
  "rounds_upto 0 env g ctx input order st = st"
| "rounds_upto (Suc k) env g ctx input order st =
     (if rs_failed st \<or> ready_nodes g order (rs_completed st) = [] then st
      else rounds_upto k env g ctx input order
        (run_round env g ctx input (ready_nodes g order (rs_completed st)) st))"

lemma run_rounds_upto:
  "run_rounds env g ctx input order (rounds_upto k env g ctx input order st) =
    run_rounds env g ctx input order st"
proof (induction k env g ctx input order st rule: rounds_upto.induct)
  case (2 k env g ctx input order st)
  then show ?case
    by (cases "rs_failed st \<or> ready_nodes g order (rs_completed st) = []")
      (auto simp: run_rounds.simps [of env g ctx input order st] Let_def)
qed simp

definition checkpoint :: "run_state \<Rightarrow> exec_snapshot" where
  "checkpoint st = snapshot_of (rs_completed st) (rs_results st) (rs_outputs st) (rs_failed st)"

lemma restore_checkpoint: "add_log (rs_log st) (restore (Some (checkpoint st))) = st"
  by (simp add: restore_def checkpoint_def snapshot_of_def add_log_def)

lemma finish_add_log: "fst (finish g order (add_log l st)) = fst (finish g order st)"
  by (simp add: finish_def)

lemma resume_checkpoint:
  "fst (finish g order (run_rounds env g ctx input order (emit g ev (restore (Some (checkpoint st))))))
    = fst (finish g order (run_rounds env g ctx input order st))"
proof -
  let ?l = "if wd_event_handler g then [ev] else []"
  have l: "emit g ev (restore (Some (checkpoint st))) = add_log ?l (restore (Some (checkpoint st)))"
    by (simp add: emit_def add_log_def restore_def checkpoint_def snapshot_of_def)
  have "fst (finish g order (run_rounds env g ctx input order st))
      = fst (finish g order (run_rounds env g ctx input order (restore (Some (checkpoint st)))))"
    by (subst restore_checkpoint [symmetric]) (simp only: run_rounds_add_log finish_add_log)
  then show ?thesis by (simp add: l run_rounds_add_log finish_add_log)
qed

lemma emit_restore_None:
  "emit g ev (restore None) = add_log (if wd_event_handler g then [ev] else []) (restore None)"
  by (simp add: emit_def add_log_def restore_def)

section \<open>What an execution returns\<close>

lemma execute_inner_sorted:
  assumes "dag_inv g" "permutes_entries ord"
  obtains order where "sorted_nodes g order" "topological_sort ord g = Some (Inr order)"
    and "execute_inner ord env g ctx input snap = Some (Inr (finish g order
      (run_rounds env g ctx input order (emit g (WorkflowStarted (wd_id g) (wd_name g)) (restore snap)))))"
  using topological_sort_cases [of g ord] assms
  by (auto simp: dag_inv_def execute_inner_def)

lemma restore_inv:
  "state_inv g (emit g ev (restore None))"
  by (simp add: restore_def results_inv_def)

lemma restore_snapshot_inv:
  "results_inv g (es_completed s) (es_results s) (es_failed s) \<Longrightarrow> state_inv g (emit g ev (restore (Some s)))"
  by (simp add: restore_def)

lemma restore_log_inv:
  "started_id ev = [] \<Longrightarrow> finished_id ev = None \<Longrightarrow>
    log_inv g (case snap of None \<Rightarrow> {} | Some s \<Rightarrow> es_completed s) (emit g ev (restore snap))"
  by (auto simp: restore_def log_inv_def finished_def started_def starts_after_deps_def
      split: option.split)

text \<open>A failed execution leaves a node that is not completed.\<close>

lemma round_failed:
  assumes "\<not> rs_failed st" "rs_failed (run_round env g ctx input (ready_nodes g order (rs_completed st)) st)"
  shows "\<exists>i \<in> set order. i \<notin> rs_completed
    (run_round env g ctx input (ready_nodes g order (rs_completed st)) st)"
proof -
  let ?ready = "ready_nodes g order (rs_completed st)"
  let ?tasks = "round_tasks env g ctx input ?ready (rs_outputs st)"
  note closed = run_round_closed [OF ready_nodes_dom, of env g ctx input order "rs_completed st" st]
  from closed(2) assms obtain h where h: "h \<in> set ?tasks" "\<not> task_ok h" by auto
  then have i: "fst h \<in> set ?ready" "\<not> skipped_in g (rs_outputs st) (fst h)"
    by (auto simp: round_tasks_def)
  have "k = h" if "k \<in> set ?tasks" "fst k = fst h" for k
    using that h by (auto simp: round_tasks_def)
  then have "fst h \<notin> fst ` {k \<in> set ?tasks. task_ok k}" using h(2) by auto
  moreover have "fst h \<in> set order" "fst h \<notin> rs_completed st" using i(1) by (auto simp: ready_nodes_iff)
  ultimately show ?thesis unfolding closed(1) using i(2) by blast
qed

lemma run_rounds_failed:
  assumes "\<not> rs_failed st" "rs_failed (run_rounds env g ctx input order st)"
  shows "\<exists>i \<in> set order. i \<notin> rs_completed (run_rounds env g ctx input order st)"
proof -
  have "rs_failed (run_rounds env g ctx input order st) \<longrightarrow>
      (\<exists>i \<in> set order. i \<notin> rs_completed (run_rounds env g ctx input order st))"
    by (rule run_rounds_invariant) (use assms(1) round_failed in auto)
  with assms(2) show ?thesis by simp
qed

text \<open>The reported results are those of the state at the end, in the order of the sort.\<close>

lemma finish_results:
  assumes inv: "state_inv g st" and order: "distinct order" and sub: "hm_dom (rs_results st) \<subseteq> set order"
  shows "map nr_node_id (wr_node_results (fst (finish g order st))) =
      filter (\<lambda>i. i \<in> nr_node_id ` set (wr_node_results (fst (finish g order st)))) order"
    and "r \<in> set (wr_node_results (fst (finish g order st))) \<longleftrightarrow>
      hm_get (rs_results st) (nr_node_id r) = Some r"
    and "i \<in> rs_completed st \<longleftrightarrow>
      (\<exists>r \<in> set (wr_node_results (fst (finish g order st))). nr_node_id r = i \<and> is_done (nr_status r))"
proof -
  let ?R = "rs_results st"
  let ?rs = "wr_node_results (fst (finish g order st))"
  have rs: "?rs = map (the \<circ> hm_get ?R) (filter (\<lambda>i. i \<in> hm_dom ?R) order)"
    using order by (simp add: finish_def take_results_map)
  have id: "nr_node_id r = i" if "hm_get ?R i = Some r" for i r
    using that inv by (auto simp: results_inv_def result_ok_def)
  then have id': "nr_node_id (the (hm_get ?R i)) = i" if "i \<in> hm_dom ?R" for i
    using hm_dom_get [OF that] by auto
  have set_rs: "set ?rs = (the \<circ> hm_get ?R) ` hm_dom ?R"
    unfolding rs using sub by (simp add: inf.absorb2 Collect_conj_eq flip: Int_def)
  have some: "hm_get ?R i = Some (the (hm_get ?R i))" if "i \<in> hm_dom ?R" for i
    using hm_dom_get [OF that] by auto
  show mem: "r \<in> set ?rs \<longleftrightarrow> hm_get ?R (nr_node_id r) = Some r" for r
  proof
    assume "r \<in> set ?rs"
    then obtain i where i: "i \<in> hm_dom ?R" "r = the (hm_get ?R i)" unfolding set_rs by auto
    with some [OF i(1)] id' [OF i(1)] show "hm_get ?R (nr_node_id r) = Some r" by simp
  next
    assume r: "hm_get ?R (nr_node_id r) = Some r"
    from imageI [OF hm_get_dom [OF r], of "the \<circ> hm_get ?R"] r show "r \<in> set ?rs"
      unfolding set_rs by simp
  qed
  have "map nr_node_id ?rs = map (\<lambda>i. i) (filter (\<lambda>i. i \<in> hm_dom ?R) order)"
    unfolding rs map_map by (rule map_cong) (auto simp: id')
  moreover have "nr_node_id ` set ?rs = hm_dom ?R"
    unfolding set_rs image_image comp_def by (simp add: id' cong: image_cong_simp)
  ultimately show "map nr_node_id ?rs = filter (\<lambda>i. i \<in> nr_node_id ` set ?rs) order" by simp
  show "i \<in> rs_completed st \<longleftrightarrow> (\<exists>r \<in> set ?rs. nr_node_id r = i \<and> is_done (nr_status r))"
  proof
    assume "i \<in> rs_completed st"
    then have "i \<in> hm_dom ?R" using inv by (auto simp: results_inv_def)
    from hm_dom_get [OF this] obtain r where r: "hm_get ?R i = Some r" by auto
    with \<open>i \<in> rs_completed st\<close> inv have "is_done (nr_status r)" by (simp add: results_inv_def)
    moreover have "r \<in> set ?rs" using mem id [OF r] r by simp
    ultimately show "\<exists>r \<in> set ?rs. nr_node_id r = i \<and> is_done (nr_status r)" using id [OF r] by auto
  next
    assume "\<exists>r \<in> set ?rs. nr_node_id r = i \<and> is_done (nr_status r)"
    then obtain r where "r \<in> set ?rs" "nr_node_id r = i" "is_done (nr_status r)" by blast
    with mem inv show "i \<in> rs_completed st" by (simp add: results_inv_def)
  qed
qed

lemma result_ok_node: "result_ok g i r \<Longrightarrow> i \<in> hm_dom (wd_nodes g)"
  unfolding result_ok_def get_node_def using hm_get_dom by metis

lemma results_dom: "results_inv g C R F \<Longrightarrow> hm_dom R \<subseteq> hm_dom (wd_nodes g)"
  unfolding results_inv_def using hm_dom_get [of _ R] result_ok_node by blast

text \<open>An execution from a state with the invariant of the results.\<close>

lemma execution_results:
  assumes g: "dag_inv g" and sorted: "sorted_nodes g order" and inv: "state_inv g st"
    and st': "st' = run_rounds env g ctx input order st"
    and res: "res = fst (finish g order st')"
  shows "map nr_node_id (wr_node_results res) =
      filter (\<lambda>i. i \<in> nr_node_id ` set (wr_node_results res)) order"
    and "\<forall>r \<in> set (wr_node_results res). result_ok g (nr_node_id r) r"
    and "wr_success res \<Longrightarrow>
      map nr_node_id (wr_node_results res) = order \<and> (\<forall>r \<in> set (wr_node_results res). is_done (nr_status r))"
    and "\<not> rs_failed st \<Longrightarrow> wr_success res \<longleftrightarrow> (\<forall>i \<in> hm_dom (wd_nodes g).
      \<exists>r \<in> set (wr_node_results res). nr_node_id r = i \<and> is_done (nr_status r))"
proof -
  from sorted have order: "distinct order" "set order = hm_dom (wd_nodes g)"
    by (auto simp: sorted_nodes_def)
  have inv': "state_inv g st'" unfolding st' by (rule rounds_results [OF inv order(1)])
  have sub: "hm_dom (rs_results st') \<subseteq> set order" using results_dom [OF inv'] order by simp
  note facts = finish_results [OF inv' order(1) sub, folded res]
  have success: "wr_success res \<longleftrightarrow> \<not> rs_failed st'" by (simp add: res finish_def)
  show ids: "map nr_node_id (wr_node_results res) =
      filter (\<lambda>i. i \<in> nr_node_id ` set (wr_node_results res)) order" by (rule facts(1))
  show "\<forall>r \<in> set (wr_node_results res). result_ok g (nr_node_id r) r"
    using facts(2) inv' by (auto simp: results_inv_def)
  have done_all: "set order \<subseteq> rs_completed st'" if "wr_success res"
    using run_rounds_completes [OF _ sorted, of env ctx input st] g that success st'
    by (simp add: dag_inv_def)
  show "map nr_node_id (wr_node_results res) = order \<and> (\<forall>r \<in> set (wr_node_results res). is_done (nr_status r))"
    if "wr_success res"
  proof
    have "set order \<subseteq> nr_node_id ` set (wr_node_results res)"
    proof
      fix i assume "i \<in> set order"
      with done_all [OF that] facts(3) [of i] show "i \<in> nr_node_id ` set (wr_node_results res)" by auto
    qed
    then have "filter (\<lambda>i. i \<in> nr_node_id ` set (wr_node_results res)) order = order"
      by (intro filter_True) auto
    then show "map nr_node_id (wr_node_results res) = order" using ids by simp
    show "\<forall>r \<in> set (wr_node_results res). is_done (nr_status r)"
    proof
      fix r assume "r \<in> set (wr_node_results res)"
      then have r: "hm_get (rs_results st') (nr_node_id r) = Some r" using facts(2) by simp
      then have "nr_node_id r \<in> rs_completed st'"
        using hm_get_dom [OF r] sub done_all [OF that] by auto
      with inv' r show "is_done (nr_status r)" by (simp add: results_inv_def)
    qed
  qed
  show "wr_success res \<longleftrightarrow> (\<forall>i \<in> hm_dom (wd_nodes g).
      \<exists>r \<in> set (wr_node_results res). nr_node_id r = i \<and> is_done (nr_status r))" if "\<not> rs_failed st"
    using done_all run_rounds_failed [OF that, of env g ctx input order] order(2)
    unfolding facts(3) [symmetric] success st' by blast
qed

lemma resume_from_checkpoint:
  assumes "topological_sort ord g = Some (Inr order)"
  shows "\<exists>res log log'. execute ord env g ctx input = Some (Inr (res, log))
    \<and> resume ord env g ctx input (checkpoint (rounds_upto k env g ctx input order (restore None))) =
      Some (Inr (res, log'))"
proof -
  let ?ev = "WorkflowStarted (wd_id g) (wd_name g)"
  have "fst (finish g order (run_rounds env g ctx input order (emit g ?ev (restore (Some (checkpoint (rounds_upto k env g ctx input order (restore None))))))))
      = fst (finish g order (run_rounds env g ctx input order (restore None)))"
    unfolding resume_checkpoint run_rounds_upto ..
  also have "\<dots> = fst (finish g order (run_rounds env g ctx input order (emit g ?ev (restore None))))"
    by (simp add: emit_restore_None run_rounds_add_log finish_add_log)
  finally show ?thesis
    using assms unfolding execute_def resume_def execute_inner_def
    by (simp add: prod_eq_iff)
qed

end
