(* ===== verification/Checkpoint.thy ===== *)
theory Checkpoint
  imports Dag_Run
begin

text \<open>
  Workflow checkpoints (\<open>backends/src/workflow/checkpoint.rs\<close>): the interface of a checkpoint
  store as a locale, the in-memory store that provides it, and the manager that resumes a
  workflow from its stored checkpoint or runs it from the start.

  The manager holds its store behind a trait object; here its operations take the store's
  operations as arguments. \<open>created_at\<close> is the time given by the caller.
\<close>

record wf_checkpoint =
  cp_workflow_id :: ls_id
  cp_workflow_name :: string
  cp_snapshot :: exec_snapshot
  cp_input :: json
  cp_created_at :: string

record cp_summary =
  sum_workflow_id :: ls_id
  sum_workflow_name :: string
  sum_completed_nodes :: nat
  sum_total_nodes :: nat
  sum_failed :: bool
  sum_created_at :: string

section \<open>The in-memory store\<close>

type_synonym mem_store = "(ls_id, wf_checkpoint) hmap"

definition mem_save :: "wf_checkpoint \<Rightarrow> mem_store \<Rightarrow> unit ls_result \<times> mem_store" where
  "mem_save cp st = (Inr (), hm_insert (cp_workflow_id cp) cp st)"

definition mem_load :: "ls_id \<Rightarrow> mem_store \<Rightarrow> wf_checkpoint option ls_result" where
  "mem_load i st = Inr (hm_get st i)"

definition mem_delete :: "ls_id \<Rightarrow> mem_store \<Rightarrow> unit ls_result \<times> mem_store" where
  "mem_delete i st = (Inr (), hm_remove i st)"

definition mem_list :: "mem_store \<Rightarrow> cp_summary list ls_result" where
  "mem_list st = Inr (map (\<lambda>cp. \<lparr>sum_workflow_id = cp_workflow_id cp,
     sum_workflow_name = cp_workflow_name cp,
     sum_completed_nodes = card (es_completed (cp_snapshot cp)), sum_total_nodes = 0,
     sum_failed = es_failed (cp_snapshot cp), sum_created_at = cp_created_at cp\<rparr>) (hm_values st))"

section \<open>The manager\<close>

definition manager_checkpoint ::
  "(wf_checkpoint \<Rightarrow> 's \<Rightarrow> unit ls_result \<times> 's) \<Rightarrow> string \<Rightarrow> workflow_dag \<Rightarrow> exec_snapshot \<Rightarrow> json
   \<Rightarrow> 's \<Rightarrow> unit ls_result \<times> 's" where
  "manager_checkpoint save now g snap input st =
     save \<lparr>cp_workflow_id = wd_id g, cp_workflow_name = wd_name g, cp_snapshot = snap,
           cp_input = input, cp_created_at = now\<rparr> st"

definition execute_or_resume ::
  "(ls_id \<Rightarrow> 's \<Rightarrow> wf_checkpoint option ls_result)
   \<Rightarrow> ((ls_id \<times> nat) list \<Rightarrow> (ls_id \<times> nat) list) \<Rightarrow> exec_env \<Rightarrow> workflow_dag \<Rightarrow> ls_context \<Rightarrow> json
   \<Rightarrow> 's \<Rightarrow> (workflow_result \<times> workflow_event list) ls_result option" where
  "execute_or_resume load ord env g ctx input st =
     (case load (wd_id g) st of
        Inl e \<Rightarrow> Some (Inl e)
      | Inr (Some cp) \<Rightarrow> resume ord env g ctx (cp_input cp) (cp_snapshot cp)
      | Inr None \<Rightarrow> execute ord env g ctx input)"

section \<open>The contract of a store\<close>

text \<open>What the manager relies on: a saved checkpoint is what a load of its workflow returns, until
  it is deleted, and other workflows are left alone. The laws are those of a store that does
  not fail; \<open>ok\<close> is its invariant.\<close>

locale checkpoint_store =
  fixes ok :: "'s \<Rightarrow> bool"
    and save :: "wf_checkpoint \<Rightarrow> 's \<Rightarrow> unit ls_result \<times> 's"
    and load :: "ls_id \<Rightarrow> 's \<Rightarrow> wf_checkpoint option ls_result"
    and delete :: "ls_id \<Rightarrow> 's \<Rightarrow> unit ls_result \<times> 's"
  assumes save_ok: "ok st \<Longrightarrow> fst (save cp st) = Inr () \<and> ok (snd (save cp st))"
    and load_save: "ok st \<Longrightarrow> load i (snd (save cp st)) =
      (if i = cp_workflow_id cp then Inr (Some cp) else load i st)"
    and delete_ok: "ok st \<Longrightarrow> fst (delete i st) = Inr () \<and> ok (snd (delete i st))"
    and load_delete: "ok st \<Longrightarrow> load j (snd (delete i st)) =
      (if j = i then Inr None else load j st)"
begin

lemma resume_saved:
  assumes "ok st"
  shows "execute_or_resume load ord env g ctx input'
      (snd (manager_checkpoint save now g snap input st)) = resume ord env g ctx input snap"
  using load_save [OF assms] by (simp add: manager_checkpoint_def execute_or_resume_def)

lemma execute_deleted:
  assumes "ok st"
  shows "execute_or_resume load ord env g ctx input (snd (delete (wd_id g) st)) =
    execute ord env g ctx input"
  using load_delete [OF assms] by (simp add: execute_or_resume_def)

lemma other_workflow:
  assumes "ok st" "wd_id g' \<noteq> wd_id g"
  shows "execute_or_resume load ord env g' ctx input' (snd (manager_checkpoint save now g snap input st)) =
    execute_or_resume load ord env g' ctx input' st"
  using load_save [OF assms(1)] assms(2) by (simp add: manager_checkpoint_def execute_or_resume_def)

end

interpretation mem: checkpoint_store hm_ok mem_save mem_load mem_delete
  by unfold_locales (auto simp: mem_save_def mem_load_def mem_delete_def)

end
