(* ===== verification/Dag_Props.thy ===== *)
theory Dag_Props
  imports Checkpoint
begin

text \<open>
  The properties of the workflow engine: the graph stays acyclic, an edge is refused exactly
  when it would close a cycle, and what the sort and an execution guarantee. The witnesses
  evaluate them on a workflow of two nodes, the second of which depends on the first.
\<close>

section \<open>A sample workflow\<close>

definition sample_env :: exec_env where
  "sample_env = \<lparr>ee_checked = True, ee_now = 0, ee_trace = (\<lambda>i. i)\<rparr>"

definition sample_ctx :: ls_context where
  "sample_ctx = ctx_new 0 7 8"

definition sample_handler :: node_handler where
  "sample_handler ctx input k = Returned 5 (Inr (Bool True))"

definition sample_failing :: node_handler where
  "sample_failing ctx input k = Returned 5 (Inl (External ''down''))"

definition sample_graph :: "node_handler \<Rightarrow> workflow_dag" where
  "sample_graph h = \<lparr>wd_id = 9, wd_name = ''wf'',
     wd_nodes = [(1, workflow_node_new 1 ''a'' [] Null),
                 (2, (workflow_node_new 2 ''b'' [] Null)\<lparr>wn_deps := [1], wn_retry_count := 1\<rparr>)],
     wd_handlers = [(1, sample_handler), (2, h)],
     wd_adj = [(1, [2]), (2, [])], wd_event_handler = True\<rparr>"

lemma sample_edges: "edges (wd_adj (sample_graph h)) = {(1, 2)}"
  by (auto simp: edges_def sample_graph_def neighbors_def split: if_splits)

lemma sample_inv: "dag_inv (sample_graph h)"
proof -
  have "acyclic (edges (wd_adj (sample_graph h)))"
    unfolding sample_edges by (auto simp: acyclic_def trancl_insert)
  then show ?thesis
    unfolding dag_inv_def dag_shape_def deps_agree_def
    by (auto simp: sample_graph_def workflow_node_new_def neighbors_def split: if_splits)
qed

lemma permutes_id: "permutes_entries (\<lambda>xs. xs)"
  by (simp add: permutes_entries_def)

lemma sample_sort: "topological_sort (\<lambda>xs. xs) (sample_graph h) = Some (Inr [1, 2])"
  by (simp add: topological_sort_def sample_graph_def indeg_count_def indeg_start_def
      indeg_bump_def hm_modify_def workflow_node_new_def hm_dom_def)

lemma sample_exec:
  "execute_inner (\<lambda>xs. xs) env (sample_graph h) ctx input snap = Some (Inr (finish (sample_graph h) [1, 2]
     (run_rounds env (sample_graph h) ctx input [1, 2]
       (emit (sample_graph h) (WorkflowStarted 9 ''wf'') (restore snap)))))"
  by (simp add: execute_inner_def sample_sort) (simp add: sample_graph_def)

lemmas eval_run = finish_def emit_def restore_def
  run_rounds.simps ready_nodes_def run_round_def skips_def collect_ok_def collect_err_def
  run_task_def max_attempts_def backoff_def attempt_loop.simps run_attempt_def Let_def
  sample_graph_def sample_env_def sample_handler_def sample_failing_def workflow_node_new_def
  is_timeout_def

section \<open>The graph\<close>

text \<open>C1: every graph built from an empty workflow by the operations of \<open>WorkflowDag\<close> (fresh
  identifiers for new nodes) is acyclic, its adjacency has exactly the nodes as keys, and every
  node lists exactly the nodes with an edge to it as its dependencies.\<close>

theorem dag_reachable_acyclic:
  assumes "reaches dag_init dag_step g"
  shows "acyclic (edges (wd_adj g)) \<and> hm_dom (wd_adj g) = hm_dom (wd_nodes g)
    \<and> (\<forall>u. set (neighbors (wd_adj g) u) \<subseteq> hm_dom (wd_nodes g))
    \<and> (\<forall>v n. get_node g v = Some n \<longrightarrow> set (wn_deps n) = {u. (u, v) \<in> edges (wd_adj g)})"
proof -
  have inv: "dag_inv g" using dag_machine.reaches_inv [OF assms] .
  then have "set (wn_deps n) = {u. (u, v) \<in> edges (wd_adj g)}" if "get_node g v = Some n" for v n
    using that deps_neighbors [of g v n] by (auto simp: dag_inv_def get_node_def edges_def)
  with inv show ?thesis by (auto simp: dag_inv_def dag_shape_def)
qed

theorem dag_reachable_acyclic_witness:
  "acyclic (edges (wd_adj (add_node 1 ''a'' [] Null sample_handler (dag_new 9 ''wf''))))"
  by (rule dag_reachable_acyclic [THEN conjunct1], unfold add_node_def, rule reaches_step,
      rule reaches_init) (auto simp: dag_init_def dag_new_def intro: step_add)

text \<open>An edge between two nodes is accepted exactly when there is no path of edges from its
  target back to its source; otherwise the graph is left as it was and the error names what is
  wrong.\<close>

theorem add_edge_accepts:
  assumes "dag_inv g"
  shows "(\<exists>g'. add_edge src dst g = Inr g') \<longleftrightarrow>
      get_node g src \<noteq> None \<and> get_node g dst \<noteq> None \<and> (dst, src) \<notin> (edges (wd_adj g))\<^sup>*"
  using assms
  by (auto simp: add_edge_Inr dag_inv_def acyclic_insert get_node_def hm_get_None)

theorem add_edge_accepts_witness:
  "(\<exists>g'. add_edge 1 2 (sample_graph sample_handler) = Inr g') \<longleftrightarrow>
      get_node (sample_graph sample_handler) 1 \<noteq> None \<and> get_node (sample_graph sample_handler) 2 \<noteq> None
      \<and> (2, 1) \<notin> (edges (wd_adj (sample_graph sample_handler)))\<^sup>*"
  by (rule add_edge_accepts [OF sample_inv])

text \<open>Removing a node that was just added gives back the graph it was added to.\<close>

theorem remove_added_node:
  assumes "dag_inv g" "get_node g i = None"
  shows "remove_node i (add_node_full i name descr config h timeout retries delay skip g) = Inr g"
proof -
  let ?drop = "\<lambda>vs. filter (\<lambda>v. v \<noteq> i) vs"
  from assms have i: "i \<notin> hm_dom (wd_nodes g)" "i \<notin> hm_dom (wd_adj g)" "i \<notin> hm_dom (wd_handlers g)"
    and no_in: "\<And>u. i \<notin> set (neighbors (wd_adj g) u)"
    by (auto simp: get_node_def hm_get_None dag_inv_def dag_shape_def)
  have "neighbors (wd_adj g) i = []" using i(2) by (simp add: neighbors_def hm_get_None [THEN iffD2])
  moreover have "i \<notin> set (wn_deps n)" if "hm_get (wd_nodes g) v = Some n" for v n
    using deps_neighbors [OF _ that, of i] assms(1) calculation by (simp add: dag_inv_def)
  ultimately have deps: "?drop (wn_deps n) = wn_deps n" if "(v, n) \<in> set (wd_nodes g)" for v n
    using that assms(1) by (auto simp: dag_inv_def dag_shape_def hm_ok_mem intro!: filter_True)
  have adj: "?drop vs = vs" if "(u, vs) \<in> set (wd_adj g)" for u vs
  proof -
    from that assms(1) have "hm_get (wd_adj g) u = Some vs"
      by (simp add: dag_inv_def dag_shape_def hm_ok_mem)
    then show ?thesis using no_in [of u] by (auto simp: neighbors_def intro!: filter_True)
  qed
  have drop_new: "hm_remove i (hm_insert i v m) = m" if "i \<notin> hm_dom m" for v and m :: "(ls_id, 'b) hmap"
    using that by (induction m) auto
  have nodes: "hm_map_values (\<lambda>_ n. n\<lparr>wn_deps := ?drop (wn_deps n)\<rparr>) (wd_nodes g) = wd_nodes g"
    unfolding hm_map_values_def by (rule map_idI) (auto simp: deps)
  have adj': "hm_map_values (\<lambda>_. ?drop) (wd_adj g) = wd_adj g"
    unfolding hm_map_values_def by (rule map_idI) (auto simp: adj)
  show ?thesis
    by (simp add: remove_node_def add_node_full_def adj_or_default_def i drop_new nodes adj')
qed

theorem remove_added_node_witness:
  "remove_node 5 (add_node_full 5 ''c'' [] Null sample_handler 0 0 1000 None (sample_graph sample_handler))
    = Inr (sample_graph sample_handler)"
  by (rule remove_added_node [OF sample_inv]) (simp add: get_node_def sample_graph_def)

text \<open>C2: the sort never panics. A graph whose adjacency has no cycle is answered with all its
  nodes, each once and after every node with an edge to it; any other with the error that the
  graph has a cycle. This holds for graphs of any origin, deserialised ones included, and any
  iteration order of the in-degree map.\<close>

theorem topological_sort_correct:
  assumes "dag_shape g" "permutes_entries ord"
  shows "if acyclic (edges (wd_adj g))
    then \<exists>ns. topological_sort ord g = Some (Inr ns) \<and> distinct ns \<and> set ns = hm_dom (wd_nodes g)
      \<and> (\<forall>k < length ns. \<forall>u. (u, ns ! k) \<in> edges (wd_adj g) \<longrightarrow> u \<in> set (take k ns))
    else topological_sort ord g = Some (Inl (Internal ''graph contains a cycle''))"
  using topological_sort_cases [OF assms] deps_first_take [of "wd_adj g" _ "{}"]
  by (fastforce simp: sorted_nodes_def edges_def)

theorem topological_sort_correct_witness:
  "if acyclic (edges (wd_adj (sample_graph sample_handler)))
    then \<exists>ns. topological_sort (\<lambda>xs. xs) (sample_graph sample_handler) = Some (Inr ns) \<and> distinct ns
      \<and> set ns = hm_dom (wd_nodes (sample_graph sample_handler))
      \<and> (\<forall>k < length ns. \<forall>u. (u, ns ! k) \<in> edges (wd_adj (sample_graph sample_handler))
          \<longrightarrow> u \<in> set (take k ns))
    else topological_sort (\<lambda>xs. xs) (sample_graph sample_handler) =
      Some (Inl (Internal ''graph contains a cycle''))"
  using topological_sort_correct [OF _ permutes_id, of "sample_graph sample_handler"] sample_inv
  unfolding dag_inv_def by blast

section \<open>An execution\<close>



text \<open>C4: the events of an execution or of a resumed one: a node is started only when every node
  it depends on is already reported as completed or skipped, or was completed in the snapshot; no
  node is started twice; and no node the snapshot has as completed is started again.\<close>

theorem execution_event_order:
  assumes "dag_inv g" "permutes_entries ord" "wd_event_handler g"
    and "execute_inner ord env g ctx input snap = Some (Inr (res, log))"
    and "C = (case snap of None \<Rightarrow> {} | Some s \<Rightarrow> es_completed s)"
  shows "starts_after_deps g C log \<and> distinct (started log) \<and> set (started log) \<inter> C = {}"
proof -
  from execute_inner_sorted [OF assms(1,2), of env ctx input snap] assms(4) obtain order where
    order: "sorted_nodes g order" and fin: "(res, log) = finish g order (run_rounds env g ctx input order
      (emit g (WorkflowStarted (wd_id g) (wd_name g)) (restore snap)))" by auto
  let ?st = "run_rounds env g ctx input order
      (emit g (WorkflowStarted (wd_id g) (wd_name g)) (restore snap))"
  have inv: "log_inv g C ?st"
    unfolding assms(5) by (rule log_inv_rounds) (use assms(3) order in
      \<open>auto simp: sorted_nodes_def intro!: restore_log_inv\<close>)
  have log: "log = rs_log ?st @ [WorkflowCompleted (wd_id g) (wd_name g) (\<not> rs_failed ?st)]"
    using fin assms(3) by (simp add: finish_def)
  have "starts_after_deps g C log"
    unfolding log by (rule starts_after_deps_append) (use inv in \<open>auto simp: log_inv_def\<close>)
  moreover have "started log = started (rs_log ?st)" unfolding log by (simp add: started_def)
  ultimately show ?thesis using inv by (simp add: log_inv_def)
qed

theorem execution_event_order_witness:
  "starts_after_deps (sample_graph sample_handler) {}
     [WorkflowStarted 9 ''wf'', NodeStarted 1 ''a'', NodeCompleted 1 ''a'' 5 1,
      NodeStarted 2 ''b'', NodeCompleted 2 ''b'' 5 1, WorkflowCompleted 9 ''wf'' True]"
proof -
  have "\<exists>res. execute_inner (\<lambda>xs. xs) sample_env (sample_graph sample_handler) sample_ctx Null None =
     Some (Inr (res, [WorkflowStarted 9 ''wf'', NodeStarted 1 ''a'', NodeCompleted 1 ''a'' 5 1,
      NodeStarted 2 ''b'', NodeCompleted 2 ''b'' 5 1, WorkflowCompleted 9 ''wf'' True]))"
    unfolding execute_def sample_exec by (simp add: eval_run)
  then obtain res where "execute_inner (\<lambda>xs. xs) sample_env (sample_graph sample_handler) sample_ctx Null None =
     Some (Inr (res, [WorkflowStarted 9 ''wf'', NodeStarted 1 ''a'', NodeCompleted 1 ''a'' 5 1,
      NodeStarted 2 ''b'', NodeCompleted 2 ''b'' 5 1, WorkflowCompleted 9 ''wf'' True]))" by blast
  from execution_event_order [OF sample_inv permutes_id _ this refl] show ?thesis
    by (simp add: sample_graph_def)
qed

text \<open>Every result of an execution is that of its node: a completed node has an output and
  between one and \<open>retry_count + 1\<close> attempts, a failed or timed-out one has an error and used
  all its attempts, a skipped one has a skip condition and ran no attempt.\<close>

theorem execution_results_ok:
  assumes "dag_inv g" "permutes_entries ord"
    and "execute ord env g ctx input = Some (Inr (res, log))" "r \<in> set (wr_node_results res)"
  shows "result_ok g (nr_node_id r) r"
proof -
  from execute_inner_sorted [OF assms(1,2), of env ctx input None] assms(3) obtain order where
    order: "sorted_nodes g order" and fin: "(res, log) = finish g order (run_rounds env g ctx input order
      (emit g (WorkflowStarted (wd_id g) (wd_name g)) (restore None)))"
    by (auto simp: execute_def)
  from fin have "res = fst (finish g order (run_rounds env g ctx input order
      (emit g (WorkflowStarted (wd_id g) (wd_name g)) (restore None))))" by (metis fst_conv)
  from execution_results(2) [OF assms(1) order restore_inv refl this] assms(4) show ?thesis by blast
qed

theorem execution_results_ok_witness:
  "result_ok (sample_graph sample_failing) 2
     \<lparr>nr_node_id = 2, nr_node_name = ''b'', nr_status = Failed, nr_output = None,
      nr_error = Some ''external error: down'', nr_duration_ms = 1010, nr_attempts = 2\<rparr>"
proof -
  let ?r = "\<lparr>nr_node_id = 2, nr_node_name = ''b'', nr_status = Failed, nr_output = None,
      nr_error = Some ''external error: down'', nr_duration_ms = 1010, nr_attempts = 2\<rparr>"
  have "\<exists>res log. execute (\<lambda>xs. xs) sample_env (sample_graph sample_failing) sample_ctx Null
     = Some (Inr (res, log)) \<and> ?r \<in> set (wr_node_results res)"
    unfolding execute_def sample_exec by (simp add: eval_run)
  then obtain res log where
    "execute (\<lambda>xs. xs) sample_env (sample_graph sample_failing) sample_ctx Null = Some (Inr (res, log))"
    "?r \<in> set (wr_node_results res)" by blast
  from execution_results_ok [OF sample_inv permutes_id this] show ?thesis by simp
qed

section \<open>Checkpoints\<close>

text \<open>C5: an execution resumed from a checkpoint taken after any number of rounds returns the
  result the original execution returns.\<close>

theorem resume_continues:
  assumes "topological_sort ord g = Some (Inr order)"
    and "st = rounds_upto k env g ctx input order (restore None)"
  shows "\<exists>res log log'. execute ord env g ctx input = Some (Inr (res, log))
    \<and> resume ord env g ctx input (checkpoint st) = Some (Inr (res, log'))"
  using resume_from_checkpoint [OF assms(1), of env ctx input k] assms(2) by simp

theorem resume_continues_witness:
  "\<exists>res log log'. execute (\<lambda>xs. xs) sample_env (sample_graph sample_failing) sample_ctx Null = Some (Inr (res, log))
    \<and> resume (\<lambda>xs. xs) sample_env (sample_graph sample_failing) sample_ctx Null
        (checkpoint (rounds_upto 1 sample_env (sample_graph sample_failing) sample_ctx Null [1, 2] (restore None)))
      = Some (Inr (res, log'))"
  by (rule resume_continues [OF sample_sort refl])

text \<open>Resuming from the snapshot of a failed execution runs no node: it emits no event of a
  node, keeps the results of the snapshot and reports failure again.\<close>

theorem resume_failed_snapshot:
  assumes "topological_sort ord g = Some (Inr order)" "es_failed s"
  shows "resume ord env g ctx input s = Some (Inr
    (\<lparr>wr_workflow_id = wd_id g, wr_workflow_name = wd_name g, wr_success = False,
      wr_node_results = take_results order (es_results s)\<rparr>,
     if wd_event_handler g then [WorkflowStarted (wd_id g) (wd_name g),
       WorkflowCompleted (wd_id g) (wd_name g) False] else []))"
  using assms by (simp add: resume_def execute_inner_def restore_def finish_def run_rounds.simps)

theorem resume_failed_snapshot_witness:
  "resume (\<lambda>xs. xs) sample_env (sample_graph sample_handler) sample_ctx Null (snapshot_of {1} [] [] True) =
    Some (Inr (\<lparr>wr_workflow_id = 9, wr_workflow_name = ''wf'', wr_success = False, wr_node_results = []\<rparr>,
     [WorkflowStarted 9 ''wf'', WorkflowCompleted 9 ''wf'' False]))"
  by (subst resume_failed_snapshot [OF sample_sort])
    (simp_all add: snapshot_of_def sample_graph_def)

text \<open>C6: a workflow whose state was stored by the checkpoint manager after any number of rounds
  returns from \<open>execute_or_resume\<close> the result of the uninterrupted execution on the stored input,
  whatever input the caller gives now; other workflows are not affected.\<close>

theorem stored_checkpoint_resumes:
  assumes "topological_sort ord g = Some (Inr order)" "hm_ok store"
    and "st = rounds_upto k env g ctx input order (restore None)"
    and "store' = snd (manager_checkpoint mem_save now g (checkpoint st) input store)"
  shows "(\<exists>res log log'. execute ord env g ctx input = Some (Inr (res, log))
      \<and> execute_or_resume mem_load ord env g ctx input' store' = Some (Inr (res, log')))
    \<and> (\<forall>g'. wd_id g' \<noteq> wd_id g \<longrightarrow>
        execute_or_resume mem_load ord env g' ctx input' store' =
        execute_or_resume mem_load ord env g' ctx input' store)"
  using resume_from_checkpoint [OF assms(1), of env ctx input k] assms(3,4)
    mem.resume_saved [OF assms(2)] mem.other_workflow [OF assms(2)] by simp

theorem stored_checkpoint_resumes_witness:
  "(\<exists>res log log'. execute (\<lambda>xs. xs) sample_env (sample_graph sample_handler) sample_ctx Null = Some (Inr (res, log))
      \<and> execute_or_resume mem_load (\<lambda>xs. xs) sample_env (sample_graph sample_handler) sample_ctx (Bool True)
          (snd (manager_checkpoint mem_save ''t'' (sample_graph sample_handler)
            (checkpoint (rounds_upto 1 sample_env (sample_graph sample_handler) sample_ctx Null [1, 2] (restore None)))
            Null [])) = Some (Inr (res, log')))"
  using stored_checkpoint_resumes [OF sample_sort hm_ok_Nil refl refl] by blast

end
