(* ===== verification/Breaker.thy ===== *)
theory Breaker
  imports Core
begin

text \<open>
  The circuit breaker (crate \<open>circuit-breaker\<close>): the sliding window of \<open>sliding_window.rs\<close>,
  the state machine of \<open>state.rs\<close> and \<open>DefaultCircuitBreaker\<close> of \<open>breaker.rs\<close>.

  An \<open>Instant\<close> is a number of nanoseconds of the monotone clock, Unix times are milliseconds.
  An operation reads both clocks once: the calls inside one operation follow each other
  immediately, and the locks make the operations atomic.
\<close>

section \<open>Clocks and the sliding window\<close>

record clock =
  c_now :: int
  c_utc :: int

abbreviation nanos :: "nat \<Rightarrow> int" where
  "nanos secs \<equiv> int secs * 1000000000"

record sliding_window =
  sw_window_secs :: nat
  sw_events :: "int list"

definition window_new :: "nat \<Rightarrow> sliding_window" where
  "window_new window_secs = \<lparr>sw_window_secs = window_secs, sw_events = []\<rparr>"

definition evict_old :: "int \<Rightarrow> sliding_window \<Rightarrow> sliding_window" where
  "evict_old now w = w\<lparr>sw_events := dropWhile (\<lambda>e. e < now - nanos (sw_window_secs w)) (sw_events w)\<rparr>"

definition window_record :: "int \<Rightarrow> sliding_window \<Rightarrow> sliding_window" where
  "window_record now w = evict_old now (w\<lparr>sw_events := sw_events w @ [now]\<rparr>)"

definition window_count :: "int \<Rightarrow> sliding_window \<Rightarrow> nat \<times> sliding_window" where
  "window_count now w = (let w' = evict_old now w in (length (sw_events w'), w'))"

definition is_threshold_reached :: "int \<Rightarrow> nat \<Rightarrow> sliding_window \<Rightarrow> bool \<times> sliding_window" where
  "is_threshold_reached now threshold w = (let (n, w') = window_count now w in (n \<ge> threshold, w'))"

definition window_clear :: "sliding_window \<Rightarrow> sliding_window" where
  "window_clear w = w\<lparr>sw_events := []\<rparr>"

section \<open>The state machine\<close>

datatype circuit_state = Closed | Open | HalfOpen

fun circuit_state_text :: "circuit_state \<Rightarrow> string" where
  "circuit_state_text Closed = ''Closed''"
| "circuit_state_text Open = ''Open''"
| "circuit_state_text HalfOpen = ''HalfOpen''"

record state_transition =
  tr_from :: circuit_state
  tr_to :: circuit_state
  tr_at_ms :: int
  tr_reason :: string

record state_machine =
  sm_current :: circuit_state
  sm_last_change :: int
  sm_half_open_start :: "int option"
  sm_probes_used :: nat
  sm_max_probes :: nat
  sm_timeout_secs :: nat
  sm_last_transition :: "state_transition option"

definition sm_new :: "int \<Rightarrow> nat \<Rightarrow> nat \<Rightarrow> state_machine" where
  "sm_new now max_probes timeout_secs = \<lparr>sm_current = Closed, sm_last_change = now,
     sm_half_open_start = None, sm_probes_used = 0, sm_max_probes = max_probes,
     sm_timeout_secs = timeout_secs, sm_last_transition = None\<rparr>"

definition last_change_at_ms :: "clock \<Rightarrow> state_machine \<Rightarrow> int" where
  "last_change_at_ms t m = c_utc t - max 0 (c_now t - sm_last_change m) div 1000000"

text \<open>The part every change of state shares: \<open>start\<close> is the new \<open>half_open_start\<close>.\<close>

definition sm_change ::
  "clock \<Rightarrow> circuit_state \<Rightarrow> int option \<Rightarrow> string \<Rightarrow> state_machine \<Rightarrow> state_machine" where
  "sm_change t to_state start reason m = m\<lparr>sm_current := to_state, sm_last_change := c_now t,
     sm_half_open_start := start, sm_probes_used := 0,
     sm_last_transition := Some \<lparr>tr_from = sm_current m, tr_to = to_state, tr_at_ms = c_utc t,
       tr_reason = reason\<rparr>\<rparr>"

definition try_open :: "clock \<Rightarrow> string \<Rightarrow> state_machine \<Rightarrow> state_machine" where
  "try_open t reason m = sm_change t Open None reason m"

definition should_attempt_half_open :: "clock \<Rightarrow> state_machine \<Rightarrow> bool" where
  "should_attempt_half_open t m \<longleftrightarrow>
     sm_current m = Open \<and> max 0 (c_now t - sm_last_change m) \<ge> nanos (sm_timeout_secs m)"

definition try_half_open :: "clock \<Rightarrow> state_machine \<Rightarrow> state_machine" where
  "try_half_open t m =
     (if sm_current m \<noteq> Open then m
      else sm_change t HalfOpen (Some (c_now t)) ''Open timeout reached, attempting half-open'' m)"

definition allow_probe :: "state_machine \<Rightarrow> bool \<times> state_machine" where
  "allow_probe m =
     (if sm_current m \<noteq> HalfOpen then (False, m)
      else if sm_probes_used m < sm_max_probes m
      then (True, m\<lparr>sm_probes_used := sm_probes_used m + 1\<rparr>)
      else (False, m))"

definition record_probe_success :: "clock \<Rightarrow> state_machine \<Rightarrow> state_machine" where
  "record_probe_success t m =
     (if sm_current m \<noteq> HalfOpen then m
      else sm_change t Closed None ''Probe succeeded, resetting to Closed'' m)"

definition record_probe_failure :: "clock \<Rightarrow> state_machine \<Rightarrow> state_machine" where
  "record_probe_failure t m =
     (if sm_current m \<noteq> HalfOpen then m
      else sm_change t Open None ''Probe failed, returning to Open'' m)"

definition sm_reset :: "clock \<Rightarrow> state_machine \<Rightarrow> state_machine" where
  "sm_reset t m = sm_change t Closed None ''Manual reset'' m"

section \<open>The breaker\<close>

record breaker_config =
  bc_window_secs :: nat
  bc_max_failures :: nat
  bc_half_open_timeout_secs :: nat
  bc_max_half_open_probes :: nat
  bc_min_request_threshold :: nat

definition breaker_config_default :: breaker_config where
  "breaker_config_default = \<lparr>bc_window_secs = 60, bc_max_failures = 5,
     bc_half_open_timeout_secs = 30, bc_max_half_open_probes = 3, bc_min_request_threshold = 10\<rparr>"

datatype breaker_decision = Allowed | Rejected | Probe

record breaker_status =
  bs_state :: circuit_state
  bs_total_requests :: nat
  bs_failures :: nat
  bs_last_change_at_ms :: int
  bs_name :: string

record breaker =
  br_name :: string
  br_config :: breaker_config
  br_machine :: state_machine
  br_failures :: sliding_window
  br_requests :: sliding_window

definition breaker_new :: "int \<Rightarrow> string \<Rightarrow> breaker_config \<Rightarrow> breaker" where
  "breaker_new now name config = \<lparr>br_name = name, br_config = config,
     br_machine = sm_new now (bc_max_half_open_probes config) (bc_half_open_timeout_secs config),
     br_failures = window_new (bc_window_secs config),
     br_requests = window_new (bc_window_secs config)\<rparr>"

definition should_trip :: "int \<Rightarrow> breaker \<Rightarrow> bool \<times> breaker" where
  "should_trip now b =
     (let (total, rw) = window_count now (br_requests b);
          (failures, fw) = window_count now (br_failures b);
          b' = b\<lparr>br_requests := rw, br_failures := fw\<rparr>
      in if total < bc_min_request_threshold (br_config b) then (False, b')
         else (failures \<ge> bc_max_failures (br_config b), b'))"

definition breaker_state :: "breaker \<Rightarrow> circuit_state" where
  "breaker_state b = Closed"

definition count_request :: "clock \<Rightarrow> breaker \<Rightarrow> breaker" where
  "count_request t b = b\<lparr>br_requests := window_record (c_now t) (br_requests b)\<rparr>"

definition allow_request :: "clock \<Rightarrow> breaker \<Rightarrow> breaker_decision \<times> breaker" where
  "allow_request t b =
     (case sm_current (br_machine b) of
        Closed \<Rightarrow>
          (let (trip, b') = should_trip (c_now t) b
           in if trip
              then (Rejected, b'\<lparr>br_machine := try_open t ''failure threshold reached'' (br_machine b')\<rparr>)
              else (Allowed, count_request t b'))
      | Open \<Rightarrow>
          (if should_attempt_half_open t (br_machine b)
           then (Probe, count_request t
                  (b\<lparr>br_machine := snd (allow_probe (try_half_open t (br_machine b)))\<rparr>))
           else (Rejected, b))
      | HalfOpen \<Rightarrow>
          (let (ok, m) = allow_probe (br_machine b)
           in if ok then (Probe, count_request t (b\<lparr>br_machine := m\<rparr>))
              else (Rejected, b\<lparr>br_machine := m\<rparr>)))"

definition clear_windows :: "breaker \<Rightarrow> breaker" where
  "clear_windows b = b\<lparr>br_failures := window_clear (br_failures b),
     br_requests := window_clear (br_requests b)\<rparr>"

definition record_success :: "clock \<Rightarrow> breaker \<Rightarrow> breaker" where
  "record_success t b =
     (if sm_current (br_machine b) = HalfOpen
      then clear_windows (b\<lparr>br_machine := record_probe_success t (br_machine b)\<rparr>)
      else b)"

definition record_failure :: "clock \<Rightarrow> breaker \<Rightarrow> breaker" where
  "record_failure t b =
     (let b1 = b\<lparr>br_failures := window_record (c_now t) (br_failures b),
                 br_requests := window_record (c_now t) (br_requests b)\<rparr>
      in if sm_current (br_machine b1) = HalfOpen
         then clear_windows (b1\<lparr>br_machine := record_probe_failure t (br_machine b1)\<rparr>)
         else b1)"

definition breaker_status_of :: "clock \<Rightarrow> breaker \<Rightarrow> breaker_status \<times> breaker" where
  "breaker_status_of t b =
     (let (failures, fw) = window_count (c_now t) (br_failures b);
          (total, rw) = window_count (c_now t) (br_requests b)
      in (\<lparr>bs_state = sm_current (br_machine b), bs_total_requests = total, bs_failures = failures,
            bs_last_change_at_ms = last_change_at_ms t (br_machine b), bs_name = br_name b\<rparr>,
          b\<lparr>br_failures := fw, br_requests := rw\<rparr>))"

definition breaker_reset :: "clock \<Rightarrow> breaker \<Rightarrow> breaker" where
  "breaker_reset t b = clear_windows (b\<lparr>br_machine := sm_reset t (br_machine b)\<rparr>)"

section \<open>The window counts the recent events\<close>

text \<open>
  \<open>window_of history t w\<close>: of the events recorded since the last clear, none after \<open>t\<close>, \<open>w\<close> has
  kept those no older than the window at the time of its latest eviction.
\<close>

definition recent :: "nat \<Rightarrow> int \<Rightarrow> int list \<Rightarrow> int list" where
  "recent secs now history = filter (\<lambda>e. now - nanos secs \<le> e) history"

definition window_of :: "int list \<Rightarrow> int \<Rightarrow> sliding_window \<Rightarrow> bool" where
  "window_of history t w \<longleftrightarrow> sorted history \<and> (\<forall>e \<in> set history. e \<le> t)
     \<and> (\<exists>t0 \<le> t. sw_events w = recent (sw_window_secs w) t0 history)"

lemma window_of_later: "window_of history t w \<Longrightarrow> t \<le> now \<Longrightarrow> window_of history now w"
  unfolding window_of_def by (meson order_trans)

lemma dropWhile_sorted: "sorted xs \<Longrightarrow> dropWhile (\<lambda>e. e < c) xs = filter (\<lambda>e. c \<le> e) (xs :: int list)"
proof (induction xs)
  case Nil
  then show ?case by simp
next
  case (Cons x xs)
  show ?case
  proof (cases "x < c")
    case True
    with Cons show ?thesis by simp
  next
    case False
    with Cons.prems have "\<forall>y \<in> set (x # xs). c \<le> y" by auto
    with False show ?thesis by (metis dropWhile.simps(2) filter_True)
  qed
qed

lemma recent_recent: "t0 \<le> now \<Longrightarrow> recent secs now (recent secs t0 history) = recent secs now history"
  by (auto simp: recent_def intro!: filter_cong)

lemma evict_old_recent:
  assumes "window_of history t w" "t \<le> now"
  shows "sw_events (evict_old now w) = recent (sw_window_secs w) now history"
proof -
  from window_of_later [OF assms]
  obtain t0 where t0: "t0 \<le> now" "sw_events w = recent (sw_window_secs w) t0 history"
    and "sorted history" unfolding window_of_def by blast
  then have "sorted (sw_events w)" by (simp add: recent_def sorted_wrt_filter)
  then have "sw_events (evict_old now w) = recent (sw_window_secs w) now (sw_events w)"
    by (simp add: evict_old_def dropWhile_sorted recent_def)
  then show ?thesis using t0 by (simp add: recent_recent)
qed

lemma window_secs_simps [simp]:
  "sw_window_secs (evict_old now w) = sw_window_secs w"
  "sw_window_secs (window_record now w) = sw_window_secs w"
  "sw_window_secs (window_clear w) = sw_window_secs w"
  by (simp_all add: evict_old_def window_record_def window_clear_def)

lemma window_of_new: "window_of [] t (window_new secs)"
  by (auto simp: window_of_def window_new_def recent_def)

lemma window_of_clear: "window_of [] t (window_clear w)"
  by (auto simp: window_of_def window_clear_def recent_def)

lemma window_of_evict:
  assumes "window_of history t w" "t \<le> now"
  shows "window_of history now (evict_old now w)"
  using evict_old_recent [OF assms] window_of_later [OF assms] by (auto simp: window_of_def)

lemma window_of_record:
  assumes "window_of history t w" "t \<le> now"
  shows "window_of (history @ [now]) now (window_record now w)"
proof -
  from window_of_later [OF assms]
  obtain t0 where t0: "t0 \<le> now" "sw_events w = recent (sw_window_secs w) t0 history"
    and hist: "sorted history" "\<forall>e \<in> set history. e \<le> now" unfolding window_of_def by blast
  then have events: "sw_events w @ [now] = recent (sw_window_secs w) t0 (history @ [now])"
    by (auto simp: recent_def)
  have sorted: "sorted (history @ [now])" using hist by (simp add: sorted_append)
  then have "sorted (sw_events w @ [now])" 
    unfolding events recent_def by (rule sorted_wrt_filter)
  then have "sw_events (window_record now w) = recent (sw_window_secs w) now (sw_events w @ [now])"
    by (simp add: window_record_def evict_old_def dropWhile_sorted recent_def)
  then have "sw_events (window_record now w) = recent (sw_window_secs w) now (history @ [now])"
    unfolding events using t0 by (simp add: recent_recent)
  then show ?thesis using hist sorted by (auto simp: window_of_def)
qed

lemma window_count_recent:
  assumes "window_of history t w" "t \<le> now"
  shows "fst (window_count now w) = length (recent (sw_window_secs w) now history)"
  using evict_old_recent [OF assms] by (simp add: window_count_def Let_def)

end
