(* ===== verification/Breaker_Props.thy ===== *)
theory Breaker_Props
  imports Breaker
begin

text \<open>
  The behaviour of the circuit breaker over sequences of operations: a specification that keeps
  every event since the last clear and its simulation by the breaker with its evicting windows,
  the time an open breaker rejects, the number of probes of a half-open period, and where the
  breaker departs from its documentation.
\<close>

section \<open>Operations as data\<close>

datatype breaker_op = Allow | Success | Failure | Status | Reset

fun breaker_step :: "breaker_op \<Rightarrow> clock \<Rightarrow> breaker \<Rightarrow> breaker_decision option \<times> breaker" where
  "breaker_step Allow t b = (let (d, b') = allow_request t b in (Some d, b'))"
| "breaker_step Success t b = (None, record_success t b)"
| "breaker_step Failure t b = (None, record_failure t b)"
| "breaker_step Status t b = (None, snd (breaker_status_of t b))"
| "breaker_step Reset t b = (None, breaker_reset t b)"

fun breaker_run :: "(breaker_op \<times> clock) list \<Rightarrow> breaker \<Rightarrow> breaker_decision option list \<times> breaker" where
  "breaker_run [] b = ([], b)"
| "breaker_run ((op, t) # ops) b =
     (let (d, b1) = breaker_step op t b; (ds, b2) = breaker_run ops b1 in (d # ds, b2))"

text \<open>The times of a sequence of operations do not go back and do not precede \<open>t\<close>.\<close>

fun monotone :: "int \<Rightarrow> ('a \<times> clock) list \<Rightarrow> bool" where
  "monotone t [] = True"
| "monotone t ((op, c) # ops) = (t \<le> c_now c \<and> monotone (c_now c) ops)"

section \<open>The specification\<close>

record breaker_spec =
  sp_state :: circuit_state
  sp_since :: int
  sp_probes :: nat
  sp_failures :: "int list"
  sp_requests :: "int list"

definition spec_new :: "int \<Rightarrow> breaker_spec" where
  "spec_new now = \<lparr>sp_state = Closed, sp_since = now, sp_probes = 0, sp_failures = [], sp_requests = []\<rparr>"

definition spec_trips :: "breaker_config \<Rightarrow> int \<Rightarrow> breaker_spec \<Rightarrow> bool" where
  "spec_trips c now s \<longleftrightarrow>
     bc_min_request_threshold c \<le> length (recent (bc_window_secs c) now (sp_requests s))
     \<and> bc_max_failures c \<le> length (recent (bc_window_secs c) now (sp_failures s))"

fun spec_step :: "breaker_config \<Rightarrow> breaker_op \<Rightarrow> int \<Rightarrow> breaker_spec \<Rightarrow> breaker_decision option \<times> breaker_spec" where
  "spec_step c Allow now s =
     (case sp_state s of
        Closed \<Rightarrow> if spec_trips c now s
          then (Some Rejected, s\<lparr>sp_state := Open, sp_since := now, sp_probes := 0\<rparr>)
          else (Some Allowed, s\<lparr>sp_requests := sp_requests s @ [now]\<rparr>)
      | Open \<Rightarrow> if nanos (bc_half_open_timeout_secs c) \<le> now - sp_since s
          then (Some Probe, s\<lparr>sp_state := HalfOpen, sp_since := now,
            sp_probes := min 1 (bc_max_half_open_probes c), sp_requests := sp_requests s @ [now]\<rparr>)
          else (Some Rejected, s)
      | HalfOpen \<Rightarrow> if sp_probes s < bc_max_half_open_probes c
          then (Some Probe, s\<lparr>sp_probes := sp_probes s + 1, sp_requests := sp_requests s @ [now]\<rparr>)
          else (Some Rejected, s))"
| "spec_step c Success now s =
     (None, if sp_state s = HalfOpen then spec_new now else s)"
| "spec_step c Failure now s =
     (None, if sp_state s = HalfOpen then (spec_new now)\<lparr>sp_state := Open\<rparr>
            else s\<lparr>sp_failures := sp_failures s @ [now], sp_requests := sp_requests s @ [now]\<rparr>)"
| "spec_step c Status now s = (None, s)"
| "spec_step c Reset now s = (None, spec_new now)"

fun spec_run :: "breaker_config \<Rightarrow> (breaker_op \<times> clock) list \<Rightarrow> breaker_spec \<Rightarrow> breaker_decision option list \<times> breaker_spec" where
  "spec_run c [] s = ([], s)"
| "spec_run c ((op, t) # ops) s =
     (let (d, s1) = spec_step c op (c_now t) s; (ds, s2) = spec_run c ops s1 in (d # ds, s2))"

section \<open>The simulation\<close>

definition simulates :: "breaker_config \<Rightarrow> int \<Rightarrow> breaker \<Rightarrow> breaker_spec \<Rightarrow> bool" where
  "simulates c t b s \<longleftrightarrow> br_config b = c
     \<and> sm_current (br_machine b) = sp_state s \<and> sm_last_change (br_machine b) = sp_since s
     \<and> sm_probes_used (br_machine b) = sp_probes s \<and> sp_since s \<le> t
     \<and> sm_max_probes (br_machine b) = bc_max_half_open_probes c
     \<and> sm_timeout_secs (br_machine b) = bc_half_open_timeout_secs c
     \<and> sw_window_secs (br_failures b) = bc_window_secs c
     \<and> sw_window_secs (br_requests b) = bc_window_secs c
     \<and> window_of (sp_failures s) t (br_failures b) \<and> window_of (sp_requests s) t (br_requests b)"

lemmas machine_defs = try_open_def try_half_open_def allow_probe_def record_probe_success_def
  record_probe_failure_def sm_reset_def sm_change_def should_attempt_half_open_def

lemmas breaker_defs = allow_request_def record_success_def record_failure_def breaker_status_of_def
  breaker_reset_def clear_windows_def count_request_def

lemma simulates_new: "simulates c now (breaker_new now name c) (spec_new now)"
  by (simp add: simulates_def breaker_new_def spec_new_def sm_new_def window_of_new)
    (simp add: window_new_def)

lemma simulates_trip:
  assumes "simulates c t b s" "t \<le> now"
  shows "fst (should_trip now b) = spec_trips c now s
    \<and> simulates c now (snd (should_trip now b)) s
    \<and> br_machine (snd (should_trip now b)) = br_machine b"
  using assms window_count_recent [of "sp_failures s" t "br_failures b" now]
    window_count_recent [of "sp_requests s" t "br_requests b" now]
    window_of_evict [of "sp_failures s" t "br_failures b" now]
    window_of_evict [of "sp_requests s" t "br_requests b" now]
  by (auto simp: simulates_def should_trip_def spec_trips_def window_count_def Let_def)

lemma simulates_status:
  assumes "simulates c t b s" "t \<le> c_now k"
  shows "simulates c (c_now k) (snd (breaker_status_of k b)) s"
  using assms window_of_evict [of "sp_failures s" t "br_failures b" "c_now k"]
    window_of_evict [of "sp_requests s" t "br_requests b" "c_now k"]
  by (auto simp: simulates_def breaker_status_of_def window_count_def Let_def)

lemma simulates_step:
  assumes sim: "simulates c t b s" and t: "t \<le> c_now k"
  shows "fst (breaker_step op k b) = fst (spec_step c op (c_now k) s)
    \<and> simulates c (c_now k) (snd (breaker_step op k b)) (snd (spec_step c op (c_now k) s))"
proof -
  let ?now = "c_now k"
  from sim t have sim': "window_of (sp_failures s) t (br_failures b)"
    "window_of (sp_requests s) t (br_requests b)" "sp_since s \<le> ?now" by (auto simp: simulates_def)
  note windows = window_of_clear window_of_record [OF sim'(1) t] window_of_record [OF sim'(2) t]
    window_of_later [OF sim'(1) t] window_of_later [OF sim'(2) t]
  note trip = simulates_trip [OF sim t]
  show ?thesis
  proof (cases op)
    case Status
    then show ?thesis using simulates_status [OF sim t] by simp
  next
    case Reset
    then show ?thesis using sim windows
      by (auto simp: simulates_def breaker_defs machine_defs spec_new_def)
  next
    case Success
    then show ?thesis using sim windows sim'(3)
      by (auto simp: simulates_def breaker_defs machine_defs spec_new_def)
  next
    case Failure
    then show ?thesis using sim windows sim'(3)
      by (auto simp: simulates_def breaker_defs machine_defs spec_new_def Let_def)
  next
    case Allow
    show ?thesis
    proof (cases "sp_state s")
      case Closed
      obtain tr b' where b': "should_trip ?now b = (tr, b')" by fastforce
      with trip have b'': "tr = spec_trips c ?now s" "simulates c ?now b' s" "br_machine b' = br_machine b"
        by auto
      then have "window_of (sp_requests s @ [?now]) ?now (window_record ?now (br_requests b'))"
        using window_of_record [of "sp_requests s" ?now "br_requests b'" ?now] by (simp add: simulates_def)
      then show ?thesis using Allow Closed b' b'' sim
        by (auto simp: simulates_def breaker_defs machine_defs Let_def)
    next
      case Open
      then show ?thesis using Allow sim windows sim'(3)
        by (auto simp: simulates_def breaker_defs machine_defs Let_def)
    next
      case HalfOpen
      then show ?thesis using Allow sim windows sim'(3)
        by (auto simp: simulates_def breaker_defs machine_defs Let_def)
    qed
  qed
qed

lemma simulates_run:
  "simulates c t b s \<Longrightarrow> monotone t ops \<Longrightarrow> fst (breaker_run ops b) = fst (spec_run c ops s)
    \<and> (\<exists>t'. simulates c t' (snd (breaker_run ops b)) (snd (spec_run c ops s)))"
proof (induction ops arbitrary: t b s)
  case Nil
  then show ?case by auto
next
  case (Cons opk ops)
  obtain op k where opk: "opk = (op, k)" by (cases opk)
  with Cons.prems have le: "t \<le> c_now k" and mono: "monotone (c_now k) ops" by auto
  note step = simulates_step [OF Cons.prems(1) le, of op]
  from Cons.IH [OF conjunct2 [OF step] mono] step show ?case
    by (auto simp: opk split: prod.splits)
qed

section \<open>Runs of operations\<close>

fun is_probe :: "breaker_decision option \<Rightarrow> bool" where
  "is_probe d = (d = Some Probe)"

definition sample_config :: breaker_config where
  "sample_config = \<lparr>bc_window_secs = 60, bc_max_failures = 1, bc_half_open_timeout_secs = 30,
     bc_max_half_open_probes = 1, bc_min_request_threshold = 1\<rparr>"

text \<open>A request at the given second.\<close>

definition at_sec :: "breaker_op \<Rightarrow> nat \<Rightarrow> breaker_op \<times> clock" where
  "at_sec op s = (op, \<lparr>c_now = nanos s, c_utc = int s * 1000\<rparr>)"

definition sample_breaker :: breaker where
  "sample_breaker = breaker_new 0 ''svc'' sample_config"

definition open_breaker :: breaker where
  "open_breaker = snd (breaker_run [at_sec Failure 1, at_sec Allow 2] sample_breaker)"

definition half_open_breaker :: breaker where
  "half_open_breaker = snd (breaker_run [at_sec Allow 40] open_breaker)"

lemmas eval_breaker = half_open_breaker_def open_breaker_def sample_breaker_def at_sec_def
  sample_config_def breaker_new_def sm_new_def breaker_defs machine_defs should_trip_def
  window_new_def window_record_def window_count_def window_clear_def evict_old_def Let_def



lemma open_step:
  assumes "sm_current (br_machine b) = Open" "op \<noteq> Reset"
    "sm_last_change (br_machine b) \<le> c_now k"
    "c_now k < sm_last_change (br_machine b) + nanos (sm_timeout_secs (br_machine b))"
  shows "br_machine (snd (breaker_step op k b)) = br_machine b
    \<and> fst (breaker_step op k b) \<in> {None, Some Rejected}"
  using assms by (cases op) (auto simp: breaker_defs machine_defs window_count_def Let_def)

text \<open>An open breaker rejects every request and stays open until its timeout has passed,
  whatever outcomes are reported meanwhile, unless it is reset by hand.\<close>

theorem open_rejects_until_timeout:
  assumes "sm_current (br_machine b) = Open" "monotone (sm_last_change (br_machine b)) ops"
    and "\<forall>(op, k) \<in> set ops. op \<noteq> Reset
      \<and> c_now k < sm_last_change (br_machine b) + nanos (sm_timeout_secs (br_machine b))"
  shows "set (fst (breaker_run ops b)) \<subseteq> {None, Some Rejected}
    \<and> br_machine (snd (breaker_run ops b)) = br_machine b"
proof -
  have "set (fst (breaker_run ops b)) \<subseteq> {None, Some Rejected}
    \<and> br_machine (snd (breaker_run ops b)) = br_machine b"
    if "monotone t ops" "sm_last_change (br_machine b) \<le> t" "sm_current (br_machine b) = Open"
      "\<forall>(op, k) \<in> set ops. op \<noteq> Reset
        \<and> c_now k < sm_last_change (br_machine b) + nanos (sm_timeout_secs (br_machine b))" for t
    using that
  proof (induction ops arbitrary: t b)
    case Nil
    then show ?case by simp
  next
    case (Cons opk ops)
    obtain op k where opk: "opk = (op, k)" by (cases opk)
    obtain d b1 where step: "breaker_step op k b = (d, b1)" by fastforce
    have "br_machine b1 = br_machine b" "d \<in> {None, Some Rejected}"
      using open_step [of b op k] Cons.prems opk step by auto
    with Cons.IH [of "c_now k" b1] Cons.prems opk step show ?case
      by (auto split: prod.splits)
  qed
  from this [OF assms(2) order_refl assms(1,3)] show ?thesis .
qed

theorem open_rejects_until_timeout_witness:
  "set (fst (breaker_run [at_sec Allow 3, at_sec Success 4, at_sec Failure 5, at_sec Allow 31] open_breaker))
    \<subseteq> {None, Some Rejected}"
  by (rule open_rejects_until_timeout [THEN conjunct1])
    (simp_all add: eval_breaker)

lemma half_open_request:
  assumes "sm_current (br_machine b) = HalfOpen"
  shows "fst (allow_request k b) = (if sm_probes_used (br_machine b) < sm_max_probes (br_machine b)
      then Probe else Rejected)
    \<and> br_machine (snd (allow_request k b)) = (br_machine b)
      \<lparr>sm_probes_used := sm_probes_used (br_machine b)
        + (if sm_probes_used (br_machine b) < sm_max_probes (br_machine b) then 1 else 0)\<rparr>"
  using assms by (simp add: breaker_defs machine_defs)

text \<open>Of any number of requests made to a half-open breaker before an outcome is reported, as
  many are let through as probes are left, and all others are rejected.\<close>

theorem half_open_probes:
  assumes "sm_current (br_machine b) = HalfOpen"
  shows "length (filter is_probe (fst (breaker_run (map (Pair Allow) ks) b))) =
      min (length ks) (sm_max_probes (br_machine b) - sm_probes_used (br_machine b))
    \<and> set (fst (breaker_run (map (Pair Allow) ks) b)) \<subseteq> {Some Probe, Some Rejected}
    \<and> sm_current (br_machine (snd (breaker_run (map (Pair Allow) ks) b))) = HalfOpen"
  using assms
proof (induction ks arbitrary: b)
  case Nil
  then show ?case by simp
next
  case (Cons k ks)
  obtain d b1 where step: "allow_request k b = (d, b1)" by fastforce
  note req = half_open_request [OF Cons.prems, of k, unfolded step, simplified]
  then have "sm_current (br_machine b1) = HalfOpen" using Cons.prems by simp
  from Cons.IH [OF this] req step show ?case by (auto split: prod.splits)
qed

theorem half_open_probes_witness:
  "length (filter is_probe (fst (breaker_run (map (Pair Allow) [\<lparr>c_now = 5, c_utc = 0\<rparr>, \<lparr>c_now = 9, c_utc = 0\<rparr>])
      half_open_breaker))) = 0"
  using half_open_probes [of half_open_breaker "[\<lparr>c_now = 5, c_utc = 0\<rparr>, \<lparr>c_now = 9, c_utc = 0\<rparr>]"]
  by (simp add: eval_breaker)

text \<open>A half-open breaker whose probes are used up never leaves that state by time: however
  late the requests come, they are rejected until some probe reports its outcome.\<close>

theorem half_open_exhausted_rejects:
  assumes "sm_current (br_machine b) = HalfOpen"
    and "sm_max_probes (br_machine b) \<le> sm_probes_used (br_machine b)"
  shows "set (fst (breaker_run (map (Pair Allow) ks) b)) \<subseteq> {Some Rejected}
    \<and> br_machine (snd (breaker_run (map (Pair Allow) ks) b)) = br_machine b"
  using assms
proof (induction ks arbitrary: b)
  case Nil
  then show ?case by simp
next
  case (Cons k ks)
  obtain d b1 where step: "allow_request k b = (d, b1)" by fastforce
  have "d = Rejected" "br_machine b1 = br_machine b"
    using half_open_request [OF Cons.prems(1), of k, unfolded step] Cons.prems(2) by simp_all
  with Cons.IH [of b1] Cons.prems step show ?case by (auto split: prod.splits)
qed

theorem half_open_exhausted_rejects_witness:
  "set (fst (breaker_run (map (Pair Allow) [\<lparr>c_now = 10 ^ 20, c_utc = 0\<rparr>]) half_open_breaker)) \<subseteq> {Some Rejected}"
  by (rule half_open_exhausted_rejects [THEN conjunct1]) (simp_all add: eval_breaker)

text \<open>With the default thresholds (five failures, at least ten requests), five failing calls
  trip the breaker: a failure is counted as a request a second time.\<close>

theorem default_trips_after_five_calls:
  "let calls = concat (map (\<lambda>s. [at_sec Allow s, at_sec Failure s]) [1, 2, 3, 4, 5]);
       b = snd (breaker_run calls (breaker_new 0 ''svc'' breaker_config_default))
   in fst (breaker_run calls (breaker_new 0 ''svc'' breaker_config_default)) =
        concat (replicate 5 [Some Allowed, None])
      \<and> fst (breaker_step Allow \<lparr>c_now = nanos 6, c_utc = 6000\<rparr> b) = Some Rejected"
  by (simp add: eval_breaker breaker_config_default_def eval_nat_numeral)

text \<open>The synchronous accessor \<open>state\<close> answers \<open>Closed\<close> for every breaker, the open ones
  included.\<close>

theorem state_accessor_constant:
  "breaker_state b = Closed \<and> (\<exists>b'. sm_current (br_machine b') = Open \<and> breaker_state b' = Closed)"
proof -
  have "sm_current (br_machine open_breaker) = Open" by (simp add: eval_breaker)
  then show ?thesis by (auto simp: breaker_state_def)
qed

end
