(* ===== verification/Sharding.thy ===== *)
theory Sharding
  imports Core
begin

text \<open>
  Maps split over shards by a hash of the key: the polynomial hash the store and the cache of the
  crate \<open>distributed\<close> share, the interface of a shard index as a locale, and the flat map that a
  well-formed list of shards stands for.
\<close>

section \<open>The hash of a key\<close>

text \<open>\<open>key.bytes().fold(0, |acc, b| acc.wrapping_mul(base).wrapping_add(b))\<close> on \<open>u64\<close>.\<close>

definition poly_hash :: "64 word \<Rightarrow> string \<Rightarrow> 64 word" where
  "poly_hash base key = fold (\<lambda>b acc. acc * base + of_nat (of_char b)) key 0"

definition hash_index :: "64 word \<Rightarrow> nat \<Rightarrow> string \<Rightarrow> nat" where
  "hash_index base n key = unat (poly_hash base key) mod n"

section \<open>Shards and the flat map\<close>

definition flat :: "(nat \<Rightarrow> 'k \<Rightarrow> nat) \<Rightarrow> ('k, 'v) hmap list \<Rightarrow> 'k \<Rightarrow> 'v option" where
  "flat index shards k = hm_get (shards ! index (length shards) k) k"

definition shards_ok :: "(nat \<Rightarrow> 'k \<Rightarrow> nat) \<Rightarrow> ('k, 'v) hmap list \<Rightarrow> bool" where
  "shards_ok index shards \<longleftrightarrow> shards \<noteq> [] \<and>
     (\<forall>i < length shards. hm_ok (shards ! i) \<and> (\<forall>k \<in> hm_dom (shards ! i). index (length shards) k = i))"

locale sharded =
  fixes index :: "nat \<Rightarrow> 'k \<Rightarrow> nat"
  assumes index_less: "0 < n \<Longrightarrow> index n k < n"
begin

lemma shards_ok_new: "0 < n \<Longrightarrow> shards_ok index (replicate n [])"
  by (simp add: shards_ok_def)

lemma flat_new: "0 < n \<Longrightarrow> flat index (replicate n []) = (\<lambda>k. None)"
  by (simp add: flat_def fun_eq_iff index_less)

lemma index_in: "shards_ok index shards \<Longrightarrow> index (length shards) k < length shards"
  by (simp add: shards_ok_def index_less)

lemma shard_ok: "shards_ok index shards \<Longrightarrow> hm_ok (shards ! index (length shards) k)"
  using index_in unfolding shards_ok_def by blast

text \<open>A shard is replaced by one whose keys it may hold.\<close>

lemma flat_update:
  assumes "shards_ok index shards"
  shows "flat index (shards[index (length shards) k := s]) k' =
    (if index (length shards) k' = index (length shards) k then hm_get s k' else flat index shards k')"
  using index_in [OF assms] by (auto simp: flat_def)

lemma shards_ok_update:
  assumes "shards_ok index shards" "hm_ok s"
    and "hm_dom s \<subseteq> insert k (hm_dom (shards ! index (length shards) k))"
  shows "shards_ok index (shards[index (length shards) k := s])"
  using assms index_in [OF assms(1), of k] by (auto simp: shards_ok_def nth_list_update)

lemma flat_mem:
  assumes ok: "shards_ok index shards"
  shows "flat index shards k = Some v \<longleftrightarrow> (k, v) \<in> set (concat shards)"
proof
  assume "flat index shards k = Some v"
  then have "(k, v) \<in> set (shards ! index (length shards) k)" unfolding flat_def by (rule hm_get_mem)
  then show "(k, v) \<in> set (concat shards)" using index_in [OF ok] by (auto intro: nth_mem)
next
  assume "(k, v) \<in> set (concat shards)"
  then obtain i where i: "i < length shards" and kv: "(k, v) \<in> set (shards ! i)"
    by (auto simp: in_set_conv_nth [of _ shards])
  with ok have "hm_get (shards ! i) k = Some v" by (simp add: shards_ok_def hm_ok_mem)
  moreover from this ok i have "index (length shards) k = i"
    by (auto simp: shards_ok_def dest: hm_get_dom)
  ultimately show "flat index shards k = Some v" by (simp add: flat_def)
qed

lemma concat_ok: "shards_ok index shards \<Longrightarrow> hm_ok (concat shards)"
proof -
  assume ok: "shards_ok index shards"
  have "distinct (map fst (concat (take j shards)))
      \<and> (\<forall>k \<in> set (map fst (concat (take j shards))). index (length shards) k < j)"
    if "j \<le> length shards" for j
    using that
  proof (induction j)
    case 0
    then show ?case by simp
  next
    case (Suc j)
    then have j: "j < length shards" by simp
    with ok have "hm_ok (shards ! j)" "\<forall>k \<in> hm_dom (shards ! j). index (length shards) k = j"
      by (auto simp: shards_ok_def)
    then have last: "distinct (map fst (shards ! j))"
      "\<forall>k \<in> set (map fst (shards ! j)). index (length shards) k = j" by (simp_all add: hm_ok_def hm_dom_def)
    have init: "distinct (map fst (concat (take j shards)))"
      "\<forall>k \<in> set (map fst (concat (take j shards))). index (length shards) k < j" using Suc by auto
    have "set (map fst (concat (take j shards))) \<inter> set (map fst (shards ! j)) = {}"
      using init(2) last(2) by (metis disjoint_iff less_irrefl)
    then have "distinct (map fst (concat (take j shards)) @ map fst (shards ! j))"
      using init(1) last(1) unfolding distinct_append by blast
    moreover have "\<forall>k \<in> set (map fst (concat (take j shards)) @ map fst (shards ! j)).
        index (length shards) k < Suc j" using init(2) last(2) unfolding set_append by (metis Un_iff lessI less_Suc_eq)
    ultimately show ?case by (simp add: take_Suc_conv_app_nth [OF j])
  qed
  from this [of "length shards"] show ?thesis by (simp add: hm_ok_def)
qed

lemma total_length:
  assumes ok: "shards_ok index shards"
  shows "sum_list (map length shards) = card (dom (flat index shards))"
proof -
  have "dom (flat index shards) = hm_dom (concat shards)"
    using flat_mem [OF ok] hm_ok_mem [OF concat_ok [OF ok]] by (auto simp: dom_def dest: hm_dom_get hm_get_dom)
  then show ?thesis using hm_card_dom [OF concat_ok [OF ok]] by (simp add: length_concat)
qed

lemma total_length_le:
  assumes "\<forall>s \<in> set shards. length s \<le> b"
  shows "sum_list (map length shards) \<le> length shards * b"
  using sum_list_mono [of shards length "\<lambda>_. b"] assms by (simp add: sum_list_triv)

end

lemma hash_index_less: "0 < n \<Longrightarrow> hash_index base n key < n"
  by (simp add: hash_index_def)

end
