(* ===== verification/Dist_Store.thy ===== *)
theory Dist_Store
  imports Sharding
begin

text \<open>
  The key-value store of the crate \<open>distributed\<close> (\<open>store.rs\<close>): versioned values in partitions,
  eviction when a partition is full, and its refinement to one flat map.

  A partition is a hash map; its list order is the iteration order by which the code picks the
  entry to evict. \<open>now\<close> is the Unix time in seconds.
\<close>

section \<open>Partitions\<close>

record store_value =
  sv_key :: string
  sv_value :: "8 word list"
  sv_version :: nat
  sv_created_at :: int
  sv_updated_at :: int

type_synonym data_partition = "(string, store_value) hmap"

definition part_get :: "string \<Rightarrow> data_partition \<Rightarrow> store_value option" where
  "part_get k p = hm_get p k"

definition part_set :: "int \<Rightarrow> string \<Rightarrow> 8 word list \<Rightarrow> data_partition \<Rightarrow> store_value \<times> data_partition" where
  "part_set now k v p =
     (let entry = (case hm_get p k of
            None \<Rightarrow> \<lparr>sv_key = k, sv_value = [], sv_version = 0, sv_created_at = now, sv_updated_at = now\<rparr>
          | Some e \<Rightarrow> e);
          entry' = entry\<lparr>sv_value := v, sv_version := sv_version entry + 1, sv_updated_at := now\<rparr>
      in (entry', hm_insert k entry' p))"

definition part_delete :: "string \<Rightarrow> data_partition \<Rightarrow> bool \<times> data_partition" where
  "part_delete k p = (hm_get p k \<noteq> None, hm_remove k p)"

definition part_scan_prefix :: "string \<Rightarrow> data_partition \<Rightarrow> store_value list" where
  "part_scan_prefix pre p = filter (\<lambda>v. starts_with (sv_key v) pre) (hm_values p)"

section \<open>The store\<close>

record store_config =
  sc_replication_factor :: nat
  sc_sync_writes :: bool
  sc_max_keys :: nat

definition store_config_default :: store_config where
  "store_config_default = \<lparr>sc_replication_factor = 3, sc_sync_writes = False, sc_max_keys = 1000000\<rparr>"

record dist_store =
  ds_config :: store_config
  ds_partitions :: "data_partition list"

definition store_new :: "store_config \<Rightarrow> dist_store" where
  "store_new c = \<lparr>ds_config = c, ds_partitions = replicate (max 1 (sc_replication_factor c) * 4) []\<rparr>"

definition partition_index :: "nat \<Rightarrow> string \<Rightarrow> nat" where
  "partition_index n key = hash_index 47 n key"

abbreviation store_index :: "dist_store \<Rightarrow> string \<Rightarrow> nat" where
  "store_index st k \<equiv> partition_index (length (ds_partitions st)) k"

definition store_get :: "string \<Rightarrow> dist_store \<Rightarrow> store_value option" where
  "store_get k st = part_get k (ds_partitions st ! store_index st k)"

definition partition_limit :: "dist_store \<Rightarrow> nat" where
  "partition_limit st = sc_max_keys (ds_config st) div length (ds_partitions st)"

definition evict_first :: "data_partition \<Rightarrow> data_partition" where
  "evict_first p = (case hm_keys p of [] \<Rightarrow> p | k # _ \<Rightarrow> snd (part_delete k p))"

definition store_set :: "int \<Rightarrow> string \<Rightarrow> 8 word list \<Rightarrow> dist_store \<Rightarrow> store_value \<times> dist_store" where
  "store_set now k v st =
     (let idx = store_index st k;
          p = ds_partitions st ! idx;
          p' = (if length p \<ge> partition_limit st then evict_first p else p);
          (result, p'') = part_set now k v p'
      in (result, st\<lparr>ds_partitions := (ds_partitions st)[idx := p'']\<rparr>))"

definition store_delete :: "string \<Rightarrow> dist_store \<Rightarrow> bool \<times> dist_store" where
  "store_delete k st =
     (let idx = store_index st k;
          (found, p) = part_delete k (ds_partitions st ! idx)
      in (found, st\<lparr>ds_partitions := (ds_partitions st)[idx := p]\<rparr>))"

definition store_exists :: "string \<Rightarrow> dist_store \<Rightarrow> bool" where
  "store_exists k st \<longleftrightarrow> store_get k st \<noteq> None"

definition store_len :: "dist_store \<Rightarrow> nat" where
  "store_len st = sum_list (map length (ds_partitions st))"

definition store_is_empty :: "dist_store \<Rightarrow> bool" where
  "store_is_empty st \<longleftrightarrow> store_len st = 0"

definition store_scan_prefix :: "string \<Rightarrow> dist_store \<Rightarrow> store_value list" where
  "store_scan_prefix pre st = concat (map (part_scan_prefix pre) (ds_partitions st))"

section \<open>The invariant and the flat map\<close>

interpretation store_shards: sharded partition_index
  by unfold_locales (simp add: partition_index_def hash_index_less)

definition store_map :: "dist_store \<Rightarrow> string \<Rightarrow> store_value option" where
  "store_map st = flat partition_index (ds_partitions st)"

definition store_inv :: "dist_store \<Rightarrow> bool" where
  "store_inv st \<longleftrightarrow> shards_ok partition_index (ds_partitions st)
     \<and> (\<forall>p \<in> set (ds_partitions st). length p \<le> max 1 (partition_limit st))
     \<and> (\<forall>k v. store_map st k = Some v \<longrightarrow> sv_key v = k \<and> 1 \<le> sv_version v)"

lemma store_get_map: "store_get k st = store_map st k"
  by (simp add: store_get_def part_get_def store_map_def flat_def)

lemma store_inv_new: "store_inv (store_new c)"
proof -
  have pos: "0 < max 1 (sc_replication_factor c) * 4" by simp
  show ?thesis
    by (simp add: store_inv_def store_new_def store_map_def store_shards.shards_ok_new [OF pos, simplified]
        store_shards.flat_new [OF pos, simplified])
qed

text \<open>The partition a key is written to, after the eviction.\<close>

definition room_for :: "string \<Rightarrow> dist_store \<Rightarrow> data_partition" where
  "room_for k st = (let p = ds_partitions st ! store_index st k in
     if length p \<ge> partition_limit st then evict_first p else p)"

definition evicted_key :: "string \<Rightarrow> dist_store \<Rightarrow> string option" where
  "evicted_key k st = (let p = ds_partitions st ! store_index st k in
     if length p \<ge> partition_limit st \<and> p \<noteq> [] then Some (fst (hd p)) else None)"

lemma evict_first_simps:
  "hm_get (evict_first p) k = (if p \<noteq> [] \<and> k = fst (hd p) then None else hm_get p k)"
  "hm_ok p \<Longrightarrow> hm_ok (evict_first p)" "hm_dom (evict_first p) \<subseteq> hm_dom p"
  by (cases p; auto simp: evict_first_def part_delete_def)+

lemma length_evict_first: "hm_ok p \<Longrightarrow> length (evict_first p) = length p - 1"
  by (cases p) (auto simp: evict_first_def part_delete_def hm_length_remove)

lemma get_room_for:
  "hm_get (room_for k st) k' = (if evicted_key k st = Some k' then None
    else hm_get (ds_partitions st ! store_index st k) k')"
  by (auto simp: room_for_def evicted_key_def Let_def evict_first_simps)

lemma store_set_room:
  "store_set now k v st = (let (r, p) = part_set now k v (room_for k st) in
     (r, st\<lparr>ds_partitions := (ds_partitions st)[store_index st k := p]\<rparr>))"
  by (simp add: store_set_def room_for_def Let_def)

lemma room_for_ok:
  assumes "store_inv st"
  shows "hm_ok (room_for k st)" "hm_dom (room_for k st) \<subseteq> hm_dom (ds_partitions st ! store_index st k)"
    and "k \<notin> hm_dom (room_for k st) \<Longrightarrow> Suc (length (room_for k st)) \<le> max 1 (partition_limit st)"
    and "length (room_for k st) \<le> max 1 (partition_limit st)"
proof -
  let ?p = "ds_partitions st ! store_index st k"
  from assms have ok: "hm_ok ?p" and len: "length ?p \<le> max 1 (partition_limit st)"
    using store_shards.shard_ok [of "ds_partitions st" k]
      store_shards.index_in [of "ds_partitions st" k] by (auto simp: store_inv_def)
  show "hm_ok (room_for k st)" "hm_dom (room_for k st) \<subseteq> hm_dom ?p"
    using ok evict_first_simps(2,3) by (auto simp: room_for_def Let_def)
  show "length (room_for k st) \<le> max 1 (partition_limit st)"
    using len length_evict_first [OF ok] by (auto simp: room_for_def Let_def)
  show "Suc (length (room_for k st)) \<le> max 1 (partition_limit st)"
    using len length_evict_first [OF ok] by (auto simp: room_for_def Let_def)
qed

lemma store_set_spec:
  assumes inv: "store_inv st" and set: "store_set now k v st = (r, st')"
  shows "store_inv st'"
    and "store_map st' = (\<lambda>k'. if k' = k then Some r
      else if evicted_key k st = Some k' then None else store_map st k')"
    and "sv_key r = k \<and> sv_value r = v \<and> sv_updated_at r = now"
    and "sv_version r = (case if evicted_key k st = Some k then None else store_map st k of
      None \<Rightarrow> 1 | Some e \<Rightarrow> sv_version e + 1)"
    and "ds_config st' = ds_config st"
proof -
  let ?idx = "store_index st k" and ?room = "room_for k st"
  from inv have ok: "shards_ok partition_index (ds_partitions st)" by (simp add: store_inv_def)
  have old: "hm_get ?room k = (if evicted_key k st = Some k then None else store_map st k)"
    by (simp add: get_room_for store_map_def flat_def)
  from set have r: "r = fst (part_set now k v ?room)"
    and st': "st' = st\<lparr>ds_partitions := (ds_partitions st)[?idx := hm_insert k r ?room]\<rparr>"
    by (auto simp: store_set_room part_set_def Let_def)
  have keys: "sv_key e = k" if "hm_get ?room k = Some e" for e
    using that inv unfolding old by (auto simp: store_inv_def split: if_splits)
  show rk: "sv_key r = k \<and> sv_value r = v \<and> sv_updated_at r = now"
    using keys unfolding r part_set_def by (simp add: Let_def split: option.split)
  show rv: "sv_version r = (case if evicted_key k st = Some k then None else store_map st k of
      None \<Rightarrow> 1 | Some e \<Rightarrow> sv_version e + 1)"
    unfolding r part_set_def old by (simp add: Let_def split: option.split)
  have same: "partition_index n k' = ?idx" if "k' = k" "n = length (ds_partitions st)" for k' n
    using that by simp
  have evicted: "store_index st k' = ?idx" if "evicted_key k st = Some k'" for k'
  proof -
    from that have "k' \<in> hm_dom (ds_partitions st ! ?idx)"
      by (auto simp: evicted_key_def Let_def hm_dom_def split: if_splits)
    with ok store_shards.index_in [OF ok, of k] show ?thesis by (auto simp: shards_ok_def)
  qed
  show map': "store_map st' = (\<lambda>k'. if k' = k then Some r
      else if evicted_key k st = Some k' then None else store_map st k')"
  proof
    fix k'
    show "store_map st' k' = (if k' = k then Some r
      else if evicted_key k st = Some k' then None else store_map st k')"
      using evicted [of k'] store_shards.flat_update [OF ok, of k "hm_insert k r ?room" k']
      by (auto simp: st' store_map_def get_room_for flat_def)
  qed
  show "ds_config st' = ds_config st" by (simp add: st')
  have "shards_ok partition_index (ds_partitions st')"
    using store_shards.shards_ok_update [OF ok, of "hm_insert k r ?room" k] room_for_ok(1,2) [OF inv, of k]
    by (auto simp: st')
  moreover have "length p \<le> max 1 (partition_limit st')" if "p \<in> set (ds_partitions st')" for p
  proof -
    have limit: "partition_limit st' = partition_limit st" by (simp add: st' partition_limit_def)
    from that have "p = hm_insert k r ?room \<or> p \<in> set (ds_partitions st)"
      using set_update_subset_insert [of "ds_partitions st"] by (auto simp: st')
    with inv room_for_ok(3,4) [OF inv, of k] show ?thesis
      unfolding limit by (auto simp: store_inv_def hm_length_insert)
  qed
  moreover have "sv_key e = k' \<and> 1 \<le> sv_version e" if "store_map st' k' = Some e" for k' e
    using that inv rk rv unfolding map' by (auto simp: store_inv_def split: if_splits option.splits)
  ultimately show "store_inv st'" by (simp add: store_inv_def)
qed

lemma store_delete_spec:
  assumes inv: "store_inv st" and del: "store_delete k st = (found, st')"
  shows "store_inv st'" and "store_map st' = (store_map st)(k := None)"
    and "found \<longleftrightarrow> store_map st k \<noteq> None"
proof -
  let ?idx = "store_index st k"
  let ?p = "ds_partitions st ! ?idx"
  from inv have ok: "shards_ok partition_index (ds_partitions st)" by (simp add: store_inv_def)
  from del have st': "st' = st\<lparr>ds_partitions := (ds_partitions st)[?idx := hm_remove k ?p]\<rparr>"
    and found: "found \<longleftrightarrow> hm_get ?p k \<noteq> None"
    by (auto simp: store_delete_def part_delete_def Let_def)
  show "found \<longleftrightarrow> store_map st k \<noteq> None" using found by (simp add: store_map_def flat_def)
  show map': "store_map st' = (store_map st)(k := None)"
  proof
    fix k'
    show "store_map st' k' = ((store_map st)(k := None)) k'"
      using store_shards.flat_update [OF ok, of k "hm_remove k ?p" k']
      by (auto simp: st' store_map_def flat_def)
  qed
  have p_ok: "hm_ok ?p" by (rule store_shards.shard_ok [OF ok])
  have "shards_ok partition_index (ds_partitions st')"
    using store_shards.shards_ok_update [OF ok, of "hm_remove k ?p" k] p_ok by (auto simp: st')
  moreover have "length q \<le> max 1 (partition_limit st')" if "q \<in> set (ds_partitions st')" for q
  proof -
    have limit: "partition_limit st' = partition_limit st" by (simp add: st' partition_limit_def)
    from that have "q = hm_remove k ?p \<or> q \<in> set (ds_partitions st)"
      using set_update_subset_insert [of "ds_partitions st"] by (auto simp: st')
    moreover have "?p \<in> set (ds_partitions st)" using store_shards.index_in [OF ok] by simp
    ultimately show ?thesis
      using inv hm_length_remove [OF p_ok, of k] unfolding limit by (fastforce simp: store_inv_def)
  qed
  ultimately show "store_inv st'" using inv unfolding store_inv_def map' by auto
qed

text \<open>The operations that write, as a machine.\<close>

inductive store_step :: "dist_store \<Rightarrow> dist_store \<Rightarrow> bool" where
  store_step_set: "store_set now k v st = (r, st') \<Longrightarrow> store_step st st'"
| store_step_delete: "store_delete k st = (found, st') \<Longrightarrow> store_step st st'"

definition store_init :: "dist_store \<Rightarrow> bool" where
  "store_init st \<longleftrightarrow> (\<exists>c. st = store_new c)"

interpretation store_machine: machine store_init store_step store_inv
  by unfold_locales
    (auto simp: store_init_def store_inv_new elim!: store_step.cases intro: store_set_spec(1) store_delete_spec(1))

lemma store_len_card: "store_inv st \<Longrightarrow> store_len st = card (dom (store_map st))"
  unfolding store_len_def store_map_def by (rule store_shards.total_length) (simp add: store_inv_def)

lemma store_scan_mem:
  assumes "store_inv st"
  shows "v \<in> set (store_scan_prefix pre st) \<longleftrightarrow> store_map st (sv_key v) = Some v \<and> starts_with (sv_key v) pre"
proof -
  from assms have ok: "shards_ok partition_index (ds_partitions st)" by (simp add: store_inv_def)
  have mem: "(k, v) \<in> set (concat (ds_partitions st)) \<longleftrightarrow> store_map st k = Some v" for k v
    using store_shards.flat_mem [OF ok] by (simp add: store_map_def)
  have "v \<in> set (store_scan_prefix pre st) \<longleftrightarrow>
      (\<exists>k. (k, v) \<in> set (concat (ds_partitions st))) \<and> starts_with (sv_key v) pre"
    by (force simp: store_scan_prefix_def part_scan_prefix_def)
  also have "\<dots> \<longleftrightarrow> store_map st (sv_key v) = Some v \<and> starts_with (sv_key v) pre"
    unfolding mem using assms by (auto simp: store_inv_def)
  finally show ?thesis .
qed

section \<open>Properties\<close>

text \<open>C9: a write returns the value with its version one higher and changes the store, read as one
  map over all partitions, at its key only, except that a full partition loses one entry: the
  first in its iteration order.\<close>

theorem store_set_refines:
  assumes "store_inv st" "store_set now k v st = (r, st')"
  shows "store_inv st' \<and> store_get k st' = Some r \<and> sv_value r = v
    \<and> (\<forall>k'. k' \<noteq> k \<longrightarrow> store_get k' st' = (if evicted_key k st = Some k' then None else store_get k' st))
    \<and> (evicted_key k st \<noteq> Some k \<longrightarrow>
        sv_version r = (case store_get k st of None \<Rightarrow> 1 | Some e \<Rightarrow> sv_version e + 1))"
  using store_set_spec [OF assms] by (simp add: store_get_map)

definition sample_store :: dist_store where
  "sample_store = snd (store_set 0 ''a'' [1] (store_new store_config_default))"

lemma sample_store_inv: "store_inv sample_store"
  unfolding sample_store_def
  by (rule store_set_spec(1) [OF store_inv_new surjective_pairing])

theorem store_set_refines_witness:
  "store_inv (snd (store_set 5 ''b'' [2] sample_store))
    \<and> store_get ''b'' (snd (store_set 5 ''b'' [2] sample_store)) \<noteq> None"
  using store_set_refines [OF sample_store_inv surjective_pairing, of 5 "''b''" "[2]"] by auto

text \<open>In every state the store reaches, the number of entries is that of the keys in the
  flat map, and no more than the number of partitions times what one partition may hold, which
  is one entry even when \<open>max_keys\<close> is smaller than the number of partitions.\<close>

theorem store_len_bound:
  assumes "reaches store_init store_step st"
  shows "store_len st = card (dom (\<lambda>k. store_get k st))
    \<and> store_len st \<le> length (ds_partitions st)
        * max 1 (sc_max_keys (ds_config st) div length (ds_partitions st))"
proof -
  have inv: "store_inv st" by (rule store_machine.reaches_inv [OF assms])
  then show ?thesis
    using store_len_card store_shards.total_length_le [of "ds_partitions st" "max 1 (partition_limit st)"]
    by (auto simp: store_get_map store_inv_def store_len_def partition_limit_def)
qed

theorem store_len_bound_witness:
  "store_len sample_store = card (dom (\<lambda>k. store_get k sample_store))"
  by (rule store_len_bound [THEN conjunct1], rule reaches_step, rule reaches_init)
    (auto simp: store_init_def sample_store_def intro: store_step_set surjective_pairing)

text \<open>A scan returns exactly the stored values whose key has the prefix.\<close>

theorem store_scan_prefix_exact:
  assumes "store_inv st"
  shows "v \<in> set (store_scan_prefix pre st) \<longleftrightarrow>
    store_get (sv_key v) st = Some v \<and> starts_with (sv_key v) pre"
  using store_scan_mem [OF assms] by (simp add: store_get_map)

theorem store_scan_prefix_exact_witness:
  "\<forall>v. v \<in> set (store_scan_prefix ''a'' sample_store) \<longleftrightarrow>
    store_get (sv_key v) sample_store = Some v \<and> starts_with (sv_key v) ''a''"
  by (intro allI store_scan_prefix_exact [OF sample_store_inv])

text \<open>Overwriting a key that is present still evicts when its partition is full, although it
  needs no room: the evicted entry is lost, and when it is the key's own, its version starts
  again at one.\<close>

theorem overwrite_evicts:
  assumes "store_inv st" "store_set now k v st = (r, st')" "store_get k st = Some e"
    and "partition_limit st \<le> length (ds_partitions st ! store_index st k)"
  shows "\<exists>k'. evicted_key k st = Some k' \<and> store_get k' st \<noteq> None
    \<and> (if k' = k then sv_version r = 1 else store_get k' st' = None)"
proof -
  let ?p = "ds_partitions st ! store_index st k"
  from assms(3) have "hm_get ?p k = Some e" by (simp add: store_get_def part_get_def)
  then have ne: "?p \<noteq> []" by auto
  then have ev: "evicted_key k st = Some (fst (hd ?p))" using assms(4) by (simp add: evicted_key_def Let_def)
  from ne have "(fst (hd ?p), snd (hd ?p)) \<in> set ?p" by simp
  then have "(fst (hd ?p), snd (hd ?p)) \<in> set (concat (ds_partitions st))"
    using store_shards.index_in [of "ds_partitions st" k] assms(1) by (auto simp: store_inv_def)
  then have "store_map st (fst (hd ?p)) = Some (snd (hd ?p))"
    using store_shards.flat_mem [of "ds_partitions st"] assms(1) by (simp add: store_inv_def store_map_def)
  then show ?thesis using ev store_set_spec(2,4) [OF assms(1,2)] by (auto simp: store_get_map)
qed

definition tiny_store :: dist_store where
  "tiny_store = snd (store_set 0 ''a'' [1] (store_new (store_config_default\<lparr>sc_max_keys := 1\<rparr>)))"

theorem overwrite_evicts_witness:
  "\<exists>k'. evicted_key ''a'' tiny_store = Some k' \<and> store_get k' tiny_store \<noteq> None
    \<and> (if k' = ''a'' then sv_version (fst (store_set 5 ''a'' [2] tiny_store)) = 1
       else store_get k' (snd (store_set 5 ''a'' [2] tiny_store)) = None)"
proof (rule overwrite_evicts)
  show "store_inv tiny_store" unfolding tiny_store_def
    by (rule store_set_spec(1) [OF store_inv_new surjective_pairing])
  show "store_set 5 ''a'' [2] tiny_store =
      (fst (store_set 5 ''a'' [2] tiny_store), snd (store_set 5 ''a'' [2] tiny_store))" by simp
  show "store_get ''a'' tiny_store = Some (fst (store_set 0 ''a'' [1] (store_new (store_config_default\<lparr>sc_max_keys := 1\<rparr>))))"
    unfolding tiny_store_def
    using store_set_spec(2) [OF store_inv_new surjective_pairing, of 0 "''a''" "[1]"] by (simp add: store_get_map)
  show "partition_limit tiny_store \<le> length (ds_partitions tiny_store ! store_index tiny_store ''a'')"
    by (simp add: tiny_store_def partition_limit_def store_set_def store_new_def store_config_default_def Let_def
        split: prod.split)
qed

end
