(* ===== verification/Dist_Cache.thy ===== *)
theory Dist_Cache
  imports Sharding
begin

text \<open>
  The sharded cache of the crate \<open>distributed\<close> (\<open>cache.rs\<close>): entries with a time to live in
  shards, and its refinement to one flat map of live entries. \<open>now\<close> is the Unix time in
  seconds; a time to live is a \<open>u64\<close> that the code casts to \<open>i64\<close>.
\<close>

section \<open>Shards\<close>

record cache_entry =
  ce_key :: string
  ce_value :: string
  ce_created_at :: int
  ce_ttl_secs :: "nat option"
  ce_hits :: nat

type_synonym cache_shard = "(string, cache_entry) hmap"

definition entry_expired :: "int \<Rightarrow> cache_entry \<Rightarrow> bool" where
  "entry_expired now e =
     (case ce_ttl_secs e of None \<Rightarrow> False | Some ttl \<Rightarrow> now - ce_created_at e > as_i64 ttl)"

definition shard_get :: "int \<Rightarrow> string \<Rightarrow> cache_shard \<Rightarrow> string option \<times> cache_shard" where
  "shard_get now k s =
     (case hm_get s k of
        None \<Rightarrow> (None, s)
      | Some e \<Rightarrow>
          if entry_expired now e then (None, hm_remove k s)
          else (Some (ce_value e), hm_modify k (\<lambda>e. e\<lparr>ce_hits := ce_hits e + 1\<rparr>) s))"

definition shard_set :: "int \<Rightarrow> string \<Rightarrow> string \<Rightarrow> nat option \<Rightarrow> cache_shard \<Rightarrow> cache_shard" where
  "shard_set now k v ttl s =
     (let s' = (if length s \<ge> 100000
                then (case hm_keys s of [] \<Rightarrow> s | old_key # _ \<Rightarrow> hm_remove old_key s) else s)
      in hm_insert k \<lparr>ce_key = k, ce_value = v, ce_created_at = now, ce_ttl_secs = ttl, ce_hits = 0\<rparr> s')"

section \<open>The cache\<close>

record cache_config =
  cc_max_entries :: nat
  cc_default_ttl_secs :: "nat option"
  cc_shard_count :: nat

definition cache_config_default :: cache_config where
  "cache_config_default = \<lparr>cc_max_entries = 100000, cc_default_ttl_secs = Some 300, cc_shard_count = 16\<rparr>"

record dist_cache =
  dc_config :: cache_config
  dc_shards :: "cache_shard list"

record cache_stats =
  cst_total_entries :: nat
  cst_shard_count :: nat
  cst_max_entries :: nat

definition cache_new :: "cache_config \<Rightarrow> dist_cache" where
  "cache_new c = \<lparr>dc_config = c, dc_shards = replicate (max 1 (cc_shard_count c)) []\<rparr>"

definition shard_index :: "nat \<Rightarrow> string \<Rightarrow> nat" where
  "shard_index n key = hash_index 31 n key"

abbreviation cache_index :: "dist_cache \<Rightarrow> string \<Rightarrow> nat" where
  "cache_index c k \<equiv> shard_index (length (dc_shards c)) k"

definition cache_get :: "int \<Rightarrow> string \<Rightarrow> dist_cache \<Rightarrow> string option \<times> dist_cache" where
  "cache_get now k c =
     (let idx = cache_index c k; (v, s) = shard_get now k (dc_shards c ! idx)
      in (v, c\<lparr>dc_shards := (dc_shards c)[idx := s]\<rparr>))"

definition option_or :: "'a option \<Rightarrow> 'a option \<Rightarrow> 'a option" where
  "option_or a b = (case a of None \<Rightarrow> b | Some x \<Rightarrow> Some x)"

definition cache_set :: "int \<Rightarrow> string \<Rightarrow> string \<Rightarrow> nat option \<Rightarrow> dist_cache \<Rightarrow> dist_cache" where
  "cache_set now k v ttl c =
     (let idx = cache_index c k
      in c\<lparr>dc_shards := (dc_shards c)[idx :=
           shard_set now k v (option_or ttl (cc_default_ttl_secs (dc_config c))) (dc_shards c ! idx)]\<rparr>)"

definition cache_remove :: "string \<Rightarrow> dist_cache \<Rightarrow> bool \<times> dist_cache" where
  "cache_remove k c =
     (let idx = cache_index c k; s = dc_shards c ! idx
      in (hm_get s k \<noteq> None, c\<lparr>dc_shards := (dc_shards c)[idx := hm_remove k s]\<rparr>))"

definition cache_clear :: "dist_cache \<Rightarrow> dist_cache" where
  "cache_clear c = c\<lparr>dc_shards := map (\<lambda>_. []) (dc_shards c)\<rparr>"

definition cache_len :: "dist_cache \<Rightarrow> nat" where
  "cache_len c = sum_list (map length (dc_shards c))"

definition cache_stats_of :: "dist_cache \<Rightarrow> cache_stats" where
  "cache_stats_of c = \<lparr>cst_total_entries = sum_list (map length (dc_shards c)),
     cst_shard_count = length (dc_shards c) mod 2 ^ 16, cst_max_entries = cc_max_entries (dc_config c)\<rparr>"

definition cache_keys :: "dist_cache \<Rightarrow> string list" where
  "cache_keys c = concat (map hm_keys (dc_shards c))"

section \<open>The flat map\<close>

interpretation cache_shards: sharded shard_index
  by unfold_locales (simp add: shard_index_def hash_index_less)

definition cache_map :: "dist_cache \<Rightarrow> string \<Rightarrow> cache_entry option" where
  "cache_map c = flat shard_index (dc_shards c)"

text \<open>What a reader sees: the value of an entry that has not expired.\<close>

definition visible :: "int \<Rightarrow> dist_cache \<Rightarrow> string \<Rightarrow> string option" where
  "visible now c k = (case cache_map c k of None \<Rightarrow> None
     | Some e \<Rightarrow> if entry_expired now e then None else Some (ce_value e))"

definition cache_inv :: "dist_cache \<Rightarrow> bool" where
  "cache_inv c \<longleftrightarrow> shards_ok shard_index (dc_shards c) \<and> (\<forall>s \<in> set (dc_shards c). length s \<le> 100000)"

text \<open>Replacing the shard of a key.\<close>

lemma cache_update:
  assumes inv: "cache_inv c" and ok: "hm_ok s" and dom: "hm_dom s \<subseteq> insert k (hm_dom (dc_shards c ! cache_index c k))"
    and len: "length s \<le> 100000"
  shows "cache_inv (c\<lparr>dc_shards := (dc_shards c)[cache_index c k := s]\<rparr>)"
    and "cache_map (c\<lparr>dc_shards := (dc_shards c)[cache_index c k := s]\<rparr>) k' =
      (if cache_index c k' = cache_index c k then hm_get s k' else cache_map c k')"
proof -
  from inv have sh: "shards_ok shard_index (dc_shards c)" by (simp add: cache_inv_def)
  have "length q \<le> 100000" if "q \<in> set ((dc_shards c)[cache_index c k := s])" for q
    using that inv len set_update_subset_insert [of "dc_shards c"] by (auto simp: cache_inv_def)
  with cache_shards.shards_ok_update [OF sh ok dom]
  show "cache_inv (c\<lparr>dc_shards := (dc_shards c)[cache_index c k := s]\<rparr>)" by (simp add: cache_inv_def)
  show "cache_map (c\<lparr>dc_shards := (dc_shards c)[cache_index c k := s]\<rparr>) k' =
      (if cache_index c k' = cache_index c k then hm_get s k' else cache_map c k')"
    using cache_shards.flat_update [OF sh, of k s k'] by (simp add: cache_map_def)
qed

lemma cache_shard_ok:
  "cache_inv c \<Longrightarrow> hm_ok (dc_shards c ! cache_index c k) \<and> length (dc_shards c ! cache_index c k) \<le> 100000"
  using cache_shards.shard_ok [of "dc_shards c" k] cache_shards.index_in [of "dc_shards c" k]
  by (simp add: cache_inv_def)

lemma cache_inv_new: "cache_inv (cache_new c)"
proof -
  have pos: "0 < max 1 (cc_shard_count c)" by simp
  show ?thesis
    by (simp add: cache_inv_def cache_new_def cache_shards.shards_ok_new [OF pos, simplified])
qed

lemma cache_map_index: "cache_map c k = hm_get (dc_shards c ! cache_index c k) k"
  by (simp add: cache_map_def flat_def)

text \<open>The entry a full shard loses when a key is set.\<close>

definition cache_victim :: "string \<Rightarrow> dist_cache \<Rightarrow> string option" where
  "cache_victim k c = (let s = dc_shards c ! cache_index c k in
     if length s \<ge> 100000 \<and> s \<noteq> [] then Some (fst (hd s)) else None)"

lemma cache_set_spec:
  assumes inv: "cache_inv c"
  shows "cache_inv (cache_set now k v ttl c)"
    and "cache_map (cache_set now k v ttl c) k' =
      (if k' = k then Some \<lparr>ce_key = k, ce_value = v, ce_created_at = now,
          ce_ttl_secs = option_or ttl (cc_default_ttl_secs (dc_config c)), ce_hits = 0\<rparr>
       else if cache_victim k c = Some k' then None else cache_map c k')"
proof -
  let ?s = "dc_shards c ! cache_index c k"
  let ?ttl = "option_or ttl (cc_default_ttl_secs (dc_config c))"
  let ?s' = "shard_set now k v ?ttl ?s"
  have ok: "hm_ok ?s" "length ?s \<le> 100000" using cache_shard_ok [OF inv] by auto
  have s': "hm_ok ?s'" "hm_dom ?s' \<subseteq> insert k (hm_dom ?s)" "length ?s' \<le> 100000"
    using ok by (cases ?s; auto simp: shard_set_def Let_def hm_length_insert hm_length_remove)+
  have get: "hm_get ?s' k' = (if k' = k then Some \<lparr>ce_key = k, ce_value = v, ce_created_at = now,
      ce_ttl_secs = ?ttl, ce_hits = 0\<rparr>
      else if cache_victim k c = Some k' then None else hm_get ?s k')" for k'
    by (cases ?s) (auto simp: shard_set_def Let_def cache_victim_def)
  note upd = cache_update [OF inv s']
  show "cache_inv (cache_set now k v ttl c)" using upd(1) by (simp add: cache_set_def Let_def)
  have victim: "cache_index c k' = cache_index c k" if "cache_victim k c = Some k'" for k'
  proof -
    from that have "k' \<in> hm_dom ?s" by (auto simp: cache_victim_def Let_def hm_dom_def split: if_splits)
    with inv cache_shards.index_in [of "dc_shards c" k] show ?thesis
      by (auto simp: cache_inv_def shards_ok_def)
  qed
  show "cache_map (cache_set now k v ttl c) k' =
      (if k' = k then Some \<lparr>ce_key = k, ce_value = v, ce_created_at = now, ce_ttl_secs = ?ttl, ce_hits = 0\<rparr>
       else if cache_victim k c = Some k' then None else cache_map c k')"
    using upd(2) [of k'] victim [of k'] get [of k'] by (auto simp: cache_set_def Let_def cache_map_index)
qed

lemma cache_get_spec:
  assumes inv: "cache_inv c" and get: "cache_get now k c = (r, c')"
  shows "cache_inv c'" and "r = visible now c k"
    and "cache_map c' k' = (if k' \<noteq> k then cache_map c k'
      else if visible now c k = None then None
      else map_option (\<lambda>e. e\<lparr>ce_hits := ce_hits e + 1\<rparr>) (cache_map c k))"
proof -
  let ?s = "dc_shards c ! cache_index c k"
  let ?s' = "snd (shard_get now k ?s)"
  have ok: "hm_ok ?s" "length ?s \<le> 100000" using cache_shard_ok [OF inv] by auto
  have s': "hm_ok ?s'" "hm_dom ?s' \<subseteq> insert k (hm_dom ?s)" "length ?s' \<le> 100000"
    using ok by (auto simp: shard_get_def hm_length_remove split: option.split)
  from get have c': "c' = c\<lparr>dc_shards := (dc_shards c)[cache_index c k := ?s']\<rparr>"
    and r: "r = fst (shard_get now k ?s)" by (auto simp: cache_get_def Let_def split: prod.splits)
  note upd = cache_update [OF inv s', folded c']
  show "cache_inv c'" by (rule upd(1))
  show "r = visible now c k"
    by (simp add: r shard_get_def visible_def cache_map_index split: option.split)
  show "cache_map c' k' = (if k' \<noteq> k then cache_map c k'
      else if visible now c k = None then None
      else map_option (\<lambda>e. e\<lparr>ce_hits := ce_hits e + 1\<rparr>) (cache_map c k))"
    using upd(2) [of k'] by (auto simp: shard_get_def visible_def cache_map_index split: option.splits)
qed

lemma cache_remove_spec:
  assumes inv: "cache_inv c" and rm: "cache_remove k c = (found, c')"
  shows "cache_inv c'" and "found \<longleftrightarrow> cache_map c k \<noteq> None" and "cache_map c' = (cache_map c)(k := None)"
proof -
  let ?s = "dc_shards c ! cache_index c k"
  have ok: "hm_ok ?s" "length ?s \<le> 100000" using cache_shard_ok [OF inv] by auto
  then have s': "hm_ok (hm_remove k ?s)" "hm_dom (hm_remove k ?s) \<subseteq> insert k (hm_dom ?s)"
    "length (hm_remove k ?s) \<le> 100000" by (auto simp: hm_length_remove)
  from rm have c': "c' = c\<lparr>dc_shards := (dc_shards c)[cache_index c k := hm_remove k ?s]\<rparr>"
    and found: "found \<longleftrightarrow> hm_get ?s k \<noteq> None" by (auto simp: cache_remove_def Let_def)
  note upd = cache_update [OF inv s', folded c']
  show "cache_inv c'" by (rule upd(1))
  show "found \<longleftrightarrow> cache_map c k \<noteq> None" by (simp add: found cache_map_index)
  show "cache_map c' = (cache_map c)(k := None)"
    using upd(2) by (auto simp: cache_map_index fun_eq_iff)
qed

lemma cache_clear_spec:
  assumes "cache_inv c"
  shows "cache_inv (cache_clear c)" and "cache_map (cache_clear c) = (\<lambda>k. None)"
proof -
  from assms have pos: "0 < length (dc_shards c)" by (simp add: cache_inv_def shards_ok_def)
  have "map (\<lambda>_. []) (dc_shards c) = replicate (length (dc_shards c)) ([] :: cache_shard)"
    by (simp add: map_replicate_const)
  then show "cache_inv (cache_clear c)" "cache_map (cache_clear c) = (\<lambda>k. None)"
    by (simp_all add: cache_inv_def cache_clear_def cache_map_def cache_shards.shards_ok_new [OF pos]
        cache_shards.flat_new [OF pos])
qed

inductive cache_step :: "dist_cache \<Rightarrow> dist_cache \<Rightarrow> bool" where
  cache_step_get: "cache_get now k c = (r, c') \<Longrightarrow> cache_step c c'"
| cache_step_set: "cache_step c (cache_set now k v ttl c)"
| cache_step_remove: "cache_remove k c = (found, c') \<Longrightarrow> cache_step c c'"
| cache_step_clear: "cache_step c (cache_clear c)"

definition cache_init :: "dist_cache \<Rightarrow> bool" where
  "cache_init c \<longleftrightarrow> (\<exists>config. c = cache_new config)"

interpretation cache_machine: machine cache_init cache_step cache_inv
  by unfold_locales (auto simp: cache_init_def cache_inv_new elim!: cache_step.cases
      intro: cache_get_spec(1) cache_set_spec(1) cache_remove_spec(1) cache_clear_spec(1))

section \<open>Properties\<close>

inductive other_key_step :: "string \<Rightarrow> dist_cache \<Rightarrow> dist_cache \<Rightarrow> bool" for k where
  other_get: "cache_get now k' c = (r, c') \<Longrightarrow> k' \<noteq> k \<Longrightarrow> other_key_step k c c'"
| other_remove: "cache_remove k' c = (found, c') \<Longrightarrow> k' \<noteq> k \<Longrightarrow> other_key_step k c c'"

lemma other_key_steps:
  "(other_key_step k)\<^sup>*\<^sup>* c c' \<Longrightarrow> cache_inv c \<Longrightarrow> cache_inv c' \<and> cache_map c' k = cache_map c k"
proof (induction rule: rtranclp_induct)
  case base
  then show ?case by simp
next
  case (step c1 c2)
  then show ?case
    by (auto elim!: other_key_step.cases dest: cache_get_spec cache_remove_spec)
      (metis cache_get_spec(3))+
qed

text \<open>A value that was set is what a read of its key returns until its time to live (the
  default of the configuration when none is given) has passed, whatever other keys are read and
  removed in between; after that the read returns nothing.\<close>

theorem cache_get_after_set:
  assumes "cache_inv c" "option_or ttl (cc_default_ttl_secs (dc_config c)) = Some secs"
    and "(other_key_step k)\<^sup>*\<^sup>* (cache_set now k v ttl c) c'"
  shows "fst (cache_get later k c') = (if later - now \<le> as_i64 secs then Some v else None)"
proof -
  note set = cache_set_spec [OF assms(1), of now k v ttl]
  note other = other_key_steps [OF assms(3) set(1)]
  obtain r c'' where "cache_get later k c' = (r, c'')" by fastforce
  with cache_get_spec(2) [OF conjunct1 [OF other] this] other set(2) [of k] assms(2)
  show ?thesis by (simp add: visible_def entry_expired_def)
qed

theorem cache_get_after_set_witness:
  "fst (cache_get 400 ''k'' (cache_set 100 ''k'' ''v'' None (cache_new cache_config_default))) = Some ''v''"
  using cache_get_after_set [OF cache_inv_new, of None cache_config_default 300 "''k''" 100 "''v''" _ 400]
  by (simp add: cache_config_default_def cache_new_def option_or_def)

text \<open>A time to live of \<open>2 ^ 63\<close> seconds or more is read as a negative number, so a value set
  with it is gone at once.\<close>

theorem huge_ttl_expires_at_once:
  assumes "cache_inv c" "2 ^ 63 \<le> ttl" "ttl < 2 ^ 64"
  shows "fst (cache_get now k (cache_set now k v (Some ttl) c)) = None"
proof -
  note set = cache_set_spec [OF assms(1), of now k v "Some ttl"]
  obtain r c'' where get: "cache_get now k (cache_set now k v (Some ttl) c) = (r, c'')" by fastforce
  have "as_i64 ttl < 0" using assms(2,3) by (simp add: as_i64_def)
  then show ?thesis using get cache_get_spec(2) [OF set(1) get] set(2) [of k]
    by (simp add: visible_def entry_expired_def option_or_def)
qed

theorem huge_ttl_expires_at_once_witness:
  "fst (cache_get 7 ''k'' (cache_set 7 ''k'' ''v'' (Some (2 ^ 64 - 1)) (cache_new cache_config_default))) = None"
  by (rule huge_ttl_expires_at_once [OF cache_inv_new]) simp_all

text \<open>In every state the cache reaches, a shard holds at most 100000 entries, and the number of
  entries is that of the keys in the flat map.\<close>

theorem cache_len_bound:
  assumes "reaches cache_init cache_step c"
  shows "cache_len c = card (dom (cache_map c)) \<and> cache_len c \<le> length (dc_shards c) * 100000"
proof -
  have "cache_inv c" by (rule cache_machine.reaches_inv [OF assms])
  then show ?thesis
    using cache_shards.total_length [of "dc_shards c"] cache_shards.total_length_le [of "dc_shards c" 100000]
    by (auto simp: cache_inv_def cache_len_def cache_map_def)
qed

theorem cache_len_bound_witness:
  "cache_len (cache_set 0 ''k'' ''v'' None (cache_new cache_config_default)) =
    card (dom (cache_map (cache_set 0 ''k'' ''v'' None (cache_new cache_config_default))))"
  by (rule cache_len_bound [THEN conjunct1], rule reaches_step, rule reaches_init)
    (auto simp: cache_init_def intro: cache_step_set)

end
