(* ===== verification/Dist_Queue.thy ===== *)
theory Dist_Queue
  imports Core "HOL-Library.Sublist"
begin

text \<open>
  The partitioned message queue of the crate \<open>distributed\<close> (\<open>queue.rs\<close>): one first-in
  first-out partition per topic, with a bound that drops the oldest message, a time to live
  checked on consumption, and acknowledgements.

  Identifiers of messages come from a generator that is a parameter; \<open>utc\<close> is the Unix time in
  seconds and \<open>now\<close> the monotone clock.
\<close>

section \<open>Data and operations\<close>

record queue_message =
  qm_id :: string
  qm_topic :: string
  qm_payload :: string
  qm_created_at :: int
  qm_ttl_secs :: "nat option"

record queue_config =
  qc_max_queue_size :: nat
  qc_default_ttl_secs :: "nat option"
  qc_batch_size :: nat
  qc_poll_interval_ms :: nat

definition queue_config_default :: queue_config where
  "queue_config_default = \<lparr>qc_max_queue_size = 10000, qc_default_ttl_secs = Some 3600,
     qc_batch_size = 100, qc_poll_interval_ms = 100\<rparr>"

record topic_partition =
  tp_messages :: "queue_message list"
  tp_unacked :: "(string, int) hmap"

definition empty_partition :: topic_partition where
  "empty_partition = \<lparr>tp_messages = [], tp_unacked = []\<rparr>"

record dist_queue =
  dq_config :: queue_config
  dq_partitions :: "(string, topic_partition) hmap"

definition queue_new :: "queue_config \<Rightarrow> dist_queue" where
  "queue_new c = \<lparr>dq_config = c, dq_partitions = []\<rparr>"

definition partition_of :: "dist_queue \<Rightarrow> string \<Rightarrow> topic_partition" where
  "partition_of q topic = (case hm_get (dq_partitions q) topic of None \<Rightarrow> empty_partition | Some p \<Rightarrow> p)"

definition push_message :: "nat \<Rightarrow> queue_message \<Rightarrow> topic_partition \<Rightarrow> topic_partition" where
  "push_message max_size msg p =
     p\<lparr>tp_messages := (if length (tp_messages p) \<ge> max_size then tl (tp_messages p) else tp_messages p) @ [msg]\<rparr>"

definition publish :: "string \<Rightarrow> int \<Rightarrow> string \<Rightarrow> string \<Rightarrow> dist_queue \<Rightarrow> queue_message \<times> dist_queue" where
  "publish fresh_id utc topic payload q =
     (let msg = \<lparr>qm_id = fresh_id, qm_topic = topic, qm_payload = payload, qm_created_at = utc,
                 qm_ttl_secs = qc_default_ttl_secs (dq_config q)\<rparr>
      in (msg, q\<lparr>dq_partitions := hm_insert topic
            (push_message (qc_max_queue_size (dq_config q)) msg (partition_of q topic)) (dq_partitions q)\<rparr>))"

definition msg_expired :: "int \<Rightarrow> queue_message \<Rightarrow> bool" where
  "msg_expired utc m = (case qm_ttl_secs m of None \<Rightarrow> False | Some ttl \<Rightarrow> utc - qm_created_at m > as_i64 ttl)"

fun consume_loop :: "nat \<Rightarrow> int \<Rightarrow> int \<Rightarrow> queue_message list \<Rightarrow> queue_message list \<Rightarrow> (string, int) hmap
   \<Rightarrow> queue_message list \<times> queue_message list \<times> (string, int) hmap" where
  "consume_loop batch now utc taken [] unacked = (taken, [], unacked)"
| "consume_loop batch now utc taken (m # messages) unacked =
     (if length taken \<ge> batch then (taken, m # messages, unacked)
      else if msg_expired utc m then consume_loop batch now utc taken messages unacked
      else consume_loop batch now utc (taken @ [m]) messages (hm_insert (qm_id m) now unacked))"

definition consume :: "int \<Rightarrow> int \<Rightarrow> string \<Rightarrow> nat option \<Rightarrow> dist_queue \<Rightarrow> queue_message list \<times> dist_queue" where
  "consume now utc topic batch_size q =
     (let batch = (case batch_size of None \<Rightarrow> qc_batch_size (dq_config q) | Some n \<Rightarrow> n)
      in case hm_get (dq_partitions q) topic of
           None \<Rightarrow> ([], q)
         | Some p \<Rightarrow>
             (let (taken, messages, unacked) = consume_loop batch now utc [] (tp_messages p) (tp_unacked p)
              in (taken, q\<lparr>dq_partitions := hm_insert topic
                    \<lparr>tp_messages = messages, tp_unacked = unacked\<rparr> (dq_partitions q)\<rparr>)))"

definition ack :: "string \<Rightarrow> string \<Rightarrow> dist_queue \<Rightarrow> bool \<times> dist_queue" where
  "ack topic msg_id q =
     (case hm_get (dq_partitions q) topic of
        None \<Rightarrow> (False, q)
      | Some p \<Rightarrow> (hm_get (tp_unacked p) msg_id \<noteq> None,
          q\<lparr>dq_partitions := hm_insert topic (p\<lparr>tp_unacked := hm_remove msg_id (tp_unacked p)\<rparr>)
            (dq_partitions q)\<rparr>))"

definition depth :: "string \<Rightarrow> dist_queue \<Rightarrow> nat" where
  "depth topic q = (case hm_get (dq_partitions q) topic of None \<Rightarrow> 0 | Some p \<Rightarrow> length (tp_messages p))"

definition topics :: "dist_queue \<Rightarrow> string list" where
  "topics q = hm_keys (dq_partitions q)"

section \<open>Messages waiting and in flight\<close>

definition waiting :: "dist_queue \<Rightarrow> string \<Rightarrow> queue_message list" where
  "waiting q topic = tp_messages (partition_of q topic)"

definition in_flight :: "dist_queue \<Rightarrow> string \<Rightarrow> string set" where
  "in_flight q topic = hm_dom (tp_unacked (partition_of q topic))"

lemma depth_waiting: "depth topic q = length (waiting q topic)"
  by (simp add: depth_def waiting_def partition_of_def empty_partition_def split: option.split)

lemma publish_simps:
  "waiting (snd (publish i utc topic payload q)) t = (if t = topic
     then (if length (waiting q topic) \<ge> qc_max_queue_size (dq_config q) then tl (waiting q topic)
           else waiting q topic) @ [fst (publish i utc topic payload q)]
     else waiting q t)"
  "in_flight (snd (publish i utc topic payload q)) t = in_flight q t"
  "dq_config (snd (publish i utc topic payload q)) = dq_config q"
  by (auto simp: publish_def waiting_def in_flight_def partition_of_def push_message_def Let_def)

text \<open>
  What a loop over the waiting messages does: it goes through a prefix of them, takes those that
  have not expired, and stops at the batch size or at the end.
\<close>

lemma consume_loop_spec:
  "consume_loop batch now utc taken messages unacked = (taken', rest, unacked') \<Longrightarrow>
    \<exists>gone. messages = gone @ rest \<and> taken' = taken @ filter (\<lambda>m. \<not> msg_expired utc m) gone
      \<and> hm_dom unacked' = hm_dom unacked \<union> qm_id ` set (filter (\<lambda>m. \<not> msg_expired utc m) gone)
      \<and> (length taken \<le> batch \<longrightarrow> length taken' \<le> batch)
      \<and> (rest = [] \<or> batch \<le> length taken')"
proof (induction batch now utc taken messages unacked rule: consume_loop.induct)
  case (1 batch now utc taken unacked)
  then show ?case by auto
next
  case (2 batch now utc taken m messages unacked)
  consider (full) "length taken \<ge> batch" | (expired) "length taken < batch" "msg_expired utc m"
    | (take) "length taken < batch" "\<not> msg_expired utc m" by linarith
  then show ?case
  proof cases
    case full
    with "2.prems" show ?thesis by (intro exI [of _ "[]"]) auto
  next
    case expired
    with "2.IH"(1) "2.prems" obtain gone where "messages = gone @ rest"
      "taken' = taken @ filter (\<lambda>m. \<not> msg_expired utc m) gone"
      "hm_dom unacked' = hm_dom unacked \<union> qm_id ` set (filter (\<lambda>m. \<not> msg_expired utc m) gone)"
      "length taken \<le> batch \<longrightarrow> length taken' \<le> batch" "rest = [] \<or> batch \<le> length taken'" by auto
    with expired show ?thesis by (intro exI [of _ "m # gone"]) auto
  next
    case take
    with "2.IH"(2) "2.prems" obtain gone where "messages = gone @ rest"
      "taken' = (taken @ [m]) @ filter (\<lambda>m. \<not> msg_expired utc m) gone"
      "hm_dom unacked' = hm_dom (hm_insert (qm_id m) now unacked)
        \<union> qm_id ` set (filter (\<lambda>m. \<not> msg_expired utc m) gone)"
      "length (taken @ [m]) \<le> batch \<longrightarrow> length taken' \<le> batch" "rest = [] \<or> batch \<le> length taken'" by auto
    with take show ?thesis by (intro exI [of _ "m # gone"]) auto
  qed
qed

lemma consume_cases:
  assumes "consume now utc topic bs q = (taken, q')"
    and batch: "batch = (case bs of None \<Rightarrow> qc_batch_size (dq_config q) | Some n \<Rightarrow> n)"
  obtains "hm_get (dq_partitions q) topic = None" "taken = []" "q' = q"
  | p rest ua where "hm_get (dq_partitions q) topic = Some p"
      "consume_loop batch now utc [] (tp_messages p) (tp_unacked p) = (taken, rest, ua)"
      "q' = q\<lparr>dq_partitions := hm_insert topic \<lparr>tp_messages = rest, tp_unacked = ua\<rparr> (dq_partitions q)\<rparr>"
proof (cases "hm_get (dq_partitions q) topic")
  case None
  with assms(1) have "taken = []" "q' = q" by (simp_all add: consume_def)
  with None show ?thesis by (rule that(1))
next
  case (Some p)
  obtain tk rest ua where loop: "consume_loop batch now utc [] (tp_messages p) (tp_unacked p) = (tk, rest, ua)"
    by (metis prod_cases3)
  with assms(1) Some have "taken = tk"
    "q' = q\<lparr>dq_partitions := hm_insert topic \<lparr>tp_messages = rest, tp_unacked = ua\<rparr> (dq_partitions q)\<rparr>"
    by (simp_all add: consume_def batch [symmetric])
  with Some loop show ?thesis by (intro that(2)) simp_all
qed

lemma consume_spec:
  assumes "consume now utc topic bs q = (taken, q')"
  shows "\<exists>gone rest. waiting q topic = gone @ rest \<and> waiting q' topic = rest
      \<and> taken = filter (\<lambda>m. \<not> msg_expired utc m) gone
      \<and> in_flight q' topic = in_flight q topic \<union> qm_id ` set taken
      \<and> length taken \<le> (case bs of None \<Rightarrow> qc_batch_size (dq_config q) | Some n \<Rightarrow> n)
      \<and> (rest = [] \<or> length taken = (case bs of None \<Rightarrow> qc_batch_size (dq_config q) | Some n \<Rightarrow> n))"
    and "t \<noteq> topic \<Longrightarrow> waiting q' t = waiting q t \<and> in_flight q' t = in_flight q t"
    and "dq_config q' = dq_config q"
proof -
  let ?batch = "case bs of None \<Rightarrow> qc_batch_size (dq_config q) | Some n \<Rightarrow> n"
  have "(\<exists>gone rest. waiting q topic = gone @ rest \<and> waiting q' topic = rest
      \<and> taken = filter (\<lambda>m. \<not> msg_expired utc m) gone
      \<and> in_flight q' topic = in_flight q topic \<union> qm_id ` set taken
      \<and> length taken \<le> ?batch \<and> (rest = [] \<or> length taken = ?batch))
    \<and> (t \<noteq> topic \<longrightarrow> waiting q' t = waiting q t \<and> in_flight q' t = in_flight q t)
    \<and> dq_config q' = dq_config q" for t
    using assms refl
  proof (cases rule: consume_cases)
    case 1
    then show ?thesis by (auto simp: waiting_def partition_of_def empty_partition_def)
  next
    case (2 p rest ua)
    from consume_loop_spec [OF 2(2)] 2(1,3) show ?thesis
      by (auto simp: waiting_def in_flight_def partition_of_def)
  qed
  then show "\<exists>gone rest. waiting q topic = gone @ rest \<and> waiting q' topic = rest
      \<and> taken = filter (\<lambda>m. \<not> msg_expired utc m) gone
      \<and> in_flight q' topic = in_flight q topic \<union> qm_id ` set taken
      \<and> length taken \<le> ?batch \<and> (rest = [] \<or> length taken = ?batch)"
    "t \<noteq> topic \<Longrightarrow> waiting q' t = waiting q t \<and> in_flight q' t = in_flight q t"
    "dq_config q' = dq_config q" by blast+
qed

lemma ack_spec:
  assumes "ack topic i q = (found, q')"
  shows "waiting q' t = waiting q t"
    and "in_flight q' t = (if t = topic then in_flight q t - {i} else in_flight q t)"
    and "found \<longleftrightarrow> i \<in> in_flight q topic" and "dq_config q' = dq_config q"
proof -
  have "waiting q' t = waiting q t
    \<and> in_flight q' t = (if t = topic then in_flight q t - {i} else in_flight q t)
    \<and> (found \<longleftrightarrow> i \<in> in_flight q topic) \<and> dq_config q' = dq_config q"
  proof (cases "hm_get (dq_partitions q) topic")
    case None
    with assms show ?thesis by (auto simp: ack_def in_flight_def partition_of_def empty_partition_def)
  next
    case (Some p)
    have "hm_get (tp_unacked p) i \<noteq> None \<longleftrightarrow> i \<in> hm_dom (tp_unacked p)" by (simp add: hm_get_None)
    with Some assms show ?thesis by (auto simp: ack_def in_flight_def waiting_def partition_of_def)
  qed
  then show "waiting q' t = waiting q t"
    "in_flight q' t = (if t = topic then in_flight q t - {i} else in_flight q t)"
    "found \<longleftrightarrow> i \<in> in_flight q topic" "dq_config q' = dq_config q" by simp_all
qed

section \<open>The machine of a queue with its history\<close>

text \<open>
  A run of the queue on one topic with what was published and what was delivered so far, in
  order. Each published message gets an identifier no message had before.
\<close>

record queue_run =
  qr_queue :: dist_queue
  qr_published :: "queue_message list"
  qr_delivered :: "queue_message list"

inductive queue_step :: "string \<Rightarrow> queue_run \<Rightarrow> queue_run \<Rightarrow> bool" for topic where
  queue_publish: "publish i utc topic payload (qr_queue r) = (m, q') \<Longrightarrow>
    i \<notin> qm_id ` set (qr_published r) \<Longrightarrow>
    queue_step topic r (r\<lparr>qr_queue := q', qr_published := qr_published r @ [m]\<rparr>)"
| queue_publish_other: "publish i utc topic' payload (qr_queue r) = (m, q') \<Longrightarrow> topic' \<noteq> topic \<Longrightarrow>
    queue_step topic r (r\<lparr>qr_queue := q'\<rparr>)"
| queue_consume: "consume now utc topic bs (qr_queue r) = (ms, q') \<Longrightarrow>
    queue_step topic r (r\<lparr>qr_queue := q', qr_delivered := qr_delivered r @ ms\<rparr>)"
| queue_consume_other: "consume now utc topic' bs (qr_queue r) = (ms, q') \<Longrightarrow> topic' \<noteq> topic \<Longrightarrow>
    queue_step topic r (r\<lparr>qr_queue := q'\<rparr>)"
| queue_ack: "ack topic' i (qr_queue r) = (found, q') \<Longrightarrow> queue_step topic r (r\<lparr>qr_queue := q'\<rparr>)"

definition queue_init :: "queue_run \<Rightarrow> bool" where
  "queue_init r \<longleftrightarrow> (\<exists>c. r = \<lparr>qr_queue = queue_new c, qr_published = [], qr_delivered = []\<rparr>)"

text \<open>
  The published messages split into those that left the queue and those waiting; what was
  delivered is, in order, a part of the former.
\<close>

definition queue_inv :: "string \<Rightarrow> queue_run \<Rightarrow> bool" where
  "queue_inv topic r \<longleftrightarrow>
     (\<exists>left. qr_published r = left @ waiting (qr_queue r) topic \<and> subseq (qr_delivered r) left)
     \<and> distinct (map qm_id (qr_published r))
     \<and> length (waiting (qr_queue r) topic) \<le> max 1 (qc_max_queue_size (dq_config (qr_queue r)))"

lemma publish_id: "publish i utc topic payload q = (m, q') \<Longrightarrow> qm_id m = i"
  by (auto simp: publish_def Let_def)

lemma queue_inv_publish:
  assumes inv: "queue_inv topic r" and pub: "publish i utc topic payload (qr_queue r) = (m, q')"
    and fresh: "i \<notin> qm_id ` set (qr_published r)"
  shows "queue_inv topic (r\<lparr>qr_queue := q', qr_published := qr_published r @ [m]\<rparr>)"
proof -
  let ?w = "waiting (qr_queue r) topic"
  let ?full = "length ?w \<ge> qc_max_queue_size (dq_config (qr_queue r))"
  from inv obtain left where left: "qr_published r = left @ ?w" "subseq (qr_delivered r) left"
    by (auto simp: queue_inv_def)
  have w': "waiting q' topic = (if ?full then tl ?w else ?w) @ [m]" "dq_config q' = dq_config (qr_queue r)"
    using publish_simps(1,3) [of i utc topic payload "qr_queue r"] pub by auto
  have "\<exists>left'. qr_published r @ [m] = left' @ waiting q' topic \<and> subseq (qr_delivered r) left'"
  proof (cases "?full \<and> ?w \<noteq> []")
    case True
    then have "qr_published r @ [m] = (left @ [hd ?w]) @ waiting q' topic"
      using left(1) w'(1) by (cases ?w) auto
    moreover have "subseq (qr_delivered r) (left @ [hd ?w])" using left(2) by (rule subseq_rev_drop_many)
    ultimately show ?thesis by blast
  next
    case False
    then have "qr_published r @ [m] = left @ waiting q' topic" using left(1) w'(1) by (cases ?w) auto
    with left(2) show ?thesis by blast
  qed
  moreover have "length (waiting q' topic) \<le> max 1 (qc_max_queue_size (dq_config q'))"
    using inv w' by (cases ?w) (auto simp: queue_inv_def)
  ultimately show ?thesis using inv fresh publish_id [OF pub] by (simp add: queue_inv_def)
qed

lemma queue_inv_consume:
  assumes inv: "queue_inv topic r" and con: "consume now utc topic bs (qr_queue r) = (ms, q')"
  shows "queue_inv topic (r\<lparr>qr_queue := q', qr_delivered := qr_delivered r @ ms\<rparr>)"
proof -
  from inv obtain left where left: "qr_published r = left @ waiting (qr_queue r) topic"
    "subseq (qr_delivered r) left" by (auto simp: queue_inv_def)
  from consume_spec(1) [OF con] obtain gone rest where
    w: "waiting (qr_queue r) topic = gone @ rest" "waiting q' topic = rest"
    and ms: "ms = filter (\<lambda>m. \<not> msg_expired utc m) gone" by blast
  have "subseq (qr_delivered r @ ms) (left @ gone)"
    using left(2) ms by (simp add: list_emb_append_mono subseq_filter_left)
  then show ?thesis using inv left(1) w consume_spec(3) [OF con] by (auto simp: queue_inv_def)
qed

lemma queue_inv_step: "queue_inv topic r \<Longrightarrow> queue_step topic r r' \<Longrightarrow> queue_inv topic r'"
proof (erule queue_step.cases)
  fix i utc payload r1 m q'
  assume "queue_inv topic r" "r = r1" "r' = r1\<lparr>qr_queue := q', qr_published := qr_published r1 @ [m]\<rparr>"
    "publish i utc topic payload (qr_queue r1) = (m, q')" "i \<notin> qm_id ` set (qr_published r1)"
  then show "queue_inv topic r'" using queue_inv_publish by simp
next
  fix i utc topic' payload r1 m q'
  assume "queue_inv topic r" "r = r1" "r' = r1\<lparr>qr_queue := q'\<rparr>"
    "publish i utc topic' payload (qr_queue r1) = (m, q')" "topic' \<noteq> topic"
  then show "queue_inv topic r'"
    using publish_simps(1,3) [of i utc topic' payload "qr_queue r1"] by (simp add: queue_inv_def)
next
  fix now utc bs r1 ms q'
  assume "queue_inv topic r" "r = r1" "r' = r1\<lparr>qr_queue := q', qr_delivered := qr_delivered r1 @ ms\<rparr>"
    "consume now utc topic bs (qr_queue r1) = (ms, q')"
  then show "queue_inv topic r'" using queue_inv_consume by simp
next
  fix now utc topic' bs r1 ms q'
  assume "queue_inv topic r" "r = r1" "r' = r1\<lparr>qr_queue := q'\<rparr>"
    "consume now utc topic' bs (qr_queue r1) = (ms, q')" "topic' \<noteq> topic"
  then show "queue_inv topic r'"
    using consume_spec(2) [of now utc topic' bs "qr_queue r1" ms q' topic]
      consume_spec(3) [of now utc topic' bs "qr_queue r1" ms q'] by (simp add: queue_inv_def)
next
  fix topic' i r1 found q'
  assume "queue_inv topic r" "r = r1" "r' = r1\<lparr>qr_queue := q'\<rparr>" "ack topic' i (qr_queue r1) = (found, q')"
  then show "queue_inv topic r'"
    using ack_spec(1,4) [of topic' i "qr_queue r1" found q'] by (simp add: queue_inv_def)
qed

lemma queue_inv_init: "queue_init r \<Longrightarrow> queue_inv topic r"
  by (auto simp: queue_init_def queue_inv_def queue_new_def waiting_def partition_of_def empty_partition_def)

interpretation queue_machine: machine queue_init "queue_step topic" "queue_inv topic" for topic
  by unfold_locales (auto intro: queue_inv_init queue_inv_step)

section \<open>Properties\<close>

lemma subseq_distinct: "subseq xs ys \<Longrightarrow> distinct ys \<Longrightarrow> distinct xs"
  by (auto simp: subseq_conv_nths)


text \<open>C10: on every topic the messages are delivered in the order they were published, each at most
  once, and a partition never holds more than \<open>max_queue_size\<close> messages (one, when that is 0).\<close>

theorem queue_fifo_at_most_once:
  assumes "reaches queue_init (queue_step topic) r"
  shows "subseq (qr_delivered r) (qr_published r) \<and> distinct (map qm_id (qr_delivered r))
    \<and> depth topic (qr_queue r) \<le> max 1 (qc_max_queue_size (dq_config (qr_queue r)))"
proof -
  have inv: "queue_inv topic r" by (rule queue_machine.reaches_inv [OF assms])
  then obtain left where left: "qr_published r = left @ waiting (qr_queue r) topic"
    "subseq (qr_delivered r) left" by (auto simp: queue_inv_def)
  then have sub: "subseq (qr_delivered r) (qr_published r)" by (simp add: subseq_rev_drop_many)
  moreover have "subseq (map qm_id (qr_delivered r)) (map qm_id (qr_published r))"
    using sub by (rule subseq_map)
  ultimately show ?thesis using inv
    by (auto simp: queue_inv_def depth_waiting dest: subseq_distinct)
qed

definition sample_run :: queue_run where
  "sample_run = (let (m, q) = publish ''1'' 0 ''t'' ''x'' (queue_new queue_config_default)
     in \<lparr>qr_queue = q, qr_published = [m], qr_delivered = []\<rparr>)"

theorem queue_fifo_at_most_once_witness:
  "depth ''t'' (qr_queue sample_run) \<le> max 1 (qc_max_queue_size (dq_config (qr_queue sample_run)))"
proof -
  let ?r = "\<lparr>qr_queue = queue_new queue_config_default, qr_published = [], qr_delivered = []\<rparr>"
  have "queue_step ''t'' ?r sample_run"
    using queue_publish [of "''1''" 0 "''t''" "''x''" ?r]
    by (simp add: sample_run_def split: prod.split)
  then have "reaches queue_init (queue_step ''t'') sample_run"
    by (rule reaches_step [OF reaches_init, rotated]) (auto simp: queue_init_def)
  from queue_fifo_at_most_once [OF this] show ?thesis by simp
qed

text \<open>A consumption takes a prefix of the waiting messages, returns those of it that have not
  expired, no more than the batch size and fewer only when the topic is exhausted, and marks
  exactly these as unacknowledged; other topics are not touched.\<close>

theorem consume_takes_prefix:
  assumes "consume now utc topic (Some n) q = (taken, q')"
  shows "\<exists>gone. waiting q topic = gone @ waiting q' topic
      \<and> taken = filter (\<lambda>m. \<not> msg_expired utc m) gone \<and> length taken \<le> n
      \<and> (length taken < n \<longrightarrow> waiting q' topic = [])
      \<and> in_flight q' topic = in_flight q topic \<union> qm_id ` set taken
      \<and> (\<forall>t. t \<noteq> topic \<longrightarrow> waiting q' t = waiting q t \<and> in_flight q' t = in_flight q t)"
proof -
  from consume_spec(1) [OF assms] obtain gone where "waiting q topic = gone @ waiting q' topic"
    "taken = filter (\<lambda>m. \<not> msg_expired utc m) gone" "in_flight q' topic = in_flight q topic \<union> qm_id ` set taken"
    "length taken \<le> n" "waiting q' topic = [] \<or> length taken = n" by auto
  with consume_spec(2) [OF assms] show ?thesis by (intro exI [of _ gone]) auto
qed

theorem consume_takes_prefix_witness:
  "\<exists>gone. waiting (qr_queue sample_run) ''t'' = gone @ waiting (snd (consume 0 9 ''t'' (Some 5) (qr_queue sample_run))) ''t''
    \<and> length (fst (consume 0 9 ''t'' (Some 5) (qr_queue sample_run))) \<le> 5"
  using consume_takes_prefix [of 0 9 "''t''" 5 "qr_queue sample_run"] by (metis prod.collapse)

text \<open>A consumed message that is never acknowledged is not delivered again: consuming changes
  the waiting messages for good, and no operation puts an unacknowledged message back.\<close>

theorem unacked_not_redelivered:
  assumes "reaches queue_init (queue_step topic) r" "m \<in> set (qr_delivered r)"
  shows "m \<notin> set (waiting (qr_queue r) topic)"
proof -
  have inv: "queue_inv topic r" by (rule queue_machine.reaches_inv [OF assms(1)])
  then obtain left where left: "qr_published r = left @ waiting (qr_queue r) topic"
    "subseq (qr_delivered r) left" by (auto simp: queue_inv_def)
  with assms(2) have "m \<in> set left" using set_nths_subset by (metis notin_set_nthsI subseq_conv_nths)
  moreover have "distinct (left @ waiting (qr_queue r) topic)"
    using inv left(1) distinct_map by (auto simp: queue_inv_def)
  ultimately show ?thesis by auto
qed

end
