(* ===== verification/Cluster.thy ===== *)
theory Cluster
  imports Core
begin

text \<open>
  Cluster membership and leader election of the crate \<open>distributed\<close> (\<open>cluster.rs\<close>,
  \<open>leader.rs\<close>): the member table with failure detection by heartbeats, and the election engine,
  whose \<open>start_election\<close> releases its lock between raising the term and declaring the leader.
  That gap is a state of the model, so other operations interleave with it.

  Times are Unix seconds. Node identifiers and addresses are strings; a \<open>u64\<close> term is a natural
  number that the code raises by one or sets to a received one.
\<close>

section \<open>Membership\<close>

datatype node_role = Leader | Follower | Candidate

datatype member_status = Alive | Suspect | Dead

record cluster_node =
  cn_id :: string
  cn_addr :: string
  cn_role :: node_role
  cn_status :: member_status
  cn_last_heartbeat :: int
  cn_version :: nat

record cluster_config =
  cl_node_id :: string
  cl_bind_addr :: string
  cl_heartbeat_secs :: nat
  cl_suspicion_mult :: nat

record leader_state =
  ls_leader_id :: string
  ls_leader_addr :: string
  ls_term :: nat
  ls_last_seen :: int

record cluster_state =
  cs_config :: cluster_config
  cs_local_node :: cluster_node
  cs_members :: "(string, cluster_node) hmap"
  cs_leader_state :: "leader_state option"

definition cluster_new :: "int \<Rightarrow> cluster_config \<Rightarrow> cluster_state" where
  "cluster_new now c = \<lparr>cs_config = c,
     cs_local_node = \<lparr>cn_id = cl_node_id c, cn_addr = cl_bind_addr c, cn_role = Follower,
       cn_status = Alive, cn_last_heartbeat = now, cn_version = 0\<rparr>,
     cs_members = [], cs_leader_state = None\<rparr>"

definition live_members :: "cluster_state \<Rightarrow> cluster_node list" where
  "live_members s = filter (\<lambda>n. cn_status n = Alive) (hm_values (cs_members s))"

definition add_member :: "cluster_node \<Rightarrow> cluster_state \<Rightarrow> cluster_state" where
  "add_member n s = s\<lparr>cs_members := hm_insert (cn_id n) n (cs_members s)\<rparr>"

definition remove_member :: "string \<Rightarrow> cluster_state \<Rightarrow> cluster_state" where
  "remove_member i s = s\<lparr>cs_members := hm_remove i (cs_members s)\<rparr>"

definition handle_heartbeat :: "string \<Rightarrow> int \<Rightarrow> cluster_state \<Rightarrow> cluster_state" where
  "handle_heartbeat i timestamp s = s\<lparr>cs_members := hm_modify i
     (\<lambda>n. n\<lparr>cn_last_heartbeat := timestamp, cn_status := Alive\<rparr>) (cs_members s)\<rparr>"

text \<open>\<open>nanos\<close> is the Unix time in nanoseconds, by which a peer is picked.\<close>

definition gossip_peer :: "nat \<Rightarrow> cluster_state \<Rightarrow> cluster_node option" where
  "gossip_peer nanos s =
     (let alive = map fst (filter (\<lambda>(i, n). i \<noteq> cn_id (cs_local_node s) \<and> cn_status n = Alive) (cs_members s))
      in if alive = [] then None
         else hm_get (cs_members s) (alive ! (nanos mod length alive)))"

definition failure_timeout :: "cluster_state \<Rightarrow> int" where
  "failure_timeout s = int (cl_heartbeat_secs (cs_config s)) * int (cl_suspicion_mult (cs_config s))"

text \<open>The body of the loop for one node: its new state, and whether it is reported as failed.\<close>

definition check_node :: "int \<Rightarrow> int \<Rightarrow> cluster_node \<Rightarrow> cluster_node \<times> bool" where
  "check_node now timeout n =
     (let n1 = (if cn_status n = Alive \<and> now - cn_last_heartbeat n > timeout
                then n\<lparr>cn_status := Suspect\<rparr> else n)
      in if cn_status n1 = Suspect \<and> now - cn_last_heartbeat n1 > timeout * 2
         then (n1\<lparr>cn_status := Dead\<rparr>, True) else (n1, False))"

definition detect_failures :: "int \<Rightarrow> cluster_state \<Rightarrow> string list \<times> cluster_state" where
  "detect_failures now s =
     (let t = failure_timeout s
      in (map fst (filter (\<lambda>(_, n). snd (check_node now t n)) (cs_members s)),
          s\<lparr>cs_members := hm_map_values (\<lambda>_ n. fst (check_node now t n)) (cs_members s)\<rparr>))"

text \<open>Joining a cluster: each seed becomes a member under a generated identifier.\<close>

fun join :: "int \<Rightarrow> (nat \<Rightarrow> string) \<Rightarrow> nat \<Rightarrow> string list \<Rightarrow> cluster_state \<Rightarrow> cluster_state" where
  "join now fresh k [] s = s"
| "join now fresh k (seed # seeds) s =
     join now fresh (k + 1) seeds (add_member \<lparr>cn_id = ''peer-'' @ fresh k, cn_addr = seed,
       cn_role = Follower, cn_status = Alive, cn_last_heartbeat = now, cn_version = 0\<rparr> s)"

definition set_leader_state :: "leader_state option \<Rightarrow> cluster_state \<Rightarrow> cluster_state" where
  "set_leader_state l s = s\<lparr>cs_leader_state := l\<rparr>"

section \<open>Leader election\<close>

record election =
  el_current_leader :: "leader_state option"
  el_current_term :: nat
  el_voted_for :: "string option"
  el_votes_received :: "string set"
  el_running :: bool

definition election_new :: election where
  "election_new = \<lparr>el_current_leader = None, el_current_term = 0, el_voted_for = None,
     el_votes_received = {}, el_running = False\<rparr>"

text \<open>One turn of the heartbeat loop: a leader silent for more than five seconds is dropped.\<close>

definition heartbeat_tick :: "int \<Rightarrow> election \<Rightarrow> election" where
  "heartbeat_tick now e =
     (case el_current_leader e of
        None \<Rightarrow> e
      | Some l \<Rightarrow> if now - ls_last_seen l > 5 then e\<lparr>el_current_leader := None\<rparr> else e)"

text \<open>
  The first half of \<open>start_election\<close>, under the lock: \<open>None\<close> when an election is running. The
  second half waits when there are live members with a higher identifier; then, in either case,
  it is \<open>declare_leader\<close> with the local identifier.
\<close>

definition begin_election :: "string \<Rightarrow> election \<Rightarrow> election option" where
  "begin_election local_id e =
     (if el_running e then None
      else Some (e\<lparr>el_running := True, el_current_term := el_current_term e + 1,
                  el_voted_for := Some local_id\<rparr>))"

fun string_less :: "string \<Rightarrow> string \<Rightarrow> bool" where
  "string_less [] [] = False"
| "string_less [] (y # ys) = True"
| "string_less (x # xs) [] = False"
| "string_less (x # xs) (y # ys) =
     (of_char x < (of_char y :: nat) \<or> x = y \<and> string_less xs ys)"

definition higher_nodes :: "cluster_state \<Rightarrow> string list" where
  "higher_nodes s = map cn_id (filter (\<lambda>n. string_less (cn_id (cs_local_node s)) (cn_id n)
     \<and> cn_status n = Alive) (live_members s))"

definition election_wait_ms :: "cluster_state \<Rightarrow> nat" where
  "election_wait_ms s = (if higher_nodes s = [] then 0 else 100)"

definition declare_leader :: "int \<Rightarrow> string \<Rightarrow> election \<times> cluster_state \<Rightarrow> election \<times> cluster_state" where
  "declare_leader now node_id es =
     (let (e, s) = es;
          l = \<lparr>ls_leader_id = node_id, ls_leader_addr = cn_addr (cs_local_node s),
               ls_term = el_current_term e, ls_last_seen = now\<rparr>
      in (e\<lparr>el_current_leader := Some l, el_running := False\<rparr>, set_leader_state (Some l) s))"

definition receive_heartbeat ::
  "int \<Rightarrow> string \<Rightarrow> string \<Rightarrow> nat \<Rightarrow> election \<times> cluster_state \<Rightarrow> election \<times> cluster_state" where
  "receive_heartbeat now leader_id leader_addr term es =
     (let (e, s) = es
      in if term < el_current_term e then (e, s)
         else (let l = \<lparr>ls_leader_id = leader_id, ls_leader_addr = leader_addr, ls_term = term,
                        ls_last_seen = now\<rparr>
               in (e\<lparr>el_current_term := (if term > el_current_term e then term else el_current_term e),
                     el_current_leader := Some l, el_running := False\<rparr>,
                   set_leader_state (Some l) s)))"

text \<open>
  A node: the election state, the cluster state, and the elections that were begun and have yet
  to declare their leader.
\<close>

record election_node =
  en_election :: election
  en_cluster :: cluster_state
  en_pending :: nat

abbreviation local_id :: "election_node \<Rightarrow> string" where
  "local_id n \<equiv> cn_id (cs_local_node (en_cluster n))"

definition node_begin :: "election_node \<Rightarrow> election_node" where
  "node_begin n = (case begin_election (local_id n) (en_election n) of
     None \<Rightarrow> n | Some e \<Rightarrow> n\<lparr>en_election := e, en_pending := en_pending n + 1\<rparr>)"

definition node_declare :: "int \<Rightarrow> election_node \<Rightarrow> election_node" where
  "node_declare now n = (let (e, s) = declare_leader now (local_id n) (en_election n, en_cluster n)
     in n\<lparr>en_election := e, en_cluster := s, en_pending := en_pending n - 1\<rparr>)"

definition node_receive :: "int \<Rightarrow> string \<Rightarrow> string \<Rightarrow> nat \<Rightarrow> election_node \<Rightarrow> election_node" where
  "node_receive now i addr term n =
     (let (e, s) = receive_heartbeat now i addr term (en_election n, en_cluster n)
      in n\<lparr>en_election := e, en_cluster := s\<rparr>)"

definition node_tick :: "int \<Rightarrow> election_node \<Rightarrow> election_node" where
  "node_tick now n = n\<lparr>en_election := heartbeat_tick now (en_election n)\<rparr>"

inductive election_step :: "election_node \<Rightarrow> election_node \<Rightarrow> bool" where
  el_begin: "election_step n (node_begin n)"
| el_declare: "0 < en_pending n \<Longrightarrow> election_step n (node_declare now n)"
| el_receive: "election_step n (node_receive now i addr term n)"
| el_tick: "election_step n (node_tick now n)"
| el_add: "election_step n (n\<lparr>en_cluster := add_member m (en_cluster n)\<rparr>)"
| el_remove: "election_step n (n\<lparr>en_cluster := remove_member i (en_cluster n)\<rparr>)"
| el_heartbeat: "election_step n (n\<lparr>en_cluster := handle_heartbeat i t (en_cluster n)\<rparr>)"
| el_detect: "election_step n (n\<lparr>en_cluster := snd (detect_failures t (en_cluster n))\<rparr>)"

definition node_init :: "election_node \<Rightarrow> bool" where
  "node_init n \<longleftrightarrow> (\<exists>now c. n = \<lparr>en_election = election_new, en_cluster = cluster_new now c, en_pending = 0\<rparr>)"

section \<open>Facts about the steps\<close>

lemmas cluster_defs = add_member_def remove_member_def handle_heartbeat_def detect_failures_def
  set_leader_state_def

lemmas election_defs = node_begin_def begin_election_def node_declare_def declare_leader_def
  node_receive_def receive_heartbeat_def node_tick_def heartbeat_tick_def

text \<open>
  The invariant: the leader the election knows and the one it told the cluster have terms up to
  the current one; an election that runs has a declaration pending; and a node votes for itself.
\<close>

definition election_inv :: "election_node \<Rightarrow> bool" where
  "election_inv n \<longleftrightarrow>
     (\<forall>l. el_current_leader (en_election n) = Some l \<longrightarrow> ls_term l \<le> el_current_term (en_election n)
        \<and> cs_leader_state (en_cluster n) = Some l)
     \<and> (\<forall>l. cs_leader_state (en_cluster n) = Some l \<longrightarrow> ls_term l \<le> el_current_term (en_election n))
     \<and> (el_running (en_election n) \<longrightarrow> 0 < en_pending n)
     \<and> (\<forall>v. el_voted_for (en_election n) = Some v \<longrightarrow> v = local_id n)
     \<and> hm_ok (cs_members (en_cluster n)) \<and> (\<forall>i m. hm_get (cs_members (en_cluster n)) i = Some m \<longrightarrow> cn_id m = i)"

lemma election_inv_init: "node_init n \<Longrightarrow> election_inv n"
  by (auto simp: node_init_def election_inv_def election_new_def cluster_new_def)

lemma election_step_local: "election_step n n' \<Longrightarrow> cs_local_node (en_cluster n') = cs_local_node (en_cluster n)"
  by (auto elim!: election_step.cases simp: cluster_defs election_defs Let_def split: option.splits prod.splits)

lemma election_step_term: "election_step n n' \<Longrightarrow> el_current_term (en_election n) \<le> el_current_term (en_election n')"
  by (auto elim!: election_step.cases simp: cluster_defs election_defs Let_def split: option.splits prod.splits)

lemma check_node_id: "cn_id (fst (check_node now t n)) = cn_id n"
  by (simp add: check_node_def Let_def)

lemma election_inv_step:
  assumes inv: "election_inv n" and step: "election_step n n'"
  shows "election_inv n'"
  using step
proof cases
  case el_begin
  then show ?thesis using inv
    by (auto simp: election_inv_def node_begin_def begin_election_def le_SucI)
next
  case el_declare
  then show ?thesis using inv
    by (auto simp: election_inv_def node_declare_def declare_leader_def set_leader_state_def Let_def)
next
  case el_receive
  then show ?thesis using inv
    by (auto simp: election_inv_def node_receive_def receive_heartbeat_def set_leader_state_def Let_def
        split: if_splits)
next
  case el_tick
  then show ?thesis using inv
    by (auto simp: election_inv_def node_tick_def heartbeat_tick_def split: option.splits if_splits)
next
  case el_add
  then show ?thesis using inv by (auto simp: election_inv_def add_member_def)
next
  case el_remove
  then show ?thesis using inv by (auto simp: election_inv_def remove_member_def)
next
  case el_heartbeat
  then show ?thesis using inv by (auto simp: election_inv_def handle_heartbeat_def)
next
  case el_detect
  then show ?thesis using inv
    by (auto simp: election_inv_def detect_failures_def check_node_id Let_def)
qed

interpretation election_machine: machine node_init election_step election_inv
  by unfold_locales (auto intro: election_inv_init election_inv_step)

lemma election_steps_term:
  "election_step\<^sup>*\<^sup>* n n' \<Longrightarrow> el_current_term (en_election n) \<le> el_current_term (en_election n')"
  by (induction rule: rtranclp_induct) (auto dest: election_step_term)

section \<open>Properties of membership\<close>

text \<open>Failure detection reports exactly the members that are not yet dead and have been silent
  for more than twice the timeout, marks them dead, marks those silent for more than the timeout
  as suspect, and changes nothing else; a second detection without a heartbeat between reports
  none of them again.\<close>

theorem detect_failures_exact:
  assumes "hm_ok (cs_members s)" "detect_failures now s = (failed, s')"
  shows "(i \<in> set failed \<longleftrightarrow> (\<exists>n. hm_get (cs_members s) i = Some n \<and> cn_status n \<noteq> Dead
        \<and> now - cn_last_heartbeat n > 2 * failure_timeout s))
    \<and> hm_get (cs_members s') i = map_option (\<lambda>n. n\<lparr>cn_status :=
        (if cn_status n = Dead \<or> now - cn_last_heartbeat n > 2 * failure_timeout s then Dead
         else if now - cn_last_heartbeat n > failure_timeout s then Suspect else cn_status n)\<rparr>)
        (hm_get (cs_members s) i)
    \<and> fst (detect_failures now s') = []"
proof -
  let ?t = "failure_timeout s"
  have t0: "0 \<le> ?t" by (simp add: failure_timeout_def)
  from assms(2) have failed: "failed = map fst (filter (\<lambda>(_, n). snd (check_node now ?t n)) (cs_members s))"
    and s': "s' = s\<lparr>cs_members := hm_map_values (\<lambda>_ n. fst (check_node now ?t n)) (cs_members s)\<rparr>"
    by (simp_all add: detect_failures_def Let_def)
  have reported: "snd (check_node now ?t n) \<longleftrightarrow> cn_status n \<noteq> Dead \<and> now - cn_last_heartbeat n > 2 * ?t" for n
    using t0 by (cases "cn_status n") (auto simp: check_node_def Let_def)
  have status: "fst (check_node now ?t n) = n\<lparr>cn_status :=
      (if cn_status n = Dead \<or> now - cn_last_heartbeat n > 2 * ?t then Dead
       else if now - cn_last_heartbeat n > ?t then Suspect else cn_status n)\<rparr>" for n
    using t0 by (cases "cn_status n") (auto simp: check_node_def Let_def)
  have again: "\<not> snd (check_node now ?t (fst (check_node now ?t n)))" for n
    unfolding reported status by simp
  have "i \<in> set failed \<longleftrightarrow> (\<exists>n. hm_get (cs_members s) i = Some n \<and> snd (check_node now ?t n))"
    unfolding failed by (force simp flip: hm_ok_mem [OF assms(1)])
  moreover have "fst (detect_failures now s') = []"
    by (auto simp: detect_failures_def s' failure_timeout_def hm_map_values_def again [unfolded failure_timeout_def]
        filter_empty_conv Let_def)
  ultimately show ?thesis by (simp add: reported s' status cong: map_option_cong)
qed

definition sample_cluster :: cluster_state where
  "sample_cluster = add_member \<lparr>cn_id = ''z'', cn_addr = ''b:1'', cn_role = Follower, cn_status = Alive,
     cn_last_heartbeat = 0, cn_version = 0\<rparr>
     (cluster_new 0 \<lparr>cl_node_id = ''m'', cl_bind_addr = ''a:1'', cl_heartbeat_secs = 1, cl_suspicion_mult = 3\<rparr>)"

theorem detect_failures_exact_witness:
  "''z'' \<in> set (fst (detect_failures 10 sample_cluster))"
proof -
  have "hm_ok (cs_members sample_cluster)" by (simp add: sample_cluster_def cluster_new_def add_member_def)
  from detect_failures_exact [OF this surjective_pairing, of "''z''" 10] show ?thesis
    by (simp add: sample_cluster_def cluster_new_def add_member_def failure_timeout_def)
qed

text \<open>Gossip picks a live member other than the local node whenever there is one, and no one
  otherwise.\<close>

theorem gossip_peer_live:
  assumes "hm_ok (cs_members s)"
  shows "case gossip_peer nanos s of
      None \<Rightarrow> \<forall>i n. hm_get (cs_members s) i = Some n \<longrightarrow> cn_status n = Alive \<longrightarrow> i = cn_id (cs_local_node s)
    | Some n \<Rightarrow> \<exists>i. hm_get (cs_members s) i = Some n \<and> cn_status n = Alive \<and> i \<noteq> cn_id (cs_local_node s)"
proof -
  let ?alive = "map fst (filter (\<lambda>(i, n). i \<noteq> cn_id (cs_local_node s) \<and> cn_status n = Alive) (cs_members s))"
  have alive: "i \<in> set ?alive \<longleftrightarrow> (\<exists>n. hm_get (cs_members s) i = Some n \<and> cn_status n = Alive)
      \<and> i \<noteq> cn_id (cs_local_node s)" for i
    by (force simp flip: hm_ok_mem [OF assms])
  show ?thesis
  proof (cases "?alive = []")
    case True
    then have "gossip_peer nanos s = None" unfolding gossip_peer_def Let_def by (rule if_P)
    moreover have "\<forall>i n. hm_get (cs_members s) i = Some n \<longrightarrow> cn_status n = Alive \<longrightarrow> i = cn_id (cs_local_node s)"
      using alive unfolding True by auto
    ultimately show ?thesis by simp
  next
    case False
    let ?i = "?alive ! (nanos mod length ?alive)"
    have "nanos mod length ?alive < length ?alive" using False by (simp only: mod_less_divisor length_greater_0_conv not_False_eq_True simp_thms)
    then have "?i \<in> set ?alive" by (rule nth_mem)
    with alive obtain n where n: "hm_get (cs_members s) ?i = Some n" "cn_status n = Alive"
      "?i \<noteq> cn_id (cs_local_node s)" by blast
    have "gossip_peer nanos s = Some n"
      using n(1) False unfolding gossip_peer_def Let_def by (simp only: if_False)
    then show ?thesis using n by auto
  qed
qed

theorem gossip_peer_live_witness:
  "gossip_peer 5 sample_cluster \<noteq> None"
proof -
  have "hm_ok (cs_members sample_cluster)" by (simp add: sample_cluster_def cluster_new_def add_member_def)
  from gossip_peer_live [OF this, of 5] show ?thesis
    by (auto simp: sample_cluster_def cluster_new_def add_member_def split: option.splits if_splits
        dest: spec [of _ "''z''"])
qed

section \<open>Properties of the election\<close>


definition sample_node :: election_node where
  "sample_node = \<lparr>en_election = election_new,
     en_cluster = cluster_new 0 \<lparr>cl_node_id = ''m'', cl_bind_addr = ''a:1'', cl_heartbeat_secs = 1, cl_suspicion_mult = 3\<rparr>,
     en_pending = 0\<rparr>"


text \<open>An election ends with the local node as leader of the new term whatever the members are:
  live members with a higher identifier delay the declaration and nothing else.\<close>

theorem election_ignores_higher_nodes:
  assumes "\<not> el_running (en_election n)"
  shows "let n' = node_declare now (node_begin n) in
      el_current_leader (en_election n') = Some \<lparr>ls_leader_id = local_id n,
        ls_leader_addr = cn_addr (cs_local_node (en_cluster n)),
        ls_term = el_current_term (en_election n) + 1, ls_last_seen = now\<rparr>
    \<and> (\<forall>members. node_declare now (node_begin (n\<lparr>en_cluster := (en_cluster n)\<lparr>cs_members := members\<rparr>\<rparr>)) =
        n'\<lparr>en_cluster := (en_cluster n')\<lparr>cs_members := members\<rparr>\<rparr>)"
  using assms by (simp add: election_defs set_leader_state_def Let_def)

theorem election_ignores_higher_nodes_witness:
  "higher_nodes sample_cluster = [''z'']
    \<and> map_option ls_leader_id (el_current_leader (en_election (node_declare 9 (node_begin
        (sample_node\<lparr>en_cluster := sample_cluster\<rparr>))))) = Some ''m''"
proof
  show "higher_nodes sample_cluster = [''z'']"
    by (simp add: sample_cluster_def cluster_new_def higher_nodes_def live_members_def add_member_def)
  have "\<not> el_running (en_election (sample_node\<lparr>en_cluster := sample_cluster\<rparr>))"
    by (simp add: sample_node_def election_new_def)
  from conjunct1 [OF election_ignores_higher_nodes [OF this, of 9, unfolded Let_def]]
  show "map_option ls_leader_id (el_current_leader (en_election (node_declare 9 (node_begin
      (sample_node\<lparr>en_cluster := sample_cluster\<rparr>))))) = Some ''m''"
    by (simp add: sample_cluster_def cluster_new_def add_member_def)
qed

text \<open>A declaration that was delayed takes over the term of a leader heard from meanwhile: the
  node declares itself leader of that leader's term.\<close>

theorem late_declaration_steals_term:
  assumes "\<not> el_running (en_election n)" "el_current_term (en_election n) + 1 \<le> term"
  shows "let heard = node_receive t i addr term (node_begin n); n' = node_declare now heard in
      el_current_leader (en_election heard) = Some \<lparr>ls_leader_id = i, ls_leader_addr = addr,
        ls_term = term, ls_last_seen = t\<rparr>
    \<and> el_current_leader (en_election n') = Some \<lparr>ls_leader_id = local_id n,
        ls_leader_addr = cn_addr (cs_local_node (en_cluster n)), ls_term = term, ls_last_seen = now\<rparr>"
  using assms by (auto simp: election_defs set_leader_state_def Let_def)

theorem late_declaration_steals_term_witness:
  "let heard = node_receive 1 ''z'' ''b:1'' 7 (node_begin sample_node); n' = node_declare 2 heard in
      map_option ls_leader_id (el_current_leader (en_election heard)) = Some ''z''
    \<and> map_option ls_leader_id (el_current_leader (en_election n')) = Some ''m''
    \<and> map_option ls_term (el_current_leader (en_election n')) = Some 7"
  using late_declaration_steals_term [of sample_node 7 1 "''z''" "''b:1''" 2]
  by (simp add: Let_def sample_node_def election_new_def cluster_new_def)

end
