(* ===== verification/Tenant.thy ===== *)
theory Tenant
  imports Core
begin

text \<open>
  Multi-tenancy (crate \<open>tenant\<close>): organisations, projects and users of \<open>models.rs\<close> and the
  in-memory \<open>TenantManager\<close> of \<open>manager.rs\<close>.

  The three tables have a lock each. \<open>create_project\<close> and \<open>invite_user\<close> check the organisation
  under one lock and insert under another; the check and the insertion are operations of their
  own here, and the sequential operation composes them. Generated identifiers and the clock are
  arguments.
\<close>

section \<open>Models\<close>

datatype org_status = OrgActive | OrgSuspended | OrgDisabled

record org_settings =
  os_max_projects :: nat
  os_max_users :: nat
  os_max_agents :: nat
  os_allowed_llm_providers :: "string list"
  os_enable_audit_log :: bool
  os_retention_days :: nat

definition org_settings_default :: org_settings where
  "org_settings_default = \<lparr>os_max_projects = 50, os_max_users = 500, os_max_agents = 100,
     os_allowed_llm_providers = [''openai'', ''anthropic''], os_enable_audit_log = True,
     os_retention_days = 90\<rparr>"

record organization =
  org_id :: string
  org_name :: string
  org_slug :: string
  org_description :: string
  org_owner_id :: string
  org_created_at :: int
  org_updated_at :: int
  org_stat :: org_status
  org_settings :: org_settings

definition organization_new :: "string \<Rightarrow> int \<Rightarrow> string \<Rightarrow> string \<Rightarrow> string \<Rightarrow> string \<Rightarrow> organization" where
  "organization_new fresh now name slug owner_id description = \<lparr>org_id = ''org-'' @ fresh,
     org_name = name, org_slug = slug, org_description = description, org_owner_id = owner_id,
     org_created_at = now, org_updated_at = now, org_stat = OrgActive,
     org_settings = org_settings_default\<rparr>"

datatype project_status = ProjActive | ProjArchived | ProjFrozen

record project_settings =
  ps_max_agents :: nat
  ps_max_sessions :: nat
  ps_token_quota_per_day :: nat
  ps_enable_federation :: bool
  ps_enable_plugins :: bool

definition project_settings_default :: project_settings where
  "project_settings_default = \<lparr>ps_max_agents = 20, ps_max_sessions = 100,
     ps_token_quota_per_day = 1000000, ps_enable_federation = True, ps_enable_plugins = True\<rparr>"

record project =
  proj_id :: string
  proj_org_id :: string
  proj_name :: string
  proj_description :: string
  proj_created_at :: int
  proj_updated_at :: int
  proj_status :: project_status
  proj_settings :: project_settings

definition project_new :: "string \<Rightarrow> int \<Rightarrow> string \<Rightarrow> string \<Rightarrow> string \<Rightarrow> project" where
  "project_new fresh now oid name description = \<lparr>proj_id = ''proj-'' @ fresh, proj_org_id = oid,
     proj_name = name, proj_description = description, proj_created_at = now, proj_updated_at = now,
     proj_status = ProjActive, proj_settings = project_settings_default\<rparr>"

datatype tenant_role = Owner | Admin | Member | Viewer

definition role_permissions :: "tenant_role \<Rightarrow> string list" where
  "role_permissions r = (case r of
     Owner \<Rightarrow> [''*'']
   | Admin \<Rightarrow> [''ls.tenant.org.read'', ''ls.tenant.org.write'', ''ls.tenant.project.read'',
       ''ls.tenant.project.write'', ''ls.tenant.user.read'', ''ls.tenant.user.write'',
       ''ls.agent.run'', ''ls.agent.read'']
   | Member \<Rightarrow> [''ls.tenant.project.read'', ''ls.agent.run'', ''ls.agent.read'']
   | Viewer \<Rightarrow> [''ls.agent.read''])"

datatype user_status = UserActive | UserInvited | UserDisabled

record tenant_user =
  usr_id :: string
  usr_org_id :: string
  usr_project_ids :: "string list"
  usr_email :: string
  usr_display_name :: string
  usr_role :: tenant_role
  usr_created_at :: int
  usr_updated_at :: int
  usr_status :: user_status

definition tenant_user_new :: "string \<Rightarrow> int \<Rightarrow> string \<Rightarrow> string \<Rightarrow> string \<Rightarrow> tenant_role \<Rightarrow> tenant_user" where
  "tenant_user_new fresh now oid email display_name role = \<lparr>usr_id = ''user-'' @ fresh,
     usr_org_id = oid, usr_project_ids = [], usr_email = email, usr_display_name = display_name,
     usr_role = role, usr_created_at = now, usr_updated_at = now, usr_status = UserActive\<rparr>"

section \<open>The manager\<close>

record tenant_manager =
  tm_orgs :: "(string, organization) hmap"
  tm_projects :: "(string, project) hmap"
  tm_users :: "(string, tenant_user) hmap"

definition tenant_new :: tenant_manager where
  "tenant_new = \<lparr>tm_orgs = [], tm_projects = [], tm_users = []\<rparr>"

definition org_missing :: "string \<Rightarrow> ls_error" where
  "org_missing i = NotFound (''organization '' @ i)"

definition project_missing :: "string \<Rightarrow> ls_error" where
  "project_missing i = NotFound (''project '' @ i)"

definition user_missing :: "string \<Rightarrow> ls_error" where
  "user_missing i = NotFound (''user '' @ i)"

definition create_organization ::
  "string \<Rightarrow> int \<Rightarrow> string \<Rightarrow> string \<Rightarrow> string \<Rightarrow> tenant_manager \<Rightarrow> organization ls_result \<times> tenant_manager" where
  "create_organization fresh now name slug owner_id m =
     (if list_ex (\<lambda>o'. org_slug o' = slug) (hm_values (tm_orgs m))
      then (Inl (AlreadyExists (''org slug '' @ [CHR 0x27] @ slug @ [CHR 0x27] @ '' already exists'')), m)
      else (let o' = organization_new fresh now name slug owner_id []
            in (Inr o', m\<lparr>tm_orgs := hm_insert (org_id o') o' (tm_orgs m)\<rparr>)))"

definition get_organization :: "string \<Rightarrow> tenant_manager \<Rightarrow> organization ls_result" where
  "get_organization i m = ok_or (org_missing i) (hm_get (tm_orgs m) i)"

definition list_organizations :: "tenant_manager \<Rightarrow> organization list ls_result" where
  "list_organizations m = Inr (sort_key org_created_at (hm_values (tm_orgs m)))"

text \<open>\<open>get_mut\<close> with a change of the entry, or the error that it is missing.\<close>

definition change :: "ls_error \<Rightarrow> string \<Rightarrow> ('v \<Rightarrow> 'v) \<Rightarrow> (string, 'v) hmap \<Rightarrow> 'v ls_result \<times> (string, 'v) hmap" where
  "change err i f t = (case hm_get t i of None \<Rightarrow> (Inl err, t) | Some v \<Rightarrow> (Inr (f v), hm_modify i f t))"

definition update_organization ::
  "int \<Rightarrow> string \<Rightarrow> string \<Rightarrow> string \<Rightarrow> tenant_manager \<Rightarrow> organization ls_result \<times> tenant_manager" where
  "update_organization now i name description m =
     (let (r, t) = change (org_missing i) i
        (\<lambda>v. v\<lparr>org_name := name, org_description := description, org_updated_at := now\<rparr>) (tm_orgs m)
      in (r, m\<lparr>tm_orgs := t\<rparr>))"

definition delete_organization :: "string \<Rightarrow> tenant_manager \<Rightarrow> bool ls_result \<times> tenant_manager" where
  "delete_organization i m =
     (if hm_get (tm_orgs m) i = None then (Inl (org_missing i), m)
      else (Inr True, \<lparr>tm_orgs = hm_remove i (tm_orgs m),
              tm_projects = hm_retain (\<lambda>_ p. proj_org_id p \<noteq> i) (tm_projects m),
              tm_users = hm_retain (\<lambda>_ u. usr_org_id u \<noteq> i) (tm_users m)\<rparr>))"

definition suspend_organization :: "int \<Rightarrow> string \<Rightarrow> tenant_manager \<Rightarrow> organization ls_result \<times> tenant_manager" where
  "suspend_organization now i m =
     (let (r, t) = change (org_missing i) i (\<lambda>v. v\<lparr>org_stat := OrgSuspended, org_updated_at := now\<rparr>) (tm_orgs m)
      in (r, m\<lparr>tm_orgs := t\<rparr>))"

definition insert_project ::
  "string \<Rightarrow> int \<Rightarrow> string \<Rightarrow> string \<Rightarrow> string \<Rightarrow> tenant_manager \<Rightarrow> project ls_result \<times> tenant_manager" where
  "insert_project fresh now oid name description m =
     (let p = project_new fresh now oid name description
      in (Inr p, m\<lparr>tm_projects := hm_insert (proj_id p) p (tm_projects m)\<rparr>))"

definition create_project ::
  "string \<Rightarrow> int \<Rightarrow> string \<Rightarrow> string \<Rightarrow> string \<Rightarrow> tenant_manager \<Rightarrow> project ls_result \<times> tenant_manager" where
  "create_project fresh now oid name description m =
     (case get_organization oid m of Inl e \<Rightarrow> (Inl e, m)
      | Inr _ \<Rightarrow> insert_project fresh now oid name description m)"

definition get_project :: "string \<Rightarrow> tenant_manager \<Rightarrow> project ls_result" where
  "get_project i m = ok_or (project_missing i) (hm_get (tm_projects m) i)"

definition list_projects :: "string \<Rightarrow> tenant_manager \<Rightarrow> project list ls_result" where
  "list_projects oid m = (case get_organization oid m of Inl e \<Rightarrow> Inl e
     | Inr _ \<Rightarrow> Inr (sort_key proj_created_at (filter (\<lambda>p. proj_org_id p = oid) (hm_values (tm_projects m)))))"

definition update_project ::
  "int \<Rightarrow> string \<Rightarrow> string \<Rightarrow> string \<Rightarrow> tenant_manager \<Rightarrow> project ls_result \<times> tenant_manager" where
  "update_project now i name description m =
     (let (r, t) = change (project_missing i) i
        (\<lambda>v. v\<lparr>proj_name := name, proj_description := description, proj_updated_at := now\<rparr>) (tm_projects m)
      in (r, m\<lparr>tm_projects := t\<rparr>))"

definition archive_project :: "int \<Rightarrow> string \<Rightarrow> tenant_manager \<Rightarrow> project ls_result \<times> tenant_manager" where
  "archive_project now i m =
     (let (r, t) = change (project_missing i) i (\<lambda>v. v\<lparr>proj_status := ProjArchived, proj_updated_at := now\<rparr>)
        (tm_projects m)
      in (r, m\<lparr>tm_projects := t\<rparr>))"

definition delete_project :: "string \<Rightarrow> tenant_manager \<Rightarrow> bool ls_result \<times> tenant_manager" where
  "delete_project i m =
     (if hm_get (tm_projects m) i = None then (Inl (project_missing i), m)
      else (Inr True, m\<lparr>tm_projects := hm_remove i (tm_projects m)\<rparr>))"

definition insert_user ::
  "string \<Rightarrow> int \<Rightarrow> string \<Rightarrow> string \<Rightarrow> tenant_role \<Rightarrow> tenant_manager \<Rightarrow> tenant_user ls_result \<times> tenant_manager" where
  "insert_user fresh now oid email role m =
     (if list_ex (\<lambda>u. usr_email u = email \<and> usr_org_id u = oid) (hm_values (tm_users m))
      then (Inl (AlreadyExists (''user '' @ email @ '' already in org '' @ oid)), m)
      else (let u = tenant_user_new fresh now oid email email role
            in (Inr u, m\<lparr>tm_users := hm_insert (usr_id u) u (tm_users m)\<rparr>)))"

definition invite_user ::
  "string \<Rightarrow> int \<Rightarrow> string \<Rightarrow> string \<Rightarrow> tenant_role \<Rightarrow> tenant_manager \<Rightarrow> tenant_user ls_result \<times> tenant_manager" where
  "invite_user fresh now oid email role m =
     (case get_organization oid m of Inl e \<Rightarrow> (Inl e, m) | Inr _ \<Rightarrow> insert_user fresh now oid email role m)"

definition get_user :: "string \<Rightarrow> tenant_manager \<Rightarrow> tenant_user ls_result" where
  "get_user i m = ok_or (user_missing i) (hm_get (tm_users m) i)"

definition list_users :: "string \<Rightarrow> tenant_manager \<Rightarrow> tenant_user list ls_result" where
  "list_users oid m = (case get_organization oid m of Inl e \<Rightarrow> Inl e
     | Inr _ \<Rightarrow> Inr (sort_key usr_created_at (filter (\<lambda>u. usr_org_id u = oid) (hm_values (tm_users m)))))"

definition update_user_role :: "int \<Rightarrow> string \<Rightarrow> tenant_role \<Rightarrow> tenant_manager \<Rightarrow> tenant_user ls_result \<times> tenant_manager" where
  "update_user_role now i role m =
     (let (r, t) = change (user_missing i) i (\<lambda>v. v\<lparr>usr_role := role, usr_updated_at := now\<rparr>) (tm_users m)
      in (r, m\<lparr>tm_users := t\<rparr>))"

definition add_user_to_project :: "string \<Rightarrow> string \<Rightarrow> tenant_manager \<Rightarrow> unit ls_result \<times> tenant_manager" where
  "add_user_to_project i pid m =
     (let (r, t) = change (user_missing i) i
        (\<lambda>v. if pid \<in> set (usr_project_ids v) then v else v\<lparr>usr_project_ids := usr_project_ids v @ [pid]\<rparr>)
        (tm_users m)
      in (map_sum id (\<lambda>_. ()) r, m\<lparr>tm_users := t\<rparr>))"

definition remove_user :: "string \<Rightarrow> tenant_manager \<Rightarrow> bool ls_result \<times> tenant_manager" where
  "remove_user i m =
     (if hm_get (tm_users m) i = None then (Inl (user_missing i), m)
      else (Inr True, m\<lparr>tm_users := hm_remove i (tm_users m)\<rparr>))"

definition disable_user :: "int \<Rightarrow> string \<Rightarrow> tenant_manager \<Rightarrow> tenant_user ls_result \<times> tenant_manager" where
  "disable_user now i m =
     (let (r, t) = change (user_missing i) i (\<lambda>v. v\<lparr>usr_status := UserDisabled, usr_updated_at := now\<rparr>) (tm_users m)
      in (r, m\<lparr>tm_users := t\<rparr>))"

definition check_access :: "string \<Rightarrow> string \<Rightarrow> string \<Rightarrow> tenant_manager \<Rightarrow> bool ls_result" where
  "check_access i oid required_permission m =
     (case get_user i m of
        Inl e \<Rightarrow> Inl e
      | Inr u \<Rightarrow> if usr_org_id u \<noteq> oid then Inr False
          else (let perms = role_permissions (usr_role u)
                in if ''*'' \<in> set perms then Inr True else Inr (required_permission \<in> set perms)))"

definition validate_project_org :: "string \<Rightarrow> string \<Rightarrow> tenant_manager \<Rightarrow> bool ls_result" where
  "validate_project_org pid oid m =
     (case hm_get (tm_projects m) pid of None \<Rightarrow> Inr False | Some p \<Rightarrow> Inr (proj_org_id p = oid))"

record tenant_stats =
  ts_total_orgs :: nat
  ts_total_projects :: nat
  ts_total_users :: nat

definition tenant_stats_of :: "tenant_manager \<Rightarrow> tenant_stats" where
  "tenant_stats_of m = \<lparr>ts_total_orgs = length (tm_orgs m), ts_total_projects = length (tm_projects m),
     ts_total_users = length (tm_users m)\<rparr>"

section \<open>The invariant\<close>

text \<open>
  Every table is keyed by the identifier of its entries; slugs are unique; an address is invited
  once per organisation; projects and users belong to organisations that exist.
\<close>

definition tenant_inv :: "tenant_manager \<Rightarrow> bool" where
  "tenant_inv m \<longleftrightarrow> hm_ok (tm_orgs m) \<and> hm_ok (tm_projects m) \<and> hm_ok (tm_users m)
     \<and> (\<forall>i v. hm_get (tm_orgs m) i = Some v \<longrightarrow> org_id v = i)
     \<and> (\<forall>i j v w. hm_get (tm_orgs m) i = Some v \<longrightarrow> hm_get (tm_orgs m) j = Some w \<longrightarrow>
          org_slug v = org_slug w \<longrightarrow> i = j)
     \<and> (\<forall>i p. hm_get (tm_projects m) i = Some p \<longrightarrow> proj_id p = i \<and> proj_org_id p \<in> hm_dom (tm_orgs m))
     \<and> (\<forall>i u. hm_get (tm_users m) i = Some u \<longrightarrow> usr_id u = i \<and> usr_org_id u \<in> hm_dom (tm_orgs m))
     \<and> (\<forall>i j u v. hm_get (tm_users m) i = Some u \<longrightarrow> hm_get (tm_users m) j = Some v \<longrightarrow>
          usr_email u = usr_email v \<longrightarrow> usr_org_id u = usr_org_id v \<longrightarrow> i = j)"

lemma hm_values_ex:
  "hm_ok t \<Longrightarrow> list_ex P (hm_values t) \<longleftrightarrow> (\<exists>i v. hm_get t i = Some v \<and> P v)"
  by (force simp: list_ex_iff simp flip: hm_ok_mem)

lemma change_get:
  "change err i f t = (r, t') \<Longrightarrow> hm_get t' j = (if j = i then map_option f (hm_get t i) else hm_get t j)"
  by (auto simp: change_def split: option.splits)

lemma change_dom: "change err i f t = (r, t') \<Longrightarrow> hm_dom t' = hm_dom t"
  by (auto simp: change_def split: option.splits)

lemma change_ok: "change err i f t = (r, t') \<Longrightarrow> hm_ok t \<Longrightarrow> hm_ok t'"
  by (auto simp: change_def split: option.splits)

lemmas change_facts = change_get change_dom change_ok

text \<open>Changing an organisation but for its identifier and slug, a user but for its identity.\<close>

lemma tenant_inv_change_org:
  assumes inv: "tenant_inv m" and ch: "change err i f (tm_orgs m) = (r, t)"
    and f: "\<And>v. org_id (f v) = org_id v \<and> org_slug (f v) = org_slug v"
  shows "tenant_inv (m\<lparr>tm_orgs := t\<rparr>)"
proof -
  have get: "\<exists>w. hm_get (tm_orgs m) j = Some w \<and> org_id v = org_id w \<and> org_slug v = org_slug w"
    if "hm_get t j = Some v" for j v
    using that f by (auto simp: change_get [OF ch] split: if_splits)
  have slug: "j = k" if "hm_get t j = Some v" "hm_get t k = Some w" "org_slug v = org_slug w" for j k v w
    using get [OF that(1)] get [OF that(2)] that(3) inv unfolding tenant_inv_def by metis
  have ids: "org_id v = j" if "hm_get t j = Some v" for j v
    using get [OF that] inv by (auto simp: tenant_inv_def)
  show ?thesis
    using inv change_ok [OF ch] slug ids unfolding tenant_inv_def by (simp add: change_dom [OF ch])
qed

lemma tenant_inv_change_project:
  assumes inv: "tenant_inv m" and ch: "change err i f (tm_projects m) = (r, t)"
    and f: "\<And>v. proj_id (f v) = proj_id v \<and> proj_org_id (f v) = proj_org_id v"
  shows "tenant_inv (m\<lparr>tm_projects := t\<rparr>)"
proof -
  have ids: "proj_id p = j \<and> proj_org_id p \<in> hm_dom (tm_orgs m)" if "hm_get t j = Some p" for j p
    using that f inv by (auto simp: change_get [OF ch] tenant_inv_def split: if_splits)
  show ?thesis using inv change_ok [OF ch] ids unfolding tenant_inv_def by simp
qed

lemma tenant_inv_change_user:
  assumes inv: "tenant_inv m" and ch: "change err i f (tm_users m) = (r, t)"
    and f: "\<And>v. usr_id (f v) = usr_id v \<and> usr_org_id (f v) = usr_org_id v \<and> usr_email (f v) = usr_email v"
  shows "tenant_inv (m\<lparr>tm_users := t\<rparr>)"
proof -
  have get: "\<exists>w. hm_get (tm_users m) j = Some w \<and> usr_id v = usr_id w \<and> usr_org_id v = usr_org_id w
      \<and> usr_email v = usr_email w" if "hm_get t j = Some v" for j v
    using that f by (auto simp: change_get [OF ch] split: if_splits)
  have uniq: "j = k" if "hm_get t j = Some v" "hm_get t k = Some w" "usr_email v = usr_email w"
    "usr_org_id v = usr_org_id w" for j k v w
    using get [OF that(1)] get [OF that(2)] that(3,4) inv unfolding tenant_inv_def by metis
  have ids: "usr_id v = j \<and> usr_org_id v \<in> hm_dom (tm_orgs m)" if "hm_get t j = Some v" for j v
    using get [OF that] inv by (auto simp: tenant_inv_def)
  show ?thesis using inv change_ok [OF ch] uniq ids unfolding tenant_inv_def by simp
qed

text \<open>Removing users and projects, or an organisation with all that belongs to it.\<close>

lemma tenant_inv_fewer:
  assumes inv: "tenant_inv m" and ok: "hm_ok orgs" "hm_ok projects" "hm_ok users"
    and orgs: "\<And>i v. hm_get orgs i = Some v \<Longrightarrow> hm_get (tm_orgs m) i = Some v"
    and projects: "\<And>i v. hm_get projects i = Some v \<Longrightarrow> hm_get (tm_projects m) i = Some v \<and> proj_org_id v \<in> hm_dom orgs"
    and users: "\<And>i v. hm_get users i = Some v \<Longrightarrow> hm_get (tm_users m) i = Some v \<and> usr_org_id v \<in> hm_dom orgs"
  shows "tenant_inv \<lparr>tm_orgs = orgs, tm_projects = projects, tm_users = users\<rparr>"
proof -
  have "j = k" if "hm_get orgs j = Some v" "hm_get orgs k = Some w" "org_slug v = org_slug w" for j k v w
    using orgs [OF that(1)] orgs [OF that(2)] that(3) inv unfolding tenant_inv_def by metis
  moreover have "j = k" if "hm_get users j = Some v" "hm_get users k = Some w" "usr_email v = usr_email w"
    "usr_org_id v = usr_org_id w" for j k v w
    using users [OF that(1)] users [OF that(2)] that(3,4) inv unfolding tenant_inv_def by metis
  moreover have "org_id v = j" if "hm_get orgs j = Some v" for j v
    using orgs [OF that] inv by (simp add: tenant_inv_def)
  moreover have "proj_id v = j \<and> proj_org_id v \<in> hm_dom orgs" if "hm_get projects j = Some v" for j v
    using projects [OF that] inv by (simp add: tenant_inv_def)
  moreover have "usr_id v = j \<and> usr_org_id v \<in> hm_dom orgs" if "hm_get users j = Some v" for j v
    using users [OF that] inv by (simp add: tenant_inv_def)
  ultimately show ?thesis using ok unfolding tenant_inv_def by simp
qed

lemma retain_Some:
  "hm_ok t \<Longrightarrow> hm_get (hm_retain P t) i = Some v \<longleftrightarrow> hm_get t i = Some v \<and> P i v"
  by (auto simp: hm_get_retain split: option.splits)

lemma tenant_inv_delete_org:
  assumes inv: "tenant_inv m" and del: "delete_organization i m = (r, m')"
  shows "tenant_inv m'"
proof (cases "hm_get (tm_orgs m) i = None")
  case True
  with inv del show ?thesis by (simp add: delete_organization_def)
next
  case False
  have ok: "hm_ok (tm_orgs m)" "hm_ok (tm_projects m)" "hm_ok (tm_users m)" using inv by (simp_all add: tenant_inv_def)
  from False del have m': "m' = \<lparr>tm_orgs = hm_remove i (tm_orgs m),
      tm_projects = hm_retain (\<lambda>_ p. proj_org_id p \<noteq> i) (tm_projects m),
      tm_users = hm_retain (\<lambda>_ u. usr_org_id u \<noteq> i) (tm_users m)\<rparr>"
    by (simp add: delete_organization_def del: not_None_eq)
  show ?thesis unfolding m'
    by (rule tenant_inv_fewer [OF inv])
      (use inv ok in \<open>auto simp: retain_Some tenant_inv_def split: if_splits\<close>)
qed

lemma tenant_inv_delete_project: "tenant_inv m \<Longrightarrow> tenant_inv (m\<lparr>tm_projects := hm_remove i (tm_projects m)\<rparr>)"
  by (auto simp: tenant_inv_def split: if_splits)

lemma tenant_inv_remove_user:
  assumes inv: "tenant_inv m"
  shows "tenant_inv (m\<lparr>tm_users := hm_remove i (tm_users m)\<rparr>)"
proof -
  have "tenant_inv \<lparr>tm_orgs = tm_orgs m, tm_projects = tm_projects m, tm_users = hm_remove i (tm_users m)\<rparr>"
    by (rule tenant_inv_fewer [OF inv]) (use inv in \<open>auto simp: tenant_inv_def split: if_splits\<close>)
  then show ?thesis by (cases m) simp
qed

lemma tenant_inv_create_org:
  assumes inv: "tenant_inv m" and cr: "create_organization fresh now name slug owner m = (r, m')"
    and fresh: "''org-'' @ fresh \<notin> hm_dom (tm_orgs m)"
  shows "tenant_inv m'"
proof (cases "list_ex (\<lambda>o'. org_slug o' = slug) (hm_values (tm_orgs m))")
  case True
  with inv cr show ?thesis by (simp add: create_organization_def)
next
  case False
  let ?o = "organization_new fresh now name slug owner []"
  have simps: "org_id ?o = ''org-'' @ fresh" "org_slug ?o = slug" by (simp_all add: organization_new_def)
  from False have new: "hm_get (tm_orgs m) j = Some v \<Longrightarrow> org_slug v \<noteq> slug" for j v
    using inv by (auto simp: hm_values_ex tenant_inv_def)
  from False cr have "m' = m\<lparr>tm_orgs := hm_insert (''org-'' @ fresh) ?o (tm_orgs m)\<rparr>"
    by (auto simp: create_organization_def Let_def simps simp del: append_Cons)
  then show ?thesis using inv fresh new simps unfolding tenant_inv_def by auto
qed

lemma tenant_inv_insert_project:
  assumes "tenant_inv m" "oid \<in> hm_dom (tm_orgs m)"
  shows "tenant_inv (snd (insert_project fresh now oid name descr m))"
  using assms by (auto simp: tenant_inv_def insert_project_def project_new_def Let_def)

lemma tenant_inv_insert_user:
  assumes inv: "tenant_inv m" and oid: "oid \<in> hm_dom (tm_orgs m)"
    and fresh: "''user-'' @ fresh \<notin> hm_dom (tm_users m)"
  shows "tenant_inv (snd (insert_user fresh now oid email role m))"
proof (cases "list_ex (\<lambda>u. usr_email u = email \<and> usr_org_id u = oid) (hm_values (tm_users m))")
  case True
  with inv show ?thesis by (simp add: insert_user_def)
next
  case False
  let ?u = "tenant_user_new fresh now oid email email role"
  have simps: "usr_id ?u = ''user-'' @ fresh" "usr_org_id ?u = oid" "usr_email ?u = email"
    by (simp_all add: tenant_user_new_def)
  from False have new: "hm_get (tm_users m) j = Some v \<Longrightarrow> usr_email v = email \<Longrightarrow> usr_org_id v \<noteq> oid" for j v
    using inv by (auto simp: hm_values_ex tenant_inv_def)
  from False have "snd (insert_user fresh now oid email role m) =
      m\<lparr>tm_users := hm_insert (''user-'' @ fresh) ?u (tm_users m)\<rparr>"
    by (auto simp: insert_user_def Let_def simps simp del: append_Cons)
  then show ?thesis using inv oid fresh new simps unfolding tenant_inv_def by auto
qed

section \<open>The manager as a machine\<close>

text \<open>Every operation, with generated identifiers that are not in use yet.\<close>

inductive tenant_step :: "tenant_manager \<Rightarrow> tenant_manager \<Rightarrow> bool" where
  t_create_org: "create_organization fresh now name slug owner m = (r, m') \<Longrightarrow>
    ''org-'' @ fresh \<notin> hm_dom (tm_orgs m) \<Longrightarrow> tenant_step m m'"
| t_update_org: "update_organization now i name descr m = (ro, m') \<Longrightarrow> tenant_step m m'"
| t_delete_org: "delete_organization i m = (rb, m') \<Longrightarrow> tenant_step m m'"
| t_suspend_org: "suspend_organization now i m = (ro, m') \<Longrightarrow> tenant_step m m'"
| t_create_project: "create_project fresh now oid name descr m = (rp, m') \<Longrightarrow> tenant_step m m'"
| t_update_project: "update_project now i name descr m = (rp, m') \<Longrightarrow> tenant_step m m'"
| t_archive_project: "archive_project now i m = (rp, m') \<Longrightarrow> tenant_step m m'"
| t_delete_project: "delete_project i m = (rb, m') \<Longrightarrow> tenant_step m m'"
| t_invite_user: "invite_user fresh now oid email role m = (ru, m') \<Longrightarrow>
    ''user-'' @ fresh \<notin> hm_dom (tm_users m) \<Longrightarrow> tenant_step m m'"
| t_update_role: "update_user_role now i role m = (ru, m') \<Longrightarrow> tenant_step m m'"
| t_add_to_project: "add_user_to_project i pid m = (rn, m') \<Longrightarrow> tenant_step m m'"
| t_remove_user: "remove_user i m = (rb, m') \<Longrightarrow> tenant_step m m'"
| t_disable_user: "disable_user now i m = (ru, m') \<Longrightarrow> tenant_step m m'"

lemma tenant_inv_step: "tenant_step m m' \<Longrightarrow> tenant_inv m \<Longrightarrow> tenant_inv m'"
proof (induction rule: tenant_step.induct)
  case (t_create_org fresh now name slug owner m r m')
  then show ?case using tenant_inv_create_org by blast
next
  case (t_update_org now i name descr m ro m')
  then show ?case
    by (auto simp: update_organization_def intro: tenant_inv_change_org split: prod.splits)
next
  case (t_delete_org i m rb m')
  then show ?case using tenant_inv_delete_org by blast
next
  case (t_suspend_org now i m ro m')
  then show ?case
    by (auto simp: suspend_organization_def intro: tenant_inv_change_org split: prod.splits)
next
  case (t_create_project fresh now oid name descr m rp m')
  then show ?case using tenant_inv_insert_project [of m oid fresh now name descr]
    by (auto simp: create_project_def get_organization_def dest: hm_get_dom split: sum.splits)
next
  case (t_update_project now i name descr m rp m')
  then show ?case
    by (auto simp: update_project_def intro: tenant_inv_change_project split: prod.splits)
next
  case (t_archive_project now i m rp m')
  then show ?case
    by (auto simp: archive_project_def intro: tenant_inv_change_project split: prod.splits)
next
  case (t_delete_project i m rb m')
  then show ?case by (auto simp: delete_project_def intro: tenant_inv_delete_project split: if_splits)
next
  case (t_invite_user fresh now oid email role m ru m')
  then show ?case using tenant_inv_insert_user [of m oid fresh now email role]
    by (auto simp: invite_user_def get_organization_def dest: hm_get_dom split: sum.splits)
next
  case (t_update_role now i role m ru m')
  then show ?case
    by (auto simp: update_user_role_def intro: tenant_inv_change_user split: prod.splits)
next
  case (t_add_to_project i pid m rn m')
  then show ?case
    by (auto simp: add_user_to_project_def intro: tenant_inv_change_user split: prod.splits)
next
  case (t_remove_user i m rb m')
  then show ?case by (auto simp: remove_user_def intro: tenant_inv_remove_user split: if_splits)
next
  case (t_disable_user now i m ru m')
  then show ?case
    by (auto simp: disable_user_def intro: tenant_inv_change_user split: prod.splits)
qed

definition tenant_init :: "tenant_manager \<Rightarrow> bool" where
  "tenant_init m \<longleftrightarrow> m = tenant_new"

lemma tenant_inv_init: "tenant_init m \<Longrightarrow> tenant_inv m"
  by (simp add: tenant_init_def tenant_new_def tenant_inv_def)

interpretation tenant_machine: machine tenant_init tenant_step tenant_inv
  by unfold_locales (auto intro: tenant_inv_init tenant_inv_step)

section \<open>Properties\<close>


definition sample_tenant :: tenant_manager where
  "sample_tenant = snd (create_organization ''1'' 0 ''Acme'' ''acme'' ''u'' tenant_new)"

definition sample_tenant_user :: tenant_manager where
  "sample_tenant_user = snd (invite_user ''7'' 0 ''org-1'' ''a@b'' Admin sample_tenant)"

lemma sample_tenant_reaches: "reaches tenant_init tenant_step sample_tenant"
proof (rule reaches_step)
  show "reaches tenant_init tenant_step tenant_new" by (rule reaches_init) (simp add: tenant_init_def)
  show "tenant_step tenant_new sample_tenant"
    unfolding sample_tenant_def
    by (rule t_create_org [OF surjective_pairing]) (simp add: tenant_new_def)
qed

lemma sample_user_reaches: "reaches tenant_init tenant_step sample_tenant_user"
proof (rule reaches_step [OF sample_tenant_reaches])
  show "tenant_step sample_tenant sample_tenant_user"
    unfolding sample_tenant_user_def
    by (rule t_invite_user [OF surjective_pairing])
      (simp add: sample_tenant_def create_organization_def tenant_new_def Let_def)
qed

lemmas eval_tenant = sample_tenant_user_def sample_tenant_def create_organization_def tenant_new_def
  organization_new_def invite_user_def insert_user_def get_organization_def tenant_user_new_def get_user_def
  ok_or_def Let_def


text \<open>Access is granted exactly to users of the organisation asked for whose role is owner or has
  the permission; a user of another organisation is refused whatever the role.\<close>

theorem check_access_exact:
  "check_access i oid perm m = Inr True \<longleftrightarrow>
    (\<exists>u. get_user i m = Inr u \<and> usr_org_id u = oid
      \<and> (usr_role u = Owner \<or> perm \<in> set (role_permissions (usr_role u))))"
proof (cases "get_user i m")
  case (Inl e)
  then show ?thesis by (simp add: check_access_def)
next
  case (Inr u)
  then show ?thesis
    by (cases "usr_role u") (auto simp: check_access_def role_permissions_def Let_def)
qed

text \<open>Deleting an organisation removes it with all its projects and users, and nothing of any
  other organisation.\<close>

theorem delete_organization_cascades:
  assumes "tenant_inv m" "delete_organization i m = (Inr b, m')"
  shows "get_organization i m' = Inl (org_missing i)
    \<and> (\<forall>j. j \<noteq> i \<longrightarrow> get_organization j m' = get_organization j m)
    \<and> (\<forall>j p. get_project j m' = Inr p \<longleftrightarrow> get_project j m = Inr p \<and> proj_org_id p \<noteq> i)
    \<and> (\<forall>j u. get_user j m' = Inr u \<longleftrightarrow> get_user j m = Inr u \<and> usr_org_id u \<noteq> i)"
proof -
  have ok: "hm_ok (tm_projects m)" "hm_ok (tm_users m)" using assms(1) by (simp_all add: tenant_inv_def)
  from assms(2) have m': "m' = \<lparr>tm_orgs = hm_remove i (tm_orgs m),
      tm_projects = hm_retain (\<lambda>_ p. proj_org_id p \<noteq> i) (tm_projects m),
      tm_users = hm_retain (\<lambda>_ u. usr_org_id u \<noteq> i) (tm_users m)\<rparr>"
    by (simp add: delete_organization_def split: if_splits)
  show ?thesis
    by (simp add: m' get_organization_def get_project_def get_user_def retain_Some [OF ok(1)] retain_Some [OF ok(2)])
qed

theorem delete_organization_cascades_witness:
  "get_organization ''org-1'' (snd (delete_organization ''org-1'' sample_tenant_user)) = Inl (org_missing ''org-1'')"
proof -
  have "tenant_inv sample_tenant_user" by (rule tenant_machine.reaches_inv [OF sample_user_reaches])
  moreover have "delete_organization ''org-1'' sample_tenant_user =
      (Inr True, snd (delete_organization ''org-1'' sample_tenant_user))"
    by (simp add: delete_organization_def eval_tenant)
  ultimately show ?thesis using delete_organization_cascades by blast
qed

text \<open>Disabling a user and suspending an organisation change no answer of the access check.\<close>

theorem disabled_keeps_access:
  "check_access i oid perm (snd (disable_user now j m)) = check_access i oid perm m
    \<and> check_access i oid perm (snd (suspend_organization now k m)) = check_access i oid perm m"
  by (auto simp: check_access_def get_user_def disable_user_def suspend_organization_def change_def
      ok_or_def split: option.splits prod.splits)

text \<open>When an organisation is deleted between the check and the insertion of
  \<open>create_project\<close>, the project is created all the same and belongs to no organisation.\<close>

lemma create_project_race:
  assumes "get_organization oid m = Inr v"
  shows "let m1 = snd (delete_organization oid m); (r, m2) = insert_project fresh now oid name descr m1
    in r = Inr (project_new fresh now oid name descr)
      \<and> get_project (''proj-'' @ fresh) m2 = Inr (project_new fresh now oid name descr)
      \<and> get_organization oid m2 = Inl (org_missing oid)
      \<and> \<not> tenant_inv m2"
proof -
  have "hm_get (tm_orgs m) oid \<noteq> None" using assms by (simp add: get_organization_def)
  then have m1: "tm_orgs (snd (delete_organization oid m)) = hm_remove oid (tm_orgs m)"
    by (simp add: delete_organization_def del: not_None_eq)
  show ?thesis
    by (auto simp: insert_project_def project_new_def get_project_def get_organization_def tenant_inv_def m1
        ok_or_def Let_def)
qed

lemma create_project_race_witness:
  "get_organization ''org-1'' (snd (insert_project ''5'' 0 ''org-1'' ''p'' [] (snd (delete_organization ''org-1'' sample_tenant))))
    = Inl (org_missing ''org-1'')"
proof -
  have "\<exists>v. get_organization ''org-1'' sample_tenant = Inr v" by (simp add: eval_tenant)
  then obtain v where "get_organization ''org-1'' sample_tenant = Inr v" by blast
  from create_project_race [OF this, of "''5''" 0 "''p''" "[]"] show ?thesis
    by (simp add: Let_def split: prod.splits)
qed

end
