(* ===== verification/Billing.thy ===== *)
theory Billing
  imports Core
begin

text \<open>
  Usage tracking and quotas (crate \<open>billing\<close>): tiers and rate cards of \<open>plan.rs\<close>, the usage
  tracker of \<open>usage.rs\<close>, the quota manager of \<open>quota.rs\<close> and \<open>BillingSystem\<close> of \<open>lib.rs\<close>.

  Token and request counters are \<open>u64\<close>: words of 64 bits whose addition wraps around, as in a
  release build. Times are nanoseconds. Prices are floating-point numbers in the code; here a
  rate card keeps its pattern, and which card applies to a model is what is modelled of the
  cost.
\<close>

section \<open>Tiers and rate cards\<close>

datatype billing_tier = Free | Basic | Pro | Enterprise | Custom string

fun tier_str :: "billing_tier \<Rightarrow> string" where
  "tier_str Free = ''free''"
| "tier_str Basic = ''basic''"
| "tier_str Pro = ''pro''"
| "tier_str Enterprise = ''enterprise''"
| "tier_str (Custom s) = s"

definition tier_parse :: "string \<Rightarrow> billing_tier" where
  "tier_parse s = (if s = ''free'' then Free else if s = ''basic'' then Basic
     else if s = ''pro'' then Pro else if s = ''enterprise'' then Enterprise else Custom s)"

record billing_plan =
  bp_tier :: billing_tier
  bp_name :: string
  bp_monthly_token_quota :: "64 word"
  bp_monthly_request_limit :: "64 word"
  bp_max_concurrency :: nat
  bp_rate_patterns :: "string list"
  bp_allow_overage :: bool

definition plan_free :: billing_plan where
  "plan_free = \<lparr>bp_tier = Free, bp_name = ''Free'', bp_monthly_token_quota = 1000000,
     bp_monthly_request_limit = 10000, bp_max_concurrency = 1, bp_rate_patterns = [''*''],
     bp_allow_overage = False\<rparr>"

definition plan_basic :: billing_plan where
  "plan_basic = \<lparr>bp_tier = Basic, bp_name = ''Basic'', bp_monthly_token_quota = 10000000,
     bp_monthly_request_limit = 100000, bp_max_concurrency = 5,
     bp_rate_patterns = [''gpt-4*'', ''gpt-3.5*'', ''*''], bp_allow_overage = True\<rparr>"

definition plan_pro :: billing_plan where
  "plan_pro = \<lparr>bp_tier = Pro, bp_name = ''Pro'', bp_monthly_token_quota = 100000000,
     bp_monthly_request_limit = 1000000, bp_max_concurrency = 20,
     bp_rate_patterns = [''gpt-4*'', ''*''], bp_allow_overage = True\<rparr>"

definition card_matches :: "string \<Rightarrow> string \<Rightarrow> bool" where
  "card_matches model pat =
     (if pat = ''*'' then True
      else if pat \<noteq> [] \<and> last pat = CHR ''*'' then starts_with model (butlast pat)
      else model = pat)"

definition rate_card_for :: "billing_plan \<Rightarrow> string \<Rightarrow> string option" where
  "rate_card_for p model = find (card_matches model) (bp_rate_patterns p)"

section \<open>The usage tracker\<close>

record usage_record =
  ur_id :: ls_id
  ur_user_id :: string
  ur_model :: string
  ur_input_tokens :: "64 word"
  ur_output_tokens :: "64 word"
  ur_total_tokens :: "64 word"
  ur_timestamp :: int

record usage_aggregate =
  ua_total_input :: "64 word"
  ua_total_output :: "64 word"
  ua_count :: "64 word"

record usage_summary =
  us_user_id :: string
  us_model :: string
  us_total_input_tokens :: "64 word"
  us_total_output_tokens :: "64 word"
  us_total_tokens :: "64 word"
  us_request_count :: "64 word"
  us_period_start :: int
  us_period_end :: int

record usage_tracker =
  ut_records :: "usage_record list"
  ut_summary :: "(string, usage_aggregate) hmap"

definition tracker_new :: usage_tracker where
  "tracker_new = \<lparr>ut_records = [], ut_summary = []\<rparr>"

definition usage_record_new :: "ls_id \<Rightarrow> int \<Rightarrow> string \<Rightarrow> string \<Rightarrow> 64 word \<Rightarrow> 64 word \<Rightarrow> usage_record" where
  "usage_record_new fresh now user model inp outp = \<lparr>ur_id = fresh, ur_user_id = user, ur_model = model,
     ur_input_tokens = inp, ur_output_tokens = outp, ur_total_tokens = inp + outp, ur_timestamp = now\<rparr>"

definition usage_key :: "string \<Rightarrow> string \<Rightarrow> string" where
  "usage_key user model = user @ '':'' @ model"

definition thirty_days :: int where
  "thirty_days = 30 * 86400 * 1000000000"

definition tracker_record ::
  "ls_id \<Rightarrow> int \<Rightarrow> string \<Rightarrow> string \<Rightarrow> 64 word \<Rightarrow> 64 word \<Rightarrow> usage_tracker \<Rightarrow> usage_record \<times> usage_tracker" where
  "tracker_record fresh now user model inp outp t =
     (let r = usage_record_new fresh now user model inp outp; key = usage_key user model;
          agg = (case hm_get (ut_summary t) key of
             None \<Rightarrow> \<lparr>ua_total_input = inp, ua_total_output = outp, ua_count = 1\<rparr>
           | Some a \<Rightarrow> a\<lparr>ua_total_input := ua_total_input a + inp, ua_total_output := ua_total_output a + outp,
                         ua_count := ua_count a + 1\<rparr>)
      in (r, t\<lparr>ut_records := ut_records t @ [r], ut_summary := hm_insert key agg (ut_summary t)\<rparr>))"

definition get_summary :: "int \<Rightarrow> string \<Rightarrow> string \<Rightarrow> usage_tracker \<Rightarrow> usage_summary ls_result" where
  "get_summary now user model t =
     (case hm_get (ut_summary t) (usage_key user model) of
        None \<Rightarrow> Inl (NotFound (''no usage for user '' @ user @ '' model '' @ model))
      | Some a \<Rightarrow> Inr \<lparr>us_user_id = user, us_model = model, us_total_input_tokens = ua_total_input a,
          us_total_output_tokens = ua_total_output a, us_total_tokens = ua_total_input a + ua_total_output a,
          us_request_count = ua_count a, us_period_start = now - thirty_days, us_period_end = now\<rparr>)"

definition get_records :: "string \<Rightarrow> usage_tracker \<Rightarrow> usage_record list ls_result" where
  "get_records user t =
     (let rs = filter (\<lambda>r. ur_user_id r = user) (ut_records t)
      in if rs = [] then Inl (NotFound (''no records for user '' @ user)) else Inr rs)"

section \<open>Quotas\<close>

record quota =
  qu_user_id :: string
  qu_tier :: string
  qu_tokens_used :: "64 word"
  qu_token_quota :: "64 word"
  qu_requests_used :: "64 word"
  qu_request_limit :: "64 word"
  qu_reset_at :: int

definition has_quota :: "64 word \<Rightarrow> quota \<Rightarrow> bool" where
  "has_quota estimated q \<longleftrightarrow> qu_tokens_used q + estimated \<le> qu_token_quota q
     \<and> qu_requests_used q < qu_request_limit q"

definition saturating_sub :: "64 word \<Rightarrow> 64 word \<Rightarrow> 64 word" where
  "saturating_sub a b = (if b \<le> a then a - b else 0)"

definition remaining_tokens :: "quota \<Rightarrow> 64 word" where
  "remaining_tokens q = saturating_sub (qu_token_quota q) (qu_tokens_used q)"

definition remaining_requests :: "quota \<Rightarrow> 64 word" where
  "remaining_requests q = saturating_sub (qu_request_limit q) (qu_requests_used q)"

record quota_manager =
  qmg_plans :: "billing_plan list"
  qmg_usage :: "(string, 64 word \<times> 64 word \<times> int) hmap"

definition quota_manager_new :: "billing_plan list \<Rightarrow> quota_manager" where
  "quota_manager_new plans = \<lparr>qmg_plans = plans, qmg_usage = []\<rparr>"

definition get_plan :: "string \<Rightarrow> quota_manager \<Rightarrow> billing_plan ls_result" where
  "get_plan tier q = ok_or (NotFound (''billing plan '' @ tier @ '' not found''))
     (find (\<lambda>p. tier_str (bp_tier p) = tier) (qmg_plans q))"

definition check_quota :: "int \<Rightarrow> string \<Rightarrow> string \<Rightarrow> quota_manager \<Rightarrow> quota ls_result" where
  "check_quota now user tier q =
     (case get_plan tier q of
        Inl e \<Rightarrow> Inl e
      | Inr plan \<Rightarrow>
          (let (tokens, requests, start) =
             (case hm_get (qmg_usage q) user of
                None \<Rightarrow> (0, 0, now)
              | Some (t, r, ts) \<Rightarrow> if now - ts > thirty_days then (0, 0, now) else (t, r, ts))
           in Inr \<lparr>qu_user_id = user, qu_tier = tier, qu_tokens_used = tokens,
                qu_token_quota = bp_monthly_token_quota plan, qu_requests_used = requests,
                qu_request_limit = bp_monthly_request_limit plan, qu_reset_at = start + thirty_days\<rparr>))"

definition quota_consume :: "int \<Rightarrow> string \<Rightarrow> 64 word \<Rightarrow> quota_manager \<Rightarrow> quota_manager" where
  "quota_consume now user tokens q =
     q\<lparr>qmg_usage := hm_insert user
        (case hm_get (qmg_usage q) user of
           None \<Rightarrow> (tokens, 1, now)
         | Some (t, r, ts) \<Rightarrow> (t + tokens, r + 1, ts)) (qmg_usage q)\<rparr>"

record billing_system =
  bsys_tracker :: usage_tracker
  bsys_quota :: quota_manager

definition billing_new :: "billing_plan list \<Rightarrow> billing_system" where
  "billing_new plans = \<lparr>bsys_tracker = tracker_new, bsys_quota = quota_manager_new plans\<rparr>"

definition record_usage ::
  "ls_id \<Rightarrow> int \<Rightarrow> string \<Rightarrow> string \<Rightarrow> 64 word \<Rightarrow> 64 word \<Rightarrow> billing_system \<Rightarrow> usage_record \<times> billing_system" where
  "record_usage fresh now user model inp outp s =
     (let total = inp + outp; (r, t) = tracker_record fresh now user model inp outp (bsys_tracker s)
      in (r, s\<lparr>bsys_tracker := t, bsys_quota := quota_consume now user total (bsys_quota s)\<rparr>))"

section \<open>Reports\<close>

datatype period_type = Daily | Weekly | Monthly | CustomPeriod int int

record model_usage =
  mu_model :: string
  mu_requests :: "64 word"
  mu_input_tokens :: "64 word"
  mu_output_tokens :: "64 word"
  mu_total_tokens :: "64 word"

record usage_report =
  rep_user_id :: string
  rep_period :: period_type
  rep_generated_at :: int
  rep_total_requests :: "64 word"
  rep_total_input_tokens :: "64 word"
  rep_total_output_tokens :: "64 word"
  rep_total_tokens :: "64 word"
  rep_per_model :: "model_usage list"

fun period_start_of :: "int \<Rightarrow> period_type \<Rightarrow> int" where
  "period_start_of now Daily = now - 86400 * 1000000000"
| "period_start_of now Weekly = now - 7 * 86400 * 1000000000"
| "period_start_of now Monthly = now - thirty_days"
| "period_start_of now (CustomPeriod start end_time) = start"

definition add_model_usage :: "usage_record \<Rightarrow> (string, model_usage) hmap \<Rightarrow> (string, model_usage) hmap" where
  "add_model_usage r m =
     (let e = (case hm_get m (ur_model r) of
            None \<Rightarrow> \<lparr>mu_model = ur_model r, mu_requests = 0, mu_input_tokens = 0, mu_output_tokens = 0, mu_total_tokens = 0\<rparr>
          | Some e \<Rightarrow> e)
      in hm_insert (ur_model r) (e\<lparr>mu_requests := mu_requests e + 1,
           mu_input_tokens := mu_input_tokens e + ur_input_tokens r,
           mu_output_tokens := mu_output_tokens e + ur_output_tokens r,
           mu_total_tokens := mu_total_tokens e + ur_total_tokens r\<rparr>) m)"

definition generate_report :: "int \<Rightarrow> string \<Rightarrow> period_type \<Rightarrow> usage_tracker \<Rightarrow> usage_report ls_result" where
  "generate_report now user period t =
     (case get_records user t of
        Inl e \<Rightarrow> Inl e
      | Inr records \<Rightarrow>
          (let filtered = filter (\<lambda>r. ur_timestamp r \<ge> period_start_of now period \<and> ur_timestamp r \<le> now) records;
               total_input = sum_list (map ur_input_tokens filtered);
               total_output = sum_list (map ur_output_tokens filtered)
           in Inr \<lparr>rep_user_id = user, rep_period = period, rep_generated_at = now,
                rep_total_requests = of_nat (length filtered), rep_total_input_tokens = total_input,
                rep_total_output_tokens = total_output, rep_total_tokens = total_input + total_output,
                rep_per_model = rev (sort_key mu_total_tokens (rev (hm_values (fold add_model_usage filtered []))))\<rparr>))"

section \<open>Runs of calls\<close>

record usage_call =
  uc_id :: ls_id
  uc_now :: int
  uc_user :: string
  uc_model :: string
  uc_input :: "64 word"
  uc_output :: "64 word"

definition usage_apply :: "usage_call \<Rightarrow> billing_system \<Rightarrow> billing_system" where
  "usage_apply c s = snd (record_usage (uc_id c) (uc_now c) (uc_user c) (uc_model c) (uc_input c) (uc_output c) s)"

abbreviation calls_of_key :: "string \<Rightarrow> usage_call list \<Rightarrow> usage_call list" where
  "calls_of_key key cs \<equiv> filter (\<lambda>c. usage_key (uc_user c) (uc_model c) = key) cs"

abbreviation calls_of_user :: "string \<Rightarrow> usage_call list \<Rightarrow> usage_call list" where
  "calls_of_user user cs \<equiv> filter (\<lambda>c. uc_user c = user) cs"

text \<open>The entries after a run of calls: sums over the calls of the key, and of the user.\<close>

lemma summary_after:
  "hm_get (ut_summary (bsys_tracker (fold usage_apply cs (billing_new plans)))) key =
    (case calls_of_key key cs of [] \<Rightarrow> None | c # ks \<Rightarrow> Some
      \<lparr>ua_total_input = sum_list (map uc_input (c # ks)), ua_total_output = sum_list (map uc_output (c # ks)),
       ua_count = of_nat (length (c # ks))\<rparr>)"
proof (induction cs rule: rev_induct)
  case Nil
  then show ?case by (simp add: billing_new_def tracker_new_def)
next
  case (snoc c cs)
  have step: "ut_summary (bsys_tracker (usage_apply c s)) =
      hm_insert (usage_key (uc_user c) (uc_model c))
        (case hm_get (ut_summary (bsys_tracker s)) (usage_key (uc_user c) (uc_model c)) of
           None \<Rightarrow> \<lparr>ua_total_input = uc_input c, ua_total_output = uc_output c, ua_count = 1\<rparr>
         | Some a \<Rightarrow> a\<lparr>ua_total_input := ua_total_input a + uc_input c,
             ua_total_output := ua_total_output a + uc_output c, ua_count := ua_count a + 1\<rparr>)
        (ut_summary (bsys_tracker s))" for s
    by (simp add: usage_apply_def record_usage_def tracker_record_def Let_def)
  show ?case
  proof (cases "usage_key (uc_user c) (uc_model c) = key")
    case True
    with snoc show ?thesis
      by (cases "calls_of_key key cs") (simp_all add: step add.commute add.left_commute)
  next
    case False
    with snoc show ?thesis by (simp add: step)
  qed
qed

lemma quota_after:
  "hm_get (qmg_usage (bsys_quota (fold usage_apply cs (billing_new plans)))) user =
    (case calls_of_user user cs of [] \<Rightarrow> None | c # us \<Rightarrow> Some
      (sum_list (map (\<lambda>c. uc_input c + uc_output c) (c # us)), of_nat (length (c # us)), uc_now c))"
proof (induction cs rule: rev_induct)
  case Nil
  then show ?case by (simp add: billing_new_def quota_manager_new_def)
next
  case (snoc c cs)
  have step: "qmg_usage (bsys_quota (usage_apply c s)) = hm_insert (uc_user c)
      (case hm_get (qmg_usage (bsys_quota s)) (uc_user c) of
         None \<Rightarrow> (uc_input c + uc_output c, 1, uc_now c)
       | Some (t, r, ts) \<Rightarrow> (t + (uc_input c + uc_output c), r + 1, ts)) (qmg_usage (bsys_quota s))" for s
    by (simp add: usage_apply_def record_usage_def quota_consume_def Let_def split: prod.split)
  show ?case
  proof (cases "uc_user c = user")
    case True
    with snoc show ?thesis
      by (cases "calls_of_user user cs") (simp_all add: step add.commute add.left_commute)
  next
    case False
    with snoc show ?thesis by (simp add: step)
  qed
qed

lemma plans_after: "qmg_plans (bsys_quota (fold usage_apply cs (billing_new plans))) = plans"
proof -
  have "qmg_plans (bsys_quota (fold usage_apply cs s)) = qmg_plans (bsys_quota s)" for s
    by (induction cs arbitrary: s)
      (simp_all add: usage_apply_def record_usage_def quota_consume_def Let_def split: prod.split)
  then show ?thesis by (simp add: billing_new_def quota_manager_new_def)
qed

section \<open>Properties\<close>

lemma usage_key_inj:
  "CHR '':'' \<notin> set u \<Longrightarrow> CHR '':'' \<notin> set u' \<Longrightarrow> usage_key u m = usage_key u' m' \<longleftrightarrow> u = u' \<and> m = m'"
proof (induction u arbitrary: u')
  case Nil
  then show ?case by (cases u') (auto simp: usage_key_def)
next
  case (Cons x u)
  then show ?case by (cases u') (auto simp: usage_key_def)
qed

text \<open>The summary of a user and model holds the sums (modulo \<open>2 ^ 64\<close>) over exactly the recorded
  calls whose user and model give the same index key, and there is none when there are no such
  calls; for users without a colon in their name these are the calls of that user and model.\<close>

theorem summary_sums_calls:
  assumes "CHR '':'' \<notin> set user" "\<forall>c \<in> set cs. CHR '':'' \<notin> set (uc_user c)"
    and "ks = filter (\<lambda>c. uc_user c = user \<and> uc_model c = model) cs"
  shows "get_summary now user model (bsys_tracker (fold usage_apply cs (billing_new plans))) =
    (if ks = [] then Inl (NotFound (''no usage for user '' @ user @ '' model '' @ model))
     else Inr \<lparr>us_user_id = user, us_model = model, us_total_input_tokens = sum_list (map uc_input ks),
       us_total_output_tokens = sum_list (map uc_output ks),
       us_total_tokens = sum_list (map uc_input ks) + sum_list (map uc_output ks),
       us_request_count = of_nat (length ks), us_period_start = now - thirty_days, us_period_end = now\<rparr>)"
proof -
  have "calls_of_key (usage_key user model) cs = ks"
    unfolding assms(3) using assms(1,2) by (intro filter_cong) (auto simp: usage_key_inj)
  then show ?thesis by (cases ks) (simp_all add: get_summary_def summary_after)
qed

definition sample_call :: "string \<Rightarrow> string \<Rightarrow> int \<Rightarrow> usage_call" where
  "sample_call user model now = \<lparr>uc_id = 1, uc_now = now, uc_user = user, uc_model = model, uc_input = 10, uc_output = 5\<rparr>"

theorem summary_sums_calls_witness:
  "get_summary 9 ''u'' ''m'' (bsys_tracker (fold usage_apply [sample_call ''u'' ''m'' 1, sample_call ''v'' ''m'' 2]
      (billing_new [plan_free]))) =
    Inr \<lparr>us_user_id = ''u'', us_model = ''m'', us_total_input_tokens = 10, us_total_output_tokens = 5,
      us_total_tokens = 15, us_request_count = 1, us_period_start = 9 - thirty_days, us_period_end = 9\<rparr>"
  by (subst summary_sums_calls [OF _ _ refl]) (simp_all add: sample_call_def)

text \<open>The index key does not separate its parts: calls of the user \<open>a:b\<close> on the model \<open>c\<close>
  appear in the summary of the user \<open>a\<close> on the model \<open>b:c\<close>.\<close>

lemma summary_mixes_users:
  "map_sum id us_total_tokens (get_summary now u (v @ '':'' @ m) (bsys_tracker
     (snd (record_usage fresh t (u @ '':'' @ v) m inp outp (billing_new plans))))) = Inr (inp + outp)"
  by (simp add: get_summary_def usage_key_def record_usage_def tracker_record_def billing_new_def
      tracker_new_def Let_def)

text \<open>C12: within 30 days of a user's first call the quota check reports all tokens (modulo
  \<open>2 ^ 64\<close>) and requests of the user; from then on it reports none, whatever the user has
  consumed since, because the period of an entry never starts again.\<close>

theorem check_quota_after_calls:
  assumes "get_plan tier (quota_manager_new plans) = Inr plan" "calls_of_user user cs = c # us"
  shows "check_quota now user tier (bsys_quota (fold usage_apply cs (billing_new plans))) =
    Inr \<lparr>qu_user_id = user, qu_tier = tier,
      qu_tokens_used = (if now - uc_now c > thirty_days then 0
        else sum_list (map (\<lambda>c. uc_input c + uc_output c) (c # us))),
      qu_token_quota = bp_monthly_token_quota plan,
      qu_requests_used = (if now - uc_now c > thirty_days then 0 else of_nat (length (c # us))),
      qu_request_limit = bp_monthly_request_limit plan,
      qu_reset_at = (if now - uc_now c > thirty_days then now else uc_now c) + thirty_days\<rparr>"
proof -
  have "get_plan tier (bsys_quota (fold usage_apply cs (billing_new plans))) = Inr plan"
    using assms(1) by (simp add: get_plan_def plans_after quota_manager_new_def)
  then show ?thesis by (simp add: check_quota_def quota_after assms(2))
qed

theorem check_quota_after_calls_witness:
  "map_sum id qu_tokens_used (check_quota (thirty_days + 9) ''u'' ''free''
      (bsys_quota (fold usage_apply [sample_call ''u'' ''m'' 1, sample_call ''u'' ''m'' (thirty_days + 8)]
        (billing_new [plan_free])))) = Inr 0"
  by (subst check_quota_after_calls [where plan = plan_free and c = "sample_call ''u'' ''m'' 1"
        and us = "[sample_call ''u'' ''m'' (thirty_days + 8)]"])
    (simp_all add: sample_call_def get_plan_def quota_manager_new_def plan_free_def)

text \<open>Below the wrap-around a request has quota exactly when its tokens fit into what remains and
  a request is left; beyond it, an estimate large enough wraps around and is accepted.\<close>

theorem has_quota_exact:
  "(unat (qu_tokens_used q) + unat est < 2 ^ 64 \<longrightarrow>
      (has_quota est q \<longleftrightarrow> unat (qu_tokens_used q) + unat est \<le> unat (qu_token_quota q)
        \<and> remaining_requests q \<noteq> 0))
   \<and> (2 ^ 64 \<le> unat (qu_tokens_used q) + unat est \<longrightarrow>
      (has_quota est q \<longleftrightarrow> unat (qu_tokens_used q) + unat est - 2 ^ 64 \<le> unat (qu_token_quota q)
        \<and> remaining_requests q \<noteq> 0))"
proof -
  have requests: "remaining_requests q \<noteq> 0 \<longleftrightarrow> qu_requests_used q < qu_request_limit q"
    by (auto simp: remaining_requests_def saturating_sub_def not_le)
  have sum: "unat (qu_tokens_used q + est) = (unat (qu_tokens_used q) + unat est) mod 2 ^ 64"
    by (simp add: unat_word_ariths)
  have lt: "unat (qu_tokens_used q) < 2 ^ 64" "unat est < 2 ^ 64"
    using unsigned_less [of "qu_tokens_used q"] unsigned_less [of est] by simp_all
  show ?thesis
    unfolding has_quota_def requests word_le_nat_alt sum using lt by (auto simp: le_mod_geq)
qed

theorem has_quota_exact_witness:
  "has_quota 18446744073709551611 \<lparr>qu_user_id = ''u'', qu_tier = ''free'', qu_tokens_used = 10, qu_token_quota = 100,
     qu_requests_used = 0, qu_request_limit = 1, qu_reset_at = 0\<rparr>"
  using has_quota_exact [of "\<lparr>qu_user_id = ''u'', qu_tier = ''free'', qu_tokens_used = 10, qu_token_quota = 100,
     qu_requests_used = 0, qu_request_limit = 1, qu_reset_at = 0\<rparr>" 18446744073709551611]
  by (simp add: remaining_requests_def saturating_sub_def)

text \<open>Reading a tier and printing it gives the text back, and printing and reading gives the tier
  back unless it is a custom tier with the name of a built-in one.\<close>

lemma tier_round_trip:
  "tier_str (tier_parse s) = s
    \<and> (tier_parse (tier_str t) = t \<longleftrightarrow> t \<notin> Custom ` {''free'', ''basic'', ''pro'', ''enterprise''})"
  by (cases t) (auto simp: tier_parse_def)

lemma model_usage_after:
  "hm_get (fold add_model_usage rs []) model = (case filter (\<lambda>r. ur_model r = model) rs of [] \<Rightarrow> None
    | k # ks \<Rightarrow> Some \<lparr>mu_model = model, mu_requests = of_nat (length (k # ks)),
        mu_input_tokens = sum_list (map ur_input_tokens (k # ks)),
        mu_output_tokens = sum_list (map ur_output_tokens (k # ks)),
        mu_total_tokens = sum_list (map ur_total_tokens (k # ks))\<rparr>)
   \<and> hm_ok (fold add_model_usage rs [])"
proof (induction rs rule: rev_induct)
  case Nil
  then show ?case by simp
next
  case (snoc r rs)
  show ?case
  proof (cases "ur_model r = model")
    case True
    with snoc show ?thesis
      by (cases "filter (\<lambda>r. ur_model r = model) rs")
        (simp_all add: add_model_usage_def Let_def add.commute add.left_commute)
  next
    case False
    with snoc show ?thesis by (simp add: add_model_usage_def Let_def)
  qed
qed

lemma set_model_usage:
  "u \<in> set (hm_values (fold add_model_usage rs [])) \<longleftrightarrow>
    (let ks = filter (\<lambda>r. ur_model r = mu_model u) rs in ks \<noteq> [] \<and>
      u = \<lparr>mu_model = mu_model u, mu_requests = of_nat (length ks), mu_input_tokens = sum_list (map ur_input_tokens ks),
        mu_output_tokens = sum_list (map ur_output_tokens ks), mu_total_tokens = sum_list (map ur_total_tokens ks)\<rparr>)"
proof -
  let ?m = "fold add_model_usage rs []"
  have ok: "hm_ok ?m" using model_usage_after by blast
  have key: "mu_model u = k" if "hm_get ?m k = Some u" for k
    using that model_usage_after [of rs k] by (auto split: list.splits)
  have "u \<in> set (hm_values ?m) \<longleftrightarrow> (\<exists>k. hm_get ?m k = Some u)"
    by (force simp flip: hm_ok_mem [OF ok])
  also have "\<dots> \<longleftrightarrow> hm_get ?m (mu_model u) = Some u"
    using key by blast
  finally show ?thesis
    using model_usage_after [of rs "mu_model u"] by (auto simp: Let_def split: list.splits)
qed

text \<open>A report counts the calls of the user from the start of its period up to now, with one
  entry of exact sums (modulo \<open>2 ^ 64\<close>) for each model that was called; the end of a custom
  period is not looked at.\<close>

theorem report_exact:
  assumes "generate_report now user period t = Inr rep"
    and "F = filter (\<lambda>r. ur_user_id r = user \<and> period_start_of now period \<le> ur_timestamp r \<and> ur_timestamp r \<le> now)
      (ut_records t)"
  shows "rep_total_requests rep = of_nat (length F)
    \<and> rep_total_tokens rep = sum_list (map ur_input_tokens F) + sum_list (map ur_output_tokens F)
    \<and> (u \<in> set (rep_per_model rep) \<longleftrightarrow>
        (let ks = filter (\<lambda>r. ur_model r = mu_model u) F in ks \<noteq> [] \<and>
          u = \<lparr>mu_model = mu_model u, mu_requests = of_nat (length ks),
            mu_input_tokens = sum_list (map ur_input_tokens ks),
            mu_output_tokens = sum_list (map ur_output_tokens ks),
            mu_total_tokens = sum_list (map ur_total_tokens ks)\<rparr>))"
proof -
  have "filter (\<lambda>r. ur_timestamp r \<ge> period_start_of now period \<and> ur_timestamp r \<le> now)
      (filter (\<lambda>r. ur_user_id r = user) (ut_records t)) = F"
    unfolding assms(2) filter_filter by (rule filter_cong) auto
  with assms(1) have rep: "rep = \<lparr>rep_user_id = user, rep_period = period, rep_generated_at = now,
      rep_total_requests = of_nat (length F), rep_total_input_tokens = sum_list (map ur_input_tokens F),
      rep_total_output_tokens = sum_list (map ur_output_tokens F),
      rep_total_tokens = sum_list (map ur_input_tokens F) + sum_list (map ur_output_tokens F),
      rep_per_model = rev (sort_key mu_total_tokens (rev (hm_values (fold add_model_usage F []))))\<rparr>"
    by (auto simp: generate_report_def get_records_def Let_def simp del: filter_filter split: if_splits)
  have "set (rep_per_model rep) = set (hm_values (fold add_model_usage F []))"
    unfolding rep usage_report.simps set_rev set_sort ..
  then show ?thesis using set_model_usage [of u F] by (simp add: rep)
qed

theorem report_exact_witness:
  "map_sum id rep_total_requests (generate_report 100 ''u'' (CustomPeriod 0 5)
    (bsys_tracker (usage_apply (sample_call ''u'' ''m'' 50) (billing_new [])))) = Inr 1"
proof -
  let ?t = "bsys_tracker (usage_apply (sample_call ''u'' ''m'' 50) (billing_new []))"
  have t: "ut_records ?t = [usage_record_new 1 50 ''u'' ''m'' 10 5]"
    by (simp add: usage_apply_def record_usage_def tracker_record_def sample_call_def billing_new_def
        tracker_new_def Let_def)
  then obtain rep where rep: "generate_report 100 ''u'' (CustomPeriod 0 5) ?t = Inr rep"
    by (simp add: generate_report_def get_records_def usage_record_new_def Let_def)
  from report_exact [OF this refl] show ?thesis
    by (simp add: rep t usage_record_new_def)
qed

end
