(* ===== verification/Gossip.thy ===== *)
theory Gossip
  imports Core
begin

text \<open>
  The gossip engine of the federation (crate \<open>federation\<close>, \<open>gossip.rs\<close>): the member table of
  a node, how it merges the tables other nodes send, and the timers that suspect, bury and
  remove members.

  The clock (in nanoseconds) is an argument, one reading per operation. The random choice of a
  ping target and the outcome of the ping, which another component supplies, are arguments. The
  incarnation number is a \<open>u64\<close> and wraps around as in a release build. The ping loop awaits
  the reply between choosing a target and using it, so these are operations of their own here.
\<close>

section \<open>Members\<close>

datatype gossip_state = Alive | Suspect | GossipDead

record gossip_member =
  gm_node_id :: string
  gm_addr :: string
  gm_state :: gossip_state
  gm_incarnation :: "64 word"
  gm_last_updated :: int
  gm_metadata :: "(string, string) hmap"

definition gossip_member_new :: "int \<Rightarrow> string \<Rightarrow> string \<Rightarrow> gossip_member" where
  "gossip_member_new now node_id addr = \<lparr>gm_node_id = node_id, gm_addr = addr, gm_state = Alive,
     gm_incarnation = 0, gm_last_updated = now, gm_metadata = []\<rparr>"

definition gossip_merge :: "int \<Rightarrow> gossip_member \<Rightarrow> gossip_member \<Rightarrow> bool \<times> gossip_member" where
  "gossip_merge now other self =
     (if gm_incarnation other > gm_incarnation self
         \<or> (gm_incarnation other = gm_incarnation self \<and> gm_state other \<noteq> gm_state self)
      then (True, self\<lparr>gm_state := gm_state other, gm_incarnation := gm_incarnation other,
              gm_last_updated := now, gm_metadata := gm_metadata other\<rparr>)
      else (False, self))"

datatype gossip_event =
    MemberJoined gossip_member | MemberUpdated gossip_member
  | MemberLeft gossip_member | MemberSuspected gossip_member

record gossip_config =
  gc_ping_interval_secs :: nat
  gc_ping_timeout_secs :: nat
  gc_suspect_timeout_secs :: nat
  gc_full_sync_interval_secs :: nat
  gc_cleanup_interval_secs :: nat
  gc_dead_node_ttl_secs :: nat

definition gossip_config_default :: gossip_config where
  "gossip_config_default = \<lparr>gc_ping_interval_secs = 1, gc_ping_timeout_secs = 3,
     gc_suspect_timeout_secs = 10, gc_full_sync_interval_secs = 30,
     gc_cleanup_interval_secs = 60, gc_dead_node_ttl_secs = 120\<rparr>"

definition from_secs :: "nat \<Rightarrow> int" where
  "from_secs n = int n * 1000000000"

section \<open>The engine\<close>

text \<open>\<open>ge_events\<close> is what was sent to the event channel; \<open>ge_receiver\<close> says that its receiver
  has not been taken.\<close>

record gossip_engine =
  ge_local_id :: string
  ge_local_addr :: string
  ge_members :: "(string, gossip_member) hmap"
  ge_events :: "gossip_event list"
  ge_receiver :: bool
  ge_config :: gossip_config

definition gossip_new :: "int \<Rightarrow> string \<Rightarrow> string \<Rightarrow> gossip_engine" where
  "gossip_new now local_id local_addr = \<lparr>ge_local_id = local_id, ge_local_addr = local_addr,
     ge_members = [(local_id, gossip_member_new now local_id local_addr)], ge_events = [],
     ge_receiver = True, ge_config = gossip_config_default\<rparr>"

definition gossip_with_config :: "gossip_config \<Rightarrow> gossip_engine \<Rightarrow> gossip_engine" where
  "gossip_with_config c e = e\<lparr>ge_config := c\<rparr>"

definition take_event_rx :: "gossip_engine \<Rightarrow> bool \<times> gossip_engine" where
  "take_event_rx e = (ge_receiver e, e\<lparr>ge_receiver := False\<rparr>)"

definition send_event :: "gossip_event \<Rightarrow> gossip_engine \<Rightarrow> gossip_engine" where
  "send_event ev e = e\<lparr>ge_events := ge_events e @ [ev]\<rparr>"

definition add_seed :: "int \<Rightarrow> string \<Rightarrow> string \<Rightarrow> gossip_engine \<Rightarrow> gossip_engine" where
  "add_seed now node_id addr e =
     (if hm_has node_id (ge_members e) then e
      else (let member = gossip_member_new now node_id addr
            in send_event (MemberJoined member) (e\<lparr>ge_members := hm_insert node_id member (ge_members e)\<rparr>)))"

fun event_of :: "gossip_member \<Rightarrow> gossip_event" where
  "event_of m = (case gm_state m of Alive \<Rightarrow> MemberJoined m | Suspect \<Rightarrow> MemberSuspected m
     | GossipDead \<Rightarrow> MemberLeft m)"

text \<open>One round of the loop over the members of a message, and the message.\<close>

definition merge_entry :: "int \<Rightarrow> gossip_member \<Rightarrow> gossip_engine \<Rightarrow> gossip_engine" where
  "merge_entry now remote e =
     (if gm_node_id remote = ge_local_id e then e
      else (let (changed, members) =
          (case hm_get (ge_members e) (gm_node_id remote) of
             Some local \<Rightarrow>
               (let (changed, local') = gossip_merge now remote local
                in (changed, if changed then hm_insert (gm_node_id remote) local' (ge_members e)
                      else ge_members e))
           | None \<Rightarrow> (True, hm_insert (gm_node_id remote) remote (ge_members e)))
        in if changed then send_event (event_of remote) (e\<lparr>ge_members := members\<rparr>)
           else e\<lparr>ge_members := members\<rparr>))"

definition handle_gossip_message :: "int \<Rightarrow> gossip_member list \<Rightarrow> gossip_engine \<Rightarrow> gossip_engine" where
  "handle_gossip_message now remote_members e = fold (merge_entry now) remote_members e"

definition get_members :: "gossip_engine \<Rightarrow> gossip_member list" where
  "get_members e = hm_values (ge_members e)"

definition get_alive_members :: "gossip_engine \<Rightarrow> gossip_member list" where
  "get_alive_members e = filter (\<lambda>m. gm_state m = Alive) (hm_values (ge_members e))"

definition get_local_member :: "int \<Rightarrow> gossip_engine \<Rightarrow> gossip_member" where
  "get_local_member now e = (case hm_get (ge_members e) (ge_local_id e) of
     Some m \<Rightarrow> m | None \<Rightarrow> gossip_member_new now (ge_local_id e) (ge_local_addr e))"

definition mark_suspect :: "string \<Rightarrow> gossip_engine \<Rightarrow> gossip_engine" where
  "mark_suspect node_id e = (case hm_get (ge_members e) node_id of
     None \<Rightarrow> e
   | Some m \<Rightarrow> if gm_state m \<noteq> GossipDead
       then (let m' = m\<lparr>gm_state := Suspect, gm_incarnation := gm_incarnation m + 1\<rparr>
             in send_event (MemberSuspected m') (e\<lparr>ge_members := hm_insert node_id m' (ge_members e)\<rparr>))
       else e)"

definition mark_dead :: "string \<Rightarrow> gossip_engine \<Rightarrow> gossip_engine" where
  "mark_dead node_id e = (case hm_get (ge_members e) node_id of
     None \<Rightarrow> e
   | Some m \<Rightarrow> (let m' = m\<lparr>gm_state := GossipDead, gm_incarnation := gm_incarnation m + 1\<rparr>
       in send_event (MemberLeft m') (e\<lparr>ge_members := hm_insert node_id m' (ge_members e)\<rparr>)))"

section \<open>The loop\<close>

text \<open>A ping: the target among the living members other than the node itself (\<open>choice\<close> is the
  random number), and what is done when the reply is there.\<close>

definition ping_peers :: "gossip_engine \<Rightarrow> gossip_member list" where
  "ping_peers e = filter (\<lambda>m. gm_node_id m \<noteq> ge_local_id e) (get_alive_members e)"

definition ping_target :: "nat \<Rightarrow> gossip_engine \<Rightarrow> gossip_member option" where
  "ping_target choice e = (if ping_peers e = [] then None
     else Some (ping_peers e ! (choice mod length (ping_peers e))))"

datatype ping_outcome = PingReply "gossip_member list" | PingError ls_error | PingTimeout

definition ping_done :: "int \<Rightarrow> gossip_member \<Rightarrow> ping_outcome \<Rightarrow> gossip_engine \<Rightarrow> gossip_engine" where
  "ping_done now target outcome e = (case outcome of
     PingReply remote_members \<Rightarrow> handle_gossip_message now remote_members e
   | PingError _ \<Rightarrow> e
   | PingTimeout \<Rightarrow> mark_suspect (gm_node_id target) e)"

text \<open>The clean-up: suspects that have not been updated for the suspicion time are marked dead, dead
  members that have not been updated for their time are removed.\<close>

definition older_ids :: "gossip_state \<Rightarrow> int \<Rightarrow> nat \<Rightarrow> gossip_engine \<Rightarrow> string list" where
  "older_ids st now secs e = map gm_node_id
     (filter (\<lambda>m. gm_state m = st \<and> now - gm_last_updated m > from_secs secs) (hm_values (ge_members e)))"

definition bury_suspects :: "int \<Rightarrow> gossip_engine \<Rightarrow> gossip_engine" where
  "bury_suspects now e = fold mark_dead (older_ids Suspect now (gc_suspect_timeout_secs (ge_config e)) e) e"

definition remove_dead :: "int \<Rightarrow> gossip_engine \<Rightarrow> gossip_engine" where
  "remove_dead now e = e\<lparr>ge_members := fold hm_remove
     (older_ids GossipDead now (gc_dead_node_ttl_secs (ge_config e)) e) (ge_members e)\<rparr>"

definition cleanup_tick :: "int \<Rightarrow> gossip_engine \<Rightarrow> gossip_engine" where
  "cleanup_tick now e = remove_dead now (bury_suspects now e)"

section \<open>What the operations do to the table\<close>

text \<open>The table is keyed by the node identifiers.\<close>

definition gossip_wf :: "gossip_engine \<Rightarrow> bool" where
  "gossip_wf e \<longleftrightarrow> hm_ok (ge_members e) \<and> (\<forall>k m. hm_get (ge_members e) k = Some m \<longrightarrow> gm_node_id m = k)"

lemma send_event_simps [simp]:
  "ge_members (send_event ev e) = ge_members e" "ge_local_id (send_event ev e) = ge_local_id e"
  "ge_config (send_event ev e) = ge_config e" "ge_events (send_event ev e) = ge_events e @ [ev]"
  by (simp_all add: send_event_def)

lemma merge_entry_members:
  "ge_members (merge_entry now r e) =
    (if gm_node_id r = ge_local_id e then ge_members e
     else case hm_get (ge_members e) (gm_node_id r) of
       None \<Rightarrow> hm_insert (gm_node_id r) r (ge_members e)
     | Some l \<Rightarrow> if fst (gossip_merge now r l)
         then hm_insert (gm_node_id r) (snd (gossip_merge now r l)) (ge_members e) else ge_members e)"
  by (simp add: merge_entry_def Let_def split: option.splits prod.splits)

lemma merge_entry_get:
  "hm_get (ge_members (merge_entry now r e)) k =
    (if k = gm_node_id r \<and> k \<noteq> ge_local_id e
     then Some (case hm_get (ge_members e) k of None \<Rightarrow> r | Some l \<Rightarrow> snd (gossip_merge now r l))
     else hm_get (ge_members e) k)"
  by (auto simp: merge_entry_members gossip_merge_def split: option.splits)

lemma merge_entry_local [simp]:
  "ge_local_id (merge_entry now r e) = ge_local_id e" "ge_config (merge_entry now r e) = ge_config e"
  by (simp_all add: merge_entry_def Let_def split: option.splits prod.splits)

lemma gossip_merge_id [simp]: "gm_node_id (snd (gossip_merge now r l)) = gm_node_id l"
  by (simp add: gossip_merge_def)

lemma gossip_merge_incarnation:
  "gm_incarnation (snd (gossip_merge now r l)) = max (gm_incarnation l) (gm_incarnation r)"
  by (auto simp: gossip_merge_def max_def)

lemma merge_entry_wf:
  assumes "gossip_wf e"
  shows "gossip_wf (merge_entry now r e)"
proof -
  have "hm_ok (ge_members (merge_entry now r e))"
    using assms by (simp add: gossip_wf_def merge_entry_members split: option.splits)
  with assms show ?thesis by (auto simp: gossip_wf_def merge_entry_get split: option.splits if_splits)
qed

lemma handle_message_wf: "gossip_wf e \<Longrightarrow> gossip_wf (handle_gossip_message now ms e)"
  unfolding handle_gossip_message_def by (induction ms arbitrary: e) (simp_all add: merge_entry_wf)

lemma mark_dead_get:
  "hm_get (ge_members (mark_dead i e)) k = (if k = i then map_option
      (\<lambda>m. m\<lparr>gm_state := GossipDead, gm_incarnation := gm_incarnation m + 1\<rparr>) (hm_get (ge_members e) k)
    else hm_get (ge_members e) k)"
  by (simp add: mark_dead_def Let_def split: option.splits)

lemma mark_suspect_get:
  "hm_get (ge_members (mark_suspect i e)) k = (if k = i then map_option
      (\<lambda>m. if gm_state m = GossipDead then m
        else m\<lparr>gm_state := Suspect, gm_incarnation := gm_incarnation m + 1\<rparr>) (hm_get (ge_members e) k)
    else hm_get (ge_members e) k)"
  by (simp add: mark_suspect_def Let_def split: option.splits)

lemma mark_simps [simp]:
  "ge_config (mark_dead i e) = ge_config e" "ge_local_id (mark_dead i e) = ge_local_id e"
  "ge_config (mark_suspect i e) = ge_config e" "ge_local_id (mark_suspect i e) = ge_local_id e"
  by (simp_all add: mark_dead_def mark_suspect_def Let_def split: option.splits)

lemma mark_dead_ok: "hm_ok (ge_members e) \<Longrightarrow> hm_ok (ge_members (mark_dead i e))"
  by (simp add: mark_dead_def Let_def split: option.splits)

lemma mark_suspect_ok: "hm_ok (ge_members e) \<Longrightarrow> hm_ok (ge_members (mark_suspect i e))"
  by (simp add: mark_suspect_def Let_def split: option.splits)

lemma mark_dead_wf: "gossip_wf e \<Longrightarrow> gossip_wf (mark_dead i e)"
  by (auto simp: gossip_wf_def mark_dead_ok mark_dead_get)

lemma mark_suspect_wf: "gossip_wf e \<Longrightarrow> gossip_wf (mark_suspect i e)"
  by (auto simp: gossip_wf_def mark_suspect_ok mark_suspect_get split: if_splits)

lemma fold_mark_dead_wf: "gossip_wf e \<Longrightarrow> gossip_wf (fold mark_dead ids e)"
  by (induction ids arbitrary: e) (simp_all add: mark_dead_wf)

lemma fold_mark_dead_config [simp]: "ge_config (fold mark_dead ids e) = ge_config e"
  by (induction ids arbitrary: e) simp_all

lemma fold_remove_get: "hm_get (fold hm_remove ids t) k = (if k \<in> set ids then None else hm_get t k)"
  by (induction ids arbitrary: t) auto

lemma fold_remove_ok: "hm_ok t \<Longrightarrow> hm_ok (fold hm_remove ids t)"
  by (induction ids arbitrary: t) simp_all

lemma remove_dead_wf: "gossip_wf e \<Longrightarrow> gossip_wf (remove_dead now e)"
  by (simp add: gossip_wf_def remove_dead_def fold_remove_ok fold_remove_get)

lemma cleanup_wf: "gossip_wf e \<Longrightarrow> gossip_wf (cleanup_tick now e)"
  by (simp add: cleanup_tick_def bury_suspects_def fold_mark_dead_wf remove_dead_wf)

lemma older_ids_iff:
  assumes "gossip_wf e"
  shows "k \<in> set (older_ids st now secs e) \<longleftrightarrow>
    (\<exists>m. hm_get (ge_members e) k = Some m \<and> gm_state m = st \<and> now - gm_last_updated m > from_secs secs)"
proof -
  have ok: "hm_ok (ge_members e)" and key: "\<And>k m. hm_get (ge_members e) k = Some m \<Longrightarrow> gm_node_id m = k"
    using assms by (auto simp: gossip_wf_def)
  have "k \<in> set (older_ids st now secs e) \<longleftrightarrow> (\<exists>j m. (j, m) \<in> set (ge_members e) \<and> gm_node_id m = k
      \<and> gm_state m = st \<and> now - gm_last_updated m > from_secs secs)"
    by (force simp: older_ids_def)
  then show ?thesis using key unfolding hm_ok_mem [OF ok] by blast
qed

end
