(* ===== verification/Gossip_Net.thy ===== *)
theory Gossip_Net
  imports Gossip
begin

text \<open>
  What the gossip engine guarantees: the merge of a message, the clean-up, and a network of
  engines that exchange their tables. The network is a step relation: any node may send its table
  at any time, a table that was sent may be delivered to any node, any number of times and
  arbitrarily late.
\<close>

section \<open>The clean-up\<close>

lemma distinct_older_ids:
  assumes "gossip_wf e"
  shows "distinct (older_ids st now secs e)"
proof -
  have ok: "hm_ok (ge_members e)" and key: "\<And>k m. (k, m) \<in> set (ge_members e) \<Longrightarrow> gm_node_id m = k"
    using assms by (auto simp: gossip_wf_def hm_ok_mem)
  let ?P = "\<lambda>m. gm_state m = st \<and> now - gm_last_updated m > from_secs secs"
  have "map gm_node_id (filter ?P (map snd t)) = map fst (filter (?P \<circ> snd) t)"
    if "\<And>k m. (k, m) \<in> set t \<Longrightarrow> gm_node_id m = k" for t
    using that by (induction t) auto
  from this [OF key] have "older_ids st now secs e = map fst (filter (?P \<circ> snd) (ge_members e))"
    by (simp add: older_ids_def)
  then show ?thesis using ok by (simp add: hm_ok_def distinct_map_filter)
qed

lemma fold_mark_dead_get:
  "distinct ids \<Longrightarrow> hm_get (ge_members (fold mark_dead ids e)) k =
    (if k \<in> set ids then map_option (\<lambda>m. m\<lparr>gm_state := GossipDead, gm_incarnation := gm_incarnation m + 1\<rparr>)
        (hm_get (ge_members e) k)
     else hm_get (ge_members e) k)"
  by (induction ids arbitrary: e) (auto simp: mark_dead_get)

lemma bury_get:
  assumes "gossip_wf e"
  shows "hm_get (ge_members (bury_suspects now e)) k = (case hm_get (ge_members e) k of None \<Rightarrow> None | Some m \<Rightarrow>
    if gm_state m = Suspect \<and> now - gm_last_updated m > from_secs (gc_suspect_timeout_secs (ge_config e))
    then Some (m\<lparr>gm_state := GossipDead, gm_incarnation := gm_incarnation m + 1\<rparr>) else Some m)"
  unfolding bury_suspects_def fold_mark_dead_get [OF distinct_older_ids [OF assms]]
    older_ids_iff [OF assms] by (auto split: option.splits)

lemma bury_wf: "gossip_wf e \<Longrightarrow> gossip_wf (bury_suspects now e)"
  by (simp add: bury_suspects_def fold_mark_dead_wf)

lemma bury_config [simp]: "ge_config (bury_suspects now e) = ge_config e"
  by (simp add: bury_suspects_def)

text \<open>One clean-up buries exactly the suspects whose last update is longer ago than the suspicion
  time, with one incarnation more, and removes exactly the dead, those just buried included, whose
  last update is longer ago than their time to live; every other entry stays as it is.\<close>

theorem cleanup_exact:
  assumes "gossip_wf e"
  shows "hm_get (ge_members (cleanup_tick now e)) k = (case hm_get (ge_members e) k of
      None \<Rightarrow> None
    | Some m \<Rightarrow>
        (let age = now - gm_last_updated m;
             buried = (gm_state m = Suspect \<and> age > from_secs (gc_suspect_timeout_secs (ge_config e)))
         in if (buried \<or> gm_state m = GossipDead) \<and> age > from_secs (gc_dead_node_ttl_secs (ge_config e)) then None
            else if buried then Some (m\<lparr>gm_state := GossipDead, gm_incarnation := gm_incarnation m + 1\<rparr>)
            else Some m))"
  by (auto simp: cleanup_tick_def remove_dead_def fold_remove_get older_ids_iff [OF bury_wf [OF assms]]
      bury_get [OF assms] Let_def split: option.splits if_splits)

definition sample_gossip :: gossip_engine where
  "sample_gossip = add_seed 0 ''b'' ''addr'' (gossip_new 0 ''a'' ''here'')"

lemma gossip_new_wf: "gossip_wf (gossip_new now i a)"
  by (simp add: gossip_wf_def gossip_new_def gossip_member_new_def)

lemma add_seed_wf: "gossip_wf e \<Longrightarrow> gossip_wf (add_seed now i a e)"
  by (auto simp: gossip_wf_def add_seed_def gossip_member_new_def Let_def)

lemma sample_gossip_wf: "gossip_wf sample_gossip"
  unfolding sample_gossip_def by (intro add_seed_wf gossip_new_wf)

lemmas eval_gossip = sample_gossip_def add_seed_def gossip_new_def gossip_member_new_def
  gossip_config_default_def from_secs_def Let_def

theorem cleanup_exact_witness:
  "map_option gm_state (hm_get (ge_members (cleanup_tick 11000000000 (mark_suspect ''b'' sample_gossip))) ''b'')
    = Some GossipDead"
  by (subst cleanup_exact [OF mark_suspect_wf [OF sample_gossip_wf]])
    (simp add: mark_suspect_get, simp add: mark_suspect_def eval_gossip)

text \<open>Suspicion gives no time to recover: a living member that was not updated for longer than the
  two times of the configuration, which is the normal state of a stable cluster since a merge
  updates an entry only if something changed, is removed by the first clean-up after one ping to it
  timed out.\<close>

theorem timeout_then_cleanup_removes:
  assumes "gossip_wf e" "hm_get (ge_members e) (gm_node_id t) = Some m"
    and "now - gm_last_updated m > from_secs (gc_suspect_timeout_secs (ge_config e))"
    and "now - gm_last_updated m > from_secs (gc_dead_node_ttl_secs (ge_config e))"
  shows "hm_get (ge_members (cleanup_tick now (ping_done ping_time t PingTimeout e))) (gm_node_id t) = None"
  using assms(2-4)
  by (simp add: ping_done_def cleanup_exact [OF mark_suspect_wf [OF assms(1)]] mark_suspect_get Let_def)

theorem timeout_then_cleanup_removes_witness:
  "hm_get (ge_members (cleanup_tick 121000000000 (ping_done 120999999999
      (gossip_member_new 0 ''b'' ''addr'') PingTimeout sample_gossip))) ''b'' = None"
  using timeout_then_cleanup_removes [OF sample_gossip_wf, of "gossip_member_new 0 ''b'' ''addr''"
      "gossip_member_new 0 ''b'' ''addr''" 121000000000 120999999999]
  by (simp add: eval_gossip)

section \<open>Messages\<close>

lemma fold_merge_local [simp]: "ge_local_id (fold (merge_entry now) ms e) = ge_local_id e"
  by (induction ms arbitrary: e) simp_all

lemma fold_merge_other:
  "k \<notin> gm_node_id ` set ms \<or> k = ge_local_id e \<Longrightarrow>
    hm_get (ge_members (fold (merge_entry now) ms e)) k = hm_get (ge_members e) k"
  by (induction ms arbitrary: e) (auto simp: merge_entry_get)

text \<open>What a member of the table is after one entry of a message.\<close>

definition after_entry :: "int \<Rightarrow> gossip_member \<Rightarrow> gossip_member option \<Rightarrow> gossip_member" where
  "after_entry now r local = (case local of None \<Rightarrow> r | Some l \<Rightarrow> snd (gossip_merge now r l))"

definition entry_changes :: "int \<Rightarrow> gossip_engine \<Rightarrow> gossip_member \<Rightarrow> bool" where
  "entry_changes now e r \<longleftrightarrow> gm_node_id r \<noteq> ge_local_id e
     \<and> (case hm_get (ge_members e) (gm_node_id r) of None \<Rightarrow> True | Some l \<Rightarrow> fst (gossip_merge now r l))"

lemma fold_merge_get:
  assumes "distinct (map gm_node_id ms)"
  shows "hm_get (ge_members (fold (merge_entry now) ms e)) k =
    (case find (\<lambda>r. gm_node_id r = k) ms of
       None \<Rightarrow> hm_get (ge_members e) k
     | Some r \<Rightarrow> if k = ge_local_id e then hm_get (ge_members e) k
         else Some (after_entry now r (hm_get (ge_members e) k)))"
  using assms
proof (induction ms arbitrary: e)
  case Nil
  then show ?case by simp
next
  case (Cons r ms)
  then have ms: "distinct (map gm_node_id ms)" and fresh: "gm_node_id r \<notin> gm_node_id ` set ms" by auto
  show ?case
  proof (cases "gm_node_id r = k")
    case True
    with fresh have "hm_get (ge_members (fold (merge_entry now) ms (merge_entry now r e))) k =
        hm_get (ge_members (merge_entry now r e)) k" by (intro fold_merge_other) simp
    with True show ?thesis by (auto simp: merge_entry_get after_entry_def)
  next
    case False
    then have "hm_get (ge_members (merge_entry now r e)) k = hm_get (ge_members e) k"
      by (auto simp: merge_entry_get)
    with False show ?thesis by (auto simp: Cons.IH [OF ms] split: option.split)
  qed
qed

lemma merge_entry_events:
  "ge_events (merge_entry now r e) = ge_events e @ (if entry_changes now e r then [event_of r] else [])"
  by (auto simp: merge_entry_def entry_changes_def Let_def simp del: event_of.simps split: option.splits prod.splits)

lemma fold_merge_events:
  assumes "distinct (map gm_node_id ms)"
  shows "ge_events (fold (merge_entry now) ms e) = ge_events e @ map event_of (filter (entry_changes now e) ms)"
  using assms
proof (induction ms arbitrary: e)
  case Nil
  then show ?case by simp
next
  case (Cons r ms)
  then have ms: "distinct (map gm_node_id ms)" and fresh: "\<And>s. s \<in> set ms \<Longrightarrow> gm_node_id s \<noteq> gm_node_id r"
    by (auto simp: image_iff)
  have "filter (entry_changes now (merge_entry now r e)) ms = filter (entry_changes now e) ms"
    using fresh by (intro filter_cong) (simp_all add: entry_changes_def merge_entry_get)
  with Cons.IH [OF ms, of "merge_entry now r e"] show ?case by (simp add: merge_entry_events)
qed

lemma merge_again: "\<not> fst (gossip_merge now' r (snd (gossip_merge now r l)))"
  by (auto simp: gossip_merge_def)

lemma merge_self: "\<not> fst (gossip_merge now r r)"
  by (simp add: gossip_merge_def)

lemma find_eq_Some:
  "distinct (map f xs) \<Longrightarrow> find (\<lambda>x. f x = k) xs = Some r \<longleftrightarrow> r \<in> set xs \<and> f r = k"
  by (induction xs) auto

text \<open>A message that names no node twice leaves the entry of the node itself and of the nodes it
  does not name, adds the nodes that are unknown, and replaces state, incarnation and metadata of
  a known one exactly when the incarnation sent is higher, or the same with another state; one
  event is sent for each entry that changed the table, in the order of the message; and the same
  message received again changes nothing and sends nothing.\<close>

theorem message_exact:
  assumes "distinct (map gm_node_id ms)"
  shows "hm_get (ge_members (handle_gossip_message now ms e)) k =
      (case find (\<lambda>r. gm_node_id r = k) ms of
         None \<Rightarrow> hm_get (ge_members e) k
       | Some r \<Rightarrow> if k = ge_local_id e then hm_get (ge_members e) k
           else Some (case hm_get (ge_members e) k of
             None \<Rightarrow> r
           | Some l \<Rightarrow> if gm_incarnation r > gm_incarnation l
                 \<or> gm_incarnation r = gm_incarnation l \<and> gm_state r \<noteq> gm_state l
               then l\<lparr>gm_state := gm_state r, gm_incarnation := gm_incarnation r,
                     gm_last_updated := now, gm_metadata := gm_metadata r\<rparr>
               else l))
    \<and> ge_events (handle_gossip_message now ms e) = ge_events e @ map event_of (filter (entry_changes now e) ms)
    \<and> hm_get (ge_members (handle_gossip_message now' ms (handle_gossip_message now ms e))) k =
      hm_get (ge_members (handle_gossip_message now ms e)) k
    \<and> ge_events (handle_gossip_message now' ms (handle_gossip_message now ms e)) =
      ge_events (handle_gossip_message now ms e)"
proof (intro conjI)
  let ?e = "fold (merge_entry now) ms e"
  have again: "\<not> entry_changes now' ?e r" if "r \<in> set ms" for r
  proof -
    have "find (\<lambda>s. gm_node_id s = gm_node_id r) ms = Some r"
      using that by (simp add: find_eq_Some [OF assms])
    then show ?thesis
      by (auto simp: entry_changes_def fold_merge_get [OF assms] after_entry_def merge_again merge_self
          split: option.splits)
  qed
  then have none: "filter (entry_changes now' ?e) ms = []" by (simp add: filter_empty_conv)
  then show "ge_events (handle_gossip_message now' ms (handle_gossip_message now ms e)) =
      ge_events (handle_gossip_message now ms e)"
    by (simp add: handle_gossip_message_def fold_merge_events [OF assms])
  show "hm_get (ge_members (handle_gossip_message now' ms (handle_gossip_message now ms e))) k =
      hm_get (ge_members (handle_gossip_message now ms e)) k"
    by (auto simp: handle_gossip_message_def fold_merge_get [OF assms] after_entry_def gossip_merge_def
        split: option.splits)
qed (auto simp: handle_gossip_message_def fold_merge_get [OF assms] fold_merge_events [OF assms]
    after_entry_def gossip_merge_def split: option.splits)

theorem message_exact_witness:
  "map_option gm_state (hm_get (ge_members (handle_gossip_message 5
      [(gossip_member_new 3 ''b'' ''x'')\<lparr>gm_state := GossipDead\<rparr>] sample_gossip)) ''b'') = Some GossipDead"
  by (subst message_exact [THEN conjunct1]) (simp_all add: eval_gossip)

text \<open>The table of a node as a message names every node once.\<close>

lemma members_distinct:
  assumes "gossip_wf e"
  shows "distinct (map gm_node_id (get_members e))"
    and "find (\<lambda>r. gm_node_id r = k) (get_members e) = hm_get (ge_members e) k"
proof -
  have ok: "hm_ok (ge_members e)" and key: "\<forall>x \<in> set (ge_members e). gm_node_id (snd x) = fst x"
    using assms by (auto simp: gossip_wf_def hm_ok_mem)
  have "map gm_node_id (get_members e) = map fst (ge_members e)"
    using key by (simp add: get_members_def)
  with ok show "distinct (map gm_node_id (get_members e))" by (simp add: hm_ok_def)
  have "find (\<lambda>r. gm_node_id r = k) (map snd t) = map_of t k" if "\<forall>x \<in> set t. gm_node_id (snd x) = fst x" for t
    using that by (induction t) auto
  from this [OF key] show "find (\<lambda>r. gm_node_id r = k) (get_members e) = hm_get (ge_members e) k"
    by (simp add: get_members_def)
qed

lemma deliver_get:
  assumes "gossip_wf f"
  shows "hm_get (ge_members (handle_gossip_message now (get_members f) e)) k =
    (if k = ge_local_id e then hm_get (ge_members e) k
     else case hm_get (ge_members f) k of None \<Rightarrow> hm_get (ge_members e) k
       | Some r \<Rightarrow> Some (after_entry now r (hm_get (ge_members e) k)))"
  unfolding handle_gossip_message_def fold_merge_get [OF members_distinct(1) [OF assms]]
    members_distinct(2) [OF assms] by (simp split: option.splits)

text \<open>C18: when a node merges the table of another one and answers with its own, the two agree on which
  other nodes are members and on the state and incarnation of each.\<close>

theorem exchange_agrees:
  assumes "gossip_wf a" "gossip_wf b" "a' = handle_gossip_message now (get_members b) a"
    and "b' = handle_gossip_message now' (get_members a') b"
    and "k \<noteq> ge_local_id a" "k \<noteq> ge_local_id b"
  shows "map_option (\<lambda>m. (gm_state m, gm_incarnation m)) (hm_get (ge_members a') k) =
    map_option (\<lambda>m. (gm_state m, gm_incarnation m)) (hm_get (ge_members b') k)"
proof -
  have "gossip_wf a'" unfolding assms(3) by (rule handle_message_wf [OF assms(1)])
  then show ?thesis
    using assms(5,6) unfolding assms(4) deliver_get [OF \<open>gossip_wf a'\<close>]
    unfolding assms(3) deliver_get [OF assms(2)]
    by (auto simp: after_entry_def gossip_merge_def split: option.splits)
qed

theorem exchange_agrees_witness:
  "let b = add_seed 0 ''c'' ''x'' (gossip_new 0 ''b'' ''there'');
       a' = handle_gossip_message 1 (get_members b) sample_gossip;
       b' = handle_gossip_message 2 (get_members a') b
   in map_option gm_state (hm_get (ge_members a') ''c'') = map_option gm_state (hm_get (ge_members b') ''c'')"
proof -
  let ?b = "add_seed 0 ''c'' ''x'' (gossip_new 0 ''b'' ''there'')"
  have id: "ge_local_id sample_gossip = ''a''" "ge_local_id ?b = ''b''" by (simp_all add: eval_gossip send_event_def)
  have wf: "gossip_wf ?b" by (intro add_seed_wf gossip_new_wf)
  note agree = exchange_agrees [OF sample_gossip_wf wf refl refl, of "''c''" 1 2]
  show ?thesis
    using arg_cong [OF agree, of "map_option fst"] unfolding id Let_def by (simp add: option.map_comp comp_def)
qed

text \<open>When the two merge each other's table at the same time, entries of the same incarnation and
  different states change places: the nodes disagree as before, and again at the next exchange.\<close>

lemma simultaneous_exchange_swaps:
  assumes "gossip_wf a" "gossip_wf b" "k \<noteq> ge_local_id a" "k \<noteq> ge_local_id b"
    and "hm_get (ge_members a) k = Some ma" "hm_get (ge_members b) k = Some mb"
    and "gm_incarnation ma = gm_incarnation mb" "gm_state ma \<noteq> gm_state mb"
  shows "map_option gm_state (hm_get (ge_members (handle_gossip_message now (get_members b) a)) k) = Some (gm_state mb)
    \<and> map_option gm_state (hm_get (ge_members (handle_gossip_message now' (get_members a) b)) k) = Some (gm_state ma)"
  unfolding deliver_get [OF assms(1)] deliver_get [OF assms(2)]
  using assms(3-8) by (auto simp: after_entry_def gossip_merge_def)

section \<open>A network of engines\<close>

text \<open>
  The engines, and the tables that were sent and may still be delivered. A node starts with
  \<open>gossip_new\<close>; from then on each step is an operation of one engine.
\<close>

record gossip_net =
  gn_nodes :: "gossip_engine list"
  gn_sent :: "gossip_member list list"

definition at_node :: "nat \<Rightarrow> (gossip_engine \<Rightarrow> gossip_engine) \<Rightarrow> gossip_net \<Rightarrow> gossip_net" where
  "at_node i f n = n\<lparr>gn_nodes := (gn_nodes n)[i := f (gn_nodes n ! i)]\<rparr>"

inductive gossip_net_step :: "gossip_net \<Rightarrow> gossip_net \<Rightarrow> bool" where
  net_start: "gossip_net_step n (n\<lparr>gn_nodes := gn_nodes n @ [gossip_with_config c (gossip_new now i a)]\<rparr>)"
| net_send: "i < length (gn_nodes n) \<Longrightarrow>
    gossip_net_step n (n\<lparr>gn_sent := get_members (gn_nodes n ! i) # gn_sent n\<rparr>)"
| net_deliver: "i < length (gn_nodes n) \<Longrightarrow> ms \<in> set (gn_sent n) \<Longrightarrow>
    gossip_net_step n (at_node i (ping_done now t (PingReply ms)) n)"
| net_timeout: "i < length (gn_nodes n) \<Longrightarrow> gossip_net_step n (at_node i (ping_done now t PingTimeout) n)"
| net_seed: "i < length (gn_nodes n) \<Longrightarrow> gossip_net_step n (at_node i (add_seed now j a) n)"
| net_dead: "i < length (gn_nodes n) \<Longrightarrow> gossip_net_step n (at_node i (mark_dead j) n)"
| net_cleanup: "i < length (gn_nodes n) \<Longrightarrow> gossip_net_step n (at_node i (cleanup_tick now) n)"

definition gossip_net_init :: "gossip_net \<Rightarrow> bool" where
  "gossip_net_init n \<longleftrightarrow> n = \<lparr>gn_nodes = [], gn_sent = []\<rparr>"

text \<open>The invariant: tables are keyed by identifier, and a living entry has incarnation 0 in every
  table and in every message.\<close>

definition entry_ok :: "gossip_member \<Rightarrow> bool" where
  "entry_ok m \<longleftrightarrow> (gm_state m = Alive \<longrightarrow> gm_incarnation m = 0)"

definition engine_ok :: "gossip_engine \<Rightarrow> bool" where
  "engine_ok e \<longleftrightarrow> gossip_wf e \<and> (\<forall>k m. hm_get (ge_members e) k = Some m \<longrightarrow> entry_ok m)"

definition gossip_net_inv :: "gossip_net \<Rightarrow> bool" where
  "gossip_net_inv n \<longleftrightarrow> (\<forall>e \<in> set (gn_nodes n). engine_ok e)
     \<and> (\<forall>ms \<in> set (gn_sent n). \<forall>m \<in> set ms. entry_ok m)"

lemma entry_ok_merge: "entry_ok r \<Longrightarrow> entry_ok l \<Longrightarrow> entry_ok (snd (gossip_merge now r l))"
  by (simp add: entry_ok_def gossip_merge_def)

lemma engine_ok_merge: "engine_ok e \<Longrightarrow> entry_ok r \<Longrightarrow> engine_ok (merge_entry now r e)"
  by (auto simp: engine_ok_def merge_entry_wf merge_entry_get entry_ok_merge split: if_splits option.splits)

lemma engine_ok_message: "engine_ok e \<Longrightarrow> \<forall>m \<in> set ms. entry_ok m \<Longrightarrow> engine_ok (handle_gossip_message now ms e)"
  unfolding handle_gossip_message_def by (induction ms arbitrary: e) (simp_all add: engine_ok_merge)

lemma engine_ok_new: "engine_ok (gossip_with_config c (gossip_new now i a))"
  by (simp add: engine_ok_def gossip_wf_def gossip_with_config_def gossip_new_def gossip_member_new_def entry_ok_def)

lemma add_seed_get:
  "hm_get (ge_members (add_seed now j a e)) k =
    (if k = j \<and> j \<notin> hm_dom (ge_members e) then Some (gossip_member_new now j a) else hm_get (ge_members e) k)"
  by (simp add: add_seed_def Let_def)

lemma engine_ok_seed: "engine_ok e \<Longrightarrow> engine_ok (add_seed now j a e)"
  by (auto simp: engine_ok_def add_seed_wf add_seed_get gossip_member_new_def entry_ok_def split: if_splits)

lemma engine_ok_suspect: "engine_ok e \<Longrightarrow> engine_ok (mark_suspect j e)"
  by (auto simp: engine_ok_def mark_suspect_wf mark_suspect_get entry_ok_def split: if_splits)

lemma engine_ok_dead: "engine_ok e \<Longrightarrow> engine_ok (mark_dead j e)"
  by (auto simp: engine_ok_def mark_dead_wf mark_dead_get entry_ok_def split: if_splits)

lemma engine_ok_cleanup: "engine_ok e \<Longrightarrow> engine_ok (cleanup_tick now e)"
  by (auto simp: engine_ok_def cleanup_wf cleanup_exact entry_ok_def Let_def split: option.splits if_splits)

lemma engine_ok_get_members: "engine_ok e \<Longrightarrow> m \<in> set (get_members e) \<Longrightarrow> entry_ok m"
  by (auto simp: engine_ok_def gossip_wf_def get_members_def hm_ok_mem)

lemma net_inv_at_node:
  assumes "gossip_net_inv n" "i < length (gn_nodes n)" "\<And>e. engine_ok e \<Longrightarrow> engine_ok (f e)"
  shows "gossip_net_inv (at_node i f n)"
  using assms set_update_subset_insert [of "gn_nodes n" i "f (gn_nodes n ! i)"]
  by (auto simp: gossip_net_inv_def at_node_def)

lemma gossip_net_inv_step: "gossip_net_step n n' \<Longrightarrow> gossip_net_inv n \<Longrightarrow> gossip_net_inv n'"
proof (induction rule: gossip_net_step.induct)
  case (net_start n c now i a)
  then show ?case by (auto simp: gossip_net_inv_def engine_ok_new)
next
  case (net_send i n)
  then show ?case by (auto simp: gossip_net_inv_def intro: engine_ok_get_members [of "gn_nodes n ! i"])
next
  case (net_deliver i n ms now t)
  have "\<forall>m \<in> set ms. entry_ok m" using net_deliver by (simp add: gossip_net_inv_def)
  with net_deliver show ?case by (intro net_inv_at_node) (simp_all add: ping_done_def engine_ok_message)
next
  case (net_timeout i n now t)
  then show ?case by (intro net_inv_at_node) (simp_all add: ping_done_def engine_ok_suspect)
next
  case (net_seed i n now j a)
  then show ?case by (intro net_inv_at_node) (simp_all add: engine_ok_seed)
next
  case (net_dead i n j)
  then show ?case by (intro net_inv_at_node) (simp_all add: engine_ok_dead)
next
  case (net_cleanup i n now)
  then show ?case by (intro net_inv_at_node) (simp_all add: engine_ok_cleanup)
qed

interpretation gossip_machine: machine gossip_net_init gossip_net_step gossip_net_inv
  by unfold_locales (simp_all add: gossip_net_init_def gossip_net_inv_def [of "\<lparr>gn_nodes = [], gn_sent = []\<rparr>"]
      gossip_net_inv_step)

text \<open>A member that is not alive, with an incarnation above 0, as the operations change it.\<close>

definition gone :: "string \<Rightarrow> gossip_engine \<Rightarrow> bool" where
  "gone k e \<longleftrightarrow> (case hm_get (ge_members e) k of None \<Rightarrow> True | Some m \<Rightarrow> gm_state m \<noteq> Alive)"

definition accused :: "string \<Rightarrow> gossip_engine \<Rightarrow> bool" where
  "accused k e \<longleftrightarrow> (\<exists>m. hm_get (ge_members e) k = Some m \<and> gm_state m \<noteq> Alive \<and> gm_incarnation m \<noteq> 0)"

lemma accused_merge: "accused k e \<Longrightarrow> entry_ok r \<Longrightarrow> accused k (merge_entry now r e)"
  by (auto simp: accused_def merge_entry_get gossip_merge_def entry_ok_def word_gt_0 split: if_splits)

lemma accused_message: "accused k e \<Longrightarrow> \<forall>m \<in> set ms. entry_ok m \<Longrightarrow> accused k (handle_gossip_message now ms e)"
  unfolding handle_gossip_message_def by (induction ms arbitrary: e) (simp_all add: accused_merge)

lemma accused_suspect: "accused k e \<Longrightarrow> gone k (mark_suspect j e)"
  by (auto simp: gone_def accused_def mark_suspect_get)

lemma accused_dead: "accused k e \<Longrightarrow> gone k (mark_dead j e)"
  by (auto simp: gone_def accused_def mark_dead_get)

lemma accused_seed: "accused k e \<Longrightarrow> gone k (add_seed now j a e)"
  by (auto simp: gone_def accused_def add_seed_get dest: hm_get_dom)

lemma accused_cleanup: "gossip_wf e \<Longrightarrow> accused k e \<Longrightarrow> gone k (cleanup_tick now e)"
  by (auto simp: gone_def accused_def cleanup_exact Let_def)

lemma accused_gone: "accused k e \<Longrightarrow> gone k e"
  by (auto simp: accused_def gone_def)


definition sample_net :: gossip_net where
  "sample_net = at_node 0 (mark_dead ''b'') (at_node 0 (add_seed 0 ''b'' ''x'')
     \<lparr>gn_nodes = [gossip_with_config gossip_config_default (gossip_new 0 ''a'' ''here'')], gn_sent = []\<rparr>)"

lemma sample_net_reaches: "reaches gossip_net_init gossip_net_step sample_net"
proof -
  let ?e = "gossip_with_config gossip_config_default (gossip_new 0 ''a'' ''here'')"
  have 0: "reaches gossip_net_init gossip_net_step \<lparr>gn_nodes = [], gn_sent = []\<rparr>"
    by (rule reaches_init) (simp add: gossip_net_init_def)
  have "gossip_net_step \<lparr>gn_nodes = [], gn_sent = []\<rparr> \<lparr>gn_nodes = [?e], gn_sent = []\<rparr>"
    using net_start [of "\<lparr>gn_nodes = [], gn_sent = []\<rparr>" gossip_config_default 0 "''a''" "''here''"] by simp
  with 0 have 1: "reaches gossip_net_init gossip_net_step \<lparr>gn_nodes = [?e], gn_sent = []\<rparr>"
    by (rule reaches_step)
  have 2: "reaches gossip_net_init gossip_net_step (at_node 0 (add_seed 0 ''b'' ''x'') \<lparr>gn_nodes = [?e], gn_sent = []\<rparr>)"
    by (rule reaches_step [OF 1], rule net_seed) simp
  show ?thesis unfolding sample_net_def
    by (rule reaches_step [OF 2], rule net_dead) (simp add: at_node_def)
qed


end
