(* ===== verification/Fed_Protocol.thy ===== *)
theory Fed_Protocol
  imports Core
begin

text \<open>
  The federation's types (crate \<open>federation\<close>, \<open>types.rs\<close>) and wire protocol
  (\<open>protocol.rs\<close>): messages and length-prefixed frames.

  A socket address and a JSON document are strings. The JSON codec (\<open>serde_json\<close>, with the UTF-8
  check of \<open>decode_frame\<close>) is a parameter: \<open>ser\<close> gives the bytes of a message or an error text,
  \<open>de\<close> reads them back. Fields of type \<open>f64\<close> (loads, average latencies), which the modelled code
  only copies, are left out.
\<close>

section \<open>Types\<close>

datatype federation_topology = Mesh | HubSpoke | Partial

fun topology_str :: "federation_topology \<Rightarrow> string" where
  "topology_str Mesh = ''mesh''"
| "topology_str HubSpoke = ''hub_spoke''"
| "topology_str Partial = ''partial''"

datatype fed_node_status = Online | Offline | Connecting | Unhealthy

datatype capability_type = CapLlmModel | CapEmbeddingModel | CapAgent | CapTool | CapResource | CapStorage | CapCustom

record capability =
  cap_id :: string
  cap_name :: string
  cap_type :: capability_type
  cap_version :: string
  cap_description :: string
  cap_max_rps :: nat
  cap_authenticated :: bool
  cap_config :: "(string, string) hmap"

definition capability_new :: "string \<Rightarrow> string \<Rightarrow> capability_type \<Rightarrow> capability" where
  "capability_new i name t = \<lparr>cap_id = i, cap_name = name, cap_type = t, cap_version = ''1.0.0'',
     cap_description = [], cap_max_rps = 100, cap_authenticated = True, cap_config = []\<rparr>"

record federation_node =
  fn_cluster_id :: ls_id
  fn_name :: string
  fn_version :: string
  fn_addrs :: "string list"
  fn_status :: fed_node_status
  fn_capabilities :: "capability list"
  fn_latency_ms :: nat
  fn_last_seen :: int
  fn_metadata :: "(string, string) hmap"
  fn_reconnect_count :: nat

text \<open>The crate's version is that of the workspace.\<close>

definition federation_node_new :: "int \<Rightarrow> ls_id \<Rightarrow> string \<Rightarrow> string list \<Rightarrow> federation_node" where
  "federation_node_new now cid name addrs = \<lparr>fn_cluster_id = cid, fn_name = name,
     fn_version = ''5.1.0'', fn_addrs = addrs, fn_status = Connecting, fn_capabilities = [],
     fn_latency_ms = 0, fn_last_seen = now, fn_metadata = [], fn_reconnect_count = 0\<rparr>"

definition is_healthy :: "federation_node \<Rightarrow> bool" where
  "is_healthy n \<longleftrightarrow> fn_status n = Online"

definition has_capability :: "string \<Rightarrow> federation_node \<Rightarrow> bool" where
  "has_capability cap n \<longleftrightarrow> list_ex (\<lambda>c. cap_name c = cap \<or> cap_id c = cap) (fn_capabilities n)"

record federation_config =
  fc_cluster_name :: string
  fc_listen_addr :: string
  fc_topology :: federation_topology
  fc_seed_nodes :: "string list"
  fc_discovery_interval_secs :: nat
  fc_heartbeat_interval_secs :: nat
  fc_heartbeat_timeout_secs :: nat
  fc_capability_advertise_interval_secs :: nat
  fc_max_reconnect_attempts :: nat
  fc_reconnect_backoff_secs :: nat
  fc_enabled :: bool

definition federation_config_default :: federation_config where
  "federation_config_default = \<lparr>fc_cluster_name = [], fc_listen_addr = ''0.0.0.0:9550'',
     fc_topology = Mesh, fc_seed_nodes = [], fc_discovery_interval_secs = 30,
     fc_heartbeat_interval_secs = 5, fc_heartbeat_timeout_secs = 15,
     fc_capability_advertise_interval_secs = 60, fc_max_reconnect_attempts = 5,
     fc_reconnect_backoff_secs = 10, fc_enabled = True\<rparr>"

record remote_exec_request =
  rq_request_id :: string
  rq_target :: string
  rq_payload :: json
  rq_timeout_secs :: nat
  rq_stream :: bool

record remote_exec_response =
  rr_request_id :: string
  rr_result :: json
  rr_success :: bool
  rr_error :: "string option"
  rr_latency_ms :: nat

section \<open>Messages\<close>

definition protocol_version :: string where
  "protocol_version = ''2.0.0''"

record hello_payload =
  hp_cluster_id :: string
  hp_cluster_name :: string
  hp_protocol_version :: string
  hp_listen_addrs :: "string list"
  hp_capabilities :: "string list"

record hello_ack_payload =
  ha_peer_cluster_id :: string
  ha_peer_cluster_name :: string
  ha_protocol_version :: string
  ha_compatible :: bool
  ha_incompatible_reason :: "string option"

record load_info =
  li_active_connections :: nat
  li_pending_tasks :: nat

record heartbeat_payload =
  hb_cluster_id :: string
  hb_timestamp :: int
  hb_load :: load_info

datatype capability_change = CapFull | CapAdded | CapRemoved | CapUpdated

record capability_update_payload =
  cu_cluster_id :: string
  cu_capabilities :: "capability list"
  cu_change_type :: capability_change

record capability_list_payload =
  clp_cluster_id :: string
  clp_capabilities :: "capability list"

record state_replicate_payload =
  sr_key :: string
  sr_value :: json
  sr_version :: nat
  sr_namespace :: string

record state_replicate_ack_payload =
  sa_key :: string
  sa_version :: nat
  sa_accepted :: bool
  sa_error :: "string option"

record protocol_error =
  pe_code :: int
  pe_message :: string
  pe_related_message_id :: "string option"

definition protocol_error_new :: "int \<Rightarrow> string \<Rightarrow> protocol_error" where
  "protocol_error_new code message = \<lparr>pe_code = code, pe_message = message, pe_related_message_id = None\<rparr>"

datatype federation_message =
    Hello hello_payload | HelloAck hello_ack_payload
  | Heartbeat heartbeat_payload | HeartbeatAck
  | CapabilityUpdate capability_update_payload | CapabilityQuery
  | CapabilityList capability_list_payload
  | RemoteExecRequest remote_exec_request | RemoteExecResponse remote_exec_response
  | StateReplicate state_replicate_payload | StateReplicateAck state_replicate_ack_payload
  | ProtocolError protocol_error

section \<open>Frames\<close>

type_synonym byte = "8 word"

text \<open>\<open>to_be_bytes\<close> and \<open>from_be_bytes\<close> of a \<open>u32\<close>.\<close>

definition be_bytes :: "32 word \<Rightarrow> byte list" where
  "be_bytes w = [ucast (drop_bit 24 w), ucast (drop_bit 16 w), ucast (drop_bit 8 w), ucast w]"

definition from_be_bytes :: "byte \<Rightarrow> byte \<Rightarrow> byte \<Rightarrow> byte \<Rightarrow> 32 word" where
  "from_be_bytes a b c d = word_of_nat (((unat a * 256 + unat b) * 256 + unat c) * 256 + unat d)"

definition encode_frame :: "(federation_message \<Rightarrow> string + byte list) \<Rightarrow> federation_message \<Rightarrow> string + byte list" where
  "encode_frame ser msg = ok_bind (ser msg) (\<lambda>json_bytes.
     Inr (be_bytes (word_of_nat (length json_bytes)) @ json_bytes))"

definition decode_frame :: "(byte list \<Rightarrow> string + federation_message) \<Rightarrow> byte list \<Rightarrow>
    string + federation_message \<times> nat" where
  "decode_frame de data =
     (if length data < 4 then Inl ''frame too short: missing length header''
      else (let len = unat (from_be_bytes (data ! 0) (data ! 1) (data ! 2) (data ! 3))
        in if length data < 4 + len
           then Inl (''frame too short: need '' @ show_nat len @ '' bytes, got '' @ show_nat (length data - 4))
           else ok_bind (de (take len (drop 4 data))) (\<lambda>msg. Inr (msg, 4 + len))))"

lemma unat_ucast8: "unat (ucast (w :: 32 word) :: byte) = unat w mod 256"
  by (simp add: unsigned_ucast_eq unsigned_take_bit_eq take_bit_eq_mod)

lemma from_be_bytes_be_bytes:
  "be_bytes w = [a, b, c, d] \<Longrightarrow> from_be_bytes a b c d = w"
proof -
  assume "be_bytes w = [a, b, c, d]"
  then have abcd: "a = ucast (drop_bit 24 w)" "b = ucast (drop_bit 16 w)" "c = ucast (drop_bit 8 w)" "d = ucast w"
    by (simp_all add: be_bytes_def)
  let ?n = "unat w"
  have lt: "?n < 4294967296" using unsigned_less [of w] by simp
  have drops: "unat (drop_bit k w) = ?n div 2 ^ k" for k
    by (simp only: unat_drop_bit_eq) (simp only: drop_bit_eq_div)
  let ?q = "?n div 256" and ?r = "?n div 65536" and ?s = "?n div 16777216"
  have q: "?n div 65536 = ?q div 256" "?n div 16777216 = ?r div 256"
    by (simp_all add: div_mult2_eq [symmetric])
  have "?s < 256" using lt by (simp add: less_mult_imp_div_less)
  then have s: "?s mod 256 = ?s" by simp
  have r: "?s * 256 + ?r mod 256 = ?r" unfolding q(2) by (rule div_mult_mod_eq)
  have qq: "?r * 256 + ?q mod 256 = ?q" unfolding q(1) by (rule div_mult_mod_eq)
  have sum: "((?s mod 256 * 256 + ?r mod 256) * 256 + ?q mod 256) * 256 + ?n mod 256 = ?n"
    unfolding s r qq by (rule div_mult_mod_eq)
  have "from_be_bytes a b c d =
      word_of_nat (((?s mod 256 * 256 + ?r mod 256) * 256 + ?q mod 256) * 256 + ?n mod 256)"
    by (simp only: abcd from_be_bytes_def unat_ucast8 drops) simp
  then show ?thesis unfolding sum by simp
qed

lemma be_bytes_list: "be_bytes w = [be_bytes w ! 0, be_bytes w ! 1, be_bytes w ! 2, be_bytes w ! 3]"
  by (simp add: be_bytes_def)

lemma decode_header:
  "decode_frame de (be_bytes w @ rest) =
    (if length rest < unat w
     then Inl (''frame too short: need '' @ show_nat (unat w) @ '' bytes, got '' @ show_nat (length rest))
     else ok_bind (de (take (unat w) rest)) (\<lambda>msg. Inr (msg, 4 + unat w)))"
proof -
  obtain a b c d where abcd: "be_bytes w = [a, b, c, d]" using be_bytes_list by blast
  show ?thesis using from_be_bytes_be_bytes [OF abcd] by (simp add: decode_frame_def abcd Let_def)
qed

definition frame_of :: "byte list \<Rightarrow> byte list" where
  "frame_of bytes = be_bytes (word_of_nat (length bytes)) @ bytes"

lemma length_be_bytes: "length (be_bytes w) = 4"
  by (simp add: be_bytes_def)

lemma length_frame_of [simp]: "length (frame_of bytes) = 4 + length bytes"
  by (simp add: frame_of_def be_bytes_def)

lemma encode_frame_Inr: "ser msg = Inr bytes \<Longrightarrow> encode_frame ser msg = Inr (frame_of bytes)"
  by (simp add: encode_frame_def frame_of_def)

lemma decode_frame_of:
  assumes "de bytes = Inr msg" "length bytes < 2 ^ 32"
  shows "decode_frame de (frame_of bytes @ rest) = Inr (msg, length (frame_of bytes))"
  using assms by (simp add: frame_of_def decode_header unat_of_nat) (simp add: be_bytes_def)

text \<open>C19: a message whose text is shorter than \<open>2 ^ 32\<close> bytes is read back from its frame, whatever
  follows the frame, with the length of the frame as the number of bytes consumed; a proper prefix of
  the frame is refused as too short.\<close>

theorem frame_round_trip:
  assumes "ser msg = Inr bytes" "de bytes = Inr msg" "length bytes < 2 ^ 32"
  shows "\<exists>frame. encode_frame ser msg = Inr frame
    \<and> decode_frame de (frame @ rest) = Inr (msg, length frame)
    \<and> (k < length frame \<longrightarrow> (\<exists>e. decode_frame de (take k frame) = Inl (''frame too short: '' @ e)))"
proof -
  have part: "\<exists>e. decode_frame de (take k (frame_of bytes)) = Inl (''frame too short: '' @ e)"
    if k: "k < length (frame_of bytes)"
  proof (cases "k < 4")
    case True
    then show ?thesis by (simp add: decode_frame_def)
  next
    case False
    let ?w = "word_of_nat (length bytes) :: 32 word"
    have "take k (frame_of bytes) = be_bytes ?w @ take (k - 4) bytes"
      using False by (simp add: frame_of_def take_append length_be_bytes)
    moreover have "length (take (k - 4) bytes) < unat ?w" using assms(3) False k by (simp add: unat_of_nat)
    ultimately show ?thesis by (simp add: decode_header)
  qed
  with encode_frame_Inr [of ser, OF assms(1)] decode_frame_of [of de, OF assms(2,3)] show ?thesis by blast
qed

definition sample_codec :: "byte list \<Rightarrow> string + federation_message" where
  "sample_codec bs = (if bs = [1, 2] then Inr HeartbeatAck else Inl ''decode failed'')"

theorem frame_round_trip_witness:
  "\<exists>frame. encode_frame (\<lambda>_. Inr [1, 2]) HeartbeatAck = Inr frame
    \<and> decode_frame sample_codec (frame @ [7, 7]) = Inr (HeartbeatAck, length frame)"
  using frame_round_trip [of "\<lambda>_. Inr [1, 2]" HeartbeatAck "[1, 2]" sample_codec "[7, 7]"]
  by (auto simp: sample_codec_def)

text \<open>A decoded frame never takes more bytes than there are.\<close>

lemma decode_frame_consumed: "decode_frame de data = Inr (msg, n) \<Longrightarrow> 4 \<le> n \<and> n \<le> length data"
  by (auto simp: decode_frame_def Let_def ok_bind_Inr split: if_splits)

text \<open>The length field is taken modulo \<open>2 ^ 32\<close>: of a text of \<open>2 ^ 32\<close> bytes or more the receiver reads
  a part and takes the rest for further frames.\<close>

lemma frame_length_truncated:
  assumes "ser msg = Inr bytes" "encode_frame ser msg = Inr frame" "decode_frame de frame = Inr (m, n)"
  shows "n = 4 + length bytes mod 2 ^ 32"
proof -
  from assms(1,2) have frame: "frame = be_bytes (word_of_nat (length bytes)) @ bytes"
    by (simp add: encode_frame_def)
  from assms(3) show ?thesis
    unfolding frame decode_header by (auto simp: ok_bind_Inr unat_of_nat split: if_splits)
qed

end
