(* ===== verification/Fed_Link.thy ===== *)
theory Fed_Link
  imports Fed_Protocol
begin

text \<open>
  The connections of the federation (crate \<open>federation\<close>, \<open>link.rs\<close>) and what is built on them:
  remote execution and the search for providers (\<open>executor.rs\<close>).

  A connection is a numbered channel: the queue of messages that were sent to it and not written
  yet, whether its write loop still runs, and the bytes that were written. The connection table
  maps a cluster identifier to the number of its channel. What the sockets do (the bytes that were
  read, whether a write succeeded) and whether a \<open>try_read\<close> of the table found it locked are
  arguments; so are generated identifiers, the clock, the JSON codec and the \<open>Debug\<close> text of a
  message.
\<close>

section \<open>The link manager\<close>

datatype link_health = Healthy | Degraded | LinkDown

record federation_link =
  fl_local_cluster :: ls_id
  fl_remote_cluster :: ls_id
  fl_health :: link_health
  fl_established_at :: int
  fl_messages_sent :: nat
  fl_messages_received :: nat
  fl_bytes_sent :: nat
  fl_bytes_received :: nat
  fl_error_count :: nat

datatype link_event =
    NodeOnline federation_node | NodeOffline federation_node | HealthChanged federation_link
  | MessageReceived federation_node federation_message

record link_channel =
  lc_queue :: "federation_message list"
  lc_open :: bool
  lc_wire :: "byte list"

record link_manager =
  lm_local_id :: ls_id
  lm_local_name :: string
  lm_config :: federation_config
  lm_nodes :: "(string, federation_node) hmap"
  lm_connections :: "(string, nat) hmap"
  lm_channels :: "link_channel list"
  lm_links :: "(string, federation_link) hmap"
  lm_events :: "link_event list"
  lm_receiver :: bool
  lm_capabilities :: "(string, capability list) hmap"
  lm_cancelled :: bool

definition link_new :: "ls_id \<Rightarrow> string \<Rightarrow> federation_config \<Rightarrow> link_manager" where
  "link_new local_id local_name config = \<lparr>lm_local_id = local_id, lm_local_name = local_name,
     lm_config = config, lm_nodes = [], lm_connections = [], lm_channels = [], lm_links = [],
     lm_events = [], lm_receiver = True, lm_capabilities = [], lm_cancelled = False\<rparr>"

definition link_take_event_rx :: "link_manager \<Rightarrow> bool \<times> link_manager" where
  "link_take_event_rx s = (lm_receiver s, s\<lparr>lm_receiver := False\<rparr>)"

definition link_stop :: "link_manager \<Rightarrow> link_manager" where
  "link_stop s = s\<lparr>lm_cancelled := True\<rparr>"

text \<open>A new channel under a cluster identifier; the one it replaces loses its sender, so its write
  loop ends when its queue is empty.\<close>

definition open_channel :: "string \<Rightarrow> link_manager \<Rightarrow> link_manager" where
  "open_channel cid s = s\<lparr>lm_channels := lm_channels s @ [\<lparr>lc_queue = [], lc_open = True, lc_wire = []\<rparr>],
     lm_connections := hm_insert cid (length (lm_channels s)) (lm_connections s)\<rparr>"

text \<open>The write loop takes the next message; a message that cannot be encoded or written ends it.\<close>

definition write_next :: "(federation_message \<Rightarrow> string + byte list) \<Rightarrow> bool \<Rightarrow> link_channel \<Rightarrow> link_channel" where
  "write_next ser write_ok c =
     (if \<not> lc_open c then c
      else case lc_queue c of
        [] \<Rightarrow> c
      | msg # rest \<Rightarrow> (case encode_frame ser msg of
            Inl _ \<Rightarrow> c\<lparr>lc_queue := rest, lc_open := False\<rparr>
          | Inr frame \<Rightarrow> if write_ok then c\<lparr>lc_queue := rest, lc_wire := lc_wire c @ frame\<rparr>
              else c\<lparr>lc_queue := rest, lc_open := False\<rparr>))"

definition write_step :: "(federation_message \<Rightarrow> string + byte list) \<Rightarrow> bool \<Rightarrow> nat \<Rightarrow> link_manager \<Rightarrow> link_manager" where
  "write_step ser write_ok c s = s\<lparr>lm_channels := (lm_channels s)[c := write_next ser write_ok (lm_channels s ! c)]\<rparr>"

text \<open>The read loop discards what it reads; at the end of the stream it removes the entry of its
  cluster identifier.\<close>

definition read_loop_end :: "string \<Rightarrow> link_manager \<Rightarrow> link_manager" where
  "read_loop_end cid s = s\<lparr>lm_connections := hm_remove cid (lm_connections s)\<rparr>"

section \<open>The handshake\<close>

definition hello_ack :: "link_manager \<Rightarrow> hello_payload \<Rightarrow> hello_ack_payload" where
  "hello_ack s hello = (let compatible = (hp_protocol_version hello = protocol_version)
     in \<lparr>ha_peer_cluster_id = show_id (lm_local_id s), ha_peer_cluster_name = lm_local_name s,
          ha_protocol_version = protocol_version, ha_compatible = compatible,
          ha_incompatible_reason = (if compatible then None
            else Some (''version mismatch: local='' @ protocol_version @ '', remote='' @ hp_protocol_version hello))\<rparr>)"

text \<open>\<open>handle_inbound\<close> up to its read loop: the result, the bytes it tried to send, and the state.\<close>

definition handle_inbound ::
  "(federation_message \<Rightarrow> string + byte list) \<Rightarrow> (byte list \<Rightarrow> string + federation_message) \<Rightarrow>
   (federation_message \<Rightarrow> string) \<Rightarrow> ls_id \<Rightarrow> int \<Rightarrow> string \<Rightarrow> string + byte list \<Rightarrow> string option \<Rightarrow>
   link_manager \<Rightarrow> (string + string) \<times> byte list \<times> link_manager" where
  "handle_inbound ser de dbg fresh now peer_addr read write_error s =
     (case read of
        Inl e \<Rightarrow> (Inl (''read hello failed: '' @ e), [], s)
      | Inr bytes \<Rightarrow>
     (case decode_frame de bytes of
        Inl e \<Rightarrow> (Inl e, [], s)
      | Inr (msg, consumed) \<Rightarrow>
     (case msg of
        Hello hello \<Rightarrow>
          (case encode_frame ser (HelloAck (hello_ack s hello)) of
             Inl e \<Rightarrow> (Inl e, [], s)
           | Inr ack_frame \<Rightarrow>
          (case write_error of
             Some e \<Rightarrow> (Inl (''write ack failed: '' @ e), ack_frame, s)
           | None \<Rightarrow>
               if \<not> ha_compatible (hello_ack s hello)
               then (Inl (''incompatible version: remote='' @ hp_protocol_version hello), ack_frame, s)
               else (let cluster_id = hp_cluster_id hello;
                         remote_node = federation_node_new now fresh (hp_cluster_name hello) [peer_addr]
                     in (Inr cluster_id, ack_frame,
                         open_channel cluster_id (s\<lparr>lm_nodes := hm_insert cluster_id remote_node (lm_nodes s)\<rparr>)))))
      | other \<Rightarrow>
          (Inl (''expected Hello, got '' @ dbg other),
           case encode_frame ser (ProtocolError (protocol_error_new 100 ''expected Hello'')) of
             Inl _ \<Rightarrow> [] | Inr frame \<Rightarrow> frame, s))))"

definition hello_of :: "link_manager \<Rightarrow> hello_payload" where
  "hello_of s = \<lparr>hp_cluster_id = show_id (lm_local_id s), hp_cluster_name = lm_local_name s,
     hp_protocol_version = protocol_version, hp_listen_addrs = [fc_listen_addr (lm_config s)],
     hp_capabilities = []\<rparr>"

text \<open>\<open>handle_outbound\<close> up to its read loop, and \<open>connect\<close>.\<close>

definition handle_outbound ::
  "(federation_message \<Rightarrow> string + byte list) \<Rightarrow> string option \<Rightarrow> string \<Rightarrow> link_manager \<Rightarrow>
   unit ls_result \<times> byte list \<times> link_manager" where
  "handle_outbound ser write_error cluster_id s =
     (case encode_frame ser (Hello (hello_of s)) of
        Inl e \<Rightarrow> (Inl (Internal (''encode hello failed: '' @ e)), [], s)
      | Inr frame \<Rightarrow>
     (case write_error of
        Some e \<Rightarrow> (Inl (Internal (''write hello failed: '' @ e)), frame, s)
      | None \<Rightarrow> (Inr (), frame, open_channel cluster_id s)))"

definition link_connect ::
  "(federation_message \<Rightarrow> string + byte list) \<Rightarrow> string option \<Rightarrow> string option \<Rightarrow> federation_node \<Rightarrow>
   link_manager \<Rightarrow> unit ls_result \<times> byte list \<times> link_manager" where
  "link_connect ser connect_error write_error node s =
     (if fn_addrs node = [] then (Inl (Internal ''no address''), [], s)
      else case connect_error of
        Some e \<Rightarrow> (Inl (Internal (''connect failed: '' @ e)), [], s)
      | None \<Rightarrow> handle_outbound ser write_error (show_id (fn_cluster_id node)) s)"

text \<open>The nodes \<open>connect_all\<close> connects to. It awaits each connection until its read loop ends.\<close>

definition connect_targets :: "link_manager \<Rightarrow> federation_node list" where
  "connect_targets s = filter (\<lambda>n. fn_cluster_id n \<noteq> lm_local_id s \<and> fn_status n \<noteq> Online) (hm_values (lm_nodes s))"

section \<open>Messages and queries\<close>

definition push_channel :: "federation_message \<Rightarrow> nat \<Rightarrow> link_manager \<Rightarrow> bool \<times> link_manager" where
  "push_channel msg c s = (let ch = lm_channels s ! c
     in if lc_open ch then (True, s\<lparr>lm_channels := (lm_channels s)[c := ch\<lparr>lc_queue := lc_queue ch @ [msg]\<rparr>]\<rparr>)
        else (False, s))"

definition link_send :: "bool \<Rightarrow> string \<Rightarrow> federation_message \<Rightarrow> link_manager \<Rightarrow> bool \<times> link_manager" where
  "link_send locked cluster_id msg s =
     (case (if locked then None else hm_get (lm_connections s) cluster_id) of
        Some c \<Rightarrow> push_channel msg c s
      | None \<Rightarrow> (False, s))"

definition link_broadcast :: "bool \<Rightarrow> federation_message \<Rightarrow> link_manager \<Rightarrow> link_manager" where
  "link_broadcast locked msg s =
     (if locked then s else fold (\<lambda>c t. snd (push_channel msg c t)) (hm_values (lm_connections s)) s)"

definition register_node :: "federation_node \<Rightarrow> link_manager \<Rightarrow> link_manager" where
  "register_node node s = s\<lparr>lm_nodes := hm_insert (show_id (fn_cluster_id node)) node (lm_nodes s)\<rparr>"

definition online_nodes :: "link_manager \<Rightarrow> federation_node list" where
  "online_nodes s = filter (\<lambda>n. fn_status n = Online) (hm_values (lm_nodes s))"

definition node_capabilities :: "string \<Rightarrow> link_manager \<Rightarrow> capability list option" where
  "node_capabilities cluster_id s = hm_get (lm_capabilities s) cluster_id"

definition all_links :: "link_manager \<Rightarrow> federation_link list" where
  "all_links s = hm_values (lm_links s)"

section \<open>Remote execution\<close>

text \<open>
  \<open>rx_pending\<close> holds the requests whose sender is registered, \<open>rx_replies\<close> the responses that were
  put into a request's channel and not read yet.
\<close>

record remote_executor =
  rx_pending :: "(string, unit) hmap"
  rx_replies :: "(string, remote_exec_response) hmap"

definition executor_new :: remote_executor where
  "executor_new = \<lparr>rx_pending = [], rx_replies = []\<rparr>"

definition exec_timeout_secs :: "nat \<Rightarrow> nat" where
  "exec_timeout_secs timeout_secs = max timeout_secs 10"

text \<open>\<open>execute\<close> up to its wait, and what the wait returns: nothing while it goes on.\<close>

definition exec_begin ::
  "bool \<Rightarrow> ls_id \<Rightarrow> string \<Rightarrow> string \<Rightarrow> json \<Rightarrow> nat \<Rightarrow> remote_executor \<times> link_manager \<Rightarrow>
   string ls_result \<times> remote_executor \<times> link_manager" where
  "exec_begin locked fresh target_cluster target payload timeout_secs = (\<lambda>(x, l).
     (let request_id = show_id fresh;
          req = \<lparr>rq_request_id = request_id, rq_target = target, rq_payload = payload,
            rq_timeout_secs = timeout_secs, rq_stream = False\<rparr>;
          x1 = x\<lparr>rx_pending := hm_insert request_id () (rx_pending x)\<rparr>;
          (sent, l1) = link_send locked target_cluster (RemoteExecRequest req) l
      in if \<not> sent
         then (Inl (Internal (''no connection to cluster '' @ [CHR 0x27] @ target_cluster @ [CHR 0x27])),
               x1\<lparr>rx_pending := hm_remove request_id (rx_pending x1)\<rparr>, l1)
         else (Inr request_id, x1, l1)))"

definition exec_wait ::
  "bool \<Rightarrow> nat \<Rightarrow> string \<Rightarrow> remote_executor \<Rightarrow> remote_exec_response ls_result option \<times> remote_executor" where
  "exec_wait elapsed timeout_secs request_id x =
     (case hm_get (rx_replies x) request_id of
        Some r \<Rightarrow> (Some (Inr r), x\<lparr>rx_replies := hm_remove request_id (rx_replies x)\<rparr>)
      | None \<Rightarrow>
          if \<not> hm_has request_id (rx_pending x) then (Some (Inl (Internal ''execution cancelled'')), x)
          else if elapsed
          then (Some (Inl (Internal (''remote execution timed out after ''
                  @ show_nat (exec_timeout_secs timeout_secs) @ ''s''))),
                x\<lparr>rx_pending := hm_remove request_id (rx_pending x)\<rparr>)
          else (None, x))"

definition handle_response :: "remote_exec_response \<Rightarrow> remote_executor \<Rightarrow> remote_executor" where
  "handle_response response x =
     (if hm_has (rr_request_id response) (rx_pending x)
      then x\<lparr>rx_pending := hm_remove (rr_request_id response) (rx_pending x),
             rx_replies := hm_insert (rr_request_id response) response (rx_replies x)\<rparr>
      else x)"

definition handle_incoming_request :: "nat \<Rightarrow> remote_exec_request \<Rightarrow> remote_exec_response" where
  "handle_incoming_request elapsed_ms request = \<lparr>rr_request_id = rq_request_id request,
     rr_result = Object [(''status'', Str ''executed''), (''target'', Str (rq_target request)),
       (''request_id'', Str (rq_request_id request))],
     rr_success = True, rr_error = None, rr_latency_ms = elapsed_ms\<rparr>"

section \<open>Providers\<close>

definition find_provider :: "string \<Rightarrow> link_manager \<Rightarrow> string list" where
  "find_provider cap s = map (\<lambda>n. show_id (fn_cluster_id n)) (filter (has_capability cap) (online_nodes s))"

definition better_provider :: "string \<Rightarrow> federation_node \<Rightarrow> (string \<times> nat) option \<Rightarrow> (string \<times> nat) option" where
  "better_provider cap n best =
     (if has_capability cap n
      then (case best of
              Some (i, best_lat) \<Rightarrow> if fn_latency_ms n < best_lat
                then Some (show_id (fn_cluster_id n), fn_latency_ms n) else best
            | None \<Rightarrow> Some (show_id (fn_cluster_id n), fn_latency_ms n))
      else best)"

definition find_best_provider :: "string \<Rightarrow> link_manager \<Rightarrow> string option" where
  "find_best_provider cap s = map_option fst (fold (better_provider cap) (online_nodes s) None)"

end
