(* ===== verification/Fed_Link_Props.thy ===== *)
theory Fed_Link_Props
  imports Fed_Link
begin

text \<open>
  What the connections of the federation guarantee: the handshake of two link managers, the
  delivery of a broadcast, the choice of a provider and the response of a remote execution.
\<close>

section \<open>The invariant of a link manager\<close>

text \<open>Every connection has a channel of its own; nodes are keyed once.\<close>

definition link_inv :: "link_manager \<Rightarrow> bool" where
  "link_inv s \<longleftrightarrow> hm_ok (lm_nodes s) \<and> hm_ok (lm_connections s)
     \<and> distinct (hm_values (lm_connections s))
     \<and> (\<forall>c \<in> set (hm_values (lm_connections s)). c < length (lm_channels s))"

lemma set_values_insert: "set (hm_values (hm_insert k v t)) \<subseteq> insert v (set (hm_values t))"
  by (induction t) auto

lemma distinct_values_insert:
  "distinct (hm_values t) \<Longrightarrow> v \<notin> set (hm_values t) \<Longrightarrow> distinct (hm_values (hm_insert k v t))"
proof (induction t)
  case (Cons x t)
  then show ?case using set_values_insert [of k v t] by (cases x) auto
qed simp

lemma set_values_remove: "set (hm_values (hm_remove k t)) \<subseteq> set (hm_values t)"
  by (induction t) auto

lemma distinct_values_remove: "distinct (hm_values t) \<Longrightarrow> distinct (hm_values (hm_remove k t))"
proof (induction t)
  case (Cons x t)
  then show ?case using set_values_remove [of k t] by (cases x) auto
qed simp

lemma link_inv_new: "link_inv (link_new i n c)"
  by (simp add: link_inv_def link_new_def)

lemma link_inv_open:
  assumes "link_inv s"
  shows "link_inv (open_channel cid s)"
proof -
  let ?t = "hm_insert cid (length (lm_channels s)) (lm_connections s)"
  have "length (lm_channels s) \<notin> set (hm_values (lm_connections s))" using assms by (auto simp: link_inv_def)
  then have "distinct (hm_values ?t)" using assms by (intro distinct_values_insert) (simp_all add: link_inv_def)
  moreover have "c < Suc (length (lm_channels s))" if "c \<in> set (hm_values ?t)" for c
    using subsetD [OF set_values_insert that] assms by (auto simp: link_inv_def less_Suc_eq)
  ultimately show ?thesis using assms by (simp add: link_inv_def open_channel_def)
qed

lemma link_inv_nodes: "link_inv s \<Longrightarrow> link_inv (s\<lparr>lm_nodes := hm_insert k n (lm_nodes s)\<rparr>)"
  by (simp add: link_inv_def)

lemma link_inv_end: "link_inv s \<Longrightarrow> link_inv (read_loop_end cid s)"
  using set_values_remove [of cid "lm_connections s"] unfolding link_inv_def read_loop_end_def
  by (auto intro!: distinct_values_remove simp del: set_map)

lemma link_inv_write: "link_inv s \<Longrightarrow> link_inv (write_step ser ok c s)"
  by (simp add: link_inv_def write_step_def)

lemma push_simps [simp]:
  "lm_connections (snd (push_channel msg c s)) = lm_connections s"
  "lm_nodes (snd (push_channel msg c s)) = lm_nodes s"
  "length (lm_channels (snd (push_channel msg c s))) = length (lm_channels s)"
  by (simp_all add: push_channel_def Let_def)

lemma link_inv_push: "link_inv s \<Longrightarrow> link_inv (snd (push_channel msg c s))"
  by (simp add: link_inv_def)

lemma fold_push_simps [simp]:
  "lm_connections (fold (\<lambda>c t. snd (push_channel msg c t)) cs s) = lm_connections s"
  "lm_nodes (fold (\<lambda>c t. snd (push_channel msg c t)) cs s) = lm_nodes s"
  "length (lm_channels (fold (\<lambda>c t. snd (push_channel msg c t)) cs s)) = length (lm_channels s)"
  by (induction cs arbitrary: s) simp_all

section \<open>The handshake\<close>

text \<open>An incoming connection is accepted exactly when the bytes read first start with the frame of
  a Hello of the own protocol version and the acknowledgement can be encoded and written; it is then
  registered under the identifier the peer gave, with an empty channel of its own; otherwise nothing
  changes.\<close>

theorem inbound_accepts_exactly:
  "case handle_inbound ser de dbg fresh now peer_addr read write_error s of (r, reply, s') \<Rightarrow>
    (r = Inr cid \<longleftrightarrow> (\<exists>bytes hello n ack. read = Inr bytes \<and> decode_frame de bytes = Inr (Hello hello, n)
        \<and> hp_protocol_version hello = protocol_version \<and> hp_cluster_id hello = cid
        \<and> encode_frame ser (HelloAck (hello_ack s hello)) = Inr ack \<and> write_error = None))
    \<and> (r = Inr cid \<longrightarrow> hm_get (lm_connections s') cid = Some (length (lm_channels s))
        \<and> lm_channels s' = lm_channels s @ [\<lparr>lc_queue = [], lc_open = True, lc_wire = []\<rparr>]
        \<and> cid \<in> hm_dom (lm_nodes s'))
    \<and> (r = Inl e \<longrightarrow> s' = s)"
  by (auto simp: handle_inbound_def hello_ack_def open_channel_def Let_def
      split: sum.splits prod.splits federation_message.splits option.splits if_splits)

definition sample_hello :: hello_payload where
  "sample_hello = hello_of (link_new 1 ''a'' federation_config_default)"

theorem inbound_accepts_exactly_witness:
  "\<exists>reply s'. handle_inbound (\<lambda>_. Inr []) (\<lambda>_. Inr (Hello sample_hello)) (\<lambda>_. []) 9 0 ''peer'' (Inr (frame_of [1])) None
    (link_new 2 ''b'' federation_config_default) = (Inr (show_id 1), reply, s') \<and> show_id 1 \<in> hm_dom (lm_nodes s')"
proof -
  let ?h = "handle_inbound (\<lambda>_. Inr []) (\<lambda>_. Inr (Hello sample_hello)) (\<lambda>_. []) 9 0 ''peer'' (Inr (frame_of [1])) None
    (link_new 2 ''b'' federation_config_default)"
  obtain r reply s' where h: "?h = (r, reply, s')" using prod_cases3 by blast
  have "decode_frame (\<lambda>_. Inr (Hello sample_hello)) (frame_of [1] @ []) = Inr (Hello sample_hello, length (frame_of [1]))"
    by (rule decode_frame_of) simp_all
  then have "decode_frame (\<lambda>_. Inr (Hello sample_hello)) (frame_of [1]) = Inr (Hello sample_hello, 5)" by simp
  moreover have "hp_protocol_version sample_hello = protocol_version" "hp_cluster_id sample_hello = show_id 1"
    by (simp_all add: sample_hello_def hello_of_def link_new_def)
  moreover note inbound_accepts_exactly [where ser = "\<lambda>_. Inr []" and de = "\<lambda>_. Inr (Hello sample_hello)"
      and dbg = "\<lambda>_. []" and fresh = 9 and now = 0 and peer_addr = "''peer''" and read = "Inr (frame_of [1])"
      and write_error = None and s = "link_new 2 ''b'' federation_config_default" and cid = "show_id 1"]
  ultimately show ?thesis unfolding h by (auto simp: encode_frame_def)
qed

text \<open>Two link managers shake hands: given a codec that reads the two messages back, the Hello that
  \<open>connect\<close> writes is accepted by the other manager, whatever bytes follow it, under the
  identifier of the connecting cluster, and the answer decodes to a compatible acknowledgement with
  the identifier of the accepting cluster.\<close>

theorem handshake_composes:
  assumes "ser (Hello (hello_of a)) = Inr hb" "de hb = Inr (Hello (hello_of a))" "length hb < 2 ^ 32"
    and "ser (HelloAck (hello_ack b (hello_of a))) = Inr ab"
      "de ab = Inr (HelloAck (hello_ack b (hello_of a)))" "length ab < 2 ^ 32"
    and "fn_addrs node \<noteq> []"
  shows "\<exists>hello a' ack b'. link_connect ser None None node a = (Inr (), hello, a')
    \<and> handle_inbound ser de dbg fresh now addr (Inr (hello @ rest)) None b = (Inr (show_id (lm_local_id a)), ack, b')
    \<and> hm_get (lm_connections a') (show_id (fn_cluster_id node)) = Some (length (lm_channels a))
    \<and> hm_get (lm_connections b') (show_id (lm_local_id a)) = Some (length (lm_channels b))
    \<and> (\<exists>payload. decode_frame de ack = Inr (HelloAck payload, length ack)
        \<and> ha_compatible payload \<and> ha_peer_cluster_id payload = show_id (lm_local_id b))"
proof -
  note h = encode_frame_Inr [of ser, OF assms(1)] decode_frame_of [of de, OF assms(2,3)]
  note k = encode_frame_Inr [of ser, OF assms(4)] decode_frame_of [of de, OF assms(5,6), of "[]"]
  have compatible: "ha_compatible (hello_ack b (hello_of a))" "ha_peer_cluster_id (hello_ack b (hello_of a)) = show_id (lm_local_id b)"
      "hp_cluster_id (hello_of a) = show_id (lm_local_id a)"
    by (simp_all add: hello_ack_def hello_of_def)
  show ?thesis
    using k(2) by (simp add: link_connect_def handle_outbound_def handle_inbound_def h k(1) compatible
        open_channel_def assms(7) Let_def del: length_frame_of)
qed

definition hello_only_codec :: "federation_message \<Rightarrow> federation_message \<Rightarrow> byte list \<Rightarrow> string + federation_message" where
  "hello_only_codec h k bs = (if bs = [1] then Inr h else if bs = [2] then Inr k else Inl ''decode failed'')"

theorem handshake_composes_witness:
  "\<exists>hello a' ack b'.
    link_connect (\<lambda>m. Inr (case m of Hello _ \<Rightarrow> [1] | _ \<Rightarrow> [2])) None None (federation_node_new 0 2 ''b'' [''10.0.0.2:9550''])
      (link_new 1 ''a'' federation_config_default) = (Inr (), hello, a')
    \<and> handle_inbound (\<lambda>m. Inr (case m of Hello _ \<Rightarrow> [1] | _ \<Rightarrow> [2]))
        (hello_only_codec (Hello (hello_of (link_new 1 ''a'' federation_config_default)))
          (HelloAck (hello_ack (link_new 2 ''b'' federation_config_default) (hello_of (link_new 1 ''a'' federation_config_default)))))
        (\<lambda>_. []) 9 0 ''10.0.0.1:7'' (Inr (hello @ [])) None (link_new 2 ''b'' federation_config_default)
      = (Inr (show_id 1), ack, b')"
  using handshake_composes [of "\<lambda>m. Inr (case m of Hello _ \<Rightarrow> [1] | _ \<Rightarrow> [2])"
      "link_new 1 ''a'' federation_config_default" "[1]"
      "hello_only_codec (Hello (hello_of (link_new 1 ''a'' federation_config_default)))
          (HelloAck (hello_ack (link_new 2 ''b'' federation_config_default) (hello_of (link_new 1 ''a'' federation_config_default))))"
      "link_new 2 ''b'' federation_config_default" "[2]" "federation_node_new 0 2 ''b'' [''10.0.0.2:9550'']"
      "\<lambda>_. []" 9 0 "''10.0.0.1:7''" "[]"]
  by (auto simp: hello_only_codec_def federation_node_new_def link_new_def)

section \<open>Messages\<close>

lemma fold_push_channels:
  assumes "distinct cs" "\<forall>c \<in> set cs. c < length (lm_channels s)" "d < length (lm_channels s)"
  shows "lm_channels (fold (\<lambda>c t. snd (push_channel msg c t)) cs s) ! d =
    (let ch = lm_channels s ! d
     in if d \<in> set cs \<and> lc_open ch then ch\<lparr>lc_queue := lc_queue ch @ [msg]\<rparr> else ch)"
  using assms
proof (induction cs arbitrary: s)
  case Nil
  then show ?case by simp
next
  case (Cons c cs)
  have "lm_channels (snd (push_channel msg c s)) ! d =
      (let ch = lm_channels s ! d in if d = c \<and> lc_open ch then ch\<lparr>lc_queue := lc_queue ch @ [msg]\<rparr> else ch)"
    using Cons.prems by (auto simp: push_channel_def Let_def)
  with Cons show ?case by (auto simp: Let_def)
qed

text \<open>A broadcast puts the message once at the end of the queue of every connected cluster whose
  write loop runs, and changes no other channel; when the connection table is locked at that moment
  it is lost for all of them.\<close>

theorem broadcast_exact:
  assumes "link_inv s" "d < length (lm_channels s)"
  shows "lm_channels (link_broadcast locked msg s) ! d =
    (let ch = lm_channels s ! d
     in if \<not> locked \<and> (\<exists>cid. hm_get (lm_connections s) cid = Some d) \<and> lc_open ch
        then ch\<lparr>lc_queue := lc_queue ch @ [msg]\<rparr> else ch)"
proof -
  have "d \<in> set (hm_values (lm_connections s)) \<longleftrightarrow> (\<exists>cid. hm_get (lm_connections s) cid = Some d)"
    using assms(1) by (force simp: link_inv_def simp flip: hm_ok_mem)
  then show ?thesis
    using assms fold_push_channels [of "hm_values (lm_connections s)" s d msg]
    by (simp add: link_broadcast_def link_inv_def Let_def)
qed

theorem broadcast_exact_witness:
  "lc_queue (lm_channels (link_broadcast False HeartbeatAck
      (open_channel ''b'' (open_channel ''a'' (link_new 1 ''x'' federation_config_default)))) ! 1) = [HeartbeatAck]"
proof -
  let ?s = "open_channel ''b'' (open_channel ''a'' (link_new 1 ''x'' federation_config_default))"
  have "link_inv ?s" by (intro link_inv_open link_inv_new)
  moreover have "1 < length (lm_channels ?s)" by (simp add: open_channel_def link_new_def)
  moreover have "hm_get (lm_connections ?s) ''b'' = Some 1" "lm_channels ?s ! 1 = \<lparr>lc_queue = [], lc_open = True, lc_wire = []\<rparr>"
    by (simp_all add: open_channel_def link_new_def)
  ultimately show ?thesis using broadcast_exact [of ?s 1 False HeartbeatAck] by (auto simp: Let_def)
qed

section \<open>Providers\<close>

lemma fold_better_provider:
  "fold (better_provider cap) ns best =
    (case fold (\<lambda>n b. if has_capability cap n then
          (case b of None \<Rightarrow> Some n | Some m \<Rightarrow> if fn_latency_ms n < fn_latency_ms m then Some n else Some m) else b) ns node of
       None \<Rightarrow> None | Some m \<Rightarrow> Some (show_id (fn_cluster_id m), fn_latency_ms m))"
  if "best = map_option (\<lambda>m. (show_id (fn_cluster_id m), fn_latency_ms m)) node"
  using that
proof (induction ns arbitrary: best node)
  case Nil
  then show ?case by (cases node) auto
next
  case (Cons n ns)
  show ?case unfolding fold.simps comp_apply
    by (rule Cons.IH) (auto simp: better_provider_def Cons.prems split: option.splits)
qed

text \<open>The best provider is an online node with the capability whose latency is the least of all
  such nodes; there is none exactly when no online node has the capability.\<close>

theorem find_best_provider_min:
  "case find_best_provider cap s of
     None \<Rightarrow> \<not> (\<exists>n \<in> set (online_nodes s). has_capability cap n)
   | Some i \<Rightarrow> (\<exists>m \<in> set (online_nodes s). has_capability cap m \<and> i = show_id (fn_cluster_id m)
       \<and> fn_status m = Online
       \<and> (\<forall>n \<in> set (online_nodes s). has_capability cap n \<longrightarrow> fn_latency_ms m \<le> fn_latency_ms n))"
proof -
  let ?step = "\<lambda>n b. if has_capability cap n then
      (case b of None \<Rightarrow> Some n | Some m \<Rightarrow> if fn_latency_ms n < fn_latency_ms m then Some n else Some m) else b"
  have best: "case fold ?step ns None of
      None \<Rightarrow> \<not> (\<exists>n \<in> set ns. has_capability cap n)
    | Some m \<Rightarrow> m \<in> set ns \<and> has_capability cap m
        \<and> (\<forall>n \<in> set ns. has_capability cap n \<longrightarrow> fn_latency_ms m \<le> fn_latency_ms n)" for ns
    by (induction ns rule: rev_induct) (auto split: option.splits)
  have "find_best_provider cap s = map_option (\<lambda>m. show_id (fn_cluster_id m)) (fold ?step (online_nodes s) None)"
    using fold_better_provider [of None None cap "online_nodes s"]
    by (simp add: find_best_provider_def option.map_comp comp_def split: option.split)
  with best [of "online_nodes s"] show ?thesis by (auto simp: online_nodes_def split: option.splits)
qed

definition sample_provider :: "ls_id \<Rightarrow> nat \<Rightarrow> federation_node" where
  "sample_provider i latency = (federation_node_new 0 i ''n'' [])
     \<lparr>fn_status := Online, fn_latency_ms := latency, fn_capabilities := [capability_new ''gpu'' ''gpu'' CapTool]\<rparr>"

theorem find_best_provider_min_witness:
  "find_best_provider ''gpu'' ((link_new 1 ''x'' federation_config_default)
      \<lparr>lm_nodes := [(''p'', sample_provider 7 30), (''q'', sample_provider 8 20)]\<rparr>) = Some (show_id 8)"
proof -
  let ?s = "(link_new 1 ''x'' federation_config_default)
      \<lparr>lm_nodes := [(''p'', sample_provider 7 30), (''q'', sample_provider 8 20)]\<rparr>"
  have "online_nodes ?s = [sample_provider 7 30, sample_provider 8 20]" "has_capability ''gpu'' (sample_provider i l)" for i l
    by (simp_all add: online_nodes_def sample_provider_def has_capability_def capability_new_def)
  with find_best_provider_min [where cap = "''gpu''" and s = ?s] show ?thesis
    by (auto simp: sample_provider_def federation_node_new_def split: option.splits)
qed

text \<open>A node is stored by \<open>register_node\<close> and by the handshake, which sets \<open>Connecting\<close>; nothing ever
  sets another status: if none was registered as online, no node is online and no provider is
  ever found.\<close>

lemma handshake_never_online:
  assumes "online_nodes s = []" "handle_inbound ser de dbg fresh now peer read werr s = (r, reply, s')" "hm_ok (lm_nodes s)"
  shows "online_nodes s' = [] \<and> find_provider cap s' = []"
proof -
  have no: "fn_status n \<noteq> Online" if "(k, n) \<in> set (lm_nodes s)" for k n
    using assms(1) that by (force simp: online_nodes_def filter_empty_conv)
  have "online_nodes (open_channel cid (s\<lparr>lm_nodes := hm_insert cid (federation_node_new now fresh name addrs) (lm_nodes s)\<rparr>)) = []"
    for cid name addrs
  proof -
    have "fn_status n \<noteq> Online" if "(k, n) \<in> set (hm_insert cid (federation_node_new now fresh name addrs) (lm_nodes s))" for k n
      using that no assms(3)
      by (auto simp: hm_ok_mem federation_node_new_def split: if_splits)
    then show ?thesis by (auto simp: online_nodes_def open_channel_def filter_empty_conv)
  qed
  then show ?thesis using assms(1,2)
    by (auto simp: handle_inbound_def find_provider_def Let_def
        split: sum.splits prod.splits federation_message.splits option.splits if_splits)
qed

text \<open>The entry of a second connection of a cluster is removed when the first one closes: the read loop
  removes by cluster identifier.\<close>

lemma closing_replaced_connection:
  "hm_get (lm_connections (read_loop_end cid (open_channel cid (open_channel cid s)))) cid = None
    \<and> lc_open (lm_channels (read_loop_end cid (open_channel cid (open_channel cid s))) ! Suc (length (lm_channels s)))"
  by (simp add: read_loop_end_def open_channel_def nth_append)

section \<open>Remote execution\<close>

lemma response_other:
  "rr_request_id p \<noteq> i \<Longrightarrow> (i \<in> hm_dom (rx_pending (handle_response p y)) \<longleftrightarrow> i \<in> hm_dom (rx_pending y))"
  "rr_request_id p \<noteq> i \<Longrightarrow> hm_get (rx_replies (handle_response p y)) i = hm_get (rx_replies y) i"
  by (simp_all add: handle_response_def)

lemma response_late:
  "i \<notin> hm_dom (rx_pending y) \<Longrightarrow> i \<notin> hm_dom (rx_pending (handle_response p y))"
  "i \<notin> hm_dom (rx_pending y) \<Longrightarrow> hm_get (rx_replies (handle_response p y)) i = hm_get (rx_replies y) i"
  by (auto simp: handle_response_def)

lemma responses_other:
  assumes "\<forall>p \<in> set ps. rr_request_id p \<noteq> i"
  shows "(i \<in> hm_dom (rx_pending (fold handle_response ps y)) \<longleftrightarrow> i \<in> hm_dom (rx_pending y))
    \<and> hm_get (rx_replies (fold handle_response ps y)) i = hm_get (rx_replies y) i"
  using assms by (induction ps arbitrary: y) (simp_all add: response_other)

lemma responses_late:
  "i \<notin> hm_dom (rx_pending y) \<Longrightarrow> hm_get (rx_replies (fold handle_response qs y)) i = hm_get (rx_replies y) i"
  by (induction qs arbitrary: y) (simp_all add: response_late)

lemma exec_begin_cases:
  assumes "exec_begin locked fresh cluster target payload secs (x, l) = (r, x1, l1)"
  shows "r = Inr (show_id fresh) \<and> x1 = x\<lparr>rx_pending := hm_insert (show_id fresh) () (rx_pending x)\<rparr>
    \<or> (\<exists>e. r = Inl e) \<and> x1 = x\<lparr>rx_pending := hm_remove (show_id fresh) (rx_pending x)\<rparr>"
  using assms by (auto simp: exec_begin_def Let_def AList.delete_update_same split: prod.splits if_splits)

text \<open>A request that was sent is answered by the first response with its identifier, whatever
  responses come before with other identifiers or after with the same one, and the wait hands it
  out once; a request that could not be sent leaves nothing pending.\<close>

theorem remote_result_first_response:
  assumes "exec_begin locked fresh cluster target payload secs (x, l) = (r, x1, l1)"
    and "show_id fresh \<notin> hm_dom (rx_pending x)" "show_id fresh \<notin> hm_dom (rx_replies x)"
    and "\<forall>p \<in> set ps. rr_request_id p \<noteq> show_id fresh" "rr_request_id q = show_id fresh"
  shows "(r = Inr (show_id fresh) \<longrightarrow>
      exec_wait elapsed secs (show_id fresh) (fold handle_response (ps @ q # qs) x1) =
        (Some (Inr q), (fold handle_response (ps @ q # qs) x1)
           \<lparr>rx_replies := hm_remove (show_id fresh) (rx_replies (fold handle_response (ps @ q # qs) x1))\<rparr>)
      \<and> fst (exec_wait False secs (show_id fresh) (fold handle_response ps x1)) = None)
    \<and> (r = Inl e \<longrightarrow> rx_pending x1 = rx_pending x \<and> exec_wait elapsed secs (show_id fresh) x1 =
        (Some (Inl (Internal ''execution cancelled'')), x1))"
proof -
  let ?i = "show_id fresh"
  let ?y = "handle_response q (fold handle_response ps x1)"
  have gone: "hm_remove ?i (rx_pending x) = rx_pending x" using assms(2) by (simp add: hm_dom_def)
  have none: "hm_get (rx_replies x) ?i = None" using assms(3) by (simp only: hm_get_None not_False_eq_True)
  from exec_begin_cases [OF assms(1)] show ?thesis
  proof (elim disjE conjE exE)
    assume r: "r = Inr ?i" and x1: "x1 = x\<lparr>rx_pending := hm_insert ?i () (rx_pending x)\<rparr>"
    have p: "?i \<in> hm_dom (rx_pending (fold handle_response ps x1))"
        "hm_get (rx_replies (fold handle_response ps x1)) ?i = None"
      using responses_other [OF assms(4), of x1] none by (simp_all add: x1)
    then have "hm_get (rx_replies ?y) ?i = Some q" "?i \<notin> hm_dom (rx_pending ?y)"
      by (simp_all add: handle_response_def assms(5))
    then have "hm_get (rx_replies (fold handle_response qs ?y)) ?i = Some q" by (simp add: responses_late)
    with p r show ?thesis by (simp add: exec_wait_def)
  next
    fix e' assume "r = Inl e'" and "x1 = x\<lparr>rx_pending := hm_remove ?i (rx_pending x)\<rparr>"
    then show ?thesis using assms(2) none by (simp add: gone exec_wait_def)
  qed
qed

definition sample_response :: "ls_id \<Rightarrow> int \<Rightarrow> remote_exec_response" where
  "sample_response i n = \<lparr>rr_request_id = show_id i, rr_result = Number n, rr_success = True, rr_error = None, rr_latency_ms = 0\<rparr>"

theorem remote_result_first_response_witness:
  "fst (exec_wait True 5 (show_id 7) (fold handle_response ([] @ sample_response 7 1 # [sample_response 7 2])
      (fst (snd (exec_begin False 7 ''b'' ''tool'' Null 5
        (executor_new, open_channel ''b'' (link_new 1 ''x'' federation_config_default))))))) = Some (Inr (sample_response 7 1))"
proof -
  let ?l = "open_channel ''b'' (link_new 1 ''x'' federation_config_default)"
  obtain r x1 l1 where b: "exec_begin False 7 ''b'' ''tool'' Null 5 (executor_new, ?l) = (r, x1, l1)"
    using prod_cases3 by blast
  then have "r = Inr (show_id 7)"
    by (simp add: exec_begin_def link_send_def push_channel_def open_channel_def link_new_def Let_def)
  with remote_result_first_response [OF b, of "[]" "sample_response 7 1" True "[sample_response 7 2]"] show ?thesis
    unfolding b by (simp add: executor_new_def sample_response_def)
qed

end
