(* ===== verification/Fed_State.thy ===== *)
theory Fed_State
  imports Fed_Link_Props "HOL-Library.List_Lexorder" "HOL-Library.Char_ord"
begin

text \<open>
  State replication and discovery of the federation (crate \<open>federation\<close>, \<open>replication.rs\<close>,
  \<open>discovery.rs\<close>).

  The trait \<open>StateBackend\<close> is the locale \<open>state_backend\<close>; the in-memory backend interprets it. The
  replicator's operations take the backend's operations as arguments, as the code takes a trait
  object. Strings are ordered by their bytes, as Rust orders them. The results of the discovery
  backends and the generated identifiers are arguments.
\<close>

section \<open>State backends\<close>

locale state_backend =
  fixes get :: "string \<Rightarrow> string \<Rightarrow> 's \<Rightarrow> json option"
    and put :: "string \<Rightarrow> string \<Rightarrow> json \<Rightarrow> 's \<Rightarrow> unit ls_result \<times> 's"
  assumes get_put: "put ns k v s = (Inr (), t) \<Longrightarrow> get ns' k' t = (if ns' = ns \<and> k' = k then Some v else get ns' k' s)"
    and put_failed: "put ns k v s = (Inl e, t) \<Longrightarrow> t = s"
begin

lemma get_put_cases:
  "get ns' k' (snd (put ns k v s)) =
    (if fst (put ns k v s) = Inr () \<and> ns' = ns \<and> k' = k then Some v else get ns' k' s)"
proof (cases "put ns k v s")
  case (Pair r t)
  then show ?thesis using get_put [of ns k v s t ns' k'] put_failed [of ns k v s _ t] by (cases r) auto
qed

end

text \<open>The in-memory backend: values with a version per namespace and key.\<close>

type_synonym memory_state = "(string, (string, json \<times> nat) hmap) hmap"

definition memory_state_new :: memory_state where
  "memory_state_new = []"

definition memory_state_get :: "string \<Rightarrow> string \<Rightarrow> memory_state \<Rightarrow> json option" where
  "memory_state_get namespace key s = (case hm_get s namespace of
     None \<Rightarrow> None | Some ns \<Rightarrow> map_option fst (hm_get ns key))"

definition memory_state_set :: "string \<Rightarrow> string \<Rightarrow> json \<Rightarrow> memory_state \<Rightarrow> unit ls_result \<times> memory_state" where
  "memory_state_set namespace key v s =
     (let ns = (case hm_get s namespace of None \<Rightarrow> [] | Some ns \<Rightarrow> ns);
          version = (case hm_get ns key of Some (_, n) \<Rightarrow> n + 1 | None \<Rightarrow> 1)
      in (Inr (), hm_insert namespace (hm_insert key (v, version) ns) s))"

definition memory_state_keys :: "string \<Rightarrow> memory_state \<Rightarrow> string list" where
  "memory_state_keys namespace s = (case hm_get s namespace of None \<Rightarrow> [] | Some ns \<Rightarrow> hm_keys ns)"

interpretation memory_state: state_backend memory_state_get memory_state_set
  by unfold_locales (auto simp: memory_state_get_def memory_state_set_def Let_def split: option.splits if_splits)

section \<open>The replicator\<close>

datatype replication_strategy = Broadcast | ToLeader | Direct

record state_replicator =
  sp_strategy :: replication_strategy
  sp_namespaces :: "string list"

definition replicator_new :: state_replicator where
  "replicator_new = \<lparr>sp_strategy = Broadcast, sp_namespaces = []\<rparr>"

definition set_strategy :: "replication_strategy \<Rightarrow> state_replicator \<Rightarrow> state_replicator" where
  "set_strategy st r = r\<lparr>sp_strategy := st\<rparr>"

definition add_namespace :: "string \<Rightarrow> state_replicator \<Rightarrow> state_replicator" where
  "add_namespace ns r = r\<lparr>sp_namespaces := sp_namespaces r @ [ns]\<rparr>"

definition should_replicate :: "string \<Rightarrow> state_replicator \<Rightarrow> bool" where
  "should_replicate ns r \<longleftrightarrow> sp_namespaces r = [] \<or> list_ex (\<lambda>x. x = ns) (sp_namespaces r)"

definition replicator_set ::
  "(string \<Rightarrow> string \<Rightarrow> 's \<Rightarrow> json option) \<Rightarrow> (string \<Rightarrow> string \<Rightarrow> json \<Rightarrow> 's \<Rightarrow> unit ls_result \<times> 's) \<Rightarrow>
   bool \<Rightarrow> nat \<Rightarrow> state_replicator \<Rightarrow> string \<Rightarrow> string \<Rightarrow> json \<Rightarrow> 's \<times> link_manager \<Rightarrow>
   unit ls_result \<times> 's \<times> link_manager" where
  "replicator_set get put locked now_secs r namespace key v = (\<lambda>(s, l).
     (case put namespace key v s of
        (Inl e, s1) \<Rightarrow> (Inl e, s1, l)
      | (Inr _, s1) \<Rightarrow>
          if should_replicate namespace r
          then (let version = (case get namespace key s1 of None \<Rightarrow> 0 | Some _ \<Rightarrow> now_secs);
                    msg = StateReplicate \<lparr>sr_key = key, sr_value = v, sr_version = version, sr_namespace = namespace\<rparr>
                in (case sp_strategy r of
                      Broadcast \<Rightarrow> (Inr (), s1, link_broadcast locked msg l)
                    | ToLeader \<Rightarrow> (Inr (), s1, link_broadcast locked msg l)
                    | Direct \<Rightarrow> (Inr (), s1, l)))
          else (Inr (), s1, l)))"

definition handle_replicate ::
  "(string \<Rightarrow> string \<Rightarrow> json \<Rightarrow> 's \<Rightarrow> unit ls_result \<times> 's) \<Rightarrow> state_replicate_payload \<Rightarrow> 's \<Rightarrow>
   state_replicate_ack_payload \<times> 's" where
  "handle_replicate put p s =
     (case put (sr_namespace p) (sr_key p) (sr_value p) s of
        (Inr _, t) \<Rightarrow> (\<lparr>sa_key = sr_key p, sa_version = sr_version p, sa_accepted = True, sa_error = None\<rparr>, t)
      | (Inl e, t) \<Rightarrow> (\<lparr>sa_key = sr_key p, sa_version = sr_version p, sa_accepted = False,
          sa_error = Some (error_text e)\<rparr>, t))"

context state_backend
begin

lemma get_handle_replicate:
  "get ns k (snd (handle_replicate put p s)) =
    (if sa_accepted (fst (handle_replicate put p s)) \<and> sr_namespace p = ns \<and> sr_key p = k
     then Some (sr_value p) else get ns k s)"
  using get_put_cases [of ns k "sr_namespace p" "sr_key p" "sr_value p" s]
  by (auto simp: handle_replicate_def split: prod.splits sum.splits)

lemma replicator_set_local:
  assumes "replicator_set get put locked now r ns k v (s, l) = (Inr (), s', l')"
  shows "get ns' k' s' = (if ns' = ns \<and> k' = k then Some v else get ns' k' s)"
  using assms get_put
  by (auto simp: replicator_set_def Let_def split: prod.splits sum.splits if_splits replication_strategy.splits)

lemma replicator_set_message:
  assumes "replicator_set get put locked now r ns k v (s, l) = (Inr (), s', l')"
    and "should_replicate ns r" "sp_strategy r \<noteq> Direct"
  shows "l' = link_broadcast locked (StateReplicate \<lparr>sr_key = k, sr_value = v, sr_version = now, sr_namespace = ns\<rparr>) l"
proof -
  obtain s1 where put: "put ns k v s = (Inr (), s1)" using assms(1)
    by (auto simp: replicator_set_def split: prod.splits sum.splits)
  have "get ns k s1 = Some v" using get_put [OF put] by simp
  with assms put show ?thesis
    by (cases "sp_strategy r") (simp_all add: replicator_set_def Let_def)
qed

end

section \<open>Properties of the replication\<close>

lemma memory_replicate_accepts: "sa_accepted (fst (handle_replicate memory_state_set p s))"
  by (simp add: handle_replicate_def memory_state_set_def Let_def)

text \<open>After any sequence of replication messages the in-memory backend holds for every key the value of
  the message that arrived last, and every message is acknowledged as accepted with its own version:
  versions are not compared, so an older one that arrives late replaces a newer one.\<close>

theorem replication_last_message_wins:
  "memory_state_get ns k (fold (\<lambda>p s. snd (handle_replicate memory_state_set p s)) ps s) =
      (case filter (\<lambda>p. sr_namespace p = ns \<and> sr_key p = k) ps of
         [] \<Rightarrow> memory_state_get ns k s | q # qs \<Rightarrow> Some (sr_value (last (q # qs))))
    \<and> sa_accepted (fst (handle_replicate memory_state_set p s))
    \<and> sa_version (fst (handle_replicate memory_state_set p s)) = sr_version p"
proof (intro conjI)
  show "memory_state_get ns k (fold (\<lambda>p s. snd (handle_replicate memory_state_set p s)) ps s) =
      (case filter (\<lambda>p. sr_namespace p = ns \<and> sr_key p = k) ps of
         [] \<Rightarrow> memory_state_get ns k s | q # qs \<Rightarrow> Some (sr_value (last (q # qs))))"
    by (induction ps rule: rev_induct)
      (auto simp: memory_state.get_handle_replicate memory_replicate_accepts split: list.splits)
qed (simp_all add: handle_replicate_def memory_state_set_def Let_def)

text \<open>A value set through the replicator is read back locally, and when its namespace is replicated by
  a broadcast, it is the last message of every open connection; a cluster that handles that message
  then reads the same value.\<close>

theorem replication_reaches_peers:
  assumes "link_inv l" "should_replicate ns r" "sp_strategy r \<noteq> Direct"
    and "replicator_set memory_state_get memory_state_set False now r ns k v (s, l) = (res, s', l')"
    and "hm_get (lm_connections l) cid = Some c" "lc_open (lm_channels l ! c)"
  shows "res = Inr () \<and> memory_state_get ns k s' = Some v
    \<and> (\<exists>p. last (lc_queue (lm_channels l' ! c)) = StateReplicate p
      \<and> memory_state_get ns k (snd (handle_replicate memory_state_set p peer)) = Some v)"
proof -
  have res: "res = Inr ()" using assms(4)
    by (auto simp: replicator_set_def memory_state_set_def Let_def split: if_splits replication_strategy.splits)
  note set = assms(4) [unfolded res]
  let ?p = "\<lparr>sr_key = k, sr_value = v, sr_version = now, sr_namespace = ns\<rparr>"
  have ok: "hm_ok (lm_connections l)" and bound: "\<forall>d \<in> set (hm_values (lm_connections l)). d < length (lm_channels l)"
    and dist: "distinct (hm_values (lm_connections l))"
    using assms(1) by (simp_all add: link_inv_def)
  have mem: "c \<in> set (hm_values (lm_connections l))"
    using hm_get_mem [OF assms(5)] by force
  have c: "c < length (lm_channels l)" using bound mem by blast
  have "last (lc_queue (lm_channels l' ! c)) = StateReplicate ?p"
    using fold_push_channels [OF dist bound c, of "StateReplicate ?p"] mem assms(6)
    unfolding memory_state.replicator_set_message [OF set assms(2,3)]
    by (simp add: link_broadcast_def Let_def)
  moreover have "memory_state_get ns k (snd (handle_replicate memory_state_set ?p peer)) = Some v"
    by (simp add: memory_state.get_handle_replicate memory_replicate_accepts)
  moreover have "memory_state_get ns k s' = Some v"
    using memory_state.replicator_set_local [OF set, of ns k] by simp
  ultimately show ?thesis using res by blast
qed

theorem replication_reaches_peers_witness:
  "\<exists>s' l' p. replicator_set memory_state_get memory_state_set False 5 replicator_new ''ns'' ''k'' (Number 3)
      (memory_state_new, open_channel ''b'' (link_new 1 ''x'' federation_config_default)) = (Inr (), s', l')
    \<and> last (lc_queue (lm_channels l' ! 0)) = StateReplicate p
    \<and> memory_state_get ''ns'' ''k'' (snd (handle_replicate memory_state_set p memory_state_new)) = Some (Number 3)"
proof -
  let ?l = "open_channel ''b'' (link_new 1 ''x'' federation_config_default)"
  obtain res s' l' where set: "replicator_set memory_state_get memory_state_set False 5 replicator_new ''ns'' ''k'' (Number 3)
      (memory_state_new, ?l) = (res, s', l')" using prod_cases3 by blast
  have "link_inv ?l" by (intro link_inv_open link_inv_new)
  moreover have "hm_get (lm_connections ?l) ''b'' = Some 0" "lc_open (lm_channels ?l ! 0)"
    by (simp_all add: open_channel_def link_new_def)
  moreover have "should_replicate ''ns'' replicator_new" "sp_strategy replicator_new \<noteq> Direct"
    by (simp_all add: should_replicate_def replicator_new_def)
  ultimately show ?thesis
    using replication_reaches_peers [OF _ _ _ set, of "''b''" 0 memory_state_new] set by blast
qed

section \<open>Discovery\<close>

record discovered_node =
  dn_id :: string
  dn_name :: string
  dn_addrs :: "string list"
  dn_metadata :: "(string, string) hmap"

definition static_discover :: "string list \<Rightarrow> discovered_node list ls_result" where
  "static_discover seeds = Inr (map (\<lambda>(i, addr). \<lparr>dn_id = ''seed-'' @ show_nat i, dn_name = ''seed-'' @ show_nat i,
     dn_addrs = [addr], dn_metadata = [(''source'', ''static'')]\<rparr>) (zip [0..<length seeds] seeds))"

definition srv_name :: "string \<Rightarrow> string \<Rightarrow> string" where
  "srv_name service domain = ''_'' @ service @ ''._tcp.'' @ domain"

definition dns_discover :: "(string \<Rightarrow> string + string list) \<Rightarrow> string \<Rightarrow> string \<Rightarrow> discovered_node list ls_result" where
  "dns_discover lookup domain service = (case lookup (srv_name service domain) of
     Inr addrs \<Rightarrow> Inr [\<lparr>dn_id = ''dns-'' @ map (\<lambda>c. if c = CHR ''.'' then CHR ''-'' else c) domain,
       dn_name = domain, dn_addrs = addrs, dn_metadata = [(''source'', ''dns'')]\<rparr>]
   | Inl _ \<Rightarrow> Inr [])"

record discovery_manager =
  dm_nodes :: "federation_node list"
  dm_local_cluster_id :: ls_id

definition discovery_new :: "ls_id \<Rightarrow> discovery_manager" where
  "discovery_new i = \<lparr>dm_nodes = [], dm_local_cluster_id = i\<rparr>"

text \<open>The nodes a full round collects: those of every backend that succeeded, but for the local
  cluster; \<open>fresh\<close> supplies the generated identifiers in order.\<close>

definition raw_nodes :: "ls_id \<Rightarrow> discovered_node list ls_result list \<Rightarrow> discovered_node list" where
  "raw_nodes local_id results = concat (map (\<lambda>r. case r of Inl _ \<Rightarrow> []
     | Inr raws \<Rightarrow> filter (\<lambda>raw. dn_id raw \<noteq> show_id local_id) raws) results)"

definition node_of_raw :: "int \<Rightarrow> ls_id \<Rightarrow> discovered_node \<Rightarrow> federation_node" where
  "node_of_raw now fresh raw = (let node = federation_node_new now fresh (dn_name raw) (dn_addrs raw)
     in node\<lparr>fn_metadata := fold (\<lambda>(k, v). hm_insert k v) (dn_metadata raw) (fn_metadata node)\<rparr>)"

text \<open>\<open>dedup_by\<close> on the names keeps the first of each run.\<close>

fun dedup_names :: "federation_node list \<Rightarrow> federation_node list" where
  "dedup_names [] = []"
| "dedup_names [a] = [a]"
| "dedup_names (a # b # ns) = (if fn_name b = fn_name a then dedup_names (a # ns) else a # dedup_names (b # ns))"

definition discover ::
  "int \<Rightarrow> (nat \<Rightarrow> ls_id) \<Rightarrow> discovered_node list ls_result list \<Rightarrow> discovery_manager \<Rightarrow>
   federation_node list ls_result \<times> discovery_manager" where
  "discover now fresh results m =
     (let raws = raw_nodes (dm_local_cluster_id m) results;
          all_nodes = map (\<lambda>(i, raw). node_of_raw now (fresh i) raw) (zip [0..<length raws] raws);
          nodes = dedup_names (sort_key fn_name all_nodes)
      in (Inr nodes, m\<lparr>dm_nodes := nodes\<rparr>))"

lemma dedup_names_set: "fn_name ` set (dedup_names ns) = fn_name ` set ns"
  by (induction ns rule: dedup_names.induct) auto

lemma dedup_names_subset: "set (dedup_names ns) \<subseteq> set ns"
  by (induction ns rule: dedup_names.induct) auto

lemma dedup_names_sorted:
  "sorted (map fn_name ns) \<Longrightarrow> sorted (map fn_name (dedup_names ns)) \<and> distinct (map fn_name (dedup_names ns))"
proof (induction ns rule: dedup_names.induct)
  case (3 a b ns)
  show ?case
  proof (cases "fn_name b = fn_name a")
    case True
    with 3 show ?thesis by simp
  next
    case False
    have "fn_name a < fn_name n" if "n \<in> set (b # ns)" for n
      using 3(3) False that by (auto simp: less_le)
    then have "\<forall>x \<in> fn_name ` set (dedup_names (b # ns)). fn_name a < x" unfolding dedup_names_set by blast
    with False 3 show ?thesis by (auto simp: less_imp_le)
  qed
qed simp_all

lemma node_of_raw_name [simp]: "fn_name (node_of_raw now f raw) = dn_name raw"
  by (simp add: node_of_raw_def federation_node_new_def Let_def)

text \<open>A round of discovery lists the names of all nodes that some backend reported under another
  identifier than the local cluster's, each once and in order, and stores exactly what it returns; a
  backend that fails takes nothing away from the others.\<close>

theorem discover_exact:
  "\<exists>nodes. discover now fresh results m = (Inr nodes, m\<lparr>dm_nodes := nodes\<rparr>)
    \<and> sorted (map fn_name nodes) \<and> distinct (map fn_name nodes)
    \<and> fn_name ` set nodes = {dn_name raw | raw raws. Inr raws \<in> set results \<and> raw \<in> set raws
        \<and> dn_id raw \<noteq> show_id (dm_local_cluster_id m)}"
proof -
  let ?raws = "raw_nodes (dm_local_cluster_id m) results"
  let ?all = "map (\<lambda>(i, raw). node_of_raw now (fresh i) raw) (zip [0..<length ?raws] ?raws)"
  let ?nodes = "dedup_names (sort_key fn_name ?all)"
  have "map fn_name ?all = map dn_name ?raws" by (rule nth_equalityI) simp_all
  then have "fn_name ` set ?all = dn_name ` set ?raws" by (metis set_map)
  then have "fn_name ` set ?nodes = dn_name ` set ?raws" by (simp add: dedup_names_set)
  also have "\<dots> = {dn_name raw | raw raws. Inr raws \<in> set results \<and> raw \<in> set raws
        \<and> dn_id raw \<noteq> show_id (dm_local_cluster_id m)}"
    by (force simp: raw_nodes_def split: sum.splits)
  finally show ?thesis
    using dedup_names_sorted [of "sort_key fn_name ?all"] by (simp add: discover_def Let_def)
qed

end
