(* ===== verification/Job_Queue.thy ===== *)
theory Job_Queue
  imports Core
begin

text \<open>
  The job queue of the task scheduler (crate \<open>runtime\<close>, \<open>task_queue.rs\<close>, and the types of
  \<open>task_scheduler.rs\<close> it needs).

  The trait \<open>JobQueue\<close> is the locale \<open>job_queue\<close>: its contract in terms of the multiset of jobs
  that wait. \<open>InMemoryJobQueue\<close> keeps a binary heap, which is the list of its entries here; which
  of several greatest entries \<open>pop\<close> returns is an argument. Of a job, a trait object, the model has
  what the queue and the scheduler ask it for; running it is an event with an outcome. The \<open>f64\<close>
  back-off factor and the delays computed with it are left out.
\<close>

section \<open>Jobs\<close>

datatype job_status = Pending | Running | Completed | Failed string | Cancelled | TimedOut

definition is_terminal :: "job_status \<Rightarrow> bool" where
  "is_terminal s \<longleftrightarrow> (case s of Completed \<Rightarrow> True | Failed _ \<Rightarrow> True | Cancelled \<Rightarrow> True | TimedOut \<Rightarrow> True | _ \<Rightarrow> False)"

definition is_active :: "job_status \<Rightarrow> bool" where
  "is_active s \<longleftrightarrow> s = Pending \<or> s = Running"

lemma terminal_or_active: "is_terminal s \<longleftrightarrow> \<not> is_active s"
  by (cases s) (simp_all add: is_terminal_def is_active_def)

record retry_policy =
  rp_max_retries :: nat
  rp_base_delay_ms :: nat
  rp_max_delay_ms :: nat

definition retry_policy_default :: retry_policy where
  "retry_policy_default = \<lparr>rp_max_retries = 3, rp_base_delay_ms = 1000, rp_max_delay_ms = 60000\<rparr>"

text \<open>A timeout is in milliseconds, a priority below 256.\<close>

record job =
  jb_id :: ls_id
  jb_name :: string
  jb_retry_policy :: "retry_policy option"
  jb_timeout :: "nat option"
  jb_priority :: nat

section \<open>The interface of a queue\<close>

locale job_queue =
  fixes enq :: "int \<Rightarrow> job \<Rightarrow> 'q \<Rightarrow> 'q" and deq :: "nat \<Rightarrow> 'q \<Rightarrow> job option \<times> 'q"
    and rm :: "ls_id \<Rightarrow> 'q \<Rightarrow> 'q" and len :: "'q \<Rightarrow> nat" and wipe :: "'q \<Rightarrow> 'q"
    and jobs :: "'q \<Rightarrow> job multiset" and ok :: "'q \<Rightarrow> bool"
  assumes enq_jobs: "ok q \<Longrightarrow> jb_id j \<notin> jb_id ` set_mset (jobs q) \<Longrightarrow>
      ok (enq now j q) \<and> jobs (enq now j q) = add_mset j (jobs q)"
    and deq_None: "ok q \<Longrightarrow> deq tie q = (None, q') \<Longrightarrow> jobs q = {#} \<and> q' = q"
    and deq_Some: "ok q \<Longrightarrow> deq tie q = (Some j, q') \<Longrightarrow> ok q' \<and> jobs q = add_mset j (jobs q')"
    and rm_jobs: "ok q \<Longrightarrow> ok (rm i q) \<and> jobs (rm i q) = filter_mset (\<lambda>j. jb_id j \<noteq> i) (jobs q)"
    and len_jobs: "ok q \<Longrightarrow> len q = size (jobs q)"
    and wipe_jobs: "ok (wipe q) \<and> jobs (wipe q) = {#}"
begin

lemma deq_empty: "ok q \<Longrightarrow> fst (deq tie q) = None \<longleftrightarrow> jobs q = {#}"
  by (cases "deq tie q"; cases "fst (deq tie q)") (auto dest: deq_None deq_Some)

lemma deq_from: "ok q \<Longrightarrow> deq tie q = (Some j, q') \<Longrightarrow> j \<in># jobs q"
  by (auto dest: deq_Some)

text \<open>A removed job is never taken out afterwards.\<close>

lemma rm_not_dequeued: "ok q \<Longrightarrow> deq tie (rm i q) = (Some j, q') \<Longrightarrow> jb_id j \<noteq> i"
  using deq_from [of "rm i q" tie j q'] by (auto simp: rm_jobs)

text \<open>Taking out everything gives every job once.\<close>

fun drain :: "nat \<Rightarrow> 'q \<Rightarrow> job list" where
  "drain 0 q = []"
| "drain (Suc n) q = (case deq 0 q of (None, _) \<Rightarrow> [] | (Some j, q') \<Rightarrow> j # drain n q')"

lemma drain_jobs: "ok q \<Longrightarrow> len q \<le> n \<Longrightarrow> mset (drain n q) = jobs q"
proof (induction n arbitrary: q)
  case 0
  then show ?case by (simp add: len_jobs)
next
  case (Suc n)
  show ?case
  proof (cases "deq 0 q")
    case (Pair r q')
    show ?thesis
    proof (cases r)
      case None
      with Pair Suc.prems show ?thesis using deq_None [of q 0 q'] by simp
    next
      case (Some j)
      with Pair Suc.prems have "ok q' \<and> jobs q = add_mset j (jobs q')" using deq_Some by simp
      with Pair Some Suc show ?thesis by (simp add: len_jobs)
    qed
  qed
qed

end

section \<open>The queue in memory\<close>

record job_wrapper =
  jw_job :: job
  jw_enqueued_at :: int

definition wrapper_priority :: "job_wrapper \<Rightarrow> nat \<times> int" where
  "wrapper_priority w = (jb_priority (jw_job w), - jw_enqueued_at w)"

text \<open>The order of the heap: priority first, then the earlier one.\<close>

definition priority_le :: "job_wrapper \<Rightarrow> job_wrapper \<Rightarrow> bool" where
  "priority_le v w \<longleftrightarrow> (let (p, s) = wrapper_priority v; (q, t) = wrapper_priority w in p < q \<or> p = q \<and> s \<le> t)"

record mem_queue =
  mq_heap :: "job_wrapper list"
  mq_by_id :: "(ls_id, unit) hmap"

definition mem_queue_new :: mem_queue where
  "mem_queue_new = \<lparr>mq_heap = [], mq_by_id = []\<rparr>"

definition greatest :: "job_wrapper list \<Rightarrow> job_wrapper list" where
  "greatest ws = filter (\<lambda>w. list_all (\<lambda>v. priority_le v w) ws) ws"

definition mq_enqueue :: "int \<Rightarrow> job \<Rightarrow> mem_queue \<Rightarrow> mem_queue" where
  "mq_enqueue now j q = \<lparr>mq_heap = mq_heap q @ [\<lparr>jw_job = j, jw_enqueued_at = now\<rparr>],
     mq_by_id = hm_insert (jb_id j) () (mq_by_id q)\<rparr>"

definition mq_dequeue :: "nat \<Rightarrow> mem_queue \<Rightarrow> job option \<times> mem_queue" where
  "mq_dequeue tie q =
     (if mq_heap q = [] then (None, q)
      else (let ws = greatest (mq_heap q); w = ws ! (tie mod length ws)
            in (Some (jw_job w), \<lparr>mq_heap = remove1 w (mq_heap q), mq_by_id = hm_remove (jb_id (jw_job w)) (mq_by_id q)\<rparr>)))"

definition mq_peek :: "mem_queue \<Rightarrow> job option" where
  "mq_peek q = None"

definition mq_remove :: "ls_id \<Rightarrow> mem_queue \<Rightarrow> mem_queue" where
  "mq_remove i q =
     (if \<not> hm_has i (mq_by_id q) then q
      else \<lparr>mq_heap = filter (\<lambda>w. jb_id (jw_job w) \<noteq> i) (mq_heap q), mq_by_id = hm_remove i (mq_by_id q)\<rparr>)"

definition mq_len :: "mem_queue \<Rightarrow> nat" where
  "mq_len q = length (mq_heap q)"

definition mq_is_empty :: "mem_queue \<Rightarrow> bool" where
  "mq_is_empty q \<longleftrightarrow> length (mq_heap q) = 0"

definition mq_clear :: "mem_queue \<Rightarrow> mem_queue" where
  "mq_clear q = \<lparr>mq_heap = [], mq_by_id = []\<rparr>"

text \<open>The index agrees with the heap as long as no identifier waits twice.\<close>

definition mq_jobs :: "mem_queue \<Rightarrow> job multiset" where
  "mq_jobs q = mset (map jw_job (mq_heap q))"

definition mq_ids :: "mem_queue \<Rightarrow> ls_id list" where
  "mq_ids q = map (\<lambda>w. jb_id (jw_job w)) (mq_heap q)"

definition mq_ok :: "mem_queue \<Rightarrow> bool" where
  "mq_ok q \<longleftrightarrow> distinct (mq_ids q) \<and> hm_dom (mq_by_id q) = set (mq_ids q)"

lemma mq_ids_jobs: "set (mq_ids q) = jb_id ` set_mset (mq_jobs q)"
  by (auto simp: mq_ids_def mq_jobs_def)

lemma priority_le_trans: "priority_le a b \<Longrightarrow> priority_le b c \<Longrightarrow> priority_le a c"
  by (auto simp: priority_le_def wrapper_priority_def)

lemma priority_le_linear: "priority_le a b \<or> priority_le b a"
  by (auto simp: priority_le_def wrapper_priority_def)

lemma priority_le_refl: "priority_le a a"
  by (simp add: priority_le_def wrapper_priority_def)

lemma greatest_exists: "ws \<noteq> [] \<Longrightarrow> \<exists>w \<in> set ws. \<forall>v \<in> set ws. priority_le v w"
proof (induction ws rule: list_nonempty_induct)
  case (single w)
  then show ?case by (simp add: priority_le_refl)
next
  case (cons u ws)
  then obtain w where w: "w \<in> set ws" "\<forall>v \<in> set ws. priority_le v w" by blast
  show ?case
  proof (cases "priority_le u w")
    case True
    with w show ?thesis by auto
  next
    case False
    then have "priority_le w u" using priority_le_linear by blast
    with w have "\<forall>v \<in> set (u # ws). priority_le v u" using priority_le_trans priority_le_refl by auto
    then show ?thesis by simp
  qed
qed

lemma dequeue_choice:
  assumes "mq_heap q \<noteq> []"
  obtains w where "w \<in> set (mq_heap q)" "\<forall>v \<in> set (mq_heap q). priority_le v w"
    "mq_dequeue tie q = (Some (jw_job w),
      \<lparr>mq_heap = remove1 w (mq_heap q), mq_by_id = hm_remove (jb_id (jw_job w)) (mq_by_id q)\<rparr>)"
proof -
  let ?ws = "greatest (mq_heap q)"
  have "?ws \<noteq> []" using greatest_exists [OF assms] by (auto simp: greatest_def filter_empty_conv list_all_iff)
  then have "?ws ! (tie mod length ?ws) \<in> set ?ws" by simp
  then have "?ws ! (tie mod length ?ws) \<in> set (mq_heap q)"
    "\<forall>v \<in> set (mq_heap q). priority_le v (?ws ! (tie mod length ?ws))"
    by (auto simp: greatest_def list_all_iff)
  then show ?thesis by (rule that) (simp add: mq_dequeue_def assms Let_def)
qed

lemma dequeue_jobs:
  assumes "mq_ok q" "mq_dequeue tie q = (Some j, q')"
  shows "mq_ok q' \<and> mq_jobs q = add_mset j (mq_jobs q')"
proof -
  have "mq_heap q \<noteq> []" using assms(2) by (auto simp: mq_dequeue_def split: if_splits)
  then obtain w where w: "w \<in> set (mq_heap q)" "mq_dequeue tie q = (Some (jw_job w),
      \<lparr>mq_heap = remove1 w (mq_heap q), mq_by_id = hm_remove (jb_id (jw_job w)) (mq_by_id q)\<rparr>)"
    by (rule dequeue_choice)
  with assms(2) have j: "j = jw_job w" and q': "mq_heap q' = remove1 w (mq_heap q)"
      "mq_by_id q' = hm_remove (jb_id (jw_job w)) (mq_by_id q)" by auto
  have jobs: "mq_jobs q = add_mset j (mq_jobs q')"
    using w(1) by (simp add: mq_jobs_def q' j image_mset_Diff)
  have inj: "inj_on (\<lambda>w. jb_id (jw_job w)) (set (mq_heap q))" and dist: "distinct (mq_heap q)"
    using assms(1) by (auto simp: mq_ok_def mq_ids_def distinct_map)
  have "set (mq_ids q') = set (mq_ids q) - {jb_id (jw_job w)}"
    using w(1) inj dist by (auto simp: mq_ids_def q' inj_on_def)
  moreover have "distinct (mq_ids q')"
    using inj dist by (auto simp: mq_ids_def q' distinct_map intro: inj_on_subset)
  ultimately show ?thesis using assms(1) jobs by (simp add: mq_ok_def q')
qed

lemma mq_remove_jobs:
  assumes "mq_ok q"
  shows "mq_ok (mq_remove i q) \<and> mq_jobs (mq_remove i q) = filter_mset (\<lambda>j. jb_id j \<noteq> i) (mq_jobs q)"
proof (cases "i \<in> hm_dom (mq_by_id q)")
  case True
  have jobs: "mset (map jw_job (filter (\<lambda>w. jb_id (jw_job w) \<noteq> i) ws)) =
      filter_mset (\<lambda>j. jb_id j \<noteq> i) (mset (map jw_job ws))" for ws
    by (induction ws) auto
  have heap: "mq_heap (mq_remove i q) = filter (\<lambda>w. jb_id (jw_job w) \<noteq> i) (mq_heap q)"
      "mq_by_id (mq_remove i q) = hm_remove i (mq_by_id q)"
    using True by (simp_all add: mq_remove_def)
  have "mq_ok (mq_remove i q)"
    using assms by (auto simp: mq_ok_def mq_ids_def heap distinct_map_filter)
  then show ?thesis by (simp only: mq_jobs_def heap jobs)
next
  case False
  then have "i \<notin> jb_id ` set_mset (mq_jobs q)" using assms by (simp add: mq_ok_def flip: mq_ids_jobs)
  then have "filter_mset (\<lambda>j. jb_id j \<noteq> i) (mq_jobs q) = mq_jobs q"
    by (auto simp: filter_mset_eq_conv image_iff)
  with False assms show ?thesis by (simp add: mq_remove_def)
qed

interpretation mem_queue: job_queue mq_enqueue mq_dequeue mq_remove mq_len mq_clear mq_jobs mq_ok
proof
  fix q :: mem_queue and q' :: mem_queue and j :: job and i :: ls_id and now :: int and tie :: nat
  show "mq_ok q \<Longrightarrow> jb_id j \<notin> jb_id ` set_mset (mq_jobs q) \<Longrightarrow>
      mq_ok (mq_enqueue now j q) \<and> mq_jobs (mq_enqueue now j q) = add_mset j (mq_jobs q)"
    unfolding mq_ids_jobs [symmetric] by (auto simp: mq_ok_def mq_ids_def mq_jobs_def mq_enqueue_def)
  show "mq_ok q \<Longrightarrow> mq_dequeue tie q = (None, q') \<Longrightarrow> mq_jobs q = {#} \<and> q' = q"
    by (auto simp: mq_dequeue_def mq_jobs_def Let_def split: if_splits)
  show "mq_ok q \<Longrightarrow> mq_dequeue tie q = (Some j, q') \<Longrightarrow> mq_ok q' \<and> mq_jobs q = add_mset j (mq_jobs q')"
    by (rule dequeue_jobs)
  show "mq_ok q \<Longrightarrow> mq_ok (mq_remove i q) \<and> mq_jobs (mq_remove i q) = filter_mset (\<lambda>j. jb_id j \<noteq> i) (mq_jobs q)"
    by (rule mq_remove_jobs)
  show "mq_ok q \<Longrightarrow> mq_len q = size (mq_jobs q)" by (simp add: mq_len_def mq_jobs_def)
  show "mq_ok (mq_clear q) \<and> mq_jobs (mq_clear q) = {#}"
    by (simp add: mq_clear_def mq_ok_def mq_ids_def mq_jobs_def)
qed

section \<open>Properties\<close>

text \<open>A job is taken out of the queue in order of priority and, among equals, of arrival: no waiting
  job has a higher priority, and none of the same priority came earlier; the other jobs go on
  waiting, and taking out repeatedly gives every waiting job exactly once.\<close>

theorem dequeue_by_priority:
  assumes "mq_ok q" "mq_dequeue tie q = (Some j, q')"
  shows "(\<exists>t. \<lparr>jw_job = j, jw_enqueued_at = t\<rparr> \<in> set (mq_heap q)
      \<and> (\<forall>w \<in> set (mq_heap q). jb_priority (jw_job w) < jb_priority j
          \<or> jb_priority (jw_job w) = jb_priority j \<and> t \<le> jw_enqueued_at w))
    \<and> mq_jobs q = add_mset j (mq_jobs q')
    \<and> mset (mem_queue.drain (mq_len q) q) = mq_jobs q"
proof -
  have "mq_heap q \<noteq> []" using assms(2) by (auto simp: mq_dequeue_def split: if_splits)
  then obtain w where w: "w \<in> set (mq_heap q)" "\<forall>v \<in> set (mq_heap q). priority_le v w" "j = jw_job w"
    using assms(2) by (metis dequeue_choice option.inject prod.inject)
  have "\<lparr>jw_job = j, jw_enqueued_at = jw_enqueued_at w\<rparr> = w" by (simp add: w(3))
  with w(1) have "\<lparr>jw_job = j, jw_enqueued_at = jw_enqueued_at w\<rparr> \<in> set (mq_heap q)" by (simp only:)
  with w show ?thesis
    using mem_queue.deq_Some [OF assms] mem_queue.drain_jobs [OF assms(1) order_refl]
    by (auto simp: priority_le_def wrapper_priority_def intro!: exI [of _ "jw_enqueued_at w"])
qed

definition sample_job :: "ls_id \<Rightarrow> nat \<Rightarrow> job" where
  "sample_job i p = \<lparr>jb_id = i, jb_name = ''job'', jb_retry_policy = None, jb_timeout = None, jb_priority = p\<rparr>"

theorem dequeue_by_priority_witness:
  "fst (mq_dequeue 0 (mq_enqueue 2 (sample_job 8 9) (mq_enqueue 1 (sample_job 7 3) mem_queue_new))) = Some (sample_job 8 9)"
proof -
  let ?q = "mq_enqueue 2 (sample_job 8 9) (mq_enqueue 1 (sample_job 7 3) mem_queue_new)"
  have ok: "mq_ok ?q" by (simp add: mq_ok_def mq_ids_def mq_enqueue_def mem_queue_new_def sample_job_def)
  obtain r q' where d: "mq_dequeue 0 ?q = (r, q')" by fastforce
  then obtain j where j: "r = Some j" by (cases r) (auto simp: mq_dequeue_def mq_enqueue_def Let_def)
  from dequeue_by_priority [OF ok d [unfolded j]] show ?thesis
    unfolding d j by (auto simp: mq_enqueue_def mem_queue_new_def sample_job_def)
qed

end
