(* ===== verification/Task_Scheduler.thy ===== *)
theory Task_Scheduler
  imports Job_Queue
begin

text \<open>
  The task scheduler of the runtime (crate \<open>runtime\<close>, \<open>task_scheduler.rs\<close>): submission, the worker
  pool with retries, time limits and cancellation, waiting, and statistics.

  Submitters, cancellers and workers run at the same time; the code holds a lock only for short
  stretches. Each stretch is one operation here, and a worker is the phase it is in between two of
  them, so every interleaving of the code is a sequence of these operations. What running a job
  returns, whether its time limit elapsed first, whether a sleep ended, the clock and the choice
  among equal queue entries are inputs.

  A counter that the code changes just before or just after it holds the lock (the one of timed-out
  jobs before, the ones of failed and submitted jobs after) is changed together with it here: the
  counters are exact when no operation is between the two.
\<close>

section \<open>State\<close>

record sched_config =
  sc_max_concurrent :: nat
  sc_retry_policy :: retry_policy
  sc_default_timeout_secs :: nat
  sc_max_queue_len :: nat
  sc_poll_interval_ms :: nat

definition sched_config_default :: sched_config where
  "sched_config_default = \<lparr>sc_max_concurrent = 16, sc_retry_policy = retry_policy_default,
     sc_default_timeout_secs = 300, sc_max_queue_len = 10000, sc_poll_interval_ms = 100\<rparr>"

text \<open>The watch channel of a job is the number of values that were sent to it.\<close>

record job_state =
  js_id :: ls_id
  js_name :: string
  js_status :: job_status
  js_result :: "json ls_result option"
  js_created_at :: int
  js_started_at :: "int option"
  js_completed_at :: "int option"
  js_retry_count :: nat
  js_priority :: nat
  js_cancelled :: bool
  js_version :: nat

definition job_state_new :: "int \<Rightarrow> ls_id \<Rightarrow> string \<Rightarrow> nat \<Rightarrow> job_state" where
  "job_state_new now i name priority = \<lparr>js_id = i, js_name = name, js_status = Pending, js_result = None,
     js_created_at = now, js_started_at = None, js_completed_at = None, js_retry_count = 0,
     js_priority = priority, js_cancelled = False, js_version = 0\<rparr>"

definition set_status :: "job_status \<Rightarrow> job_state \<Rightarrow> job_state" where
  "set_status st js = js\<lparr>js_status := st, js_version := js_version js + 1\<rparr>"

text \<open>Where a worker is: between jobs, with a job it took out, about to mark it running, before an
  attempt, in an attempt, in the pause after a failed one, or about to report the failure.\<close>

datatype worker_phase = WIdle | WPicked job | WStarting job | WAttempt job nat string
  | WExecuting job nat string | WSleeping job nat string | WGivingUp job string | WAborted

record sched =
  ts_config :: sched_config
  ts_queue :: mem_queue
  ts_states :: "(ls_id, job_state) hmap"
  ts_submitting :: "job list"
  ts_workers :: "worker_phase list"
  ts_paused :: bool
  ts_submitted :: nat
  ts_completed :: nat
  ts_failed :: nat
  ts_cancelled :: nat
  ts_timed_out :: nat

definition sched_new :: "sched_config \<Rightarrow> sched" where
  "sched_new config = \<lparr>ts_config = config, ts_queue = mem_queue_new, ts_states = [], ts_submitting = [],
     ts_workers = [], ts_paused = False, ts_submitted = 0, ts_completed = 0, ts_failed = 0,
     ts_cancelled = 0, ts_timed_out = 0\<rparr>"

definition change_state :: "ls_id \<Rightarrow> (job_state \<Rightarrow> job_state) \<Rightarrow> sched \<Rightarrow> sched" where
  "change_state i f s = s\<lparr>ts_states := hm_modify i f (ts_states s)\<rparr>"

section \<open>Control\<close>

definition sched_start :: "sched \<Rightarrow> unit ls_result \<times> sched" where
  "sched_start s = (if ts_workers s \<noteq> [] then (Inl (RuntimeState ''scheduler already started''), s)
     else (Inr (), s\<lparr>ts_workers := replicate (sc_max_concurrent (ts_config s)) WIdle\<rparr>))"

definition sched_shutdown :: "sched \<Rightarrow> unit ls_result \<times> sched" where
  "sched_shutdown s = (Inr (), s\<lparr>ts_workers := map (\<lambda>_. WAborted) (ts_workers s)\<rparr>)"

definition sched_pause :: "sched \<Rightarrow> sched" where
  "sched_pause s = s\<lparr>ts_paused := True\<rparr>"

definition sched_resume :: "sched \<Rightarrow> sched" where
  "sched_resume s = s\<lparr>ts_paused := False\<rparr>"

section \<open>Submission\<close>

text \<open>The checks on the flag and the queue, the registration of the state, and the insertion into the
  queue take a lock each.\<close>

definition submit_admit :: "sched \<Rightarrow> unit ls_result" where
  "submit_admit s =
     (if ts_paused s then Inl (RuntimeState ''scheduler is paused'')
      else (let max_len = sc_max_queue_len (ts_config s)
        in if max_len > 0 \<and> mq_len (ts_queue s) \<ge> max_len
           then Inl (RuntimeState (''queue full (max '' @ show_nat max_len @ '')''))
           else Inr ()))"

definition submit_register :: "int \<Rightarrow> job \<Rightarrow> sched \<Rightarrow> unit ls_result \<times> sched" where
  "submit_register now j s =
     (if hm_has (jb_id j) (ts_states s)
      then (Inl (InvalidArgument (''job '' @ show_id (jb_id j) @ '' already exists'')), s)
      else (Inr (), s\<lparr>ts_states := hm_insert (jb_id j) (job_state_new now (jb_id j) (jb_name j) (jb_priority j)) (ts_states s),
              ts_submitting := ts_submitting s @ [j]\<rparr>))"

definition submit_enqueue :: "int \<Rightarrow> job \<Rightarrow> sched \<Rightarrow> sched" where
  "submit_enqueue now j s = s\<lparr>ts_queue := mq_enqueue now j (ts_queue s),
     ts_submitting := remove1 j (ts_submitting s), ts_submitted := ts_submitted s + 1\<rparr>"

definition sched_submit :: "int \<Rightarrow> job \<Rightarrow> sched \<Rightarrow> ls_id ls_result \<times> sched" where
  "sched_submit now j s = (case submit_admit s of
     Inl e \<Rightarrow> (Inl e, s)
   | Inr _ \<Rightarrow> (case submit_register now j s of
        (Inl e, s1) \<Rightarrow> (Inl e, s1)
      | (Inr _, s1) \<Rightarrow> (Inr (jb_id j), submit_enqueue now j s1)))"

section \<open>Cancellation, status, waiting\<close>

definition cancel_job :: "ls_id \<Rightarrow> sched \<Rightarrow> unit ls_result \<times> sched" where
  "cancel_job i s = (case hm_get (ts_states s) i of
     None \<Rightarrow> (Inl (NotFound (''job '' @ show_id i)), s)
   | Some js \<Rightarrow>
       if is_terminal (js_status js) then (Inr (), s)
       else (Inr (), (change_state i (\<lambda>js. set_status Cancelled (js\<lparr>js_cancelled := True\<rparr>)) s)
              \<lparr>ts_cancelled := ts_cancelled s + 1, ts_queue := mq_remove i (ts_queue s)\<rparr>))"

definition job_status_of :: "ls_id \<Rightarrow> sched \<Rightarrow> job_status" where
  "job_status_of i s = (case hm_get (ts_states s) i of None \<Rightarrow> Cancelled | Some js \<Rightarrow> js_status js)"

text \<open>A wait returns, or goes on with the number of the last change it has seen.\<close>

datatype wait_state = Returned "json ls_result" | WaitingFrom nat

definition wait_result :: "json ls_result \<Rightarrow> json ls_result" where
  "wait_result r = (case r of Inr v \<Rightarrow> Inr v | Inl e \<Rightarrow> Inl (Internal (''job failed: '' @ error_text e)))"

definition wait_begin :: "ls_id \<Rightarrow> sched \<Rightarrow> wait_state" where
  "wait_begin i s = (case hm_get (ts_states s) i of
     None \<Rightarrow> Returned (Inl (NotFound (''job '' @ show_id i)))
   | Some js \<Rightarrow> (case js_result js of
        Some r \<Rightarrow> Returned (wait_result r)
      | None \<Rightarrow> WaitingFrom (js_version js)))"

definition wait_poll :: "ls_id \<Rightarrow> nat \<Rightarrow> sched \<Rightarrow> wait_state" where
  "wait_poll i seen s = (case hm_get (ts_states s) i of
     None \<Rightarrow> WaitingFrom seen
   | Some js \<Rightarrow>
       if js_version js = seen then WaitingFrom seen
       else if is_terminal (js_status js)
       then Returned (case js_result js of Some r \<Rightarrow> wait_result r
              | None \<Rightarrow> Inl (Internal ''job terminated without result''))
       else WaitingFrom (js_version js))"

section \<open>Workers\<close>

definition retries_of :: "sched_config \<Rightarrow> job \<Rightarrow> nat" where
  "retries_of c j = rp_max_retries (case jb_retry_policy j of Some p \<Rightarrow> p | None \<Rightarrow> sc_retry_policy c)"

definition timeout_of :: "sched_config \<Rightarrow> job \<Rightarrow> nat option" where
  "timeout_of c j = (case jb_timeout j of Some t \<Rightarrow> Some t
     | None \<Rightarrow> if sc_default_timeout_secs c > 0 then Some (sc_default_timeout_secs c * 1000) else None)"

datatype run_outcome = Finished "json ls_result" | Elapsed

record worker_input =
  wi_now :: int
  wi_tie :: nat
  wi_outcome :: run_outcome
  wi_slept :: bool

definition is_cancelled :: "ls_id \<Rightarrow> sched \<Rightarrow> bool" where
  "is_cancelled i s = (case hm_get (ts_states s) i of None \<Rightarrow> False | Some js \<Rightarrow> js_cancelled js)"

text \<open>The worker's next step: its phase and the scheduler afterwards.\<close>

fun worker_next :: "worker_input \<Rightarrow> worker_phase \<Rightarrow> sched \<Rightarrow> worker_phase \<times> sched" where
  "worker_next inp WIdle s = (case mq_dequeue (wi_tie inp) (ts_queue s) of
     (None, q) \<Rightarrow> (WIdle, s) | (Some j, q) \<Rightarrow> (WPicked j, s\<lparr>ts_queue := q\<rparr>))"
| "worker_next inp (WPicked j) s =
     (if job_status_of (jb_id j) s = Cancelled \<and> hm_has (jb_id j) (ts_states s) then (WIdle, s) else (WStarting j, s))"
| "worker_next inp (WStarting j) s =
     (WAttempt j 0 [], change_state (jb_id j) (\<lambda>js. (set_status Running js)\<lparr>js_started_at := Some (wi_now inp)\<rparr>) s)"
| "worker_next inp (WAttempt j k err) s = (if is_cancelled (jb_id j) s then (WIdle, s) else (WExecuting j k err, s))"
| "worker_next inp (WExecuting j k err) s = (case wi_outcome inp of
     Elapsed \<Rightarrow>
       if timeout_of (ts_config s) j = None then (WExecuting j k err, s)
       else (WIdle, (change_state (jb_id j) (set_status TimedOut) s)\<lparr>ts_timed_out := ts_timed_out s + 1\<rparr>)
   | Finished (Inr v) \<Rightarrow>
       (WIdle, (change_state (jb_id j)
          (\<lambda>js. (set_status Completed (js\<lparr>js_result := Some (Inr v)\<rparr>))\<lparr>js_completed_at := Some (wi_now inp)\<rparr>) s)
          \<lparr>ts_completed := ts_completed s + 1\<rparr>)
   | Finished (Inl e) \<Rightarrow>
       if k < retries_of (ts_config s) j
       then (WSleeping j k (error_text e), change_state (jb_id j) (\<lambda>js. js\<lparr>js_retry_count := k + 1\<rparr>) s)
       else (WGivingUp j (error_text e), s))"
| "worker_next inp (WSleeping j k err) s =
     (if wi_slept inp then (WAttempt j (k + 1) err, s)
      else if is_cancelled (jb_id j) s then (WIdle, s)
      else (WSleeping j k err, s))"
| "worker_next inp (WGivingUp j err) s =
     (WIdle, (change_state (jb_id j)
        (\<lambda>js. (set_status (Failed err) (js\<lparr>js_result := Some (Inl (Internal err))\<rparr>))\<lparr>js_completed_at := Some (wi_now inp)\<rparr>) s)
        \<lparr>ts_failed := ts_failed s + 1\<rparr>)"
| "worker_next inp WAborted s = (WAborted, s)"

definition worker_step :: "worker_input \<Rightarrow> nat \<Rightarrow> sched \<Rightarrow> sched" where
  "worker_step inp w s = (let (p, s1) = worker_next inp (ts_workers s ! w) s
     in s1\<lparr>ts_workers := (ts_workers s1)[w := p]\<rparr>)"

section \<open>Queries\<close>

record sched_stats =
  ss_submitted :: nat
  ss_completed :: nat
  ss_failed :: nat
  ss_cancelled :: nat
  ss_timed_out :: nat
  ss_pending :: nat
  ss_running :: nat
  ss_max_concurrent :: nat
  ss_paused :: bool

definition count_status :: "job_status \<Rightarrow> sched \<Rightarrow> nat" where
  "count_status st s = length (filter (\<lambda>js. js_status js = st) (hm_values (ts_states s)))"

definition sched_stats_of :: "sched \<Rightarrow> sched_stats" where
  "sched_stats_of s = \<lparr>ss_submitted = ts_submitted s, ss_completed = ts_completed s, ss_failed = ts_failed s,
     ss_cancelled = ts_cancelled s, ss_timed_out = ts_timed_out s, ss_pending = count_status Pending s,
     ss_running = count_status Running s, ss_max_concurrent = sc_max_concurrent (ts_config s),
     ss_paused = ts_paused s\<rparr>"

record job_summary =
  su_job_id :: string
  su_name :: string
  su_status :: job_status
  su_created_at :: int
  su_started_at :: "int option"
  su_completed_at :: "int option"
  su_retry_count :: nat

definition list_jobs :: "job_status option \<Rightarrow> sched \<Rightarrow> job_summary list" where
  "list_jobs filter_status s = map (\<lambda>js. \<lparr>su_job_id = show_id (js_id js), su_name = js_name js,
      su_status = js_status js, su_created_at = js_created_at js, su_started_at = js_started_at js,
      su_completed_at = js_completed_at js, su_retry_count = js_retry_count js\<rparr>)
     (filter (\<lambda>js. case filter_status of None \<Rightarrow> True | Some f \<Rightarrow> js_status js = f) (hm_values (ts_states s)))"

definition get_handle :: "ls_id \<Rightarrow> sched \<Rightarrow> (ls_id \<times> string) ls_result" where
  "get_handle i s = (case hm_get (ts_states s) i of
     None \<Rightarrow> Inl (NotFound (''job '' @ show_id i)) | Some js \<Rightarrow> Inr (i, js_name js))"

end
