(* ===== verification/Sched_Inv.thy ===== *)
theory Sched_Inv
  imports Task_Scheduler
begin

text \<open>
  The task scheduler as a state machine and its invariant: every job that waits or runs is held in
  one place only, its status fits that place, results fit statuses, and the counters count the
  jobs that ended.
\<close>

section \<open>The machine\<close>

inductive sched_step :: "sched \<Rightarrow> sched \<Rightarrow> bool" where
  st_start: "sched_start s = (r, t) \<Longrightarrow> sched_step s t"
| st_shutdown: "sched_shutdown s = (r, t) \<Longrightarrow> sched_step s t"
| st_pause: "sched_step s (sched_pause s)"
| st_resume: "sched_step s (sched_resume s)"
| st_register: "submit_register now j s = (r, t) \<Longrightarrow> sched_step s t"
| st_enqueue: "j \<in> set (ts_submitting s) \<Longrightarrow> sched_step s (submit_enqueue now j s)"
| st_cancel: "cancel_job i s = (r, t) \<Longrightarrow> sched_step s t"
| st_worker: "w < length (ts_workers s) \<Longrightarrow> sched_step s (worker_step inp w s)"

definition sched_init :: "sched \<Rightarrow> bool" where
  "sched_init s \<longleftrightarrow> (\<exists>config. s = sched_new config)"

section \<open>The jobs a scheduler holds\<close>

text \<open>Each with a mark that says whether it was marked running.\<close>

fun held :: "worker_phase \<Rightarrow> (job \<times> bool) list" where
  "held WIdle = []"
| "held (WPicked j) = [(j, False)]"
| "held (WStarting j) = [(j, False)]"
| "held (WAttempt j k err) = [(j, True)]"
| "held (WExecuting j k err) = [(j, True)]"
| "held (WSleeping j k err) = [(j, True)]"
| "held (WGivingUp j err) = [(j, True)]"
| "held WAborted = []"

definition waiting_jobs :: "sched \<Rightarrow> job multiset" where
  "waiting_jobs s = mq_jobs (ts_queue s) + mset (ts_submitting s)"

definition running :: "worker_phase list \<Rightarrow> (job \<times> bool) multiset" where
  "running ws = mset (concat (map held ws))"

definition live :: "sched \<Rightarrow> (job \<times> bool) multiset" where
  "live s = image_mset (\<lambda>j. (j, False)) (waiting_jobs s) + running (ts_workers s)"

lemma running_update:
  assumes "w < length ws"
  shows "running ws = mset (held (ws ! w)) + running (ws[w := WIdle])"
    and "running (ws[w := p]) = mset (held p) + running (ws[w := WIdle])"
proof -
  have ws: "ws = take w ws @ ws ! w # drop (Suc w) ws" by (rule id_take_nth_drop [OF assms])
  have upd: "ws[w := q] = take w ws @ q # drop (Suc w) ws" for q by (rule upd_conv_take_nth_drop [OF assms])
  show "running ws = mset (held (ws ! w)) + running (ws[w := WIdle])"
    by (subst ws) (simp add: running_def upd)
  show "running (ws[w := p]) = mset (held p) + running (ws[w := WIdle])"
    by (simp add: running_def upd)
qed

definition status_ok :: "bool \<Rightarrow> job_status \<Rightarrow> bool" where
  "status_ok run st \<longleftrightarrow> st = Cancelled \<or> st = (if run then Running else Pending)"

definition live_ok :: "(job \<times> bool) multiset \<Rightarrow> (ls_id, job_state) hmap \<Rightarrow> bool" where
  "live_ok L T \<longleftrightarrow> (\<forall>i. size (filter_mset (\<lambda>x. jb_id (fst x) = i) L) \<le> 1)
     \<and> (\<forall>x \<in># L. \<exists>js. hm_get T (jb_id (fst x)) = Some js \<and> status_ok (snd x) (js_status js))"

lemma live_ok_sub: "live_ok (L + M) T \<Longrightarrow> live_ok L T"
  by (auto simp: live_ok_def) (metis add_leD1)

lemma live_ok_empty [simp]: "live_ok {#} T"
  by (simp add: live_ok_def)

lemma live_ok_other:
  assumes "live_ok (add_mset (j, run) R) T" "x \<in># R"
  shows "jb_id (fst x) \<noteq> jb_id j"
proof
  assume eq: "jb_id (fst x) = jb_id j"
  from assms(2) obtain R' where "R = add_mset x R'" by (metis insert_DiffM)
  then have "size (filter_mset (\<lambda>y. jb_id (fst y) = jb_id j) (add_mset (j, run) R)) \<ge> 2" using eq by simp
  moreover have "size (filter_mset (\<lambda>y. jb_id (fst y) = jb_id j) (add_mset (j, run) R)) \<le> 1"
    using assms(1) unfolding live_ok_def by blast
  ultimately show False by linarith
qed

lemma live_ok_head:
  "live_ok (add_mset (j, run) R) T \<Longrightarrow> \<exists>js. hm_get T (jb_id j) = Some js \<and> status_ok run (js_status js)"
  by (auto simp: live_ok_def)

lemma live_ok_rest: "live_ok (add_mset x R) T \<Longrightarrow> live_ok R T"
  using live_ok_sub [of R "{#x#}" T] by simp

lemma live_ok_drop:
  assumes "live_ok (add_mset (j, run) R) T"
  shows "live_ok R (hm_modify (jb_id j) f T)"
proof -
  have "\<exists>js. hm_get (hm_modify (jb_id j) f T) (jb_id (fst x)) = Some js \<and> status_ok (snd x) (js_status js)"
    if "x \<in># R" for x
    using live_ok_other [OF assms that] live_ok_rest [OF assms] that by (auto simp: live_ok_def)
  then show ?thesis using live_ok_rest [OF assms] by (simp add: live_ok_def)
qed

lemma live_ok_replace:
  assumes "live_ok (add_mset (j, run) R) T" "hm_get T (jb_id j) = Some js" "status_ok run' (js_status (f js))"
  shows "live_ok (add_mset (j, run') R) (hm_modify (jb_id j) f T)"
proof -
  have "size (filter_mset (\<lambda>x. jb_id (fst x) = i) (add_mset (j, run') R)) =
      size (filter_mset (\<lambda>x. jb_id (fst x) = i) (add_mset (j, run) R))" for i by simp
  then show ?thesis
    using live_ok_drop [OF assms(1), of f] assms by (auto simp: live_ok_def)
qed

lemma live_ok_cancel:
  "live_ok L T \<Longrightarrow> live_ok L (hm_modify i (\<lambda>js. set_status Cancelled (js\<lparr>js_cancelled := True\<rparr>)) T)"
  by (fastforce simp: live_ok_def status_ok_def set_status_def)

lemma live_ok_new:
  assumes "live_ok L T" "jb_id j \<notin> hm_dom T" "js_status js = Pending"
  shows "live_ok (add_mset (j, False) L) (hm_insert (jb_id j) js T)"
proof -
  have no: "jb_id (fst x) \<noteq> jb_id j" if "x \<in># L" for x
    using assms(1,2) that unfolding live_ok_def by (metis hm_get_dom)
  then have "filter_mset (\<lambda>x. jb_id (fst x) = jb_id j) L = filter_mset (\<lambda>_. False) L"
    by (intro filter_mset_cong) auto
  with no assms show ?thesis by (auto simp: live_ok_def status_ok_def)
qed

section \<open>Results and counters\<close>

definition result_fits :: "job_state \<Rightarrow> bool" where
  "result_fits js \<longleftrightarrow> (case js_result js of
     None \<Rightarrow> js_status js \<noteq> Completed \<and> (\<forall>m. js_status js \<noteq> Failed m)
   | Some (Inr v) \<Rightarrow> js_status js = Completed
   | Some (Inl e) \<Rightarrow> (\<exists>m. e = Internal m \<and> js_status js = Failed m))"

definition table_ok :: "(ls_id, job_state) hmap \<Rightarrow> bool" where
  "table_ok T \<longleftrightarrow> hm_ok T \<and> (\<forall>i js. hm_get T i = Some js \<longrightarrow> js_id js = i \<and> result_fits js)"

fun is_failed :: "job_status \<Rightarrow> bool" where
  "is_failed (Failed m) = True"
| "is_failed _ = False"

definition count_where :: "(job_status \<Rightarrow> bool) \<Rightarrow> (ls_id, job_state) hmap \<Rightarrow> nat" where
  "count_where P T = length (filter (\<lambda>js. P (js_status js)) (hm_values T))"

lemma count_where_modify:
  "hm_ok T \<Longrightarrow> hm_get T i = Some js \<Longrightarrow>
    count_where P (hm_modify i f T) + (if P (js_status js) then 1 else 0) =
    count_where P T + (if P (js_status (f js)) then 1 else 0)"
proof (induction T)
  case Nil
  then show ?case by simp
next
  case (Cons kv T)
  obtain k v where kv: "kv = (k, v)" by (cases kv)
  show ?case
  proof (cases "k = i")
    case True
    with Cons.prems kv have "hm_modify i f T = T"
      by (force simp: hm_modify_def hm_dom_def intro!: map_idI)
    with True Cons.prems kv show ?thesis by (simp add: count_where_def hm_modify_def)
  next
    case False
    with Cons kv show ?thesis by (auto simp: count_where_def hm_modify_def)
  qed
qed

lemma count_where_insert:
  "k \<notin> hm_dom T \<Longrightarrow> count_where P (hm_insert k js T) = count_where P T + (if P (js_status js) then 1 else 0)"
  by (induction T) (auto simp: count_where_def)

definition attempt_ok :: "sched_config \<Rightarrow> worker_phase \<Rightarrow> bool" where
  "attempt_ok c p \<longleftrightarrow> (case p of WAttempt j k _ \<Rightarrow> k \<le> retries_of c j | WExecuting j k _ \<Rightarrow> k \<le> retries_of c j
     | WSleeping j k _ \<Rightarrow> k < retries_of c j | _ \<Rightarrow> True)"

definition counts_ok :: "sched \<Rightarrow> bool" where
  "counts_ok s \<longleftrightarrow> ts_completed s = count_where (\<lambda>st. st = Completed) (ts_states s)
     \<and> ts_failed s = count_where is_failed (ts_states s)
     \<and> ts_timed_out s = count_where (\<lambda>st. st = TimedOut) (ts_states s)
     \<and> count_where (\<lambda>st. st = Cancelled) (ts_states s) \<le> ts_cancelled s"

definition sched_inv :: "sched \<Rightarrow> bool" where
  "sched_inv s \<longleftrightarrow> mq_ok (ts_queue s) \<and> table_ok (ts_states s) \<and> live_ok (live s) (ts_states s)
     \<and> counts_ok s \<and> (\<forall>p \<in> set (ts_workers s). attempt_ok (ts_config s) p)"

lemma table_ok_modify:
  assumes "table_ok T" "\<And>js. hm_get T i = Some js \<Longrightarrow> js_id (f js) = js_id js \<and> result_fits (f js)"
  shows "table_ok (hm_modify i f T)"
  using assms by (auto simp: table_ok_def split: if_splits)

lemma table_ok_get: "table_ok T \<Longrightarrow> hm_get T i = Some js \<Longrightarrow> result_fits js"
  by (simp add: table_ok_def)

lemma no_result: "result_fits js \<Longrightarrow> status_ok run (js_status js) \<Longrightarrow> js_result js = None"
  by (auto simp: result_fits_def status_ok_def split: option.splits sum.splits if_splits)

section \<open>The operations keep the invariant\<close>

lemma inv_new: "sched_inv (sched_new c)"
  by (simp add: sched_inv_def sched_new_def mq_ok_def mem_queue_new_def mq_ids_def table_ok_def live_def
      waiting_jobs_def running_def mq_jobs_def counts_ok_def count_where_def)

lemma inv_start: "sched_start s = (r, t) \<Longrightarrow> sched_inv s \<Longrightarrow> sched_inv t"
  by (auto simp: sched_start_def sched_inv_def live_def waiting_jobs_def running_def counts_ok_def attempt_ok_def
      split: if_splits)

lemma inv_shutdown:
  assumes "sched_shutdown s = (r, t)" "sched_inv s"
  shows "sched_inv t"
proof -
  from assms(1) have t: "t = s\<lparr>ts_workers := map (\<lambda>_. WAborted) (ts_workers s)\<rparr>" by (simp add: sched_shutdown_def)
  have "concat (map (\<lambda>_. held WAborted) ws) = []" for ws :: "worker_phase list" by (induction ws) simp_all
  then have "live s = live t + running (ts_workers s)" by (simp add: t live_def waiting_jobs_def running_def comp_def)
  with assms(2) have "live_ok (live t + running (ts_workers s)) (ts_states s)" by (simp only: sched_inv_def)
  then have "live_ok (live t) (ts_states s)" by (rule live_ok_sub)
  with assms(2) show ?thesis by (auto simp: t sched_inv_def counts_ok_def attempt_ok_def)
qed

lemma inv_pause: "sched_inv s \<Longrightarrow> sched_inv (sched_pause s)" "sched_inv s \<Longrightarrow> sched_inv (sched_resume s)"
  by (simp_all add: sched_inv_def sched_pause_def sched_resume_def live_def waiting_jobs_def counts_ok_def)

lemma inv_register:
  assumes "submit_register now j s = (r, t)" "sched_inv s"
  shows "sched_inv t"
proof (cases "jb_id j \<in> hm_dom (ts_states s)")
  case True
  with assms show ?thesis by (simp add: submit_register_def)
next
  case False
  let ?js = "job_state_new now (jb_id j) (jb_name j) (jb_priority j)"
  have t: "t = s\<lparr>ts_states := hm_insert (jb_id j) ?js (ts_states s), ts_submitting := ts_submitting s @ [j]\<rparr>"
    using assms(1) False by (simp add: submit_register_def)
  have new: "js_status ?js = Pending" "js_id ?js = jb_id j" "result_fits ?js"
    by (simp_all add: job_state_new_def result_fits_def)
  have live: "live t = add_mset (j, False) (live s)" by (simp add: t live_def waiting_jobs_def)
  have states: "ts_states t = hm_insert (jb_id j) ?js (ts_states s)" by (simp add: t)
  have "live_ok (live t) (ts_states t)"
    unfolding live states using assms(2) by (intro live_ok_new [OF _ False new(1)]) (simp add: sched_inv_def)
  moreover have "table_ok (ts_states t)" using assms(2) new by (auto simp: t sched_inv_def table_ok_def)
  moreover have "counts_ok t" using assms(2) new
    by (simp add: t sched_inv_def counts_ok_def count_where_insert [OF False])
  ultimately show ?thesis using assms(2) by (simp add: t sched_inv_def)
qed

lemma waiting_jobs_not_queued:
  assumes "sched_inv s" "j \<in> set (ts_submitting s)"
  shows "jb_id j \<notin> jb_id ` set_mset (mq_jobs (ts_queue s))"
proof
  assume "jb_id j \<in> jb_id ` set_mset (mq_jobs (ts_queue s))"
  then obtain k where k: "k \<in># mq_jobs (ts_queue s)" "jb_id k = jb_id j" by auto
  obtain M where M: "mset (ts_submitting s) = add_mset j M" using assms(2) by (metis insert_DiffM set_mset_mset)
  have "live s = add_mset (j, False) (image_mset (\<lambda>j. (j, False)) (mq_jobs (ts_queue s) + M) + running (ts_workers s))"
    by (simp add: live_def waiting_jobs_def M)
  then have "live_ok (add_mset (j, False) (image_mset (\<lambda>j. (j, False)) (mq_jobs (ts_queue s) + M) + running (ts_workers s))) (ts_states s)"
    using assms(1) by (simp add: sched_inv_def)
  from live_ok_other [OF this, of "(k, False)"] k show False by auto
qed

lemma inv_enqueue:
  assumes "j \<in> set (ts_submitting s)" "sched_inv s"
  shows "sched_inv (submit_enqueue now j s)"
proof -
  have q: "mq_ok (mq_enqueue now j (ts_queue s))" "mq_jobs (mq_enqueue now j (ts_queue s)) = add_mset j (mq_jobs (ts_queue s))"
    using assms waiting_jobs_not_queued mem_queue.enq_jobs by (auto simp: sched_inv_def)
  have "live (submit_enqueue now j s) = live s"
    using assms(1) by (simp add: live_def waiting_jobs_def submit_enqueue_def q(2))
  then show ?thesis using assms(2) q(1)
    by (simp add: sched_inv_def submit_enqueue_def counts_ok_def)
qed

lemma inv_cancel:
  assumes "cancel_job i s = (r, t)" "sched_inv s"
  shows "sched_inv t"
proof (cases "hm_get (ts_states s) i")
  case None
  with assms show ?thesis by (simp add: cancel_job_def)
next
  case (Some js)
  let ?f = "\<lambda>js. set_status Cancelled (js\<lparr>js_cancelled := True\<rparr>)"
  show ?thesis
  proof (cases "is_terminal (js_status js)")
    case True
    with Some assms show ?thesis by (simp add: cancel_job_def)
  next
    case False
    with Some assms(1) have t: "t = s\<lparr>ts_states := hm_modify i ?f (ts_states s), ts_cancelled := ts_cancelled s + 1,
        ts_queue := mq_remove i (ts_queue s)\<rparr>"
      by (simp add: cancel_job_def change_state_def)
    have q: "mq_ok (mq_remove i (ts_queue s))"
        "mq_jobs (mq_remove i (ts_queue s)) = filter_mset (\<lambda>j. jb_id j \<noteq> i) (mq_jobs (ts_queue s))"
      using assms(2) mem_queue.rm_jobs by (auto simp: sched_inv_def)
    have fits: "result_fits js" using assms(2) Some by (auto simp: sched_inv_def table_ok_def)
    have "image_mset (\<lambda>j. (j, False)) (mq_jobs (ts_queue s)) =
        image_mset (\<lambda>j. (j, False)) (filter_mset (\<lambda>j. jb_id j \<noteq> i) (mq_jobs (ts_queue s)))
        + image_mset (\<lambda>j. (j, False)) (filter_mset (\<lambda>j. \<not> jb_id j \<noteq> i) (mq_jobs (ts_queue s)))"
      by (simp only: image_mset_union [symmetric] multiset_partition [symmetric])
    then have "live s = live t + image_mset (\<lambda>j. (j, False)) (filter_mset (\<lambda>j. \<not> jb_id j \<noteq> i) (mq_jobs (ts_queue s)))"
      by (simp add: live_def waiting_jobs_def t q(2))
    then have "live_ok (live t + image_mset (\<lambda>j. (j, False)) (filter_mset (\<lambda>j. \<not> jb_id j \<noteq> i) (mq_jobs (ts_queue s)))) (ts_states s)"
      using assms(2) by (simp only: sched_inv_def)
    then have "live_ok (live t) (ts_states s)" by (rule live_ok_sub)
    then have "live_ok (live t) (ts_states t)" using live_ok_cancel by (simp add: t)
    moreover have "table_ok (ts_states t)"
    proof -
      have "result_fits (?f js)" using fits False
        by (auto simp: result_fits_def set_status_def is_terminal_def split: option.splits sum.splits)
      then show ?thesis using assms(2) Some by (auto simp: t sched_inv_def set_status_def intro!: table_ok_modify)
    qed
    moreover have "counts_ok t"
    proof -
      have ok: "hm_ok (ts_states s)" using assms(2) by (simp add: sched_inv_def table_ok_def)
      note count = count_where_modify [OF ok Some, of _ ?f]
      have st: "js_status js = Pending \<or> js_status js = Running" using False
        by (cases "js_status js") (simp_all add: is_terminal_def)
      have "counts_ok s" using assms(2) by (simp add: sched_inv_def)
      then show ?thesis
        using st count [of "\<lambda>st. st = Completed"] count [of is_failed] count [of "\<lambda>st. st = TimedOut"]
          count [of "\<lambda>st. st = Cancelled"]
        by (elim disjE) (simp_all add: counts_ok_def t set_status_def)
    qed
    ultimately show ?thesis using assms(2) q(1) by (simp add: t sched_inv_def)
  qed
qed

text \<open>A worker's step: what the worker holds is replaced by the same job or nothing.\<close>

lemma inv_worker_idle:
  assumes "sched_inv s" "w < length (ts_workers s)" "ts_workers s ! w = WIdle"
  shows "sched_inv (worker_step inp w s)"
proof -
  obtain r q where d: "mq_dequeue (wi_tie inp) (ts_queue s) = (r, q)" by fastforce
  show ?thesis
  proof (cases r)
    case None
    have "(ts_workers s)[w := WIdle] = ts_workers s" using list_update_id [of "ts_workers s" w] assms(3) by simp
    then have "s\<lparr>ts_workers := (ts_workers s)[w := WIdle]\<rparr> = s" by simp
    with None d assms show ?thesis by (simp add: worker_step_def)
  next
    case (Some j)
    let ?t = "s\<lparr>ts_queue := q, ts_workers := (ts_workers s)[w := WPicked j]\<rparr>"
    have t: "worker_step inp w s = ?t" using d Some assms(3) by (simp add: worker_step_def)
    have q: "mq_ok q" "mq_jobs (ts_queue s) = add_mset j (mq_jobs q)"
      using assms(1) d Some mem_queue.deq_Some by (auto simp: sched_inv_def)
    note now = running_update(1) [OF assms(2), unfolded assms(3) held.simps]
    note then_ = running_update(2) [OF assms(2), of "WPicked j"]
    have "live ?t = live s"
      unfolding live_def waiting_jobs_def now by (simp add: then_ q(2))
    moreover have "\<forall>p \<in> set (ts_workers ?t). attempt_ok (ts_config s) p"
      using assms(1) set_update_subset_insert [of "ts_workers s" w "WPicked j"]
      by (auto simp: sched_inv_def attempt_ok_def)
    ultimately show ?thesis using assms(1) q(1) by (simp add: t sched_inv_def counts_ok_def)
  qed
qed

text \<open>The other steps, as a change of the state of the held job; the counters follow the status.\<close>

definition worker_effect :: "job \<Rightarrow> (job_state \<Rightarrow> job_state) \<Rightarrow> job_status \<Rightarrow> nat \<Rightarrow> worker_phase \<Rightarrow> sched \<Rightarrow> sched" where
  "worker_effect j f st w p s = s\<lparr>ts_states := hm_modify (jb_id j) f (ts_states s),
     ts_workers := (ts_workers s)[w := p],
     ts_completed := ts_completed s + (if st = Completed then 1 else 0),
     ts_failed := ts_failed s + (if is_failed st then 1 else 0),
     ts_timed_out := ts_timed_out s + (if st = TimedOut then 1 else 0)\<rparr>"

lemma counts_effect:
  assumes "counts_ok s" "hm_ok (ts_states s)" "hm_get (ts_states s) (jb_id j) = Some js"
    and "status_ok run (js_status js)" "js_status (f js) = st" "st = Cancelled \<Longrightarrow> js_status js = Cancelled"
  shows "counts_ok (worker_effect j f st w p s)"
proof -
  note count = count_where_modify [OF assms(2,3), of _ f]
  have "js_status js = Pending \<or> js_status js = Running \<or> js_status js = Cancelled"
    using assms(4) by (auto simp: status_ok_def split: if_splits)
  then show ?thesis
    using assms(1) assms(6) count [of "\<lambda>st. st = Completed"] count [of is_failed] count [of "\<lambda>st. st = TimedOut"]
      count [of "\<lambda>st. st = Cancelled"]
    by (elim disjE) (auto simp: counts_ok_def worker_effect_def assms(5) split: if_splits)
qed

lemma inv_worker_held:
  assumes inv: "sched_inv s" and w: "w < length (ts_workers s)" and h: "held (ts_workers s ! w) = [(j, run)]"
    and p: "held p = [] \<or> held p = [(j, run')]" and ok: "attempt_ok (ts_config s) p"
    and get: "hm_get (ts_states s) (jb_id j) = Some js"
    and st: "held p = [(j, run')] \<Longrightarrow> status_ok run' (js_status (f js))"
    and fits: "js_id (f js) = js_id js" "result_fits (f js)"
    and final: "js_status (f js) = st" "st = Cancelled \<Longrightarrow> js_status js = Cancelled"
  shows "sched_inv (worker_effect j f st w p s)" (is "sched_inv ?t")
proof -
  let ?R = "image_mset (\<lambda>j. (j, False)) (waiting_jobs s) + running ((ts_workers s)[w := WIdle])"
  have live: "live s = add_mset (j, run) ?R"
    using running_update(1) [OF w] by (simp add: live_def h)
  have live': "live ?t = mset (held p) + ?R"
    using running_update(2) [OF w, of p] by (simp add: live_def waiting_jobs_def worker_effect_def)
  have head: "live_ok (add_mset (j, run) ?R) (ts_states s)" using inv by (simp add: sched_inv_def flip: live)
  have "live_ok (live ?t) (hm_modify (jb_id j) f (ts_states s))"
  proof (cases "held p = []")
    case True
    then show ?thesis using live_ok_drop [OF head, of f] by (simp add: live')
  next
    case False
    with p have hp: "held p = [(j, run')]" by blast
    show ?thesis using live_ok_replace [where f = f, OF head get st [OF hp]] by (simp add: live' hp)
  qed
  moreover have "table_ok (hm_modify (jb_id j) f (ts_states s))"
    using inv get fits by (intro table_ok_modify) (auto simp: sched_inv_def)
  moreover have "\<forall>q \<in> set ((ts_workers s)[w := p]). attempt_ok (ts_config s) q"
    using inv ok set_update_subset_insert [of "ts_workers s" w p] by (auto simp: sched_inv_def)
  moreover have "counts_ok ?t"
    using inv live_ok_head [OF head] get final
    by (intro counts_effect [where js = js and run = run]) (simp_all add: sched_inv_def table_ok_def)
  ultimately show ?thesis using inv by (simp add: worker_effect_def sched_inv_def)
qed

lemma hm_modify_same: "hm_modify k (\<lambda>x. x) m = m"
  by (induction m) (auto simp: hm_modify_def)

lemma held_state:
  assumes "sched_inv s" "w < length (ts_workers s)" "held (ts_workers s ! w) = [(j, run)]"
  obtains js where "hm_get (ts_states s) (jb_id j) = Some js" "status_ok run (js_status js)" "result_fits js"
    "js_result js = None"
proof -
  have "live s = add_mset (j, run) (image_mset (\<lambda>j. (j, False)) (waiting_jobs s) + running ((ts_workers s)[w := WIdle]))"
    using running_update(1) [OF assms(2)] by (simp add: live_def assms(3))
  then have "live_ok (add_mset (j, run) (image_mset (\<lambda>j. (j, False)) (waiting_jobs s) + running ((ts_workers s)[w := WIdle]))) (ts_states s)"
    using assms(1) by (simp add: sched_inv_def)
  then obtain js where "hm_get (ts_states s) (jb_id j) = Some js" "status_ok run (js_status js)"
    using live_ok_head by blast
  moreover have "result_fits js" using assms(1) calculation(1) by (auto simp: sched_inv_def table_ok_def)
  ultimately show thesis using that no_result by blast
qed

text \<open>Every step of a worker that holds a job is such a change.\<close>

definition effect_ok :: "job \<Rightarrow> job_state \<Rightarrow> nat \<Rightarrow> sched \<Rightarrow> sched \<Rightarrow> bool" where
  "effect_ok j js w s t \<longleftrightarrow> (\<exists>f p run'. t = worker_effect j f (js_status (f js)) w p s
     \<and> (held p = [] \<or> held p = [(j, run')] \<and> status_ok run' (js_status (f js)))
     \<and> attempt_ok (ts_config s) p \<and> js_id (f js) = js_id js \<and> result_fits (f js)
     \<and> (js_status (f js) = Cancelled \<longrightarrow> js_status js = Cancelled)
     \<and> js_version js \<le> js_version (f js) \<and> (js_status (f js) = js_status js \<or> js_version js < js_version (f js)))"

lemma effect_change:
  assumes "t = worker_effect j f (js_status (f js)) w p s"
    and "held p = [] \<or> held p = [(j, run')] \<and> status_ok run' (js_status (f js))"
    and "attempt_ok (ts_config s) p" "js_id (f js) = js_id js" "result_fits (f js)"
    and "js_status (f js) = Cancelled \<Longrightarrow> js_status js = Cancelled"
    and "js_version js \<le> js_version (f js)" "js_status (f js) = js_status js \<or> js_version js < js_version (f js)"
  shows "effect_ok j js w s t"
  using assms unfolding effect_ok_def by blast

lemma effect_phase:
  assumes "status_ok run (js_status js)" "result_fits js" "attempt_ok (ts_config s) p"
    and "held p = [] \<or> held p = [(j, run)]"
  shows "effect_ok j js w s (s\<lparr>ts_workers := (ts_workers s)[w := p]\<rparr>)"
proof (rule effect_change [where f = "\<lambda>x. x" and run' = run])
  have "js_status js \<noteq> Completed" "\<not> is_failed (js_status js)" "js_status js \<noteq> TimedOut"
    using assms(1) by (auto simp: status_ok_def split: if_splits)
  then show "s\<lparr>ts_workers := (ts_workers s)[w := p]\<rparr> = worker_effect j (\<lambda>x. x) (js_status js) w p s"
    by (simp add: worker_effect_def hm_modify_same)
qed (use assms in auto)

lemmas eval_worker = worker_step_def worker_effect_def change_state_def set_status_def attempt_ok_def
  status_ok_def result_fits_def

lemma effect_starting:
  assumes "ts_workers s ! w = WStarting j" "js_result js = None"
  shows "effect_ok j js w s (worker_step inp w s)"
  by (rule effect_change [where f = "\<lambda>js. (set_status Running js)\<lparr>js_started_at := Some (wi_now inp)\<rparr>"
        and p = "WAttempt j 0 []" and run' = True])
    (use assms in \<open>simp_all add: eval_worker\<close>)

lemma effect_giving_up:
  assumes "ts_workers s ! w = WGivingUp j err"
  shows "effect_ok j js w s (worker_step inp w s)"
  by (rule effect_change [where f = "\<lambda>js. (set_status (Failed err) (js\<lparr>js_result := Some (Inl (Internal err))\<rparr>))
        \<lparr>js_completed_at := Some (wi_now inp)\<rparr>" and p = WIdle])
    (use assms in \<open>simp_all add: eval_worker\<close>)

lemma effect_executing:
  assumes "ts_workers s ! w = WExecuting j n err" "status_ok True (js_status js)" "result_fits js"
    and "js_result js = None" "attempt_ok (ts_config s) (WExecuting j n err)"
  shows "effect_ok j js w s (worker_step inp w s)"
proof -
  have not_done: "js_status js \<noteq> Completed" "\<not> is_failed (js_status js)" "js_status js \<noteq> TimedOut"
    using assms(2) by (auto simp: status_ok_def)
  consider (elapsed) y where "wi_outcome inp = Elapsed" "timeout_of (ts_config s) j = Some y"
    | (endless) "wi_outcome inp = Elapsed" "timeout_of (ts_config s) j = None"
    | (ok) v where "wi_outcome inp = Finished (Inr v)"
    | (retry) e where "wi_outcome inp = Finished (Inl e)" "n < retries_of (ts_config s) j"
    | (fail) e where "wi_outcome inp = Finished (Inl e)" "\<not> n < retries_of (ts_config s) j"
    by (metis not_None_eq run_outcome.exhaust sum.exhaust)
  then show ?thesis
  proof cases
    case elapsed
    then show ?thesis using assms
      by (intro effect_change [where f = "set_status TimedOut" and p = WIdle]) (simp_all add: eval_worker)
  next
    case endless
    then show ?thesis using assms effect_phase [of True js s "WExecuting j n err" j w] by (simp add: worker_step_def)
  next
    case (ok v)
    then show ?thesis using assms
      by (intro effect_change [where p = WIdle
            and f = "\<lambda>js. (set_status Completed (js\<lparr>js_result := Some (Inr v)\<rparr>))\<lparr>js_completed_at := Some (wi_now inp)\<rparr>"])
        (simp_all add: eval_worker)
  next
    case (retry e)
    then show ?thesis using assms not_done
      by (intro effect_change [where p = "WSleeping j n (error_text e)" and run' = True
            and f = "\<lambda>js. js\<lparr>js_retry_count := n + 1\<rparr>"]) (simp_all add: eval_worker)
  next
    case (fail e)
    then show ?thesis using assms effect_phase [of True js s "WGivingUp j (error_text e)" j w]
      by (simp add: worker_step_def attempt_ok_def)
  qed
qed

lemma effect_between:
  assumes "ts_workers s ! w = WPicked j \<and> \<not> run \<or> run \<and> ts_workers s ! w = WAttempt j n err
      \<or> run \<and> ts_workers s ! w = WSleeping j n err"
    and "status_ok run (js_status js)" "result_fits js" "attempt_ok (ts_config s) (ts_workers s ! w)"
  shows "effect_ok j js w s (worker_step inp w s)"
proof -
  let ?p = "fst (worker_next inp (ts_workers s ! w) s)"
  have "worker_step inp w s = s\<lparr>ts_workers := (ts_workers s)[w := ?p]\<rparr>"
    using assms(1) by (auto simp: worker_step_def)
  moreover have "attempt_ok (ts_config s) ?p"
    using assms(1,4) by (auto simp: attempt_ok_def)
  moreover have "held ?p = [] \<or> held ?p = [(j, run)]"
    using assms(1) by (auto split: if_splits)
  ultimately show ?thesis using effect_phase [OF assms(2,3)] by metis
qed

lemma worker_step_effect:
  assumes "sched_inv s" "w < length (ts_workers s)" "held (ts_workers s ! w) = [(j, run)]"
    and "status_ok run (js_status js)" "result_fits js" "js_result js = None"
  shows "effect_ok j js w s (worker_step inp w s)"
proof -
  have att: "attempt_ok (ts_config s) (ts_workers s ! w)" using assms(1,2) by (simp add: sched_inv_def)
  from assms(3) show ?thesis
  proof (cases "ts_workers s ! w")
    case (WPicked k)
    show ?thesis
      by (rule effect_between [where run = run and n = 0 and err = "[]"]) (use assms att WPicked in auto)
  next
    case (WStarting k)
    with assms show ?thesis by (auto intro: effect_starting)
  next
    case (WAttempt k n err)
    show ?thesis
      by (rule effect_between [where run = run and n = n and err = err]) (use assms att WAttempt in auto)
  next
    case (WExecuting k n err)
    with assms att show ?thesis by (auto intro: effect_executing)
  next
    case (WSleeping k n err)
    show ?thesis
      by (rule effect_between [where run = run and n = n and err = err]) (use assms att WSleeping in auto)
  next
    case (WGivingUp k err)
    with assms show ?thesis by (auto intro: effect_giving_up)
  qed simp_all
qed

lemma inv_worker:
  assumes "sched_inv s" "w < length (ts_workers s)"
  shows "sched_inv (worker_step inp w s)"
proof (cases "held (ts_workers s ! w)")
  case Nil
  then consider "ts_workers s ! w = WIdle" | "ts_workers s ! w = WAborted" by (cases "ts_workers s ! w") simp_all
  then show ?thesis
  proof cases
    case 1
    then show ?thesis using inv_worker_idle [OF assms] by simp
  next
    case 2
    then show ?thesis using assms list_update_id [of "ts_workers s" w] by (simp add: worker_step_def)
  qed
next
  case (Cons x xs)
  obtain j run where x: "x = (j, run)" by (cases x)
  with Cons have h: "held (ts_workers s ! w) = [(j, run)]" by (cases "ts_workers s ! w") simp_all
  obtain js where js: "hm_get (ts_states s) (jb_id j) = Some js" "status_ok run (js_status js)" "result_fits js"
      "js_result js = None"
    using held_state [OF assms h] by blast
  from worker_step_effect [OF assms h js(2-4)] obtain f p run' where e:
      "worker_step inp w s = worker_effect j f (js_status (f js)) w p s"
      "held p = [] \<or> held p = [(j, run')] \<and> status_ok run' (js_status (f js))"
      "attempt_ok (ts_config s) p" "js_id (f js) = js_id js" "result_fits (f js)"
      "js_status (f js) = Cancelled \<longrightarrow> js_status js = Cancelled"
    unfolding effect_ok_def by blast
  show ?thesis unfolding e(1)
    by (rule inv_worker_held [where f = f and js = js and j = j and run = run and run' = run'])
      (use assms h e js(1) in auto)
qed

lemma sched_inv_step: "sched_step s t \<Longrightarrow> sched_inv s \<Longrightarrow> sched_inv t"
  by (induction rule: sched_step.induct)
    (auto intro: inv_start inv_shutdown inv_pause inv_register inv_enqueue inv_cancel inv_worker)

interpretation sched_machine: machine sched_init sched_step sched_inv
  by unfold_locales (auto simp: sched_init_def intro: inv_new sched_inv_step)

end
