(* ===== verification/Sched_Props.thy ===== *)
theory Sched_Props
  imports Sched_Inv
begin

text \<open>
  What the task scheduler guarantees under every interleaving of submitters, cancellers, waiters
  and workers.
\<close>

section \<open>How the state of a job changes\<close>

definition ended :: "job_status \<Rightarrow> bool" where
  "ended st \<longleftrightarrow> st = Completed \<or> is_failed st \<or> st = TimedOut"

lemma status_ok_not_ended: "status_ok run st \<Longrightarrow> \<not> ended st"
  by (auto simp: status_ok_def ended_def split: if_splits)

lemma worker_states:
  assumes "sched_inv s" "w < length (ts_workers s)" "hm_get (ts_states s) i = Some js"
  obtains js' where "hm_get (ts_states (worker_step inp w s)) i = Some js'"
    "js' = js \<or> \<not> ended (js_status js)" "js_version js \<le> js_version js'"
    "js_status js' = js_status js \<or> js_version js < js_version js'"
proof (cases "held (ts_workers s ! w)")
  case Nil
  then have "ts_states (worker_step inp w s) = ts_states s"
    by (cases "ts_workers s ! w") (auto simp: worker_step_def Let_def split: prod.splits option.splits)
  with assms(3) that show thesis by auto
next
  case (Cons x xs)
  obtain j run where x: "x = (j, run)" by (cases x)
  with Cons have h: "held (ts_workers s ! w) = [(j, run)]" by (cases "ts_workers s ! w") simp_all
  obtain jj where jj: "hm_get (ts_states s) (jb_id j) = Some jj" "status_ok run (js_status jj)" "result_fits jj"
      "js_result jj = None"
    using held_state [OF assms(1,2) h] by blast
  from worker_step_effect [OF assms(1,2) h jj(2-4), of inp] obtain f p where
      e: "worker_step inp w s = worker_effect j f (js_status (f jj)) w p s" "js_version jj \<le> js_version (f jj)"
      "js_status (f jj) = js_status jj \<or> js_version jj < js_version (f jj)"
    unfolding effect_ok_def by blast
  show thesis
  proof (cases "i = jb_id j")
    case True
    with assms(3) jj have "js = jj" by simp
    with e True jj status_ok_not_ended show thesis by (intro that [of "f jj"]) (auto simp: worker_effect_def)
  next
    case False
    with assms(3) e(1) show thesis by (intro that [of js]) (simp_all add: worker_effect_def)
  qed
qed

text \<open>In one step the state of a job stays known; a job that ended does not change; the version grows,
  strictly if the status changes.\<close>

lemma step_states:
  assumes "sched_step s t" "sched_inv s" "hm_get (ts_states s) i = Some js"
  shows "\<exists>js'. hm_get (ts_states t) i = Some js' \<and> (js' = js \<or> \<not> ended (js_status js))
    \<and> js_version js \<le> js_version js' \<and> (js_status js' = js_status js \<or> js_version js < js_version js')"
  using assms(1)
proof cases
  case (st_register now j r)
  then show ?thesis using assms(3) hm_get_dom [OF assms(3)]
    by (auto simp: submit_register_def split: if_splits)
next
  case (st_cancel k r)
  then show ?thesis using assms(3)
    by (auto simp: cancel_job_def change_state_def set_status_def terminal_or_active is_active_def ended_def
        split: option.splits if_splits)
next
  case (st_worker w inp)
  then show ?thesis using worker_states [OF assms(2) _ assms(3)] by metis
qed (use assms(3) in \<open>auto simp: sched_start_def sched_shutdown_def sched_pause_def sched_resume_def
    submit_enqueue_def split: if_splits\<close>)

lemma steps_states:
  assumes "sched_step\<^sup>*\<^sup>* s t" "sched_inv s" "hm_get (ts_states s) i = Some js"
  shows "\<exists>js'. hm_get (ts_states t) i = Some js' \<and> (js' = js \<or> \<not> ended (js_status js))
    \<and> js_version js \<le> js_version js' \<and> (js_status js' = js_status js \<or> js_version js < js_version js')"
  using assms
proof (induction rule: rtranclp_induct)
  case base
  then show ?case by auto
next
  case (step t u)
  then obtain js' where js': "hm_get (ts_states t) i = Some js'" "js' = js \<or> \<not> ended (js_status js)"
      "js_version js \<le> js_version js'" "js_status js' = js_status js \<or> js_version js < js_version js'"
    by blast
  have "sched_inv t" using sched_machine.steps_inv step by blast
  from step_states [OF step(2) this js'(1)] obtain ju where ju: "hm_get (ts_states u) i = Some ju"
      "ju = js' \<or> \<not> ended (js_status js')" "js_version js' \<le> js_version ju"
      "js_status ju = js_status js' \<or> js_version js' < js_version ju" by blast
  show ?case
  proof (intro exI conjI)
    show "hm_get (ts_states u) i = Some ju" by (rule ju)
    show "ju = js \<or> \<not> ended (js_status js)" using js'(2) ju(2) by auto
    show "js_version js \<le> js_version ju" using js'(3) ju(3) by simp
    show "js_status ju = js_status js \<or> js_version js < js_version ju" using js'(3,4) ju(3,4) by auto
  qed
qed

section \<open>A sample run\<close>

definition run_input :: "int \<Rightarrow> run_outcome \<Rightarrow> worker_input" where
  "run_input now res = \<lparr>wi_now = now, wi_tie = 0, wi_outcome = res, wi_slept = True\<rparr>"

definition run_worker :: "nat \<Rightarrow> worker_input list \<Rightarrow> sched \<Rightarrow> sched" where
  "run_worker w inps s = fold (\<lambda>inp. worker_step inp w) inps s"

lemma worker_step_length [simp]: "length (ts_workers (worker_step inp w s)) = length (ts_workers s)"
  by (cases "ts_workers s ! w")
    (auto simp: worker_step_def change_state_def split: prod.splits option.splits run_outcome.splits sum.splits)

lemma run_worker_steps: "w < length (ts_workers s) \<Longrightarrow> sched_step\<^sup>*\<^sup>* s (run_worker w inps s)"
proof (induction inps arbitrary: s)
  case Nil
  then show ?case by (simp add: run_worker_def)
next
  case (Cons inp inps)
  from Cons.prems have "sched_step s (worker_step inp w s)" by (rule st_worker)
  moreover have "sched_step\<^sup>*\<^sup>* (worker_step inp w s) (run_worker w inps (worker_step inp w s))"
    by (rule Cons.IH) (simp add: Cons.prems)
  ultimately show ?case by (simp add: run_worker_def converse_rtranclp_into_rtranclp)
qed

lemma reaches_steps: "reaches sched_init sched_step s \<Longrightarrow> sched_step\<^sup>*\<^sup>* s t \<Longrightarrow> reaches sched_init sched_step t"
  by (rotate_tac, induction rule: rtranclp_induct) (auto intro: reaches_step)

definition sample_started :: sched where
  "sample_started = snd (sched_start (sched_new (sched_config_default\<lparr>sc_max_concurrent := 1\<rparr>)))"

definition sample_sched :: sched where
  "sample_sched = snd (sched_submit 0 (sample_job 7 1) sample_started)"

definition sample_picked :: sched where
  "sample_picked = run_worker 0 (replicate 4 (run_input 9 (Finished (Inr Null)))) sample_sched"

definition sample_done :: sched where
  "sample_done = run_worker 0 [run_input 9 (Finished (Inr Null))] sample_picked"

lemmas eval_sched = sample_sched_def sample_started_def sched_start_def sched_new_def sched_config_default_def
  sched_submit_def submit_admit_def submit_register_def submit_enqueue_def sample_job_def mem_queue_new_def
  mq_len_def mq_enqueue_def job_state_new_def

lemma sample_sched_eval:
  "ts_workers sample_sched = [WIdle]"
  "ts_queue sample_sched = \<lparr>mq_heap = [\<lparr>jw_job = sample_job 7 1, jw_enqueued_at = 0\<rparr>], mq_by_id = [(7, ())]\<rparr>"
  "ts_states sample_sched = [(7, job_state_new 0 7 ''job'' 1)]"
  by (simp_all add: eval_sched)

lemma sample_sched_reaches: "reaches sched_init sched_step sample_sched"
proof -
  let ?c = "sched_config_default\<lparr>sc_max_concurrent := 1\<rparr>"
  let ?t = "snd (submit_register 0 (sample_job 7 1) sample_started)"
  have 0: "reaches sched_init sched_step (sched_new ?c)" by (rule reaches_init) (auto simp: sched_init_def)
  have 1: "reaches sched_init sched_step sample_started"
    unfolding sample_started_def by (rule reaches_step [OF 0], rule st_start, rule surjective_pairing)
  have 2: "reaches sched_init sched_step ?t"
    by (rule reaches_step [OF 1], rule st_register, rule surjective_pairing)
  have "sample_sched = submit_enqueue 0 (sample_job 7 1) ?t" by (simp add: eval_sched)
  moreover have "sched_step ?t (submit_enqueue 0 (sample_job 7 1) ?t)"
    by (rule st_enqueue) (simp add: eval_sched)
  ultimately show ?thesis using reaches_step [OF 2] by simp
qed

lemma sample_picked_eval:
  "ts_workers sample_picked = [WExecuting (sample_job 7 1) 0 []]"
  "hm_get (ts_states sample_picked) 7 = Some ((job_state_new 0 7 ''job'' 1)
      \<lparr>js_status := Running, js_version := 1, js_started_at := Some 9\<rparr>)"
  "sched_step\<^sup>*\<^sup>* sample_sched sample_picked"
  by (simp_all add: sample_picked_def run_worker_steps sample_sched_eval)
    (simp_all add: run_worker_def numeral_eq_Suc worker_step_def sample_sched_eval mq_dequeue_def greatest_def
      priority_le_refl job_status_of_def job_state_new_def sample_job_def change_state_def set_status_def
      is_cancelled_def run_input_def Let_def)

lemma sample_done_eval:
  "\<exists>js. hm_get (ts_states sample_done) 7 = Some js \<and> js_status js = Completed \<and> js_result js = Some (Inr Null)"
  "sched_step\<^sup>*\<^sup>* sample_picked sample_done"
  by (simp_all add: sample_done_def run_worker_steps sample_picked_eval)
    (simp add: run_worker_def worker_step_def sample_picked_eval run_input_def change_state_def set_status_def sample_job_def)

lemma sample_reaches:
  "reaches sched_init sched_step sample_picked" "reaches sched_init sched_step sample_done"
  using reaches_steps [OF sample_sched_reaches sample_picked_eval(3)]
    reaches_steps [OF _ sample_done_eval(2)] by auto

section \<open>Properties\<close>



text \<open>C14: a job that waits in the queue is held by no worker, no two workers hold the same job, and an
  attempt is never beyond the retries of its job: each job is run by one worker, at most once more
  than its policy retries.\<close>

theorem job_held_once:
  assumes "reaches sched_init sched_step s" "v < length (ts_workers s)" "(j, run) \<in> set (held (ts_workers s ! v))"
  shows "jb_id j \<notin> set (mq_ids (ts_queue s))
    \<and> (w < length (ts_workers s) \<and> (k, run') \<in> set (held (ts_workers s ! w)) \<and> jb_id k = jb_id j \<longrightarrow> w = v)
    \<and> (ts_workers s ! v = WExecuting j n err \<longrightarrow> n \<le> retries_of (ts_config s) j)"
proof -
  have inv: "sched_inv s" by (rule sched_machine.reaches_inv [OF assms(1)])
  have h: "held (ts_workers s ! v) = [(j, run)]" using assms(3) by (cases "ts_workers s ! v") auto
  let ?R = "image_mset (\<lambda>j. (j, False)) (waiting_jobs s) + running ((ts_workers s)[v := WIdle])"
  have "live s = add_mset (j, run) ?R" using running_update(1) [OF assms(2)] by (simp add: live_def h)
  then have live: "live_ok (add_mset (j, run) ?R) (ts_states s)" using inv by (simp add: sched_inv_def)
  note other = live_ok_other [OF live]
  have "jb_id j \<notin> set (mq_ids (ts_queue s))"
    unfolding mq_ids_jobs using other [of "(q, False)" for q] by (force simp: waiting_jobs_def)
  moreover have "w = v" if "w < length (ts_workers s)" "(k, run') \<in> set (held (ts_workers s ! w))" "jb_id k = jb_id j"
  proof (rule ccontr)
    assume "w \<noteq> v"
    then have "held (ts_workers s ! w) = held (((ts_workers s)[v := WIdle]) ! w)" by simp
    then have "(k, run') \<in># running ((ts_workers s)[v := WIdle])"
      using that(1,2) by (auto simp: running_def)
    then show False using other [of "(k, run')"] that(3) by simp
  qed
  moreover have "attempt_ok (ts_config s) (ts_workers s ! v)" using inv assms(2) by (simp add: sched_inv_def)
  ultimately show ?thesis by (auto simp: attempt_ok_def)
qed

theorem job_held_once_witness: "7 \<notin> set (mq_ids (ts_queue sample_picked))"
  using job_held_once [OF sample_reaches(1), of 0 "sample_job 7 1" True]
  by (simp add: sample_picked_eval sample_job_def)

text \<open>C15: a job that completed, failed or timed out keeps its status, its result and all else of its
  state, whatever happens afterwards.\<close>

theorem ended_is_final:
  assumes "reaches sched_init sched_step s" "sched_step\<^sup>*\<^sup>* s t"
    and "hm_get (ts_states s) i = Some js" "ended (js_status js)"
  shows "hm_get (ts_states t) i = Some js"
  using steps_states [OF assms(2) sched_machine.reaches_inv [OF assms(1)] assms(3)] assms(4) by blast

theorem ended_is_final_witness: "job_status_of 7 (snd (cancel_job 7 sample_done)) = Completed"
proof -
  obtain js where js: "hm_get (ts_states sample_done) 7 = Some js" "js_status js = Completed"
    using sample_done_eval(1) by blast
  have "sched_step\<^sup>*\<^sup>* sample_done (snd (cancel_job 7 sample_done))"
    by (rule r_into_rtranclp, rule st_cancel, rule surjective_pairing)
  from ended_is_final [OF sample_reaches(2) this js(1)] js show ?thesis
    by (simp add: ended_def job_status_of_def)
qed

text \<open>C16: a wait that began before a job completed or failed returns its value or its error at the next
  poll after that, and a wait that begins afterwards returns it at once.\<close>

theorem wait_returns_result:
  assumes "reaches sched_init sched_step s" "sched_step\<^sup>*\<^sup>* s t"
    and "hm_get (ts_states s) i = Some js0" "hm_get (ts_states t) i = Some js" "js_result js = Some r"
  shows "(wait_begin i s = WaitingFrom n \<longrightarrow> wait_poll i n t = Returned (wait_result r))
    \<and> wait_begin i t = Returned (wait_result r)"
proof -
  have inv: "sched_inv s" by (rule sched_machine.reaches_inv [OF assms(1)])
  have "sched_inv t" using sched_machine.steps_inv [OF assms(2) inv] .
  then have "result_fits js" "result_fits js0"
    using assms(3,4) inv by (auto simp: sched_inv_def table_ok_def)
  then have ended: "is_terminal (js_status js)"
      and start: "js_result js0 = None \<Longrightarrow> js_status js0 \<noteq> js_status js"
    using assms(5) by (auto simp: result_fits_def is_terminal_def split: option.splits sum.splits)
  obtain "js_status js = js_status js0 \<or> js_version js0 < js_version js"
    using steps_states [OF assms(2) inv assms(3)] assms(4) by auto
  then show ?thesis
    using assms(3-5) ended start
    by (auto simp: wait_begin_def wait_poll_def split: option.splits)
qed

theorem wait_returns_result_witness:
  "wait_begin 7 sample_picked = WaitingFrom 1 \<and> wait_poll 7 1 sample_done = Returned (Inr Null)"
proof -
  obtain js where js: "hm_get (ts_states sample_done) 7 = Some js" "js_result js = Some (Inr Null)"
    using sample_done_eval(1) by blast
  have "wait_begin 7 sample_picked = WaitingFrom 1"
    by (simp add: wait_begin_def sample_picked_eval job_state_new_def)
  with wait_returns_result [OF sample_reaches(1) sample_done_eval(2) sample_picked_eval(2) js, of 1] show ?thesis
    by (simp add: wait_result_def)
qed

text \<open>A wait that begins when the job has timed out never returns: no change comes any more.\<close>

lemma wait_after_timeout_hangs:
  assumes "reaches sched_init sched_step s" "sched_step\<^sup>*\<^sup>* s t"
    and "hm_get (ts_states s) i = Some js" "js_status js = TimedOut"
  shows "wait_begin i s = WaitingFrom (js_version js) \<and> wait_poll i (js_version js) t = WaitingFrom (js_version js)"
proof -
  have inv: "sched_inv s" by (rule sched_machine.reaches_inv [OF assms(1)])
  then have "result_fits js" using assms(3) by (auto simp: sched_inv_def table_ok_def)
  then have "js_result js = None" using assms(4) by (auto simp: result_fits_def split: option.splits sum.splits)
  moreover have "hm_get (ts_states t) i = Some js"
    using steps_states [OF assms(2) inv assms(3)] assms(4) by (auto simp: ended_def)
  ultimately show ?thesis using assms(3) by (simp add: wait_begin_def wait_poll_def)
qed

text \<open>A cancellation between the worker's check and its mark is overwritten: the job is reported as
  running for ever while no worker holds it.\<close>

lemma cancel_overwritten:
  assumes "w < length (ts_workers s)" "ts_workers s ! w = WStarting j"
    and "hm_get (ts_states s) (jb_id j) = Some js" "js_status js = Pending"
    and "t = worker_step inp w (worker_step inp w (snd (cancel_job (jb_id j) s)))"
  shows "job_status_of (jb_id j) t = Running \<and> ts_workers t ! w = WIdle"
  using assms(1-4) unfolding assms(5)
  by (simp add: worker_step_def cancel_job_def change_state_def is_terminal_def set_status_def job_status_of_def
      is_cancelled_def)

section \<open>An undisturbed run\<close>

text \<open>The inputs of a worker for one attempt with the given outcome: the check, the run, and the sleep
  after a failure.\<close>

definition failing_inputs :: "int \<Rightarrow> ls_error \<Rightarrow> worker_input list" where
  "failing_inputs now e = replicate 3 (run_input now (Finished (Inl e)))"

lemma run_worker_append: "run_worker w (xs @ ys) s = run_worker w ys (run_worker w xs s)"
  by (simp add: run_worker_def)

text \<open>What a run keeps in view: the phase of the worker and the state of its job.\<close>

definition at_attempt :: "nat \<Rightarrow> job \<Rightarrow> nat \<Rightarrow> string \<Rightarrow> job_state \<Rightarrow> sched \<Rightarrow> bool" where
  "at_attempt w j k err js s \<longleftrightarrow> w < length (ts_workers s) \<and> ts_workers s ! w = WAttempt j k err
     \<and> hm_get (ts_states s) (jb_id j) = Some js \<and> \<not> js_cancelled js"

lemma one_failure:
  assumes "at_attempt w j k err js s" "k < retries_of (ts_config s) j"
  shows "at_attempt w j (k + 1) (error_text e) (js\<lparr>js_retry_count := k + 1\<rparr>) (run_worker w (failing_inputs now e) s)
    \<and> ts_config (run_worker w (failing_inputs now e) s) = ts_config s
    \<and> ts_failed (run_worker w (failing_inputs now e) s) = ts_failed s
    \<and> ts_completed (run_worker w (failing_inputs now e) s) = ts_completed s"
  using assms
  by (simp add: at_attempt_def run_worker_def failing_inputs_def run_input_def numeral_3_eq_3 worker_step_def
      is_cancelled_def change_state_def)

lemma failures:
  assumes "at_attempt w j k err js s" "k + length es \<le> retries_of (ts_config s) j"
    and "t = run_worker w (concat (map (failing_inputs now) es)) s"
  shows "\<exists>err' js'. at_attempt w j (k + length es) err' js' t
    \<and> js_retry_count js' = (if es = [] then js_retry_count js else k + length es)
    \<and> ts_config t = ts_config s \<and> ts_failed t = ts_failed s \<and> ts_completed t = ts_completed s"
  using assms
proof (induction es arbitrary: k err js s)
  case Nil
  then show ?case by (auto simp: run_worker_def)
next
  case (Cons e es)
  let ?s = "run_worker w (failing_inputs now e) s"
  have one: "at_attempt w j (k + 1) (error_text e) (js\<lparr>js_retry_count := k + 1\<rparr>) ?s" "ts_config ?s = ts_config s"
      "ts_failed ?s = ts_failed s" "ts_completed ?s = ts_completed s"
    using one_failure [OF Cons.prems(1), of e now] Cons.prems(2) by simp_all
  have bound: "k + 1 + length es \<le> retries_of (ts_config ?s) j" using Cons.prems(2) by (simp add: one(2))
  have t: "t = run_worker w (concat (map (failing_inputs now) es)) ?s"
    by (simp add: Cons.prems(3) run_worker_append)
  from Cons.IH [OF one(1) bound t] show ?case by (auto simp: one(2-4) split: if_splits)
qed

lemma last_success:
  assumes "at_attempt w j k err js s"
  shows "let t = run_worker w (replicate 2 (run_input now (Finished (Inr v)))) s
    in ts_workers t ! w = WIdle \<and> ts_completed t = ts_completed s + 1 \<and> ts_failed t = ts_failed s
      \<and> (\<exists>js'. hm_get (ts_states t) (jb_id j) = Some js' \<and> js_status js' = Completed \<and> js_result js' = Some (Inr v)
          \<and> js_retry_count js' = js_retry_count js)"
  using assms
  by (simp add: at_attempt_def run_worker_def run_input_def numeral_2_eq_2 worker_step_def is_cancelled_def
      change_state_def set_status_def Let_def)

lemma last_failure:
  assumes "at_attempt w j k err js s" "k = retries_of (ts_config s) j"
  shows "let t = run_worker w (failing_inputs now e) s
    in ts_workers t ! w = WIdle \<and> ts_failed t = ts_failed s + 1 \<and> ts_completed t = ts_completed s
      \<and> (\<exists>js'. hm_get (ts_states t) (jb_id j) = Some js' \<and> js_status js' = Failed (error_text e)
          \<and> js_result js' = Some (Inl (Internal (error_text e))))"
  using assms
  by (simp add: at_attempt_def run_worker_def failing_inputs_def run_input_def numeral_3_eq_3 worker_step_def
      is_cancelled_def change_state_def set_status_def Let_def)

text \<open>Without a cancellation and a time-out, a job is tried until its first success, but at most once
  more than its policy retries: if attempt \<open>length es\<close> is the first that succeeds, the job ends
  completed with its value and that retry count; if all fail, it ends failed with the text of the
  last error; in both cases the worker is free again after three steps for each failed attempt and
  two for the last.\<close>

theorem job_run_result:
  assumes "at_attempt w j 0 err js s" "length es \<le> retries_of (ts_config s) j"
  shows "(let t = run_worker w (concat (map (failing_inputs now) es) @ replicate 2 (run_input now (Finished (Inr v)))) s
      in ts_workers t ! w = WIdle \<and> ts_completed t = ts_completed s + 1 \<and> ts_failed t = ts_failed s
        \<and> (\<exists>js'. hm_get (ts_states t) (jb_id j) = Some js' \<and> js_status js' = Completed \<and> js_result js' = Some (Inr v)
            \<and> (es \<noteq> [] \<longrightarrow> js_retry_count js' = length es)))
    \<and> (length es = retries_of (ts_config s) j \<longrightarrow>
      (let t = run_worker w (concat (map (failing_inputs now) es) @ failing_inputs now e) s
       in ts_workers t ! w = WIdle \<and> ts_failed t = ts_failed s + 1 \<and> ts_completed t = ts_completed s
        \<and> (\<exists>js'. hm_get (ts_states t) (jb_id j) = Some js' \<and> js_status js' = Failed (error_text e)
            \<and> js_result js' = Some (Inl (Internal (error_text e))))))"
proof -
  let ?s = "run_worker w (concat (map (failing_inputs now) es)) s"
  have bound: "0 + length es \<le> retries_of (ts_config s) j" using assms(2) by simp
  from failures [OF assms(1) bound refl, of now] obtain err' js1 where
      at: "at_attempt w j (length es) err' js1 ?s" "js_retry_count js1 = (if es = [] then js_retry_count js else length es)"
      and same: "ts_config ?s = ts_config s" "ts_failed ?s = ts_failed s" "ts_completed ?s = ts_completed s"
    by auto
  show ?thesis
    using last_success [OF at(1), of now v] last_failure [OF at(1), of now e] at(2)
    unfolding run_worker_append Let_def same by auto
qed

theorem job_run_result_witness:
  "ts_completed (run_worker 0 (replicate 2 (run_input 9 (Finished (Inr Null))))
      (run_worker 0 (replicate 3 (run_input 9 (Finished (Inr Null)))) sample_sched)) =
    ts_completed (run_worker 0 (replicate 3 (run_input 9 (Finished (Inr Null)))) sample_sched) + 1"
proof -
  let ?s = "run_worker 0 (replicate 3 (run_input 9 (Finished (Inr Null)))) sample_sched"
  have "at_attempt 0 (sample_job 7 1) 0 [] ((job_state_new 0 7 ''job'' 1)
      \<lparr>js_status := Running, js_version := 1, js_started_at := Some 9\<rparr>) ?s"
    by (simp add: at_attempt_def run_worker_def numeral_eq_Suc worker_step_def sample_sched_eval mq_dequeue_def
        greatest_def priority_le_refl job_status_of_def job_state_new_def sample_job_def change_state_def
        set_status_def run_input_def Let_def)
  from job_run_result [OF this, of "[]" 9 Null] show ?thesis by (simp add: Let_def)
qed

end
