(* ===== verification/Agents.thy ===== *)
theory Agents
  imports Core
begin

text \<open>The status of an agent (\<open>traits/src/agent.rs\<close>).\<close>

datatype agent_status = Idle | Running | Paused | Completed | Failed

end
