(* ===== verification/Agent_Pool.thy ===== *)
theory Agent_Pool
  imports Agents
begin

text \<open>
  The pool of reusable agents (crate \<open>runtime\<close>, \<open>agent_pool.rs\<close>).

  An agent, a trait object, is its identifier; what the factory returns, the status an agent reports
  when it comes back, and the clock (nanoseconds of \<open>Instant\<close>) are arguments. The counter of all
  agents is a \<open>usize\<close>: 64 bits that wrap. Borrowing holds its locks for short stretches only; each
  stretch is a function, the operations compose them, and \<open>pool_step\<close> interleaves them.
\<close>

section \<open>State\<close>

record pool_entry =
  pe_agent_id :: ls_id
  pe_name :: string
  pe_status :: agent_status
  pe_created_at :: int
  pe_last_used :: int
  pe_borrow_count :: nat

definition pool_entry_new :: "int \<Rightarrow> ls_id \<Rightarrow> string \<Rightarrow> pool_entry" where
  "pool_entry_new now i name = \<lparr>pe_agent_id = i, pe_name = name, pe_status = Idle, pe_created_at = now,
     pe_last_used = now, pe_borrow_count = 0\<rparr>"

record pool_config =
  pc_min_idle :: nat
  pc_max_total :: nat
  pc_max_idle_secs :: nat
  pc_max_borrow_secs :: nat
  pc_health_check_interval_secs :: nat

definition pool_config_default :: pool_config where
  "pool_config_default = \<lparr>pc_min_idle = 0, pc_max_total = 32, pc_max_idle_secs = 300,
     pc_max_borrow_secs = 3600, pc_health_check_interval_secs = 60\<rparr>"

record agent_handle =
  ah_agent_id :: ls_id
  ah_name :: string

record agent_pool =
  ap_config :: pool_config
  ap_idle :: "pool_entry list"
  ap_borrowed :: "(ls_id, int) hmap"
  ap_total :: "64 word"

definition pool_new :: "pool_config \<Rightarrow> agent_pool" where
  "pool_new config = \<lparr>ap_config = config, ap_idle = [], ap_borrowed = [], ap_total = 0\<rparr>"

text \<open>\<open>Instant::duration_since\<close> saturates at zero.\<close>

definition duration_since :: "int \<Rightarrow> int \<Rightarrow> int" where
  "duration_since now start = max 0 (now - start)"

definition pool_secs :: "nat \<Rightarrow> int" where
  "pool_secs n = int n * 1000000000"

section \<open>Borrowing\<close>

text \<open>From the queue of idle agents, under its lock.\<close>

definition lend :: "int \<Rightarrow> pool_entry \<Rightarrow> pool_entry list \<Rightarrow> agent_pool \<Rightarrow> agent_handle \<times> agent_pool" where
  "lend now e rest p = (\<lparr>ah_agent_id = pe_agent_id e, ah_name = pe_name e\<rparr>,
     p\<lparr>ap_idle := rest, ap_borrowed := hm_insert (pe_agent_id e) now (ap_borrowed p)\<rparr>)"

definition borrow_idle :: "int \<Rightarrow> agent_pool \<Rightarrow> (agent_handle \<times> agent_pool) option" where
  "borrow_idle now p = (case ap_idle p of [] \<Rightarrow> None | e # rest \<Rightarrow> Some (lend now e rest p))"

fun take_named :: "string \<Rightarrow> pool_entry list \<Rightarrow> (pool_entry \<times> pool_entry list) option" where
  "take_named name [] = None"
| "take_named name (e # es) =
     (if pe_name e = name then Some (e, es)
      else (case take_named name es of None \<Rightarrow> None | Some (f, rest) \<Rightarrow> Some (f, e # rest)))"

definition borrow_idle_named :: "int \<Rightarrow> string \<Rightarrow> agent_pool \<Rightarrow> (agent_handle \<times> agent_pool) option" where
  "borrow_idle_named now name p = (case take_named name (ap_idle p) of
     None \<Rightarrow> None | Some (e, rest) \<Rightarrow> Some (lend now e rest p))"

text \<open>The capacity check with the reclaiming of agents that were lent for too long.\<close>

definition at_capacity :: "agent_pool \<Rightarrow> bool" where
  "at_capacity p \<longleftrightarrow> unat (ap_total p) \<ge> pc_max_total (ap_config p)"

definition expired_ids :: "int \<Rightarrow> agent_pool \<Rightarrow> ls_id list" where
  "expired_ids now p = map fst (filter (\<lambda>(_, start). duration_since now start > pool_secs (pc_max_borrow_secs (ap_config p)))
     (ap_borrowed p))"

definition reclaim_one :: "ls_id \<Rightarrow> agent_pool \<Rightarrow> agent_pool" where
  "reclaim_one i p = p\<lparr>ap_borrowed := hm_remove i (ap_borrowed p), ap_total := ap_total p - 1\<rparr>"

definition reclaim_expired :: "int \<Rightarrow> agent_pool \<Rightarrow> agent_pool" where
  "reclaim_expired now p = fold reclaim_one (expired_ids now p) p"

definition capacity_error :: "agent_pool \<Rightarrow> ls_error" where
  "capacity_error p = RuntimeState (''agent pool at capacity ('' @ show_nat (pc_max_total (ap_config p)) @ '')'')"

definition admit :: "int \<Rightarrow> agent_pool \<Rightarrow> unit ls_result \<times> agent_pool" where
  "admit now p =
     (if at_capacity p
      then (let p' = reclaim_expired now p
        in if at_capacity p' then (Inl (capacity_error p'), p') else (Inr (), p'))
      else (Inr (), p))"

text \<open>The creation: the counter goes up before the factory is asked.\<close>

definition count_new :: "agent_pool \<Rightarrow> agent_pool" where
  "count_new p = p\<lparr>ap_total := ap_total p + 1\<rparr>"

definition finish_create :: "int \<Rightarrow> string \<Rightarrow> ls_id ls_result \<Rightarrow> agent_pool \<Rightarrow> agent_handle ls_result \<times> agent_pool" where
  "finish_create now name created p = (case created of
     Inl e \<Rightarrow> (Inl e, p)
   | Inr i \<Rightarrow> (Inr \<lparr>ah_agent_id = i, ah_name = name\<rparr>, p\<lparr>ap_borrowed := hm_insert i now (ap_borrowed p)\<rparr>))"

definition borrow_new :: "int \<Rightarrow> string \<Rightarrow> ls_id ls_result \<Rightarrow> agent_pool \<Rightarrow> agent_handle ls_result \<times> agent_pool" where
  "borrow_new now name created p = (case admit now p of
     (Inl e, p') \<Rightarrow> (Inl e, p')
   | (Inr _, p') \<Rightarrow> finish_create now name created (count_new p'))"

definition pool_borrow :: "int \<Rightarrow> ls_id ls_result \<Rightarrow> agent_pool \<Rightarrow> agent_handle ls_result \<times> agent_pool" where
  "pool_borrow now created p = (case borrow_idle now p of
     Some (h, p') \<Rightarrow> (Inr h, p')
   | None \<Rightarrow> borrow_new now ''default'' created p)"

definition pool_borrow_named :: "int \<Rightarrow> string \<Rightarrow> ls_id ls_result \<Rightarrow> agent_pool \<Rightarrow> agent_handle ls_result \<times> agent_pool" where
  "pool_borrow_named now name created p = (case borrow_idle_named now name p of
     Some (h, p') \<Rightarrow> (Inr h, p')
   | None \<Rightarrow> borrow_new now name created p)"

section \<open>Returning\<close>

definition return_begin :: "ls_id \<Rightarrow> agent_pool \<Rightarrow> agent_pool" where
  "return_begin i p = p\<lparr>ap_borrowed := hm_remove i (ap_borrowed p)\<rparr>"

definition return_finish :: "int \<Rightarrow> agent_status ls_result \<Rightarrow> ls_id \<Rightarrow> agent_pool \<Rightarrow> agent_pool" where
  "return_finish now status i p =
     (if status = Inr Failed \<or> status = Inr Completed then p\<lparr>ap_total := ap_total p - 1\<rparr>
      else if length (ap_idle p) \<ge> pc_max_total (ap_config p) div 2 then p\<lparr>ap_total := ap_total p - 1\<rparr>
      else p\<lparr>ap_idle := ap_idle p @ [pool_entry_new now i ''default'']\<rparr>)"

definition return_agent :: "int \<Rightarrow> agent_status ls_result \<Rightarrow> ls_id \<Rightarrow> agent_pool \<Rightarrow> agent_pool" where
  "return_agent now status i p = return_finish now status i (return_begin i p)"

section \<open>Cleaning and statistics\<close>

definition clean_retain :: "int \<Rightarrow> agent_pool \<Rightarrow> nat \<times> agent_pool" where
  "clean_retain now p =
     (let kept = filter (\<lambda>e. duration_since now (pe_last_used e) < pool_secs (pc_max_idle_secs (ap_config p))) (ap_idle p);
          removed = length (ap_idle p) - length kept
      in (removed, p\<lparr>ap_idle := kept, ap_total := ap_total p - of_nat removed\<rparr>))"

text \<open>One turn of the loop that fills the queue up: borrow an agent and return it.\<close>

definition refill :: "int \<times> ls_id ls_result \<times> agent_status ls_result \<Rightarrow> agent_pool \<Rightarrow> agent_pool" where
  "refill inp p = (case inp of (now, created, status) \<Rightarrow>
     (case pool_borrow now created p of (Inl e, p') \<Rightarrow> p' | (Inr h, p') \<Rightarrow> return_agent now status (ah_agent_id h) p'))"

definition clean_idle ::
  "int \<Rightarrow> (nat \<Rightarrow> int \<times> ls_id ls_result \<times> agent_status ls_result) \<Rightarrow> agent_pool \<Rightarrow> nat \<times> agent_pool" where
  "clean_idle now inputs p =
     (let (removed, p') = clean_retain now p; shortfall = pc_min_idle (ap_config p) - length (ap_idle p')
      in (removed, fold (\<lambda>k. refill (inputs k)) [0..<shortfall] p'))"

record pool_stats =
  pst_idle :: nat
  pst_borrowed :: nat
  pst_total :: nat
  pst_max_total :: nat

definition pool_stats_of :: "agent_pool \<Rightarrow> pool_stats" where
  "pool_stats_of p = \<lparr>pst_idle = length (ap_idle p), pst_borrowed = length (ap_borrowed p),
     pst_total = unat (ap_total p), pst_max_total = pc_max_total (ap_config p)\<rparr>"

section \<open>Borrowers at the same time\<close>

text \<open>A borrower that found no idle agent: it removes the expired loans one by one, it has passed the
  check, or it waits for the factory. The pool with its surroundings: the agents lent out, the ones
  on their way back, the borrowers under way; and how many creations failed and loans were reclaimed.\<close>

datatype borrow_phase = Reclaiming string "ls_id list" | Admitted string | Creating string

record pool_system =
  py_pool :: agent_pool
  py_lent :: "ls_id multiset"
  py_returning :: "ls_id multiset"
  py_borrowers :: "borrow_phase multiset"
  py_failed :: nat
  py_reclaimed :: nat

definition agents_of :: "pool_system \<Rightarrow> ls_id multiset" where
  "agents_of s = mset (map pe_agent_id (ap_idle (py_pool s))) + py_lent s + py_returning s"

inductive pool_step :: "pool_system \<Rightarrow> pool_system \<Rightarrow> bool" where
  ps_idle: "borrow_idle now (py_pool s) = Some (h, p) \<or> borrow_idle_named now name (py_pool s) = Some (h, p) \<Longrightarrow>
    pool_step s (s\<lparr>py_pool := p, py_lent := add_mset (ah_agent_id h) (py_lent s)\<rparr>)"
| ps_admit: "\<not> at_capacity (py_pool s) \<Longrightarrow>
    pool_step s (s\<lparr>py_borrowers := add_mset (Admitted name) (py_borrowers s)\<rparr>)"
| ps_full: "at_capacity (py_pool s) \<Longrightarrow>
    pool_step s (s\<lparr>py_borrowers := add_mset (Reclaiming name (expired_ids now (py_pool s))) (py_borrowers s)\<rparr>)"
| ps_reclaim: "py_borrowers s = add_mset (Reclaiming name (i # is)) B \<Longrightarrow>
    pool_step s (s\<lparr>py_pool := reclaim_one i (py_pool s), py_borrowers := add_mset (Reclaiming name is) B,
      py_reclaimed := py_reclaimed s + 1\<rparr>)"
| ps_recheck: "py_borrowers s = add_mset (Reclaiming name []) B \<Longrightarrow>
    pool_step s (s\<lparr>py_borrowers := (if at_capacity (py_pool s) then B else add_mset (Admitted name) B)\<rparr>)"
| ps_count: "py_borrowers s = add_mset (Admitted name) B \<Longrightarrow>
    pool_step s (s\<lparr>py_pool := count_new (py_pool s), py_borrowers := add_mset (Creating name) B\<rparr>)"
| ps_created: "py_borrowers s = add_mset (Creating name) B \<Longrightarrow> i \<notin># agents_of s \<Longrightarrow>
    finish_create now name (Inr i) (py_pool s) = (Inr h, p) \<Longrightarrow>
    pool_step s (s\<lparr>py_pool := p, py_borrowers := B, py_lent := add_mset (ah_agent_id h) (py_lent s)\<rparr>)"
| ps_failed: "py_borrowers s = add_mset (Creating name) B \<Longrightarrow>
    finish_create now name (Inl e) (py_pool s) = (r, p) \<Longrightarrow>
    pool_step s (s\<lparr>py_pool := p, py_borrowers := B, py_failed := py_failed s + 1\<rparr>)"
| ps_return: "py_lent s = add_mset i L \<Longrightarrow>
    pool_step s (s\<lparr>py_pool := return_begin i (py_pool s), py_lent := L, py_returning := add_mset i (py_returning s)\<rparr>)"
| ps_returned: "py_returning s = add_mset i R \<Longrightarrow>
    pool_step s (s\<lparr>py_pool := return_finish now status i (py_pool s), py_returning := R\<rparr>)"
| ps_clean: "pool_step s (s\<lparr>py_pool := snd (clean_retain now (py_pool s))\<rparr>)"

definition pool_init :: "pool_system \<Rightarrow> bool" where
  "pool_init s \<longleftrightarrow> (\<exists>config. s = \<lparr>py_pool = pool_new config, py_lent = {#}, py_returning = {#},
     py_borrowers = {#}, py_failed = 0, py_reclaimed = 0\<rparr>)"

section \<open>The invariant\<close>

fun creating :: "borrow_phase \<Rightarrow> bool" where
  "creating (Creating _) = True"
| "creating _ = False"

definition agents_count :: "pool_system \<Rightarrow> nat" where
  "agents_count s = size (agents_of s) + size (filter_mset creating (py_borrowers s)) + py_failed s"

definition pool_inv :: "pool_system \<Rightarrow> bool" where
  "pool_inv s \<longleftrightarrow> (\<forall>i. count (agents_of s) i \<le> 1)
     \<and> length (ap_idle (py_pool s)) \<le> pc_max_total (ap_config (py_pool s)) div 2
     \<and> ap_total (py_pool s) + of_nat (py_reclaimed s) = of_nat (agents_count s)"

lemma take_named_mset:
  "take_named name es = Some (e, rest) \<Longrightarrow> mset es = add_mset e (mset rest) \<and> pe_name e = name"
  by (induction es arbitrary: rest) (auto split: if_splits option.splits)

text \<open>Lending moves an agent from the queue to the lent ones.\<close>

lemma lent_from_idle:
  assumes "borrow_idle now p = Some (h, q) \<or> borrow_idle_named now name p = Some (h, q)"
  shows "mset (map pe_agent_id (ap_idle p)) = add_mset (ah_agent_id h) (mset (map pe_agent_id (ap_idle q)))
    \<and> length (ap_idle p) = Suc (length (ap_idle q)) \<and> ap_total q = ap_total p \<and> ap_config q = ap_config p"
proof -
  obtain e rest where e: "mset (ap_idle p) = add_mset e (mset rest)" "(h, q) = lend now e rest p"
  proof (cases "borrow_idle now p = Some (h, q)")
    case True
    then obtain e rest where "ap_idle p = e # rest" "(h, q) = lend now e rest p"
      by (auto simp: borrow_idle_def split: list.splits)
    then show thesis by (intro that) simp_all
  next
    case False
    with assms have "borrow_idle_named now name p = Some (h, q)" by simp
    then obtain e rest where "take_named name (ap_idle p) = Some (e, rest)" "(h, q) = lend now e rest p"
      by (auto simp: borrow_idle_named_def split: option.splits)
    then show thesis using take_named_mset by (intro that) auto
  qed
  from e(1) have "length (ap_idle p) = Suc (length rest)" by (metis size_add_mset size_mset)
  with e show ?thesis by (simp add: lend_def)
qed

text \<open>A step that drops the agents \<open>D\<close> takes their number off the counter.\<close>

lemma inv_drop:
  assumes "pool_inv s" "agents_of s = agents_of t + D"
    and "ap_total (py_pool t) = ap_total (py_pool s) - of_nat (size D)" "ap_config (py_pool t) = ap_config (py_pool s)"
    and "length (ap_idle (py_pool t)) \<le> pc_max_total (ap_config (py_pool s)) div 2"
    and "py_borrowers t = py_borrowers s" "py_failed t = py_failed s" "py_reclaimed t = py_reclaimed s"
  shows "pool_inv t"
proof -
  have "count (agents_of t) i \<le> 1" for i
  proof -
    have "count (agents_of s) i \<le> 1" using assms(1) by (simp add: pool_inv_def)
    then show ?thesis by (simp add: assms(2))
  qed
  moreover have "agents_count s = agents_count t + size D" using assms by (simp add: agents_count_def)
  then have "ap_total (py_pool t) + of_nat (py_reclaimed t) = of_nat (agents_count t)"
    using assms(1) by (simp add: pool_inv_def assms(3,8) algebra_simps)
  ultimately show ?thesis using assms(4,5) by (simp add: pool_inv_def)
qed

lemma pool_step_inv:
  assumes "pool_inv s" "pool_step s t"
  shows "pool_inv t"
  using assms(2)
proof cases
  case (ps_idle now h p name)
  from lent_from_idle [OF ps_idle(2)] assms(1) show ?thesis
    by (simp add: ps_idle(1) pool_inv_def agents_count_def agents_of_def del: mset_map)
next
  case (ps_reclaim name i "is" B)
  with assms(1) show ?thesis
    by (simp add: pool_inv_def agents_count_def agents_of_def reclaim_one_def)
next
  case (ps_created name B i now h p)
  have n: "count (agents_of s) i = 0" using ps_created(3) by (simp add: not_in_iff)
  from ps_created assms(1) show ?thesis
    unfolding pool_inv_def agents_count_def
    using n by (auto simp: agents_of_def finish_create_def)
next
  case (ps_returned i R now status)
  let ?p = "py_pool s"
  show ?thesis
  proof (cases "(status = Inr Failed \<or> status = Inr Completed) \<or> pc_max_total (ap_config ?p) div 2 \<le> length (ap_idle ?p)")
    case True
    then have "return_finish now status i ?p = ?p\<lparr>ap_total := ap_total ?p - 1\<rparr>" by (auto simp: return_finish_def)
    with ps_returned assms(1) show ?thesis
      by (intro inv_drop [OF assms(1), where D = "{#i#}"]) (simp_all add: agents_of_def pool_inv_def)
  next
    case False
    with ps_returned assms(1) show ?thesis
      by (intro inv_drop [OF assms(1), where D = "{#}"])
        (simp_all add: agents_of_def return_finish_def pool_entry_new_def)
  qed
next
  case (ps_clean now)
  let ?p = "py_pool s" and ?P = "\<lambda>e. duration_since now (pe_last_used e) < pool_secs (pc_max_idle_secs (ap_config (py_pool s)))"
  let ?D = "mset (map pe_agent_id (filter (\<lambda>e. \<not> ?P e) (ap_idle ?p)))"
  have split: "mset (map pe_agent_id es) = mset (map pe_agent_id (filter ?P es)) + mset (map pe_agent_id (filter (\<lambda>e. \<not> ?P e) es))" for es
    by (induction es) auto
  have "length (ap_idle ?p) = length (filter ?P (ap_idle ?p)) + size ?D"
    using sum_length_filter_compl [of ?P "ap_idle ?p"] by (simp only: size_mset length_map)
  moreover have "length (filter ?P (ap_idle ?p)) \<le> length (ap_idle ?p)" by (rule length_filter_le)
  ultimately show ?thesis
    using assms(1) split [of "ap_idle ?p"] unfolding ps_clean
    by (intro inv_drop [OF assms(1), where D = ?D])
      (simp_all add: agents_of_def clean_retain_def Let_def pool_inv_def del: mset_map)
qed (use assms(1) in \<open>auto simp: pool_inv_def agents_count_def agents_of_def count_new_def finish_create_def return_begin_def
      algebra_simps\<close>)

interpretation pool_machine: machine pool_init pool_step pool_inv
proof
  show "pool_init s \<Longrightarrow> pool_inv s" for s
    by (auto simp: pool_init_def pool_inv_def agents_count_def agents_of_def pool_new_def)
  show "pool_inv s \<Longrightarrow> pool_step s t \<Longrightarrow> pool_inv t" for s t by (rule pool_step_inv)
qed

section \<open>Properties\<close>

text \<open>C20: under every interleaving of borrowers, returns and cleaning, no agent is lent out twice or lent and
  idle at once, at most half of the maximum is idle, and the counter is the number of agents
  that are idle, lent, on their way back or being created, plus the failed creations and minus the
  reclaimed loans, modulo 2^64; without a reclaimed loan it is that number.\<close>

theorem pool_accounting:
  assumes "reaches pool_init pool_step s"
  shows "count (agents_of s) i \<le> 1
    \<and> 2 * length (ap_idle (py_pool s)) \<le> pc_max_total (ap_config (py_pool s))
    \<and> ap_total (py_pool s) + of_nat (py_reclaimed s) = of_nat (agents_count s)
    \<and> (py_reclaimed s = 0 \<and> agents_count s < 2 ^ 64 \<longrightarrow> unat (ap_total (py_pool s)) = agents_count s)"
proof -
  have "pool_inv s" by (rule pool_machine.reaches_inv [OF assms])
  then show ?thesis by (auto simp: pool_inv_def unat_of_nat)
qed

definition sample_pool :: agent_pool where
  "sample_pool = pool_new (pool_config_default\<lparr>pc_max_total := 4\<rparr>)"

theorem pool_accounting_witness:
  "\<exists>s. py_lent s = {#7#} \<and> unat (ap_total (py_pool s)) = 1 \<and> count (agents_of s) 7 \<le> 1"
proof -
  let ?s0 = "\<lparr>py_pool = sample_pool, py_lent = {#}, py_returning = {#}, py_borrowers = {#}, py_failed = 0, py_reclaimed = 0\<rparr>"
  let ?s1 = "?s0\<lparr>py_borrowers := {#Admitted ''default''#}\<rparr>"
  let ?s2 = "?s0\<lparr>py_pool := count_new sample_pool, py_borrowers := {#Creating ''default''#}\<rparr>"
  let ?s3 = "?s0\<lparr>py_pool := snd (finish_create 0 ''default'' (Inr 7) (count_new sample_pool)), py_lent := {#7#}\<rparr>"
  have 0: "reaches pool_init pool_step ?s0"
    by (rule reaches_init) (auto simp: pool_init_def sample_pool_def)
  have "pool_step ?s0 ?s1"
    using ps_admit [of ?s0 "''default''"]
    by (simp add: at_capacity_def sample_pool_def pool_new_def)
  then have 1: "reaches pool_init pool_step ?s1" by (rule reaches_step [OF 0])
  have "pool_step ?s1 ?s2" using ps_count [of ?s1 "''default''" "{#}"] by simp
  then have 2: "reaches pool_init pool_step ?s2" by (rule reaches_step [OF 1])
  have "pool_step ?s2 ?s3"
    using ps_created [of ?s2 "''default''" "{#}" 7 0 "\<lparr>ah_agent_id = 7, ah_name = ''default''\<rparr>"]
    by (simp add: finish_create_def agents_of_def sample_pool_def pool_new_def count_new_def)
  then have 3: "reaches pool_init pool_step ?s3" by (rule reaches_step [OF 2])
  have "agents_count ?s3 = 1"
    by (simp add: agents_count_def agents_of_def finish_create_def sample_pool_def pool_new_def count_new_def)
  with pool_accounting [OF 3, of 7] show ?thesis by (intro exI [of _ ?s3]) simp
qed

text \<open>A creation that fails stays counted: the counter never goes down again for it.\<close>

lemma failed_creation_counts:
  assumes "ap_idle p = []" "\<not> at_capacity p"
  shows "pool_borrow now (Inl e) p = (Inl e, p\<lparr>ap_total := ap_total p + 1\<rparr>)"
  using assms by (simp add: pool_borrow_def borrow_idle_def borrow_new_def admit_def finish_create_def count_new_def)

text \<open>A reclaimed agent that comes back after all is taken off the counter twice: with a maximum of
  one, the counter wraps to \<open>2 ^ 64 - 1\<close> and the pool, which holds no agent, is full for ever.\<close>

lemma reclaimed_return_wraps:
  assumes "pc_max_total (ap_config p) = 1" "ap_idle p = []" "ap_borrowed p = [(7, 0)]" "ap_total p = 1"
    and "now > pool_secs (pc_max_borrow_secs (ap_config p))"
    and "pool_borrow now (Inr 8) p = (r, q)" "q' = return_agent now st 8 (return_agent now st 7 q)"
  shows "ap_total q' = - 1 \<and> ap_idle q' = [] \<and> ap_borrowed q' = [] \<and> at_capacity q'"
proof -
  have "max 0 now = now" using assms(5) by (simp add: pool_secs_def)
  then have q: "q = p\<lparr>ap_borrowed := [(8, now)], ap_total := 1\<rparr>"
    using assms(1-6)
    by (auto simp: pool_borrow_def borrow_idle_def borrow_new_def admit_def at_capacity_def reclaim_expired_def
        expired_ids_def duration_since_def reclaim_one_def finish_create_def count_new_def Let_def)
  have "Suc 0 \<le> unat (- 1 :: 64 word)" unfolding Suc_le_eq unat_gt_0 by simp
  then show ?thesis
    unfolding assms(7) q using assms(1,2)
    by (simp add: return_agent_def return_begin_def return_finish_def at_capacity_def)
qed

text \<open>Filling up borrows an idle agent if there is one and returns it: a queue that is not empty never grows.\<close>

lemma refill_keeps_length:
  assumes "ap_idle p \<noteq> []" "length (ap_idle p) \<le> pc_max_total (ap_config p) div 2"
  shows "length (ap_idle (refill inp p)) \<le> length (ap_idle p)"
proof (cases "ap_idle p")
  case (Cons e es)
  obtain now created status where inp: "inp = (now, created, status)" by (cases inp)
  show ?thesis
    by (simp add: Cons inp refill_def pool_borrow_def borrow_idle_def lend_def return_agent_def return_begin_def
        return_finish_def)
qed (use assms in simp)

end
