(* ===== verification/Std_Text.thy ===== *)
theory Std_Text
  imports Core
begin

text \<open>
  The functions of the standard library's \<open>str\<close> that parsers of the program use, on ASCII text.
\<close>

definition is_space :: "char \<Rightarrow> bool" where
  "is_space c \<longleftrightarrow> c \<in> {CHR '' '', CHR 0x09, CHR 0x0A, CHR 0x0B, CHR 0x0C, CHR 0x0D}"

definition trim :: "string \<Rightarrow> string" where
  "trim s = rev (dropWhile is_space (rev (dropWhile is_space s)))"

definition lower_char :: "char \<Rightarrow> char" where
  "lower_char c = (let n = (of_char c :: nat) in if 65 \<le> n \<and> n \<le> 90 then char_of (n + 32) else c)"

definition to_lower :: "string \<Rightarrow> string" where
  "to_lower s = map lower_char s"

text \<open>\<open>split(sep)\<close> and \<open>split_once(sep)\<close> for a character, and \<open>split_whitespace\<close>.\<close>

fun split_on :: "char \<Rightarrow> string \<Rightarrow> string list" where
  "split_on sep [] = [[]]"
| "split_on sep (c # s) = (if c = sep then [] # split_on sep s
     else (case split_on sep s of [] \<Rightarrow> [[c]] | w # ws \<Rightarrow> (c # w) # ws))"

fun split_once :: "char \<Rightarrow> string \<Rightarrow> (string \<times> string) option" where
  "split_once sep [] = None"
| "split_once sep (c # s) = (if c = sep then Some ([], s)
     else (case split_once sep s of None \<Rightarrow> None | Some (a, b) \<Rightarrow> Some (c # a, b)))"

fun words :: "string \<Rightarrow> string list" where
  "words [] = []"
| "words (c # s) = (if is_space c then words s
     else (case s of [] \<Rightarrow> [[c]]
        | d # _ \<Rightarrow> if is_space d then [c] # words s
            else (case words s of [] \<Rightarrow> [[c]] | w # ws \<Rightarrow> (c # w) # ws)))"

text \<open>\<open>parse::<u8>\<close> and \<open>parse::<u64>\<close>: an optional plus sign and at least one digit, at most the greatest value.\<close>

definition digit_value :: "char \<Rightarrow> nat option" where
  "digit_value c = (let n = (of_char c :: nat) in if 48 \<le> n \<and> n \<le> 57 then Some (n - 48) else None)"

fun digits_value :: "nat \<Rightarrow> string \<Rightarrow> nat option" where
  "digits_value acc [] = Some acc"
| "digits_value acc (c # s) = (case digit_value c of None \<Rightarrow> None | Some d \<Rightarrow> digits_value (acc * 10 + d) s)"

definition parse_uint :: "nat \<Rightarrow> string \<Rightarrow> nat option" where
  "parse_uint limit s = (let ds = (case s of [] \<Rightarrow> [] | c # r \<Rightarrow> if c = CHR ''+'' then r else s) in
     if ds = [] then None
     else (case digits_value 0 ds of None \<Rightarrow> None | Some n \<Rightarrow> if n \<le> limit then Some n else None))"

definition parse_u8 :: "string \<Rightarrow> nat option" where
  "parse_u8 = parse_uint 255"

definition parse_u64 :: "string \<Rightarrow> nat option" where
  "parse_u64 = parse_uint (2 ^ 64 - 1)"

text \<open>\<open>contains\<close>, and text outside ASCII as its UTF-8 bytes.\<close>

fun contains_str :: "string \<Rightarrow> string \<Rightarrow> bool" where
  "contains_str [] p = (p = [])"
| "contains_str (c # s) p = (starts_with (c # s) p \<or> contains_str s p)"

definition utf8 :: "nat list \<Rightarrow> string" where
  "utf8 bs = map char_of bs"

text \<open>A string in single quotes, as error messages have it.\<close>

definition quoted :: "string \<Rightarrow> string" where
  "quoted s = [CHR 0x27] @ s @ [CHR 0x27]"

section \<open>Facts\<close>

lemma split_on_absent: "sep \<notin> set s \<Longrightarrow> split_on sep s = [s]"
  by (induction s) auto

lemma split_on_not_Nil [simp]: "split_on sep s \<noteq> []"
  by (induction s) (auto split: list.splits)

lemma split_on_append: "sep \<notin> set a \<Longrightarrow> split_on sep (a @ sep # b) = a # split_on sep b"
  by (induction a) auto

lemma split_once_absent: "sep \<notin> set s \<Longrightarrow> split_once sep s = None"
  by (induction s) auto

lemma split_once_append: "sep \<notin> set a \<Longrightarrow> split_once sep (a @ sep # b) = Some (a, b)"
  by (induction a) auto

lemma digits_value_append:
  "digits_value acc (s @ t) = (case digits_value acc s of None \<Rightarrow> None | Some n \<Rightarrow> digits_value n t)"
  by (induction s arbitrary: acc) (auto split: option.split)

lemma digit_value_char [simp]: "d < 10 \<Longrightarrow> digit_value (digit_char d) = Some d"
  by (simp add: digit_value_def digit_char_def)

lemma digits_value_show: "digits_value 0 (show_nat n) = Some n"
proof (induction n rule: show_nat.induct)
  case (1 n)
  then show ?case by (subst show_nat.simps) (auto simp: digits_value_append)
qed

lemma show_nat_digits: "c \<in> set (show_nat n) \<Longrightarrow> \<exists>d<10. c = digit_char d"
proof (induction n rule: show_nat.induct)
  case (1 n)
  have "n mod 10 < 10" by simp
  with 1 show ?case by (subst (asm) (2) show_nat.simps) (auto split: if_splits simp del: mod_less_divisor)
qed

lemma show_nat_not_Nil [simp]: "show_nat n \<noteq> []"
  by (subst show_nat.simps) simp

lemma digit_char_not: "d < 10 \<Longrightarrow> digit_char d \<noteq> c" if "digit_value c = None"
  using that by (metis digit_value_char option.distinct(1))

lemma show_nat_not: "digit_value c = None \<Longrightarrow> c \<notin> set (show_nat n)"
  using show_nat_digits digit_char_not by metis

lemma parse_u8_show: "n \<le> 255 \<Longrightarrow> parse_u8 (show_nat n) = Some n"
proof -
  assume n: "n \<le> 255"
  have "CHR ''+'' \<notin> set (show_nat n)" by (rule show_nat_not) (simp add: digit_value_def)
  then have "(case show_nat n of [] \<Rightarrow> [] | c # r \<Rightarrow> if c = CHR ''+'' then r else show_nat n) = show_nat n"
    by (cases "show_nat n") auto
  with n show ?thesis by (simp add: parse_u8_def parse_uint_def digits_value_show)
qed

lemma trim_no_space: "(\<And>c. c \<in> set s \<Longrightarrow> \<not> is_space c) \<Longrightarrow> trim s = s"
proof -
  assume s: "\<And>c. c \<in> set s \<Longrightarrow> \<not> is_space c"
  have drop: "dropWhile is_space t = t" if "\<And>c. c \<in> set t \<Longrightarrow> \<not> is_space c" for t
    using that by (cases t) auto
  show ?thesis using drop [of s] drop [of "rev s"] s by (simp add: trim_def)
qed

lemma space_not_digit: "is_space c \<Longrightarrow> digit_value c = None"
  by (auto simp: is_space_def digit_value_def)

end
