(* ===== verification/Cron.thy ===== *)
theory Cron
  imports Std_Text Job_Queue
begin

text \<open>
  Cron expressions and the cron manager (crate \<open>runtime\<close>, \<open>cron_scheduler.rs\<close>).

  A point in time is a number of nanoseconds; the calendar of \<open>chrono\<close> (the date and time of day
  of a point, and the greatest point, beyond which its additions panic) is an argument, as are
  the operations on \<open>f64\<close> that the parser of durations uses. A panic is \<open>None\<close> around a result.
\<close>

section \<open>Expressions\<close>

datatype cron_preset = Yearly | Monthly | Weekly | Daily | Hourly

datatype cron_kind =
    Standard "nat list" "nat list" "nat list" "nat list" "nat list"
  | WithSeconds "nat list" "nat list" "nat list" "nat list" "nat list" "nat list"
  | Every nat
  | Preset cron_preset

record cron_schedule =
  cs_expression :: string
  cs_kind :: cron_kind

type_synonym 'a panics = "'a option"

definition bind_p :: "'a ls_result panics \<Rightarrow> ('a \<Rightarrow> 'b ls_result panics) \<Rightarrow> 'b ls_result panics" where
  "bind_p x f = (case x of None \<Rightarrow> None | Some (Inl e) \<Rightarrow> Some (Inl e) | Some (Inr a) \<Rightarrow> f a)"

text \<open>\<open>(lo..=hi).step_by(step)\<close>, which panics for step 0.\<close>

definition step_list :: "nat \<Rightarrow> nat \<Rightarrow> nat \<Rightarrow> nat list" where
  "step_list lo hi step = filter (\<lambda>x. (x - lo) mod step = 0) [lo..<Suc hi]"

definition or_else :: "nat option \<Rightarrow> nat \<Rightarrow> nat" where
  "or_else x d = (case x of None \<Rightarrow> d | Some v \<Rightarrow> v)"

text \<open>A field without commas that is not a star: a step, a range or a value.\<close>

definition parse_plain :: "string \<Rightarrow> nat \<Rightarrow> nat \<Rightarrow> nat list ls_result panics" where
  "parse_plain field lo hi = (case split_once (CHR ''/'') field of
     Some (range_part, step_part) \<Rightarrow>
       (case parse_u8 step_part of
          None \<Rightarrow> Some (Inl (InvalidArgument (''invalid step '' @ quoted step_part)))
        | Some step \<Rightarrow>
            let (a, b) =
              (if range_part = ''*'' then (lo, hi)
               else (case split_once (CHR ''-'') range_part of
                       Some (a, b) \<Rightarrow> (or_else (parse_u8 a) lo, or_else (parse_u8 b) hi)
                     | None \<Rightarrow> (or_else (parse_u8 range_part) lo, hi)))
            in if step = 0 then None else Some (Inr (step_list (max a lo) (min b hi) step)))
   | None \<Rightarrow>
       (case split_once (CHR ''-'') field of
          Some (a, b) \<Rightarrow>
            (case parse_u8 a of
               None \<Rightarrow> Some (Inl (InvalidArgument (''invalid range start '' @ quoted a)))
             | Some a' \<Rightarrow>
            (case parse_u8 b of
               None \<Rightarrow> Some (Inl (InvalidArgument (''invalid range end '' @ quoted b)))
             | Some b' \<Rightarrow> Some (Inr [min a' b'..<Suc (max a' b')])))
        | None \<Rightarrow>
            (case parse_u8 field of
               None \<Rightarrow> Some (Inl (InvalidArgument (''invalid cron value '' @ quoted field)))
             | Some v \<Rightarrow>
                 if v < lo \<or> v > hi
                 then Some (Inl (InvalidArgument (''value '' @ show_nat v @ '' out of range ['' @ show_nat lo
                        @ '', '' @ show_nat hi @ '']'')))
                 else Some (Inr [v]))))"

text \<open>The parts of a comma list contain no comma, so the recursion of the code ends after one level.\<close>

definition parse_part :: "nat \<Rightarrow> nat \<Rightarrow> string \<Rightarrow> nat list ls_result panics" where
  "parse_part lo hi part = (let f = trim part in
     if f = ''*'' then Some (Inr [lo..<Suc hi]) else parse_plain f lo hi)"

fun collect_parts :: "nat \<Rightarrow> nat \<Rightarrow> string list \<Rightarrow> nat list ls_result panics" where
  "collect_parts lo hi [] = Some (Inr [])"
| "collect_parts lo hi (part # parts) = bind_p (parse_part lo hi part) (\<lambda>xs.
     bind_p (collect_parts lo hi parts) (\<lambda>ys. Some (Inr (xs @ ys))))"

definition parse_field :: "string \<Rightarrow> nat \<Rightarrow> nat \<Rightarrow> nat list ls_result panics" where
  "parse_field field lo hi = (let f = trim field in
     if f = ''*'' then Some (Inr [lo..<Suc hi])
     else (let parts = split_on (CHR '','') f in
       if length parts > 1
       then bind_p (collect_parts lo hi parts) (\<lambda>xs. Some (Inr (remdups_adj (sort xs))))
       else parse_plain f lo hi))"

section \<open>Durations\<close>

record 'f f64_ops =
  f64_parse :: "string \<Rightarrow> 'f option"
  f64_times :: "'f \<Rightarrow> nat \<Rightarrow> 'f"
  f64_to_u64 :: "'f \<Rightarrow> 64 word"

definition unit_secs :: "char \<Rightarrow> nat option" where
  "unit_secs c = (if c = CHR ''s'' then Some 1 else if c = CHR ''m'' then Some 60
     else if c = CHR ''h'' then Some 3600 else if c = CHR ''d'' then Some 86400 else None)"

fun duration_loop :: "'f f64_ops \<Rightarrow> 64 word \<Rightarrow> string \<Rightarrow> string \<Rightarrow> string + 64 word \<times> string" where
  "duration_loop ops secs current [] = Inr (secs, current)"
| "duration_loop ops secs current (c # s) =
     (if digit_value c \<noteq> None \<or> c = CHR ''.'' then duration_loop ops secs (current @ [c]) s
      else (case f64_parse ops current of
          None \<Rightarrow> Inl (''invalid number '' @ quoted current)
        | Some v \<Rightarrow>
            (case unit_secs c of
               None \<Rightarrow> Inl (''unknown unit '' @ quoted [c])
             | Some u \<Rightarrow> duration_loop ops
                 (secs + f64_to_u64 ops (if c = CHR ''s'' then v else f64_times ops v u)) [] s)))"

definition parse_duration :: "'f f64_ops \<Rightarrow> string \<Rightarrow> string + 64 word" where
  "parse_duration ops str = (let s = trim str in
     if s = [] then Inl ''empty duration''
     else (case duration_loop ops 0 [] s of
         Inl e \<Rightarrow> Inl e
       | Inr (secs, current) \<Rightarrow>
           if current = [] then Inr secs
           else (case parse_u64 current of
               None \<Rightarrow> Inl (''invalid number '' @ quoted current)
             | Some n \<Rightarrow> Inr (secs + of_nat n))))"

function trim_start_matches :: "string \<Rightarrow> string \<Rightarrow> string" where
  "trim_start_matches pat s =
     (if pat \<noteq> [] \<and> s \<noteq> [] \<and> starts_with s pat then trim_start_matches pat (drop (length pat) s) else s)"
  by pat_completeness auto
termination by (relation "measure (\<lambda>(pat, s). length s)") auto

declare trim_start_matches.simps [simp del]

section \<open>Parsing\<close>

definition parse_preset :: "string \<Rightarrow> cron_preset option" where
  "parse_preset s =
     (if s = ''@yearly'' \<or> s = ''@annually'' then Some Yearly
      else if s = ''@monthly'' then Some Monthly
      else if s = ''@weekly'' then Some Weekly
      else if s = ''@daily'' \<or> s = ''@midnight'' then Some Daily
      else if s = ''@hourly'' then Some Hourly else None)"

definition parse_fields :: "string list \<Rightarrow> cron_kind ls_result panics" where
  "parse_fields fs = (case fs of
     [mn, hr, md, mo, wd] \<Rightarrow>
       bind_p (parse_field mn 0 59) (\<lambda>mn. bind_p (parse_field hr 0 23) (\<lambda>hr.
       bind_p (parse_field md 1 31) (\<lambda>md. bind_p (parse_field mo 1 12) (\<lambda>mo.
       bind_p (parse_field wd 0 6) (\<lambda>wd. Some (Inr (Standard mn hr md mo wd)))))))
   | [se, mn, hr, md, mo, wd] \<Rightarrow>
       bind_p (parse_field se 0 59) (\<lambda>se. bind_p (parse_field mn 0 59) (\<lambda>mn. bind_p (parse_field hr 0 23) (\<lambda>hr.
       bind_p (parse_field md 1 31) (\<lambda>md. bind_p (parse_field mo 1 12) (\<lambda>mo.
       bind_p (parse_field wd 0 6) (\<lambda>wd. Some (Inr (WithSeconds se mn hr md mo wd))))))))
   | _ \<Rightarrow> Some (Inl (InvalidArgument (''invalid cron expression: expected 5 or 6 fields, got ''
            @ show_nat (length fs)))))"

definition cron_parse :: "'f f64_ops \<Rightarrow> string \<Rightarrow> cron_schedule ls_result panics" where
  "cron_parse ops expr = (let trimmed = to_lower (trim expr) in
     bind_p
       (case parse_preset trimmed of
          Some p \<Rightarrow> Some (Inr (Preset p))
        | None \<Rightarrow>
            if starts_with trimmed ''@every '' then
              (case parse_duration ops (trim_start_matches ''@every '' trimmed) of
                 Inl e \<Rightarrow> Some (Inl (InvalidArgument (''invalid @every duration: '' @ e)))
               | Inr d \<Rightarrow> Some (Inr (Every (unat d))))
            else parse_fields (words trimmed))
       (\<lambda>kind. Some (Inr \<lparr>cs_expression = expr, cs_kind = kind\<rparr>)))"

section \<open>The next occurrence\<close>

record civil =
  cv_second :: nat
  cv_minute :: nat
  cv_hour :: nat
  cv_day :: nat
  cv_month :: nat
  cv_weekday :: nat

record calendar =
  cl_civil :: "int \<Rightarrow> civil"
  cl_max :: int

text \<open>The search in steps of a minute or a second; an addition beyond the greatest point panics.\<close>

fun search :: "calendar \<Rightarrow> nat \<Rightarrow> int \<Rightarrow> (civil \<Rightarrow> bool) \<Rightarrow> int \<Rightarrow> int option panics" where
  "search cal 0 step P candidate = Some None"
| "search cal (Suc n) step P candidate =
     (let c = candidate + step in
      if c > cl_max cal then None
      else if P (cl_civil cal c) then Some (Some c) else search cal n step P c)"

definition matches_single :: "int \<Rightarrow> int \<Rightarrow> int \<Rightarrow> int \<Rightarrow> int \<Rightarrow> civil \<Rightarrow> bool" where
  "matches_single minute hour day month weekday c \<longleftrightarrow>
     (minute = -1 \<or> int (cv_minute c) = minute) \<and> (hour = -1 \<or> int (cv_hour c) = hour)
     \<and> (day = -1 \<or> int (cv_day c) = day) \<and> (month = -1 \<or> int (cv_month c) = month)
     \<and> (weekday = -1 \<or> int (cv_weekday c) = weekday)"

definition find_next_match :: "calendar \<Rightarrow> int \<Rightarrow> int \<Rightarrow> int \<Rightarrow> int \<Rightarrow> int \<Rightarrow> int \<Rightarrow> int option panics" where
  "find_next_match cal now minute hour day month weekday =
     search cal (365 * 2 * 24 * 60) 60000000000 (matches_single minute hour day month weekday) now"

definition matches_multi :: "nat list \<Rightarrow> nat list \<Rightarrow> nat list \<Rightarrow> nat list \<Rightarrow> nat list \<Rightarrow> nat list \<Rightarrow> civil \<Rightarrow> bool" where
  "matches_multi seconds minutes hours days months weekdays c \<longleftrightarrow>
     (let match_sec = cv_second c \<in> set seconds; match_min = cv_minute c \<in> set minutes;
          match_hour = cv_hour c \<in> set hours;
          match_day = cv_day c \<in> set days \<or> days = [];
          match_month = cv_month c \<in> set months \<or> months = [];
          match_wday = cv_weekday c \<in> set weekdays \<or> weekdays = [];
          day_ok = match_day \<or> match_wday
      in match_sec \<and> match_min \<and> match_hour \<and> day_ok \<and> match_month)"

definition find_next_match_multi ::
  "calendar \<Rightarrow> int \<Rightarrow> nat list \<Rightarrow> nat list \<Rightarrow> nat list \<Rightarrow> nat list \<Rightarrow> nat list \<Rightarrow> nat list \<Rightarrow> int option panics" where
  "find_next_match_multi cal now seconds minutes hours days months weekdays =
     search cal (365 * 2 * 24 * 3600) 1000000000 (matches_multi seconds minutes hours days months weekdays) now"

definition preset_fields :: "cron_preset \<Rightarrow> int \<times> int \<times> int \<times> int \<times> int" where
  "preset_fields p = (case p of Yearly \<Rightarrow> (0, 0, 1, 1, -1) | Monthly \<Rightarrow> (0, 0, 1, -1, -1)
     | Weekly \<Rightarrow> (0, 0, -1, -1, 0) | Daily \<Rightarrow> (0, 0, -1, -1, -1) | Hourly \<Rightarrow> (0, -1, -1, -1, -1))"

text \<open>\<open>TimeDelta::from_std\<close> refuses more than \<open>i64::MAX\<close> milliseconds.\<close>

definition next_occurrence :: "calendar \<Rightarrow> cron_schedule \<Rightarrow> int \<Rightarrow> int option panics" where
  "next_occurrence cal s now = (case cs_kind s of
     Every secs \<Rightarrow>
       if secs > (2 ^ 63 - 1) div 1000 then Some None
       else if now + int secs * 1000000000 > cl_max cal then None
       else Some (Some (now + int secs * 1000000000))
   | Preset p \<Rightarrow>
       (case preset_fields p of (minute, hour, day, month, weekday) \<Rightarrow>
          find_next_match cal now minute hour day month weekday)
   | Standard mn hr md mo wd \<Rightarrow> find_next_match_multi cal now [0] mn hr md mo wd
   | WithSeconds se mn hr md mo wd \<Rightarrow> find_next_match_multi cal now se mn hr md mo wd)"

section \<open>The manager\<close>

text \<open>The task handles of the entries are never set, so aborting them does nothing. The loop reads the
  due names under one lock and marks each under another: the names still to be marked are part of
  the state.\<close>

record cron_entry =
  cre_name :: string
  cre_schedule :: cron_schedule
  cre_job :: job
  cre_enabled :: bool
  cre_last_run :: "int option"

record cron_manager =
  cm_entries :: "(string, cron_entry) hmap"
  cm_running :: bool
  cm_now :: int
  cm_due :: "string list"

definition cron_manager_new :: cron_manager where
  "cron_manager_new = \<lparr>cm_entries = [], cm_running = False, cm_now = 0, cm_due = []\<rparr>"

definition cron_add_job :: "string \<Rightarrow> cron_schedule \<Rightarrow> job \<Rightarrow> cron_manager \<Rightarrow> unit ls_result \<times> cron_manager" where
  "cron_add_job name schedule j m =
     (if hm_has name (cm_entries m)
      then (Inl (InvalidArgument (''cron job '' @ quoted name @ '' already exists'')), m)
      else (Inr (), m\<lparr>cm_entries := hm_insert name \<lparr>cre_name = name, cre_schedule = schedule, cre_job = j,
              cre_enabled = True, cre_last_run = None\<rparr> (cm_entries m)\<rparr>))"

definition cron_remove_job :: "string \<Rightarrow> cron_manager \<Rightarrow> unit ls_result \<times> cron_manager" where
  "cron_remove_job name m =
     (if hm_has name (cm_entries m) then (Inr (), m\<lparr>cm_entries := hm_remove name (cm_entries m)\<rparr>)
      else (Inl (NotFound (''cron job '' @ quoted name)), m))"

definition cron_start :: "cron_manager \<Rightarrow> unit ls_result \<times> cron_manager" where
  "cron_start m = (if cm_running m then (Inl (RuntimeState ''cron manager already running''), m)
     else (Inr (), m\<lparr>cm_running := True\<rparr>))"

definition cron_shutdown :: "cron_manager \<Rightarrow> cron_manager" where
  "cron_shutdown m = m\<lparr>cm_running := False, cm_due := []\<rparr>"

text \<open>An entry that never ran asks for the next occurrence after the clock at that moment.\<close>

definition entry_next :: "calendar \<Rightarrow> int \<Rightarrow> cron_entry \<Rightarrow> int option panics" where
  "entry_next cal clock e = next_occurrence cal (cre_schedule e)
     (case cre_last_run e of None \<Rightarrow> clock | Some t \<Rightarrow> t)"

definition cron_due :: "calendar \<Rightarrow> int \<Rightarrow> (string \<Rightarrow> int) \<Rightarrow> cron_manager \<Rightarrow> string list panics" where
  "cron_due cal now clock m =
     (let enabled = filter (\<lambda>(_, e). cre_enabled e) (cm_entries m)
      in if list_ex (\<lambda>(name, e). entry_next cal (clock name) e = None) enabled then None
         else Some (map fst (filter (\<lambda>(name, e). case entry_next cal (clock name) e of
                Some (Some n) \<Rightarrow> n \<le> now | _ \<Rightarrow> False) enabled)))"

definition cron_tick :: "int \<Rightarrow> string list \<Rightarrow> cron_manager \<Rightarrow> cron_manager" where
  "cron_tick now names m = m\<lparr>cm_now := now, cm_due := names\<rparr>"

definition cron_mark :: "string \<Rightarrow> cron_manager \<Rightarrow> cron_manager" where
  "cron_mark name m = m\<lparr>cm_entries := hm_modify name (\<lambda>e. e\<lparr>cre_last_run := Some (cm_now m)\<rparr>) (cm_entries m)\<rparr>"

record cron_job_summary =
  cjs_name :: string
  cjs_expression :: string
  cjs_enabled :: bool
  cjs_last_run :: "int option"

definition cron_list_jobs :: "cron_manager \<Rightarrow> cron_job_summary list" where
  "cron_list_jobs m = map (\<lambda>e. \<lparr>cjs_name = cre_name e, cjs_expression = cs_expression (cre_schedule e),
     cjs_enabled = cre_enabled e, cjs_last_run = cre_last_run e\<rparr>) (hm_values (cm_entries m))"

section \<open>Facts\<close>

lemma search_find:
  "c + int n * step \<le> cl_max cal \<Longrightarrow> 0 \<le> step \<Longrightarrow>
    search cal n step P c = Some (find (\<lambda>t. P (cl_civil cal t)) (map (\<lambda>k. c + int k * step) [1..<Suc n]))"
proof (induction n arbitrary: c)
  case 0
  then show ?case by simp
next
  case (Suc n)
  have list: "map (\<lambda>k. c + int k * step) [1..<Suc (Suc n)] = (c + step) # map (\<lambda>k. c + step + int k * step) [1..<Suc n]"
    unfolding map_Suc_upt [symmetric] upt_conv_Cons [OF zero_less_Suc]
    by (simp add: algebra_simps upt_conv_Cons flip: map_Suc_upt del: upt_Suc)
  have "0 \<le> int n * step" using Suc.prems(2) by simp
  moreover have "int (Suc n) * step = step + int n * step" by (simp add: algebra_simps)
  ultimately have "c + step \<le> cl_max cal" "c + step + int n * step \<le> cl_max cal"
    using Suc.prems(1) by linarith+
  with Suc.IH [of "c + step"] Suc.prems(2) show ?case unfolding list by (simp add: Let_def)
qed

text \<open>What a search returns lies at least one step ahead.\<close>

lemma search_later: "search cal n step P c = Some (Some t) \<Longrightarrow> 0 < step \<Longrightarrow> c + step \<le> t"
proof (induction n arbitrary: c)
  case (Suc n)
  show ?case
  proof (cases "P (cl_civil cal (c + step))")
    case True
    with Suc.prems show ?thesis by (simp add: Let_def split: if_splits)
  next
    case False
    with Suc.prems have "search cal n step P (c + step) = Some (Some t)" by (simp add: Let_def split: if_splits)
    from Suc.IH [OF this Suc.prems(2)] Suc.prems(2) show ?thesis by simp
  qed
qed simp

lemma next_later:
  assumes "next_occurrence cal s now = Some (Some t)" "cs_kind s \<noteq> Every 0"
  shows "now < t"
proof (cases "cs_kind s")
  case (Preset p)
  with assms(1) obtain P where "search cal (365 * 2 * 24 * 60) 60000000000 P now = Some (Some t)"
    by (cases "preset_fields p") (auto simp: next_occurrence_def find_next_match_def)
  from search_later [OF this] show ?thesis by simp
qed (use assms in \<open>auto simp: next_occurrence_def find_next_match_multi_def dest!: search_later split: if_splits\<close>)

end
