(* ===== verification/Cron_Props.thy ===== *)
theory Cron_Props
  imports Cron
begin

text \<open>
  What cron expressions mean and what the cron manager does with them.
\<close>

section \<open>The search\<close>

lemma search_exact:
  assumes "c + int n * step \<le> cl_max cal" "0 \<le> step"
  shows "(search cal n step P c = Some (Some t) \<longleftrightarrow>
      (\<exists>k. 1 \<le> k \<and> k \<le> n \<and> t = c + int k * step \<and> P (cl_civil cal t)
        \<and> (\<forall>j. 1 \<le> j \<and> j < k \<longrightarrow> \<not> P (cl_civil cal (c + int j * step)))))
    \<and> (search cal n step P c = Some None \<longleftrightarrow> (\<forall>k. 1 \<le> k \<and> k \<le> n \<longrightarrow> \<not> P (cl_civil cal (c + int k * step))))"
proof -
  let ?ts = "map (\<lambda>k. c + int k * step) [1..<Suc n]"
  have nth: "?ts ! i = c + int (Suc i) * step" if "i < n" for i
    using that by (simp add: nth_map [of i "[1..<Suc n]"] del: upt_Suc map_map)
  have len: "length ?ts = n" by simp
  have some: "(find (\<lambda>t. P (cl_civil cal t)) ?ts = Some t) \<longleftrightarrow>
      (\<exists>i<n. P (cl_civil cal t) \<and> t = c + int (Suc i) * step \<and> (\<forall>j<i. \<not> P (cl_civil cal (c + int (Suc j) * step))))"
    unfolding find_Some_iff len
  proof (rule ex_cong1, rule conj_cong [OF refl])
    fix i
    assume i: "i < n"
    have "(\<forall>j<i. \<not> P (cl_civil cal (?ts ! j))) \<longleftrightarrow> (\<forall>j<i. \<not> P (cl_civil cal (c + int (Suc j) * step)))"
    proof (rule all_cong)
      fix j
      assume "j < i"
      then have "j < n" using i by simp
      then show "(\<not> P (cl_civil cal (?ts ! j))) = (\<not> P (cl_civil cal (c + int (Suc j) * step)))" by (simp only: nth)
    qed
    then show "(P (cl_civil cal (?ts ! i)) \<and> t = ?ts ! i \<and> (\<forall>j<i. \<not> P (cl_civil cal (?ts ! j)))) \<longleftrightarrow>
        (P (cl_civil cal t) \<and> t = c + int (Suc i) * step \<and> (\<forall>j<i. \<not> P (cl_civil cal (c + int (Suc j) * step))))"
      unfolding nth [OF i] by auto
  qed
  have none: "(find (\<lambda>t. P (cl_civil cal t)) ?ts = None) \<longleftrightarrow> (\<forall>k. 1 \<le> k \<and> k \<le> n \<longrightarrow> \<not> P (cl_civil cal (c + int k * step)))"
    unfolding find_None_iff by (auto simp: less_Suc_eq_le)
  have shift: "(\<exists>i<n. Q (Suc i) \<and> (\<forall>j<i. \<not> R (Suc j))) \<longleftrightarrow> (\<exists>k. 1 \<le> k \<and> k \<le> n \<and> Q k \<and> (\<forall>j. 1 \<le> j \<and> j < k \<longrightarrow> \<not> R j))"
    for Q R :: "nat \<Rightarrow> bool"
  proof
    assume "\<exists>i<n. Q (Suc i) \<and> (\<forall>j<i. \<not> R (Suc j))"
    then obtain i where i: "i < n" "Q (Suc i)" "\<forall>j<i. \<not> R (Suc j)" by blast
    have "\<not> R j" if "1 \<le> j \<and> j < Suc i" for j using that i(3) by (cases j) auto
    with i(1,2) show "\<exists>k. 1 \<le> k \<and> k \<le> n \<and> Q k \<and> (\<forall>j. 1 \<le> j \<and> j < k \<longrightarrow> \<not> R j)"
      by (intro exI [of _ "Suc i"]) auto
  next
    assume "\<exists>k. 1 \<le> k \<and> k \<le> n \<and> Q k \<and> (\<forall>j. 1 \<le> j \<and> j < k \<longrightarrow> \<not> R j)"
    then obtain k where k: "1 \<le> k" "k \<le> n" "Q k" "\<forall>j. 1 \<le> j \<and> j < k \<longrightarrow> \<not> R j" by blast
    then obtain i where i: "k = Suc i" by (cases k) auto
    have "\<not> R (Suc j)" if "j < i" for j using that k(4) i by simp
    with k(2,3) show "\<exists>i<n. Q (Suc i) \<and> (\<forall>j<i. \<not> R (Suc j))" by (intro exI [of _ i]) (auto simp: i)
  qed
  show ?thesis
    unfolding search_find [OF assms] option.inject some none
    using shift [of "\<lambda>k. P (cl_civil cal t) \<and> t = c + int k * step" "\<lambda>k. P (cl_civil cal (c + int k * step))"]
    by (auto simp: conj_ac simp del: of_nat_Suc)
qed

text \<open>The next occurrence of an expression with seconds (and of one without, which has second 0) is the
  first of the points one, two, three and more seconds ahead, up to two years, whose date and time
  the fields match, and there is none exactly if no such point matches; a repetition in fixed
  intervals occurs one interval ahead.\<close>

theorem next_occurrence_exact:
  assumes "cs_kind s = WithSeconds se mn hr md mo wd \<or> cs_kind s = Standard mn hr md mo wd \<and> se = [0]"
    and "now + int (365 * 2 * 24 * 3600) * 1000000000 \<le> cl_max cal"
  shows "(next_occurrence cal s now = Some (Some t) \<longleftrightarrow>
      (\<exists>k. 1 \<le> k \<and> k \<le> 365 * 2 * 24 * 3600 \<and> t = now + int k * 1000000000
        \<and> matches_multi se mn hr md mo wd (cl_civil cal t)
        \<and> (\<forall>j. 1 \<le> j \<and> j < k \<longrightarrow> \<not> matches_multi se mn hr md mo wd (cl_civil cal (now + int j * 1000000000)))))
    \<and> (next_occurrence cal s now = Some None \<longleftrightarrow>
      (\<forall>k. 1 \<le> k \<and> k \<le> 365 * 2 * 24 * 3600 \<longrightarrow> \<not> matches_multi se mn hr md mo wd (cl_civil cal (now + int k * 1000000000))))
    \<and> (now + int n * 1000000000 \<le> cl_max cal \<and> n \<le> 1000000000 \<longrightarrow>
        next_occurrence cal (s\<lparr>cs_kind := Every n\<rparr>) now = Some (Some (now + int n * 1000000000)))"
proof -
  have "next_occurrence cal s now = search cal (365 * 2 * 24 * 3600) 1000000000 (matches_multi se mn hr md mo wd) now"
    using assms(1) by (auto simp: next_occurrence_def find_next_match_multi_def)
  with search_exact [OF assms(2), of "matches_multi se mn hr md mo wd" t] show ?thesis
    by (simp add: next_occurrence_def)
qed

definition flat_calendar :: calendar where
  "flat_calendar = \<lparr>cl_civil = (\<lambda>t. \<lparr>cv_second = nat (t div 1000000000 mod 60), cv_minute = 0, cv_hour = 0,
     cv_day = 1, cv_month = 1, cv_weekday = 0\<rparr>), cl_max = 10 ^ 18\<rparr>"

theorem next_occurrence_exact_witness:
  "next_occurrence flat_calendar \<lparr>cs_expression = '''', cs_kind = WithSeconds [2] [0] [0] [1] [1] [0]\<rparr> 0 = Some (Some 2000000000)"
proof -
  let ?s = "\<lparr>cs_expression = '''', cs_kind = WithSeconds [2] [0] [0] [1] [1] [0]\<rparr>"
  have h: "cs_kind ?s = WithSeconds [2] [0] [0] [1] [1] [0] \<or> cs_kind ?s = Standard [0] [0] [1] [1] [0] \<and> [2::nat] = [0]"
    "0 + int (365 * 2 * 24 * 3600) * 1000000000 \<le> cl_max flat_calendar"
    by (simp_all add: flat_calendar_def)
  have "\<not> matches_multi [2] [0] [0] [1] [1] [0] (cl_civil flat_calendar (0 + int j * 1000000000))" if "1 \<le> j \<and> j < 2" for j
  proof -
    have "j = 1" using that by linarith
    then show ?thesis by (simp add: flat_calendar_def matches_multi_def)
  qed
  moreover have "matches_multi [2] [0] [0] [1] [1] [0] (cl_civil flat_calendar 2000000000)"
    by (simp add: flat_calendar_def matches_multi_def)
  ultimately show ?thesis
    unfolding next_occurrence_exact [OF h, THEN conjunct1]
    by - (rule exI [of _ 2], intro conjI allI impI, simp, simp, simp, assumption, blast)
qed

section \<open>Fields\<close>

lemma field_no_space:
  assumes "\<And>c. c \<in> set f \<Longrightarrow> digit_value c \<noteq> None \<or> c \<in> {CHR ''*'', CHR ''/'', CHR ''-''}"
  shows "trim f = f" "CHR '','' \<notin> set f"
proof -
  show "trim f = f"
  proof (rule trim_no_space)
    fix c
    assume "c \<in> set f"
    with assms have "digit_value c \<noteq> None \<or> c \<in> {CHR ''*'', CHR ''/'', CHR ''-''}" by blast
    then show "\<not> is_space c" by (auto simp: is_space_def digit_value_def)
  qed
  show "CHR '','' \<notin> set f" using assms [of "CHR '',''"] by (auto simp: digit_value_def)
qed

lemma parse_field_plain:
  assumes "\<And>c. c \<in> set f \<Longrightarrow> digit_value c \<noteq> None \<or> c \<in> {CHR ''*'', CHR ''/'', CHR ''-''}" "f \<noteq> ''*''"
  shows "parse_field f lo hi = parse_plain f lo hi"
  using field_no_space [OF assms(1)] assms(2) by (simp add: parse_field_def split_on_absent)

lemma show_nat_digit: "c \<in> set (show_nat n) \<Longrightarrow> digit_value c \<noteq> None"
  using show_nat_digits [of c n] by auto

lemma star_not_digits: "show_nat v \<noteq> ''*''"
  using show_nat_digit [of "CHR ''*''" v] by (auto simp: digit_value_def)

lemma show_nat_plain [simp]:
  "split_once (CHR ''/'') (show_nat v) = None" "split_once (CHR ''-'') (show_nat v) = None"
  by (auto intro!: split_once_absent show_nat_not simp: digit_value_def)

lemma split_range:
  "split_once (CHR ''/'') (show_nat a @ CHR ''-'' # show_nat b) = None"
  "split_once (CHR ''-'') (show_nat a @ CHR ''-'' # show_nat b) = Some (show_nat a, show_nat b)"
  using show_nat_not [of "CHR ''/''"] show_nat_not [of "CHR ''-''"]
  by (auto intro!: split_once_absent split_once_append simp: digit_value_def)

text \<open>A number within the bounds of a field is read as itself and one outside is refused; a star gives
  all values; \<open>a-b\<close> the values between, in whichever order they are given; a star with step \<open>k\<close>
  every \<open>k\<close>-th value; and step 0 panics instead of being refused.\<close>

theorem parse_field_forms:
  assumes "v \<le> 255" "a \<le> 255" "b \<le> 255" "k \<le> 255"
  shows "parse_field (show_nat v) lo hi = Some (if lo \<le> v \<and> v \<le> hi then Inr [v]
        else Inl (InvalidArgument (''value '' @ show_nat v @ '' out of range ['' @ show_nat lo @ '', '' @ show_nat hi @ '']'')))
    \<and> parse_field ''*'' lo hi = Some (Inr [lo..<Suc hi])
    \<and> parse_field (show_nat a @ ''-'' @ show_nat b) lo hi = Some (Inr [min a b..<Suc (max a b)])
    \<and> parse_field (''*/'' @ show_nat k) lo hi =
        (if k = 0 then None else Some (Inr (filter (\<lambda>x. (x - lo) mod k = 0) [lo..<Suc hi])))"
proof (intro conjI)
  have "parse_field (show_nat v) lo hi = parse_plain (show_nat v) lo hi"
    by (rule parse_field_plain) (use show_nat_digit star_not_digits in auto)
  then show "parse_field (show_nat v) lo hi = Some (if lo \<le> v \<and> v \<le> hi then Inr [v]
      else Inl (InvalidArgument (''value '' @ show_nat v @ '' out of range ['' @ show_nat lo @ '', '' @ show_nat hi @ '']'')))"
    using assms(1) by (simp add: parse_plain_def parse_u8_show)
  show "parse_field ''*'' lo hi = Some (Inr [lo..<Suc hi])"
    by (simp add: parse_field_def trim_def is_space_def)
  have "parse_field (show_nat a @ ''-'' @ show_nat b) lo hi = parse_plain (show_nat a @ ''-'' @ show_nat b) lo hi"
    by (rule parse_field_plain) (use show_nat_digit in \<open>auto simp: append_eq_Cons_conv\<close>)
  then show "parse_field (show_nat a @ ''-'' @ show_nat b) lo hi = Some (Inr [min a b..<Suc (max a b)])"
    using assms(2,3) by (simp add: parse_plain_def parse_u8_show split_range)
  have "parse_field (''*/'' @ show_nat k) lo hi = parse_plain (''*/'' @ show_nat k) lo hi"
    by (rule parse_field_plain) (use show_nat_digit in auto)
  then show "parse_field (''*/'' @ show_nat k) lo hi =
      (if k = 0 then None else Some (Inr (filter (\<lambda>x. (x - lo) mod k = 0) [lo..<Suc hi])))"
    using assms(4) by (simp add: parse_plain_def parse_u8_show step_list_def)
qed

theorem parse_field_forms_witness: "parse_field (show_nat 7) 0 59 = Some (Inr [7])"
  using parse_field_forms [of 7 0 0 0 0 59] by simp

text \<open>With a star for the day of the week, every day matches: the day of the month has no effect.\<close>

lemma day_of_month_ignored:
  "cv_weekday c \<le> 6 \<Longrightarrow> matches_multi se mn hr days mo [0..<Suc 6] c \<longleftrightarrow> matches_multi se mn hr [] mo [0..<Suc 6] c"
  by (auto simp: matches_multi_def Let_def)

section \<open>The manager\<close>

text \<open>The steps of a manager: its operations, the reading of the due names, and one mark. The clock that
  an entry reads when it never ran is not earlier than the one the loop read before.\<close>

inductive cron_step :: "calendar \<Rightarrow> cron_manager \<Rightarrow> cron_manager \<Rightarrow> bool" for cal where
  cp_add: "cs_kind s \<noteq> Every 0 \<Longrightarrow> cron_add_job name s j m = (r, m') \<Longrightarrow> cron_step cal m m'"
| cp_remove: "cron_remove_job name m = (r, m') \<Longrightarrow> cron_step cal m m'"
| cp_start: "cron_start m = (r, m') \<Longrightarrow> cron_step cal m m'"
| cp_shutdown: "cron_step cal m (cron_shutdown m)"
| cp_read: "cm_due m = [] \<Longrightarrow> \<forall>name. now \<le> clock name \<Longrightarrow> cron_due cal now clock m = Some names \<Longrightarrow>
    cron_step cal m (cron_tick now names m)"
| cp_mark: "cm_due m = name # names \<Longrightarrow> cron_step cal m ((cron_mark name m)\<lparr>cm_due := names\<rparr>)"

definition cron_init :: "cron_manager \<Rightarrow> bool" where
  "cron_init m \<longleftrightarrow> m = cron_manager_new"

definition cron_inv :: "cron_manager \<Rightarrow> bool" where
  "cron_inv m \<longleftrightarrow> cm_due m = [] \<and>
     (\<forall>(name, e) \<in> set (cm_entries m). cre_last_run e = None \<and> cs_kind (cre_schedule e) \<noteq> Every 0)"

lemma never_due:
  assumes "cron_inv m" "\<forall>name. now \<le> clock name" "cron_due cal now clock m = Some names"
  shows "names = []"
proof -
  have "n > now" if e: "(name, e) \<in> set (cm_entries m)" and n: "entry_next cal (clock name) e = Some (Some n)" for name e n
  proof -
    have "cre_last_run e = None" "cs_kind (cre_schedule e) \<noteq> Every 0" using assms(1) e by (auto simp: cron_inv_def)
    with n have "clock name < n" by (auto simp: entry_next_def dest: next_later)
    moreover have "now \<le> clock name" using assms(2) by blast
    ultimately show ?thesis by simp
  qed
  then have late: "\<not> (case entry_next cal (clock name) e of Some (Some n) \<Rightarrow> n \<le> now | _ \<Rightarrow> False)"
    if "(name, e) \<in> set (cm_entries m)" for name e
    using that by (cases "entry_next cal (clock name) e"; cases "the (entry_next cal (clock name) e)") force+
  have "filter (\<lambda>(name, e). case entry_next cal (clock name) e of Some (Some n) \<Rightarrow> n \<le> now | _ \<Rightarrow> False)
      (filter (\<lambda>(_, e). cre_enabled e) (cm_entries m)) = []"
    unfolding filter_empty_conv using late by auto
  with assms(3) show ?thesis by (simp add: cron_due_def Let_def split: if_splits)
qed

lemma set_update: "set (hm_insert k v m) \<subseteq> insert (k, v) (set m)"
  by (induction m) auto

lemma set_delete: "set (hm_remove k m) \<subseteq> set m"
  by (induction m) auto

interpretation cron_machine: machine cron_init "cron_step cal" cron_inv for cal
proof
  show "cron_init m \<Longrightarrow> cron_inv m" for m by (simp add: cron_init_def cron_inv_def cron_manager_new_def)
  show "cron_inv m'" if inv: "cron_inv m" and "cron_step cal m m'" for m m'
    using that(2)
  proof cases
    case (cp_add s name j r)
    with inv set_update show ?thesis
      by (fastforce simp: cron_inv_def cron_add_job_def split: if_splits)
  next
    case (cp_remove name r)
    with inv set_delete show ?thesis
      by (fastforce simp: cron_inv_def cron_remove_job_def split: if_splits)
  next
    case (cp_read now clock names)
    with inv never_due [OF inv] show ?thesis by (auto simp: cron_inv_def cron_tick_def)
  qed (use inv in \<open>auto simp: cron_inv_def cron_start_def cron_shutdown_def split: if_splits\<close>)
qed

text \<open>C23: a job whose interval is not zero is never triggered: an entry that never ran is compared with the
  occurrence after the current time, which is never reached. In every reachable manager no entry
  has run and none is due.\<close>

theorem cron_never_triggers:
  assumes "reaches cron_init (cron_step cal) m" "\<forall>name. now \<le> clock name" "cron_due cal now clock m = Some names"
  shows "names = [] \<and> (\<forall>e \<in> set (cron_list_jobs m). cjs_last_run e = None)"
proof -
  have inv: "cron_inv m" by (rule cron_machine.reaches_inv [OF assms(1)])
  with never_due [OF inv assms(2,3)] show ?thesis by (auto simp: cron_inv_def cron_list_jobs_def)
qed

definition every_second :: cron_schedule where
  "every_second = \<lparr>cs_expression = ''@every 1s'', cs_kind = Every 1\<rparr>"

theorem cron_never_triggers_witness:
  "\<exists>m. map cjs_name (cron_list_jobs m) = [''a''] \<and> cron_due flat_calendar 5 (\<lambda>_. 5) m = Some []"
proof -
  let ?m = "snd (cron_add_job ''a'' every_second (sample_job 7 1) cron_manager_new)"
  have 0: "reaches cron_init (cron_step flat_calendar) cron_manager_new"
    by (rule reaches_init) (simp add: cron_init_def)
  have "cron_step flat_calendar cron_manager_new ?m"
    by (rule cp_add [of every_second]) (auto simp: every_second_def prod_eq_iff)
  then have 1: "reaches cron_init (cron_step flat_calendar) ?m" by (rule reaches_step [OF 0])
  obtain names where names: "cron_due flat_calendar 5 (\<lambda>_. 5) ?m = Some names"
    by (simp add: cron_due_def cron_add_job_def cron_manager_new_def entry_next_def next_occurrence_def every_second_def
        flat_calendar_def)
  with cron_never_triggers [OF 1 _ names] show ?thesis
    by (intro exI [of _ ?m]) (simp add: cron_list_jobs_def cron_add_job_def cron_manager_new_def)
qed

end
