(* ===== verification/Tools.thy ===== *)
theory Tools
  imports Std_Text
begin

text \<open>
  Tools: their registry, permissions and sandbox (crate \<open>tool\<close>, with the types of
  \<open>traits/src/tool.rs\<close>).

  A tool, a trait object, is its information with the results of its validation and of its
  execution, where no result means that the time limit elapsed first. The length of a JSON text,
  the time an execution took, fresh identifiers and the clock are arguments.
\<close>

section \<open>Types\<close>

datatype permission_level = PublicLevel | UserLevel | AdminLevel | SuperAdminLevel

datatype tool_category = General | FileSystem | Network | Shell | CodeAnalysis | Retrieval | AI | System
  | Communication | Custom string

fun category_str :: "tool_category \<Rightarrow> string" where
  "category_str General = ''general''"
| "category_str FileSystem = ''filesystem''"
| "category_str Network = ''network''"
| "category_str Shell = ''shell''"
| "category_str CodeAnalysis = ''code_analysis''"
| "category_str Retrieval = ''retrieval''"
| "category_str AI = ''ai''"
| "category_str System = ''system''"
| "category_str Communication = ''communication''"
| "category_str (Custom s) = s"

record tool_param =
  tp_name :: string
  tp_description :: string
  tp_required :: bool
  tp_param_type :: string

record sandbox_config =
  sb_max_execution_ms :: nat
  sb_max_output_bytes :: nat
  sb_network_isolated :: bool
  sb_fs_isolated :: bool
  sb_max_memory_mb :: "nat option"
  sb_special_permissions :: "string list"

definition sandbox_config_default :: sandbox_config where
  "sandbox_config_default = \<lparr>sb_max_execution_ms = 30000, sb_max_output_bytes = 1000000, sb_network_isolated = False,
     sb_fs_isolated = False, sb_max_memory_mb = None, sb_special_permissions = []\<rparr>"

record tool_metadata =
  tmd_category :: tool_category
  tmd_tags :: "string list"
  tmd_permission_level :: permission_level
  tmd_timeout_ms :: "nat option"
  tmd_sandbox_config :: "sandbox_config option"
  tmd_version :: string
  tmd_author :: string

definition tool_metadata_default :: tool_metadata where
  "tool_metadata_default = \<lparr>tmd_category = General, tmd_tags = [], tmd_permission_level = PublicLevel,
     tmd_timeout_ms = None, tmd_sandbox_config = None, tmd_version = ''1.0.0'', tmd_author = ''lingshu''\<rparr>"

record tool_info =
  ti_tool_id :: ls_id
  ti_name :: string
  ti_description :: string
  ti_parameters :: "tool_param list"
  ti_metadata :: tool_metadata

definition tool_info_new :: "ls_id \<Rightarrow> string \<Rightarrow> string \<Rightarrow> tool_param list \<Rightarrow> tool_info" where
  "tool_info_new fresh name description parameters = \<lparr>ti_tool_id = fresh, ti_name = name,
     ti_description = description, ti_parameters = parameters, ti_metadata = tool_metadata_default\<rparr>"

record tool =
  tl_info :: tool_info
  tl_validate :: "json \<Rightarrow> unit ls_result"
  tl_execute :: "ls_context \<Rightarrow> json \<Rightarrow> json ls_result option"

record tool_call_record =
  tcr_tool_id :: ls_id
  tcr_call_id :: ls_id
  tcr_session_id :: ls_id
  tcr_input :: json
  tcr_output :: json
  tcr_duration_ms :: nat
  tcr_success :: bool
  tcr_timestamp :: int
  tcr_caller :: "string option"
  tcr_error :: "string option"

section \<open>Permissions\<close>

datatype caller_role = Anonymous | User | Admin | SuperAdmin

fun role_rank :: "caller_role \<Rightarrow> nat" where
  "role_rank Anonymous = 0"
| "role_rank User = 1"
| "role_rank Admin = 2"
| "role_rank SuperAdmin = 3"

instantiation caller_role :: linorder
begin

definition less_eq_caller_role :: "caller_role \<Rightarrow> caller_role \<Rightarrow> bool" where
  "less_eq_caller_role r s \<longleftrightarrow> role_rank r \<le> role_rank s"

definition less_caller_role :: "caller_role \<Rightarrow> caller_role \<Rightarrow> bool" where
  "less_caller_role r s \<longleftrightarrow> role_rank r < role_rank s"

instance
proof
  fix r s :: caller_role
  show "r \<le> s \<Longrightarrow> s \<le> r \<Longrightarrow> r = s"
    by (cases r; cases s) (simp_all add: less_eq_caller_role_def)
qed (auto simp: less_eq_caller_role_def less_caller_role_def)

end

fun level_rank :: "permission_level \<Rightarrow> nat" where
  "level_rank SuperAdminLevel = 3"
| "level_rank AdminLevel = 2"
| "level_rank UserLevel = 1"
| "level_rank PublicLevel = 0"

fun role_str :: "caller_role \<Rightarrow> string" where
  "role_str Anonymous = ''anonymous''"
| "role_str User = ''user''"
| "role_str Admin = ''admin''"
| "role_str SuperAdmin = ''super_admin''"

fun level_str :: "permission_level \<Rightarrow> string" where
  "level_str PublicLevel = ''public''"
| "level_str UserLevel = ''user''"
| "level_str AdminLevel = ''admin''"
| "level_str SuperAdminLevel = ''super_admin''"

record caller_info =
  ca_role :: caller_role
  ca_user_id :: "string option"

type_synonym tool_permission = "(string, permission_level) hmap"

definition set_override :: "string \<Rightarrow> permission_level \<Rightarrow> tool_permission \<Rightarrow> tool_permission" where
  "set_override tool_name level p = hm_insert tool_name level p"

definition set_overrides :: "(string \<times> permission_level) list \<Rightarrow> tool_permission \<Rightarrow> tool_permission" where
  "set_overrides overrides p = fold (\<lambda>(name, level). set_override name level) overrides p"

definition effective_level :: "string \<Rightarrow> permission_level \<Rightarrow> tool_permission \<Rightarrow> permission_level" where
  "effective_level tool_name tool_level p = (case hm_get p tool_name of None \<Rightarrow> tool_level | Some l \<Rightarrow> l)"

text \<open>The texts are Chinese: tool, needs, permission, the role of the caller is.\<close>

definition zh_tool :: string where
  "zh_tool = utf8 [229, 183, 165, 229, 133, 183, 32]"

definition denied_text :: "string \<Rightarrow> permission_level \<Rightarrow> caller_role \<Rightarrow> string" where
  "denied_text tool_name level role = zh_tool @ quoted tool_name @ '' '' @ utf8 [233, 156, 128, 232, 166, 129] @ '' ''
     @ level_str level @ utf8 [32, 230, 157, 131, 233, 153, 144, 239, 188, 140, 229, 189, 147, 229, 137, 141, 232, 176,
       131, 231, 148, 168, 232, 128, 133, 232, 167, 146, 232, 137, 178, 228, 184, 186, 32] @ role_str role"

definition permission_check :: "string \<Rightarrow> permission_level \<Rightarrow> caller_info \<Rightarrow> tool_permission \<Rightarrow> unit ls_result" where
  "permission_check tool_name tool_level caller p =
     (let effective = (case hm_get p tool_name of None \<Rightarrow> tool_level | Some l \<Rightarrow> l)
      in if role_rank (ca_role caller) \<ge> level_rank effective then Inr ()
         else Inl (PermissionDenied (denied_text tool_name effective (ca_role caller))))"

section \<open>The sandbox\<close>

record tool_sandbox =
  ts_default_timeout_ms :: nat
  ts_max_output_bytes :: nat
  ts_strict_mode :: bool

definition tool_sandbox_new :: tool_sandbox where
  "tool_sandbox_new = \<lparr>ts_default_timeout_ms = 30000, ts_max_output_bytes = 10000000, ts_strict_mode = False\<rparr>"

definition timeout_for :: "tool_metadata \<Rightarrow> tool_sandbox \<Rightarrow> nat" where
  "timeout_for md sb = (case tmd_timeout_ms md of Some t \<Rightarrow> t
     | None \<Rightarrow> (case tmd_sandbox_config md of Some c \<Rightarrow> sb_max_execution_ms c | None \<Rightarrow> ts_default_timeout_ms sb))"

definition sandbox_execute ::
  "(json \<Rightarrow> nat option) \<Rightarrow> nat \<Rightarrow> tool \<Rightarrow> ls_context \<Rightarrow> json \<Rightarrow> tool_sandbox \<Rightarrow> (json \<times> nat) ls_result" where
  "sandbox_execute json_len duration t ctx input sb =
     (let md = ti_metadata (tl_info t); name = ti_name (tl_info t); timeout_ms = timeout_for md sb
      in if ts_strict_mode sb \<and> tmd_sandbox_config md = None
         then Inl (Plugin (zh_tool @ quoted name @ '' '' @ utf8 [231, 188, 186, 229, 176, 145, 230, 178, 153, 231, 174,
                177, 233, 133, 141, 231, 189, 174, 239, 188, 140, 228, 184, 165, 230, 160, 188, 230, 168, 161, 229, 188,
                143, 228, 184, 139, 230, 139, 146, 231, 187, 157, 230, 137, 167, 232, 161, 140]))
         else (case (case tl_validate t input of Inl e \<Rightarrow> Some (Inl e) | Inr _ \<Rightarrow> tl_execute t ctx input) of
            Some (Inr output) \<Rightarrow>
              (let output_size = (case json_len output of None \<Rightarrow> 0 | Some n \<Rightarrow> n)
               in if output_size > ts_max_output_bytes sb
                  then Inl (Plugin (zh_tool @ quoted name @ utf8 [32, 232, 190, 147, 229, 135, 186, 32] @ show_nat output_size
                         @ utf8 [32, 229, 173, 151, 232, 138, 130, 239, 188, 140, 232, 182, 133, 232, 191, 135, 233, 153,
                           144, 229, 136, 182, 32] @ show_nat (ts_max_output_bytes sb) @ utf8 [32, 229, 173, 151, 232, 138, 130]))
                  else Inr (output, duration))
          | Some (Inl e) \<Rightarrow> Inl e
          | None \<Rightarrow> Inl (Plugin (zh_tool @ quoted name @ utf8 [32, 230, 137, 167, 232, 161, 140, 232, 182, 133, 230, 151,
                182, 32, 40] @ show_nat timeout_ms @ ''ms)''))))"

section \<open>The registry\<close>

record tool_registry =
  tr_tools :: "(string, tool) hmap"
  tr_tag_index :: "(string, string list) hmap"
  tr_category_index :: "(string, string list) hmap"
  tr_history :: "tool_call_record list"
  tr_permission :: tool_permission
  tr_sandbox :: tool_sandbox

definition tool_registry_new :: tool_registry where
  "tool_registry_new = \<lparr>tr_tools = [], tr_tag_index = [], tr_category_index = [], tr_history = [],
     tr_permission = [], tr_sandbox = tool_sandbox_new\<rparr>"

text \<open>\<open>entry(k).or_default().push(v)\<close>, and the retaining of an index without a name.\<close>

definition index_push :: "string \<Rightarrow> string \<Rightarrow> (string, string list) hmap \<Rightarrow> (string, string list) hmap" where
  "index_push k v idx = hm_insert k ((case hm_get idx k of None \<Rightarrow> [] | Some vs \<Rightarrow> vs) @ [v]) idx"

definition index_drop :: "string \<Rightarrow> (string, string list) hmap \<Rightarrow> (string, string list) hmap" where
  "index_drop name idx = hm_retain (\<lambda>_ names. names \<noteq> []) (hm_map_values (\<lambda>_ names. filter (\<lambda>n. n \<noteq> name) names) idx)"

definition tool_register :: "tool \<Rightarrow> tool_registry \<Rightarrow> tool_registry" where
  "tool_register t r =
     (let info = tl_info t; name = ti_name info; tags = tmd_tags (ti_metadata info);
          r1 = r\<lparr>tr_tools := hm_insert name t (tr_tools r)\<rparr>;
          r2 = (if tags \<noteq> [] then r1\<lparr>tr_tag_index := fold (\<lambda>tag. index_push tag name) tags (tr_tag_index r1)\<rparr> else r1)
      in r2\<lparr>tr_category_index := index_push (category_str (tmd_category (ti_metadata info))) name (tr_category_index r2)\<rparr>)"

definition tool_register_all :: "tool list \<Rightarrow> tool_registry \<Rightarrow> tool_registry" where
  "tool_register_all tools r = fold tool_register tools r"

definition tool_unregister :: "string \<Rightarrow> tool_registry \<Rightarrow> bool \<times> tool_registry" where
  "tool_unregister name r =
     (if hm_has name (tr_tools r)
      then (True, r\<lparr>tr_tools := hm_remove name (tr_tools r), tr_tag_index := index_drop name (tr_tag_index r),
              tr_category_index := index_drop name (tr_category_index r)\<rparr>)
      else (False, r))"

definition tool_get :: "string \<Rightarrow> tool_registry \<Rightarrow> tool_info option" where
  "tool_get name r = map_option tl_info (hm_get (tr_tools r) name)"

definition index_get :: "string \<Rightarrow> (string, string list) hmap \<Rightarrow> string list" where
  "index_get k idx = (case hm_get idx k of None \<Rightarrow> [] | Some names \<Rightarrow> names)"

definition list_by_category :: "string \<Rightarrow> tool_registry \<Rightarrow> string list" where
  "list_by_category category r = index_get category (tr_category_index r)"

definition list_by_tag :: "string \<Rightarrow> tool_registry \<Rightarrow> string list" where
  "list_by_tag tag r = index_get tag (tr_tag_index r)"

record tool_filter =
  tf_category :: "string option"
  tf_tags :: "string list option"
  tf_name_search :: "string option"
  tf_min_permission :: "string option"
  tf_only_enabled :: bool

definition tool_filter_default :: tool_filter where
  "tool_filter_default = \<lparr>tf_category = None, tf_tags = None, tf_name_search = None, tf_min_permission = None,
     tf_only_enabled = True\<rparr>"

definition filter_matches :: "tool_filter \<Rightarrow> string \<Rightarrow> tool_info \<Rightarrow> bool" where
  "filter_matches f name info \<longleftrightarrow>
     (case tf_category f of None \<Rightarrow> True | Some cat \<Rightarrow> category_str (tmd_category (ti_metadata info)) = cat)
     \<and> (case tf_tags f of None \<Rightarrow> True | Some tags \<Rightarrow> list_ex (\<lambda>t. t \<in> set (tmd_tags (ti_metadata info))) tags)
     \<and> (case tf_name_search f of None \<Rightarrow> True | Some search \<Rightarrow> contains_str (to_lower name) (to_lower search))"

definition tool_find :: "tool_filter \<Rightarrow> tool_registry \<Rightarrow> tool_info list" where
  "tool_find f r = map (\<lambda>(_, t). tl_info t) (filter (\<lambda>(name, t). filter_matches f name (tl_info t)) (tr_tools r))"

text \<open>An execution looks the tool up twice; \<open>r1\<close> is the registry when the permission is checked, \<open>r2\<close> when
  the tool runs, and other operations may come between them.\<close>

definition not_found :: "string \<Rightarrow> ls_error" where
  "not_found name = NotFound (''tool not found: '' @ name)"

definition execute_between ::
  "(json \<Rightarrow> nat option) \<Rightarrow> nat \<Rightarrow> ls_id \<Rightarrow> int \<Rightarrow> ls_context \<Rightarrow> string \<Rightarrow> json \<Rightarrow> caller_info option \<Rightarrow>
   tool_registry \<Rightarrow> tool_registry \<Rightarrow> json ls_result \<times> tool_registry" where
  "execute_between json_len duration fresh now ctx name args caller r1 r2 =
     (case tool_get name r1 of
        None \<Rightarrow> (Inl (not_found name), r2)
      | Some info \<Rightarrow>
     (case (case caller of None \<Rightarrow> Inr ()
            | Some c \<Rightarrow> permission_check name (tmd_permission_level (ti_metadata info)) c (tr_permission r1)) of
        Inl e \<Rightarrow> (Inl e, r2)
      | Inr _ \<Rightarrow>
     (case hm_get (tr_tools r2) name of
        None \<Rightarrow> (Inl (not_found name), r2)
      | Some t \<Rightarrow>
     (case sandbox_execute json_len duration t ctx args (tr_sandbox r2) of
        Inl e \<Rightarrow> (Inl e, r2)
      | Inr (output, duration_ms) \<Rightarrow>
          (Inr output, r2\<lparr>tr_history := tr_history r2 @
             [\<lparr>tcr_tool_id = ti_tool_id info, tcr_call_id = fresh, tcr_session_id = ctx_session ctx, tcr_input = args,
               tcr_output = output, tcr_duration_ms = duration_ms, tcr_success = True, tcr_timestamp = now,
               tcr_caller = (case caller of None \<Rightarrow> None | Some c \<Rightarrow> ca_user_id c), tcr_error = None\<rparr>]\<rparr>)))))"

definition tool_execute ::
  "(json \<Rightarrow> nat option) \<Rightarrow> nat \<Rightarrow> ls_id \<Rightarrow> int \<Rightarrow> ls_context \<Rightarrow> string \<Rightarrow> json \<Rightarrow> caller_info option \<Rightarrow>
   tool_registry \<Rightarrow> json ls_result \<times> tool_registry" where
  "tool_execute json_len duration fresh now ctx name args caller r =
     execute_between json_len duration fresh now ctx name args caller r r"

definition tool_definition :: "tool_info \<Rightarrow> json" where
  "tool_definition info = Object
     [(''type'', Str ''function''),
      (''function'', Object
        [(''name'', Str (ti_name info)), (''description'', Str (ti_description info)),
         (''parameters'', Object
           [(''type'', Str ''object''),
            (''properties'', Object (fold (\<lambda>p. hm_insert (tp_name p)
                (Object [(''type'', Str (tp_param_type p)), (''description'', Str (tp_description p))])) (ti_parameters info) [])),
            (''required'', Array (map (\<lambda>p. Str (tp_name p)) (filter tp_required (ti_parameters info))))])])]"

definition get_tool_definitions :: "tool_registry \<Rightarrow> json list" where
  "get_tool_definitions r = map (\<lambda>t. tool_definition (tl_info t)) (hm_values (tr_tools r))"

definition recent_history :: "nat \<Rightarrow> tool_registry \<Rightarrow> tool_call_record list" where
  "recent_history n r = drop (length (tr_history r) - n) (tr_history r)"

record tool_execution_result =
  ter_call_id :: string
  ter_tool_name :: string
  ter_success :: bool
  ter_output :: json
  ter_duration_ms :: nat
  ter_error :: "string option"
  ter_timestamp :: int

definition execution_result :: "tool_call_record \<Rightarrow> tool_execution_result" where
  "execution_result c = \<lparr>ter_call_id = show_id (tcr_call_id c), ter_tool_name = show_id (tcr_tool_id c),
     ter_success = tcr_success c, ter_output = tcr_output c, ter_duration_ms = tcr_duration_ms c,
     ter_error = tcr_error c, ter_timestamp = tcr_timestamp c\<rparr>"

record tool_stats =
  tst_total_count :: nat
  tst_by_category :: "(string, nat) hmap"
  tst_total_calls :: nat
  tst_recent_calls :: "tool_execution_result list"

definition count_category :: "tool \<Rightarrow> (string, nat) hmap \<Rightarrow> (string, nat) hmap" where
  "count_category t m = (let cat = category_str (tmd_category (ti_metadata (tl_info t)))
     in hm_insert cat ((case hm_get m cat of None \<Rightarrow> 0 | Some n \<Rightarrow> n) + 1) m)"

definition tool_stats_of :: "tool_registry \<Rightarrow> tool_stats" where
  "tool_stats_of r = \<lparr>tst_total_count = length (tr_tools r), tst_by_category = fold count_category (hm_values (tr_tools r)) [],
     tst_total_calls = length (tr_history r), tst_recent_calls = map execution_result (take 10 (rev (tr_history r)))\<rparr>"

end
