(* ===== verification/Tool_Props.thy ===== *)
theory Tool_Props
  imports Tools
begin

text \<open>
  What the tool registry guarantees: its indexes under any sequence of operations, and when a
  tool is executed.
\<close>

section \<open>The indexes\<close>

lemma index_get_push [simp]:
  "index_get k (index_push k' v idx) = (if k = k' then index_get k idx @ [v] else index_get k idx)"
  by (simp add: index_get_def index_push_def)

lemma index_get_drop [simp]: "hm_ok idx \<Longrightarrow> index_get k (index_drop n idx) = filter (\<lambda>m. m \<noteq> n) (index_get k idx)"
  by (auto simp: index_get_def index_drop_def hm_get_retain split: option.split)

lemma index_ok_push [simp]: "hm_ok idx \<Longrightarrow> hm_ok (index_push k v idx)"
  by (simp add: index_push_def)

lemma index_ok_drop [simp]: "hm_ok idx \<Longrightarrow> hm_ok (index_drop n idx)"
  by (simp add: index_drop_def)

lemma index_fold_push:
  "index_get k (fold (\<lambda>tag. index_push tag v) tags idx) = index_get k idx @ replicate (count_list tags k) v"
  by (induction tags arbitrary: idx) (auto simp: replicate_append_same)

lemma index_ok_fold [simp]: "hm_ok idx \<Longrightarrow> hm_ok (fold (\<lambda>tag. index_push tag v) tags idx)"
  by (induction tags arbitrary: idx) auto

lemma set_replicate_count: "x \<in> set (replicate (count_list xs k) v) \<longleftrightarrow> x = v \<and> k \<in> set xs"
  by (auto simp: set_replicate_conv_if count_list_0_iff)

abbreviation tool_tags :: "tool \<Rightarrow> string list" where
  "tool_tags t \<equiv> tmd_tags (ti_metadata (tl_info t))"

abbreviation tool_cat :: "tool \<Rightarrow> string" where
  "tool_cat t \<equiv> category_str (tmd_category (ti_metadata (tl_info t)))"

lemma register_fields:
  "tr_tools (tool_register t r) = hm_insert (ti_name (tl_info t)) t (tr_tools r)"
  "list_by_tag k (tool_register t r) = list_by_tag k r @ replicate (count_list (tool_tags t) k) (ti_name (tl_info t))"
  "list_by_category k (tool_register t r) =
    (if k = tool_cat t then list_by_category k r @ [ti_name (tl_info t)] else list_by_category k r)"
  by (auto simp: tool_register_def list_by_tag_def list_by_category_def index_fold_push Let_def)

text \<open>The operations of the registry; an execution may have looked its tool up in an earlier state.\<close>

inductive tool_step :: "tool_registry \<Rightarrow> tool_registry \<Rightarrow> bool" where
  tl_register: "tool_step r (tool_register t r)"
| tl_unregister: "tool_unregister name r = (b, r') \<Longrightarrow> tool_step r r'"
| tl_override: "tool_step r (r\<lparr>tr_permission := set_override name level (tr_permission r)\<rparr>)"
| tl_executed: "execute_between json_len duration fresh now ctx name args caller r0 r = (res, r') \<Longrightarrow> tool_step r r'"

definition tool_init :: "tool_registry \<Rightarrow> bool" where
  "tool_init r \<longleftrightarrow> (\<exists>sb. r = tool_registry_new\<lparr>tr_sandbox := sb\<rparr>)"

definition indexed :: "(string, tool) hmap \<Rightarrow> (tool \<Rightarrow> string set) \<Rightarrow> (string, string list) hmap \<Rightarrow> bool" where
  "indexed tools keys idx \<longleftrightarrow> hm_ok idx
     \<and> (\<forall>n t. hm_get tools n = Some t \<longrightarrow> (\<forall>k \<in> keys t. n \<in> set (index_get k idx)))
     \<and> (\<forall>k. set (index_get k idx) \<subseteq> hm_dom tools)"

definition tool_inv :: "tool_registry \<Rightarrow> bool" where
  "tool_inv r \<longleftrightarrow> (\<forall>n t. hm_get (tr_tools r) n = Some t \<longrightarrow> ti_name (tl_info t) = n)
     \<and> indexed (tr_tools r) (\<lambda>t. set (tool_tags t)) (tr_tag_index r)
     \<and> indexed (tr_tools r) (\<lambda>t. {tool_cat t}) (tr_category_index r)"

lemma indexed_remove:
  "indexed tools keys idx \<Longrightarrow> indexed (hm_remove n tools) keys (index_drop n idx)"
  by (auto simp: indexed_def split: if_splits)

lemma indexed_insert:
  assumes "indexed tools keys idx" "hm_ok idx'"
    and "\<And>k. set (index_get k idx') = set (index_get k idx) \<union> (if k \<in> keys t then {n} else {})"
  shows "indexed (hm_insert n t tools) keys idx'"
  using assms by (auto simp: indexed_def split: if_splits)

lemma tool_inv_register: "tool_inv r \<Longrightarrow> tool_inv (tool_register t r)"
proof -
  assume inv: "tool_inv r"
  let ?n = "ti_name (tl_info t)"
  have tags: "tr_tag_index (tool_register t r) = fold (\<lambda>tag. index_push tag ?n) (tool_tags t) (tr_tag_index r)"
    and cats: "tr_category_index (tool_register t r) = index_push (tool_cat t) ?n (tr_category_index r)"
    by (auto simp: tool_register_def Let_def)
  have "indexed (tr_tools (tool_register t r)) (\<lambda>t. set (tool_tags t)) (tr_tag_index (tool_register t r))"
    unfolding tags register_fields(1) using inv
    by (intro indexed_insert [where idx = "tr_tag_index r"])
      (auto simp: tool_inv_def indexed_def index_fold_push count_list_0_iff)
  moreover have "indexed (tr_tools (tool_register t r)) (\<lambda>t. {tool_cat t}) (tr_category_index (tool_register t r))"
    unfolding cats register_fields(1) using inv
    by (intro indexed_insert [where idx = "tr_category_index r"]) (auto simp: tool_inv_def indexed_def)
  ultimately show ?thesis using inv by (auto simp: tool_inv_def register_fields)
qed

lemma execute_keeps:
  assumes "execute_between json_len duration fresh now ctx name args caller r0 r = (res, r')"
  shows "\<exists>h. r' = r\<lparr>tr_history := h\<rparr>"
proof -
  have same: "r = r\<lparr>tr_history := tr_history r\<rparr>" by simp
  show ?thesis
    using assms same
    by (auto simp: execute_between_def split: option.splits sum.splits intro: exI [of _ "tr_history r"])
qed

interpretation tool_machine: machine tool_init tool_step tool_inv
proof
  show "tool_init r \<Longrightarrow> tool_inv r" for r
    by (auto simp: tool_init_def tool_registry_new_def tool_inv_def indexed_def index_get_def)
  show "tool_inv r'" if inv: "tool_inv r" and "tool_step r r'" for r r'
    using that(2)
  proof cases
    case (tl_register t)
    with inv tool_inv_register show ?thesis by simp
  next
    case (tl_unregister name b)
    with inv show ?thesis
      by (auto simp: tool_unregister_def tool_inv_def intro!: indexed_remove split: if_splits)
  next
    case (tl_executed json_len duration fresh now ctx name args caller r0 res)
    then obtain h where "r' = r\<lparr>tr_history := h\<rparr>" using execute_keeps by blast
    with inv show ?thesis by (simp add: tool_inv_def)
  qed (use inv in \<open>simp add: tool_inv_def\<close>)
qed


definition sample_tool :: "permission_level \<Rightarrow> string list \<Rightarrow> tool" where
  "sample_tool level tags =
     \<lparr>tl_info = (tool_info_new 3 ''ls'' ''lists files'' [])
         \<lparr>ti_metadata := tool_metadata_default\<lparr>tmd_tags := tags, tmd_permission_level := level\<rparr>\<rparr>,
      tl_validate = (\<lambda>_. Inr ()), tl_execute = (\<lambda>_ input. Some (Inr input))\<rparr>"


text \<open>A tool that is registered again under its name keeps its old entries: it is listed under a tag that it
  does not have any more.\<close>

lemma reregistered_keeps_tags:
  "''ls'' \<in> set (list_by_tag ''fs'' (tool_register (sample_tool UserLevel [])
      (tool_register (sample_tool UserLevel [''fs'']) tool_registry_new)))"
  by (simp add: register_fields) (simp add: sample_tool_def tool_info_new_def)

section \<open>Execution\<close>

lemma permission_check_iff:
  "permission_check name level c p = Inr () \<longleftrightarrow> level_rank (effective_level name level p) \<le> role_rank (ca_role c)"
  by (simp add: permission_check_def effective_level_def Let_def split: option.split)

lemma sandbox_execute_iff:
  "sandbox_execute json_len duration t ctx input sb = Inr (out, d) \<longleftrightarrow>
    (ts_strict_mode sb \<longrightarrow> tmd_sandbox_config (ti_metadata (tl_info t)) \<noteq> None)
    \<and> tl_validate t input = Inr () \<and> tl_execute t ctx input = Some (Inr out)
    \<and> (\<forall>n. json_len out = Some n \<longrightarrow> n \<le> ts_max_output_bytes sb) \<and> d = duration"
  by (auto simp: sandbox_execute_def Let_def split: sum.splits option.splits)

text \<open>C22: an execution succeeds exactly if the tool is registered, the caller (if one is given) has at least the
  level the tool or its override requires, strict mode finds a sandbox configuration, the input
  is valid, and the tool returns in time an output that is not too long; then it adds one
  record with that output to the history. An execution that fails changes nothing.\<close>

theorem tool_execute_exact:
  shows "(fst (tool_execute json_len duration fresh now ctx name args caller r) = Inr out \<longleftrightarrow>
      (\<exists>t. hm_get (tr_tools r) name = Some t
        \<and> (\<forall>c. caller = Some c \<longrightarrow>
            level_rank (effective_level name (tmd_permission_level (ti_metadata (tl_info t))) (tr_permission r)) \<le> role_rank (ca_role c))
        \<and> (ts_strict_mode (tr_sandbox r) \<longrightarrow> tmd_sandbox_config (ti_metadata (tl_info t)) \<noteq> None)
        \<and> tl_validate t args = Inr () \<and> tl_execute t ctx args = Some (Inr out)
        \<and> (\<forall>n. json_len out = Some n \<longrightarrow> n \<le> ts_max_output_bytes (tr_sandbox r))))
    \<and> (fst (tool_execute json_len duration fresh now ctx name args caller r) = Inr out \<longrightarrow>
        (\<exists>e. snd (tool_execute json_len duration fresh now ctx name args caller r) = r\<lparr>tr_history := tr_history r @ [e]\<rparr>
          \<and> tcr_output e = out \<and> tcr_input e = args \<and> tcr_success e))
    \<and> (fst (tool_execute json_len duration fresh now ctx name args caller r) = Inl e' \<longrightarrow>
        snd (tool_execute json_len duration fresh now ctx name args caller r) = r)"
proof (cases "hm_get (tr_tools r) name")
  case None
  then show ?thesis by (simp add: tool_execute_def execute_between_def tool_get_def)
next
  case (Some t)
  let ?check = "case caller of None \<Rightarrow> Inr () | Some c \<Rightarrow> permission_check name (tmd_permission_level (ti_metadata (tl_info t))) c (tr_permission r)"
  have check: "?check = Inr () \<longleftrightarrow> (\<forall>c. caller = Some c \<longrightarrow>
      level_rank (effective_level name (tmd_permission_level (ti_metadata (tl_info t))) (tr_permission r)) \<le> role_rank (ca_role c))"
    by (cases caller) (simp_all add: permission_check_iff)
  show ?thesis
  proof (cases ?check)
    case (Inl e)
    with check Some show ?thesis by (auto simp: tool_execute_def execute_between_def tool_get_def)
  next
    case (Inr u)
    then have ok: "?check = Inr ()" by simp
    show ?thesis
    proof (cases "sandbox_execute json_len duration t ctx args (tr_sandbox r)")
      case (Inl e)
      then have "sandbox_execute json_len duration t ctx args (tr_sandbox r) \<noteq> Inr (out, duration)" by simp
      with Inl Some ok show ?thesis
        unfolding sandbox_execute_iff by (auto simp: tool_execute_def execute_between_def tool_get_def)
    next
      case (Inr od)
      obtain o' d where od: "od = (o', d)" by (cases od)
      have run: "sandbox_execute json_len duration t ctx args (tr_sandbox r) = Inr (o', d)" using Inr od by simp
      have "fst (tool_execute json_len duration fresh now ctx name args caller r) = Inr o'"
        using run Some ok by (simp add: tool_execute_def execute_between_def tool_get_def)
      moreover have "\<exists>e. snd (tool_execute json_len duration fresh now ctx name args caller r) = r\<lparr>tr_history := tr_history r @ [e]\<rparr>
          \<and> tcr_output e = o' \<and> tcr_input e = args \<and> tcr_success e"
        using run Some ok
        by (simp add: tool_execute_def execute_between_def tool_get_def) (rule exI, rule conjI, rule refl, simp)
      ultimately show ?thesis
        using run [unfolded sandbox_execute_iff] Some check ok by auto
    qed
  qed
qed

theorem tool_execute_exact_witness:
  "fst (tool_execute (\<lambda>_. Some 4) 1 9 0 (ctx_new 0 1 2) ''ls'' Null (Some \<lparr>ca_role = User, ca_user_id = None\<rparr>)
      (tool_register (sample_tool UserLevel []) tool_registry_new)) = Inr Null"
proof -
  let ?r = "tool_register (sample_tool UserLevel []) tool_registry_new"
  have t: "hm_get (tr_tools ?r) ''ls'' = Some (sample_tool UserLevel [])"
    by (simp add: register_fields tool_registry_new_def) (simp add: sample_tool_def tool_info_new_def)
  have p: "tr_permission ?r = []" "tr_sandbox ?r = tool_sandbox_new"
    by (simp_all add: tool_register_def Let_def tool_registry_new_def)
  show ?thesis
    unfolding tool_execute_exact [THEN conjunct1]
    by (rule exI [of _ "sample_tool UserLevel []"])
      (simp add: t p effective_level_def, simp add: sample_tool_def tool_sandbox_new_def)
qed

text \<open>The permission is checked before the tool is looked up again: a tool that is replaced in between by one
  for super administrators runs for an anonymous caller.\<close>

lemma permission_checked_on_old_tool:
  "fst (execute_between (\<lambda>_. Some 4) 1 9 0 (ctx_new 0 1 2) ''ls'' Null (Some \<lparr>ca_role = Anonymous, ca_user_id = None\<rparr>)
      (tool_register (sample_tool PublicLevel []) tool_registry_new)
      (tool_register (sample_tool SuperAdminLevel []) tool_registry_new)) = Inr Null"
  by (simp add: execute_between_def tool_get_def tool_register_def tool_registry_new_def sample_tool_def tool_info_new_def
      permission_check_def sandbox_execute_def tool_sandbox_new_def Let_def)

end
