(* ===== verification/Orch_Registry.thy ===== *)
theory Orch_Registry
  imports Agents
begin

text \<open>
  The agent registry of the orchestrator (crate \<open>orchestrator\<close>, \<open>registry.rs\<close>) with its index from
  capabilities to agents. A hash set is the list of its elements in the order of its iteration.
  Each operation holds its locks from its first access to its last.
\<close>

section \<open>State and operations\<close>

record agent_capability =
  acp_name :: string
  acp_version :: string
  acp_description :: "string option"

record agent_info =
  ag_agent_id :: ls_id
  ag_name :: string
  ag_version :: string
  ag_capabilities :: "agent_capability list"
  ag_status :: agent_status
  ag_created_at :: int
  ag_last_heartbeat :: int
  ag_tags :: "(string, string) hmap"

record agent_registry =
  ar_agents :: "(ls_id, agent_info) hmap"
  ar_capability_index :: "(string, ls_id list) hmap"

definition agent_registry_new :: agent_registry where
  "agent_registry_new = \<lparr>ar_agents = [], ar_capability_index = []\<rparr>"

definition agent_missing :: "ls_id \<Rightarrow> ls_error" where
  "agent_missing i = NotFound (''agent '' @ show_id i)"

definition set_insert :: "ls_id \<Rightarrow> ls_id list \<Rightarrow> ls_id list" where
  "set_insert i ids = (if i \<in> set ids then ids else ids @ [i])"

definition cap_add :: "ls_id \<Rightarrow> agent_capability \<Rightarrow> (string, ls_id list) hmap \<Rightarrow> (string, ls_id list) hmap" where
  "cap_add i cap idx =
     hm_insert (acp_name cap) (set_insert i (case hm_get idx (acp_name cap) of None \<Rightarrow> [] | Some ids \<Rightarrow> ids)) idx"

definition cap_remove :: "ls_id \<Rightarrow> agent_capability \<Rightarrow> (string, ls_id list) hmap \<Rightarrow> (string, ls_id list) hmap" where
  "cap_remove i cap idx = (case hm_get idx (acp_name cap) of
     None \<Rightarrow> idx
   | Some ids \<Rightarrow>
       let ids' = filter (\<lambda>j. j \<noteq> i) ids
       in if ids' = [] then hm_remove (acp_name cap) idx else hm_insert (acp_name cap) ids' idx)"

definition ar_register :: "agent_info \<Rightarrow> agent_registry \<Rightarrow> unit ls_result \<times> agent_registry" where
  "ar_register info r =
     (if hm_has (ag_agent_id info) (ar_agents r)
      then (Inl (AlreadyExists (''agent '' @ show_id (ag_agent_id info))), r)
      else (Inr (), \<lparr>ar_agents = hm_insert (ag_agent_id info) info (ar_agents r),
              ar_capability_index = fold (cap_add (ag_agent_id info)) (ag_capabilities info) (ar_capability_index r)\<rparr>))"

definition ar_unregister :: "ls_id \<Rightarrow> agent_registry \<Rightarrow> agent_info ls_result \<times> agent_registry" where
  "ar_unregister i r = (case hm_get (ar_agents r) i of
     None \<Rightarrow> (Inl (agent_missing i), r)
   | Some info \<Rightarrow> (Inr info, \<lparr>ar_agents = hm_remove i (ar_agents r),
       ar_capability_index = fold (cap_remove i) (ag_capabilities info) (ar_capability_index r)\<rparr>))"

definition ar_get :: "ls_id \<Rightarrow> agent_registry \<Rightarrow> agent_info ls_result" where
  "ar_get i r = ok_or (agent_missing i) (hm_get (ar_agents r) i)"

definition find_by_capability :: "string \<Rightarrow> agent_registry \<Rightarrow> agent_info list" where
  "find_by_capability cap r = (case hm_get (ar_capability_index r) cap of
     None \<Rightarrow> [] | Some ids \<Rightarrow> List.map_filter (hm_get (ar_agents r)) ids)"

definition find_by_tag :: "string \<Rightarrow> string \<Rightarrow> agent_registry \<Rightarrow> agent_info list" where
  "find_by_tag key val r = filter (\<lambda>a. hm_get (ag_tags a) key = Some val) (hm_values (ar_agents r))"

definition ar_list :: "agent_registry \<Rightarrow> agent_info list" where
  "ar_list r = hm_values (ar_agents r)"

definition list_by_status :: "agent_status \<Rightarrow> agent_registry \<Rightarrow> agent_info list" where
  "list_by_status st r = filter (\<lambda>a. ag_status a = st) (hm_values (ar_agents r))"

text \<open>The operations that change one entry.\<close>

definition change_agent :: "ls_id \<Rightarrow> (agent_info \<Rightarrow> agent_info) \<Rightarrow> agent_registry \<Rightarrow> unit ls_result \<times> agent_registry" where
  "change_agent i f r = (if hm_has i (ar_agents r) then (Inr (), r\<lparr>ar_agents := hm_modify i f (ar_agents r)\<rparr>)
     else (Inl (agent_missing i), r))"

definition update_status :: "int \<Rightarrow> ls_id \<Rightarrow> agent_status \<Rightarrow> agent_registry \<Rightarrow> unit ls_result \<times> agent_registry" where
  "update_status now i st = change_agent i (\<lambda>a. a\<lparr>ag_status := st, ag_last_heartbeat := now\<rparr>)"

definition update_tags :: "ls_id \<Rightarrow> (string, string) hmap \<Rightarrow> agent_registry \<Rightarrow> unit ls_result \<times> agent_registry" where
  "update_tags i tags = change_agent i (\<lambda>a. a\<lparr>ag_tags := tags\<rparr>)"

definition add_tag :: "ls_id \<Rightarrow> string \<Rightarrow> string \<Rightarrow> agent_registry \<Rightarrow> unit ls_result \<times> agent_registry" where
  "add_tag i key val = change_agent i (\<lambda>a. a\<lparr>ag_tags := hm_insert key val (ag_tags a)\<rparr>)"

definition agent_heartbeat :: "int \<Rightarrow> ls_id \<Rightarrow> agent_registry \<Rightarrow> unit ls_result \<times> agent_registry" where
  "agent_heartbeat now i = change_agent i (\<lambda>a. a\<lparr>ag_last_heartbeat := now\<rparr>)"

definition ar_count :: "agent_registry \<Rightarrow> nat" where
  "ar_count r = length (ar_agents r)"

definition ar_capabilities :: "agent_registry \<Rightarrow> string list" where
  "ar_capabilities r = hm_keys (ar_capability_index r)"

section \<open>The index is exact\<close>

definition has_cap :: "string \<Rightarrow> agent_info \<Rightarrow> bool" where
  "has_cap c a \<longleftrightarrow> c \<in> acp_name ` set (ag_capabilities a)"

definition cap_ids :: "(string, ls_id list) hmap \<Rightarrow> string \<Rightarrow> ls_id list" where
  "cap_ids idx c = (case hm_get idx c of None \<Rightarrow> [] | Some ids \<Rightarrow> ids)"

text \<open>The lists of an index are sets, and no set is empty.\<close>

definition index_wf :: "(string, ls_id list) hmap \<Rightarrow> bool" where
  "index_wf idx \<longleftrightarrow> hm_ok idx \<and> (\<forall>c ids. hm_get idx c = Some ids \<longrightarrow> ids \<noteq> [] \<and> distinct ids)"

lemma cap_ids_add [simp]: "set (cap_ids (cap_add i cap idx) c) = set (cap_ids idx c) \<union> (if c = acp_name cap then {i} else {})"
  by (auto simp: cap_ids_def cap_add_def set_insert_def split: option.splits)

lemma cap_ids_remove [simp]: "set (cap_ids (cap_remove i cap idx) c) = set (cap_ids idx c) - (if c = acp_name cap then {i} else {})"
  by (auto simp: cap_ids_def cap_remove_def Let_def filter_empty_conv split: option.splits if_splits)

lemma cap_ids_add_all:
  "set (cap_ids (fold (cap_add i) caps idx) c) = set (cap_ids idx c) \<union> (if c \<in> acp_name ` set caps then {i} else {})"
  by (induction caps arbitrary: idx) auto

lemma cap_ids_remove_all:
  "set (cap_ids (fold (cap_remove i) caps idx) c) = set (cap_ids idx c) - (if c \<in> acp_name ` set caps then {i} else {})"
  by (induction caps arbitrary: idx) auto

lemma index_wf_add: "index_wf idx \<Longrightarrow> index_wf (cap_add i cap idx)"
  by (auto simp: index_wf_def cap_add_def set_insert_def split: option.splits if_splits)

lemma index_wf_remove: "index_wf idx \<Longrightarrow> index_wf (cap_remove i cap idx)"
  by (auto simp: index_wf_def cap_remove_def Let_def split: option.splits if_splits)

lemma index_wf_add_all: "index_wf idx \<Longrightarrow> index_wf (fold (cap_add i) caps idx)"
  by (induction caps arbitrary: idx) (auto intro: index_wf_add)

lemma index_wf_remove_all: "index_wf idx \<Longrightarrow> index_wf (fold (cap_remove i) caps idx)"
  by (induction caps arbitrary: idx) (auto intro: index_wf_remove)

definition registry_inv :: "agent_registry \<Rightarrow> bool" where
  "registry_inv r \<longleftrightarrow> hm_ok (ar_agents r) \<and> index_wf (ar_capability_index r)
     \<and> (\<forall>i a. hm_get (ar_agents r) i = Some a \<longrightarrow> ag_agent_id a = i)
     \<and> (\<forall>c i. i \<in> set (cap_ids (ar_capability_index r) c) \<longleftrightarrow> (\<exists>a. hm_get (ar_agents r) i = Some a \<and> has_cap c a))"

inductive registry_step :: "agent_registry \<Rightarrow> agent_registry \<Rightarrow> bool" where
  rg_register: "ar_register info r = (res, r') \<Longrightarrow> registry_step r r'"
| rg_unregister: "ar_unregister i r = (res, r') \<Longrightarrow> registry_step r r'"
| rg_status: "update_status now i st r = (res, r') \<Longrightarrow> registry_step r r'"
| rg_tags: "update_tags i tags r = (res, r') \<Longrightarrow> registry_step r r'"
| rg_tag: "add_tag i key val r = (res, r') \<Longrightarrow> registry_step r r'"
| rg_heartbeat: "agent_heartbeat now i r = (res, r') \<Longrightarrow> registry_step r r'"

definition registry_init :: "agent_registry \<Rightarrow> bool" where
  "registry_init r \<longleftrightarrow> r = agent_registry_new"

lemma agents_inv_change:
  assumes "registry_inv r" "change_agent i f r = (res, r')"
    and "\<And>a. ag_agent_id (f a) = ag_agent_id a" "\<And>a. ag_capabilities (f a) = ag_capabilities a"
  shows "registry_inv r'"
proof -
  have "has_cap c (f a) = has_cap c a" for c a by (simp add: has_cap_def assms(4))
  then show ?thesis
    using assms(1-3) by (auto simp: change_agent_def registry_inv_def split: if_splits)
qed

lemma agents_inv_register: "registry_inv r \<Longrightarrow> ar_register info r = (res, r') \<Longrightarrow> registry_inv r'"
  by (auto simp: ar_register_def registry_inv_def cap_ids_add_all has_cap_def hm_get_None intro: index_wf_add_all
      split: if_splits dest: hm_get_dom)

lemma agents_inv_unregister: "registry_inv r \<Longrightarrow> ar_unregister i r = (res, r') \<Longrightarrow> registry_inv r'"
  by (auto simp: ar_unregister_def registry_inv_def cap_ids_remove_all has_cap_def intro: index_wf_remove_all
      split: option.splits if_splits)

interpretation registry_machine: machine registry_init registry_step registry_inv
proof
  show "registry_init r \<Longrightarrow> registry_inv r" for r
    by (simp add: registry_init_def registry_inv_def agent_registry_new_def index_wf_def cap_ids_def)
  show "registry_inv r'" if inv: "registry_inv r" and "registry_step r r'" for r r'
    using that(2)
  proof cases
    case rg_register
    with inv show ?thesis by (auto intro: agents_inv_register)
  next
    case rg_unregister
    with inv show ?thesis by (auto intro: agents_inv_unregister)
  qed (use inv in \<open>auto simp: update_status_def update_tags_def add_tag_def agent_heartbeat_def intro: agents_inv_change\<close>)
qed

text \<open>What a lookup by capability returns in a registry with the invariant.\<close>

lemma find_by_capability_set:
  assumes "registry_inv r"
  shows "a \<in> set (find_by_capability cap r) \<longleftrightarrow> hm_get (ar_agents r) (ag_agent_id a) = Some a \<and> has_cap cap a"
proof -
  have "a \<in> set (find_by_capability cap r) \<longleftrightarrow> (\<exists>i \<in> set (cap_ids (ar_capability_index r) cap). hm_get (ar_agents r) i = Some a)"
    by (auto simp: find_by_capability_def cap_ids_def List.map_filter_def split: option.split) force
  with assms show ?thesis unfolding registry_inv_def by (metis option.inject)
qed

lemma ar_list_set:
  assumes "registry_inv r"
  shows "a \<in> set (ar_list r) \<longleftrightarrow> hm_get (ar_agents r) (ag_agent_id a) = Some a"
proof -
  have "a \<in> set (ar_list r) \<longleftrightarrow> (\<exists>i. (i, a) \<in> set (ar_agents r))" by (force simp: ar_list_def)
  also have "\<dots> \<longleftrightarrow> (\<exists>i. hm_get (ar_agents r) i = Some a)" using assms by (simp add: registry_inv_def hm_ok_mem)
  also have "\<dots> \<longleftrightarrow> hm_get (ar_agents r) (ag_agent_id a) = Some a" using assms unfolding registry_inv_def by metis
  finally show ?thesis .
qed

lemma find_by_capability_distinct: "registry_inv r \<Longrightarrow> distinct (map ag_agent_id (find_by_capability cap r))"
proof -
  assume inv: "registry_inv r"
  have "map ag_agent_id (List.map_filter (hm_get (ar_agents r)) ids) = filter (\<lambda>i. hm_get (ar_agents r) i \<noteq> None) ids" for ids
    using inv by (induction ids) (auto simp: List.map_filter_def registry_inv_def)
  with inv show ?thesis by (auto simp: find_by_capability_def registry_inv_def index_wf_def split: option.split)
qed

text \<open>After any sequence of operations a lookup by capability finds exactly the registered agents that
  declare it, each once; the capabilities that are listed are exactly those some registered agent
  declares; and an agent that was unregistered is found under none.\<close>

theorem capability_index_exact:
  assumes "reaches registry_init registry_step r"
  shows "(a \<in> set (find_by_capability c r) \<longleftrightarrow> hm_get (ar_agents r) (ag_agent_id a) = Some a \<and> has_cap c a)
    \<and> distinct (map ag_agent_id (find_by_capability c r))
    \<and> (c \<in> set (ar_capabilities r) \<longleftrightarrow> (\<exists>i a. hm_get (ar_agents r) i = Some a \<and> has_cap c a))
    \<and> (ar_unregister i r = (Inr info, r') \<longrightarrow> i \<notin> ag_agent_id ` set (find_by_capability c r'))"
proof -
  have inv: "registry_inv r" by (rule registry_machine.reaches_inv [OF assms])
  have "c \<in> set (ar_capabilities r) \<longleftrightarrow> (\<exists>i. i \<in> set (cap_ids (ar_capability_index r) c))"
  proof (cases "hm_get (ar_capability_index r) c")
    case None
    then have "cap_ids (ar_capability_index r) c = []" by (simp add: cap_ids_def)
    with None show ?thesis by (simp add: ar_capabilities_def hm_get_None hm_set_keys del: set_map)
  next
    case (Some ids)
    with inv have "ids \<noteq> []" by (auto simp: registry_inv_def index_wf_def)
    with Some hm_get_dom [OF Some] show ?thesis
      by (auto simp: ar_capabilities_def cap_ids_def hm_set_keys ex_in_conv simp del: set_map)
  qed
  then have caps: "c \<in> set (ar_capabilities r) \<longleftrightarrow> (\<exists>i a. hm_get (ar_agents r) i = Some a \<and> has_cap c a)"
    using inv by (simp add: registry_inv_def)
  have "i \<notin> ag_agent_id ` set (find_by_capability c r')" if un: "ar_unregister i r = (Inr info, r')"
    using find_by_capability_set [OF agents_inv_unregister [OF inv un]] un
    by (auto simp: ar_unregister_def split: option.splits)
  with caps find_by_capability_set [OF inv] find_by_capability_distinct [OF inv] show ?thesis by simp
qed

definition sample_agent :: "ls_id \<Rightarrow> string list \<Rightarrow> agent_info" where
  "sample_agent i caps = \<lparr>ag_agent_id = i, ag_name = ''a'', ag_version = ''1'',
     ag_capabilities = map (\<lambda>c. \<lparr>acp_name = c, acp_version = ''1'', acp_description = None\<rparr>) caps,
     ag_status = Idle, ag_created_at = 0, ag_last_heartbeat = 0, ag_tags = []\<rparr>"

lemma register_reaches:
  "reaches registry_init registry_step (snd (ar_register (sample_agent i caps) agent_registry_new))"
proof -
  have "reaches registry_init registry_step agent_registry_new" by (rule reaches_init) (simp add: registry_init_def)
  then show ?thesis by (rule reaches_step) (rule rg_register, rule surjective_pairing)
qed

theorem capability_index_exact_witness:
  "sample_agent 7 [''web''] \<in> set (find_by_capability ''web'' (snd (ar_register (sample_agent 7 [''web'']) agent_registry_new)))"
  using capability_index_exact [OF register_reaches, of "sample_agent 7 [''web'']" "''web''" 7 "[''web'']"]
  by (simp add: ar_register_def agent_registry_new_def sample_agent_def has_cap_def)

end
