(* ===== verification/Orchestrator.thy ===== *)
theory Orchestrator
  imports Orch_Registry
begin

text \<open>
  The scheduler, the message bus and the orchestrator (crate \<open>orchestrator\<close>, \<open>scheduler.rs\<close>,
  \<open>comm.rs\<close> and \<open>orchestrator.rs\<close>).

  Generated identifiers, the clock and measured times are arguments. A channel of \<open>mpsc\<close> is the
  list of its messages with a mark whether its receiver lives; a send that would have to wait
  for room has no result (\<open>None\<close>).
\<close>

section \<open>The scheduler\<close>

datatype schedule_strategy = Sequential | RoundRobin | LeastBusy | CapabilityFirst

text \<open>A score, a quotient of two lengths as \<open>f64\<close>, is the pair of them; such quotients compare like the
  fractions as long as the lists have fewer than \<open>2 ^ 26\<close> elements.\<close>

record task_assignment =
  ta_task_id :: string
  ta_agent_id :: ls_id
  ta_strategy :: schedule_strategy
  ta_score :: "(nat \<times> nat) option"

record agent_scheduler =
  as_strategy :: schedule_strategy
  as_counter :: "64 word"
  as_counts :: "(ls_id, nat) hmap"

definition agent_scheduler_new :: "schedule_strategy \<Rightarrow> agent_scheduler" where
  "agent_scheduler_new st = \<lparr>as_strategy = st, as_counter = 0, as_counts = []\<rparr>"

definition set_schedule :: "schedule_strategy \<Rightarrow> agent_scheduler \<Rightarrow> agent_scheduler" where
  "set_schedule st s = s\<lparr>as_strategy := st\<rparr>"

definition candidates :: "string option \<Rightarrow> agent_registry \<Rightarrow> agent_info list" where
  "candidates required r = filter (\<lambda>a. ag_status a = Idle)
     (case required of Some cap \<Rightarrow> find_by_capability cap r | None \<Rightarrow> ar_list r)"

definition round_robin :: "agent_info list \<Rightarrow> string \<Rightarrow> agent_scheduler \<Rightarrow> task_assignment \<times> agent_scheduler" where
  "round_robin cs task_id s =
     (let idx = unat (as_counter s) mod length cs
      in (\<lparr>ta_task_id = task_id, ta_agent_id = ag_agent_id (cs ! idx), ta_strategy = RoundRobin, ta_score = None\<rparr>,
          s\<lparr>as_counter := as_counter s + 1\<rparr>))"

definition task_count :: "agent_scheduler \<Rightarrow> ls_id \<Rightarrow> nat" where
  "task_count s i = (case hm_get (as_counts s) i of None \<Rightarrow> 0 | Some n \<Rightarrow> n)"

definition least_busy :: "agent_info list \<Rightarrow> string \<Rightarrow> agent_scheduler \<Rightarrow> task_assignment" where
  "least_busy cs task_id s =
     \<lparr>ta_task_id = task_id, ta_agent_id = ag_agent_id (first_min (\<lambda>a. task_count s (ag_agent_id a)) (hd cs) (tl cs)),
      ta_strategy = LeastBusy, ta_score = None\<rparr>"

definition match_score :: "string \<Rightarrow> agent_info \<Rightarrow> nat \<times> nat" where
  "match_score required a =
     (let total = length (ag_capabilities a)
      in if total > 0 then (length (filter (\<lambda>c. acp_name c = required) (ag_capabilities a)), total) else (0, 1))"

definition score_le :: "nat \<times> nat \<Rightarrow> nat \<times> nat \<Rightarrow> bool" where
  "score_le p q \<longleftrightarrow> fst p * snd q \<le> fst q * snd p"

definition capability_first :: "agent_info list \<Rightarrow> string \<Rightarrow> string option \<Rightarrow> task_assignment" where
  "capability_first cs task_id required =
     (let req = (case required of None \<Rightarrow> '''' | Some c \<Rightarrow> c);
          a = last_max (\<lambda>a b. score_le (match_score req a) (match_score req b)) (hd cs) (tl cs)
      in \<lparr>ta_task_id = task_id, ta_agent_id = ag_agent_id a, ta_strategy = CapabilityFirst,
          ta_score = Some (match_score req a)\<rparr>)"

definition select_agent ::
  "string \<Rightarrow> string option \<Rightarrow> agent_registry \<Rightarrow> agent_scheduler \<Rightarrow> task_assignment ls_result \<times> agent_scheduler" where
  "select_agent fresh required r s =
     (let cs = candidates required r
      in if cs = [] then (Inl (QuotaExceeded ''no available agent for task''), s)
         else (case as_strategy s of
             Sequential \<Rightarrow> (let (a, s') = round_robin cs fresh s in (Inr a, s'))
           | RoundRobin \<Rightarrow> (let (a, s') = round_robin cs fresh s in (Inr a, s'))
           | LeastBusy \<Rightarrow> (Inr (least_busy cs fresh s), s)
           | CapabilityFirst \<Rightarrow> (Inr (capability_first cs fresh required), s)))"

definition task_started :: "ls_id \<Rightarrow> agent_scheduler \<Rightarrow> agent_scheduler" where
  "task_started i s = s\<lparr>as_counts := hm_insert i (task_count s i + 1) (as_counts s)\<rparr>"

definition task_completed :: "ls_id \<Rightarrow> agent_scheduler \<Rightarrow> agent_scheduler" where
  "task_completed i s = (case hm_get (as_counts s) i of
     None \<Rightarrow> s | Some n \<Rightarrow> if n > 0 then s\<lparr>as_counts := hm_insert i (n - 1) (as_counts s)\<rparr> else s)"

section \<open>The message bus\<close>

datatype delivery_status = Pending | Delivered | Read | FailedDelivery string

record agent_message =
  am_id :: string
  am_source :: ls_id
  am_destination :: "ls_id option"
  am_message_type :: string
  am_payload :: json
  am_correlation_id :: "string option"
  am_timestamp :: int
  am_ttl_seconds :: "nat option"

record inbox =
  ib_messages :: "agent_message list"
  ib_open :: bool

text \<open>An inbox is a number into the list of channels. A pending request has a one-shot channel; its
  receiver is alive while the request waits.\<close>

record agent_comm =
  co_channels :: "inbox list"
  co_inboxes :: "(ls_id, nat) hmap"
  co_pending :: "string list"
  co_waiting :: "string list"
  co_answers :: "(string, agent_message) hmap"
  co_counter :: "64 word"

definition agent_comm_new :: agent_comm where
  "agent_comm_new = \<lparr>co_channels = [], co_inboxes = [], co_pending = [], co_waiting = [], co_answers = [], co_counter = 0\<rparr>"

definition register_agent :: "ls_id \<Rightarrow> agent_comm \<Rightarrow> nat \<times> agent_comm" where
  "register_agent i c = (length (co_channels c),
     c\<lparr>co_channels := co_channels c @ [\<lparr>ib_messages = [], ib_open = True\<rparr>],
       co_inboxes := hm_insert i (length (co_channels c)) (co_inboxes c)\<rparr>)"

definition unregister_agent :: "ls_id \<Rightarrow> agent_comm \<Rightarrow> agent_comm" where
  "unregister_agent i c = c\<lparr>co_inboxes := hm_remove i (co_inboxes c)\<rparr>"

definition inbox_capacity :: nat where
  "inbox_capacity = 256"

definition channel_send :: "nat \<Rightarrow> agent_message \<Rightarrow> agent_comm \<Rightarrow> (bool \<times> agent_comm) option" where
  "channel_send k msg c =
     (let b = co_channels c ! k
      in if \<not> ib_open b then Some (False, c)
         else if length (ib_messages b) \<ge> inbox_capacity then None
         else Some (True, c\<lparr>co_channels := (co_channels c)[k := b\<lparr>ib_messages := ib_messages b @ [msg]\<rparr>]\<rparr>))"

definition channel_receive :: "nat \<Rightarrow> agent_comm \<Rightarrow> agent_message option \<times> agent_comm" where
  "channel_receive k c = (case ib_messages (co_channels c ! k) of
     [] \<Rightarrow> (None, c)
   | m # ms \<Rightarrow> (Some m, c\<lparr>co_channels := (co_channels c)[k := (co_channels c ! k)\<lparr>ib_messages := ms\<rparr>]\<rparr>))"

definition comm_send :: "ls_id \<Rightarrow> agent_message \<Rightarrow> agent_comm \<Rightarrow> (delivery_status ls_result \<times> agent_comm) option" where
  "comm_send dest msg c = (case hm_get (co_inboxes c) dest of
     None \<Rightarrow> Some (Inl (NotFound (''agent inbox '' @ show_id dest)), c)
   | Some k \<Rightarrow> (case channel_send k msg c of
        None \<Rightarrow> None
      | Some (True, c') \<Rightarrow> Some (Inr Delivered, c')
      | Some (False, c') \<Rightarrow> Some (Inl (Internal ''agent inbox channel closed''), c')))"

fun broadcast_loop :: "agent_message \<Rightarrow> (ls_id \<times> nat) list \<Rightarrow> agent_comm \<Rightarrow> (delivery_status ls_result list \<times> agent_comm) option" where
  "broadcast_loop msg [] c = Some ([], c)"
| "broadcast_loop msg ((i, k) # rest) c = (case channel_send k (msg\<lparr>am_destination := Some i\<rparr>) c of
     None \<Rightarrow> None
   | Some (ok, c') \<Rightarrow> (case broadcast_loop msg rest c' of
        None \<Rightarrow> None
      | Some (rs, c'') \<Rightarrow>
          Some ((if ok then Inr Delivered else Inl (Internal ''broadcast failed: channel closed'')) # rs, c'')))"

definition comm_broadcast :: "agent_message \<Rightarrow> agent_comm \<Rightarrow> (delivery_status ls_result list \<times> agent_comm) option" where
  "comm_broadcast msg c = broadcast_loop msg (co_inboxes c) c"

definition next_message_id :: "agent_comm \<Rightarrow> string \<times> agent_comm" where
  "next_message_id c = (''msg-'' @ show_nat (unat (co_counter c)), c\<lparr>co_counter := co_counter c + 1\<rparr>)"

text \<open>A request: it is entered as pending and sent; if that fails it returns and its receiver is gone, but the
  entry stays. Then it waits until it is answered or its time limit has passed.\<close>

definition request_begin ::
  "string \<Rightarrow> int \<Rightarrow> ls_id \<Rightarrow> json \<Rightarrow> ls_id \<Rightarrow> nat \<Rightarrow> agent_comm \<Rightarrow> (unit ls_result \<times> agent_comm) option" where
  "request_begin corr now dest payload source timeout_secs c =
     (let (i, c1) = next_message_id (c\<lparr>co_pending := corr # co_pending c, co_waiting := corr # co_waiting c\<rparr>);
          msg = \<lparr>am_id = i, am_source = source, am_destination = Some dest, am_message_type = ''request'',
                 am_payload = payload, am_correlation_id = Some corr, am_timestamp = now,
                 am_ttl_seconds = Some timeout_secs\<rparr>
      in case comm_send dest msg c1 of
           None \<Rightarrow> None
         | Some (Inl e, c2) \<Rightarrow> Some (Inl e, c2\<lparr>co_waiting := filter (\<lambda>x. x \<noteq> corr) (co_waiting c2)\<rparr>)
         | Some (Inr _, c2) \<Rightarrow> Some (Inr (), c2))"

definition request_end :: "bool \<Rightarrow> string \<Rightarrow> agent_comm \<Rightarrow> (agent_message ls_result \<times> agent_comm) option" where
  "request_end elapsed corr c = (case hm_get (co_answers c) corr of
     Some m \<Rightarrow> Some (Inr m, c\<lparr>co_waiting := filter (\<lambda>x. x \<noteq> corr) (co_waiting c)\<rparr>)
   | None \<Rightarrow> if elapsed
       then Some (Inl (Timeout ''agent request timed out''), c\<lparr>co_waiting := filter (\<lambda>x. x \<noteq> corr) (co_waiting c)\<rparr>)
       else None)"

definition respond :: "string \<Rightarrow> int \<Rightarrow> json \<Rightarrow> ls_id \<Rightarrow> ls_id \<Rightarrow> agent_comm \<Rightarrow> unit ls_result \<times> agent_comm" where
  "respond corr now payload source dest c =
     (if corr \<notin> set (co_pending c) then (Inl (NotFound (''pending request '' @ corr)), c)
      else (let (i, c1) = next_message_id (c\<lparr>co_pending := filter (\<lambda>x. x \<noteq> corr) (co_pending c)\<rparr>);
                msg = \<lparr>am_id = i, am_source = source, am_destination = Some dest, am_message_type = ''response'',
                       am_payload = payload, am_correlation_id = Some corr, am_timestamp = now, am_ttl_seconds = None\<rparr>
            in if corr \<in> set (co_waiting c1) then (Inr (), c1\<lparr>co_answers := hm_insert corr msg (co_answers c1)\<rparr>)
               else (Inl (Internal ''response receiver dropped''), c1)))"

section \<open>The orchestrator\<close>

record team_config =
  tc_name :: string
  tc_description :: "string option"
  tc_required_capabilities :: "string list"
  tc_strategy :: schedule_strategy

record orch_config =
  oc_default_strategy :: schedule_strategy
  oc_request_timeout_seconds :: nat
  oc_max_delegation_depth :: nat

definition orch_config_default :: orch_config where
  "orch_config_default = \<lparr>oc_default_strategy = RoundRobin, oc_request_timeout_seconds = 30, oc_max_delegation_depth = 5\<rparr>"

record delegation_result =
  dr_task_id :: string
  dr_agent_id :: ls_id
  dr_team :: string
  dr_output :: json
  dr_duration_ms :: nat
  dr_depth :: nat

record orchestrator =
  or_registry :: agent_registry
  or_scheduler :: agent_scheduler
  or_comm :: agent_comm
  or_config :: orch_config
  or_teams :: "(string, team_config) hmap"
  or_delegations :: "(string, delegation_result) hmap"

definition orchestrator_new :: "orch_config \<Rightarrow> orchestrator" where
  "orchestrator_new config = \<lparr>or_registry = agent_registry_new,
     or_scheduler = agent_scheduler_new (oc_default_strategy config), or_comm = agent_comm_new, or_config = config,
     or_teams = [], or_delegations = []\<rparr>"

definition create_team :: "team_config \<Rightarrow> orchestrator \<Rightarrow> unit ls_result \<times> orchestrator" where
  "create_team config o' =
     (if hm_has (tc_name config) (or_teams o') then (Inl (AlreadyExists (''team '' @ tc_name config)), o')
      else (Inr (), o'\<lparr>or_teams := hm_insert (tc_name config) config (or_teams o')\<rparr>))"

fun first_lacking :: "string list \<Rightarrow> agent_info \<Rightarrow> string option" where
  "first_lacking [] a = None"
| "first_lacking (req # reqs) a =
     (if req \<notin> set (map acp_name (ag_capabilities a)) then Some req else first_lacking reqs a)"

definition join_team :: "string \<Rightarrow> ls_id \<Rightarrow> orchestrator \<Rightarrow> unit ls_result \<times> orchestrator" where
  "join_team team_name i o' = (case hm_get (or_teams o') team_name of
     None \<Rightarrow> (Inl (NotFound (''team '' @ team_name)), o')
   | Some team \<Rightarrow> (case ar_get i (or_registry o') of
        Inl e \<Rightarrow> (Inl e, o')
      | Inr a \<Rightarrow> (case first_lacking (tc_required_capabilities team) a of
           Some req \<Rightarrow> (Inl (InvalidArgument (''agent '' @ show_id i @ '' lacks required capability ''
                 @ [CHR 0x27] @ req @ [CHR 0x27])), o')
         | None \<Rightarrow> (case add_tag i ''team'' team_name (or_registry o') of
              (Inl e, r) \<Rightarrow> (Inl e, o'\<lparr>or_registry := r\<rparr>)
            | (Inr _, r) \<Rightarrow> (Inr (), o'\<lparr>or_registry := r\<rparr>)))))"

definition first_capability :: "team_config \<Rightarrow> string option" where
  "first_capability team = (case tc_required_capabilities team of [] \<Rightarrow> None | c # _ \<Rightarrow> Some c)"

definition command_message :: "string \<Rightarrow> ls_id \<Rightarrow> ls_id \<Rightarrow> json \<Rightarrow> int \<Rightarrow> nat \<Rightarrow> agent_message" where
  "command_message task_id source dest task now timeout_secs =
     \<lparr>am_id = task_id, am_source = source, am_destination = Some dest, am_message_type = ''command'', am_payload = task,
      am_correlation_id = Some task_id, am_timestamp = now, am_ttl_seconds = Some timeout_secs\<rparr>"

definition delegate ::
  "string \<Rightarrow> ls_id \<Rightarrow> int \<Rightarrow> nat \<Rightarrow> string \<Rightarrow> json \<Rightarrow> orchestrator \<Rightarrow>
   (delegation_result ls_result \<times> orchestrator) option" where
  "delegate fresh source now duration team_name task o' = (case hm_get (or_teams o') team_name of
     None \<Rightarrow> Some (Inl (NotFound (''team '' @ team_name)), o')
   | Some team \<Rightarrow>
       if filter (\<lambda>a. ag_status a = Idle) (find_by_tag ''team'' team_name (or_registry o')) = []
       then Some (Inl (QuotaExceeded (''no available agent in team '' @ team_name)), o')
       else (case select_agent fresh (first_capability team) (or_registry o') (or_scheduler o') of
           (Inl e, s) \<Rightarrow> Some (Inl e, o'\<lparr>or_scheduler := s\<rparr>)
         | (Inr a, s) \<Rightarrow>
             (let s1 = task_started (ta_agent_id a) s;
                  msg = command_message (ta_task_id a) source (ta_agent_id a) task now
                    (oc_request_timeout_seconds (or_config o'))
              in case comm_send (ta_agent_id a) msg (or_comm o') of
                   None \<Rightarrow> None
                 | Some (Inr _, c) \<Rightarrow>
                     (let result = \<lparr>dr_task_id = ta_task_id a, dr_agent_id = ta_agent_id a, dr_team = team_name,
                            dr_output = Object [(''status'', Str ''delegated''), (''task_id'', Str (ta_task_id a))],
                            dr_duration_ms = duration, dr_depth = 0\<rparr>
                      in Some (Inr result, o'\<lparr>or_scheduler := task_completed (ta_agent_id a) s1, or_comm := c,
                           or_delegations := hm_insert (ta_task_id a) result (or_delegations o')\<rparr>))
                 | Some (Inl e, c) \<Rightarrow>
                     Some (Inl e, o'\<lparr>or_scheduler := task_completed (ta_agent_id a) s1, or_comm := c\<rparr>))))"

definition delegation_result_of :: "string \<Rightarrow> orchestrator \<Rightarrow> delegation_result ls_result" where
  "delegation_result_of task_id o' = ok_or (NotFound (''delegation '' @ task_id)) (hm_get (or_delegations o') task_id)"

definition list_delegations :: "orchestrator \<Rightarrow> delegation_result list" where
  "list_delegations o' = hm_values (or_delegations o')"

definition update_orch_config :: "orch_config \<Rightarrow> orchestrator \<Rightarrow> orchestrator" where
  "update_orch_config config o' = o'\<lparr>or_config := config\<rparr>"

end
