(* ===== verification/Orch_Props.thy ===== *)
theory Orch_Props
  imports Orchestrator
begin

text \<open>
  Which agent the scheduler selects, and what a delegation does with the registry, the scheduler
  and the message bus.
\<close>

section \<open>Selection\<close>

lemma score_le_linear: "score_le p q \<or> score_le q p"
  by (auto simp: score_le_def)

lemma match_score_pos: "0 < snd (match_score c a)"
  by (simp add: match_score_def Let_def)

lemma score_le_trans: "score_le p q \<Longrightarrow> score_le q r \<Longrightarrow> 0 < snd q \<Longrightarrow> score_le p r"
proof -
  assume le: "score_le p q" "score_le q r" and pos: "0 < snd q"
  have "fst p * snd q * snd r \<le> fst q * snd p * snd r" using le(1) by (simp add: score_le_def)
  also have "\<dots> = fst q * snd r * snd p" by simp
  also have "\<dots> \<le> fst r * snd q * snd p" using le(2) by (simp add: score_le_def)
  finally have "fst p * snd r * snd q \<le> fst r * snd p * snd q" by (simp add: ac_simps)
  then show ?thesis using pos by (simp add: score_le_def)
qed

lemma candidates_set:
  assumes "registry_inv r"
  shows "a \<in> set (candidates required r) \<longleftrightarrow>
    hm_get (ar_agents r) (ag_agent_id a) = Some a \<and> ag_status a = Idle \<and> (\<forall>c. required = Some c \<longrightarrow> has_cap c a)"
  using find_by_capability_set [OF assms] ar_list_set [OF assms]
  by (auto simp: candidates_def split: option.splits)

lemma least_busy_least:
  assumes "cs \<noteq> []"
  obtains a where "a \<in> set cs" "least_busy cs fresh s = \<lparr>ta_task_id = fresh, ta_agent_id = ag_agent_id a, ta_strategy = LeastBusy, ta_score = None\<rparr>"
    "\<forall>b \<in> set cs. task_count s (ag_agent_id a) \<le> task_count s (ag_agent_id b)"
proof -
  have cs: "insert (hd cs) (set (tl cs)) = set cs" using assms by (cases cs) auto
  let ?a = "first_min (\<lambda>a. task_count s (ag_agent_id a)) (hd cs) (tl cs)"
  have "?a \<in> set cs" using first_min_least(1) [of _ "hd cs" "tl cs"] cs by blast
  moreover have "\<forall>b \<in> set cs. task_count s (ag_agent_id ?a) \<le> task_count s (ag_agent_id b)"
    using first_min_least(2) [of "hd cs" "tl cs" "\<lambda>a. task_count s (ag_agent_id a)"] unfolding cs .
  ultimately show thesis by (intro that) (auto simp: least_busy_def)
qed

lemma capability_first_greatest:
  assumes "cs \<noteq> []"
  obtains a where "a \<in> set cs" "ta_agent_id (capability_first cs fresh required) = ag_agent_id a"
    "\<forall>b \<in> set cs. score_le (match_score (case required of None \<Rightarrow> '''' | Some c \<Rightarrow> c) b) (match_score (case required of None \<Rightarrow> '''' | Some c \<Rightarrow> c) a)"
proof -
  have cs: "insert (hd cs) (set (tl cs)) = set cs" using assms by (cases cs) auto
  let ?req = "case required of None \<Rightarrow> '''' | Some c \<Rightarrow> c"
  let ?le = "\<lambda>a b. score_le (match_score ?req a) (match_score ?req b)"
  have trans: "\<And>a b c. ?le a b \<Longrightarrow> ?le b c \<Longrightarrow> ?le a c" by (rule score_le_trans [OF _ _ match_score_pos])
  have linear: "\<And>a b. ?le a b \<or> ?le b a" by (rule score_le_linear)
  have "last_max ?le (hd cs) (tl cs) \<in> insert (hd cs) (set (tl cs))
      \<and> (\<forall>b \<in> insert (hd cs) (set (tl cs)). ?le b (last_max ?le (hd cs) (tl cs)))"
    by (rule last_max_greatest [where A = UNIV]) (use trans linear in blast)+
  then have "last_max ?le (hd cs) (tl cs) \<in> set cs" "\<forall>b \<in> set cs. ?le b (last_max ?le (hd cs) (tl cs))"
    unfolding cs by blast+
  then show thesis by (intro that) (auto simp: capability_first_def Let_def)
qed

text \<open>What a selection returns, over the list of candidates.\<close>

lemma selected_candidate:
  assumes "fst (select_agent fresh required r s) = Inr t"
  shows "\<exists>a \<in> set (candidates required r). ag_agent_id a = ta_agent_id t
    \<and> (as_strategy s = LeastBusy \<longrightarrow>
        (\<forall>b \<in> set (candidates required r). task_count s (ag_agent_id a) \<le> task_count s (ag_agent_id b)))
    \<and> (as_strategy s = CapabilityFirst \<longrightarrow> (\<forall>b \<in> set (candidates required r).
        score_le (match_score (case required of None \<Rightarrow> [] | Some c \<Rightarrow> c) b) (match_score (case required of None \<Rightarrow> [] | Some c \<Rightarrow> c) a)))"
proof -
  let ?cs = "candidates required r"
  from assms have ne: "?cs \<noteq> []" by (auto simp: select_agent_def Let_def)
  then have robin: "?cs ! (unat (as_counter s) mod length ?cs) \<in> set ?cs" by simp
  show ?thesis
  proof (cases "as_strategy s")
    case LeastBusy
    obtain a where "a \<in> set ?cs" "least_busy ?cs fresh s = \<lparr>ta_task_id = fresh, ta_agent_id = ag_agent_id a, ta_strategy = LeastBusy, ta_score = None\<rparr>"
      "\<forall>b \<in> set ?cs. task_count s (ag_agent_id a) \<le> task_count s (ag_agent_id b)"
      by (rule least_busy_least [OF ne])
    with assms ne LeastBusy show ?thesis by (intro bexI [of _ a]) (auto simp: select_agent_def Let_def)
  next
    case CapabilityFirst
    obtain a where "a \<in> set ?cs" "ta_agent_id (capability_first ?cs fresh required) = ag_agent_id a"
      "\<forall>b \<in> set ?cs. score_le (match_score (case required of None \<Rightarrow> [] | Some c \<Rightarrow> c) b) (match_score (case required of None \<Rightarrow> [] | Some c \<Rightarrow> c) a)"
      by (rule capability_first_greatest [OF ne])
    with assms ne CapabilityFirst show ?thesis by (intro bexI [of _ a]) (auto simp: select_agent_def Let_def)
  qed (use assms ne robin in \<open>auto simp: select_agent_def round_robin_def Let_def intro!: bexI [of _ "?cs ! (unat (as_counter s) mod length ?cs)"]\<close>)
qed

lemma select_fails: "(\<exists>e. fst (select_agent fresh required r s) = Inl e) \<longleftrightarrow> candidates required r = []"
  by (auto simp: select_agent_def Let_def split: schedule_strategy.splits prod.splits)

text \<open>A selection fails exactly if no registered idle agent has the required capability; otherwise it
  returns one, under the strategy of the fewest tasks one with no more running tasks than any
  other such agent, and under the strategy of capabilities one with the greatest share of the
  required capability among its own.\<close>

theorem select_agent_exact:
  assumes "reaches registry_init registry_step r"
    and "\<And>a. eligible a \<longleftrightarrow> hm_get (ar_agents r) (ag_agent_id a) = Some a \<and> ag_status a = Idle
        \<and> (\<forall>c. required = Some c \<longrightarrow> has_cap c a)"
  shows "((\<exists>e. fst (select_agent fresh required r s) = Inl e) \<longleftrightarrow> (\<nexists>a. eligible a))
    \<and> (fst (select_agent fresh required r s) = Inr t \<longrightarrow>
        (\<exists>a. eligible a \<and> ag_agent_id a = ta_agent_id t
          \<and> (as_strategy s = LeastBusy \<longrightarrow> (\<forall>b. eligible b \<longrightarrow> task_count s (ag_agent_id a) \<le> task_count s (ag_agent_id b)))
          \<and> (as_strategy s = CapabilityFirst \<and> required = Some c \<longrightarrow>
              (\<forall>b. eligible b \<longrightarrow> score_le (match_score c b) (match_score c a)))))"
proof -
  have el: "eligible a \<longleftrightarrow> a \<in> set (candidates required r)" for a
    unfolding assms(2) candidates_set [OF registry_machine.reaches_inv [OF assms(1)]] by blast
  have none: "(\<nexists>a. eligible a) \<longleftrightarrow> candidates required r = []" unfolding el by (cases "candidates required r") auto
  show ?thesis
    unfolding none select_fails el
  proof (intro conjI impI refl)
    assume "fst (select_agent fresh required r s) = Inr t"
    then obtain a where "a \<in> set (candidates required r)" "ag_agent_id a = ta_agent_id t"
        "as_strategy s = LeastBusy \<longrightarrow> (\<forall>b \<in> set (candidates required r). task_count s (ag_agent_id a) \<le> task_count s (ag_agent_id b))"
        "as_strategy s = CapabilityFirst \<longrightarrow> (\<forall>b \<in> set (candidates required r).
          score_le (match_score (case required of None \<Rightarrow> [] | Some c \<Rightarrow> c) b) (match_score (case required of None \<Rightarrow> [] | Some c \<Rightarrow> c) a))"
      using selected_candidate by blast
    then show "\<exists>a. a \<in> set (candidates required r) \<and> ag_agent_id a = ta_agent_id t
        \<and> (as_strategy s = LeastBusy \<longrightarrow> (\<forall>b. b \<in> set (candidates required r) \<longrightarrow> task_count s (ag_agent_id a) \<le> task_count s (ag_agent_id b)))
        \<and> (as_strategy s = CapabilityFirst \<and> required = Some c \<longrightarrow>
            (\<forall>b. b \<in> set (candidates required r) \<longrightarrow> score_le (match_score c b) (match_score c a)))"
      by (intro exI [of _ a]) auto
  qed (simp add: ex_in_conv)
qed

theorem select_agent_exact_witness:
  "\<exists>t. fst (select_agent ''t'' (Some ''web'') (snd (ar_register (sample_agent 7 [''web'']) agent_registry_new))
      (agent_scheduler_new LeastBusy)) = Inr t \<and> ta_agent_id t = 7"
proof -
  let ?r = "snd (ar_register (sample_agent 7 [''web'']) agent_registry_new)"
  let ?sel = "fst (select_agent ''t'' (Some ''web'') ?r (agent_scheduler_new LeastBusy))"
  let ?e = "\<lambda>a. hm_get (ar_agents ?r) (ag_agent_id a) = Some a \<and> ag_status a = Idle \<and> (\<forall>c. Some ''web'' = Some c \<longrightarrow> has_cap c a)"
  note exact = select_agent_exact [where eligible = ?e and required = "Some ''web''" and fresh = "''t''"
      and s = "agent_scheduler_new LeastBusy", OF register_reaches [of 7 "[''web'']"] refl]
  have agents: "ar_agents ?r = [(7, sample_agent 7 [''web''])]"
    by (simp add: ar_register_def agent_registry_new_def sample_agent_def)
  have "?e (sample_agent 7 [''web''])" unfolding agents by (simp add: sample_agent_def has_cap_def)
  then have "\<nexists>e. ?sel = Inl e" using exact [THEN conjunct1] by blast
  then obtain t where t: "?sel = Inr t" by (cases ?sel) auto
  with exact [of t "''web''"] obtain a where "?e a" "ag_agent_id a = ta_agent_id t" by blast
  then have "ta_agent_id t = 7" unfolding agents by (auto split: if_splits)
  with t show ?thesis by blast
qed

section \<open>Round robin\<close>

fun select_many :: "nat \<Rightarrow> string \<Rightarrow> string option \<Rightarrow> agent_registry \<Rightarrow> agent_scheduler \<Rightarrow> task_assignment ls_result list" where
  "select_many 0 fresh required r s = []"
| "select_many (Suc n) fresh required r s =
     (let (t, s') = select_agent fresh required r s in t # select_many n fresh required r s')"

lemma select_robin:
  assumes "as_strategy s = RoundRobin" "candidates required r \<noteq> []"
  shows "select_agent fresh required r s =
    (Inr \<lparr>ta_task_id = fresh, ta_agent_id = ag_agent_id (candidates required r ! (unat (as_counter s) mod length (candidates required r))),
      ta_strategy = RoundRobin, ta_score = None\<rparr>, s\<lparr>as_counter := as_counter s + 1\<rparr>)"
  using assms by (simp add: select_agent_def round_robin_def Let_def)

lemma select_many_robin:
  assumes "as_strategy s = RoundRobin" "candidates required r \<noteq> []" "unat (as_counter s) + n < 2 ^ 64"
  shows "select_many n fresh required r s = map (\<lambda>k. Inr \<lparr>ta_task_id = fresh,
      ta_agent_id = ag_agent_id (candidates required r ! ((unat (as_counter s) + k) mod length (candidates required r))),
      ta_strategy = RoundRobin, ta_score = None\<rparr>) [0..<n]"
  using assms
proof (induction n arbitrary: s)
  case (Suc n)
  let ?s = "s\<lparr>as_counter := as_counter s + 1\<rparr>"
  have next': "unat (as_counter s + 1) = unat (as_counter s) + 1"
    using Suc.prems(3) by (simp add: unat_plus_if')
  have "[0..<Suc n] = 0 # map Suc [0..<n]" by (simp add: upt_conv_Cons map_Suc_upt del: upt_Suc)
  with Suc.IH [of ?s] Suc.prems select_robin [OF Suc.prems(1,2)] next' show ?case by (simp del: upt_Suc)
qed simp

lemma mset_rotate: "mset (rotate n xs) = mset xs"
proof (induction n)
  case (Suc n)
  have "mset (rotate1 ys) = mset ys" for ys :: "'a list" by (cases ys) auto
  with Suc show ?case by (simp add: rotate_Suc)
qed simp

text \<open>Under round robin, as many selections in a row as there are eligible agents, in whichever order the
  registry lists them, choose each of them exactly once, until the counter wraps after \<open>2 ^ 64\<close>.\<close>

theorem round_robin_fair:
  assumes "as_strategy s = RoundRobin" "candidates required r \<noteq> []"
    and "unat (as_counter s) + length (candidates required r) < 2 ^ 64"
  shows "mset (map (\<lambda>t. case t of Inr a \<Rightarrow> Some (ta_agent_id a) | Inl _ \<Rightarrow> None)
      (select_many (length (candidates required r)) fresh required r s)) =
    mset (map (\<lambda>a. Some (ag_agent_id a)) (candidates required r))"
proof -
  let ?cs = "candidates required r" and ?c = "unat (as_counter s)"
  have "map (\<lambda>k. ?cs ! ((?c + k) mod length ?cs)) [0..<length ?cs] = rotate ?c ?cs"
    by (rule nth_equalityI) (simp_all add: nth_rotate)
  then have "map (\<lambda>a. Some (ag_agent_id a)) (map (\<lambda>k. ?cs ! ((?c + k) mod length ?cs)) [0..<length ?cs]) =
      map (\<lambda>a. Some (ag_agent_id a)) (rotate ?c ?cs)" by (rule arg_cong)
  then have "map (\<lambda>k. Some (ag_agent_id (?cs ! ((?c + k) mod length ?cs)))) [0..<length ?cs] =
      map (\<lambda>a. Some (ag_agent_id a)) (rotate ?c ?cs)" unfolding map_map comp_def .
  moreover have "mset (rotate ?c ?cs) = mset ?cs" by (rule mset_rotate)
  ultimately show ?thesis
    unfolding select_many_robin [OF assms] by (simp add: comp_def)
qed

theorem round_robin_fair_witness:
  "mset (map (\<lambda>t. case t of Inr a \<Rightarrow> Some (ta_agent_id a) | Inl _ \<Rightarrow> None)
      (select_many 1 ''t'' None (snd (ar_register (sample_agent 7 []) agent_registry_new)) (agent_scheduler_new RoundRobin))) = {#Some 7#}"
proof -
  let ?r = "snd (ar_register (sample_agent 7 []) agent_registry_new)"
  have c: "candidates None ?r = [sample_agent 7 []]"
    by (simp add: candidates_def ar_list_def ar_register_def agent_registry_new_def sample_agent_def)
  show ?thesis
    using round_robin_fair [of "agent_scheduler_new RoundRobin" None ?r "''t''"]
    by (simp add: c agent_scheduler_new_def) (simp add: sample_agent_def)
qed

section \<open>Delegation\<close>

lemma task_round_trip: "task_count (task_completed i (task_started i s)) j = task_count s j"
  by (simp add: task_started_def task_completed_def task_count_def)

text \<open>C21: a delegation that succeeds goes to a registered idle agent with the first capability of the team: the
  command is the last message of that agent's inbox and all other inboxes are as before, the
  result is recorded under the task, and the running tasks of all agents are counted as before.
  It fails without effect on inboxes and records if the team or an idle member is missing.\<close>

theorem delegate_exact:
  assumes "reaches registry_init registry_step (or_registry o1)"
    and "delegate fresh source now duration team task o1 = Some (res, o2)"
  shows "(\<forall>d. res = Inr d \<longrightarrow>
      (\<exists>a k cfg. hm_get (or_teams o1) team = Some cfg
        \<and> hm_get (ar_agents (or_registry o1)) (dr_agent_id d) = Some a \<and> ag_status a = Idle
        \<and> (\<forall>c. first_capability cfg = Some c \<longrightarrow> has_cap c a)
        \<and> hm_get (co_inboxes (or_comm o1)) (dr_agent_id d) = Some k
        \<and> co_channels (or_comm o2) = (co_channels (or_comm o1))[k := (co_channels (or_comm o1) ! k)
            \<lparr>ib_messages := ib_messages (co_channels (or_comm o1) ! k)
              @ [command_message (dr_task_id d) source (dr_agent_id d) task now (oc_request_timeout_seconds (or_config o1))]\<rparr>]
        \<and> delegation_result_of (dr_task_id d) o2 = Inr d))
    \<and> (\<forall>j. task_count (or_scheduler o2) j = task_count (or_scheduler o1) j)
    \<and> (\<forall>e. res = Inl e \<longrightarrow> co_channels (or_comm o2) = co_channels (or_comm o1) \<and> or_delegations o2 = or_delegations o1)"
proof -
  have same: "snd (select_agent fresh req r s) = s\<lparr>as_counter := as_counter (snd (select_agent fresh req r s))\<rparr>" for req r s
    by (simp add: select_agent_def round_robin_def Let_def split: schedule_strategy.split)
  have count: "task_count (snd (select_agent fresh req r s)) j = task_count s j" for req r s j
    by (subst same) (simp add: task_count_def)
  show ?thesis
  proof (cases "hm_get (or_teams o1) team")
    case None
    with assms(2) show ?thesis by (auto simp: delegate_def)
  next
    case (Some cfg)
    note team = Some
    let ?sel = "select_agent fresh (first_capability cfg) (or_registry o1) (or_scheduler o1)"
    obtain t s where sel: "?sel = (t, s)" by (cases ?sel)
    have cnt: "task_count s j = task_count (or_scheduler o1) j" for j
      using count [of "first_capability cfg" "or_registry o1" "or_scheduler o1"] by (simp add: sel)
    show ?thesis
    proof (cases t)
      case (Inl e)
      with assms(2) team sel cnt show ?thesis by (auto simp: delegate_def split: if_splits)
    next
      case (Inr a)
      have "fst ?sel = Inr a" using sel Inr by simp
      from selected_candidate [OF this] obtain ag where "ag \<in> set (candidates (first_capability cfg) (or_registry o1))"
          "ag_agent_id ag = ta_agent_id a" by blast
      then have ag: "hm_get (ar_agents (or_registry o1)) (ta_agent_id a) = Some ag" "ag_status ag = Idle"
          "\<forall>c. first_capability cfg = Some c \<longrightarrow> has_cap c ag"
        unfolding candidates_set [OF registry_machine.reaches_inv [OF assms(1)]] by auto
      from assms(2) team sel Inr ag cnt task_round_trip show ?thesis
        by (auto simp: delegate_def comm_send_def channel_send_def Let_def delegation_result_of_def
            split: if_splits option.splits prod.splits sum.splits bool.splits)
    qed
  qed
qed

definition sample_orchestrator :: orchestrator where
  "sample_orchestrator = (orchestrator_new orch_config_default)
     \<lparr>or_registry := \<lparr>ar_agents = [(7, sample_agent 7 []), (8, (sample_agent 8 [])\<lparr>ag_tags := [(''team'', ''red'')]\<rparr>)],
        ar_capability_index = []\<rparr>,
      or_comm := agent_comm_new\<lparr>co_channels := [\<lparr>ib_messages = [], ib_open = True\<rparr>], co_inboxes := [(7, 0)]\<rparr>,
      or_teams := [(''red'', \<lparr>tc_name = ''red'', tc_description = None, tc_required_capabilities = [], tc_strategy = RoundRobin\<rparr>)]\<rparr>"

lemma sample_orchestrator_reaches: "reaches registry_init registry_step (or_registry sample_orchestrator)"
proof -
  let ?r0 = agent_registry_new
  let ?r1 = "snd (ar_register (sample_agent 7 []) ?r0)"
  let ?r2 = "snd (ar_register ((sample_agent 8 [])\<lparr>ag_tags := [(''team'', ''red'')]\<rparr>) ?r1)"
  have "reaches registry_init registry_step ?r1" by (rule register_reaches)
  then have "reaches registry_init registry_step ?r2" by (rule reaches_step) (rule rg_register, rule surjective_pairing)
  moreover have "or_registry sample_orchestrator = ?r2"
    by (simp add: sample_orchestrator_def ar_register_def agent_registry_new_def sample_agent_def)
  ultimately show ?thesis by simp
qed

text \<open>The selection does not look at the team: the command for the team of agent 8 goes to agent 7, who is no
  member.\<close>

lemma delegated_outside_team:
  "\<exists>d o2. delegate ''t1'' 9 0 5 ''red'' Null sample_orchestrator = Some (Inr d, o2) \<and> dr_agent_id d = 7
    \<and> 7 \<notin> ag_agent_id ` set (find_by_tag ''team'' ''red'' (or_registry sample_orchestrator))"
  by (simp add: delegate_def sample_orchestrator_def orchestrator_new_def orch_config_default_def find_by_tag_def
      sample_agent_def select_agent_def candidates_def first_capability_def ar_list_def agent_scheduler_new_def
      round_robin_def comm_send_def channel_send_def agent_comm_new_def inbox_capacity_def Let_def)

theorem delegate_exact_witness:
  "\<exists>d o2. delegate ''t1'' 9 0 5 ''red'' Null sample_orchestrator = Some (Inr d, o2) \<and> delegation_result_of (dr_task_id d) o2 = Inr d"
proof -
  obtain d o2 where d: "delegate ''t1'' 9 0 5 ''red'' Null sample_orchestrator = Some (Inr d, o2)"
    using delegated_outside_team by blast
  with delegate_exact [OF sample_orchestrator_reaches d] show ?thesis by blast
qed

text \<open>A request whose time limit has passed stays pending; a late response takes the entry and is an error.\<close>

lemma late_response_refused:
  assumes "request_end True corr c = Some (Inl e, c')" "corr \<in> set (co_pending c)"
  shows "\<exists>c''. respond corr now payload source dest c' = (Inl (Internal ''response receiver dropped''), c'')"
  using assms by (auto simp: request_end_def respond_def next_message_id_def Let_def split: option.splits)

end
