(* ===== verification/Plugin_Types.thy ===== *)
theory Plugin_Types
  imports Std_Text
begin

text \<open>
  Plugins: what they declare and how it is checked (\<open>traits/src/plugin.rs\<close> and, of the crate
  \<open>plugin\<close>, \<open>manifest.rs\<close>, \<open>sandbox.rs\<close>, \<open>loader.rs\<close> and the capability checker of \<open>lib.rs\<close>).

  The crate \<open>semver\<close> is an argument: how it parses versions and requirements, which versions a
  requirement matches and how two versions compare. A shared library is what loading it gives.
\<close>

section \<open>Text of the standard library\<close>

text \<open>The order of \<open>str\<close> is the order of the bytes; \<open>join\<close>; the \<open>Debug\<close> text of a string, in which printable
  characters outside ASCII stay as they are.\<close>

fun str_less :: "string \<Rightarrow> string \<Rightarrow> bool" where
  "str_less s [] = False"
| "str_less [] (d # t) = True"
| "str_less (c # s) (d # t) = ((of_char c :: nat) < of_char d \<or> (c = d \<and> str_less s t))"

fun join_str :: "string \<Rightarrow> string list \<Rightarrow> string" where
  "join_str sep [] = []"
| "join_str sep [w] = w"
| "join_str sep (w # ws) = w @ sep @ join_str sep ws"

fun hex_text :: "nat \<Rightarrow> string" where
  "hex_text n = (if n < 16 then [digit_char n] else hex_text (n div 16) @ [digit_char (n mod 16)])"

declare hex_text.simps [simp del]

definition debug_char :: "char \<Rightarrow> string" where
  "debug_char c = (let n = (of_char c :: nat) in
     if n = 0 then [CHR 0x5C, CHR ''0'']
     else if n = 9 then [CHR 0x5C, CHR ''t''] else if n = 10 then [CHR 0x5C, CHR ''n'']
     else if n = 13 then [CHR 0x5C, CHR ''r'']
     else if n = 34 \<or> n = 92 then [CHR 0x5C, c]
     else if n < 32 \<or> n = 127 then [CHR 0x5C] @ ''u{'' @ hex_text n @ ''}''
     else [c])"

definition debug_str :: "string \<Rightarrow> string" where
  "debug_str s = [CHR 0x22] @ concat (map debug_char s) @ [CHR 0x22]"

section \<open>What a plugin declares\<close>

datatype plugin_status = Installed | Loaded | Running | Stopped | Failed string

fun plugin_status_debug :: "plugin_status \<Rightarrow> string" where
  "plugin_status_debug Installed = ''Installed''"
| "plugin_status_debug Loaded = ''Loaded''"
| "plugin_status_debug Running = ''Running''"
| "plugin_status_debug Stopped = ''Stopped''"
| "plugin_status_debug (Failed s) = ''Failed('' @ debug_str s @ '')''"

record plugin_permission =
  pp_resource :: string
  pp_actions :: "string list"

record plugin_capability =
  pc_name :: string
  pc_description :: "string option"
  pc_version_req :: "string option"

record tool_declaration =
  td_name :: string
  td_description :: string
  td_permission_level :: string

record plugin_manifest =
  pm_name :: string
  pm_version :: string
  pm_description :: string
  pm_author :: "string option"
  pm_homepage :: "string option"
  pm_license :: "string option"
  pm_plugin_type :: string
  pm_entry_point :: "string option"
  pm_permissions :: "plugin_permission list"
  pm_min_api_version :: "string option"
  pm_capabilities :: "plugin_capability list"
  pm_tools :: "tool_declaration list"

definition plugin_manifest_default :: plugin_manifest where
  "plugin_manifest_default = \<lparr>pm_name = [], pm_version = ''1.0.0'', pm_description = [], pm_author = None,
     pm_homepage = None, pm_license = None, pm_plugin_type = ''static'', pm_entry_point = None, pm_permissions = [],
     pm_min_api_version = None, pm_capabilities = [], pm_tools = []\<rparr>"

record plugin_info =
  pi_plugin_id :: ls_id
  pi_manifest :: plugin_manifest
  pi_status :: plugin_status
  pi_loaded_at :: "int option"

definition plugin_info_default :: "ls_id \<Rightarrow> plugin_info" where
  "plugin_info_default fresh = \<lparr>pi_plugin_id = fresh, pi_manifest = plugin_manifest_default, pi_status = Installed,
     pi_loaded_at = None\<rparr>"

section \<open>Versions and dependencies\<close>

record ('r, 'v) semver =
  sv_parse_req :: "string \<Rightarrow> string + 'r"
  sv_parse_version :: "string \<Rightarrow> string + 'v"
  sv_matches :: "'r \<Rightarrow> 'v \<Rightarrow> bool"
  sv_cmp :: "'v \<Rightarrow> 'v \<Rightarrow> int"

datatype plugin_dep_type = Required | Optional | Dev

record plugin_dependency =
  pd_name :: string
  pd_version_req :: string
  pd_dep_type :: plugin_dep_type

record market_meta =
  mm_categories :: "string list"
  mm_tags :: "string list"
  mm_repository :: "string option"
  mm_readme :: "string option"
  mm_icon :: "string option"
  mm_screenshots :: "string list"
  mm_min_engine_version :: "string option"

definition market_meta_default :: market_meta where
  "market_meta_default = \<lparr>mm_categories = [], mm_tags = [], mm_repository = None, mm_readme = None, mm_icon = None,
     mm_screenshots = [], mm_min_engine_version = None\<rparr>"

record extended_manifest =
  em_base :: plugin_manifest
  em_market :: market_meta
  em_dependencies :: "plugin_dependency list"

definition extended_of :: "plugin_manifest \<Rightarrow> extended_manifest" where
  "extended_of base = \<lparr>em_base = base, em_market = market_meta_default, em_dependencies = []\<rparr>"

fun check_dependencies ::
  "('r, 'v) semver \<Rightarrow> (string, string) hmap \<Rightarrow> plugin_dependency list \<Rightarrow> plugin_dependency list" where
  "check_dependencies sv installed [] = []"
| "check_dependencies sv installed (d # deps) =
     (case hm_get installed (pd_name d) of
        None \<Rightarrow> d # check_dependencies sv installed deps
      | Some version_str \<Rightarrow>
     (case sv_parse_version sv version_str of
        Inl _ \<Rightarrow> d # check_dependencies sv installed deps
      | Inr version \<Rightarrow>
     (case sv_parse_req sv (pd_version_req d) of
        Inl _ \<Rightarrow> d # check_dependencies sv installed deps
      | Inr req \<Rightarrow> if \<not> sv_matches sv req version then d # check_dependencies sv installed deps
                  else check_dependencies sv installed deps)))"

definition validate_version_req :: "('r, 'v) semver \<Rightarrow> string \<Rightarrow> bool" where
  "validate_version_req sv req = (case sv_parse_req sv req of Inl _ \<Rightarrow> False | Inr _ \<Rightarrow> True)"

definition compare_versions :: "('r, 'v) semver \<Rightarrow> string \<Rightarrow> string \<Rightarrow> int option" where
  "compare_versions sv a b = (case sv_parse_version sv a of Inl _ \<Rightarrow> None
     | Inr va \<Rightarrow> (case sv_parse_version sv b of Inl _ \<Rightarrow> None | Inr vb \<Rightarrow> Some (sv_cmp sv va vb)))"

definition check_engine_compat :: "('r, 'v) semver \<Rightarrow> extended_manifest \<Rightarrow> string \<Rightarrow> unit ls_result" where
  "check_engine_compat sv m engine_version = (case mm_min_engine_version (em_market m) of
       None \<Rightarrow> Inr ()
     | Some req_str \<Rightarrow>
     (case sv_parse_req sv req_str of
        Inl e \<Rightarrow> Inl (Plugin (''invalid engine version req '' @ quoted req_str @ '': '' @ e))
      | Inr req \<Rightarrow>
     (case sv_parse_version sv engine_version of
        Inl e \<Rightarrow> Inl (Plugin (''invalid engine version '' @ quoted engine_version @ '': '' @ e))
      | Inr engine \<Rightarrow>
          if \<not> sv_matches sv req engine
          then Inl (Plugin (''plugin '' @ quoted (pm_name (em_base m)) @ '' requires engine version '' @ quoted req_str
                 @ '', current is '' @ quoted engine_version))
          else Inr ())))"

section \<open>Capabilities\<close>

definition manifest_has_capability :: "plugin_manifest \<Rightarrow> string \<Rightarrow> bool" where
  "manifest_has_capability m capability = list_ex (\<lambda>c. pc_name c = capability) (pm_capabilities m)"

definition capabilities :: "plugin_manifest \<Rightarrow> string list" where
  "capabilities m = map pc_name (pm_capabilities m)"

fun require_capabilities :: "plugin_manifest \<Rightarrow> string list \<Rightarrow> unit ls_result" where
  "require_capabilities m [] = Inr ()"
| "require_capabilities m (cap # required) =
     (if \<not> manifest_has_capability m cap
      then Inl (Plugin (''plugin '' @ quoted (pm_name m) @ '' missing required capability '' @ quoted cap))
      else require_capabilities m required)"

definition check_compat :: "('r, 'v) semver \<Rightarrow> plugin_capability \<Rightarrow> string \<Rightarrow> unit ls_result" where
  "check_compat sv provider consumer_version = (case pc_version_req provider of
       None \<Rightarrow> Inr ()
     | Some req_str \<Rightarrow>
     (case sv_parse_req sv req_str of
        Inl e \<Rightarrow> Inl (Plugin (''invalid version req '' @ quoted req_str @ '': '' @ e))
      | Inr req \<Rightarrow>
     (case sv_parse_version sv consumer_version of
        Inl e \<Rightarrow> Inl (Plugin (''invalid version '' @ quoted consumer_version @ '': '' @ e))
      | Inr ver \<Rightarrow>
          if \<not> sv_matches sv req ver
          then Inl (Plugin (''capability '' @ quoted (pc_name provider) @ '' requires version '' @ quoted req_str
                 @ '', consumer is '' @ quoted consumer_version))
          else Inr ())))"

section \<open>Permissions of plugins\<close>

definition declares :: "plugin_manifest \<Rightarrow> string \<Rightarrow> string \<Rightarrow> bool" where
  "declares m resource action = list_ex (\<lambda>p. pp_resource p = resource \<and> action \<in> set (pp_actions p)) (pm_permissions m)"

definition plugin_check_permission :: "plugin_manifest \<Rightarrow> string \<Rightarrow> string \<Rightarrow> unit ls_result" where
  "plugin_check_permission m resource action =
     (if declares m resource action then Inr ()
      else Inl (PermissionDenied (''plugin '' @ quoted (pm_name m) @ '' does not have permission '' @ quoted action
             @ '' on resource '' @ quoted resource)))"

fun check_actions :: "plugin_manifest \<Rightarrow> string \<Rightarrow> string list \<Rightarrow> unit ls_result" where
  "check_actions m resource [] = Inr ()"
| "check_actions m resource (a # as) = (case plugin_check_permission m resource a of
     Inl e \<Rightarrow> Inl e | Inr _ \<Rightarrow> check_actions m resource as)"

fun require_permissions :: "plugin_manifest \<Rightarrow> plugin_permission list \<Rightarrow> unit ls_result" where
  "require_permissions m [] = Inr ()"
| "require_permissions m (req # required) = (case check_actions m (pp_resource req) (pp_actions req) of
     Inl e \<Rightarrow> Inl e | Inr _ \<Rightarrow> require_permissions m required)"

definition check_api_version :: "plugin_manifest \<Rightarrow> string \<Rightarrow> unit ls_result" where
  "check_api_version m min_api_version = (case pm_min_api_version m of
       None \<Rightarrow> Inr ()
     | Some ver \<Rightarrow> if str_less min_api_version ver
         then Inl (Plugin (''plugin '' @ quoted (pm_name m) @ '' requires API version '' @ quoted ver
                @ '', but runtime only provides '' @ quoted min_api_version))
         else Inr ())"

section \<open>Loading\<close>

definition load_static :: "string \<Rightarrow> plugin_info \<Rightarrow> plugin_info ls_result" where
  "load_static api_version info = (case check_api_version (pi_manifest info) api_version of
     Inl e \<Rightarrow> Inl e | Inr _ \<Rightarrow> Inr (info\<lparr>pi_status := Loaded\<rparr>))"

text \<open>\<open>open_lib\<close> is what opening the shared library gives, \<open>created\<close> what the symbol \<open>create_plugin\<close> gives: the
  text of the error, or the information of the new plugin.\<close>

definition load_dynamic :: "string \<Rightarrow> string \<Rightarrow> string + unit \<Rightarrow> string + plugin_info \<Rightarrow> plugin_info ls_result" where
  "load_dynamic api_version path open_lib created = (case open_lib of
       Inl e \<Rightarrow> Inl (Plugin (''cannot load library '' @ quoted path @ '': '' @ e))
     | Inr _ \<Rightarrow>
     (case created of
        Inl e \<Rightarrow> Inl (Plugin (''symbol '' @ quoted ''create_plugin'' @ '' not found in '' @ quoted path @ '': '' @ e))
      | Inr info \<Rightarrow>
     (case check_api_version (pi_manifest info) api_version of
        Inl e \<Rightarrow> Inl e
      | Inr _ \<Rightarrow> Inr (info\<lparr>pi_status := Loaded\<rparr>))))"

section \<open>Facts\<close>

lemma check_actions_iff: "check_actions m resource as = Inr () \<longleftrightarrow> (\<forall>a \<in> set as. declares m resource a)"
  by (induction as) (auto simp: plugin_check_permission_def)

lemma require_permissions_iff:
  "require_permissions m req = Inr () \<longleftrightarrow> (\<forall>p \<in> set req. \<forall>a \<in> set (pp_actions p). declares m (pp_resource p) a)"
  by (induction req) (auto simp: check_actions_iff [symmetric] split: sum.splits)

lemma check_actions_error:
  "check_actions m resource as = Inl e \<Longrightarrow> \<exists>s. e = PermissionDenied s"
  by (induction as) (auto simp: plugin_check_permission_def split: if_splits)

lemma require_permissions_error:
  "require_permissions m req = Inl e \<Longrightarrow> \<exists>s. e = PermissionDenied s"
  by (induction req) (auto split: sum.splits dest: check_actions_error)

definition dependency_met :: "('r, 'v) semver \<Rightarrow> (string, string) hmap \<Rightarrow> plugin_dependency \<Rightarrow> bool" where
  "dependency_met sv installed d \<longleftrightarrow> (\<exists>vs v r. hm_get installed (pd_name d) = Some vs
     \<and> sv_parse_version sv vs = Inr v \<and> sv_parse_req sv (pd_version_req d) = Inr r \<and> sv_matches sv r v)"

lemma check_dependencies_eq:
  "check_dependencies sv installed deps = filter (\<lambda>d. \<not> dependency_met sv installed d) deps"
  by (induction deps) (auto simp: dependency_met_def split: option.split sum.split)

lemma str_less_irrefl [simp]: "\<not> str_less s s"
  by (induction s) auto

text \<open>Versions of the interface are compared as texts: a plugin that needs version 10 is accepted by a runtime of
  version 9.\<close>

lemma api_version_by_text:
  "check_api_version (plugin_manifest_default\<lparr>pm_min_api_version := Some ''10.0.0''\<rparr>) ''9.0.0'' = Inr ()"
  by (simp add: check_api_version_def plugin_manifest_default_def)

end
