(* ===== verification/Plugin_Events.thy ===== *)
theory Plugin_Events
  imports Plugin_Types
begin

text \<open>
  The plugin event system (\<open>plugin/src/event.rs\<close>): callbacks registered per type of event, and
  the bus that starts them.

  A callback is a number that names the closure. The bus starts every callback as a task of its
  own; what it has started is a list of its state. The counter of identifiers is a word and
  wraps.
\<close>

datatype event_type =
    PluginInstalled | PluginLoaded | PluginStarted | PluginStopped | PluginUninstalled | PluginFailed string
  | AgentCreated | AgentStarted | AgentCompleted | AgentFailed string
  | MessageReceived | MessageSent
  | FederationNodeJoined | FederationNodeLeft | FederationSyncComplete
  | MarketInstall | MarketSourceAdded | HotReloadStarted | HotReloadStopped | HotReloadPluginChanged

record event =
  ev_event_type :: event_type
  ev_timestamp :: int
  ev_source :: string
  ev_payload :: json

text \<open>\<open>payload\<close> is the value that \<open>serde_json::to_value\<close> gives, if it gives one.\<close>

definition event_new :: "int \<Rightarrow> event_type \<Rightarrow> string \<Rightarrow> json option \<Rightarrow> event" where
  "event_new now ty source payload = \<lparr>ev_event_type = ty, ev_timestamp = now, ev_source = source,
     ev_payload = (case payload of None \<Rightarrow> Null | Some j \<Rightarrow> j)\<rparr>"

section \<open>The registrar\<close>

type_synonym callback = nat

record handler_entry =
  he_id :: "64 word"
  he_callback :: callback
  he_description :: string

record registrar =
  rg_handlers :: "(event_type, handler_entry list) hmap"
  rg_next_id :: "64 word"

definition registrar_new :: registrar where
  "registrar_new = \<lparr>rg_handlers = [], rg_next_id = 1\<rparr>"

definition handlers_of :: "event_type \<Rightarrow> registrar \<Rightarrow> handler_entry list" where
  "handlers_of ty r = (case hm_get (rg_handlers r) ty of None \<Rightarrow> [] | Some es \<Rightarrow> es)"

definition handler_register :: "event_type \<Rightarrow> callback \<Rightarrow> string \<Rightarrow> registrar \<Rightarrow> 64 word \<times> registrar" where
  "handler_register ty cb description r =
     (let i = rg_next_id r;
          e = \<lparr>he_id = i, he_callback = cb, he_description = description\<rparr>
      in (i, \<lparr>rg_handlers = hm_insert ty (handlers_of ty r @ [e]) (rg_handlers r), rg_next_id = i + 1\<rparr>))"

text \<open>\<open>Iterator::position\<close> and \<open>Vec::swap_remove\<close>, which puts the last element in the place of the removed one.\<close>

fun position :: "('a \<Rightarrow> bool) \<Rightarrow> 'a list \<Rightarrow> nat option" where
  "position P [] = None"
| "position P (x # xs) = (if P x then Some 0 else map_option Suc (position P xs))"

definition swap_remove :: "nat \<Rightarrow> 'a list \<Rightarrow> 'a list" where
  "swap_remove n xs = butlast (xs[n := last xs])"

fun remove_handler :: "64 word \<Rightarrow> (event_type \<times> handler_entry list) list \<Rightarrow> bool \<times> (event_type \<times> handler_entry list) list" where
  "remove_handler i [] = (False, [])"
| "remove_handler i ((ty, es) # m) = (case position (\<lambda>e. he_id e = i) es of
       Some pos \<Rightarrow> (True, (ty, swap_remove pos es) # m)
     | None \<Rightarrow> (let (found, m') = remove_handler i m in (found, (ty, es) # m')))"

definition handler_unregister :: "64 word \<Rightarrow> registrar \<Rightarrow> bool \<times> registrar" where
  "handler_unregister i r = (let (found, m) = remove_handler i (rg_handlers r) in (found, r\<lparr>rg_handlers := m\<rparr>))"

definition registrar_clear :: "event_type \<Rightarrow> registrar \<Rightarrow> registrar" where
  "registrar_clear ty r = r\<lparr>rg_handlers := hm_remove ty (rg_handlers r)\<rparr>"

definition registrar_clear_all :: "registrar \<Rightarrow> registrar" where
  "registrar_clear_all r = r\<lparr>rg_handlers := []\<rparr>"

definition callbacks_for :: "event_type \<Rightarrow> registrar \<Rightarrow> callback list" where
  "callbacks_for ty r = map he_callback (handlers_of ty r)"

definition registrar_stats :: "registrar \<Rightarrow> (event_type, nat) hmap" where
  "registrar_stats r = hm_map_values (\<lambda>_ es. length es) (rg_handlers r)"

section \<open>The bus\<close>

record event_bus =
  eb_registrar :: registrar
  eb_spawned :: "(callback \<times> event) list"

definition event_bus_new :: event_bus where
  "event_bus_new = \<lparr>eb_registrar = registrar_new, eb_spawned = []\<rparr>"

definition publish_event :: "event \<Rightarrow> event_bus \<Rightarrow> event_bus" where
  "publish_event e b = b\<lparr>eb_spawned := eb_spawned b
     @ map (\<lambda>cb. (cb, e)) (callbacks_for (ev_event_type e) (eb_registrar b))\<rparr>"

section \<open>Facts\<close>

lemma position_None: "position P xs = None \<longleftrightarrow> (\<forall>x \<in> set xs. \<not> P x)"
  by (induction xs) auto

lemma position_Some: "position P xs = Some n \<Longrightarrow> n < length xs \<and> P (xs ! n)"
  by (induction xs arbitrary: n) (auto split: if_splits)

lemma mset_swap_remove: "n < length xs \<Longrightarrow> mset (swap_remove n xs) = mset xs - {#xs ! n#}"
proof -
  assume n: "n < length xs"
  then obtain ys y where xs: "xs = ys @ [y]" by (cases xs rule: rev_exhaust) auto
  show ?thesis
  proof (cases "n = length ys")
    case True
    with xs show ?thesis by (simp add: swap_remove_def)
  next
    case False
    with n xs have lt: "n < length ys" by simp
    then have "mset (swap_remove n xs) = add_mset y (mset ys) - {#ys ! n#}"
      by (simp add: swap_remove_def xs list_update_append mset_update nth_append butlast_append)
    with lt xs show ?thesis by (simp add: nth_append)
  qed
qed

lemma remove_handler_keys: "hm_keys (snd (remove_handler i m)) = hm_keys m"
  by (induction i m rule: remove_handler.induct) (auto split: option.split prod.split)

text \<open>All handlers of a registrar, and the ones of a type without the handler \<open>i\<close>.\<close>

definition handler_ids :: "(event_type, handler_entry list) hmap \<Rightarrow> 64 word list" where
  "handler_ids m = concat (map (\<lambda>(ty, es). map he_id es) m)"

definition without :: "64 word \<Rightarrow> handler_entry list \<Rightarrow> handler_entry multiset" where
  "without i es = filter_mset (\<lambda>e. he_id e \<noteq> i) (mset es)"

lemma without_absent: "i \<notin> he_id ` set es \<Longrightarrow> without i es = mset es"
  by (auto simp: without_def filter_mset_eq_conv)

lemma without_one:
  assumes "distinct (map he_id es)" "n < length es" "he_id (es ! n) = i"
  shows "without i es = mset es - {#es ! n#}"
proof -
  have es: "es = take n es @ es ! n # drop (Suc n) es" using assms(2) by (rule id_take_nth_drop)
  have dist: "distinct (map he_id (take n es) @ he_id (es ! n) # map he_id (drop (Suc n) es))"
    using assms(1) es by (metis list.simps(9) map_append)
  then have "i \<notin> he_id ` set (take n es)" "i \<notin> he_id ` set (drop (Suc n) es)" using assms(3) by auto
  then have "without i (take n es @ es ! n # drop (Suc n) es) = mset (take n es) + mset (drop (Suc n) es)"
    using assms(3) by (simp add: without_def without_absent [unfolded without_def])
  then show ?thesis using es by (metis add_mset_remove_trivial mset.simps(2) mset_append union_mset_add_mset_right)
qed

lemma swap_remove_without:
  assumes "distinct (map he_id es)" "position (\<lambda>e. he_id e = i) es = Some n"
  shows "mset (swap_remove n es) = without i es"
  using position_Some [OF assms(2)] without_one [OF assms(1), of n i] by (simp add: mset_swap_remove)

lemma image_without: "image_mset he_id (without i es) = filter_mset (\<lambda>j. j \<noteq> i) (mset (map he_id es))"
  by (induction es) (auto simp: without_def)

lemma handler_ids_Cons [simp]: "handler_ids ((ty, es) # m) = map he_id es @ handler_ids m"
  by (simp add: handler_ids_def)

lemma handler_ids_Nil [simp]: "handler_ids [] = []"
  by (simp add: handler_ids_def)

lemma handler_ids_get: "hm_get m ty = Some es \<Longrightarrow> he_id ` set es \<subseteq> set (handler_ids m)"
  by (induction m) (auto split: if_splits)

lemma remove_handler_exact:
  assumes "distinct (handler_ids m)" "hm_ok m"
  shows "fst (remove_handler i m) \<longleftrightarrow> i \<in> set (handler_ids m)"
    and "mset (handler_ids (snd (remove_handler i m))) = filter_mset (\<lambda>j. j \<noteq> i) (mset (handler_ids m))"
    and "rel_option (\<lambda>es' es. mset es' = without i es) (hm_get (snd (remove_handler i m)) ty) (hm_get m ty)"
proof -
  have "(fst (remove_handler i m) \<longleftrightarrow> i \<in> set (handler_ids m))
    \<and> mset (handler_ids (snd (remove_handler i m))) = filter_mset (\<lambda>j. j \<noteq> i) (mset (handler_ids m))
    \<and> rel_option (\<lambda>es' es. mset es' = without i es) (hm_get (snd (remove_handler i m)) ty) (hm_get m ty)"
    using assms
  proof (induction m)
    case Nil
    then show ?case by simp
  next
    case (Cons kv m)
    obtain k es where kv: "kv = (k, es)" by (cases kv)
    from Cons.prems kv have dist: "distinct (map he_id es)" "distinct (handler_ids m)" "hm_ok m"
      and disj: "he_id ` set es \<inter> set (handler_ids m) = {}" by auto
    show ?case
    proof (cases "position (\<lambda>e. he_id e = i) es")
      case (Some n)
      from position_Some [OF Some] have i: "i \<in> he_id ` set es" by auto
      with disj have absent: "i \<notin> set (handler_ids m)" by auto
      have rest: "hm_get m ty = Some es' \<Longrightarrow> without i es' = mset es'" for es'
        using handler_ids_get [of m ty es'] absent by (intro without_absent) auto
      have ids: "filter_mset (\<lambda>j. j \<noteq> i) (mset (handler_ids m)) = mset (handler_ids m)"
        using absent by (auto simp: filter_mset_eq_conv)
      have "image_mset he_id (mset (swap_remove n es)) = filter_mset (\<lambda>j. j \<noteq> i) (image_mset he_id (mset es))"
        using swap_remove_without [OF dist(1) Some] image_without [of i es] by simp
      then show ?thesis using Some kv i ids rest swap_remove_without [OF dist(1) Some]
        by (auto simp: rel_option_iff split: option.splits)
    next
      case None
      then have i: "i \<notin> he_id ` set es" by (auto simp: position_None)
      then have same: "without i es = mset es" by (rule without_absent)
      have ids: "filter_mset (\<lambda>j. j \<noteq> i) (image_mset he_id (mset es)) = image_mset he_id (mset es)"
        using i by (auto simp: filter_mset_eq_conv)
      show ?thesis using Cons.IH [OF dist(2,3)] None kv i ids same
        by (auto split: prod.splits)
    qed
  qed
  then show "fst (remove_handler i m) \<longleftrightarrow> i \<in> set (handler_ids m)"
    and "mset (handler_ids (snd (remove_handler i m))) = filter_mset (\<lambda>j. j \<noteq> i) (mset (handler_ids m))"
    and "rel_option (\<lambda>es' es. mset es' = without i es) (hm_get (snd (remove_handler i m)) ty) (hm_get m ty)" by blast+
qed

section \<open>The registrar under any sequence of operations\<close>

text \<open>A registrar together with the number of registrations so far, which the code does not count.\<close>

inductive registrar_step :: "nat \<times> registrar \<Rightarrow> nat \<times> registrar \<Rightarrow> bool" where
  rg_register: "handler_register ty cb description r = (i, r') \<Longrightarrow> registrar_step (n, r) (Suc n, r')"
| rg_unregister: "handler_unregister i r = (b, r') \<Longrightarrow> registrar_step (n, r) (n, r')"
| rg_clear: "registrar_step (n, r) (n, registrar_clear ty r)"
| rg_clear_all: "registrar_step (n, r) (n, registrar_clear_all r)"

definition registrar_init :: "nat \<times> registrar \<Rightarrow> bool" where
  "registrar_init s \<longleftrightarrow> s = (0, registrar_new)"

text \<open>Before the counter wraps, the identifiers in use are different and smaller than the next one.\<close>

definition registrar_inv :: "nat \<times> registrar \<Rightarrow> bool" where
  "registrar_inv s = (case s of (n, r) \<Rightarrow> hm_ok (rg_handlers r) \<and> rg_next_id r = of_nat (Suc n)
     \<and> (Suc n < 2 ^ 64 \<longrightarrow> distinct (handler_ids (rg_handlers r))
          \<and> (\<forall>i \<in> set (handler_ids (rg_handlers r)). unat i \<le> n)))"

lemma mset_handler_ids_insert:
  assumes "hm_ok m"
  shows "mset (handler_ids (hm_insert ty (es @ [e]) m)) + mset (map he_id (case hm_get m ty of None \<Rightarrow> [] | Some es' \<Rightarrow> es'))
    = mset (handler_ids m) + mset (map he_id (es @ [e]))"
  using assms by (induction m) (auto simp: hm_get_None [THEN iffD2])

lemma handler_ids_register:
  assumes "hm_ok (rg_handlers r)" "handler_register ty cb description r = (i, r')"
  shows "mset (handler_ids (rg_handlers r')) = add_mset i (mset (handler_ids (rg_handlers r)))" "i = rg_next_id r"
    "rg_next_id r' = rg_next_id r + 1" "hm_ok (rg_handlers r')"
proof -
  show "i = rg_next_id r" "rg_next_id r' = rg_next_id r + 1" "hm_ok (rg_handlers r')"
    using assms by (auto simp: handler_register_def Let_def)
  let ?e = "\<lparr>he_id = i, he_callback = cb, he_description = description\<rparr>"
  have "rg_handlers r' = hm_insert ty (handlers_of ty r @ [?e]) (rg_handlers r)"
    using assms(2) by (auto simp: handler_register_def Let_def)
  then show "mset (handler_ids (rg_handlers r')) = add_mset i (mset (handler_ids (rg_handlers r)))"
    using mset_handler_ids_insert [OF assms(1), of ty "handlers_of ty r" ?e] by (simp add: handlers_of_def)
qed

lemma handler_ids_remove: "mset (handler_ids (hm_remove ty m)) \<subseteq># mset (handler_ids m)"
proof (induction m)
  case (Cons kv m)
  then show ?case by (cases kv) (auto intro: subset_mset.trans [OF _ mset_subset_eq_add_right] subset_mset.add_left_mono)
qed simp

lemma distinct_submset: "mset xs \<subseteq># mset ys \<Longrightarrow> distinct ys \<Longrightarrow> distinct xs"
proof -
  assume "mset xs \<subseteq># mset ys" and d: "distinct ys"
  then obtain z where "mset ys = mset xs + z" by (auto simp: mset_subset_eq_exists_conv)
  moreover obtain zs where "z = mset zs" by (metis ex_mset)
  ultimately have "mset ys = mset (xs @ zs)" by simp
  with d have "distinct (xs @ zs)" by (blast dest: mset_eq_imp_distinct_iff)
  then show "distinct xs" by simp
qed

lemma registrar_inv_step: "registrar_inv s \<Longrightarrow> registrar_step s t \<Longrightarrow> registrar_inv t"
proof -
  have smaller: "registrar_inv (n, r\<lparr>rg_handlers := m\<rparr>)"
    if inv: "registrar_inv (n, r)" and ok: "hm_ok m" and sub: "mset (handler_ids m) \<subseteq># mset (handler_ids (rg_handlers r))"
    for n r m
  proof -
    have "set (handler_ids m) \<subseteq> set (handler_ids (rg_handlers r))" using set_mset_mono [OF sub] by simp
    then show ?thesis using inv ok distinct_submset [OF sub] by (auto simp: registrar_inv_def)
  qed
  assume inv: "registrar_inv s" and step: "registrar_step s t"
  from step show "registrar_inv t"
  proof cases
    case (rg_register ty cb description r i r' n)
    from inv rg_register have ok: "hm_ok (rg_handlers r)" and nxt: "rg_next_id r = of_nat (Suc n)"
      by (auto simp: registrar_inv_def)
    note ids = handler_ids_register [OF ok rg_register(3)]
    have "distinct (handler_ids (rg_handlers r')) \<and> (\<forall>j \<in> set (handler_ids (rg_handlers r')). unat j \<le> Suc n)"
      if n: "Suc (Suc n) < 2 ^ 64"
    proof -
      have i: "unat i = Suc n" unfolding ids(2) nxt by (rule of_nat_inverse) (use n in simp_all)
      from inv rg_register n have d: "distinct (handler_ids (rg_handlers r))"
        and le: "\<forall>j \<in> set (handler_ids (rg_handlers r)). unat j \<le> n" by (auto simp: registrar_inv_def)
      have eq: "mset (handler_ids (rg_handlers r')) = mset (i # handler_ids (rg_handlers r))" by (simp add: ids(1))
      have "i \<notin> set (handler_ids (rg_handlers r))" using le i by auto
      with d mset_eq_imp_distinct_iff [OF eq] have "distinct (handler_ids (rg_handlers r'))" by simp
      moreover from mset_eq_setD [OF eq]
      have "set (handler_ids (rg_handlers r')) = insert i (set (handler_ids (rg_handlers r)))" by simp
      ultimately
      show ?thesis using le i by auto
    qed
    then show ?thesis using rg_register ids nxt by (simp add: registrar_inv_def)
  next
    case (rg_unregister i r b r' n)
    then have r': "r' = r\<lparr>rg_handlers := snd (remove_handler i (rg_handlers r))\<rparr>"
      by (auto simp: handler_unregister_def split: prod.splits)
    have ok: "hm_ok (snd (remove_handler i (rg_handlers r)))"
      using inv rg_unregister by (simp add: registrar_inv_def hm_ok_def remove_handler_keys)
    show ?thesis
    proof (cases "Suc n < 2 ^ 64")
      case True
      then have "distinct (handler_ids (rg_handlers r))" "hm_ok (rg_handlers r)"
        using inv rg_unregister by (auto simp: registrar_inv_def)
      from remove_handler_exact(2) [OF this, of i]
      have "mset (handler_ids (snd (remove_handler i (rg_handlers r)))) \<subseteq># mset (handler_ids (rg_handlers r))"
        by (simp add: multiset_filter_subset)
      with smaller [of n r] inv ok rg_unregister r' show ?thesis by simp
    next
      case False
      with inv ok rg_unregister r' show ?thesis by (simp add: registrar_inv_def)
    qed
  next
    case (rg_clear n r ty)
    with inv have here: "registrar_inv (n, r)" and "hm_ok (hm_remove ty (rg_handlers r))"
      by (simp_all add: registrar_inv_def)
    from smaller [OF this handler_ids_remove] rg_clear show ?thesis by (simp add: registrar_clear_def)
  next
    case (rg_clear_all n r)
    with inv show ?thesis by (simp add: registrar_clear_all_def registrar_inv_def)
  qed
qed

interpretation registrar_machine: machine registrar_init registrar_step registrar_inv
proof
  show "registrar_init s \<Longrightarrow> registrar_inv s" for s
    by (simp add: registrar_init_def registrar_new_def registrar_inv_def)
qed (rule registrar_inv_step)

text \<open>As long as fewer than 2 to the 64 minus one callbacks have been registered, the identifier a
  registration returns is used by no other callback; unregistering it removes exactly that callback,
  whatever callbacks were registered or removed between; and publishing an event starts exactly the callbacks
  registered for its type.\<close>

theorem registrar_exact:
  assumes "reaches registrar_init registrar_step (n, r)" "Suc n < 2 ^ 64"
  shows "(handler_register ty cb description r = (i, r') \<longrightarrow>
          i \<notin> set (handler_ids (rg_handlers r)) \<and> callbacks_for ty r' = callbacks_for ty r @ [cb])
    \<and> (handler_unregister i r = (found, r') \<longrightarrow>
          (found \<longleftrightarrow> i \<in> set (handler_ids (rg_handlers r)))
          \<and> mset (handlers_of ty r') = filter_mset (\<lambda>e. he_id e \<noteq> i) (mset (handlers_of ty r)))
    \<and> (eb_registrar b = r \<longrightarrow> eb_spawned (publish_event e b) = eb_spawned b
          @ map (\<lambda>h. (he_callback h, e)) (handlers_of (ev_event_type e) r))"
proof -
  from registrar_machine.reaches_inv [OF assms(1)] assms(2)
  have ok: "hm_ok (rg_handlers r)" and d: "distinct (handler_ids (rg_handlers r))"
    and le: "\<forall>j \<in> set (handler_ids (rg_handlers r)). unat j \<le> n" and nxt: "rg_next_id r = of_nat (Suc n)"
    by (auto simp: registrar_inv_def)
  have i: "unat (rg_next_id r) = Suc n" unfolding nxt by (rule of_nat_inverse) (use assms(2) in simp_all)
  have "rg_next_id r \<notin> set (handler_ids (rg_handlers r))" using le i by auto
  moreover have "mset (handlers_of ty r') = without i (handlers_of ty r) \<and> (found \<longleftrightarrow> i \<in> set (handler_ids (rg_handlers r)))"
    if u: "handler_unregister i r = (found, r')"
  proof -
    have "found = fst (remove_handler i (rg_handlers r))" "rg_handlers r' = snd (remove_handler i (rg_handlers r))"
      using u by (auto simp: handler_unregister_def split: prod.splits)
    with remove_handler_exact(1) [OF d ok, of i] remove_handler_exact(3) [OF d ok, of i ty] show ?thesis
      by (cases "hm_get (rg_handlers r) ty"; cases "hm_get (rg_handlers r') ty") (auto simp: handlers_of_def without_def)
  qed
  ultimately show ?thesis
    by (auto simp: handler_register_def Let_def callbacks_for_def handlers_of_def publish_event_def without_def)
qed

theorem registrar_exact_witness:
  "handler_unregister 1 (snd (handler_register MessageSent 7 ''log'' registrar_new))
     = (True, \<lparr>rg_handlers = [(MessageSent, [])], rg_next_id = 2\<rparr>)
   \<and> (1 :: 64 word) \<notin> set (handler_ids (rg_handlers registrar_new))"
proof -
  let ?r = "snd (handler_register MessageSent 7 ''log'' registrar_new)"
  have init: "reaches registrar_init registrar_step (0, registrar_new)"
    by (rule reaches_init) (simp add: registrar_init_def)
  from registrar_exact [OF init, of MessageSent 7 "''log''" 1 ?r]
  have "(1 :: 64 word) \<notin> set (handler_ids (rg_handlers registrar_new))"
    by (simp add: handler_register_def registrar_new_def)
  then show ?thesis
    by (simp add: handler_register_def registrar_new_def handlers_of_def handler_unregister_def swap_remove_def)
qed

end
