(* ===== verification/Plugin_Registry.thy ===== *)
theory Plugin_Registry
  imports Plugin_Events Tool_Props
begin

text \<open>
  The plugin registry (\<open>plugin/src/lib.rs\<close>): registration with the plugin's tools, the life
  cycle, dependencies.

  What a plugin answers (its information, the tools it provides, the permissions it requires,
  whether it starts) is an argument of the operation that asks it, because a plugin may keep a
  state of its own; so an entry of the registry is the information. Every operation holds the
  lock of the registry from its first look to its end, hence is one step;
  \<open>register_with_deps\<close> is two.
\<close>

section \<open>The tool cache\<close>

type_synonym tool_cache = "(string, tool) hmap"

definition tool_cache_get :: "string \<Rightarrow> tool_cache \<Rightarrow> tool option" where
  "tool_cache_get name c = hm_get c name"

definition tool_cache_insert :: "string \<Rightarrow> tool \<Rightarrow> tool_cache \<Rightarrow> tool_cache" where
  "tool_cache_insert name t c = hm_insert name t c"

definition tool_cache_extend :: "(string \<times> tool) list \<Rightarrow> tool_cache \<Rightarrow> tool_cache" where
  "tool_cache_extend tools c = fold (\<lambda>(name, t). tool_cache_insert name t) tools c"

definition tool_cache_remove :: "string \<Rightarrow> tool_cache \<Rightarrow> tool option \<times> tool_cache" where
  "tool_cache_remove name c = (hm_get c name, hm_remove name c)"

section \<open>The registry\<close>

record plugin_registry =
  pr_plugins :: "(ls_id, plugin_info) hmap"
  pr_event_bus :: event_bus
  pr_tool_registry :: "tool_registry option"
  pr_tool_cache :: tool_cache

definition plugin_registry_new :: plugin_registry where
  "plugin_registry_new = \<lparr>pr_plugins = [], pr_event_bus = event_bus_new, pr_tool_registry = None, pr_tool_cache = []\<rparr>"

definition plugin_registry_with_bus :: "event_bus \<Rightarrow> plugin_registry" where
  "plugin_registry_with_bus b = \<lparr>pr_plugins = [], pr_event_bus = b, pr_tool_registry = None, pr_tool_cache = []\<rparr>"

definition with_tool_registry :: "tool_registry \<Rightarrow> plugin_registry \<Rightarrow> plugin_registry" where
  "with_tool_registry t r = r\<lparr>pr_tool_registry := Some t\<rparr>"

text \<open>The event of a plugin, and publishing it on the registry's bus.\<close>

definition plugin_event :: "int \<Rightarrow> event_type \<Rightarrow> ls_id \<Rightarrow> string \<Rightarrow> event" where
  "plugin_event now ty i name = event_new now ty (''plugin:'' @ name)
     (Some (Object [(''plugin_id'', Str (show_id i)), (''name'', Str name)]))"

definition announce :: "int \<Rightarrow> event_type \<Rightarrow> ls_id \<Rightarrow> string \<Rightarrow> plugin_registry \<Rightarrow> plugin_registry" where
  "announce now ty i name r = r\<lparr>pr_event_bus := publish_event (plugin_event now ty i name) (pr_event_bus r)\<rparr>"

text \<open>The loop over the tools a plugin provides: each is registered and cached.\<close>

definition add_tool :: "tool \<Rightarrow> tool_registry \<times> tool_cache \<Rightarrow> tool_registry \<times> tool_cache" where
  "add_tool t = (\<lambda>(treg, c). (tool_register t treg, tool_cache_insert (ti_name (tl_info t)) t c))"

definition register_tools :: "tool list option \<Rightarrow> plugin_registry \<Rightarrow> plugin_registry" where
  "register_tools provided r = (case pr_tool_registry r of
       None \<Rightarrow> r
     | Some treg \<Rightarrow> (case provided of
         None \<Rightarrow> r
       | Some tools \<Rightarrow>
           (let (treg', c') = fold add_tool tools (treg, pr_tool_cache r)
            in r\<lparr>pr_tool_registry := Some treg', pr_tool_cache := c'\<rparr>)))"

definition plugin_register ::
  "int \<Rightarrow> plugin_info \<Rightarrow> tool list option \<Rightarrow> plugin_registry \<Rightarrow> ls_id ls_result \<times> plugin_registry" where
  "plugin_register now info provided r =
     (let i = pi_plugin_id info; name = pm_name (pi_manifest info)
      in if hm_has i (pr_plugins r)
         then (Inl (AlreadyExists (''plugin '' @ quoted name @ '' already registered'')), r)
         else
           (let r1 = r\<lparr>pr_plugins := hm_insert i (info\<lparr>pi_status := Installed, pi_loaded_at := Some now\<rparr>) (pr_plugins r)\<rparr>
            in (Inr i, announce now PluginInstalled i name (register_tools provided r1))))"

definition get_info :: "ls_id \<Rightarrow> plugin_registry \<Rightarrow> plugin_info ls_result" where
  "get_info i r = ok_or (PluginNotFound (show_id i)) (hm_get (pr_plugins r) i)"

definition list_plugins :: "plugin_registry \<Rightarrow> plugin_info list" where
  "list_plugins r = hm_values (pr_plugins r)"

definition search_plugins :: "string \<Rightarrow> plugin_registry \<Rightarrow> plugin_info list" where
  "search_plugins query r = filter (\<lambda>info. contains_str (pm_name (pi_manifest info)) query
     \<or> contains_str (show_id (pi_plugin_id info)) query) (hm_values (pr_plugins r))"

definition plugins_by_capability :: "string \<Rightarrow> plugin_registry \<Rightarrow> plugin_info list" where
  "plugins_by_capability capability r = filter (\<lambda>info. manifest_has_capability (pi_manifest info) capability) (hm_values (pr_plugins r))"

definition set_plugin_status :: "ls_id \<Rightarrow> plugin_status \<Rightarrow> plugin_registry \<Rightarrow> plugin_registry" where
  "set_plugin_status i st r = r\<lparr>pr_plugins := hm_modify i (\<lambda>info. info\<lparr>pi_status := st\<rparr>) (pr_plugins r)\<rparr>"

definition init_plugin ::
  "int \<Rightarrow> ls_id \<Rightarrow> plugin_permission list \<Rightarrow> unit ls_result \<Rightarrow> plugin_registry \<Rightarrow> unit ls_result \<times> plugin_registry" where
  "init_plugin now i required outcome r = (case hm_get (pr_plugins r) i of
       None \<Rightarrow> (Inl (PluginNotFound (show_id i)), r)
     | Some info \<Rightarrow>
         if pi_status info \<noteq> Installed \<and> pi_status info \<noteq> Loaded
         then (Inl (Plugin (''plugin '' @ quoted (pm_name (pi_manifest info)) @ '' cannot be initialized from state ''
                 @ plugin_status_debug (pi_status info))), r)
         else (case require_permissions (pi_manifest info) required of
              Inl e \<Rightarrow> (Inl e, r)
            | Inr _ \<Rightarrow> (case outcome of
                Inl e \<Rightarrow> (Inl e, r)
              | Inr _ \<Rightarrow> (Inr (), announce now PluginLoaded i (pm_name (pi_manifest info)) (set_plugin_status i Loaded r)))))"

definition start_plugin ::
  "int \<Rightarrow> ls_id \<Rightarrow> unit ls_result \<Rightarrow> plugin_registry \<Rightarrow> unit ls_result \<times> plugin_registry" where
  "start_plugin now i outcome r = (case hm_get (pr_plugins r) i of
       None \<Rightarrow> (Inl (PluginNotFound (show_id i)), r)
     | Some info \<Rightarrow>
         if pi_status info \<noteq> Loaded
         then (Inl (Plugin (''plugin '' @ quoted (pm_name (pi_manifest info)) @ '' not loaded (state: ''
                 @ plugin_status_debug (pi_status info) @ '')'')), r)
         else (case outcome of
                Inl e \<Rightarrow> (Inl e, r)
              | Inr _ \<Rightarrow> (Inr (), announce now PluginStarted i (pm_name (pi_manifest info)) (set_plugin_status i Running r))))"

definition stop_plugin ::
  "int \<Rightarrow> ls_id \<Rightarrow> unit ls_result \<Rightarrow> plugin_registry \<Rightarrow> unit ls_result \<times> plugin_registry" where
  "stop_plugin now i outcome r = (case hm_get (pr_plugins r) i of
       None \<Rightarrow> (Inl (PluginNotFound (show_id i)), r)
     | Some info \<Rightarrow>
         if pi_status info \<noteq> Running
         then (Inl (Plugin (''plugin '' @ quoted (pm_name (pi_manifest info)) @ '' is not running (state: ''
                 @ plugin_status_debug (pi_status info) @ '')'')), r)
         else (case outcome of
                Inl e \<Rightarrow> (Inl e, r)
              | Inr _ \<Rightarrow> (Inr (), announce now PluginStopped i (pm_name (pi_manifest info)) (set_plugin_status i Stopped r))))"

definition drop_tool :: "tool_declaration \<Rightarrow> tool_registry \<times> tool_cache \<Rightarrow> tool_registry \<times> tool_cache" where
  "drop_tool d = (\<lambda>(treg, c). (snd (tool_unregister (td_name d) treg), snd (tool_cache_remove (td_name d) c)))"

definition plugin_unregister :: "int \<Rightarrow> ls_id \<Rightarrow> plugin_registry \<Rightarrow> unit ls_result \<times> plugin_registry" where
  "plugin_unregister now i r = (case hm_get (pr_plugins r) i of
       None \<Rightarrow> (Inl (PluginNotFound (show_id i)), r)
     | Some removed \<Rightarrow>
         (let r1 = r\<lparr>pr_plugins := hm_remove i (pr_plugins r)\<rparr>;
              r2 = (case pr_tool_registry r1 of
                  None \<Rightarrow> r1
                | Some treg \<Rightarrow>
                    (let (treg', c') = fold drop_tool (pm_tools (pi_manifest removed)) (treg, pr_tool_cache r1)
                     in r1\<lparr>pr_tool_registry := Some treg', pr_tool_cache := c'\<rparr>))
          in (Inr (), announce now PluginUninstalled i (pm_name (pi_manifest removed)) r2)))"

text \<open>A closure on a plugin: \<open>answer\<close> is what it returns for it.\<close>

definition with_plugin :: "ls_id \<Rightarrow> 'a ls_result \<Rightarrow> plugin_registry \<Rightarrow> 'a ls_result" where
  "with_plugin i answer r = (if hm_has i (pr_plugins r) then answer else Inl (PluginNotFound (show_id i)))"

definition plugin_count :: "plugin_registry \<Rightarrow> nat" where
  "plugin_count r = length (pr_plugins r)"

text \<open>The dependencies are checked against the state \<open>r0\<close>; the lock is released, and the registration finds the
  state \<open>r\<close>.\<close>

definition installed_versions :: "plugin_registry \<Rightarrow> (string, string) hmap" where
  "installed_versions r = fold (\<lambda>info. hm_insert (pm_name (pi_manifest info)) (pm_version (pi_manifest info)))
     (hm_values (pr_plugins r)) []"

definition register_with_deps ::
  "('r, 'v) semver \<Rightarrow> int \<Rightarrow> plugin_info \<Rightarrow> tool list option \<Rightarrow> plugin_dependency list \<Rightarrow> plugin_registry \<Rightarrow>
   plugin_registry \<Rightarrow> ls_id ls_result \<times> plugin_registry" where
  "register_with_deps sv now info provided deps r0 r =
     (let unsatisfied = check_dependencies sv (installed_versions r0) deps
      in if unsatisfied \<noteq> []
         then (Inl (Plugin (''unsatisfied dependencies: ''
                 @ join_str '', '' (map (\<lambda>d. pd_name d @ '' ('' @ pd_version_req d @ '')'') unsatisfied))), r)
         else plugin_register now info provided r)"

definition info_by_name :: "string \<Rightarrow> plugin_registry \<Rightarrow> plugin_info ls_result" where
  "info_by_name name r = ok_or (PluginNotFound name)
     (find (\<lambda>info. pm_name (pi_manifest info) = name) (hm_values (pr_plugins r)))"

definition list_by_version :: "('r, 'v) semver \<Rightarrow> string \<Rightarrow> plugin_registry \<Rightarrow> plugin_info list" where
  "list_by_version sv version_req r = filter (\<lambda>info. case sv_parse_req sv version_req of
       Inl _ \<Rightarrow> False
     | Inr req \<Rightarrow> (case sv_parse_version sv (pm_version (pi_manifest info)) of
         Inl _ \<Rightarrow> False | Inr v \<Rightarrow> sv_matches sv req v)) (hm_values (pr_plugins r))"

fun register_batch ::
  "int \<Rightarrow> (plugin_info \<times> tool list option) list \<Rightarrow> plugin_registry \<Rightarrow> ls_id list ls_result \<times> plugin_registry" where
  "register_batch now [] r = (Inr [], r)"
| "register_batch now ((info, provided) # ps) r = (case plugin_register now info provided r of
       (Inl e, r1) \<Rightarrow> (Inl e, r1)
     | (Inr i, r1) \<Rightarrow> (case register_batch now ps r1 of
         (Inl e, r2) \<Rightarrow> (Inl e, r2)
       | (Inr ids, r2) \<Rightarrow> (Inr (i # ids), r2)))"

definition is_name_registered :: "string \<Rightarrow> plugin_registry \<Rightarrow> bool" where
  "is_name_registered name r = list_ex (\<lambda>info. pm_name (pi_manifest info) = name) (hm_values (pr_plugins r))"

text \<open>A static plugin: its operations succeed and it requires what it declares.\<close>

definition static_required :: "plugin_info \<Rightarrow> plugin_permission list" where
  "static_required info = pm_permissions (pi_manifest info)"

definition static_outcome :: "unit ls_result" where
  "static_outcome = Inr ()"

end
