(* ===== verification/Plugin_Props.thy ===== *)
theory Plugin_Props
  imports Plugin_Registry
begin

text \<open>
  What the plugin registry guarantees under any sequence of operations, with other users of the
  tool registry, the cache and the event bus between them.
\<close>

section \<open>What the operations change\<close>

lemma announce_plugins [simp]:
  "pr_plugins (announce now ty i name r) = pr_plugins r"
  "pr_tool_registry (announce now ty i name r) = pr_tool_registry r"
  "pr_tool_cache (announce now ty i name r) = pr_tool_cache r"
  by (simp_all add: announce_def)

lemma set_plugin_status_fields [simp]:
  "hm_get (pr_plugins (set_plugin_status i st r)) j
     = (if j = i then map_option (\<lambda>info. info\<lparr>pi_status := st\<rparr>) (hm_get (pr_plugins r) i) else hm_get (pr_plugins r) j)"
  "hm_dom (pr_plugins (set_plugin_status i st r)) = hm_dom (pr_plugins r)"
  "pr_tool_registry (set_plugin_status i st r) = pr_tool_registry r"
  "pr_tool_cache (set_plugin_status i st r) = pr_tool_cache r"
  by (simp_all add: set_plugin_status_def)

lemma set_plugin_status_ok: "hm_ok (pr_plugins (set_plugin_status i st r)) = hm_ok (pr_plugins r)"
  by (simp add: set_plugin_status_def)

lemma register_tools_plugins [simp]: "pr_plugins (register_tools provided r) = pr_plugins r"
  by (simp add: register_tools_def split: option.split prod.split)

lemma fold_add_tool: "fold add_tool tools (t, c) = (fold tool_register tools t, fold (\<lambda>t. tool_cache_insert (ti_name (tl_info t)) t) tools c)"
  by (induction tools arbitrary: t c) (auto simp: add_tool_def)

lemma fold_drop_tool:
  "fold drop_tool ds (t, c) = (fold (\<lambda>d t. snd (tool_unregister (td_name d) t)) ds t, fold (\<lambda>d c. hm_remove (td_name d) c) ds c)"
  by (induction ds arbitrary: t c) (auto simp: drop_tool_def tool_cache_remove_def)

text \<open>The tool of a list that carries a name last.\<close>

definition last_named :: "string \<Rightarrow> tool list \<Rightarrow> tool option" where
  "last_named n tools = find (\<lambda>t. ti_name (tl_info t) = n) (rev tools)"

lemma find_append: "find P (xs @ ys) = (case find P xs of None \<Rightarrow> find P ys | Some x \<Rightarrow> Some x)"
  by (induction xs) auto

lemma last_named_Cons:
  "last_named n (t # tools) = (case last_named n tools of
     Some u \<Rightarrow> Some u | None \<Rightarrow> if ti_name (tl_info t) = n then Some t else None)"
  by (simp add: last_named_def find_append split: option.split)

lemma hm_get_registered:
  "hm_get (tr_tools (fold tool_register tools t)) n = (case last_named n tools of None \<Rightarrow> hm_get (tr_tools t) n | Some u \<Rightarrow> Some u)"
proof (induction tools arbitrary: t)
  case Nil
  then show ?case by (simp add: last_named_def)
next
  case (Cons u tools)
  then show ?case by (auto simp: last_named_Cons register_fields split: option.split)
qed

lemma hm_get_cached:
  "hm_get (fold (\<lambda>t. tool_cache_insert (ti_name (tl_info t)) t) tools c) n
     = (case last_named n tools of None \<Rightarrow> hm_get c n | Some u \<Rightarrow> Some u)"
proof (induction tools arbitrary: c)
  case Nil
  then show ?case by (simp add: last_named_def)
next
  case (Cons u tools)
  then show ?case by (auto simp: last_named_Cons tool_cache_insert_def split: option.split)
qed

lemma hm_get_unregistered:
  "hm_get (tr_tools (snd (tool_unregister n t))) m = (if m = n then None else hm_get (tr_tools t) m)"
  by (auto simp: tool_unregister_def hm_get_None)

lemma hm_get_dropped:
  "hm_get (tr_tools (fold (\<lambda>d t. snd (tool_unregister (td_name d) t)) ds t)) n
     = (if n \<in> td_name ` set ds then None else hm_get (tr_tools t) n)"
  by (induction ds arbitrary: t) (auto simp: hm_get_unregistered)

lemma hm_get_uncached:
  "hm_get (fold (\<lambda>d c. hm_remove (td_name d) c) ds c) n = (if n \<in> td_name ` set ds then None else hm_get c n)"
  by (induction ds arbitrary: c) auto

section \<open>Steps and the invariant\<close>

inductive plugin_step :: "plugin_registry \<Rightarrow> plugin_registry \<Rightarrow> bool" where
  ps_register: "plugin_register now info provided r = (res, r') \<Longrightarrow> plugin_step r r'"
| ps_init: "init_plugin now i required outcome r = (res, r') \<Longrightarrow> plugin_step r r'"
| ps_start: "start_plugin now i outcome r = (res, r') \<Longrightarrow> plugin_step r r'"
| ps_stop: "stop_plugin now i outcome r = (res, r') \<Longrightarrow> plugin_step r r'"
| ps_unregister: "plugin_unregister now i r = (res, r') \<Longrightarrow> plugin_step r r'"
| ps_tools: "pr_tool_registry r = Some t \<Longrightarrow> tool_step t t' \<Longrightarrow> plugin_step r (r\<lparr>pr_tool_registry := Some t'\<rparr>)"
| ps_cache: "plugin_step r (r\<lparr>pr_tool_cache := c\<rparr>)"
| ps_bus: "plugin_step r (r\<lparr>pr_event_bus := b\<rparr>)"

definition plugin_init :: "plugin_registry \<Rightarrow> bool" where
  "plugin_init r \<longleftrightarrow> (\<exists>b. r = plugin_registry_with_bus b
     \<or> (\<exists>t. reaches tool_init tool_step t \<and> r = with_tool_registry t (plugin_registry_with_bus b)))"

text \<open>How far a plugin is in its life.\<close>

fun life :: "plugin_status \<Rightarrow> nat" where
  "life Installed = 0"
| "life Loaded = 1"
| "life Running = 2"
| "life Stopped = 3"
| "life (Failed s) = 4"

definition plugin_entry_ok :: "ls_id \<Rightarrow> plugin_info \<Rightarrow> bool" where
  "plugin_entry_ok i info \<longleftrightarrow> pi_plugin_id info = i \<and> pi_loaded_at info \<noteq> None \<and> life (pi_status info) \<le> 3"

definition plugin_inv :: "plugin_registry \<Rightarrow> bool" where
  "plugin_inv r \<longleftrightarrow> hm_ok (pr_plugins r) \<and> (\<forall>i info. hm_get (pr_plugins r) i = Some info \<longrightarrow> plugin_entry_ok i info)
     \<and> (\<forall>t. pr_tool_registry r = Some t \<longrightarrow> tool_inv t)"

lemma tool_inv_unregister: "tool_inv t \<Longrightarrow> tool_inv (snd (tool_unregister n t))"
  by (rule tool_machine.inv_step [OF _ tl_unregister]) (auto intro: surjective_pairing)

lemma tool_inv_dropped: "tool_inv t \<Longrightarrow> tool_inv (fold (\<lambda>d t. snd (tool_unregister (td_name d) t)) ds t)"
  by (induction ds arbitrary: t) (auto simp: tool_inv_unregister)

lemma tool_inv_registered: "tool_inv t \<Longrightarrow> tool_inv (fold tool_register tools t)"
  by (induction tools arbitrary: t) (auto simp: tool_inv_register)

lemma plugin_inv_set_status:
  "plugin_inv r \<Longrightarrow> life st \<le> 3 \<Longrightarrow> plugin_inv (set_plugin_status i st r)"
  by (auto simp: plugin_inv_def plugin_entry_ok_def set_plugin_status_ok split: if_splits)

lemma plugin_inv_listed: "plugin_inv r \<Longrightarrow> info \<in> set (list_plugins r) \<Longrightarrow> hm_get (pr_plugins r) (pi_plugin_id info) = Some info"
  by (auto simp: plugin_inv_def plugin_entry_ok_def list_plugins_def hm_ok_mem)

lemma plugin_inv_announce [simp]: "plugin_inv (announce now ty i name r) = plugin_inv r"
  by (simp add: plugin_inv_def)

lemma plugin_inv_register: "plugin_inv r \<Longrightarrow> plugin_register now info provided r = (res, r') \<Longrightarrow> plugin_inv r'"
  by (auto simp: plugin_register_def Let_def plugin_inv_def plugin_entry_ok_def register_tools_def fold_add_tool
      tool_inv_registered split: if_splits option.splits)

lemma plugin_inv_unregister: "plugin_inv r \<Longrightarrow> plugin_unregister now i r = (res, r') \<Longrightarrow> plugin_inv r'"
  by (auto simp: plugin_unregister_def Let_def plugin_inv_def fold_drop_tool tool_inv_dropped split: if_splits option.splits)

interpretation plugin_machine: machine plugin_init plugin_step plugin_inv
proof
  show "plugin_init r \<Longrightarrow> plugin_inv r" for r
    by (auto simp: plugin_init_def plugin_inv_def plugin_registry_with_bus_def with_tool_registry_def
        intro: tool_machine.reaches_inv)
  show "plugin_inv r'" if inv: "plugin_inv r" and step: "plugin_step r r'" for r r'
    using step
  proof cases
    case (ps_register now info provided res)
    with inv show ?thesis by (blast intro: plugin_inv_register)
  next
    case (ps_init now i required outcome res)
    with inv show ?thesis
      by (auto simp: init_plugin_def plugin_inv_set_status split: option.splits sum.splits if_splits)
  next
    case (ps_start now i outcome res)
    with inv show ?thesis
      by (auto simp: start_plugin_def plugin_inv_set_status split: option.splits sum.splits if_splits)
  next
    case (ps_stop now i outcome res)
    with inv show ?thesis
      by (auto simp: stop_plugin_def plugin_inv_set_status split: option.splits sum.splits if_splits)
  next
    case (ps_unregister now i res)
    with inv show ?thesis by (blast intro: plugin_inv_unregister)
  next
    case (ps_tools t t')
    with inv show ?thesis by (auto simp: plugin_inv_def intro: tool_machine.inv_step)
  qed (use inv in \<open>simp_all add: plugin_inv_def\<close>)
qed

text \<open>A registration with dependencies is a registration or changes nothing.\<close>

lemma register_with_deps_step:
  "register_with_deps sv now info provided deps r0 r = (res, r') \<Longrightarrow> r' = r \<or> plugin_step r r'"
  by (auto simp: register_with_deps_def Let_def intro: ps_register split: if_splits)

section \<open>The life of a plugin\<close>

definition follows :: "plugin_info \<Rightarrow> plugin_info \<Rightarrow> bool" where
  "follows info info' \<longleftrightarrow> info' = info\<lparr>pi_status := pi_status info'\<rparr> \<and> life (pi_status info) \<le> life (pi_status info')
     \<and> life (pi_status info') \<le> Suc (life (pi_status info))"

lemma follows_refl [simp]: "follows info info"
  by (simp add: follows_def)

lemma set_plugin_status_follows:
  assumes "hm_get (pr_plugins r) i = Some info" "life (pi_status info) \<le> life st" "life st \<le> Suc (life (pi_status info))"
    and "hm_get (pr_plugins r) j = Some jn" "hm_get (pr_plugins (set_plugin_status i st r)) j = Some jn'"
  shows "follows jn jn'"
  using assms by (auto simp: follows_def split: if_splits)

lemma plugin_step_follows:
  assumes "plugin_step r r'" "hm_get (pr_plugins r) j = Some jn" "hm_get (pr_plugins r') j = Some jn'"
  shows "follows jn jn'"
  using assms(1)
proof cases
  case (ps_register now info provided res)
  with assms(2,3) show ?thesis
    by (auto simp: plugin_register_def Let_def hm_get_dom split: if_splits)
next
  case (ps_init now i required outcome res)
  with assms(2,3) show ?thesis
    by (auto simp: init_plugin_def follows_def split: option.splits sum.splits if_splits)
next
  case (ps_start now i outcome res)
  with assms(2,3) show ?thesis
    by (auto simp: start_plugin_def follows_def split: option.splits sum.splits if_splits)
next
  case (ps_stop now i outcome res)
  with assms(2,3) show ?thesis
    by (auto simp: stop_plugin_def follows_def split: option.splits sum.splits if_splits)
next
  case (ps_unregister now i res)
  with assms(2,3) show ?thesis
    by (auto simp: plugin_unregister_def Let_def fold_drop_tool split: option.splits if_splits)
qed (use assms(2,3) in simp_all)

text \<open>C25: while a plugin stays registered its information never changes except for its status, which only moves
  forward, from installed over loaded and running to stopped: a plugin runs at most once, and one that has
  stopped cannot be started again before it is unregistered. It never counts as failed.\<close>

theorem plugin_life:
  assumes "reaches plugin_init plugin_step r" "hm_get (pr_plugins r) i = Some info"
    and "(\<lambda>s t. plugin_step s t \<and> hm_has i (pr_plugins t))\<^sup>*\<^sup>* r r'"
  shows "\<exists>info'. hm_get (pr_plugins r') i = Some info' \<and> info' = info\<lparr>pi_status := pi_status info'\<rparr>
    \<and> pi_plugin_id info' = i \<and> life (pi_status info) \<le> life (pi_status info') \<and> life (pi_status info') \<le> 3"
  using assms(3)
proof (induction rule: rtranclp_induct)
  case base
  with plugin_machine.reaches_inv [OF assms(1)] assms(2) show ?case
    by (auto simp: plugin_inv_def plugin_entry_ok_def)
next
  case (step s t)
  then obtain info1 where s: "hm_get (pr_plugins s) i = Some info1" "info1 = info\<lparr>pi_status := pi_status info1\<rparr>"
    "pi_plugin_id info1 = i" "life (pi_status info) \<le> life (pi_status info1)" by blast
  have "reaches plugin_init plugin_step t"
  proof -
    have "plugin_step\<^sup>*\<^sup>* r s" using step.hyps(1) by (rule rtranclp_mono [THEN predicate2D, rotated]) blast
    then have "reaches plugin_init plugin_step s"
      by (induction rule: rtranclp_induct) (auto intro: assms(1) reaches_step)
    then show ?thesis using step.hyps(2) by (blast intro: reaches_step)
  qed
  then have inv: "plugin_inv t" by (rule plugin_machine.reaches_inv)
  from step.hyps(2) obtain info2 where t: "hm_get (pr_plugins t) i = Some info2" by (auto simp: hm_ex_get [symmetric])
  have "follows info1 info2" using plugin_step_follows [OF _ s(1) t] step.hyps(2) by blast
  moreover have "plugin_entry_ok i info2" using inv t by (simp add: plugin_inv_def)
  ultimately have new: "info2 = info\<lparr>pi_status := pi_status info2\<rparr>" "life (pi_status info) \<le> life (pi_status info2)"
    "pi_plugin_id info2 = i" "life (pi_status info2) \<le> 3"
    using s(2,4) by (auto simp: follows_def plugin_entry_ok_def) (metis plugin_info.update_convs(3) plugin_info.surjective)
  with t show ?case by blast
qed

definition sample_plugin :: plugin_info where
  "sample_plugin = (plugin_info_default 5)\<lparr>pi_manifest := plugin_manifest_default\<lparr>pm_name := ''fs'',
     pm_permissions := [\<lparr>pp_resource = ''fs'', pp_actions = [''read'']\<rparr>],
     pm_tools := [\<lparr>td_name = ''ls'', td_description = ''lists files'', td_permission_level = ''user''\<rparr>]\<rparr>\<rparr>"

definition sample_registry :: plugin_registry where
  "sample_registry = snd (plugin_register 0 sample_plugin (Some [sample_tool UserLevel [''fs'']])
     (with_tool_registry tool_registry_new (plugin_registry_with_bus event_bus_new)))"

lemma sample_reachable: "reaches plugin_init plugin_step sample_registry"
proof -
  let ?r0 = "with_tool_registry tool_registry_new (plugin_registry_with_bus event_bus_new)"
  have "reaches tool_init tool_step tool_registry_new"
    by (rule reaches_init) (auto simp: tool_init_def tool_registry_new_def)
  then have "reaches plugin_init plugin_step ?r0" by (intro reaches_init) (auto simp: plugin_init_def)
  moreover have "plugin_step ?r0 sample_registry"
    unfolding sample_registry_def by (rule ps_register) (rule surjective_pairing)
  ultimately show ?thesis by (rule reaches_step)
qed

lemma sample_plugins:
  "hm_get (pr_plugins sample_registry) 5 = Some (sample_plugin\<lparr>pi_status := Installed, pi_loaded_at := Some 0\<rparr>)"
  by (simp add: sample_registry_def plugin_register_def Let_def with_tool_registry_def plugin_registry_with_bus_def)
    (simp add: sample_plugin_def plugin_info_default_def)

theorem plugin_life_witness:
  "\<exists>info'. hm_get (pr_plugins (snd (init_plugin 1 5 [] (Inr ()) sample_registry))) 5 = Some info'
     \<and> life (pi_status info') \<le> 3"
proof -
  let ?t = "snd (init_plugin 1 5 [] (Inr ()) sample_registry)"
  have step: "plugin_step sample_registry ?t" by (rule ps_init) (rule surjective_pairing)
  have "hm_has 5 (pr_plugins ?t)" using hm_get_dom [OF sample_plugins] by (simp add: init_plugin_def sample_plugins)
  with step have "(\<lambda>s t. plugin_step s t \<and> hm_has 5 (pr_plugins t))\<^sup>*\<^sup>* sample_registry ?t" by blast
  from plugin_life [OF sample_reachable sample_plugins this] show ?thesis by blast
qed

section \<open>Initialising\<close>

text \<open>Initialising a plugin succeeds exactly if it is registered, is installed or loaded, has every action of
  every permission it requires declared in its manifest, and its own initialisation succeeds; then its status is
  loaded and nothing else of the plugins changes. A failed initialisation changes nothing at all.\<close>

theorem init_plugin_exact:
  "(fst (init_plugin now i required outcome r) = Inr () \<longleftrightarrow>
      (\<exists>info. hm_get (pr_plugins r) i = Some info \<and> pi_status info \<in> {Installed, Loaded}
        \<and> (\<forall>p \<in> set required. \<forall>a \<in> set (pp_actions p).
              \<exists>q \<in> set (pm_permissions (pi_manifest info)). pp_resource q = pp_resource p \<and> a \<in> set (pp_actions q)))
      \<and> outcome = Inr ())
   \<and> (fst (init_plugin now i required outcome r) = Inr () \<longrightarrow>
        hm_get (pr_plugins (snd (init_plugin now i required outcome r))) j
          = (if j = i then map_option (\<lambda>info. info\<lparr>pi_status := Loaded\<rparr>) (hm_get (pr_plugins r) j) else hm_get (pr_plugins r) j))
   \<and> (fst (init_plugin now i required outcome r) \<noteq> Inr () \<longrightarrow> snd (init_plugin now i required outcome r) = r)"
proof (cases "hm_get (pr_plugins r) i")
  case None
  then show ?thesis by (simp add: init_plugin_def)
next
  case (Some info)
  have perms: "require_permissions (pi_manifest info) required = Inr () \<longleftrightarrow>
      (\<forall>p \<in> set required. \<forall>a \<in> set (pp_actions p).
          \<exists>q \<in> set (pm_permissions (pi_manifest info)). pp_resource q = pp_resource p \<and> a \<in> set (pp_actions q))"
    by (auto simp: require_permissions_iff declares_def list_ex_iff)
  show ?thesis unfolding perms [symmetric]
    using Some by (cases "require_permissions (pi_manifest info) required"; cases outcome) (auto simp: init_plugin_def perms [symmetric])
qed

theorem init_plugin_exact_witness:
  "fst (init_plugin 1 5 [\<lparr>pp_resource = ''fs'', pp_actions = [''write'']\<rparr>] (Inr ()) sample_registry) \<noteq> Inr ()"
  using init_plugin_exact [of 1 5 "[\<lparr>pp_resource = ''fs'', pp_actions = [''write'']\<rparr>]" "Inr ()" sample_registry 5]
  by (simp add: sample_plugins) (simp add: sample_plugin_def plugin_info_default_def)

section \<open>The tools of plugins\<close>

lemma tool_inv_lists:
  assumes "tool_inv t" "tool_get n t = None"
  shows "n \<notin> set (list_by_tag k t) \<and> n \<notin> set (list_by_category k t)"
  using assms by (auto simp: tool_inv_def indexed_def tool_get_def hm_get_None list_by_tag_def list_by_category_def)

text \<open>Registering a plugin makes each tool it provides callable under its name and cached; unregistering it
  removes from the registry, its lists and the cache exactly the tools the manifest declares, so that a call of
  one of them reports that it is not found.\<close>

theorem plugin_tools_follow:
  assumes "reaches plugin_init plugin_step r" "pr_tool_registry r = Some t"
  shows "(plugin_register now info (Some tools) r = (Inr i, r') \<longrightarrow>
          (\<exists>t'. pr_tool_registry r' = Some t'
             \<and> tool_get n t' = (case last_named n tools of Some u \<Rightarrow> Some (tl_info u) | None \<Rightarrow> tool_get n t)
             \<and> tool_cache_get n (pr_tool_cache r') = (case last_named n tools of Some u \<Rightarrow> Some u | None \<Rightarrow> tool_cache_get n (pr_tool_cache r))))
    \<and> (plugin_unregister now i r = (Inr (), r') \<longrightarrow>
          (\<exists>t' removed. pr_tool_registry r' = Some t' \<and> get_info i r = Inr removed \<and> get_info i r' \<noteq> Inr removed
             \<and> (if n \<in> td_name ` set (pm_tools (pi_manifest removed))
                then tool_cache_get n (pr_tool_cache r') = None \<and> n \<notin> set (list_by_tag k t') \<and> n \<notin> set (list_by_category k t')
                  \<and> fst (tool_execute len duration fresh now' ctx n args caller t') = Inl (not_found n)
                else tool_get n t' = tool_get n t \<and> tool_cache_get n (pr_tool_cache r') = tool_cache_get n (pr_tool_cache r))))"
proof (intro conjI impI)
  assume "plugin_register now info (Some tools) r = (Inr i, r')"
  then show "\<exists>t'. pr_tool_registry r' = Some t'
       \<and> tool_get n t' = (case last_named n tools of Some u \<Rightarrow> Some (tl_info u) | None \<Rightarrow> tool_get n t)
       \<and> tool_cache_get n (pr_tool_cache r') = (case last_named n tools of Some u \<Rightarrow> Some u | None \<Rightarrow> tool_cache_get n (pr_tool_cache r))"
    using assms(2) by (auto simp: plugin_register_def Let_def register_tools_def fold_add_tool hm_get_registered hm_get_cached
        tool_get_def tool_cache_get_def split: if_splits option.splits)
next
  assume un: "plugin_unregister now i r = (Inr (), r')"
  then obtain removed where i: "hm_get (pr_plugins r) i = Some removed"
    by (auto simp: plugin_unregister_def split: option.splits)
  let ?ds = "pm_tools (pi_manifest removed)"
  let ?t = "fold (\<lambda>d t. snd (tool_unregister (td_name d) t)) ?ds t"
  let ?c = "fold (\<lambda>d c. hm_remove (td_name d) c) ?ds (pr_tool_cache r)"
  from un i assms(2) have r': "pr_tool_registry r' = Some ?t" "pr_tool_cache r' = ?c" "hm_get (pr_plugins r') i = None"
    by (auto simp: plugin_unregister_def Let_def fold_drop_tool hm_get_None)
  have "tool_inv t" using plugin_machine.reaches_inv [OF assms(1)] assms(2) by (simp add: plugin_inv_def)
  then have inv: "tool_inv ?t" by (rule tool_inv_dropped)
  show "\<exists>t' removed. pr_tool_registry r' = Some t' \<and> get_info i r = Inr removed \<and> get_info i r' \<noteq> Inr removed
       \<and> (if n \<in> td_name ` set (pm_tools (pi_manifest removed))
          then tool_cache_get n (pr_tool_cache r') = None \<and> n \<notin> set (list_by_tag k t') \<and> n \<notin> set (list_by_category k t')
            \<and> fst (tool_execute len duration fresh now' ctx n args caller t') = Inl (not_found n)
          else tool_get n t' = tool_get n t \<and> tool_cache_get n (pr_tool_cache r') = tool_cache_get n (pr_tool_cache r))"
  proof (intro exI conjI)
    show "pr_tool_registry r' = Some ?t" by (fact r'(1))
    show "get_info i r = Inr removed" using i by (simp add: get_info_def)
    show "get_info i r' \<noteq> Inr removed" using r'(3) by (simp add: get_info_def)
    have gone: "tool_get n ?t = None" if "n \<in> td_name ` set ?ds" using that by (simp add: tool_get_def hm_get_dropped)
    show "if n \<in> td_name ` set ?ds
          then tool_cache_get n (pr_tool_cache r') = None \<and> n \<notin> set (list_by_tag k ?t) \<and> n \<notin> set (list_by_category k ?t)
            \<and> fst (tool_execute len duration fresh now' ctx n args caller ?t) = Inl (not_found n)
          else tool_get n ?t = tool_get n t \<and> tool_cache_get n (pr_tool_cache r') = tool_cache_get n (pr_tool_cache r)"
      using gone tool_inv_lists [OF inv gone]
      by (auto simp: r'(2) tool_cache_get_def hm_get_uncached tool_get_def hm_get_dropped tool_execute_def execute_between_def)
  qed
qed

theorem plugin_tools_follow_witness:
  "\<exists>t. pr_tool_registry (snd (plugin_unregister 9 5 sample_registry)) = Some t \<and> ''ls'' \<notin> set (list_by_tag ''fs'' t)"
proof -
  obtain t where t: "pr_tool_registry sample_registry = Some t"
    by (simp add: sample_registry_def plugin_register_def Let_def register_tools_def with_tool_registry_def
        plugin_registry_with_bus_def add_tool_def)
  have un: "plugin_unregister 9 5 sample_registry = (Inr (), snd (plugin_unregister 9 5 sample_registry))"
    by (simp add: plugin_unregister_def sample_plugins Let_def)
  have declared: "''ls'' \<in> td_name ` set (pm_tools (pi_manifest (sample_plugin\<lparr>pi_status := Installed, pi_loaded_at := Some 0\<rparr>)))"
    by (simp add: sample_plugin_def plugin_info_default_def)
  have "get_info 5 sample_registry = Inr (sample_plugin\<lparr>pi_status := Installed, pi_loaded_at := Some 0\<rparr>)"
    by (simp add: get_info_def sample_plugins)
  with conjunct2 [OF plugin_tools_follow [OF sample_reachable t, where i = 5 and now = 9 and n = "''ls''" and k = "''fs''"
        and len = "\<lambda>_. None" and duration = 0 and fresh = 0 and now' = 0 and ctx = "ctx_new 0 0 0" and args = Null
        and caller = None], rule_format, OF un]
  obtain t' where "pr_tool_registry (snd (plugin_unregister 9 5 sample_registry)) = Some t'" "''ls'' \<notin> set (list_by_tag ''fs'' t')"
    using declared by auto
  then show ?thesis by blast
qed

text \<open>A tool the plugin provides without declaring it stays registered after the plugin is gone.\<close>

lemma undeclared_tool_stays:
  assumes "pr_tool_registry r = Some t" "hm_get (pr_plugins r) i = Some info" "pm_tools (pi_manifest info) = []"
  shows "pr_tool_registry (snd (plugin_unregister now i r)) = Some t"
  using assms by (simp add: plugin_unregister_def Let_def)

section \<open>Dependencies\<close>

text \<open>A registration with dependencies goes on exactly if each dependency is met by a plugin that was registered
  when the dependencies were checked, whatever its type: optional and development dependencies count too.\<close>

lemma register_with_deps_iff:
  "(\<exists>e. fst (register_with_deps sv now info provided deps r0 r) = Inl e \<and> (\<exists>s. e = Plugin s))
     \<longleftrightarrow> (\<exists>d \<in> set deps. \<not> dependency_met sv (installed_versions r0) d)"
  by (auto simp: register_with_deps_def Let_def check_dependencies_eq filter_empty_conv plugin_register_def)

end
