(* ===== verification/Plugin_Reload.thy ===== *)
theory Plugin_Reload
  imports Plugin_Props
begin

text \<open>
  Hot reload of plugins (\<open>plugin/src/hot_reload.rs\<close>): what a change of a plugin file does.

  A path is the list of its components, so its text is the normalised one. What the file
  system, the shared libraries and the plugins answer are arguments, gathered in one record for
  each reload; the reload runs alone on the registry.
\<close>

section \<open>Paths\<close>

type_synonym path = "string list"

definition components :: "string \<Rightarrow> path" where
  "components s = (case split_on (CHR ''/'') s of [] \<Rightarrow> [] | p # ps \<Rightarrow>
     (if starts_with s ''/'' then [''/''] else if p = [] then [] else [p]) @ filter (\<lambda>c. c \<noteq> [] \<and> c \<noteq> ''.'') ps)"

definition path_ends_with :: "path \<Rightarrow> path \<Rightarrow> bool" where
  "path_ends_with p q \<longleftrightarrow> length q \<le> length p \<and> drop (length p - length q) p = q"

definition path_join :: "path \<Rightarrow> string \<Rightarrow> path" where
  "path_join d s = (if starts_with s ''/'' then components s
     else if d = [] then components s else d @ filter (\<lambda>c. c \<noteq> ''.'') (components s))"

definition path_parent :: "path \<Rightarrow> path option" where
  "path_parent p = (if p = [] \<or> p = [''/''] then None else Some (butlast p))"

definition file_name :: "path \<Rightarrow> string option" where
  "file_name p = (if p = [] \<or> last p \<in> {''/'', ''.'', ''..''} then None else Some (last p))"

text \<open>The parts of a file name before and after its last dot; a name that only starts with a dot has none.\<close>

definition dot_parts :: "string \<Rightarrow> string option \<times> string option" where
  "dot_parts f = (case split_once (CHR ''.'') (rev f) of
       None \<Rightarrow> (None, Some f)
     | Some (a, b) \<Rightarrow> if b = [] then (Some f, None) else (Some (rev b), Some (rev a)))"

definition file_stem :: "path \<Rightarrow> string option" where
  "file_stem p = (case file_name p of None \<Rightarrow> None
     | Some f \<Rightarrow> (case dot_parts f of (Some before, _) \<Rightarrow> Some before | (None, after) \<Rightarrow> after))"

definition extension :: "path \<Rightarrow> string option" where
  "extension p = (case file_name p of None \<Rightarrow> None
     | Some f \<Rightarrow> (case dot_parts f of (Some _, after) \<Rightarrow> after | (None, _) \<Rightarrow> None))"

definition path_text :: "path \<Rightarrow> string" where
  "path_text p = (case p of [] \<Rightarrow> [] | c # cs \<Rightarrow> if c = ''/'' then ''/'' @ join_str ''/'' cs else join_str ''/'' p)"

section \<open>Reloading a plugin\<close>

datatype hot_reload_event = Reloaded ls_id string string | ReloadFailed string string | Removed string

text \<open>What a new plugin answers, and what a reload finds outside the registry: the manifest file, the files that
  exist, the libraries with the plugins they create, and the answers of the old plugin.\<close>

record plugin_answers =
  an_info :: plugin_info
  an_tools :: "tool list option"
  an_required :: "plugin_permission list"
  an_init :: "unit ls_result"
  an_start :: "unit ls_result"

record reload_env =
  re_manifest :: "extended_manifest ls_result"
  re_exists :: "path \<Rightarrow> bool"
  re_open :: "path \<Rightarrow> string + unit"
  re_symbol :: "path \<Rightarrow> string + plugin_info"
  re_create :: "path \<Rightarrow> string + plugin_answers"
  re_old_stop :: "unit ls_result"
  re_old_required :: "plugin_permission list"
  re_old_init :: "unit ls_result"
  re_old_start :: "unit ls_result"

definition names_plugin :: "string \<Rightarrow> path \<Rightarrow> plugin_info \<Rightarrow> bool" where
  "names_plugin plugin_name path p \<longleftrightarrow> pm_name (pi_manifest p) = plugin_name
     \<or> (case pm_entry_point (pi_manifest p) of None \<Rightarrow> False | Some e \<Rightarrow> path_ends_with path (components e))"

definition path_plugin_name :: "path \<Rightarrow> string" where
  "path_plugin_name path = (case file_stem path of None \<Rightarrow> ''unknown'' | Some s \<Rightarrow> s)"

definition stop_old :: "int \<Rightarrow> reload_env \<Rightarrow> ls_id option \<Rightarrow> plugin_registry \<Rightarrow> plugin_registry" where
  "stop_old now env old r = (case old of
       None \<Rightarrow> r
     | Some i \<Rightarrow> (case get_info i r of
         Inl _ \<Rightarrow> r
       | Inr info \<Rightarrow> if pi_status info = Running then snd (stop_plugin now i (re_old_stop env) r) else r))"

text \<open>Loading the library of a path, and registering, initialising and starting its plugin.\<close>

definition create_dynamic_plugin :: "reload_env \<Rightarrow> path \<Rightarrow> plugin_answers ls_result" where
  "create_dynamic_plugin env p = (case re_create env p of
       Inl e \<Rightarrow> Inl (Plugin (''symbol '' @ quoted ''create_plugin'' @ '' not found: '' @ e))
     | Inr a \<Rightarrow> Inr a)"

definition load_and_start ::
  "int \<Rightarrow> string \<Rightarrow> reload_env \<Rightarrow> path \<Rightarrow> plugin_registry \<Rightarrow> ls_id ls_result \<times> plugin_registry" where
  "load_and_start now api env p r = (case load_dynamic api (path_text p) (re_open env p) (re_symbol env p) of
       Inl e \<Rightarrow> (Inl e, r)
     | Inr _ \<Rightarrow> (case create_dynamic_plugin env p of
         Inl e \<Rightarrow> (Inl e, r)
       | Inr a \<Rightarrow> (case plugin_register now (an_info a) (an_tools a) r of
           (Inl e, r1) \<Rightarrow> (Inl e, r1)
         | (Inr i, r1) \<Rightarrow> (case init_plugin now i (an_required a) (an_init a) r1 of
             (Inl e, r2) \<Rightarrow> (Inl e, r2)
           | (Inr _, r2) \<Rightarrow> (case start_plugin now i (an_start a) r2 of
               (Inl e, r3) \<Rightarrow> (Inl e, r3)
             | (Inr _, r3) \<Rightarrow> (Inr i, r3))))))"

text \<open>The error branch at the end restores the old plugin, but only a missing library gets there: every other
  error leaves the function at once. The second component is the event that is sent, if one is.\<close>

definition report_reloaded ::
  "ls_id \<Rightarrow> plugin_registry \<Rightarrow> unit ls_result \<times> hot_reload_event option \<times> plugin_registry" where
  "report_reloaded i r = (case get_info i r of
       Inl e \<Rightarrow> (Inl e, None, r)
     | Inr info \<Rightarrow> (Inr (), Some (Reloaded i (pm_name (pi_manifest info)) (pm_version (pi_manifest info))), r))"

definition finish_reload ::
  "ls_id ls_result \<times> plugin_registry \<Rightarrow> unit ls_result \<times> hot_reload_event option \<times> plugin_registry" where
  "finish_reload x = (case x of (Inl e, r) \<Rightarrow> (Inl e, None, r) | (Inr i, r) \<Rightarrow> report_reloaded i r)"

definition restore_old :: "int \<Rightarrow> reload_env \<Rightarrow> ls_id option \<Rightarrow> plugin_registry \<Rightarrow> plugin_registry" where
  "restore_old now env old r = (case old of
       None \<Rightarrow> r
     | Some i \<Rightarrow> (case get_info i r of
         Inl _ \<Rightarrow> r
       | Inr _ \<Rightarrow> snd (start_plugin now i (re_old_start env) (snd (init_plugin now i (re_old_required env) (re_old_init env) r)))))"

definition library_of :: "reload_env \<Rightarrow> path \<Rightarrow> string \<Rightarrow> path option" where
  "library_of env dir name = find (re_exists env)
     [path_join dir (name @ ''.so''), path_join dir (name @ ''.dylib''), path_join dir (name @ ''.wasm'')]"

definition reload_plugin ::
  "int \<Rightarrow> string \<Rightarrow> reload_env \<Rightarrow> path \<Rightarrow> plugin_registry \<Rightarrow> unit ls_result \<times> hot_reload_event option \<times> plugin_registry" where
  "reload_plugin now api env path r =
     (let plugin_name = path_plugin_name path;
          old = map_option pi_plugin_id (find (names_plugin plugin_name path) (list_plugins r));
          r1 = stop_old now env old r
      in if extension path = Some ''json''
         then (let dir = (case path_parent path of None \<Rightarrow> [''.''] | Some d \<Rightarrow> d)
               in (case re_manifest env of
                  Inl e \<Rightarrow> (Inl e, None, r1)
                | Inr m \<Rightarrow> (case library_of env dir (pm_name (em_base m)) of
                    Some lib \<Rightarrow> finish_reload (load_and_start now api env lib r1)
                  | None \<Rightarrow>
                      (let e = Plugin (''no library file found for plugin '' @ quoted (pm_name (em_base m)) @ '' in ''
                             @ quoted (path_text dir))
                       in (Inl e, Some (ReloadFailed plugin_name (error_text e)), restore_old now env old r1)))))
         else finish_reload (load_and_start now api env path r1))"

section \<open>The watcher\<close>

datatype event_kind = CreateKind | ModifyKind | RemoveKind | OtherKind

record watcher =
  wa_debounce :: "(path, nat) hmap"
  wa_registry :: plugin_registry
  wa_sent :: "hot_reload_event list"

definition should_watch :: "path \<Rightarrow> bool" where
  "should_watch p \<longleftrightarrow> (case extension p of None \<Rightarrow> [] | Some e \<Rightarrow> e) \<in> {''so'', ''dylib'', ''wasm'', ''json'', ''plugin''}"

definition remove_for_path :: "int \<Rightarrow> path \<Rightarrow> watcher \<Rightarrow> watcher" where
  "remove_for_path now p w =
     (let plugin_name = path_plugin_name p
      in (case find (names_plugin plugin_name p) (list_plugins (wa_registry w)) of
         None \<Rightarrow> w
       | Some info \<Rightarrow> w\<lparr>wa_registry := snd (plugin_unregister now (pi_plugin_id info) (wa_registry w)),
            wa_sent := wa_sent w @ [Removed plugin_name]\<rparr>))"

text \<open>One path of a change: \<open>clock\<close> is the monotonic clock in milliseconds when its turn comes, \<open>now\<close> the time of the
  events.\<close>

definition handle_path :: "int \<Rightarrow> string \<Rightarrow> event_kind \<Rightarrow> path \<times> nat \<times> reload_env \<Rightarrow> watcher \<Rightarrow> watcher" where
  "handle_path now api kind = (\<lambda>(p, clock, env) w.
     if \<not> should_watch p then w
     else if (case hm_get (wa_debounce w) p of None \<Rightarrow> False | Some earlier \<Rightarrow> clock - earlier < 2000) then w
     else (let w1 = w\<lparr>wa_debounce := hm_insert p clock (wa_debounce w)\<rparr>
           in if kind = RemoveKind then remove_for_path now p w1
              else (let (res, ev, r') = reload_plugin now api env p (wa_registry w1)
                    in w1\<lparr>wa_registry := r', wa_sent := wa_sent w1 @ (case ev of None \<Rightarrow> [] | Some e \<Rightarrow> [e])\<rparr>)))"

definition handle_change :: "int \<Rightarrow> string \<Rightarrow> event_kind \<Rightarrow> (path \<times> nat \<times> reload_env) list \<Rightarrow> watcher \<Rightarrow> watcher" where
  "handle_change now api kind paths w = (if kind = OtherKind then w else fold (handle_path now api kind) paths w)"

text \<open>Starting and stopping: the flag is set before the watcher is created, \<open>created\<close> and \<open>watched\<close> are what that
  gives, with the text of the error.\<close>

definition watcher_start :: "path \<Rightarrow> string + unit \<Rightarrow> string + unit \<Rightarrow> bool \<Rightarrow> unit ls_result \<times> bool" where
  "watcher_start dir created watched running =
     (if running then (Inl (Plugin ''hot-reload watcher already running''), running)
      else (case created of
          Inl e \<Rightarrow> (Inl (Plugin (''failed to create file watcher: '' @ e)), True)
        | Inr _ \<Rightarrow> (case watched of
            Inl e \<Rightarrow> (Inl (Plugin (''failed to watch directory '' @ quoted (path_text dir) @ '': '' @ e)), True)
          | Inr _ \<Rightarrow> (Inr (), True))))"

definition watcher_stop :: "bool \<Rightarrow> unit ls_result \<times> bool" where
  "watcher_stop running = (Inr (), False)"

text \<open>A watcher that could not be started counts as running: starting it again is refused.\<close>

lemma failed_start_blocks:
  "watcher_start dir (Inl e) watched False = (Inl (Plugin (''failed to create file watcher: '' @ e)), running) \<Longrightarrow>
   watcher_start dir created watched' running = (Inl (Plugin ''hot-reload watcher already running''), True)"
  by (simp add: watcher_start_def)

section \<open>What a reload does\<close>

lemma register_other:
  "plugin_register now info provided r = (res, r') \<Longrightarrow> hm_get (pr_plugins r) i = Some v \<Longrightarrow> hm_get (pr_plugins r') i = Some v"
  by (auto simp: plugin_register_def Let_def hm_get_dom split: if_splits)

lemma registered_new:
  "plugin_register now info provided r = (Inr j, r') \<Longrightarrow> j \<notin> hm_dom (pr_plugins r) \<and> j = pi_plugin_id info"
  by (auto simp: plugin_register_def Let_def split: if_splits)

lemma init_other:
  "init_plugin now j required outcome r = (res, r') \<Longrightarrow> i \<noteq> j \<Longrightarrow> hm_get (pr_plugins r') i = hm_get (pr_plugins r) i"
  by (auto simp: init_plugin_def split: option.splits if_splits sum.splits)

lemma start_other:
  "start_plugin now j outcome r = (res, r') \<Longrightarrow> i \<noteq> j \<Longrightarrow> hm_get (pr_plugins r') i = hm_get (pr_plugins r) i"
  by (auto simp: start_plugin_def split: option.splits if_splits sum.splits)

lemma start_running:
  "start_plugin now j outcome r = (Inr (), r') \<Longrightarrow> \<exists>info. hm_get (pr_plugins r') j = Some info \<and> pi_status info = Running"
  by (auto simp: start_plugin_def split: option.splits if_splits sum.splits)

lemma load_and_start_old:
  assumes "load_and_start now api env p r = (res, r')" "hm_get (pr_plugins r) i = Some v"
  shows "hm_get (pr_plugins r') i = Some v
    \<and> (\<forall>j. res = Inr j \<longrightarrow> j \<noteq> i \<and> (\<exists>info. hm_get (pr_plugins r') j = Some info \<and> pi_status info = Running))"
proof (cases "load_dynamic api (path_text p) (re_open env p) (re_symbol env p)")
  case (Inl e)
  with assms show ?thesis by (auto simp: load_and_start_def)
next
  case load: (Inr a)
  show ?thesis
  proof (cases "create_dynamic_plugin env p")
    case (Inl e)
    with assms load show ?thesis by (auto simp: load_and_start_def)
  next
    case create: (Inr a)
    obtain res1 r1 where reg: "plugin_register now (an_info a) (an_tools a) r = (res1, r1)" by fastforce
    note old1 = register_other [OF reg assms(2)]
    show ?thesis
    proof (cases res1)
      case (Inl e)
      with assms load create reg old1 show ?thesis by (auto simp: load_and_start_def)
    next
      case j: (Inr j)
      from registered_new [OF reg [unfolded j]] assms(2) have ne: "i \<noteq> j" by (auto dest: hm_get_dom)
      obtain res2 r2 where ini: "init_plugin now j (an_required a) (an_init a) r1 = (res2, r2)" by fastforce
      obtain res3 r3 where sta: "start_plugin now j (an_start a) r2 = (res3, r3)" by fastforce
      have old2: "hm_get (pr_plugins r2) i = Some v" using init_other [OF ini ne] old1 by simp
      have old3: "hm_get (pr_plugins r3) i = Some v" using start_other [OF sta ne] old2 by simp
      show ?thesis using assms(1) load create reg j ini sta old1 old2 old3 ne
        by (auto simp: load_and_start_def dest: start_running split: sum.splits)
    qed
  qed
qed

lemma stopped_not_restored:
  assumes "hm_get (pr_plugins r) i = Some info" "pi_status info = Stopped"
  shows "hm_get (pr_plugins (restore_old now env (Some i) r)) i = Some info"
  using assms by (simp add: restore_old_def get_info_def ok_or_def init_plugin_def start_plugin_def)

lemma finish_reload_old:
  assumes "finish_reload (load_and_start now api env p r) = (res, ev, r')" "hm_get (pr_plugins r) i = Some v"
  shows "get_info i r' = Inr v \<and> (res = Inr () \<longrightarrow>
      (\<exists>j new. j \<noteq> i \<and> get_info j r' = Inr new \<and> pi_status new = Running
         \<and> ev = Some (Reloaded j (pm_name (pi_manifest new)) (pm_version (pi_manifest new)))))"
proof -
  obtain res1 r1 where ls: "load_and_start now api env p r = (res1, r1)" by fastforce
  from load_and_start_old [OF ls assms(2)] assms(1) ls show ?thesis
    by (cases res1) (auto simp: finish_reload_def report_reloaded_def get_info_def)
qed


definition running_registry :: plugin_registry where
  "running_registry = snd (start_plugin 2 5 (Inr ()) (snd (init_plugin 1 5 [] (Inr ()) sample_registry)))"

definition reload_sample_env :: reload_env where
  "reload_sample_env = \<lparr>re_manifest = Inr (extended_of (pi_manifest sample_plugin)), re_exists = (\<lambda>_. False), re_open = (\<lambda>_. Inl []),
     re_symbol = (\<lambda>_. Inl []), re_create = (\<lambda>_. Inl []), re_old_stop = Inr (), re_old_required = [], re_old_init = Inr (),
     re_old_start = Inr ()\<rparr>"


end
