(* ===== verification/Plugin_Market.thy ===== *)
theory Plugin_Market
  imports Plugin_Reload
begin

text \<open>
  The plugin market (\<open>plugin/src/market.rs\<close>): discovering plugins at the sources, searching and
  installing. What HTTP, the file system and the digest give are arguments.
\<close>

section \<open>Sources and entries\<close>

datatype registry_source = GitHubReleases string | UrlSource string | LocalDir path

fun source_type :: "registry_source \<Rightarrow> string" where
  "source_type (GitHubReleases repo) = ''github''"
| "source_type (UrlSource url) = ''url''"
| "source_type (LocalDir p) = ''local''"

fun source_url :: "registry_source \<Rightarrow> string" where
  "source_url (GitHubReleases repo) = ''https://github.com/'' @ repo"
| "source_url (UrlSource url) = url"
| "source_url (LocalDir p) = path_text p"

record market_entry =
  me_id :: string
  me_name :: string
  me_version :: string
  me_description :: string
  me_author :: "string option"
  me_categories :: "string list"
  me_tags :: "string list"
  me_download_url :: string
  me_checksum :: "string option"
  me_size :: "int option"

record market_search_result =
  ms_query :: string
  ms_total :: nat
  ms_plugins :: "market_entry list"

record install_options =
  io_target_dir :: path
  io_skip_verify :: bool
  io_force :: bool

definition install_options_default :: install_options where
  "install_options_default = \<lparr>io_target_dir = [''plugins''], io_skip_verify = False, io_force = False\<rparr>"

record plugin_market =
  mk_sources :: "registry_source list"
  mk_installed :: "(string, string) hmap"
  mk_install_dir :: path

definition plugin_market_new :: "registry_source list \<Rightarrow> path \<Rightarrow> plugin_market" where
  "plugin_market_new sources dir = \<lparr>mk_sources = sources, mk_installed = [], mk_install_dir = dir\<rparr>"

section \<open>Discovering\<close>

record github_asset =
  ga_name :: string
  ga_size :: int
  ga_browser_download_url :: string

record github_release =
  gr_tag_name :: string
  gr_draft :: bool
  gr_prerelease :: bool
  gr_body :: "string option"
  gr_assets :: "github_asset list"

definition ends_with :: "string \<Rightarrow> string \<Rightarrow> bool" where
  "ends_with s p \<longleftrightarrow> length p \<le> length s \<and> drop (length s - length p) s = p"

text \<open>The cast \<open>as u64\<close> of an \<open>i64\<close> wraps.\<close>

definition i64_as_u64 :: "int \<Rightarrow> int" where
  "i64_as_u64 n = n mod 2 ^ 64"

definition release_entry :: "github_release \<Rightarrow> market_entry" where
  "release_entry r =
     (let manifest_asset = find (\<lambda>a. ga_name a = ''plugin.json'') (gr_assets r);
          pkg_asset = find (\<lambda>a. ends_with (ga_name a) ''.tar.gz'' \<or> ends_with (ga_name a) ''.plugin'') (gr_assets r);
          download_url = (case pkg_asset of Some a \<Rightarrow> ga_browser_download_url a
            | None \<Rightarrow> (case manifest_asset of Some a \<Rightarrow> ga_browser_download_url a | None \<Rightarrow> []))
      in \<lparr>me_id = gr_tag_name r @ ''@'' @ gr_tag_name r, me_name = gr_tag_name r,
          me_version = dropWhile (\<lambda>c. c = CHR ''v'') (gr_tag_name r),
          me_description = (case gr_body r of None \<Rightarrow> [] | Some b \<Rightarrow> b), me_author = None, me_categories = [], me_tags = [],
          me_download_url = download_url, me_checksum = None, me_size = map_option (\<lambda>a. i64_as_u64 (ga_size a)) pkg_asset\<rparr>)"

text \<open>An answer over HTTP: an error of the request, or the status (whether it is a success, and its text) with the
  body as the parser reads it.\<close>

type_synonym 'a http_answer = "string + (bool \<times> string \<times> (string + 'a))"

definition discover_github :: "string \<Rightarrow> github_release list http_answer \<Rightarrow> market_entry list ls_result" where
  "discover_github repo answer = (case answer of
       Inl e \<Rightarrow> Inl (Plugin (''GitHub API request failed: '' @ e))
     | Inr (success, status, body) \<Rightarrow>
         if \<not> success then Inl (Plugin (''GitHub API returned '' @ status @ '' for '' @ repo))
         else (case body of
             Inl e \<Rightarrow> Inl (Plugin (''failed to parse GitHub releases: '' @ e))
           | Inr releases \<Rightarrow> Inr (map release_entry (filter (\<lambda>r. \<not> (gr_draft r \<or> gr_prerelease r)) releases))))"

definition manifest_entry :: "extended_manifest \<Rightarrow> string \<Rightarrow> int option \<Rightarrow> market_entry" where
  "manifest_entry m url bytes = \<lparr>me_id = pm_name (em_base m) @ ''@'' @ pm_version (em_base m), me_name = pm_name (em_base m),
     me_version = pm_version (em_base m), me_description = pm_description (em_base m), me_author = pm_author (em_base m),
     me_categories = mm_categories (em_market m), me_tags = mm_tags (em_market m), me_download_url = url,
     me_checksum = None, me_size = bytes\<rparr>"

definition discover_url :: "string \<Rightarrow> extended_manifest http_answer \<Rightarrow> market_entry list ls_result" where
  "discover_url url answer = (case answer of
       Inl e \<Rightarrow> Inl (Plugin (''HTTP request failed: '' @ e))
     | Inr (success, status, body) \<Rightarrow>
         if \<not> success then Inl (Plugin (''HTTP '' @ status @ '' for '' @ url))
         else (case body of
             Inl e \<Rightarrow> Inl (Plugin (''failed to parse manifest JSON: '' @ e))
           | Inr m \<Rightarrow> Inr [manifest_entry m url None]))"

text \<open>An entry of a directory: its path, whether it is a directory, what its manifest file holds if it is there,
  and the length of the file of a path.\<close>

record dir_entry =
  de_path :: path
  de_is_dir :: bool
  de_manifest :: "extended_manifest ls_result option"
  de_length :: "path \<Rightarrow> int option"

fun read_entries :: "(string + dir_entry) list \<Rightarrow> market_entry list ls_result" where
  "read_entries [] = Inr []"
| "read_entries (Inl e # des) = Inl (Plugin (''error reading dir entry: '' @ e))"
| "read_entries (Inr de # des) = (case read_entries des of
       Inl e \<Rightarrow> Inl e
     | Inr es \<Rightarrow> Inr ((if \<not> de_is_dir de then []
         else (case de_manifest de of
             Some (Inr m) \<Rightarrow> (let pkg = path_join (de_path de) (pm_name (em_base m) @ ''.tar.gz'')
                              in [manifest_entry m (path_text pkg) (de_length de pkg)])
           | Some (Inl _) \<Rightarrow> []
           | None \<Rightarrow> [])) @ es))"

definition discover_local :: "path \<Rightarrow> bool \<Rightarrow> string + (string + dir_entry) list \<Rightarrow> market_entry list ls_result" where
  "discover_local dir exists_dir listing =
     (if \<not> exists_dir then Inr []
      else (case listing of
          Inl e \<Rightarrow> Inl (Plugin (''cannot read dir '' @ quoted (path_text dir) @ '': '' @ e))
        | Inr des \<Rightarrow> read_entries des))"

text \<open>The search, over what each source gives.\<close>

definition entry_matches :: "string \<Rightarrow> market_entry \<Rightarrow> bool" where
  "entry_matches q p \<longleftrightarrow> contains_str (to_lower (me_name p)) q \<or> contains_str (to_lower (me_description p)) q
     \<or> list_ex (\<lambda>c. contains_str (to_lower c) q) (me_categories p) \<or> list_ex (\<lambda>t. contains_str (to_lower t) q) (me_tags p)"

fun discovered :: "market_entry list ls_result list \<Rightarrow> market_entry list" where
  "discovered [] = []"
| "discovered (Inr es # ds) = es @ discovered ds"
| "discovered (Inl _ # ds) = discovered ds"

definition market_search :: "string \<Rightarrow> market_entry list ls_result list \<Rightarrow> market_search_result ls_result" where
  "market_search query found =
     (let all = discovered found;
          plugins = (if query \<noteq> [] then filter (entry_matches (to_lower query)) all else all)
      in Inr \<lparr>ms_query = query, ms_total = length plugins, ms_plugins = plugins\<rparr>)"

section \<open>Installing\<close>

text \<open>What an installation finds: whether the directory of the plugin exists, the bytes that are downloaded, and for
  each operation on files its error or success.\<close>

record install_env =
  ie_create_target :: "string + unit"
  ie_plugin_dir_exists :: bool
  ie_send :: "string + unit"
  ie_bytes :: "string + string"
  ie_remove_old :: "string + unit"
  ie_create_dir :: "string + unit"
  ie_unpack :: "string + unit"
  ie_write :: "string + unit"

definition plugin_err :: "string \<Rightarrow> string + unit \<Rightarrow> unit ls_result" where
  "plugin_err text outcome = (case outcome of Inl e \<Rightarrow> Inl (Plugin (text @ e)) | Inr _ \<Rightarrow> Inr ())"

definition download :: "install_env \<Rightarrow> string ls_result" where
  "download env = (case ie_send env of
       Inl e \<Rightarrow> Inl (Plugin (''download failed: '' @ e))
     | Inr _ \<Rightarrow> (case ie_bytes env of Inl e \<Rightarrow> Inl (Plugin (''read response failed: '' @ e)) | Inr data \<Rightarrow> Inr data))"

definition verify :: "(string \<Rightarrow> string) \<Rightarrow> market_entry \<Rightarrow> install_options \<Rightarrow> string \<Rightarrow> unit ls_result" where
  "verify digest entry options data = (case me_checksum entry of
       None \<Rightarrow> Inr ()
     | Some expected \<Rightarrow>
         if \<not> io_skip_verify options
         then (let actual = digest data
               in if actual \<noteq> expected
                  then Inl (Plugin (''checksum mismatch for '' @ quoted (me_name entry) @ '': expected '' @ expected @ '', got '' @ actual))
                  else Inr ())
         else Inr ())"

definition unpack :: "install_env \<Rightarrow> market_entry \<Rightarrow> unit ls_result" where
  "unpack env entry =
     (if ends_with (me_download_url entry) ''.tar.gz'' \<or> ends_with (me_download_url entry) ''.tgz''
      then ok_bind (if ie_plugin_dir_exists env then plugin_err ''cannot remove old plugin dir: '' (ie_remove_old env) else Inr ())
             (\<lambda>_. ok_bind (plugin_err ''cannot create plugin dir: '' (ie_create_dir env))
             (\<lambda>_. plugin_err ''extraction failed: '' (ie_unpack env)))
      else plugin_err ''write failed: '' (ie_write env))"

definition market_install ::
  "(string \<Rightarrow> string) \<Rightarrow> install_env \<Rightarrow> market_entry \<Rightarrow> install_options \<Rightarrow> plugin_market \<Rightarrow> path ls_result \<times> plugin_market" where
  "market_install digest env entry options m =
     (let plugin_dir = path_join (io_target_dir options) (me_name entry)
      in case plugin_err ''cannot create install dir: '' (ie_create_target env) of
           Inl e \<Rightarrow> (Inl e, m)
         | Inr _ \<Rightarrow>
             if ie_plugin_dir_exists env \<and> \<not> io_force options \<and> hm_has (me_name entry) (mk_installed m)
             then (Inl (AlreadyExists (''plugin '' @ quoted (me_name entry) @ '' already installed'')), m)
             else (case download env of
                 Inl e \<Rightarrow> (Inl e, m)
               | Inr data \<Rightarrow> (case verify digest entry options data of
                   Inl e \<Rightarrow> (Inl e, m)
                 | Inr _ \<Rightarrow> (case unpack env entry of
                     Inl e \<Rightarrow> (Inl e, m)
                   | Inr _ \<Rightarrow> (Inr plugin_dir, m\<lparr>mk_installed := hm_insert (me_name entry) (me_version entry) (mk_installed m)\<rparr>)))))"

definition market_check_dependencies :: "('r, 'v) semver \<Rightarrow> plugin_dependency list \<Rightarrow> plugin_market \<Rightarrow> plugin_dependency list" where
  "market_check_dependencies sv deps m = check_dependencies sv (mk_installed m) deps"

definition add_source :: "registry_source \<Rightarrow> plugin_market \<Rightarrow> plugin_market" where
  "add_source s m = m\<lparr>mk_sources := mk_sources m @ [s]\<rparr>"

definition remove_source :: "string \<Rightarrow> plugin_market \<Rightarrow> bool \<times> plugin_market" where
  "remove_source ty m =
     (let kept = filter (\<lambda>s. \<not> contains_str (source_type s) ty) (mk_sources m)
      in (length kept < length (mk_sources m), m\<lparr>mk_sources := kept\<rparr>))"

section \<open>Properties\<close>

lemma install_ok_iff:
  "fst (market_install digest env entry options m) = Inr p \<longleftrightarrow>
     ie_create_target env = Inr () \<and> \<not> (ie_plugin_dir_exists env \<and> \<not> io_force options \<and> hm_has (me_name entry) (mk_installed m))
     \<and> (\<exists>data. download env = Inr data \<and> verify digest entry options data = Inr ()) \<and> unpack env entry = Inr ()
     \<and> p = path_join (io_target_dir options) (me_name entry)"
  by (auto simp: market_install_def Let_def plugin_err_def split: sum.splits)

text \<open>An installation that succeeds has downloaded bytes with the checksum of the entry, if the entry has one
  and verification is not skipped; it never replaces an indexed plugin whose directory exists unless forced; and the
  dependencies on the plugin are then checked against the installed version. One that fails leaves the index as it was.\<close>

theorem market_install_checked:
  "(fst (market_install digest env entry options m) = Inr p \<longrightarrow>
      (\<exists>data. ie_bytes env = Inr data
         \<and> (\<forall>h. me_checksum entry = Some h \<and> \<not> io_skip_verify options \<longrightarrow> digest data = h))
      \<and> (ie_plugin_dir_exists env \<and> hm_has (me_name entry) (mk_installed m) \<longrightarrow> io_force options)
      \<and> hm_get (mk_installed (snd (market_install digest env entry options m))) n
          = (if n = me_name entry then Some (me_version entry) else hm_get (mk_installed m) n))
   \<and> ((\<nexists>p. fst (market_install digest env entry options m) = Inr p) \<longrightarrow> snd (market_install digest env entry options m) = m)"
proof (cases "fst (market_install digest env entry options m)")
  case (Inl e)
  then show ?thesis by (auto simp: market_install_def Let_def split: sum.splits if_splits)
next
  case (Inr q)
  then have ok: "fst (market_install digest env entry options m) = Inr q" .
  from ok [unfolded install_ok_iff] obtain data where data: "download env = Inr data" "verify digest entry options data = Inr ()"
    by blast
  have "ie_bytes env = Inr data" using data(1) by (auto simp: download_def split: sum.splits)
  moreover have "me_checksum entry = Some h \<and> \<not> io_skip_verify options \<longrightarrow> digest data = h" for h
    using data(2) by (auto simp: verify_def Let_def split: if_splits)
  moreover have "mk_installed (snd (market_install digest env entry options m))
      = hm_insert (me_name entry) (me_version entry) (mk_installed m)"
    using ok by (auto simp: market_install_def Let_def split: sum.splits if_splits)
  moreover have "ie_plugin_dir_exists env \<and> hm_has (me_name entry) (mk_installed m) \<longrightarrow> io_force options"
    using ok [unfolded install_ok_iff] by blast
  ultimately show ?thesis using ok by auto
qed

definition sample_entry :: market_entry where
  "sample_entry = (manifest_entry (extended_of plugin_manifest_default) ''u'' None)\<lparr>me_name := ''fs'', me_checksum := Some ''bb''\<rparr>"

definition sample_install :: install_env where
  "sample_install = \<lparr>ie_create_target = Inr (), ie_plugin_dir_exists = False, ie_send = Inr (), ie_bytes = Inr ''b'',
     ie_remove_old = Inr (), ie_create_dir = Inr (), ie_unpack = Inr (), ie_write = Inr ()\<rparr>"

theorem market_install_checked_witness:
  "hm_get (mk_installed (snd (market_install (\<lambda>d. d @ d) sample_install sample_entry install_options_default
     (plugin_market_new [] [])))) ''fs'' = Some ''1.0.0''"
proof -
  have "fst (market_install (\<lambda>d. d @ d) sample_install sample_entry install_options_default (plugin_market_new [] []))
      = Inr [''plugins'', ''fs'']"
    by (simp add: install_ok_iff plugin_market_new_def sample_install_def sample_entry_def manifest_entry_def download_def
        verify_def unpack_def plugin_err_def ends_with_def install_options_default_def path_join_def components_def starts_with_def)
  with market_install_checked [of "\<lambda>d. d @ d" sample_install sample_entry install_options_default "plugin_market_new [] []"
      "[''plugins'', ''fs'']" "''fs''"]
  show ?thesis by (simp add: sample_entry_def manifest_entry_def extended_of_def plugin_manifest_default_def)
qed

text \<open>No source gives a checksum, so that what a search finds is installed without verification.\<close>

lemma entries_unchecked [simp]: "me_checksum (release_entry r) = None" "me_checksum (manifest_entry m url bytes) = None"
  by (simp_all add: release_entry_def manifest_entry_def Let_def)

lemma read_entries_unchecked: "read_entries des = Inr es \<Longrightarrow> e \<in> set es \<Longrightarrow> me_checksum e = None"
  by (induction des arbitrary: es rule: read_entries.induct)
    (auto simp: Let_def split: sum.splits option.splits if_splits)

lemma discovered_unchecked:
  assumes "discover_github repo gh = Inr es \<or> discover_url url u = Inr es \<or> discover_local dir x l = Inr es" "e \<in> set es"
  shows "me_checksum e = None \<and> verify digest e options data = Inr ()"
proof -
  have "discover_github repo gh = Inr es \<Longrightarrow> me_checksum e = None"
    using assms(2) by (auto simp: discover_github_def split: sum.splits if_splits)
  moreover have "discover_url url u = Inr es \<Longrightarrow> me_checksum e = None"
    using assms(2) by (auto simp: discover_url_def split: sum.splits if_splits)
  moreover have "discover_local dir x l = Inr es \<Longrightarrow> me_checksum e = None"
    using assms(2) read_entries_unchecked by (auto simp: discover_local_def split: sum.splits if_splits)
  ultimately have "me_checksum e = None" using assms(1) by blast
  then show ?thesis by (simp add: verify_def)
qed

text \<open>Removing the sources of type \<open>l\<close> removes the URLs and the local directories.\<close>

lemma remove_source_by_part:
  "mk_sources (snd (remove_source ''l'' (plugin_market_new [UrlSource u, LocalDir d, GitHubReleases g] []))) = [GitHubReleases g]"
  by (simp add: remove_source_def Let_def plugin_market_new_def starts_with_def)

end
