(* ===== verification/Agent_Manager.thy ===== *)
theory Agent_Manager
  imports Plugin_Events Agents
begin

text \<open>
  The manager of running agents (\<open>runtime/src/agent_manager.rs\<close>), which publishes their life on the
  event bus of the plugins, and the factory of agents (\<open>runtime/src/agent_factory.rs\<close>).

  What an agent answers to a call and the status it then reports are arguments; every operation
  holds the lock of the agents from beginning to end. A closure and a pipeline are numbers.
\<close>

section \<open>The manager\<close>

record agent_snapshot =
  as_agent_id :: ls_id
  as_status :: agent_status
  as_context :: ls_context
  as_state :: "nat list"
  as_created_at :: int

record agent_entry =
  ae_agent_id :: ls_id
  ae_name :: string
  ae_status :: agent_status
  ae_created_at :: int

record agent_manager =
  am_agents :: "(ls_id, agent_entry) hmap"
  am_event_bus :: "event_bus option"

definition agent_manager_new :: agent_manager where
  "agent_manager_new = \<lparr>am_agents = [], am_event_bus = None\<rparr>"

definition agent_manager_with_bus :: "event_bus \<Rightarrow> agent_manager" where
  "agent_manager_with_bus b = \<lparr>am_agents = [], am_event_bus = Some b\<rparr>"

definition manager_set_bus :: "event_bus \<Rightarrow> agent_manager \<Rightarrow> agent_manager" where
  "manager_set_bus b m = m\<lparr>am_event_bus := Some b\<rparr>"

text \<open>The number of agents, if the lock is free.\<close>

definition active_agent_count :: "bool \<Rightarrow> agent_manager \<Rightarrow> nat" where
  "active_agent_count lock_free m = (if lock_free then length (am_agents m) else 0)"

definition agent_event :: "int \<Rightarrow> event_type \<Rightarrow> ls_id \<Rightarrow> string \<Rightarrow> json \<Rightarrow> event" where
  "agent_event now ty i name payload = event_new now ty (''agent:'' @ show_id i)
     (Some (Object [(''agent_id'', Str (show_id i)), (''name'', Str name), (''payload'', payload)]))"

definition emit_agent_event :: "int \<Rightarrow> event_type \<Rightarrow> ls_id \<Rightarrow> string \<Rightarrow> json \<Rightarrow> agent_manager \<Rightarrow> agent_manager" where
  "emit_agent_event now ty i name payload m =
     m\<lparr>am_event_bus := map_option (publish_event (agent_event now ty i name payload)) (am_event_bus m)\<rparr>"

definition status_payload :: "string \<Rightarrow> json" where
  "status_payload s = Object [(''status'', Str s)]"

definition manager_register :: "int \<Rightarrow> ls_id \<Rightarrow> string \<Rightarrow> agent_manager \<Rightarrow> agent_manager" where
  "manager_register now i name m = emit_agent_event now AgentCreated i name (status_payload ''Idle'')
     (m\<lparr>am_agents := hm_insert i \<lparr>ae_agent_id = i, ae_name = name, ae_status = Idle, ae_created_at = now\<rparr> (am_agents m)\<rparr>)"

definition manager_missing :: "ls_id \<Rightarrow> ls_error" where
  "manager_missing i = NotFound (''agent '' @ show_id i)"

definition manager_status :: "ls_id \<Rightarrow> agent_manager \<Rightarrow> agent_status ls_result" where
  "manager_status i m = ok_or (manager_missing i) (map_option ae_status (hm_get (am_agents m) i))"

text \<open>A call of an agent that may change it: \<open>outcome\<close> is what the call returns, \<open>status\<close> what the agent then reports.
  On success it gives the agent's name.\<close>

definition call_agent ::
  "ls_id \<Rightarrow> unit ls_result \<Rightarrow> agent_status ls_result \<Rightarrow> agent_manager \<Rightarrow> string ls_result \<times> agent_manager" where
  "call_agent i outcome status m = (case hm_get (am_agents m) i of
       None \<Rightarrow> (Inl (manager_missing i), m)
     | Some e \<Rightarrow> (case outcome of
         Inl err \<Rightarrow> (Inl err, m)
       | Inr _ \<Rightarrow> (case status of
           Inl err \<Rightarrow> (Inl err, m)
         | Inr st \<Rightarrow> (Inr (ae_name e), m\<lparr>am_agents := hm_modify i (\<lambda>e. e\<lparr>ae_status := st\<rparr>) (am_agents m)\<rparr>))))"

definition quietly :: "string ls_result \<times> agent_manager \<Rightarrow> unit ls_result \<times> agent_manager" where
  "quietly x = (case x of (Inl e, m) \<Rightarrow> (Inl e, m) | (Inr _, m) \<Rightarrow> (Inr (), m))"

definition publishing ::
  "int \<Rightarrow> event_type \<Rightarrow> ls_id \<Rightarrow> json \<Rightarrow> string ls_result \<times> agent_manager \<Rightarrow> unit ls_result \<times> agent_manager" where
  "publishing now ty i payload x = (case x of
     (Inl e, m) \<Rightarrow> (Inl e, m) | (Inr name, m) \<Rightarrow> (Inr (), emit_agent_event now ty i name payload m))"

definition manager_pause where
  "manager_pause i outcome status m = quietly (call_agent i outcome status m)"

definition manager_resume where
  "manager_resume i outcome status m = quietly (call_agent i outcome status m)"

definition manager_restore where
  "manager_restore i outcome status m = quietly (call_agent i outcome status m)"

definition manager_cancel where
  "manager_cancel now i outcome status m =
     publishing now (AgentFailed ''cancelled'') i (status_payload ''cancelled'') (call_agent i outcome status m)"

definition manager_restart where
  "manager_restart now i outcome status m =
     publishing now AgentStarted i (status_payload ''restarted'') (call_agent i outcome status m)"

definition manager_update_config where
  "manager_update_config now i config outcome status m =
     publishing now AgentCreated i (Object [(''status'', Str ''config_updated''), (''config'', config)]) (call_agent i outcome status m)"

definition manager_snapshot :: "ls_id \<Rightarrow> agent_snapshot ls_result \<Rightarrow> agent_manager \<Rightarrow> agent_snapshot ls_result" where
  "manager_snapshot i answer m = (if hm_has i (am_agents m) then answer else Inl (manager_missing i))"

record agent_summary =
  ay_agent_id :: ls_id
  ay_name :: string
  ay_status :: agent_status
  ay_created_at :: int

definition manager_list :: "agent_manager \<Rightarrow> agent_summary list" where
  "manager_list m = map (\<lambda>e. \<lparr>ay_agent_id = ae_agent_id e, ay_name = ae_name e, ay_status = ae_status e,
     ay_created_at = ae_created_at e\<rparr>) (hm_values (am_agents m))"

definition manager_remove :: "int \<Rightarrow> ls_id \<Rightarrow> agent_manager \<Rightarrow> unit ls_result \<times> agent_manager" where
  "manager_remove now i m = (case hm_get (am_agents m) i of
       None \<Rightarrow> (Inl (manager_missing i), m)
     | Some e \<Rightarrow> (Inr (), emit_agent_event now (AgentFailed ''removed'') i (ae_name e) (status_payload ''removed'')
         (m\<lparr>am_agents := hm_remove i (am_agents m)\<rparr>)))"

definition manager_count :: "agent_manager \<Rightarrow> nat" where
  "manager_count m = length (am_agents m)"

section \<open>The factory\<close>

record agent_registration =
  ar_name :: string
  ar_description :: string
  ar_factory :: nat

record agent_factory =
  af_registrations :: "(string, agent_registration) hmap"
  af_default_pipeline :: "nat option"

definition agent_factory_new :: agent_factory where
  "agent_factory_new = \<lparr>af_registrations = [], af_default_pipeline = None\<rparr>"

definition with_default_pipeline :: "nat \<Rightarrow> agent_factory \<Rightarrow> agent_factory" where
  "with_default_pipeline p f = f\<lparr>af_default_pipeline := Some p\<rparr>"

definition factory_register :: "agent_registration \<Rightarrow> agent_factory \<Rightarrow> agent_factory" where
  "factory_register reg f = f\<lparr>af_registrations := hm_insert (ar_name reg) reg (af_registrations f)\<rparr>"

definition register_factory :: "string \<Rightarrow> nat \<Rightarrow> agent_factory \<Rightarrow> agent_factory" where
  "register_factory name closure f = f\<lparr>af_registrations := hm_insert name
     \<lparr>ar_name = name, ar_description = ''Custom agent '' @ quoted name, ar_factory = closure\<rparr> (af_registrations f)\<rparr>"

definition factory_supports :: "string \<Rightarrow> agent_factory \<Rightarrow> bool" where
  "factory_supports name f \<longleftrightarrow> hm_has name (af_registrations f) \<or> af_default_pipeline f \<noteq> None"

definition shallow_clone :: "agent_factory \<Rightarrow> agent_factory" where
  "shallow_clone f = \<lparr>af_registrations = [], af_default_pipeline = af_default_pipeline f\<rparr>"

text \<open>The identifier of the agent that is created: \<open>id_of\<close> gives the one of the agent a closure makes, a pipeline
  agent gets a fresh one.\<close>

definition factory_create :: "(nat \<Rightarrow> ls_id) \<Rightarrow> ls_id \<Rightarrow> string \<Rightarrow> agent_factory \<Rightarrow> ls_id ls_result" where
  "factory_create id_of fresh name f = (case hm_get (af_registrations f) name of
       Some reg \<Rightarrow> Inr (id_of (ar_factory reg))
     | None \<Rightarrow> (case af_default_pipeline f of
         Some _ \<Rightarrow> Inr fresh
       | None \<Rightarrow> Inl (NotFound (''no agent factory registered for '' @ quoted name @ '', and no default pipeline configured''))))"

definition supported_agents :: "agent_factory \<Rightarrow> string list" where
  "supported_agents f = [''default'']"

lemma factory_create_ok: "(\<exists>i. factory_create id_of fresh name f = Inr i) \<longleftrightarrow> factory_supports name f"
  by (auto simp: factory_create_def factory_supports_def hm_get_None dest: hm_get_dom split: option.split)

section \<open>What the manager publishes\<close>

lemma emit_agent_event_agents [simp]: "am_agents (emit_agent_event now ty i name payload m) = am_agents m"
  by (simp add: emit_agent_event_def)

lemma call_agent_cases:
  obtains (missing) "hm_get (am_agents m) i = None" "call_agent i outcome status m = (Inl (manager_missing i), m)"
  | (failed) err e where "hm_get (am_agents m) i = Some e" "call_agent i outcome status m = (Inl err, m)"
      "outcome = Inl err \<or> (outcome = Inr () \<and> status = Inl err)"
  | (done_ok) e st where "hm_get (am_agents m) i = Some e" "outcome = Inr ()" "status = Inr st"
      "call_agent i outcome status m = (Inr (ae_name e), m\<lparr>am_agents := hm_modify i (\<lambda>e. e\<lparr>ae_status := st\<rparr>) (am_agents m)\<rparr>)"
proof (cases "hm_get (am_agents m) i")
  case None
  then show ?thesis by (intro missing) (auto simp: call_agent_def)
next
  case (Some e)
  show ?thesis
  proof (cases "\<exists>err. outcome = Inl err \<or> (outcome = Inr () \<and> status = Inl err)")
    case True
    then obtain err where "outcome = Inl err \<or> (outcome = Inr () \<and> status = Inl err)" by blast
    with Some show ?thesis by (intro failed) (auto simp: call_agent_def)
  next
    case False
    then obtain st where "outcome = Inr ()" "status = Inr st" by (metis (full_types) obj_sumE unit.exhaust)
    with Some show ?thesis by (intro done_ok) (auto simp: call_agent_def)
  qed
qed

text \<open>A call of an agent succeeds exactly if the agent is registered, the agent accepts it and then reports its
  status; then the status reported is the one the manager answers, every other agent keeps its own, and a
  cancellation starts the callbacks of the failure \<open>cancelled\<close>, once each. A call that fails changes nothing and
  publishes nothing.\<close>

theorem cancel_agent_exact:
  assumes "manager_cancel now i outcome status m = (res, m')"
  shows "(res = Inr () \<longleftrightarrow> manager_status i m \<noteq> Inl (manager_missing i) \<and> outcome = Inr () \<and> (\<exists>st. status = Inr st))
    \<and> (res = Inr () \<longrightarrow> manager_status i m' = status \<and> (j \<noteq> i \<longrightarrow> manager_status j m' = manager_status j m)
        \<and> (am_event_bus m = Some b \<longrightarrow> (\<exists>b' name. am_event_bus m' = Some b'
             \<and> eb_spawned b' = eb_spawned b @ map (\<lambda>cb. (cb, agent_event now (AgentFailed ''cancelled'') i name
                   (status_payload ''cancelled''))) (callbacks_for (AgentFailed ''cancelled'') (eb_registrar b)))))
    \<and> (res \<noteq> Inr () \<longrightarrow> m' = m)"
proof (cases rule: call_agent_cases [where m = m and i = i and outcome = outcome and status = status])
  case missing
  with assms show ?thesis by (auto simp: manager_cancel_def publishing_def manager_status_def)
next
  case (failed err e)
  with assms show ?thesis by (auto simp: manager_cancel_def publishing_def manager_status_def)
next
  case (done_ok e st)
  with assms have "res = Inr ()" and m': "m' = emit_agent_event now (AgentFailed ''cancelled'') i (ae_name e)
      (status_payload ''cancelled'') (m\<lparr>am_agents := hm_modify i (\<lambda>e. e\<lparr>ae_status := st\<rparr>) (am_agents m)\<rparr>)"
    by (auto simp: manager_cancel_def publishing_def)
  then show ?thesis using done_ok
    by (auto simp: manager_status_def emit_agent_event_def publish_event_def agent_event_def event_new_def)
qed

definition sample_manager :: agent_manager where
  "sample_manager = manager_register 0 3 ''a'' (agent_manager_with_bus
     (event_bus_new\<lparr>eb_registrar := snd (handler_register (AgentFailed ''cancelled'') 7 ''log'' registrar_new)\<rparr>))"

theorem cancel_agent_exact_witness:
  "manager_status 3 (snd (manager_cancel 1 3 (Inr ()) (Inr Failed) sample_manager)) = Inr Failed"
proof -
  obtain res m' where run: "manager_cancel 1 3 (Inr ()) (Inr Failed) sample_manager = (res, m')" by fastforce
  have "manager_status 3 sample_manager = Inr Idle"
    by (simp add: sample_manager_def manager_register_def manager_status_def)
  with cancel_agent_exact [OF run] run show ?thesis by simp
qed

text \<open>An update of the configuration is published as the creation of an agent.\<close>

lemma update_published_as_created:
  assumes "hm_get (am_agents m) i = Some e" "am_event_bus m = Some b"
  shows "\<exists>b'. am_event_bus (snd (manager_update_config now i config (Inr ()) (Inr st) m)) = Some b'
    \<and> map fst (eb_spawned b') = map fst (eb_spawned b) @ callbacks_for AgentCreated (eb_registrar b)"
  using assms by (simp add: manager_update_config_def call_agent_def publishing_def emit_agent_event_def publish_event_def
      agent_event_def event_new_def comp_def)

end
