(* ===== verification/Runtime_State.thy ===== *)
theory Runtime_State
  imports Std_Text
begin

text \<open>
  The life cycle of the runtime, its sessions and its internal scheduler (crate \<open>runtime\<close>,
  \<open>lifecycle.rs\<close>, \<open>session.rs\<close>, \<open>scheduler.rs\<close>).

  The locks are never poisoned, because no code panics while it holds one. The arithmetic of
  dates is an argument: the moment a number of seconds later, or None where \<open>chrono\<close> panics.
\<close>

section \<open>The life cycle\<close>

datatype lifecycle_state = Uninitialized | Initializing | LcRunning | Pausing | LcPaused | ShuttingDown | LcStopped | LcFailed

fun lifecycle_debug :: "lifecycle_state \<Rightarrow> string" where
  "lifecycle_debug Uninitialized = ''Uninitialized''"
| "lifecycle_debug Initializing = ''Initializing''"
| "lifecycle_debug LcRunning = ''Running''"
| "lifecycle_debug Pausing = ''Pausing''"
| "lifecycle_debug LcPaused = ''Paused''"
| "lifecycle_debug ShuttingDown = ''ShuttingDown''"
| "lifecycle_debug LcStopped = ''Stopped''"
| "lifecycle_debug LcFailed = ''Failed''"

fun can_transition_to :: "lifecycle_state \<Rightarrow> lifecycle_state \<Rightarrow> bool" where
  "can_transition_to Uninitialized Initializing = True"
| "can_transition_to Initializing LcRunning = True"
| "can_transition_to Initializing LcFailed = True"
| "can_transition_to LcRunning Pausing = True"
| "can_transition_to Pausing LcPaused = True"
| "can_transition_to LcPaused LcRunning = True"
| "can_transition_to LcRunning ShuttingDown = True"
| "can_transition_to LcPaused ShuttingDown = True"
| "can_transition_to ShuttingDown LcStopped = True"
| "can_transition_to ShuttingDown LcFailed = True"
| "can_transition_to _ LcFailed = True"
| "can_transition_to LcFailed LcStopped = True"
| "can_transition_to _ _ = False"

definition is_running :: "lifecycle_state \<Rightarrow> bool" where
  "is_running s \<longleftrightarrow> s = LcRunning"

definition is_stopped :: "lifecycle_state \<Rightarrow> bool" where
  "is_stopped s \<longleftrightarrow> s = LcStopped \<or> s = LcFailed"

definition can_accept_tasks :: "lifecycle_state \<Rightarrow> bool" where
  "can_accept_tasks s \<longleftrightarrow> s = LcRunning"

definition transition :: "lifecycle_state \<Rightarrow> lifecycle_state \<Rightarrow> lifecycle_state ls_result \<times> lifecycle_state" where
  "transition new s =
     (if \<not> can_transition_to s new
      then (Inl (RuntimeState (''cannot transition from '' @ lifecycle_debug s @ '' to '' @ lifecycle_debug new)), s)
      else (Inr new, new))"

definition is_ready :: "lifecycle_state \<Rightarrow> bool" where
  "is_ready s \<longleftrightarrow> is_running s"

lemma transition_Inr: "fst (transition new s) = Inr t \<longleftrightarrow> can_transition_to s new \<and> t = new"
  by (auto simp: transition_def)

text \<open>A runtime that was stopped or failed never runs again, whatever transitions are tried.\<close>

lemma stopped_for_good:
  "is_stopped s \<Longrightarrow> is_stopped (fold (\<lambda>new s. snd (transition new s)) attempts s)"
proof (induction attempts arbitrary: s)
  case (Cons new attempts)
  have "is_stopped (snd (transition new s))"
    using Cons.prems by (cases s; cases new) (auto simp: transition_def is_stopped_def)
  with Cons.IH show ?case by simp
qed simp

section \<open>Sessions\<close>

datatype session_state = SessionActive | Expiring | Expired | Terminated

record session_info =
  sn_session_id :: ls_id
  sn_user_id :: "string option"
  sn_tenant_id :: "string option"
  sn_state :: session_state
  sn_created_at :: int
  sn_expires_at :: int
  sn_metadata :: "(string, string) hmap"

record session_manager =
  sm_sessions :: "(ls_id, session_info) hmap"
  sm_default_ttl_seconds :: nat

definition session_manager_new :: "nat \<Rightarrow> session_manager" where
  "session_manager_new ttl = \<lparr>sm_sessions = [], sm_default_ttl_seconds = ttl\<rparr>"

definition session_create ::
  "(int \<Rightarrow> int \<Rightarrow> int option) \<Rightarrow> int \<Rightarrow> ls_context \<Rightarrow> session_manager \<Rightarrow> session_info ls_result option \<times> session_manager" where
  "session_create later now ctx m = (case later now (as_i64 (sm_default_ttl_seconds m)) of
       None \<Rightarrow> (None, m)
     | Some expires \<Rightarrow>
         (let info = \<lparr>sn_session_id = ctx_session ctx, sn_user_id = ctx_user ctx, sn_tenant_id = ctx_tenant ctx,
                sn_state = SessionActive, sn_created_at = now, sn_expires_at = expires, sn_metadata = ctx_metadata ctx\<rparr>
          in (Some (Inr info), m\<lparr>sm_sessions := hm_insert (ctx_session ctx) info (sm_sessions m)\<rparr>)))"

definition session_get :: "ls_id \<Rightarrow> session_manager \<Rightarrow> session_info ls_result" where
  "session_get i m = ok_or (SessionNotFound (show_id i)) (hm_get (sm_sessions m) i)"

definition session_renew ::
  "(int \<Rightarrow> int \<Rightarrow> int option) \<Rightarrow> int \<Rightarrow> ls_id \<Rightarrow> nat \<Rightarrow> session_manager \<Rightarrow> session_info ls_result option \<times> session_manager" where
  "session_renew later now i ttl_seconds m = (case hm_get (sm_sessions m) i of
       None \<Rightarrow> (Some (Inl (SessionNotFound (show_id i))), m)
     | Some info \<Rightarrow>
         if sn_state info = Terminated then (Some (Inl (SessionExpired (show_id i))), m)
         else (case later now (as_i64 ttl_seconds) of
             None \<Rightarrow> (None, m)
           | Some expires \<Rightarrow>
               (let info' = info\<lparr>sn_expires_at := expires, sn_state := SessionActive\<rparr>
                in (Some (Inr info'), m\<lparr>sm_sessions := hm_insert i info' (sm_sessions m)\<rparr>))))"

definition session_terminate :: "ls_id \<Rightarrow> session_manager \<Rightarrow> unit ls_result \<times> session_manager" where
  "session_terminate i m = (case hm_get (sm_sessions m) i of
       None \<Rightarrow> (Inl (SessionNotFound (show_id i)), m)
     | Some info \<Rightarrow> (Inr (), m\<lparr>sm_sessions := hm_insert i (info\<lparr>sn_state := Terminated\<rparr>) (sm_sessions m)\<rparr>))"

definition expired_sessions :: "int \<Rightarrow> session_manager \<Rightarrow> ls_id list" where
  "expired_sessions now m =
     map fst (filter (\<lambda>(_, info). sn_expires_at info < now \<and> sn_state info \<noteq> Terminated) (sm_sessions m))"

definition clean_expired :: "int \<Rightarrow> session_manager \<Rightarrow> nat \<times> session_manager" where
  "clean_expired now m =
     (let expired = expired_sessions now m
      in (length expired,
          m\<lparr>sm_sessions := fold (\<lambda>i. hm_modify i (\<lambda>info. info\<lparr>sn_state := Expired\<rparr>)) expired (sm_sessions m)\<rparr>))"

definition active_count :: "session_manager \<Rightarrow> nat" where
  "active_count m = length (filter (\<lambda>s. sn_state s = SessionActive) (hm_values (sm_sessions m)))"

definition list_all_sessions :: "session_manager \<Rightarrow> session_info list" where
  "list_all_sessions m = hm_values (sm_sessions m)"

lemma hm_get_fold_modify:
  "distinct ids \<Longrightarrow> hm_get (fold (\<lambda>i. hm_modify i f) ids m) k = (if k \<in> set ids then map_option f (hm_get m k) else hm_get m k)"
  by (induction ids arbitrary: m) auto

lemma hm_keys_fold_modify: "hm_keys (fold (\<lambda>i. hm_modify i f) ids m) = hm_keys m"
  by (induction ids arbitrary: m) auto

lemma clean_expired_get:
  assumes "hm_ok (sm_sessions m)"
  shows "hm_get (sm_sessions (snd (clean_expired now m))) i = map_option (\<lambda>info.
      if sn_expires_at info < now \<and> sn_state info \<noteq> Terminated then info\<lparr>sn_state := Expired\<rparr> else info) (hm_get (sm_sessions m) i)"
proof -
  have "distinct (expired_sessions now m)"
    using assms unfolding expired_sessions_def hm_ok_def by (rule distinct_map_filter)
  moreover have "i \<in> set (expired_sessions now m) \<longleftrightarrow>
      (\<exists>info. hm_get (sm_sessions m) i = Some info \<and> sn_expires_at info < now \<and> sn_state info \<noteq> Terminated)"
    using hm_ok_mem [OF assms] by (force simp: expired_sessions_def)
  ultimately show ?thesis
    by (cases "hm_get (sm_sessions m) i") (auto simp: clean_expired_def Let_def hm_get_fold_modify)
qed

inductive session_step :: "session_manager \<Rightarrow> session_manager \<Rightarrow> bool" where
  sn_create: "session_create later now ctx m = (res, m') \<Longrightarrow> session_step m m'"
| sn_renew: "session_renew later now i ttl m = (res, m') \<Longrightarrow> session_step m m'"
| sn_terminate: "session_terminate i m = (done', m') \<Longrightarrow> session_step m m'"
| sn_clean: "session_step m (snd (clean_expired now m))"

definition session_inv :: "session_manager \<Rightarrow> bool" where
  "session_inv m \<longleftrightarrow> hm_ok (sm_sessions m)
     \<and> (\<forall>i info. hm_get (sm_sessions m) i = Some info \<longrightarrow> sn_session_id info = i \<and> sn_state info \<noteq> Expiring)"

definition session_init :: "session_manager \<Rightarrow> bool" where
  "session_init m \<longleftrightarrow> (\<exists>ttl. m = session_manager_new ttl)"

lemma clean_expired_ok: "hm_ok (sm_sessions m) \<Longrightarrow> hm_ok (sm_sessions (snd (clean_expired now m)))"
  by (simp add: clean_expired_def Let_def hm_ok_def hm_keys_fold_modify)

interpretation session_machine: machine session_init session_step session_inv
proof
  show "session_init m \<Longrightarrow> session_inv m" for m
    by (auto simp: session_init_def session_manager_new_def session_inv_def)
  show "session_inv m'" if inv: "session_inv m" and step: "session_step m m'" for m m'
    using step
  proof cases
    case (sn_create later now ctx res)
    with inv show ?thesis by (auto simp: session_create_def session_inv_def Let_def split: option.splits if_splits)
  next
    case (sn_renew later now i ttl res)
    with inv show ?thesis by (auto simp: session_renew_def session_inv_def Let_def split: option.splits if_splits)
  next
    case (sn_terminate i res)
    with inv show ?thesis by (auto simp: session_terminate_def session_inv_def split: option.splits if_splits)
  next
    case (sn_clean now)
    with inv show ?thesis
      by (auto simp: session_inv_def clean_expired_ok clean_expired_get)
  qed
qed

lemma active_not_expired:
  "info = (if c then old\<lparr>sn_state := Expired\<rparr> else old) \<Longrightarrow> sn_state info = SessionActive \<Longrightarrow> \<not> c \<and> info = old"
  by (cases c) auto

text \<open>Cleaning marks exactly the sessions whose time is over and that were not terminated as expired, so that
  no session past its time counts as active, and changes nothing else; a terminated session stays terminated
  under renewal and cleaning, and only creating it again under its identifier revives it.\<close>

theorem clean_expired_exact:
  assumes "reaches session_init session_step m"
  shows "(session_get i (snd (clean_expired now m)) = Inr info' \<longleftrightarrow>
        (\<exists>info. session_get i m = Inr info
           \<and> info' = (if sn_expires_at info < now \<and> sn_state info \<noteq> Terminated then info\<lparr>sn_state := Expired\<rparr> else info)))
    \<and> (session_get i m = Inr info \<and> sn_state info = Terminated \<longrightarrow>
        session_get i (snd (clean_expired now m)) = Inr info
        \<and> session_renew later now i ttl m = (Some (Inl (SessionExpired (show_id i))), m))
    \<and> (info \<in> set (list_all_sessions (snd (clean_expired now m))) \<and> sn_state info = SessionActive \<longrightarrow> now \<le> sn_expires_at info)"
proof -
  from session_machine.reaches_inv [OF assms] have ok: "hm_ok (sm_sessions m)" by (simp add: session_inv_def)
  note get = clean_expired_get [OF ok]
  have "now \<le> sn_expires_at info"
    if "info \<in> set (list_all_sessions (snd (clean_expired now m)))" "sn_state info = SessionActive"
  proof -
    from that(1) obtain k where "hm_get (sm_sessions (snd (clean_expired now m))) k = Some info"
      using hm_ok_mem [OF clean_expired_ok [OF ok, of now]] by (fastforce simp: list_all_sessions_def)
    then obtain old where old: "info = (if sn_expires_at old < now \<and> sn_state old \<noteq> Terminated
        then old\<lparr>sn_state := Expired\<rparr> else old)" by (auto simp: get)
    from active_not_expired [OF this that(2)] that(2) show ?thesis by force
  qed
  moreover have "session_get i (snd (clean_expired now m)) = Inr info' \<longleftrightarrow>
      (\<exists>info. session_get i m = Inr info
         \<and> info' = (if sn_expires_at info < now \<and> sn_state info \<noteq> Terminated then info\<lparr>sn_state := Expired\<rparr> else info))"
    unfolding session_get_def get by (cases "hm_get (sm_sessions m) i") auto
  moreover have "session_get i m = Inr info \<and> sn_state info = Terminated \<longrightarrow>
      session_get i (snd (clean_expired now m)) = Inr info
      \<and> session_renew later now i ttl m = (Some (Inl (SessionExpired (show_id i))), m)"
    unfolding session_get_def get session_renew_def by (cases "hm_get (sm_sessions m) i") simp_all
  ultimately show ?thesis by blast
qed

definition sample_sessions :: session_manager where
  "sample_sessions = snd (session_create (\<lambda>t s. Some (t + s)) 100 (ctx_new 0 7 8) (session_manager_new 50))"

lemma sample_sessions_reachable: "reaches session_init session_step sample_sessions"
proof (rule reaches_step)
  show "reaches session_init session_step (session_manager_new 50)"
    by (rule reaches_init) (auto simp: session_init_def)
  show "session_step (session_manager_new 50) sample_sessions"
    unfolding sample_sessions_def by (rule sn_create) (rule surjective_pairing)
qed

lemma sample_sessions_get:
  "session_get 7 sample_sessions = Inr \<lparr>sn_session_id = 7, sn_user_id = None, sn_tenant_id = None,
     sn_state = SessionActive, sn_created_at = 100, sn_expires_at = 150, sn_metadata = []\<rparr>"
  by (simp add: sample_sessions_def session_create_def session_manager_new_def session_get_def ctx_new_def Let_def)

theorem clean_expired_exact_witness:
  "\<exists>info. session_get 7 (snd (clean_expired 151 sample_sessions)) = Inr info \<and> sn_state info = Expired"
  using clean_expired_exact [OF sample_sessions_reachable, of 7 151] sample_sessions_get by simp

text \<open>A session that expired counts again at every cleaning.\<close>

lemma expired_counted_again:
  assumes "hm_ok (sm_sessions m)"
  shows "fst (clean_expired now (snd (clean_expired now m))) = fst (clean_expired now m)"
proof -
  let ?m = "snd (clean_expired now m)"
  have ok: "hm_ok (sm_sessions ?m)" by (rule clean_expired_ok [OF assms])
  have mem: "i \<in> set (expired_sessions now n) \<longleftrightarrow>
      (\<exists>info. hm_get (sm_sessions n) i = Some info \<and> sn_expires_at info < now \<and> sn_state info \<noteq> Terminated)"
    if "hm_ok (sm_sessions n)" for i n
    using hm_ok_mem [OF that] by (force simp: expired_sessions_def)
  have "i \<in> set (expired_sessions now ?m) \<longleftrightarrow> i \<in> set (expired_sessions now m)" for i
    unfolding mem [OF ok] mem [OF assms] clean_expired_get [OF assms] by (cases "hm_get (sm_sessions m) i") auto
  then have "set (expired_sessions now ?m) = set (expired_sessions now m)" by blast
  moreover have "distinct (expired_sessions now n)" if "hm_ok (sm_sessions n)" for n
    using that unfolding expired_sessions_def hm_ok_def by (rule distinct_map_filter)
  ultimately have "length (expired_sessions now ?m) = length (expired_sessions now m)"
    using distinct_card ok assms by metis
  then show ?thesis by (simp add: clean_expired_def Let_def)
qed

text \<open>A session that was terminated is active again once its context creates it.\<close>

lemma terminated_created_again:
  "later now (as_i64 (sm_default_ttl_seconds m)) = Some t \<Longrightarrow>
   \<exists>info. session_get (ctx_session ctx) (snd (session_create later now ctx m)) = Inr info \<and> sn_state info = SessionActive"
  by (simp add: session_create_def session_get_def Let_def)

section \<open>The internal scheduler\<close>

datatype task_state = TaskPending | TaskRunning | TaskCompleted | TaskFailed string | TaskCancelled

record scheduled_task =
  sk_task_id :: ls_id
  sk_session_id :: ls_id
  sk_priority :: nat
  sk_status :: task_state
  sk_created_at :: int

record internal_scheduler =
  is_max_concurrent :: nat
  is_paused :: bool
  is_permits :: nat
  is_tasks :: "(ls_id, scheduled_task) hmap"
  is_completed_count :: "64 word"
  is_failed_count :: "64 word"

definition internal_scheduler_new :: "nat \<Rightarrow> internal_scheduler" where
  "internal_scheduler_new n = \<lparr>is_max_concurrent = n, is_paused = False, is_permits = n, is_tasks = [],
     is_completed_count = 0, is_failed_count = 0\<rparr>"

text \<open>Submitting: the task is entered; then a permit is acquired, and released when the function returns. The future is
  dropped without being run.\<close>

definition scheduler_enter :: "int \<Rightarrow> ls_context \<Rightarrow> ls_id \<Rightarrow> internal_scheduler \<Rightarrow> unit ls_result \<times> internal_scheduler" where
  "scheduler_enter now ctx i s =
     (if is_paused s then (Inl (RuntimeState ''scheduler is paused''), s)
      else (Inr (), s\<lparr>is_tasks := hm_insert i \<lparr>sk_task_id = i, sk_session_id = ctx_session ctx, sk_priority = 0,
          sk_status = TaskPending, sk_created_at = now\<rparr> (is_tasks s)\<rparr>))"

definition permit_acquire :: "internal_scheduler \<Rightarrow> internal_scheduler option" where
  "permit_acquire s = (if is_permits s = 0 then None else Some (s\<lparr>is_permits := is_permits s - 1\<rparr>))"

definition permit_release :: "internal_scheduler \<Rightarrow> internal_scheduler" where
  "permit_release s = s\<lparr>is_permits := is_permits s + 1\<rparr>"

definition mark_completed :: "ls_id \<Rightarrow> internal_scheduler \<Rightarrow> unit ls_result \<times> internal_scheduler" where
  "mark_completed i s =
     (if hm_has i (is_tasks s)
      then (Inr (), s\<lparr>is_tasks := hm_modify i (\<lambda>t. t\<lparr>sk_status := TaskCompleted\<rparr>) (is_tasks s),
              is_completed_count := is_completed_count s + 1\<rparr>)
      else (Inl (NotFound (''task '' @ show_id i)), s))"

definition mark_failed :: "ls_id \<Rightarrow> string \<Rightarrow> internal_scheduler \<Rightarrow> unit ls_result \<times> internal_scheduler" where
  "mark_failed i e s =
     (if hm_has i (is_tasks s)
      then (Inr (), s\<lparr>is_tasks := hm_modify i (\<lambda>t. t\<lparr>sk_status := TaskFailed e\<rparr>) (is_tasks s),
              is_failed_count := is_failed_count s + 1\<rparr>)
      else (Inl (NotFound (''task '' @ show_id i)), s))"

definition scheduler_pause :: "internal_scheduler \<Rightarrow> internal_scheduler" where
  "scheduler_pause s = s\<lparr>is_paused := True\<rparr>"

definition scheduler_resume :: "internal_scheduler \<Rightarrow> internal_scheduler" where
  "scheduler_resume s = s\<lparr>is_paused := False\<rparr>"

definition scheduler_active_count :: "internal_scheduler \<Rightarrow> nat" where
  "scheduler_active_count s = is_max_concurrent s - is_permits s"

definition scheduler_task_count :: "internal_scheduler \<Rightarrow> nat" where
  "scheduler_task_count s = length (is_tasks s)"

text \<open>A submission that is not refused leaves the task pending and the permits as they were.\<close>

lemma submit_leaves_pending:
  assumes "scheduler_enter now ctx i s = (Inr (), s1)" "permit_acquire s1 = Some s2"
  shows "is_permits (permit_release s2) = is_permits s
    \<and> (\<exists>t. hm_get (is_tasks (permit_release s2)) i = Some t \<and> sk_status t = TaskPending)"
  using assms by (auto simp: scheduler_enter_def permit_acquire_def permit_release_def split: if_splits)

text \<open>A task that is reported completed twice counts twice.\<close>

lemma completed_twice:
  assumes "hm_has i (is_tasks s)"
  shows "is_completed_count (snd (mark_completed i (snd (mark_completed i s)))) = is_completed_count s + 2"
  using assms by (simp add: mark_completed_def)

end
