(* ===== verification/Event_Topics.thy ===== *)
theory Event_Topics
  imports Std_Text
begin

text \<open>
  The event bus of the runtime (crate \<open>eventbus\<close>, with the types of \<open>traits/src/event_bus.rs\<close>) and
  the events the runtime publishes on it (\<open>runtime/src/events.rs\<close>).

  A handler is a number that names the closure; what it returns is ignored by the code. Fresh
  identifiers, the clock and the text of a JSON value are arguments. Publishing appends to the
  history under one lock and calls the handlers under another: two steps.
\<close>

section \<open>Topics\<close>

definition topic_new :: "string \<Rightarrow> string \<Rightarrow> string \<Rightarrow> string" where
  "topic_new domain resource action = ''ls.'' @ domain @ ''.'' @ resource @ ''.'' @ action"

definition topic_parse :: "string \<Rightarrow> string option" where
  "topic_parse s = (let parts = split_on (CHR ''.'') s
     in if length parts \<ge> 4 \<and> parts ! 0 = ''ls'' then Some s else None)"

definition strip_suffix :: "string \<Rightarrow> string \<Rightarrow> string option" where
  "strip_suffix s p = (if length p \<le> length s \<and> drop (length s - length p) s = p
     then Some (take (length s - length p) s) else None)"

definition topic_matches :: "string \<Rightarrow> string \<Rightarrow> bool" where
  "topic_matches pattern topic =
     (if pattern = ''*'' \<or> pattern = topic then True
      else (case strip_suffix pattern ''.*'' of Some prefix \<Rightarrow> starts_with topic prefix | None \<Rightarrow> False))"

section \<open>Events\<close>

record ls_event =
  le_event_id :: string
  le_topic :: string
  le_session_id :: string
  le_trace_id :: string
  le_timestamp :: int
  le_payload :: json
  le_version :: nat
  le_sanitized :: bool

definition ls_event_new :: "ls_id \<Rightarrow> int \<Rightarrow> string \<Rightarrow> string \<Rightarrow> string \<Rightarrow> json \<Rightarrow> ls_event" where
  "ls_event_new fresh now topic session_id trace_id payload = \<lparr>le_event_id = show_id fresh, le_topic = topic,
     le_session_id = session_id, le_trace_id = trace_id, le_timestamp = now, le_payload = payload, le_version = 1,
     le_sanitized = False\<rparr>"

definition mark_sanitized :: "ls_event \<Rightarrow> ls_event" where
  "mark_sanitized e = e\<lparr>le_sanitized := True\<rparr>"

datatype bus_delivery_status = DeliveryPending | Delivered | DeliveryFailed | DeadLettered

record dead_letter_entry =
  dl_event :: ls_event
  dl_failure_reason :: string
  dl_retry_count :: nat
  dl_failed_at :: int

record bus_event =
  be_event_id :: string
  be_topic :: string
  be_session_id :: string
  be_trace_id :: string
  be_payload :: json
  be_timestamp :: int

definition from_ls_event :: "ls_event \<Rightarrow> bus_event" where
  "from_ls_event e = \<lparr>be_event_id = le_event_id e, be_topic = le_topic e, be_session_id = le_session_id e,
     be_trace_id = le_trace_id e, be_payload = le_payload e, be_timestamp = le_timestamp e\<rparr>"

section \<open>The bus in memory\<close>

type_synonym handler = nat

record memory_bus =
  mb_subscribers :: "(string \<times> string \<times> handler) list"
  mb_published :: "bus_event list"
  mb_calls :: "(handler \<times> bus_event) list"

definition memory_bus_new :: memory_bus where
  "memory_bus_new = \<lparr>mb_subscribers = [], mb_published = [], mb_calls = []\<rparr>"

definition bus_record :: "bus_event \<Rightarrow> memory_bus \<Rightarrow> memory_bus" where
  "bus_record e b = b\<lparr>mb_published := mb_published b @ [e]\<rparr>"

definition matching :: "string \<Rightarrow> memory_bus \<Rightarrow> handler list" where
  "matching topic b = map (\<lambda>(_, _, h). h) (filter (\<lambda>(_, pattern, _). topic_matches pattern topic) (mb_subscribers b))"

definition bus_deliver :: "bus_event \<Rightarrow> memory_bus \<Rightarrow> memory_bus" where
  "bus_deliver e b = b\<lparr>mb_calls := mb_calls b @ map (\<lambda>h. (h, e)) (matching (be_topic e) b)\<rparr>"

definition bus_publish :: "bus_event \<Rightarrow> memory_bus \<Rightarrow> memory_bus" where
  "bus_publish e b = bus_deliver e (bus_record e b)"

definition publish_batch :: "bus_event list \<Rightarrow> memory_bus \<Rightarrow> memory_bus" where
  "publish_batch es b = fold bus_publish es b"

definition bus_subscribe :: "string \<Rightarrow> string \<Rightarrow> handler \<Rightarrow> memory_bus \<Rightarrow> string ls_result \<times> memory_bus" where
  "bus_subscribe fresh pattern h b = (Inr fresh, b\<lparr>mb_subscribers := mb_subscribers b @ [(fresh, pattern, h)]\<rparr>)"

definition bus_unsubscribe :: "string \<Rightarrow> memory_bus \<Rightarrow> memory_bus" where
  "bus_unsubscribe i b = b\<lparr>mb_subscribers := filter (\<lambda>(j, _, _). j \<noteq> i) (mb_subscribers b)\<rparr>"

record subscription_info =
  si_id :: string
  si_topic_pattern :: string
  si_created_at :: int

definition list_subscriptions :: "int \<Rightarrow> memory_bus \<Rightarrow> subscription_info list" where
  "list_subscriptions now b = map (\<lambda>(i, pattern, _). \<lparr>si_id = i, si_topic_pattern = pattern, si_created_at = now\<rparr>) (mb_subscribers b)"

section \<open>The events of the runtime\<close>

definition emit_event :: "ls_id \<Rightarrow> int \<Rightarrow> ls_context \<Rightarrow> string \<Rightarrow> json \<Rightarrow> memory_bus \<Rightarrow> memory_bus" where
  "emit_event fresh now ctx topic payload b =
     bus_publish (from_ls_event (ls_event_new fresh now topic (show_id (ctx_session ctx)) (show_id (ctx_trace ctx)) payload)) b"

definition emit_agent_state_change ::
  "ls_id \<Rightarrow> int \<Rightarrow> ls_context \<Rightarrow> ls_id \<Rightarrow> string \<Rightarrow> string \<Rightarrow> string \<Rightarrow> memory_bus \<Rightarrow> memory_bus" where
  "emit_agent_state_change fresh now ctx agent_id agent_name old_state new_state =
     emit_event fresh now ctx (topic_new ''agent'' ''state'' ''changed'')
       (Object [(''agent_id'', Str (show_id agent_id)), (''agent_name'', Str agent_name), (''old_state'', Str old_state),
          (''new_state'', Str new_state)])"

text \<open>The preview of an output is the first 200 characters of its text, which is ASCII here; \<open>to_text\<close> is the writer of
  JSON, None where it fails.\<close>

definition emit_tool_call ::
  "(json \<Rightarrow> string option) \<Rightarrow> ls_id \<Rightarrow> int \<Rightarrow> ls_context \<Rightarrow> string \<Rightarrow> json \<Rightarrow> json ls_result \<Rightarrow> memory_bus \<Rightarrow> memory_bus" where
  "emit_tool_call to_text fresh now ctx tool_name input result =
     (let status = (case result of Inr _ \<Rightarrow> ''success'' | Inl _ \<Rightarrow> ''failed'');
          output_preview = (case result of
              Inr v \<Rightarrow> Object [(''preview'', Str (take 200 (case to_text v of None \<Rightarrow> [] | Some s \<Rightarrow> s)))]
            | Inl e \<Rightarrow> Object [(''error'', Str (error_text e))])
      in emit_event fresh now ctx (topic_new ''tool'' ''call'' ''executed'')
           (Object [(''tool_name'', Str tool_name), (''input'', input), (''status'', Str status), (''output'', output_preview)]))"

definition emit_session_event :: "ls_id \<Rightarrow> int \<Rightarrow> ls_context \<Rightarrow> string \<Rightarrow> memory_bus \<Rightarrow> memory_bus" where
  "emit_session_event fresh now ctx action =
     emit_event fresh now ctx (topic_new ''runtime'' ''session'' action)
       (Object [(''session_id'', Str (show_id (ctx_session ctx))), (''action'', Str action)])"

text \<open>\<open>progress\<close> is the JSON number of the floating-point progress.\<close>

definition emit_workflow_progress ::
  "ls_id \<Rightarrow> int \<Rightarrow> ls_context \<Rightarrow> string \<Rightarrow> string \<Rightarrow> json \<Rightarrow> string option \<Rightarrow> memory_bus \<Rightarrow> memory_bus" where
  "emit_workflow_progress fresh now ctx workflow_name status progress message =
     emit_event fresh now ctx (topic_new ''workflow'' ''execution'' status)
       (Object [(''workflow_name'', Str workflow_name), (''status'', Str status), (''progress'', progress),
          (''message'', case message of None \<Rightarrow> Null | Some s \<Rightarrow> Str s)])"

definition emit_runtime_event :: "ls_id \<Rightarrow> int \<Rightarrow> ls_context \<Rightarrow> string \<Rightarrow> memory_bus \<Rightarrow> memory_bus" where
  "emit_runtime_event fresh now ctx action =
     emit_event fresh now ctx (topic_new ''runtime'' ''runtime'' action) (Object [(''action'', Str action)])"

section \<open>Properties\<close>

lemma strip_suffix_Some: "strip_suffix s p = Some q \<longleftrightarrow> s = q @ p"
  by (auto simp: strip_suffix_def) (metis append_take_drop_id)

lemma starts_with_iff: "starts_with s p \<longleftrightarrow> (\<exists>r. s = p @ r)"
  by (auto simp: starts_with_def) (metis append_take_drop_id)

lemma split_on_length: "length (split_on c (a @ c # b)) \<ge> Suc (length (split_on c b))"
proof (induction a)
  case (Cons d a)
  then show ?case by (auto split: list.split)
qed simp

text \<open>Every topic the constructor builds is one the parser accepts.\<close>

lemma topic_parse_new: "topic_parse (topic_new d r a) = Some (topic_new d r a)"
proof -
  let ?rest = "d @ CHR ''.'' # (r @ CHR ''.'' # a)"
  have "split_on (CHR ''.'') (topic_new d r a) = ''ls'' # split_on (CHR ''.'') ?rest"
    using split_on_append [of "CHR ''.''" "''ls''" ?rest] by (simp add: topic_new_def)
  moreover have "length (split_on (CHR ''.'') ?rest) \<ge> 3"
    using split_on_length [where a = d and b = "r @ CHR ''.'' # a" and c = "CHR ''.''"]
      split_on_length [where a = r and b = a and c = "CHR ''.''"] split_on_not_Nil [of "CHR ''.''" a] by (cases "split_on (CHR ''.'') a") auto
  ultimately show ?thesis by (simp add: topic_parse_def Let_def)
qed

lemma topic_matches_iff:
  "topic_matches pattern topic \<longleftrightarrow> pattern = ''*'' \<or> pattern = topic \<or> (\<exists>p r. pattern = p @ ''.*'' \<and> topic = p @ r)"
proof (cases "strip_suffix pattern ''.*''")
  case None
  then have "\<nexists>p. pattern = p @ ''.*''" using strip_suffix_Some [of pattern "''.*''"] by auto
  with None show ?thesis by (auto simp: topic_matches_def)
next
  case (Some p)
  then have p: "pattern = p @ ''.*''" by (simp add: strip_suffix_Some)
  with Some show ?thesis by (auto simp: topic_matches_def starts_with_iff)
qed

text \<open>The pattern \<open>ls.*\<close> also matches topics that only begin with \<open>ls\<close>.\<close>

lemma pattern_crosses_segments: "topic_matches ''ls.*'' ''lsx.a''"
  by (simp add: topic_matches_def strip_suffix_def starts_with_def)

text \<open>The bus under any sequence of operations, with the subscriptions so far in order, each with whether it still
  holds. The identifiers of subscriptions are fresh.\<close>

datatype bus_op = Subscribe string string handler | Unsubscribe string | Record bus_event | Deliver bus_event

fun bus_run :: "bus_op list \<Rightarrow> memory_bus \<Rightarrow> memory_bus" where
  "bus_run [] b = b"
| "bus_run (Subscribe i p h # ops) b = bus_run ops (snd (bus_subscribe i p h b))"
| "bus_run (Unsubscribe i # ops) b = bus_run ops (bus_unsubscribe i b)"
| "bus_run (Record e # ops) b = bus_run ops (bus_record e b)"
| "bus_run (Deliver e # ops) b = bus_run ops (bus_deliver e b)"

fun subscribed :: "bus_op list \<Rightarrow> string list" where
  "subscribed [] = []"
| "subscribed (Subscribe i p h # ops) = i # subscribed ops"
| "subscribed (op # ops) = subscribed ops"

definition live_subscription :: "string \<Rightarrow> bus_op list \<Rightarrow> bool" where
  "live_subscription i ops \<longleftrightarrow> Unsubscribe i \<notin> set ops"

fun subscriptions :: "bus_op list \<Rightarrow> (string \<times> string \<times> handler) list" where
  "subscriptions [] = []"
| "subscriptions (Subscribe i p h # ops) = (if live_subscription i ops then [(i, p, h)] else []) @ subscriptions ops"
| "subscriptions (op # ops) = subscriptions ops"

lemma bus_run_append: "bus_run (xs @ ys) b = bus_run ys (bus_run xs b)"
  by (induction xs b rule: bus_run.induct) auto

lemma bus_run_subscribers:
  "mb_subscribers (bus_run ops b) = filter (\<lambda>s. live_subscription (fst s) ops) (mb_subscribers b) @ subscriptions ops"
proof (induction ops b rule: bus_run.induct)
  case (3 i ops b)
  have "live_subscription (fst s) (Unsubscribe i # ops) \<longleftrightarrow> fst s \<noteq> i \<and> live_subscription (fst s) ops" for s :: "string \<times> string \<times> handler"
    by (auto simp: live_subscription_def)
  with 3 show ?case by (simp add: bus_unsubscribe_def case_prod_unfold)
qed (auto simp: bus_subscribe_def bus_record_def bus_deliver_def live_subscription_def)

lemma bus_run_published: "mb_published (bus_run ops b) = mb_published b @ concat (map (\<lambda>op. case op of Record e \<Rightarrow> [e] | _ \<Rightarrow> []) ops)"
  by (induction ops b rule: bus_run.induct) (auto simp: bus_subscribe_def bus_record_def bus_deliver_def bus_unsubscribe_def)

text \<open>Whatever was subscribed, cancelled and published before, an event is handed to exactly the handlers whose
  subscription matches its topic (the pattern is a star, the topic itself, or a prefix with dot and star) and was not
  cancelled since, each once and in the order of the subscriptions, and is the last one of the history.\<close>

theorem publish_reaches_subscribers:
  assumes "b = bus_run ops memory_bus_new"
  shows "mb_calls (bus_publish e b) = mb_calls b @ map (\<lambda>(_, _, h). (h, e))
          (filter (\<lambda>(_, pattern, _). pattern = ''*'' \<or> pattern = be_topic e
              \<or> (\<exists>p r. pattern = p @ ''.*'' \<and> be_topic e = p @ r)) (subscriptions ops))
    \<and> mb_published (bus_publish e b) = mb_published b @ [e]"
proof -
  have subs: "mb_subscribers b = subscriptions ops" by (simp add: assms bus_run_subscribers memory_bus_new_def)
  show ?thesis
    by (simp add: bus_publish_def bus_deliver_def bus_record_def matching_def subs topic_matches_iff comp_def
        case_prod_unfold)
qed

theorem publish_reaches_subscribers_witness:
  "mb_calls (bus_publish (from_ls_event (ls_event_new 1 0 (topic_new ''agent'' ''run'' ''started'') [] [] Null))
     (bus_run [Subscribe ''a'' ''ls.agent.*'' 1, Subscribe ''b'' ''*'' 2, Unsubscribe ''b''] memory_bus_new))
   = [(1, from_ls_event (ls_event_new 1 0 (topic_new ''agent'' ''run'' ''started'') [] [] Null))]"
proof -
  let ?e = "from_ls_event (ls_event_new 1 0 (topic_new ''agent'' ''run'' ''started'') [] [] Null)"
  let ?ops = "[Subscribe ''a'' ''ls.agent.*'' 1, Subscribe ''b'' ''*'' 2, Unsubscribe ''b'']"
  have "topic_matches ''ls.agent.*'' (be_topic ?e)"
    by (simp add: from_ls_event_def ls_event_new_def topic_new_def topic_matches_def strip_suffix_def starts_with_def)
  then have m: "\<exists>p r. ''ls.agent.*'' = p @ ''.*'' \<and> be_topic ?e = p @ r"
    by (simp add: topic_matches_iff) (simp add: from_ls_event_def ls_event_new_def topic_new_def)
  have s: "subscriptions ?ops = [(''a'', ''ls.agent.*'', 1)]" by (simp add: live_subscription_def)
  have c: "mb_calls (bus_run ?ops memory_bus_new) = []"
    by (simp add: bus_subscribe_def bus_unsubscribe_def memory_bus_new_def)
  show ?thesis using conjunct1 [OF publish_reaches_subscribers [OF refl, of ?e ?ops]] m unfolding s c by simp
qed

end
