(* ===== verification/Agent_Runtime.thy ===== *)
theory Agent_Runtime
  imports Plugin_Registry Agent_Manager Agent_Pool Runtime_State Event_Topics
begin

text \<open>
  The runtime that holds the parts together (\<open>runtime/src/agent_runtime.rs\<close>): its start and end, the
  pool it creates, and the operations it passes on.

  A pipeline is a number; the access to workflows, a trait object, is what it answers. The pool
  carries the factory that was given to it.
\<close>

section \<open>State\<close>

record workflow_access =
  wa_list_workflows :: "json list"
  wa_execute_workflow :: "string \<Rightarrow> ls_context \<Rightarrow> json \<Rightarrow> json ls_result"
  wa_workflow_status :: "string \<Rightarrow> json ls_result"

record agent_runtime_config =
  rc_name :: string
  rc_pool_config :: pool_config
  rc_session_ttl_seconds :: nat
  rc_enable_auto_cleanup :: bool
  rc_cleanup_interval_secs :: nat

definition agent_runtime_config_default :: agent_runtime_config where
  "agent_runtime_config_default = \<lparr>rc_name = ''lingshu'', rc_pool_config = pool_config_default, rc_session_ttl_seconds = 3600,
     rc_enable_auto_cleanup = True, rc_cleanup_interval_secs = 300\<rparr>"

record agent_runtime =
  rt_config :: agent_runtime_config
  rt_lifecycle :: lifecycle_state
  rt_agent_manager :: agent_manager
  rt_agent_pool :: "(agent_pool \<times> agent_factory) option"
  rt_agent_factory :: agent_factory
  rt_tool_registry :: "tool_registry option"
  rt_plugin_registry :: "plugin_registry option"
  rt_pipeline :: "nat option"
  rt_session_manager :: session_manager
  rt_workflow_access :: "workflow_access option"
  rt_event_bus :: "memory_bus option"

definition set_lifecycle :: "lifecycle_state \<Rightarrow> agent_runtime \<Rightarrow> unit ls_result \<times> agent_runtime" where
  "set_lifecycle new rt = (case transition new (rt_lifecycle rt) of
     (Inl e, s) \<Rightarrow> (Inl e, rt\<lparr>rt_lifecycle := s\<rparr>) | (Inr _, s) \<Rightarrow> (Inr (), rt\<lparr>rt_lifecycle := s\<rparr>))"

definition runtime_new :: "agent_runtime_config \<Rightarrow> agent_runtime ls_result" where
  "runtime_new config =
     (case set_lifecycle Initializing \<lparr>rt_config = config, rt_lifecycle = Uninitialized, rt_agent_manager = agent_manager_new,
          rt_agent_pool = None, rt_agent_factory = agent_factory_new, rt_tool_registry = None, rt_plugin_registry = None,
          rt_pipeline = None, rt_session_manager = session_manager_new (rc_session_ttl_seconds config),
          rt_workflow_access = None, rt_event_bus = None\<rparr> of
        (Inl e, _) \<Rightarrow> Inl e | (Inr _, rt) \<Rightarrow> Inr rt)"

definition runtime_start :: "agent_runtime \<Rightarrow> unit ls_result \<times> agent_runtime" where
  "runtime_start rt = set_lifecycle LcRunning
     (rt\<lparr>rt_agent_pool := Some (pool_new (rc_pool_config (rt_config rt)), agent_factory_new)\<rparr>)"

definition runtime_shutdown :: "agent_runtime \<Rightarrow> unit ls_result \<times> agent_runtime" where
  "runtime_shutdown rt = (case set_lifecycle ShuttingDown rt of
     (Inl e, rt1) \<Rightarrow> (Inl e, rt1) | (Inr _, rt1) \<Rightarrow> set_lifecycle LcStopped rt1)"

definition set_tool_registry :: "tool_registry \<Rightarrow> agent_runtime \<Rightarrow> agent_runtime" where
  "set_tool_registry t rt = rt\<lparr>rt_tool_registry := Some t\<rparr>"

definition set_plugin_registry :: "plugin_registry \<Rightarrow> agent_runtime \<Rightarrow> agent_runtime" where
  "set_plugin_registry p rt = rt\<lparr>rt_plugin_registry := Some p\<rparr>"

definition set_pipeline :: "nat \<Rightarrow> agent_runtime \<Rightarrow> agent_runtime" where
  "set_pipeline p rt = rt\<lparr>rt_pipeline := Some p, rt_agent_factory := with_default_pipeline p agent_factory_new\<rparr>"

definition set_workflow_access :: "workflow_access \<Rightarrow> agent_runtime \<Rightarrow> agent_runtime" where
  "set_workflow_access w rt = rt\<lparr>rt_workflow_access := Some w\<rparr>"

definition set_event_bus :: "memory_bus \<Rightarrow> agent_runtime \<Rightarrow> agent_runtime" where
  "set_event_bus b rt = rt\<lparr>rt_event_bus := Some b\<rparr>"

definition has_workflow_access :: "agent_runtime \<Rightarrow> bool" where
  "has_workflow_access rt \<longleftrightarrow> rt_workflow_access rt \<noteq> None"

definition list_workflows :: "agent_runtime \<Rightarrow> json list" where
  "list_workflows rt = (case rt_workflow_access rt of None \<Rightarrow> [] | Some w \<Rightarrow> wa_list_workflows w)"

definition execute_workflow :: "string \<Rightarrow> ls_context \<Rightarrow> json \<Rightarrow> agent_runtime \<Rightarrow> json ls_result" where
  "execute_workflow name ctx input rt = (case rt_workflow_access rt of
     Some w \<Rightarrow> wa_execute_workflow w name ctx input | None \<Rightarrow> Inl (NotFound ''WorkflowAccess not configured''))"

definition workflow_status :: "string \<Rightarrow> agent_runtime \<Rightarrow> json ls_result" where
  "workflow_status name rt = (case rt_workflow_access rt of
     Some w \<Rightarrow> wa_workflow_status w name | None \<Rightarrow> Inl (NotFound ''WorkflowAccess not configured''))"

definition runtime_create_session ::
  "(int \<Rightarrow> int \<Rightarrow> int option) \<Rightarrow> int \<Rightarrow> ls_context \<Rightarrow> agent_runtime \<Rightarrow> unit ls_result option \<times> agent_runtime" where
  "runtime_create_session later now ctx rt = (let (res, m) = session_create later now ctx (rt_session_manager rt)
     in (map_option (\<lambda>r. case r of Inl e \<Rightarrow> Inl e | Inr _ \<Rightarrow> Inr ()) res, rt\<lparr>rt_session_manager := m\<rparr>))"

definition runtime_register_agent :: "int \<Rightarrow> ls_id \<Rightarrow> string \<Rightarrow> agent_runtime \<Rightarrow> agent_runtime" where
  "runtime_register_agent now i name rt = rt\<lparr>rt_agent_manager := manager_register now i name (rt_agent_manager rt)\<rparr>"

definition runtime_pool_stats :: "agent_runtime \<Rightarrow> pool_stats ls_result" where
  "runtime_pool_stats rt = (case rt_agent_pool rt of
     Some (p, f) \<Rightarrow> Inr (pool_stats_of p) | None \<Rightarrow> Inl (RuntimeState ''agent pool not initialized''))"

definition runtime_remove_agent :: "int \<Rightarrow> ls_id \<Rightarrow> agent_runtime \<Rightarrow> unit ls_result \<times> agent_runtime" where
  "runtime_remove_agent now i rt = (let (res, m) = manager_remove now i (rt_agent_manager rt)
     in (res, rt\<lparr>rt_agent_manager := m\<rparr>))"

text \<open>Borrowing from the pool a client got from the runtime: the pool asks the factory that it holds.\<close>

definition pool_of_borrow ::
  "int \<Rightarrow> (nat \<Rightarrow> ls_id) \<Rightarrow> ls_id \<Rightarrow> agent_pool \<times> agent_factory \<Rightarrow> agent_handle ls_result \<times> (agent_pool \<times> agent_factory)" where
  "pool_of_borrow now id_of fresh = (\<lambda>(p, f).
     (let (res, p') = pool_borrow now (factory_create id_of fresh ''default'' f) p in (res, (p', f))))"

definition pool_of_borrow_named ::
  "int \<Rightarrow> string \<Rightarrow> (nat \<Rightarrow> ls_id) \<Rightarrow> ls_id \<Rightarrow> agent_pool \<times> agent_factory \<Rightarrow> agent_handle ls_result \<times> (agent_pool \<times> agent_factory)" where
  "pool_of_borrow_named now name id_of fresh = (\<lambda>(p, f).
     (let (res, p') = pool_borrow_named now name (factory_create id_of fresh name f) p in (res, (p', f))))"

section \<open>The runtime under any sequence of operations\<close>

inductive runtime_step :: "agent_runtime \<Rightarrow> agent_runtime \<Rightarrow> bool" where
  rt_start: "runtime_step rt (snd (runtime_start rt))"
| rt_shutdown: "runtime_step rt (snd (runtime_shutdown rt))"
| rt_tools: "runtime_step rt (set_tool_registry t rt)"
| rt_plugins: "runtime_step rt (set_plugin_registry p rt)"
| rt_set_pipeline: "runtime_step rt (set_pipeline n rt)"
| rt_workflows: "runtime_step rt (set_workflow_access w rt)"
| rt_bus: "runtime_step rt (set_event_bus b rt)"
| rt_session: "runtime_step rt (snd (runtime_create_session later now ctx rt))"
| rt_register: "runtime_step rt (runtime_register_agent now i name rt)"
| rt_remove: "runtime_step rt (snd (runtime_remove_agent now i rt))"
| rt_borrow: "rt_agent_pool rt = Some pf \<Longrightarrow>
    runtime_step rt (rt\<lparr>rt_agent_pool := Some (snd (pool_of_borrow now id_of fresh pf))\<rparr>)"
| rt_borrow_named: "rt_agent_pool rt = Some pf \<Longrightarrow>
    runtime_step rt (rt\<lparr>rt_agent_pool := Some (snd (pool_of_borrow_named now name id_of fresh pf))\<rparr>)"
| rt_clean: "rt_agent_pool rt = Some (p, f) \<Longrightarrow>
    runtime_step rt (rt\<lparr>rt_agent_pool := Some (snd (clean_retain now p), f)\<rparr>)"

definition runtime_init :: "agent_runtime \<Rightarrow> bool" where
  "runtime_init rt \<longleftrightarrow> (\<exists>config. runtime_new config = Inr rt)"

definition barren :: "agent_pool \<times> agent_factory \<Rightarrow> bool" where
  "barren pf \<longleftrightarrow> snd pf = agent_factory_new \<and> ap_idle (fst pf) = [] \<and> ap_borrowed (fst pf) = []"

definition runtime_inv :: "agent_runtime \<Rightarrow> bool" where
  "runtime_inv rt \<longleftrightarrow> rt_lifecycle rt \<in> {Initializing, LcRunning, LcStopped}
     \<and> (\<forall>pf. rt_agent_pool rt = Some pf \<longrightarrow> barren pf)"

definition no_factory :: "string \<Rightarrow> ls_error" where
  "no_factory name = NotFound (''no agent factory registered for '' @ quoted name @ '', and no default pipeline configured'')"

lemma factory_new_creates_nothing: "factory_create id_of fresh name agent_factory_new = Inl (no_factory name)"
  by (simp add: factory_create_def agent_factory_new_def no_factory_def)

lemma barren_admit:
  assumes "ap_borrowed p = []"
  shows "admit now p = (if at_capacity p then (Inl (capacity_error p), p) else (Inr (), p))"
  using assms by (simp add: admit_def reclaim_expired_def expired_ids_def)

lemma barren_borrow:
  assumes "barren pf"
  shows "pool_of_borrow now id_of fresh pf
    = (if at_capacity (fst pf) then (Inl (capacity_error (fst pf)), pf)
       else (Inl (no_factory ''default''), (count_new (fst pf), snd pf)))"
  using assms by (cases pf) (auto simp: barren_def pool_of_borrow_def pool_borrow_def borrow_idle_def borrow_new_def barren_admit
      factory_new_creates_nothing finish_create_def)

lemma barren_borrow_named:
  assumes "barren pf"
  shows "pool_of_borrow_named now name id_of fresh pf
    = (if at_capacity (fst pf) then (Inl (capacity_error (fst pf)), pf)
       else (Inl (no_factory name), (count_new (fst pf), snd pf)))"
  using assms by (cases pf) (auto simp: barren_def pool_of_borrow_named_def pool_borrow_named_def borrow_idle_named_def
      borrow_new_def barren_admit factory_new_creates_nothing finish_create_def)

lemma barren_count: "barren pf \<Longrightarrow> barren (count_new (fst pf), snd pf)"
  by (simp add: barren_def count_new_def)

lemma set_lifecycle_pool [simp]: "rt_agent_pool (snd (set_lifecycle new rt)) = rt_agent_pool rt"
  by (simp add: set_lifecycle_def split: prod.split sum.split)

interpretation runtime_machine: machine runtime_init runtime_step runtime_inv
proof
  show "runtime_init rt \<Longrightarrow> runtime_inv rt" for rt
    by (auto simp: runtime_init_def runtime_new_def set_lifecycle_def transition_def runtime_inv_def)
  show "runtime_inv rt'" if inv: "runtime_inv rt" and step: "runtime_step rt rt'" for rt rt'
    using step
  proof cases
    case rt_start
    have "barren (pool_new c, agent_factory_new)" for c by (simp add: barren_def pool_new_def)
    with inv rt_start show ?thesis
      by (auto simp: runtime_inv_def runtime_start_def set_lifecycle_def transition_def)
  next
    case rt_shutdown
    with inv show ?thesis
      by (auto simp: runtime_inv_def runtime_shutdown_def set_lifecycle_def transition_def)
  next
    case (rt_session later now ctx)
    with inv show ?thesis by (simp add: runtime_inv_def runtime_create_session_def split: prod.split)
  next
    case (rt_remove now i)
    with inv show ?thesis by (simp add: runtime_inv_def runtime_remove_agent_def split: prod.split)
  next
    case (rt_borrow pf now id_of fresh)
    with inv show ?thesis by (auto simp: runtime_inv_def barren_borrow barren_count)
  next
    case (rt_borrow_named pf now name id_of fresh)
    with inv show ?thesis by (auto simp: runtime_inv_def barren_borrow_named barren_count)
  next
    case (rt_clean p f now)
    with inv show ?thesis by (auto simp: runtime_inv_def barren_def clean_retain_def Let_def)
  qed (use inv in \<open>simp_all add: runtime_inv_def set_tool_registry_def set_plugin_registry_def set_pipeline_def
      set_workflow_access_def set_event_bus_def runtime_register_agent_def\<close>)
qed

text \<open>C27: the pool of a runtime never lends an agent. Whatever pipelines and agents the runtime was given, each
  attempt to borrow fails: with the error of a factory that knows no agent while the pool has room, and since every
  such failure stays counted, with the error of a full pool after as many attempts as the pool may hold agents.\<close>

theorem runtime_pool_never_lends:
  assumes "reaches runtime_init runtime_step rt" "rt_agent_pool rt = Some (p, f)"
  shows "pool_of_borrow now id_of fresh (p, f)
    = (if unat (ap_total p) < pc_max_total (ap_config p)
       then (Inl (no_factory ''default''), (p\<lparr>ap_total := ap_total p + 1\<rparr>, f))
       else (Inl (capacity_error p), (p, f)))"
proof -
  have "barren (p, f)" using runtime_machine.reaches_inv [OF assms(1)] assms(2) by (simp add: runtime_inv_def)
  from barren_borrow [OF this] show ?thesis by (auto simp: at_capacity_def count_new_def)
qed

theorem runtime_pool_never_lends_witness:
  "\<exists>rt p f. runtime_new agent_runtime_config_default = Inr rt \<and> rt_agent_pool (snd (runtime_start rt)) = Some (p, f)
     \<and> fst (pool_of_borrow 0 (\<lambda>n. n) 1 (p, f)) = Inl (no_factory ''default'')"
proof -
  obtain rt where rt: "runtime_new agent_runtime_config_default = Inr rt"
    by (simp add: runtime_new_def set_lifecycle_def transition_def)
  let ?p = "pool_new (rc_pool_config (rt_config rt))"
  have pool: "rt_agent_pool (snd (runtime_start rt)) = Some (?p, agent_factory_new)" by (simp add: runtime_start_def)
  have "rt_config rt = agent_runtime_config_default" using rt by (auto simp: runtime_new_def set_lifecycle_def transition_def)
  then have room: "unat (ap_total ?p) < pc_max_total (ap_config ?p)"
    by (simp add: agent_runtime_config_default_def pool_new_def pool_config_default_def)
  have "reaches runtime_init runtime_step rt" by (rule reaches_init) (use rt in \<open>auto simp: runtime_init_def\<close>)
  then have r: "reaches runtime_init runtime_step (snd (runtime_start rt))" by (rule reaches_step) (rule rt_start)
  have "fst (pool_of_borrow 0 (\<lambda>n. n) 1 (?p, agent_factory_new)) = Inl (no_factory ''default'')"
    using runtime_pool_never_lends [OF r pool] room by simp
  with rt pool show ?thesis by blast
qed

text \<open>The life of a runtime: it starts once and is stopped once; a second start fails, but only after it has
  replaced the pool.\<close>

lemma runtime_lifecycle:
  assumes "reaches runtime_init runtime_step rt"
  shows "(fst (runtime_start rt) = Inr () \<longleftrightarrow> rt_lifecycle rt = Initializing)
    \<and> (fst (runtime_shutdown rt) = Inr () \<longleftrightarrow> rt_lifecycle rt = LcRunning)
    \<and> (rt_lifecycle rt = LcStopped \<longrightarrow> rt_lifecycle (snd (runtime_start rt)) = LcStopped)"
proof -
  have "rt_lifecycle rt \<in> {Initializing, LcRunning, LcStopped}"
    using runtime_machine.reaches_inv [OF assms] by (simp add: runtime_inv_def)
  then show ?thesis by (auto simp: runtime_start_def runtime_shutdown_def set_lifecycle_def transition_def)
qed

lemma failed_start_replaces_pool:
  "rt_lifecycle rt = LcRunning \<Longrightarrow> fst (runtime_start rt) \<noteq> Inr ()
     \<and> rt_agent_pool (snd (runtime_start rt)) = Some (pool_new (rc_pool_config (rt_config rt)), agent_factory_new)"
  by (simp add: runtime_start_def) (simp add: set_lifecycle_def transition_def)

end
