(* ===== verification/Recovery.thy ===== *)
theory Recovery
  imports Std_Text
begin

text \<open>
  Fault recovery of the runtime (\<open>runtime/src/recovery.rs\<close>): the counting of faults that opens a
  circuit, and the engine that watches components.

  Recording a fault increments a counter (a 64-bit word that wraps) and then, if the count it got
  reached the limit, looks at the flag under a lock: two steps, between which other faults may be
  recorded. The counters of failures and attempts of a component are 32-bit and stay below their
  bound.
\<close>

section \<open>Faults\<close>

datatype fault_level = FaultWarning | FaultError | FaultCritical

record fault_event =
  fe_source :: string
  fe_level :: fault_level
  fe_message :: string
  fe_context :: "ls_context option"
  fe_timestamp :: int

record recovery_result =
  rr_success :: bool
  rr_recovered_from :: string
  rr_recovery_action :: string
  rr_details :: string

datatype recovery_strategy = Retry nat nat | Fallback string | Restart | IsolateAndAlert

section \<open>The manager\<close>

record recovery_manager =
  rm_circuit_open :: bool
  rm_failure_count :: "64 word"
  rm_max_failures :: "64 word"

definition recovery_manager_new :: "64 word \<Rightarrow> recovery_manager" where
  "recovery_manager_new n = \<lparr>rm_circuit_open = False, rm_failure_count = 0, rm_max_failures = n\<rparr>"

definition count_fault :: "recovery_manager \<Rightarrow> 64 word \<times> recovery_manager" where
  "count_fault m = (rm_failure_count m + 1, m\<lparr>rm_failure_count := rm_failure_count m + 1\<rparr>)"

definition decide_fault :: "64 word \<Rightarrow> recovery_manager \<Rightarrow> recovery_strategy option \<times> recovery_manager" where
  "decide_fault k m =
     (if rm_max_failures m \<le> k \<and> \<not> rm_circuit_open m
      then (Some IsolateAndAlert, m\<lparr>rm_circuit_open := True\<rparr>)
      else (Some (Retry 3 100), m))"

definition record_fault :: "recovery_manager \<Rightarrow> recovery_strategy option \<times> recovery_manager" where
  "record_fault m = (let (k, m1) = count_fault m in decide_fault k m1)"

fun recover :: "recovery_strategy \<Rightarrow> string \<Rightarrow> recovery_result" where
  "recover (Retry max_attempts backoff_ms) source = \<lparr>rr_success = True, rr_recovered_from = source,
     rr_recovery_action = ''retry up to '' @ show_nat max_attempts @ '' times with '' @ show_nat backoff_ms @ ''ms backoff'',
     rr_details = ''retry strategy dispatched''\<rparr>"
| "recover (Fallback fallback_name) source = \<lparr>rr_success = True, rr_recovered_from = source,
     rr_recovery_action = ''fallback to '' @ fallback_name, rr_details = ''fallback strategy dispatched''\<rparr>"
| "recover Restart source = \<lparr>rr_success = True, rr_recovered_from = source, rr_recovery_action = ''restart module'',
     rr_details = ''restart signal sent''\<rparr>"
| "recover IsolateAndAlert source = \<lparr>rr_success = True, rr_recovered_from = source, rr_recovery_action = ''isolate and alert'',
     rr_details = ''module isolated, alert dispatched to admin''\<rparr>"

definition reset_circuit_breaker :: "recovery_manager \<Rightarrow> recovery_manager" where
  "reset_circuit_breaker m = m\<lparr>rm_circuit_open := False, rm_failure_count := 0\<rparr>"

section \<open>Faults recorded at the same time\<close>

text \<open>The manager with the counts of the faults between their two steps, the number of alerts raised so far and the
  number of resets.\<close>

record fault_system =
  fs_manager :: recovery_manager
  fs_pending :: "64 word multiset"
  fs_counted :: nat
  fs_alerts :: nat
  fs_resets :: nat

inductive fault_step :: "fault_system \<Rightarrow> fault_system \<Rightarrow> bool" where
  fs_count: "count_fault (fs_manager s) = (c, m) \<Longrightarrow>
    fault_step s (s\<lparr>fs_manager := m, fs_pending := add_mset c (fs_pending s), fs_counted := Suc (fs_counted s)\<rparr>)"
| fs_decide: "c \<in># fs_pending s \<Longrightarrow> decide_fault c (fs_manager s) = (strategy, m) \<Longrightarrow>
    fault_step s (s\<lparr>fs_manager := m, fs_pending := fs_pending s - {#c#},
      fs_alerts := (if strategy = Some IsolateAndAlert then Suc (fs_alerts s) else fs_alerts s)\<rparr>)"
| fs_reset: "fault_step s (s\<lparr>fs_manager := reset_circuit_breaker (fs_manager s), fs_resets := Suc (fs_resets s)\<rparr>)"

definition fault_init :: "64 word \<Rightarrow> fault_system \<Rightarrow> bool" where
  "fault_init limit s \<longleftrightarrow> s = \<lparr>fs_manager = recovery_manager_new limit, fs_pending = {#}, fs_counted = 0, fs_alerts = 0, fs_resets = 0\<rparr>"

definition fault_inv :: "64 word \<Rightarrow> fault_system \<Rightarrow> bool" where
  "fault_inv limit s \<longleftrightarrow> rm_max_failures (fs_manager s) = limit
     \<and> fs_alerts s + (if rm_circuit_open (fs_manager s) then 0 else 1) \<le> Suc (fs_resets s)
     \<and> (fs_resets s = 0 \<longrightarrow> fs_alerts s = (if rm_circuit_open (fs_manager s) then 1 else 0)
          \<and> rm_failure_count (fs_manager s) = of_nat (fs_counted s))
     \<and> (\<forall>c. c \<in># fs_pending s \<longrightarrow> (\<exists>k \<le> fs_counted s. c = of_nat k))
     \<and> (rm_circuit_open (fs_manager s) \<longrightarrow> (\<exists>k \<le> fs_counted s. limit \<le> of_nat k))
     \<and> (\<exists>k \<le> fs_counted s. rm_failure_count (fs_manager s) = of_nat k)"

lemma fault_inv_step: "fault_inv limit s \<Longrightarrow> fault_step s t \<Longrightarrow> fault_inv limit t"
proof -
  assume inv: "fault_inv limit s" and step: "fault_step s t"
  from step show "fault_inv limit t"
  proof cases
    case (fs_count c m)
    let ?n = "fs_counted s"
    from inv obtain k where k: "k \<le> ?n" "rm_failure_count (fs_manager s) = of_nat k"
      by (auto simp: fault_inv_def)
    have c: "c = of_nat (Suc k)" and m: "m = (fs_manager s)\<lparr>rm_failure_count := c\<rparr>"
      using fs_count(2) k(2) by (auto simp: count_fault_def add.commute)
    have counted: "\<exists>k \<le> Suc ?n. c = of_nat k" using k(1) c by (intro exI [of _ "Suc k"]) simp
    have pending: "\<exists>k \<le> Suc ?n. d = of_nat k" if "d \<in># fs_pending s" for d
      using inv that le_SucI unfolding fault_inv_def by blast
    have opened: "\<exists>k \<le> Suc ?n. limit \<le> (of_nat k :: 64 word)" if "rm_circuit_open (fs_manager s)"
      using inv that le_SucI unfolding fault_inv_def by blast
    have exact: "c = of_nat (Suc ?n)" if "fs_resets s = 0"
      using inv that fs_count(2) by (simp add: fault_inv_def count_fault_def add.commute)
    show ?thesis
      using inv unfolding fault_inv_def fs_count(1) by (simp add: m counted pending opened exact del: of_nat_Suc)
  next
    case (fs_decide c strategy m)
    then obtain k where k: "k \<le> fs_counted s" "c = of_nat k" using inv by (auto simp: fault_inv_def)
    show ?thesis
    proof (cases "rm_max_failures (fs_manager s) \<le> c \<and> \<not> rm_circuit_open (fs_manager s)")
      case True
      with fs_decide have m: "m = (fs_manager s)\<lparr>rm_circuit_open := True\<rparr>" "strategy = Some IsolateAndAlert"
        by (auto simp: decide_fault_def)
      have "\<exists>k \<le> fs_counted s. limit \<le> of_nat k" using True k inv by (auto simp: fault_inv_def)
      with inv fs_decide True m show ?thesis
        by (auto simp: fault_inv_def dest: in_diffD)
    next
      case False
      with fs_decide have "m = fs_manager s" "strategy = Some (Retry 3 100)" by (auto simp: decide_fault_def)
      with inv fs_decide show ?thesis by (auto simp: fault_inv_def dest: in_diffD)
    qed
  next
    case fs_reset
    have "\<exists>k \<le> fs_counted s. (0 :: 64 word) = of_nat k" by (rule exI [of _ 0]) simp
    with inv fs_reset show ?thesis by (auto simp: fault_inv_def reset_circuit_breaker_def split: if_splits)
  qed
qed

interpretation fault_machine: machine "fault_init limit" fault_step "fault_inv limit" for limit
proof
  show "fault_init limit s \<Longrightarrow> fault_inv limit s" for s
    by (simp add: fault_init_def fault_inv_def recovery_manager_new_def)
qed (rule fault_inv_step)

text \<open>C29: however the recording of faults interleaves, alerts are raised at most once more than the circuit was
  reset, and without a reset exactly once if and only if the circuit is open; it only opens once as many faults
  were recorded as the limit says.\<close>

theorem fault_alerts_once:
  assumes "reaches (fault_init limit) fault_step s"
  shows "fs_alerts s \<le> Suc (fs_resets s)
    \<and> (fs_resets s = 0 \<longrightarrow> fs_alerts s = (if rm_circuit_open (fs_manager s) then 1 else 0))
    \<and> (rm_circuit_open (fs_manager s) \<longrightarrow> unat limit \<le> fs_counted s)"
proof -
  from fault_machine.reaches_inv [OF assms] have inv: "fault_inv limit s" .
  have "unat limit \<le> fs_counted s" if "rm_circuit_open (fs_manager s)"
  proof -
    from inv that obtain k where k: "k \<le> fs_counted s" "limit \<le> (of_nat k :: 64 word)" by (auto simp: fault_inv_def)
    have "unat limit \<le> unat (of_nat k :: 64 word)" using k(2) by (simp add: word_le_nat_alt)
    also have "\<dots> \<le> k" by (simp add: unat_of_nat)
    finally show ?thesis using k(1) by simp
  qed
  with inv show ?thesis by (auto simp: fault_inv_def split: if_splits)
qed

theorem fault_alerts_once_witness:
  "snd (record_fault (recovery_manager_new 1)) = \<lparr>rm_circuit_open = True, rm_failure_count = 1, rm_max_failures = 1\<rparr>
   \<and> (1 :: nat) \<le> 1"
proof -
  let ?s0 = "\<lparr>fs_manager = recovery_manager_new 1, fs_pending = {#}, fs_counted = 0, fs_alerts = 0, fs_resets = 0\<rparr>"
  let ?s1 = "?s0\<lparr>fs_manager := snd (count_fault (recovery_manager_new 1)), fs_pending := {#1#}, fs_counted := 1\<rparr>"
  let ?s2 = "?s1\<lparr>fs_manager := snd (record_fault (recovery_manager_new 1)), fs_pending := {#}, fs_alerts := 1\<rparr>"
  have "reaches (fault_init 1) fault_step ?s0" by (rule reaches_init) (simp add: fault_init_def)
  moreover have "fault_step ?s0 ?s1"
    using fs_count [of ?s0 1 "snd (count_fault (recovery_manager_new 1))"] by (simp add: count_fault_def recovery_manager_new_def)
  moreover have "fault_step ?s1 ?s2"
    using fs_decide [of 1 ?s1 "Some IsolateAndAlert" "snd (record_fault (recovery_manager_new 1))"]
    by (simp add: record_fault_def count_fault_def decide_fault_def recovery_manager_new_def)
  ultimately have "reaches (fault_init 1) fault_step ?s2" by (blast intro: reaches_step)
  from fault_alerts_once [OF this] show ?thesis
    by (simp add: record_fault_def count_fault_def decide_fault_def recovery_manager_new_def)
qed

section \<open>The automatic recovery engine\<close>

datatype auto_recovery_policy = ImmediateRestart | ExponentialBackoff nat nat | Degrade | GracefulStop

definition auto_recovery_policy_default :: auto_recovery_policy where
  "auto_recovery_policy_default = ExponentialBackoff 5 1000"

datatype health_status = Healthy | Degraded string | Unhealthy string

record component_health =
  ch_name :: string
  ch_status :: health_status
  ch_last_check :: int
  ch_consecutive_failures :: nat
  ch_recovery_attempts :: nat

record recovery_engine =
  re_components :: "component_health list"
  re_event_history :: "fault_event list"
  re_max_history :: nat
  re_policy :: auto_recovery_policy

definition recovery_engine_new :: "auto_recovery_policy \<Rightarrow> recovery_engine" where
  "recovery_engine_new policy = \<lparr>re_components = [], re_event_history = [], re_max_history = 1000, re_policy = policy\<rparr>"

definition register_component :: "int \<Rightarrow> string \<Rightarrow> recovery_engine \<Rightarrow> recovery_engine" where
  "register_component now name e =
     (if list_ex (\<lambda>c. ch_name c = name) (re_components e) then e
      else e\<lparr>re_components := re_components e @ [\<lparr>ch_name = name, ch_status = Healthy, ch_last_check = now,
             ch_consecutive_failures = 0, ch_recovery_attempts = 0\<rparr>]\<rparr>)"

text \<open>\<open>iter_mut().find\<close>: the first component of that name is changed.\<close>

fun modify_first :: "('a \<Rightarrow> bool) \<Rightarrow> ('a \<Rightarrow> 'a) \<Rightarrow> 'a list \<Rightarrow> 'a list" where
  "modify_first P f [] = []"
| "modify_first P f (x # xs) = (if P x then f x # xs else x # modify_first P f xs)"

definition health_update :: "int \<Rightarrow> health_status \<Rightarrow> component_health \<Rightarrow> component_health" where
  "health_update now status c = c\<lparr>ch_last_check := now, ch_status := status,
     ch_consecutive_failures := (case status of
         Healthy \<Rightarrow> 0
       | Degraded _ \<Rightarrow> ch_consecutive_failures c + 1
       | Unhealthy _ \<Rightarrow> ch_consecutive_failures c + 1)\<rparr>"

definition report_health :: "int \<Rightarrow> string \<Rightarrow> health_status \<Rightarrow> recovery_engine \<Rightarrow> recovery_engine" where
  "report_health now name status e =
     e\<lparr>re_components := modify_first (\<lambda>c. ch_name c = name) (health_update now status) (re_components e)\<rparr>"

definition record_fault_event :: "fault_event \<Rightarrow> recovery_engine \<Rightarrow> recovery_engine" where
  "record_fault_event ev e = e\<lparr>re_event_history := drop (Suc (length (re_event_history e)) - re_max_history e) (re_event_history e @ [ev])\<rparr>"

definition max_recovery_attempts :: "auto_recovery_policy \<Rightarrow> nat" where
  "max_recovery_attempts policy = (case policy of ExponentialBackoff max_attempts _ \<Rightarrow> max_attempts | _ \<Rightarrow> 3)"

text \<open>The delay is a product of 64-bit words and wraps.\<close>

definition recovery_delay :: "nat \<Rightarrow> nat \<Rightarrow> nat" where
  "recovery_delay initial_delay_ms attempts = unat (of_nat initial_delay_ms * push_bit (min attempts 6) (1 :: 64 word))"

definition recovery_of :: "auto_recovery_policy \<Rightarrow> component_health \<Rightarrow> recovery_result" where
  "recovery_of policy c = (case policy of
       ImmediateRestart \<Rightarrow> \<lparr>rr_success = True, rr_recovered_from = ch_name c, rr_recovery_action = ''restart'',
         rr_details = ''Immediate restart triggered''\<rparr>
     | ExponentialBackoff _ initial_delay_ms \<Rightarrow> \<lparr>rr_success = True, rr_recovered_from = ch_name c,
         rr_recovery_action = ''exponential_backoff'',
         rr_details = ''Backoff delay: '' @ show_nat (recovery_delay initial_delay_ms (ch_recovery_attempts c)) @ ''ms (attempt ''
           @ show_nat (ch_recovery_attempts c + 1) @ '')''\<rparr>
     | Degrade \<Rightarrow> \<lparr>rr_success = True, rr_recovered_from = ch_name c, rr_recovery_action = ''degrade'',
         rr_details = ''Running in degraded mode''\<rparr>
     | GracefulStop \<Rightarrow> \<lparr>rr_success = True, rr_recovered_from = ch_name c, rr_recovery_action = ''graceful_stop'',
         rr_details = ''Component stopped gracefully''\<rparr>)"

definition check_component :: "auto_recovery_policy \<Rightarrow> component_health \<Rightarrow> recovery_result list" where
  "check_component policy c =
     (if ch_consecutive_failures c = 0 then []
      else if ch_recovery_attempts c \<ge> max_recovery_attempts policy
      then [\<lparr>rr_success = False, rr_recovered_from = ch_name c, rr_recovery_action = ''max_attempts_exceeded'',
             rr_details = ''Recovery failed after '' @ show_nat (ch_recovery_attempts c) @ '' attempts''\<rparr>]
      else [recovery_of policy c])"

definition check_and_recover :: "recovery_engine \<Rightarrow> recovery_result list" where
  "check_and_recover e = concat (map (check_component (re_policy e)) (re_components e))"

definition health_summary :: "recovery_engine \<Rightarrow> string" where
  "health_summary e =
     (let total_count = length (re_components e);
          healthy = length (filter (\<lambda>c. ch_status c = Healthy) (re_components e));
          degraded = length (filter (\<lambda>c. case ch_status c of Degraded _ \<Rightarrow> True | _ \<Rightarrow> False) (re_components e));
          unhealthy = length (filter (\<lambda>c. case ch_status c of Unhealthy _ \<Rightarrow> True | _ \<Rightarrow> False) (re_components e))
      in show_nat healthy @ ''/'' @ show_nat total_count @ '' healthy, '' @ show_nat degraded @ '' degraded, ''
         @ show_nat unhealthy @ '' unhealthy'')"

inductive engine_step :: "recovery_engine \<Rightarrow> recovery_engine \<Rightarrow> bool" where
  en_register: "engine_step e (register_component now name e)"
| en_report: "engine_step e (report_health now name status e)"
| en_record: "engine_step e (record_fault_event ev e)"

definition engine_init :: "recovery_engine \<Rightarrow> bool" where
  "engine_init e \<longleftrightarrow> (\<exists>policy. e = recovery_engine_new policy)"

definition engine_inv :: "recovery_engine \<Rightarrow> bool" where
  "engine_inv e \<longleftrightarrow> distinct (map ch_name (re_components e)) \<and> length (re_event_history e) \<le> 1000 \<and> re_max_history e = 1000
     \<and> (\<forall>c \<in> set (re_components e). ch_recovery_attempts c = 0 \<and> (ch_status c = Healthy \<longleftrightarrow> ch_consecutive_failures c = 0))"

lemma modify_first_names: "(\<And>c. ch_name (f c) = ch_name c) \<Longrightarrow> map ch_name (modify_first P f cs) = map ch_name cs"
  by (induction cs) auto

lemma modify_first_set: "c \<in> set (modify_first P f cs) \<Longrightarrow> c \<in> set cs \<or> (\<exists>d \<in> set cs. c = f d)"
  by (induction cs) (auto split: if_splits)

lemma health_update_fields:
  "ch_name (health_update now status c) = ch_name c"
  "ch_recovery_attempts (health_update now status c) = ch_recovery_attempts c"
  "ch_status (health_update now status c) = status"
  "ch_consecutive_failures (health_update now status c) = 0 \<longleftrightarrow> status = Healthy"
  by (auto simp: health_update_def split: health_status.split)

interpretation engine_machine: machine engine_init engine_step engine_inv
proof
  show "engine_init e \<Longrightarrow> engine_inv e" for e
    by (auto simp: engine_init_def recovery_engine_new_def engine_inv_def)
  show "engine_inv e'" if inv: "engine_inv e" and step: "engine_step e e'" for e e'
    using step
  proof cases
    case (en_register now name)
    with inv show ?thesis by (auto simp: register_component_def engine_inv_def list_ex_iff)
  next
    case (en_report now name status)
    with inv show ?thesis
      by (auto simp: report_health_def engine_inv_def modify_first_names health_update_fields dest!: modify_first_set)
  next
    case (en_record ev)
    with inv show ?thesis by (auto simp: record_fault_event_def engine_inv_def)
  qed
qed

text \<open>In every reachable engine a check answers one result for each component that is not healthy, in their order
  and for no other; since nothing ever counts an attempt, each of them is a success with the first attempt's
  action, unless the policy allows no attempt at all, and the history holds at most the last thousand faults.\<close>

theorem recovery_never_gives_up:
  assumes "reaches engine_init engine_step e"
  shows "map rr_recovered_from (check_and_recover e) = map ch_name (filter (\<lambda>c. ch_status c \<noteq> Healthy) (re_components e))
    \<and> (\<forall>r \<in> set (check_and_recover e). rr_success r \<longleftrightarrow> max_recovery_attempts (re_policy e) \<noteq> 0)
    \<and> distinct (map ch_name (re_components e)) \<and> length (re_event_history e) \<le> 1000"
proof -
  from engine_machine.reaches_inv [OF assms] have inv: "engine_inv e" .
  have names: "map rr_recovered_from (check_component p c) = (if ch_consecutive_failures c = 0 then [] else [ch_name c])" for p c
    by (simp add: check_component_def recovery_of_def split: auto_recovery_policy.split)
  have ok: "r \<in> set (check_component p c) \<Longrightarrow> ch_recovery_attempts c = 0 \<Longrightarrow> rr_success r \<longleftrightarrow> max_recovery_attempts p \<noteq> 0" for p c r
    by (auto simp: check_component_def recovery_of_def split: auto_recovery_policy.splits if_splits)
  have "map rr_recovered_from (concat (map (check_component p) cs)) = map ch_name (filter (\<lambda>c. ch_status c \<noteq> Healthy) cs)"
    if "\<forall>c \<in> set cs. ch_status c = Healthy \<longleftrightarrow> ch_consecutive_failures c = 0" for p cs
    using that by (induction cs) (auto simp: names)
  then show ?thesis using inv ok by (auto simp: check_and_recover_def engine_inv_def)
qed

theorem recovery_never_gives_up_witness:
  "map rr_recovered_from (check_and_recover (report_health 2 ''db'' (Unhealthy ''down'')
     (register_component 1 ''db'' (recovery_engine_new auto_recovery_policy_default)))) = [''db'']"
proof -
  let ?start = "recovery_engine_new auto_recovery_policy_default"
  let ?e = "report_health 2 ''db'' (Unhealthy ''down'') (register_component 1 ''db'' ?start)"
  have "reaches engine_init engine_step ?start" by (rule reaches_init) (auto simp: engine_init_def)
  then have "reaches engine_init engine_step (register_component 1 ''db'' ?start)" by (rule reaches_step) (rule en_register)
  then have "reaches engine_init engine_step ?e" by (rule reaches_step) (rule en_report)
  from conjunct1 [OF recovery_never_gives_up [OF this]] show ?thesis
    by (simp add: register_component_def recovery_engine_new_def report_health_def health_update_def)
qed

end
