(* ===== verification/Multi_Agent.thy ===== *)
theory Multi_Agent
  imports Std_Text
begin

text \<open>
  The collaboration of several agents (\<open>runtime/src/multi_agent.rs\<close>): planning, and the rounds of
  execution, review and critique.

  What an agent answers is a function of the round and the task, since it may keep a state; the
  answer of the language model to the planner's prompt, the JSON parser and writer, fresh
  identifiers and times are arguments. Texts are ASCII where the code trims them.
\<close>

section \<open>Data\<close>

datatype agent_role = Planner | Executor | Reviewer | Router | Critic | Aggregator

fun agent_role_str :: "agent_role \<Rightarrow> string" where
  "agent_role_str Planner = ''planner''"
| "agent_role_str Executor = ''executor''"
| "agent_role_str Reviewer = ''reviewer''"
| "agent_role_str Router = ''router''"
| "agent_role_str Critic = ''critic''"
| "agent_role_str Aggregator = ''aggregator''"

record sub_task_result =
  tr_output :: json
  tr_review :: "string option"
  tr_critique :: "string option"
  tr_approved :: bool
  tr_attempts :: nat

record sub_task =
  st_id :: string
  st_name :: string
  st_description :: string
  st_input :: json
  st_assigned_role :: "agent_role option"
  st_depends_on :: "string list"
  st_result :: "sub_task_result option"

record multi_agent_request =
  mr_goal :: string
  mr_context :: json
  mr_max_iterations :: nat
  mr_enable_reviewer :: bool
  mr_enable_critic :: bool

definition multi_agent_request_default :: multi_agent_request where
  "multi_agent_request_default = \<lparr>mr_goal = [], mr_context = Null, mr_max_iterations = 3, mr_enable_reviewer = True,
     mr_enable_critic = True\<rparr>"

record multi_agent_result =
  ms_workflow_id :: string
  ms_goal :: string
  ms_output :: json
  ms_sub_tasks :: "sub_task list"
  ms_success :: bool
  ms_duration_ms :: nat
  ms_iterations :: nat
  ms_error :: "string option"

record multi_agent_capability =
  ac_role :: agent_role
  ac_name :: string
  ac_execute :: "nat \<Rightarrow> ls_context \<Rightarrow> sub_task \<Rightarrow> json ls_result"

section \<open>Planning\<close>

text \<open>\<open>trim_start_matches\<close> and \<open>trim_end_matches\<close> with a text that is not empty.\<close>

function trim_start_str :: "string \<Rightarrow> string \<Rightarrow> string" where
  "trim_start_str p s = (if p \<noteq> [] \<and> starts_with s p then trim_start_str p (drop (length p) s) else s)"
  by pat_completeness auto
termination
proof (relation "measure (\<lambda>(p, s). length s)")
  fix p s :: string
  assume "p \<noteq> [] \<and> starts_with s p"
  then have "s \<noteq> []" "p \<noteq> []" by (auto simp: starts_with_def)
  then show "((p, drop (length p) s), p, s) \<in> measure (\<lambda>(p, s). length s)" by simp
qed simp

declare trim_start_str.simps [simp del]

definition trim_end_str :: "string \<Rightarrow> string \<Rightarrow> string" where
  "trim_end_str p s = rev (trim_start_str (rev p) (rev s))"

definition plan_clean :: "string \<Rightarrow> string" where
  "plan_clean content = trim (trim_end_str ''```'' (trim_start_str ''```'' (trim_start_str ''```json'' (trim content))))"

text \<open>\<open>Value::get\<close>, \<open>as_str\<close> and \<open>as_array\<close>.\<close>

fun json_get :: "string \<Rightarrow> json \<Rightarrow> json option" where
  "json_get k (Object m) = map_of m k"
| "json_get k _ = None"

fun json_str :: "json \<Rightarrow> string option" where
  "json_str (Str s) = Some s"
| "json_str _ = None"

fun json_array :: "json \<Rightarrow> json list option" where
  "json_array (Array js) = Some js"
| "json_array _ = None"

definition str_field :: "string \<Rightarrow> string \<Rightarrow> json \<Rightarrow> string" where
  "str_field k default_text t = (case json_get k t of None \<Rightarrow> default_text
     | Some v \<Rightarrow> (case json_str v of None \<Rightarrow> default_text | Some s \<Rightarrow> s))"

definition planned_task :: "json \<Rightarrow> string \<Rightarrow> json \<Rightarrow> sub_task" where
  "planned_task context fresh t = \<lparr>st_id = fresh, st_name = str_field ''name'' ''task'' t,
     st_description = str_field ''description'' [] t,
     st_input = (case json_get ''input'' t of None \<Rightarrow> context | Some v \<Rightarrow> v), st_assigned_role = Some Executor,
     st_depends_on = (case json_get ''depends_on'' t of None \<Rightarrow> []
       | Some v \<Rightarrow> (case json_array v of None \<Rightarrow> [] | Some arr \<Rightarrow> List.map_filter json_str arr)),
     st_result = None\<rparr>"

definition single_task :: "string \<Rightarrow> string \<Rightarrow> json \<Rightarrow> sub_task" where
  "single_task fresh goal context = \<lparr>st_id = fresh, st_name = ''execute'', st_description = goal, st_input = context,
     st_assigned_role = Some Executor, st_depends_on = [], st_result = None\<rparr>"

text \<open>\<open>llm\<close> is the content of the model's answer, if there is a model; \<open>parse\<close> the parser of a JSON array.\<close>

definition make_plan ::
  "string ls_result option \<Rightarrow> (string \<Rightarrow> string + json list) \<Rightarrow> (nat \<Rightarrow> string) \<Rightarrow> string \<Rightarrow> json \<Rightarrow> sub_task list ls_result" where
  "make_plan llm parse fresh goal context = (case llm of
       None \<Rightarrow> Inr [single_task (fresh 0) goal context]
     | Some (Inl e) \<Rightarrow> Inl e
     | Some (Inr content) \<Rightarrow> (case parse (plan_clean content) of
         Inl e \<Rightarrow> Inl (Internal (''plan parse error: '' @ e))
       | Inr tasks \<Rightarrow>
           (let sub_tasks = map (\<lambda>(i, t). planned_task context (fresh i) t) (enumerate 0 tasks)
            in if sub_tasks = [] then Inr [single_task (fresh 0) goal context] else Inr sub_tasks)))"

section \<open>Rounds\<close>

definition find_agent :: "agent_role \<Rightarrow> multi_agent_capability list \<Rightarrow> multi_agent_capability option" where
  "find_agent role agents = find (\<lambda>a. ac_role a = role) agents"

definition agent_for :: "multi_agent_capability list \<Rightarrow> sub_task \<Rightarrow> multi_agent_capability option" where
  "agent_for agents task =
     (let role = (case st_assigned_role task of None \<Rightarrow> Executor | Some r \<Rightarrow> r)
      in case find_agent role agents of Some a \<Rightarrow> Some a | None \<Rightarrow> find_agent Executor agents)"

text \<open>The review, if it is enabled, there is a reviewer and it answers: the result counts as approved unless the text
  of the answer contains \<open>FAIL\<close>.\<close>

definition review_step ::
  "(json \<Rightarrow> string) \<Rightarrow> nat \<Rightarrow> ls_context \<Rightarrow> multi_agent_capability list \<Rightarrow> multi_agent_request \<Rightarrow> sub_task \<Rightarrow> sub_task_result \<Rightarrow> sub_task_result" where
  "review_step to_text round ctx agents req task r =
     (if mr_enable_reviewer req
      then (case find_agent Reviewer agents of
          None \<Rightarrow> r
        | Some reviewer \<Rightarrow> (case ac_execute reviewer round ctx (task\<lparr>st_result := Some r\<rparr>) of
            Inl _ \<Rightarrow> r
          | Inr out \<Rightarrow> r\<lparr>tr_review := Some (to_text out), tr_approved := \<not> contains_str (to_text out) ''FAIL''\<rparr>))
      else r)"

definition critic_step ::
  "(json \<Rightarrow> string) \<Rightarrow> nat \<Rightarrow> ls_context \<Rightarrow> multi_agent_capability list \<Rightarrow> multi_agent_request \<Rightarrow> sub_task \<Rightarrow> sub_task_result \<Rightarrow> sub_task_result" where
  "critic_step to_text round ctx agents req task r =
     (if mr_enable_critic req \<and> \<not> tr_approved r
      then (case find_agent Critic agents of
          None \<Rightarrow> r
        | Some critic \<Rightarrow> (case ac_execute critic round ctx (task\<lparr>st_result := Some r\<rparr>) of
            Inl _ \<Rightarrow> r
          | Inr out \<Rightarrow> r\<lparr>tr_critique := Some (to_text out)\<rparr>))
      else r)"

text \<open>One task of a round, with whether it leaves the round approved.\<close>

definition collab_task ::
  "(json \<Rightarrow> string) \<Rightarrow> nat \<Rightarrow> ls_context \<Rightarrow> multi_agent_capability list \<Rightarrow> multi_agent_request \<Rightarrow> sub_task \<Rightarrow> sub_task \<times> bool" where
  "collab_task to_text round ctx agents req task = (case agent_for agents task of
       None \<Rightarrow> (task, True)
     | Some agent \<Rightarrow> (case ac_execute agent round ctx task of
         Inr out \<Rightarrow>
           (let r = critic_step to_text round ctx agents req task
                  (review_step to_text round ctx agents req task
                    \<lparr>tr_output = out, tr_review = None, tr_critique = None, tr_approved = True, tr_attempts = 1\<rparr>)
            in (task\<lparr>st_result := Some r\<rparr>, tr_approved r))
       | Inl e \<Rightarrow> (task\<lparr>st_result := Some \<lparr>tr_output = Null, tr_review = None, tr_critique = None, tr_approved = False,
             tr_attempts = 1\<rparr>\<rparr>, False)))"

definition collab_round ::
  "(json \<Rightarrow> string) \<Rightarrow> nat \<Rightarrow> ls_context \<Rightarrow> multi_agent_capability list \<Rightarrow> multi_agent_request \<Rightarrow> sub_task list \<Rightarrow> sub_task list \<times> bool" where
  "collab_round to_text round ctx agents req sub_tasks =
     (let outs = map (collab_task to_text round ctx agents req) sub_tasks in (map fst outs, list_all snd outs))"

text \<open>The loop, which always starts from the planned tasks: \<open>left\<close> rounds are left after \<open>iteration\<close> of them.\<close>

fun rounds ::
  "(json \<Rightarrow> string) \<Rightarrow> ls_context \<Rightarrow> multi_agent_capability list \<Rightarrow> multi_agent_request \<Rightarrow> sub_task list \<Rightarrow> nat \<Rightarrow> nat \<Rightarrow> sub_task list \<Rightarrow> bool \<Rightarrow>
   sub_task list \<times> nat \<times> bool" where
  "rounds to_text ctx agents req sub_tasks 0 iteration results approved = (results, iteration, approved)"
| "rounds to_text ctx agents req sub_tasks (Suc left) iteration results approved =
     (if approved then (results, iteration, approved)
      else (let (results', approved') = collab_round to_text (iteration + 1) ctx agents req sub_tasks
            in rounds to_text ctx agents req sub_tasks left (iteration + 1) results' approved'))"

definition aggregate_results :: "sub_task list \<Rightarrow> json" where
  "aggregate_results tasks = Object (fold (\<lambda>t m. case st_result t of None \<Rightarrow> m | Some r \<Rightarrow> hm_insert (st_name t) (tr_output r) m) tasks [])"

definition multi_agent_execute ::
  "(json \<Rightarrow> string) \<Rightarrow> string ls_result option \<Rightarrow> (string \<Rightarrow> string + json list) \<Rightarrow> (nat \<Rightarrow> string) \<Rightarrow> string \<Rightarrow> nat \<Rightarrow> ls_context \<Rightarrow>
   multi_agent_capability list \<Rightarrow> multi_agent_request \<Rightarrow> multi_agent_result ls_result" where
  "multi_agent_execute to_text llm parse fresh workflow_id duration ctx agents req =
     (case make_plan llm parse fresh (mr_goal req) (mr_context req) of
        Inl e \<Rightarrow> Inl e
      | Inr sub_tasks \<Rightarrow>
          (let (results, iteration, approved) = rounds to_text ctx agents req sub_tasks (mr_max_iterations req) 0 [] False
           in Inr \<lparr>ms_workflow_id = workflow_id, ms_goal = mr_goal req, ms_output = aggregate_results results,
                ms_sub_tasks = results, ms_success = approved, ms_duration_ms = duration, ms_iterations = iteration,
                ms_error = (if approved then None else Some ''Max iterations reached without full approval'')\<rparr>))"

section \<open>Properties\<close>

definition round_ok ::
  "(json \<Rightarrow> string) \<Rightarrow> ls_context \<Rightarrow> multi_agent_capability list \<Rightarrow> multi_agent_request \<Rightarrow> sub_task list \<Rightarrow> nat \<Rightarrow> bool" where
  "round_ok to_text ctx agents req sub_tasks k \<longleftrightarrow> snd (collab_round to_text k ctx agents req sub_tasks)"

lemma rounds_exact:
  assumes "rounds to_text ctx agents req sub_tasks left i results approved = (res, n, ok)" "\<not> approved" "0 < left"
  shows "i < n \<and> n \<le> i + left \<and> res = fst (collab_round to_text n ctx agents req sub_tasks)
    \<and> ok = round_ok to_text ctx agents req sub_tasks n
    \<and> (\<forall>k. i < k \<and> k < n \<longrightarrow> \<not> round_ok to_text ctx agents req sub_tasks k) \<and> (ok \<or> n = i + left)"
  using assms
proof (induction left arbitrary: i results approved)
  case 0
  then show ?case by simp
next
  case (Suc left)
  obtain res1 ok1 where r: "collab_round to_text (Suc i) ctx agents req sub_tasks = (res1, ok1)" by fastforce
  then have ok1: "round_ok to_text ctx agents req sub_tasks (Suc i) = ok1" "fst (collab_round to_text (Suc i) ctx agents req sub_tasks) = res1"
    by (simp_all add: round_ok_def)
  have next_round: "rounds to_text ctx agents req sub_tasks left (Suc i) res1 ok1 = (res, n, ok)" using Suc.prems r by simp
  show ?case
  proof (cases "ok1 \<or> left = 0")
    case True
    with next_round have "(res, n, ok) = (res1, Suc i, ok1)" by (cases left) auto
    with True ok1 show ?thesis by auto
  next
    case False
    with Suc.IH [OF next_round] have "Suc i < n" "n \<le> Suc i + left"
      "res = fst (collab_round to_text n ctx agents req sub_tasks)" "ok = round_ok to_text ctx agents req sub_tasks n"
      "ok \<or> n = Suc i + left" and earlier: "\<forall>k. Suc i < k \<and> k < n \<longrightarrow> \<not> round_ok to_text ctx agents req sub_tasks k" by auto
    moreover have "\<not> round_ok to_text ctx agents req sub_tasks k" if "i < k" "k < n" for k
      using that earlier False ok1(1) by (cases "k = Suc i") auto
    ultimately show ?thesis by auto
  qed
qed

lemma snd_collab_task:
  "snd (collab_task to_text round ctx agents req task) \<longleftrightarrow> agent_for agents task = None
     \<or> (\<exists>r. st_result (fst (collab_task to_text round ctx agents req task)) = Some r \<and> tr_approved r)"
  by (simp add: collab_task_def Let_def split: option.split sum.split)

lemma round_ok_iff:
  "round_ok to_text ctx agents req sub_tasks k \<longleftrightarrow> (\<forall>t \<in> set sub_tasks. agent_for agents t = None
     \<or> (\<exists>r. st_result (fst (collab_task to_text k ctx agents req t)) = Some r \<and> tr_approved r))"
  by (simp add: round_ok_def collab_round_def Let_def list_all_iff snd_collab_task)

text \<open>C28: with a plan and at least one round allowed the collaboration returns after finitely many rounds. It is a
  success exactly if in some round among the allowed ones every task that finds an agent has an approved
  result; then the results are those of the first such round, otherwise those of the last round allowed. The output
  maps the name of a task to the output of the last task with that name that has a result.\<close>

theorem multi_agent_outcome:
  assumes "make_plan llm parse fresh (mr_goal req) (mr_context req) = Inr sub_tasks" "0 < mr_max_iterations req"
  shows "\<exists>out n. multi_agent_execute to_text llm parse fresh workflow_id duration ctx agents req = Inr out
    \<and> ms_iterations out = n \<and> 0 < n \<and> n \<le> mr_max_iterations req
    \<and> ms_sub_tasks out = map (\<lambda>t. fst (collab_task to_text n ctx agents req t)) sub_tasks
    \<and> (ms_success out \<longleftrightarrow> (\<forall>t \<in> set sub_tasks. agent_for agents t = None
         \<or> (\<exists>r. st_result (fst (collab_task to_text n ctx agents req t)) = Some r \<and> tr_approved r)))
    \<and> (ms_success out \<longleftrightarrow> (\<exists>k. 0 < k \<and> k \<le> mr_max_iterations req \<and> round_ok to_text ctx agents req sub_tasks k))
    \<and> (\<not> ms_success out \<longrightarrow> n = mr_max_iterations req)
    \<and> ms_output out = aggregate_results (ms_sub_tasks out)"
proof -
  obtain res n ok where run: "rounds to_text ctx agents req sub_tasks (mr_max_iterations req) 0 [] False = (res, n, ok)"
    by (rule prod_cases3)
  from rounds_exact [OF this _ assms(2)]
  have n: "0 < n" "n \<le> mr_max_iterations req" "res = fst (collab_round to_text n ctx agents req sub_tasks)"
    "ok = round_ok to_text ctx agents req sub_tasks n" "\<forall>k. 0 < k \<and> k < n \<longrightarrow> \<not> round_ok to_text ctx agents req sub_tasks k"
    "ok \<or> n = mr_max_iterations req" by auto
  have "ok \<longleftrightarrow> (\<exists>k. 0 < k \<and> k \<le> mr_max_iterations req \<and> round_ok to_text ctx agents req sub_tasks k)"
    using n by (metis le_neq_implies_less)
  with n assms(1) run show ?thesis
    by (auto simp: multi_agent_execute_def round_ok_iff collab_round_def Let_def)
qed

definition sample_executor :: multi_agent_capability where
  "sample_executor = \<lparr>ac_role = Executor, ac_name = ''e'', ac_execute = (\<lambda>round _ _. if round < 2 then Inl (Internal []) else Inr Null)\<rparr>"

theorem multi_agent_outcome_witness:
  "\<exists>out. multi_agent_execute (\<lambda>_. []) None (\<lambda>_. Inr []) (\<lambda>_. []) [] 0 (ctx_new 0 0 0) [sample_executor] multi_agent_request_default
     = Inr out \<and> ms_success out"
proof -
  let ?req = multi_agent_request_default and ?ctx = "ctx_new 0 0 0"
  have plan: "make_plan None (\<lambda>_. Inr []) (\<lambda>_. []) (mr_goal ?req) (mr_context ?req) = Inr [single_task [] [] Null]"
    by (simp add: make_plan_def multi_agent_request_default_def)
  have "round_ok (\<lambda>_. []) ?ctx [sample_executor] ?req [single_task [] [] Null] 2"
    by (simp add: round_ok_iff collab_task_def agent_for_def find_agent_def single_task_def sample_executor_def Let_def
        review_step_def critic_step_def)
  then have "\<exists>k. 0 < k \<and> k \<le> mr_max_iterations ?req \<and> round_ok (\<lambda>_. []) ?ctx [sample_executor] ?req [single_task [] [] Null] k"
    by (intro exI [of _ 2]) (simp add: multi_agent_request_default_def)
  moreover have "0 < mr_max_iterations ?req" by (simp add: multi_agent_request_default_def)
  ultimately show ?thesis using multi_agent_outcome [OF plan, of "\<lambda>_. []" "[]" 0 ?ctx "[sample_executor]"] by blast
qed

text \<open>Without any agent the collaboration is a success with no result at all.\<close>

lemma success_without_agents:
  assumes "make_plan llm parse fresh (mr_goal req) (mr_context req) = Inr sub_tasks" "0 < mr_max_iterations req"
    and "\<forall>t \<in> set sub_tasks. st_result t = None"
  shows "\<exists>out. multi_agent_execute to_text llm parse fresh workflow_id duration ctx [] req = Inr out
    \<and> ms_success out \<and> ms_output out = Object []"
proof -
  obtain k where k: "mr_max_iterations req = Suc k" using assms(2) by (cases "mr_max_iterations req") auto
  have none: "agent_for [] t = None" for t by (simp add: agent_for_def find_agent_def)
  have round: "collab_round to_text 1 ctx [] req sub_tasks = (sub_tasks, True)"
    by (simp add: collab_round_def collab_task_def none comp_def list_all_iff)
  have "aggregate_results sub_tasks = Object []"
    using assms(3) by (induction sub_tasks) (auto simp: aggregate_results_def)
  moreover have "rounds to_text ctx [] req sub_tasks (Suc k) 0 [] False = (sub_tasks, 1, True)"
    using round by (cases k) simp_all
  ultimately show ?thesis using assms(1) k by (simp add: multi_agent_execute_def)
qed

end
