(* ===== verification/Floats.thy ===== *)
theory Floats
  imports Core Complex_Main
begin

text \<open>
  Floating-point numbers. The operations of \<open>f64\<close> are a record of functions, an argument of the definitions that
  compute with it, so that the order of the operations and every comparison is the one of the code and
  nothing is said of rounding beyond the facts of the standard the collection \<open>float_laws\<close> names. A
  literal like 0.25 is \<open>fl_dec\<close> of its digits and the number of them after the point; a value that is
  not a number is not less or equal to itself.
\<close>

record 'f float_ops =
  fl_dec :: "int \<Rightarrow> nat \<Rightarrow> 'f"
  fl_int :: "int \<Rightarrow> 'f"
  fl_add :: "'f \<Rightarrow> 'f \<Rightarrow> 'f"
  fl_sub :: "'f \<Rightarrow> 'f \<Rightarrow> 'f"
  fl_mul :: "'f \<Rightarrow> 'f \<Rightarrow> 'f"
  fl_div :: "'f \<Rightarrow> 'f \<Rightarrow> 'f"
  fl_lt :: "'f \<Rightarrow> 'f \<Rightarrow> bool"
  fl_le :: "'f \<Rightarrow> 'f \<Rightarrow> bool"
  fl_floor :: "'f \<Rightarrow> 'f"
  fl_ceil :: "'f \<Rightarrow> 'f"
  fl_round :: "'f \<Rightarrow> 'f"
  fl_abs :: "'f \<Rightarrow> 'f"
  fl_trunc :: "'f \<Rightarrow> int"

definition fl_nan :: "'f float_ops \<Rightarrow> 'f \<Rightarrow> bool" where
  "fl_nan F x \<longleftrightarrow> \<not> fl_le F x x"

text \<open>\<open>max\<close>, \<open>min\<close> and \<open>clamp\<close>; a cast to an unsigned integer of \<open>bits\<close> bits saturates, and \<open>fl_trunc\<close> is the
  rounding towards zero, with 0 for what is not a number.\<close>

definition fl_max :: "'f float_ops \<Rightarrow> 'f \<Rightarrow> 'f \<Rightarrow> 'f" where
  "fl_max F x y = (if fl_nan F x then y else if fl_nan F y then x else if fl_lt F x y then y else x)"

definition fl_min :: "'f float_ops \<Rightarrow> 'f \<Rightarrow> 'f \<Rightarrow> 'f" where
  "fl_min F x y = (if fl_nan F x then y else if fl_nan F y then x else if fl_lt F y x then y else x)"

definition fl_clamp :: "'f float_ops \<Rightarrow> 'f \<Rightarrow> 'f \<Rightarrow> 'f \<Rightarrow> 'f" where
  "fl_clamp F low high x = (if fl_lt F x low then low else if fl_lt F high x then high else x)"

definition fl_to_uint :: "'f float_ops \<Rightarrow> nat \<Rightarrow> 'f \<Rightarrow> nat" where
  "fl_to_uint F bits x = nat (min (fl_trunc F x) (2 ^ bits - 1))"

definition fl_sum :: "'f float_ops \<Rightarrow> 'f list \<Rightarrow> 'f" where
  "fl_sum F xs = fold (\<lambda>x s. fl_add F s x) xs (fl_int F 0)"

text \<open>\<open>max_by\<close> and \<open>sort_by\<close> with \<open>partial_cmp\<close> of a key, where what cannot be compared counts as equal: the
  greatest is the last one no later element is greater than, and the sort is a stable insertion by the key.\<close>

definition fl_best :: "'f float_ops \<Rightarrow> ('a \<Rightarrow> 'f) \<Rightarrow> 'a list \<Rightarrow> 'a option" where
  "fl_best F key xs = (case xs of [] \<Rightarrow> None | x # ys \<Rightarrow> Some (last_max (\<lambda>a b. \<not> fl_lt F (key b) (key a)) x ys))"

fun fl_insert :: "('a \<Rightarrow> 'a \<Rightarrow> bool) \<Rightarrow> 'a \<Rightarrow> 'a list \<Rightarrow> 'a list" where
  "fl_insert before x [] = [x]"
| "fl_insert before x (y # ys) = (if before y x then y # fl_insert before x ys else x # y # ys)"

definition fl_sort :: "('a \<Rightarrow> 'a \<Rightarrow> bool) \<Rightarrow> 'a list \<Rightarrow> 'a list" where
  "fl_sort before xs = foldr (fl_insert before) xs []"

lemma set_fl_sort [simp]: "set (fl_sort before xs) = set xs"
proof -
  have "set (fl_insert before x ys) = insert x (set ys)" for x ys by (induction ys) auto
  then show ?thesis by (induction xs) (simp_all add: fl_sort_def)
qed

lemma length_fl_sort [simp]: "length (fl_sort before xs) = length xs"
proof -
  have "length (fl_insert before x ys) = Suc (length ys)" for x ys by (induction ys) auto
  then show ?thesis by (induction xs) (simp_all add: fl_sort_def)
qed

lemma fl_best_None [simp]: "fl_best F key xs = None \<longleftrightarrow> xs = []"
  by (cases xs) (simp_all add: fl_best_def)

lemma fl_best_mem: "fl_best F key xs = Some x \<Longrightarrow> x \<in> set xs"
  using last_max_mem by (cases xs) (fastforce simp: fl_best_def)+

text \<open>Facts of IEEE 754 arithmetic with rounding to nearest: the order is the one of the numbers, integers are
  converted monotonically, a sum of numbers that are not negative is at least each of them, and the integers up
  to 2 to the 53 are exact.\<close>

definition fl_le_trans_law :: "'f float_ops \<Rightarrow> bool" where
  "fl_le_trans_law F \<longleftrightarrow> (\<forall>x y z. fl_le F x y \<longrightarrow> fl_le F y z \<longrightarrow> fl_le F x z)"

definition fl_le_lt_trans_law :: "'f float_ops \<Rightarrow> bool" where
  "fl_le_lt_trans_law F \<longleftrightarrow> (\<forall>x y z. fl_le F x y \<longrightarrow> fl_lt F y z \<longrightarrow> fl_lt F x z)"

definition fl_lt_iff_law :: "'f float_ops \<Rightarrow> bool" where
  "fl_lt_iff_law F \<longleftrightarrow> (\<forall>x y. fl_lt F x y \<longleftrightarrow> fl_le F x y \<and> \<not> fl_le F y x)"

definition fl_le_cases_law :: "'f float_ops \<Rightarrow> bool" where
  "fl_le_cases_law F \<longleftrightarrow> (\<forall>x y. fl_le F x x \<longrightarrow> fl_le F y y \<longrightarrow> fl_le F x y \<or> fl_le F y x)"

definition fl_le_int_law :: "'f float_ops \<Rightarrow> bool" where
  "fl_le_int_law F \<longleftrightarrow> (\<forall>a b. a \<le> b \<longrightarrow> fl_le F (fl_int F a) (fl_int F b))"

definition fl_le_add_law :: "'f float_ops \<Rightarrow> bool" where
  "fl_le_add_law F \<longleftrightarrow> (\<forall>x y. fl_le F (fl_int F 0) x \<longrightarrow> fl_le F (fl_int F 0) y \<longrightarrow> fl_le F y (fl_add F x y))"

definition float_laws :: "'f float_ops \<Rightarrow> bool" where
  "float_laws F \<longleftrightarrow> fl_le_trans_law F \<and> fl_le_lt_trans_law F \<and> fl_lt_iff_law F \<and> fl_le_cases_law F \<and> fl_le_int_law F \<and> fl_le_add_law F"

definition exact_laws :: "'f float_ops \<Rightarrow> bool" where
  "exact_laws F \<longleftrightarrow>
     (\<forall>a b. 0 \<le> a \<longrightarrow> a \<le> b \<longrightarrow> b \<le> 2 ^ 53 \<longrightarrow> fl_sub F (fl_int F b) (fl_int F a) = fl_int F (b - a))
   \<and> (\<forall>a b. 0 \<le> a \<longrightarrow> a < b \<longrightarrow> b \<le> 2 ^ 53 \<longrightarrow> fl_lt F (fl_int F a) (fl_int F b))
   \<and> (\<forall>a. 0 \<le> a \<longrightarrow> a \<le> 2 ^ 53 \<longrightarrow> fl_add F (fl_int F a) (fl_int F 0) = fl_int F a)"

lemmas float_law_defs = fl_le_trans_law_def fl_le_lt_trans_law_def fl_lt_iff_law_def fl_le_cases_law_def fl_le_int_law_def fl_le_add_law_def

lemma fl_le_trans: "float_laws F \<Longrightarrow> fl_le F x y \<Longrightarrow> fl_le F y z \<Longrightarrow> fl_le F x z"
  unfolding float_laws_def fl_le_trans_law_def by (elim conjE) blast

lemma fl_le_lt_trans: "float_laws F \<Longrightarrow> fl_le F x y \<Longrightarrow> fl_lt F y z \<Longrightarrow> fl_lt F x z"
  unfolding float_laws_def fl_le_lt_trans_law_def by (elim conjE) blast

lemma fl_lt_iff: "float_laws F \<Longrightarrow> fl_lt F x y \<longleftrightarrow> fl_le F x y \<and> \<not> fl_le F y x"
  unfolding float_laws_def fl_lt_iff_law_def by (elim conjE) blast

lemma fl_le_cases: "float_laws F \<Longrightarrow> fl_le F x x \<Longrightarrow> fl_le F y y \<Longrightarrow> fl_le F x y \<or> fl_le F y x"
  unfolding float_laws_def fl_le_cases_law_def by (elim conjE) blast

lemma fl_le_int: "float_laws F \<Longrightarrow> a \<le> b \<Longrightarrow> fl_le F (fl_int F a) (fl_int F b)"
  unfolding float_laws_def fl_le_int_law_def by (elim conjE) blast

lemma fl_le_add: "float_laws F \<Longrightarrow> fl_le F (fl_int F 0) x \<Longrightarrow> fl_le F (fl_int F 0) y \<Longrightarrow> fl_le F y (fl_add F x y)"
  unfolding float_laws_def fl_le_add_law_def by (elim conjE) blast

lemma fl_best_greatest:
  assumes "float_laws F" "\<And>y. y \<in> set xs \<Longrightarrow> \<not> fl_nan F (key y)" "fl_best F key xs = Some x" "y \<in> set xs"
  shows "\<not> fl_lt F (key x) (key y)"
proof -
  let ?le = "\<lambda>a b. \<not> fl_lt F (key b) (key a)"
  obtain z zs where xs: "xs = z # zs" using assms(4) by (cases xs) auto
  have le: "?le a b \<longleftrightarrow> fl_le F (key a) (key b)" if "a \<in> set xs" "b \<in> set xs" for a b
    using assms(2) [OF that(1)] assms(2) [OF that(2)] fl_le_cases [OF assms(1)]
    by (auto simp: fl_nan_def fl_lt_iff [OF assms(1)])
  have "last_max ?le z zs \<in> insert z (set zs) \<and> (\<forall>y \<in> insert z (set zs). ?le y (last_max ?le z zs))"
  proof (rule last_max_greatest [where A = "set xs"])
    show "?le a c" if "a \<in> set xs" "b \<in> set xs" "c \<in> set xs" "?le a b" "?le b c" for a b c
      using fl_le_trans [OF assms(1), of "key a" "key b" "key c"] that by (simp only: le)
    show "?le a b \<or> ?le b a" if "a \<in> set xs" "b \<in> set xs" for a b
      using assms(2) [OF that(1)] assms(2) [OF that(2)] fl_le_cases [OF assms(1)] that by (simp only: le) (simp add: fl_nan_def)
  qed (simp add: xs)
  with assms(3, 4) show ?thesis by (auto simp: fl_best_def xs)
qed

lemma fl_less_int: "float_laws F \<Longrightarrow> fl_lt F (fl_int F a) (fl_int F b) \<Longrightarrow> a < b"
  using fl_le_int [of F b a] by (auto simp: fl_lt_iff intro: leI)

text \<open>The exact rational numbers satisfy the laws; they serve as the instance on which theorems about code with
  floating-point numbers are evaluated.\<close>

definition rat_ops :: "rat float_ops" where
  "rat_ops = \<lparr>fl_dec = (\<lambda>m k. of_int m / 10 ^ k), fl_int = of_int, fl_add = (+), fl_sub = (-), fl_mul = (*),
     fl_div = (/), fl_lt = (<), fl_le = (\<le>), fl_floor = (\<lambda>x. of_int \<lfloor>x\<rfloor>),
     fl_ceil = (\<lambda>x. of_int \<lceil>x\<rceil>), fl_round = (\<lambda>x. if 0 \<le> x then of_int \<lfloor>x + 1 / 2\<rfloor> else of_int \<lceil>x - 1 / 2\<rceil>), fl_abs = abs,
     fl_trunc = (\<lambda>x. if 0 \<le> x then \<lfloor>x\<rfloor> else \<lceil>x\<rceil>)\<rparr>"

lemma rat_ops_simps [simp]:
  "fl_dec rat_ops m k = of_int m / 10 ^ k" "fl_int rat_ops = of_int" "fl_add rat_ops = (+)" "fl_sub rat_ops = (-)"
  "fl_mul rat_ops = (*)" "fl_div rat_ops = (/)" "fl_lt rat_ops = (<)" "fl_le rat_ops = (\<le>)"
  "fl_floor rat_ops x = of_int \<lfloor>x\<rfloor>" "fl_ceil rat_ops x = of_int \<lceil>x\<rceil>" "fl_abs rat_ops = abs"
  "fl_round rat_ops x = (if 0 \<le> x then of_int \<lfloor>x + 1 / 2\<rfloor> else of_int \<lceil>x - 1 / 2\<rceil>)"
  "fl_trunc rat_ops x = (if 0 \<le> x then \<lfloor>x\<rfloor> else \<lceil>x\<rceil>)"
  by (simp_all add: rat_ops_def)

lemma rat_laws [simp]: "float_laws rat_ops"
  by (auto simp: float_laws_def float_law_defs)

lemma rat_exact [simp]: "exact_laws rat_ops"
  by (auto simp: exact_laws_def)

end
