(* ===== verification/Dist_Scheduler.thy ===== *)
theory Dist_Scheduler
  imports Floats Cluster Dist_Queue
begin

text \<open>
  The scheduler of tasks over the nodes of a cluster (\<open>distributed/src/scheduler.rs\<close>): the loads of the nodes,
  the strategies that choose one, submission to the queue of the chosen node, and the loops that
  refresh the loads from the cluster.

  The map of loads is iterated in an order that is not fixed: the properties hold for each. The 32-bit counts
  wrap as in a release build; the other counters are 64-bit and below their bound. The hash of a task, the
  clock, and the text of a task as JSON are arguments.
\<close>

section \<open>Data\<close>

datatype scheduler_error = NoAvailableNode | TaskTimeout string | QueueError string

datatype dist_strategy = LeastTasks | RoundRobin | Weighted | ConsistentHash | LocalFirst | Adaptive

fun dist_strategy_text :: "dist_strategy \<Rightarrow> string" where
  "dist_strategy_text LeastTasks = ''least_tasks''"
| "dist_strategy_text RoundRobin = ''round_robin''"
| "dist_strategy_text Weighted = ''weighted''"
| "dist_strategy_text ConsistentHash = ''consistent_hash''"
| "dist_strategy_text LocalFirst = ''local_first''"
| "dist_strategy_text Adaptive = ''adaptive''"

record dist_config =
  dc_strategy :: dist_strategy
  dc_local_node_id :: string
  dc_max_retries :: nat
  dc_task_timeout_secs :: nat
  dc_node_timeout_secs :: nat
  dc_batch_size :: nat
  dc_enable_auto_failover :: bool
  dc_health_check_ms :: nat

definition dist_config_default :: "string \<Rightarrow> dist_config" where
  "dist_config_default fresh = \<lparr>dc_strategy = Adaptive, dc_local_node_id = fresh, dc_max_retries = 3,
     dc_task_timeout_secs = 300, dc_node_timeout_secs = 30, dc_batch_size = 10, dc_enable_auto_failover = True,
     dc_health_check_ms = 5000\<rparr>"

record dist_task =
  dt_id :: ls_id
  dt_name :: string
  dt_task_type :: string
  dt_payload :: json
  dt_target_agent_id :: "string option"
  dt_required_capabilities :: "string list"
  dt_priority :: nat
  dt_created_at :: int
  dt_timeout_secs :: nat
  dt_retry_count :: nat
  dt_affinity_node :: "string option"

definition dist_task_new :: "ls_id \<Rightarrow> int \<Rightarrow> string \<Rightarrow> string \<Rightarrow> json \<Rightarrow> dist_task" where
  "dist_task_new fresh now name task_type payload = \<lparr>dt_id = fresh, dt_name = name, dt_task_type = task_type,
     dt_payload = payload, dt_target_agent_id = None, dt_required_capabilities = [], dt_priority = 5, dt_created_at = now,
     dt_timeout_secs = 300, dt_retry_count = 0, dt_affinity_node = None\<rparr>"

definition with_target_agent :: "string \<Rightarrow> dist_task \<Rightarrow> dist_task" where
  "with_target_agent a t = t\<lparr>dt_target_agent_id := Some a\<rparr>"

definition with_priority :: "nat \<Rightarrow> dist_task \<Rightarrow> dist_task" where
  "with_priority p t = t\<lparr>dt_priority := min p 10\<rparr>"

definition with_affinity :: "string \<Rightarrow> dist_task \<Rightarrow> dist_task" where
  "with_affinity n t = t\<lparr>dt_affinity_node := Some n\<rparr>"

definition with_capability :: "string \<Rightarrow> dist_task \<Rightarrow> dist_task" where
  "with_capability c t = t\<lparr>dt_required_capabilities := dt_required_capabilities t @ [c]\<rparr>"

record dist_schedule_result =
  sr_task_id :: ls_id
  sr_assigned_node_id :: string
  sr_node_addr :: string
  sr_is_local :: bool
  sr_scheduling_ms :: nat
  sr_estimated_wait_ms :: nat

record dist_exec_result =
  er_task_id :: ls_id
  er_node_id :: string
  er_output :: json
  er_success :: bool
  er_execution_ms :: nat
  er_error :: "string option"
  er_completed_at :: int

record 'f node_load =
  nl_node_id :: string
  nl_addr :: string
  nl_pending :: "32 word"
  nl_active :: "32 word"
  nl_completed :: nat
  nl_failed :: nat
  nl_success_rate :: 'f
  nl_avg_ms :: 'f
  nl_cpu :: 'f
  nl_memory :: 'f
  nl_weight :: 'f
  nl_online :: bool
  nl_last_updated :: int

definition node_load_new :: "'f float_ops \<Rightarrow> int \<Rightarrow> string \<Rightarrow> string \<Rightarrow> 'f node_load" where
  "node_load_new F now i addr = \<lparr>nl_node_id = i, nl_addr = addr, nl_pending = 0, nl_active = 0, nl_completed = 0, nl_failed = 0,
     nl_success_rate = fl_int F 1, nl_avg_ms = fl_int F 0, nl_cpu = fl_int F 0, nl_memory = fl_int F 0,
     nl_weight = fl_int F 1, nl_online = True, nl_last_updated = now\<rparr>"

definition load_score :: "'f float_ops \<Rightarrow> 'f node_load \<Rightarrow> 'f" where
  "load_score F l =
     (let task_load = fl_div F (fl_add F (fl_mul F (fl_int F (uint (nl_pending l))) (fl_int F 2)) (fl_int F (uint (nl_active l)))) (fl_int F 100);
          resource_load = fl_div F (fl_add F (nl_cpu l) (nl_memory l)) (fl_int F 2);
          penalty = fl_mul F (fl_sub F (fl_int F 1) (nl_success_rate l)) (fl_dec F 5 1)
      in fl_div F (fl_add F (fl_add F task_load resource_load) penalty) (fl_max F (nl_weight l) (fl_dec F 1 1)))"

record 'f dist_scheduler =
  ds_config :: dist_config
  ds_task_queue :: "dist_queue option"
  ds_node_loads :: "(string, 'f node_load) hmap"
  ds_round_robin :: "64 word"
  ds_node_weights :: "(string, 'f) hmap"
  ds_local_load :: "'f node_load"
  ds_running :: bool

definition dist_scheduler_new :: "'f float_ops \<Rightarrow> int \<Rightarrow> dist_config \<Rightarrow> 'f dist_scheduler" where
  "dist_scheduler_new F now c = \<lparr>ds_config = c, ds_task_queue = None, ds_node_loads = [], ds_round_robin = 0,
     ds_node_weights = [], ds_local_load = node_load_new F now (dc_local_node_id c) ''local'', ds_running = False\<rparr>"

definition set_queue :: "dist_queue \<Rightarrow> 'f dist_scheduler \<Rightarrow> 'f dist_scheduler" where
  "set_queue q s = s\<lparr>ds_task_queue := Some q\<rparr>"

definition set_node_weight :: "'f float_ops \<Rightarrow> string \<Rightarrow> 'f \<Rightarrow> 'f dist_scheduler \<Rightarrow> 'f dist_scheduler" where
  "set_node_weight F i w s = s\<lparr>ds_node_weights := hm_insert i (fl_max F w (fl_dec F 1 1)) (ds_node_weights s)\<rparr>"

section \<open>Starting, and the loop that refreshes the loads\<close>

definition dist_start :: "'f dist_scheduler \<Rightarrow> 'f dist_scheduler" where
  "dist_start s = (if ds_running s then s else s\<lparr>ds_running := True\<rparr>)"

definition dist_stop :: "'f dist_scheduler \<Rightarrow> 'f dist_scheduler" where
  "dist_stop s = s\<lparr>ds_running := False\<rparr>"

definition refresh_member :: "'f float_ops \<Rightarrow> int \<Rightarrow> cluster_node \<Rightarrow> (string, 'f node_load) hmap \<Rightarrow> (string, 'f node_load) hmap" where
  "refresh_member F now n loads =
     (let l = (case hm_get loads (cn_id n) of Some l \<Rightarrow> l | None \<Rightarrow> node_load_new F now (cn_id n) (cn_addr n))
      in hm_insert (cn_id n) (l\<lparr>nl_online := (cn_status n = Alive), nl_last_updated := now\<rparr>) loads)"

definition health_tick :: "'f float_ops \<Rightarrow> int \<Rightarrow> cluster_state \<Rightarrow> 'f dist_scheduler \<Rightarrow> 'f dist_scheduler" where
  "health_tick F now cluster s =
     (let loads = fold (refresh_member F now) (hm_values (cs_members cluster)) (ds_node_loads s)
      in s\<lparr>ds_node_loads := hm_retain (\<lambda>_ l. now - nl_last_updated l < as_i64 (dc_node_timeout_secs (ds_config s))) loads\<rparr>)"

text \<open>The loop for failover only counts the nodes it would have to handle, for its log.\<close>

definition failed_nodes :: "'f dist_scheduler \<Rightarrow> string list" where
  "failed_nodes s = map fst (filter (\<lambda>(_, l). \<not> nl_online l \<and> nl_pending l > 0) (ds_node_loads s))"

section \<open>Choosing a node\<close>

definition online_loads :: "(string, 'f node_load) hmap \<Rightarrow> (string \<times> 'f node_load) list" where
  "online_loads loads = filter (\<lambda>(_, l). nl_online l) loads"

definition node_choice :: "string \<times> 'f node_load \<Rightarrow> string \<times> string" where
  "node_choice p = (fst p, nl_addr (snd p))"

definition select_least_tasks :: "(string, 'f node_load) hmap \<Rightarrow> (string \<times> string) option" where
  "select_least_tasks loads = (case online_loads loads of
       [] \<Rightarrow> None
     | p # ps \<Rightarrow> Some (node_choice (first_min (\<lambda>p. nl_pending (snd p)) p ps)))"

definition select_round_robin :: "(string, 'f node_load) hmap \<Rightarrow> 64 word \<Rightarrow> (string \<times> string) option \<times> 64 word" where
  "select_round_robin loads counter =
     (let online = online_loads loads
      in if online = [] then (None, counter)
         else (Some (node_choice (online ! (unat counter mod length online))), counter + 1))"

fun weighted_pick :: "'f float_ops \<Rightarrow> 'f \<Rightarrow> (string \<times> 'f node_load) list \<Rightarrow> (string \<times> 'f node_load) option" where
  "weighted_pick F rng [] = None"
| "weighted_pick F rng (p # ps) =
     (let rng' = fl_sub F rng (nl_weight (snd p))
      in if fl_le F rng' (fl_int F 0) then Some p else weighted_pick F rng' ps)"

definition select_weighted :: "'f float_ops \<Rightarrow> nat \<Rightarrow> (string, 'f node_load) hmap \<Rightarrow> (string \<times> string) option" where
  "select_weighted F nanos loads =
     (let online = online_loads loads
      in if online = [] then None
         else let total = fl_sum F (map (\<lambda>p. nl_weight (snd p)) online)
              in if fl_le F total (fl_int F 0) then select_least_tasks loads
                 else let r = fl_div F (fl_int F (int (nanos mod 1000000))) (fl_int F 1000000)
                      in (case weighted_pick F (fl_mul F r total) online of
                            Some p \<Rightarrow> Some (node_choice p)
                          | None \<Rightarrow> Some (node_choice (online ! (length online - 1)))))"

definition select_consistent_hash :: "(string \<Rightarrow> 64 word) \<Rightarrow> dist_task \<Rightarrow> (string, 'f node_load) hmap \<Rightarrow> (string \<times> string) option" where
  "select_consistent_hash hash task loads =
     (let online = online_loads loads
      in if online = [] then None
         else Some (node_choice (online ! (unat (hash (show_id (dt_id task))) mod length online))))"

definition select_local_first :: "string \<Rightarrow> (string, 'f node_load) hmap \<Rightarrow> (string \<times> string) option" where
  "select_local_first here loads = (case hm_get loads here of
       Some l \<Rightarrow> if nl_online l \<and> nl_pending l < 5 then Some (here, nl_addr l) else select_least_tasks loads
     | None \<Rightarrow> select_least_tasks loads)"

definition adaptive_score :: "'f float_ops \<Rightarrow> 'f node_load \<Rightarrow> string \<Rightarrow> string \<Rightarrow> dist_task \<Rightarrow> (string, 'f) hmap \<Rightarrow> 'f" where
  "adaptive_score F l node_id here task weights =
     (let s0 = fl_int F 0;
          s1 = (if node_id = here then fl_add F s0 (fl_int F 2) else s0);
          s2 = (if dt_affinity_node task = Some node_id then fl_add F s1 (fl_int F 3) else s1);
          task_load = nl_pending l + nl_active l;
          s3 = fl_add F s2 (fl_mul F (fl_div F (fl_int F 1) (fl_add F (fl_int F (uint task_load)) (fl_int F 1))) (fl_int F 5));
          s4 = fl_add F s3 (fl_mul F (nl_success_rate l) (fl_int F 3));
          s5 = fl_add F s4 (fl_mul F (fl_sub F (fl_int F 1) (nl_cpu l)) (fl_int F 1));
          s6 = fl_add F s5 (fl_mul F (fl_sub F (fl_int F 1) (nl_memory l)) (fl_int F 1));
          w = (case hm_get weights node_id of Some w \<Rightarrow> w | None \<Rightarrow> fl_int F 1)
      in fl_mul F s6 w)"

text \<open>A comparison of two scores that cannot be compared counts as equal.\<close>

definition select_adaptive ::
  "'f float_ops \<Rightarrow> string \<Rightarrow> dist_task \<Rightarrow> (string, 'f) hmap \<Rightarrow> (string, 'f node_load) hmap \<Rightarrow> (string \<times> string) option" where
  "select_adaptive F here task weights loads = (case online_loads loads of
       [] \<Rightarrow> None
     | p # ps \<Rightarrow> Some (node_choice (last_max (\<lambda>(i, a) (j, b).
         \<not> fl_lt F (adaptive_score F b j here task weights) (adaptive_score F a i here task weights)) p ps)))"

text \<open>The clock gives the nanoseconds for the weighted strategy and the milliseconds the selection took.\<close>

definition select_node ::
  "'f float_ops \<Rightarrow> (string \<Rightarrow> 64 word) \<Rightarrow> nat \<Rightarrow> nat \<Rightarrow> dist_task \<Rightarrow> 'f dist_scheduler \<Rightarrow> (scheduler_error + dist_schedule_result) \<times> 'f dist_scheduler" where
  "select_node F hash nanos ms task s =
     (let loads = ds_node_loads s; here = dc_local_node_id (ds_config s);
          (selection, s1) = (case dc_strategy (ds_config s) of
              LeastTasks \<Rightarrow> (select_least_tasks loads, s)
            | RoundRobin \<Rightarrow> (let (p, c) = select_round_robin loads (ds_round_robin s) in (p, s\<lparr>ds_round_robin := c\<rparr>))
            | Weighted \<Rightarrow> (select_weighted F nanos loads, s)
            | ConsistentHash \<Rightarrow> (select_consistent_hash hash task loads, s)
            | LocalFirst \<Rightarrow> (select_local_first here loads, s)
            | Adaptive \<Rightarrow> (select_adaptive F here task (ds_node_weights s) loads, s))
      in (case selection of
            None \<Rightarrow> (Inl NoAvailableNode, s1)
          | Some (i, addr) \<Rightarrow> (Inr \<lparr>sr_task_id = dt_id task, sr_assigned_node_id = i, sr_node_addr = addr,
                sr_is_local = (i = here), sr_scheduling_ms = ms,
                sr_estimated_wait_ms = (case hm_get loads i of Some l \<Rightarrow> unat (nl_pending l) * 100 | None \<Rightarrow> 0)\<rparr>, s1)))"

section \<open>Tasks\<close>

definition submit_task ::
  "'f float_ops \<Rightarrow> (string \<Rightarrow> 64 word) \<Rightarrow> nat \<Rightarrow> nat \<Rightarrow> (dist_task \<Rightarrow> string) \<Rightarrow> string \<Rightarrow> int \<Rightarrow> dist_task \<Rightarrow> 'f dist_scheduler
     \<Rightarrow> (scheduler_error + dist_schedule_result) \<times> 'f dist_scheduler" where
  "submit_task F hash nanos ms to_text fresh utc task s = (case select_node F hash nanos ms task s of
       (Inl e, s1) \<Rightarrow> (Inl e, s1)
     | (Inr r, s1) \<Rightarrow>
         (let s2 = (if sr_is_local r then s1\<lparr>ds_local_load := (ds_local_load s1)\<lparr>nl_pending := nl_pending (ds_local_load s1) + 1\<rparr>\<rparr> else s1);
              s3 = (case ds_task_queue s2 of
                      None \<Rightarrow> s2
                    | Some q \<Rightarrow> s2\<lparr>ds_task_queue := Some (snd (publish fresh utc (''dist_task_'' @ sr_assigned_node_id r) (to_text task) q))\<rparr>)
          in (Inr r, s3\<lparr>ds_node_loads := hm_modify (sr_assigned_node_id r) (\<lambda>l. l\<lparr>nl_pending := nl_pending l + 1\<rparr>) (ds_node_loads s3)\<rparr>)))"

definition saturating_dec :: "32 word \<Rightarrow> 32 word" where
  "saturating_dec w = (if w = 0 then 0 else w - 1)"

definition count_outcome :: "bool \<Rightarrow> 'f node_load \<Rightarrow> 'f node_load" where
  "count_outcome success l = (if success then l\<lparr>nl_completed := nl_completed l + 1\<rparr> else l\<lparr>nl_failed := nl_failed l + 1\<rparr>)"

definition complete_on :: "'f float_ops \<Rightarrow> dist_exec_result \<Rightarrow> 'f node_load \<Rightarrow> 'f node_load" where
  "complete_on F r l =
     (let l1 = count_outcome (er_success r) (l\<lparr>nl_active := saturating_dec (nl_active l), nl_pending := saturating_dec (nl_pending l)\<rparr>);
          total = nl_completed l1 + nl_failed l1;
          rate = (if total > 0 then fl_div F (fl_int F (int (nl_completed l1))) (fl_int F (int total)) else fl_int F 1);
          alpha = fl_dec F 3 1
      in l1\<lparr>nl_success_rate := rate,
            nl_avg_ms := fl_add F (fl_mul F alpha (fl_int F (int (er_execution_ms r))))
              (fl_mul F (fl_sub F (fl_int F 1) alpha) (nl_avg_ms l1))\<rparr>)"

definition record_completion :: "'f float_ops \<Rightarrow> dist_exec_result \<Rightarrow> 'f dist_scheduler \<Rightarrow> 'f dist_scheduler" where
  "record_completion F r s =
     (let s1 = s\<lparr>ds_node_loads := hm_modify (er_node_id r) (complete_on F r) (ds_node_loads s)\<rparr>
      in if er_node_id r = dc_local_node_id (ds_config s)
         then s1\<lparr>ds_local_load := count_outcome (er_success r)
                ((ds_local_load s1)\<lparr>nl_pending := saturating_dec (nl_pending (ds_local_load s1))\<rparr>)\<rparr>
         else s1)"

text \<open>The stable sort by the reversed flag puts the nodes that are online first.\<close>

definition get_all_loads :: "'f dist_scheduler \<Rightarrow> 'f node_load list" where
  "get_all_loads s = filter nl_online (hm_values (ds_node_loads s)) @ filter (\<lambda>l. \<not> nl_online l) (hm_values (ds_node_loads s))"

record dist_summary =
  dm_strategy :: dist_strategy
  dm_local_node_id :: string
  dm_online_nodes :: nat
  dm_total_nodes :: nat
  dm_total_pending :: "32 word"
  dm_total_active :: "32 word"
  dm_is_running :: bool

definition dist_summary_of :: "'f dist_scheduler \<Rightarrow> dist_summary" where
  "dist_summary_of s = \<lparr>dm_strategy = dc_strategy (ds_config s), dm_local_node_id = dc_local_node_id (ds_config s),
     dm_online_nodes = length (filter nl_online (hm_values (ds_node_loads s))), dm_total_nodes = length (ds_node_loads s),
     dm_total_pending = sum_list (map nl_pending (hm_values (ds_node_loads s))),
     dm_total_active = sum_list (map nl_active (hm_values (ds_node_loads s))), dm_is_running = ds_running s\<rparr>"

section \<open>Properties of the selection\<close>

lemma online_iff: "hm_ok loads \<Longrightarrow> (i, l) \<in> set (online_loads loads) \<longleftrightarrow> hm_get loads i = Some l \<and> nl_online l"
  by (auto simp: online_loads_def hm_ok_mem)

text \<open>What a selection answers: nothing without a node that is online, otherwise one of them.\<close>

definition picks :: "(string, 'f node_load) hmap \<Rightarrow> (string \<times> 'f node_load \<Rightarrow> bool) \<Rightarrow> (string \<times> string) option \<Rightarrow> bool" where
  "picks loads good x \<longleftrightarrow> (if online_loads loads = [] then x = None
     else \<exists>p \<in> set (online_loads loads). good p \<and> x = Some (node_choice p))"

lemma picksI: "online_loads loads \<noteq> [] \<Longrightarrow> p \<in> set (online_loads loads) \<Longrightarrow> good p \<Longrightarrow> picks loads good (Some (node_choice p))"
  by (auto simp: picks_def)

lemma picks_weaken: "picks loads g x \<Longrightarrow> (\<And>p. g p \<Longrightarrow> h p) \<Longrightarrow> picks loads h x"
  unfolding picks_def by (meson bexE bexI)

lemma least_tasks_picks: "picks loads (\<lambda>p. \<forall>q \<in> set (online_loads loads). nl_pending (snd p) \<le> nl_pending (snd q)) (select_least_tasks loads)"
proof (cases "online_loads loads")
  case (Cons p ps)
  let ?key = "\<lambda>p :: string \<times> 'a node_load. nl_pending (snd p)"
  have "first_min ?key p ps \<in> set (online_loads loads)" "\<forall>q \<in> set (online_loads loads). ?key (first_min ?key p ps) \<le> ?key q"
    using first_min_least [where key = ?key and best = p and xs = ps] by (simp_all add: Cons)
  with Cons show ?thesis unfolding select_least_tasks_def by (simp only: list.case) (rule picksI, simp_all)
qed (simp add: picks_def select_least_tasks_def)

lemma round_robin_picks: "picks loads (\<lambda>_. True) (fst (select_round_robin loads c))"
  by (cases "online_loads loads = []") (auto simp: select_round_robin_def Let_def picks_def)

lemma weighted_pick_mem: "weighted_pick F rng ps = Some p \<Longrightarrow> p \<in> set ps"
  by (induction F rng ps rule: weighted_pick.induct) (auto simp: Let_def split: if_splits)

lemma weighted_picks: "picks loads (\<lambda>_. True) (select_weighted F nanos loads)"
  using least_tasks_picks [of loads]
  by (cases "online_loads loads = []") (auto simp: select_weighted_def Let_def picks_def dest: weighted_pick_mem split: option.split)

lemma hash_picks: "picks loads (\<lambda>_. True) (select_consistent_hash hash task loads)"
  by (cases "online_loads loads = []") (auto simp: select_consistent_hash_def Let_def picks_def)

lemma local_first_picks:
  assumes "hm_ok loads"
  shows "picks loads (\<lambda>p. (\<exists>l. hm_get loads here = Some l \<and> nl_online l \<and> nl_pending l < 5 \<and> p = (here, l))
    \<or> (\<nexists>l. hm_get loads here = Some l \<and> nl_online l \<and> nl_pending l < 5)
        \<and> (\<forall>q \<in> set (online_loads loads). nl_pending (snd p) \<le> nl_pending (snd q))) (select_local_first here loads)"
proof (cases "\<exists>l. hm_get loads here = Some l \<and> nl_online l \<and> nl_pending l < 5")
  case True
  then obtain l where l: "hm_get loads here = Some l" "nl_online l" "nl_pending l < 5" by blast
  then have mem: "(here, l) \<in> set (online_loads loads)" by (simp add: online_iff [OF assms])
  have "select_local_first here loads = Some (node_choice (here, l))"
    using l by (simp add: select_local_first_def node_choice_def)
  with mem l show ?thesis by (auto intro!: picksI)
next
  case False
  then have "select_local_first here loads = select_least_tasks loads"
    by (auto simp: select_local_first_def split: option.split)
  with least_tasks_picks [of loads] False show ?thesis unfolding picks_def by (auto split: if_splits)
qed

definition no_better :: "'f float_ops \<Rightarrow> string \<Rightarrow> dist_task \<Rightarrow> (string, 'f) hmap \<Rightarrow> (string, 'f node_load) hmap \<Rightarrow> string \<times> 'f node_load \<Rightarrow> bool" where
  "no_better F here task weights loads p \<longleftrightarrow> (\<forall>(j, b) \<in> set (online_loads loads).
     \<not> fl_lt F (adaptive_score F (snd p) (fst p) here task weights) (adaptive_score F b j here task weights))"

lemma adaptive_any: "picks loads (\<lambda>_. True) (select_adaptive F here task weights loads)"
proof (cases "online_loads loads")
  case (Cons p ps)
  show ?thesis unfolding select_adaptive_def Cons list.case
    by (rule picksI) (use last_max_mem [of _ p ps] in \<open>simp_all add: Cons\<close>)
qed (simp add: picks_def select_adaptive_def)

lemma adaptive_picks:
  assumes "float_laws F" "\<forall>(j, b) \<in> set (online_loads loads). \<not> fl_nan F (adaptive_score F b j here task weights)"
  shows "picks loads (no_better F here task weights loads) (select_adaptive F here task weights loads)"
proof (cases "online_loads loads")
  case (Cons p ps)
  let ?sc = "\<lambda>q. adaptive_score F (snd q) (fst q) here task weights"
  let ?le = "\<lambda>(i, a) (j, b). \<not> fl_lt F (adaptive_score F b j here task weights) (adaptive_score F a i here task weights)"
  let ?A = "set (online_loads loads)"
  have ok: "q \<in> ?A \<Longrightarrow> fl_le F (?sc q) (?sc q)" for q using assms(2) by (auto simp: fl_nan_def)
  have le: "?le q r \<longleftrightarrow> fl_le F (?sc q) (?sc r)" if "q \<in> ?A" "r \<in> ?A" for q r
    using fl_le_cases [OF assms(1) ok [OF that(1)] ok [OF that(2)]] fl_lt_iff [OF assms(1)] by (auto simp: case_prod_unfold)
  have "last_max ?le p ps \<in> insert p (set ps) \<and> (\<forall>y \<in> insert p (set ps). ?le y (last_max ?le p ps))"
  proof (rule last_max_greatest [where A = ?A])
    show "?le a c" if "a \<in> ?A" "b \<in> ?A" "c \<in> ?A" "?le a b" "?le b c" for a b c
      using fl_le_trans [OF assms(1), of "?sc a" "?sc b" "?sc c"] that by (simp only: le)
    show "?le a b \<or> ?le b a" if "a \<in> ?A" "b \<in> ?A" for a b
      using fl_le_cases [OF assms(1) ok [OF that(1)] ok [OF that(2)]] that by (simp only: le)
  qed (simp add: Cons)
  then have m: "last_max ?le p ps \<in> ?A" "\<forall>y \<in> ?A. ?le y (last_max ?le p ps)" by (simp_all add: Cons)
  then have "no_better F here task weights loads (last_max ?le p ps)" by (auto simp: no_better_def case_prod_unfold)
  with m(1) Cons show ?thesis unfolding select_adaptive_def by (simp only: list.case) (rule picksI, simp_all)
qed (simp add: picks_def select_adaptive_def)

text \<open>The counter of the round robin is the only thing a selection changes.\<close>

lemma select_node_state: "snd (select_node F hash nanos ms task s) = s\<lparr>ds_round_robin :=
    (if dc_strategy (ds_config s) = RoundRobin then snd (select_round_robin (ds_node_loads s) (ds_round_robin s)) else ds_round_robin s)\<rparr>"
  by (cases "dc_strategy (ds_config s)") (simp_all add: select_node_def case_prod_unfold Let_def split: option.split)

lemma select_node_cases:
  assumes "select_node F hash nanos ms task s = (res, s')" "picks (ds_node_loads s) good
     (case dc_strategy (ds_config s) of
        LeastTasks \<Rightarrow> select_least_tasks (ds_node_loads s)
      | RoundRobin \<Rightarrow> fst (select_round_robin (ds_node_loads s) (ds_round_robin s))
      | Weighted \<Rightarrow> select_weighted F nanos (ds_node_loads s)
      | ConsistentHash \<Rightarrow> select_consistent_hash hash task (ds_node_loads s)
      | LocalFirst \<Rightarrow> select_local_first (dc_local_node_id (ds_config s)) (ds_node_loads s)
      | Adaptive \<Rightarrow> select_adaptive F (dc_local_node_id (ds_config s)) task (ds_node_weights s) (ds_node_loads s))"
    and "hm_ok (ds_node_loads s)"
  shows "(online_loads (ds_node_loads s) = [] \<and> res = Inl NoAvailableNode) \<or>
    (\<exists>i l. hm_get (ds_node_loads s) i = Some l \<and> nl_online l \<and> good (i, l)
       \<and> res = Inr \<lparr>sr_task_id = dt_id task, sr_assigned_node_id = i, sr_node_addr = nl_addr l,
             sr_is_local = (i = dc_local_node_id (ds_config s)), sr_scheduling_ms = ms, sr_estimated_wait_ms = unat (nl_pending l) * 100\<rparr>)"
proof -
  obtain x s1 where sel: "(case dc_strategy (ds_config s) of
              LeastTasks \<Rightarrow> (select_least_tasks (ds_node_loads s), s)
            | RoundRobin \<Rightarrow> (let (p, c) = select_round_robin (ds_node_loads s) (ds_round_robin s) in (p, s\<lparr>ds_round_robin := c\<rparr>))
            | Weighted \<Rightarrow> (select_weighted F nanos (ds_node_loads s), s)
            | ConsistentHash \<Rightarrow> (select_consistent_hash hash task (ds_node_loads s), s)
            | LocalFirst \<Rightarrow> (select_local_first (dc_local_node_id (ds_config s)) (ds_node_loads s), s)
            | Adaptive \<Rightarrow> (select_adaptive F (dc_local_node_id (ds_config s)) task (ds_node_weights s) (ds_node_loads s), s)) = (x, s1)"
    by (rule prod.exhaust)
  with assms(2) have x: "picks (ds_node_loads s) good x"
    by (cases "dc_strategy (ds_config s)") (auto split: prod.splits)
  have res: "res = fst (case x of None \<Rightarrow> (Inl NoAvailableNode, s1)
          | Some (i, addr) \<Rightarrow> (Inr \<lparr>sr_task_id = dt_id task, sr_assigned_node_id = i, sr_node_addr = addr,
                sr_is_local = (i = dc_local_node_id (ds_config s)), sr_scheduling_ms = ms,
                sr_estimated_wait_ms = (case hm_get (ds_node_loads s) i of Some l \<Rightarrow> unat (nl_pending l) * 100 | None \<Rightarrow> 0)\<rparr>, s1))"
    using assms(1) unfolding select_node_def Let_def sel [unfolded Let_def] by (simp split: option.splits prod.splits)
  show ?thesis
  proof (cases "online_loads (ds_node_loads s) = []")
    case True
    with x res show ?thesis by (simp add: picks_def)
  next
    case False
    with x obtain i l where p: "(i, l) \<in> set (online_loads (ds_node_loads s))" "good (i, l)" "x = Some (node_choice (i, l))"
      by (auto simp: picks_def)
    from p(1) have "hm_get (ds_node_loads s) i = Some l" "nl_online l" by (simp_all add: online_iff [OF assms(3)])
    with p res show ?thesis by (auto simp: node_choice_def)
  qed
qed

text \<open>A selection fails exactly when no node is online. Otherwise it returns a node that is online with its address: under
  LeastTasks one with the fewest pending tasks, under LocalFirst the own node while it has less than five, under Adaptive one
  of which no other node has a greater score, provided every score is a number.\<close>

theorem select_node_exact:
  assumes "hm_ok (ds_node_loads s)" "select_node F hash nanos ms task s = (res, s')"
  shows "(res = Inl NoAvailableNode \<longleftrightarrow> (\<forall>l \<in> set (hm_values (ds_node_loads s)). \<not> nl_online l))
    \<and> (\<forall>e. res = Inl e \<longrightarrow> e = NoAvailableNode)
    \<and> (res = Inr r \<longrightarrow> (\<exists>l. hm_get (ds_node_loads s) (sr_assigned_node_id r) = Some l \<and> nl_online l \<and> sr_node_addr r = nl_addr l
         \<and> (sr_is_local r \<longleftrightarrow> sr_assigned_node_id r = dc_local_node_id (ds_config s)) \<and> sr_estimated_wait_ms r = unat (nl_pending l) * 100
         \<and> (dc_strategy (ds_config s) = LeastTasks \<longrightarrow>
              (\<forall>j b. hm_get (ds_node_loads s) j = Some b \<and> nl_online b \<longrightarrow> nl_pending l \<le> nl_pending b))
         \<and> (dc_strategy (ds_config s) = LocalFirst \<longrightarrow> (\<forall>b. hm_get (ds_node_loads s) (dc_local_node_id (ds_config s)) = Some b
              \<and> nl_online b \<and> nl_pending b < 5 \<longrightarrow> sr_is_local r))
         \<and> (dc_strategy (ds_config s) = Adaptive \<and> float_laws F
              \<and> (\<forall>(j, b) \<in> set (online_loads (ds_node_loads s)).
                   \<not> fl_nan F (adaptive_score F b j (dc_local_node_id (ds_config s)) task (ds_node_weights s))) \<longrightarrow>
              no_better F (dc_local_node_id (ds_config s)) task (ds_node_weights s) (ds_node_loads s) (sr_assigned_node_id r, l))))"
proof -
  let ?L = "ds_node_loads s" and ?me = "dc_local_node_id (ds_config s)" and ?st = "dc_strategy (ds_config s)"
  let ?nan = "\<forall>(j, b) \<in> set (online_loads ?L). \<not> fl_nan F (adaptive_score F b j ?me task (ds_node_weights s))"
  let ?good = "\<lambda>p. (?st = LeastTasks \<longrightarrow> (\<forall>q \<in> set (online_loads ?L). nl_pending (snd p) \<le> nl_pending (snd q)))
    \<and> (?st = LocalFirst \<longrightarrow> (\<forall>b. hm_get ?L ?me = Some b \<and> nl_online b \<and> nl_pending b < 5 \<longrightarrow> fst p = ?me))
    \<and> (?st = Adaptive \<and> float_laws F \<and> ?nan \<longrightarrow> no_better F ?me task (ds_node_weights s) ?L p)"
  have adaptive: "picks ?L (\<lambda>p. float_laws F \<and> ?nan \<longrightarrow> no_better F ?me task (ds_node_weights s) ?L p)
      (select_adaptive F ?me task (ds_node_weights s) ?L)"
  proof (cases "float_laws F \<and> ?nan")
    case True
    show ?thesis by (rule picks_weaken [OF adaptive_picks [OF conjunct1 [OF True] conjunct2 [OF True]]]) blast
  next
    case False
    show ?thesis by (rule picks_weaken [OF adaptive_any]) (use False in blast)
  qed
  have local_first: "picks ?L (\<lambda>p. \<forall>b. hm_get ?L ?me = Some b \<and> nl_online b \<and> nl_pending b < 5 \<longrightarrow> fst p = ?me)
      (select_local_first ?me ?L)"
    by (rule picks_weaken [OF local_first_picks [OF assms(1)]]) auto
  have "picks ?L ?good (case ?st of
        LeastTasks \<Rightarrow> select_least_tasks ?L | RoundRobin \<Rightarrow> fst (select_round_robin ?L (ds_round_robin s))
      | Weighted \<Rightarrow> select_weighted F nanos ?L | ConsistentHash \<Rightarrow> select_consistent_hash hash task ?L
      | LocalFirst \<Rightarrow> select_local_first ?me ?L | Adaptive \<Rightarrow> select_adaptive F ?me task (ds_node_weights s) ?L)"
    using least_tasks_picks [of ?L] round_robin_picks [of ?L] weighted_picks [of ?L F] hash_picks [of ?L]
      local_first adaptive
    by (cases ?st) simp_all
  note cases = select_node_cases [OF assms(2) this assms(1)]
  have none: "(\<forall>l \<in> set (hm_values ?L). \<not> nl_online l) \<longleftrightarrow> online_loads ?L = []"
    by (auto simp: online_loads_def filter_empty_conv)
  show ?thesis
  proof (cases "online_loads ?L = []")
    case True
    then have "\<not> (hm_get ?L i = Some l \<and> nl_online l)" for i l using online_iff [OF assms(1), of i l] by simp
    with cases have "res = Inl NoAvailableNode" by blast
    with True show ?thesis unfolding none by simp
  next
    case False
    with cases obtain i l where l: "hm_get ?L i = Some l" "nl_online l" "?good (i, l)"
      "res = Inr \<lparr>sr_task_id = dt_id task, sr_assigned_node_id = i, sr_node_addr = nl_addr l,
             sr_is_local = (i = ?me), sr_scheduling_ms = ms, sr_estimated_wait_ms = unat (nl_pending l) * 100\<rparr>" by blast
    have least: "?st = LeastTasks \<Longrightarrow> hm_get ?L j = Some b \<Longrightarrow> nl_online b \<Longrightarrow> nl_pending l \<le> nl_pending b" for j b
      using l(3) online_iff [OF assms(1), of j b] by fastforce
    show ?thesis
    proof (cases "res = Inr r")
      case True
      from True l(4) have r: "r = \<lparr>sr_task_id = dt_id task, sr_assigned_node_id = i, sr_node_addr = nl_addr l,
             sr_is_local = (i = ?me), sr_scheduling_ms = ms, sr_estimated_wait_ms = unat (nl_pending l) * 100\<rparr>" by simp
      let ?i = "sr_assigned_node_id r"
      have eqs: "hm_get ?L ?i = Some l" "nl_online l" "sr_node_addr r = nl_addr l" "sr_is_local r \<longleftrightarrow> ?i = ?me"
        "sr_estimated_wait_ms r = unat (nl_pending l) * 100" by (simp_all add: r l(1, 2))
      have strategies: "?st = LeastTasks \<longrightarrow> (\<forall>j b. hm_get ?L j = Some b \<and> nl_online b \<longrightarrow> nl_pending l \<le> nl_pending b)"
        "?st = LocalFirst \<longrightarrow> (\<forall>b. hm_get ?L ?me = Some b \<and> nl_online b \<and> nl_pending b < 5 \<longrightarrow> sr_is_local r)"
        "?st = Adaptive \<and> float_laws F \<and> ?nan \<longrightarrow> no_better F ?me task (ds_node_weights s) ?L (?i, l)"
        using least l(3) by (simp_all only: r dist_schedule_result.simps fst_conv) blast+
      have ex: "(\<exists>l. hm_get ?L ?i = Some l \<and> nl_online l \<and> sr_node_addr r = nl_addr l \<and> (sr_is_local r \<longleftrightarrow> ?i = ?me)
          \<and> sr_estimated_wait_ms r = unat (nl_pending l) * 100
          \<and> (?st = LeastTasks \<longrightarrow> (\<forall>j b. hm_get ?L j = Some b \<and> nl_online b \<longrightarrow> nl_pending l \<le> nl_pending b))
          \<and> (?st = LocalFirst \<longrightarrow> (\<forall>b. hm_get ?L ?me = Some b \<and> nl_online b \<and> nl_pending b < 5 \<longrightarrow> sr_is_local r))
          \<and> (?st = Adaptive \<and> float_laws F \<and> ?nan \<longrightarrow> no_better F ?me task (ds_node_weights s) ?L (?i, l)))"
        by (rule exI [of _ l], intro conjI) (rule eqs strategies)+
      have iff: "res = Inl NoAvailableNode \<longleftrightarrow> online_loads ?L = []" and only: "\<forall>e. res = Inl e \<longrightarrow> e = NoAvailableNode"
        using False True by simp_all
      show ?thesis unfolding none by (rule conjI [OF iff conjI [OF only impI [OF ex]]])
    next
      case other: False
      show ?thesis using False l(4) other unfolding none by simp
    qed
  qed
qed

definition sample_load :: "string \<Rightarrow> 32 word \<Rightarrow> rat node_load" where
  "sample_load i n = (node_load_new rat_ops 0 i ''addr'')\<lparr>nl_pending := n\<rparr>"

definition sample_dist :: "rat dist_scheduler" where
  "sample_dist = (dist_scheduler_new rat_ops 0 (dist_config_default ''a''))\<lparr>
     ds_config := (dist_config_default ''a'')\<lparr>dc_strategy := LeastTasks\<rparr>,
     ds_node_loads := [(''a'', sample_load ''a'' 3), (''b'', sample_load ''b'' 1)]\<rparr>"

theorem select_node_exact_witness:
  "\<exists>r. fst (select_node rat_ops (\<lambda>_. 0) 0 0 (dist_task_new 1 0 ''t'' ''x'' Null) sample_dist) = Inr r \<and> sr_assigned_node_id r = ''b''"
proof -
  let ?out = "select_node rat_ops (\<lambda>_. 0) 0 0 (dist_task_new 1 0 ''t'' ''x'' Null) sample_dist"
  have ok: "hm_ok (ds_node_loads sample_dist)" by (simp add: sample_dist_def)
  obtain res s' where out: "?out = (res, s')" by fastforce
  note exact = select_node_exact [OF ok out]
  have "\<not> (\<forall>l \<in> set (hm_values (ds_node_loads sample_dist)). \<not> nl_online l)"
    by (simp add: sample_dist_def sample_load_def node_load_new_def)
  with exact obtain r where r: "res = Inr r" by (cases res) auto
  with exact [of r] obtain l where l: "hm_get (ds_node_loads sample_dist) (sr_assigned_node_id r) = Some l"
    "\<forall>j b. hm_get (ds_node_loads sample_dist) j = Some b \<and> nl_online b \<longrightarrow> nl_pending l \<le> nl_pending b"
    by (auto simp: sample_dist_def)
  from l(2) [rule_format, of "''b''" "sample_load ''b'' 1"] have "nl_pending l \<le> 1" by (auto simp: sample_dist_def sample_load_def node_load_new_def)
  with l(1) have "sr_assigned_node_id r = ''b''" by (auto simp: sample_dist_def sample_load_def word_le_nat_alt split: if_splits)
  with r out show ?thesis by simp
qed

section \<open>Submitting tasks\<close>

text \<open>C35: a submission that fails changes nothing. One that succeeds makes the chosen node's pending tasks one more and puts the
  task last into the queue of that node; all other loads and queues stay as they are.\<close>

theorem submit_task_exact:
  assumes "submit_task F hash nanos ms to_text fresh utc task s = (res, s')"
  shows "(\<forall>e. res = Inl e \<longrightarrow> s' = s)
    \<and> (res = Inr r \<longrightarrow>
        hm_get (ds_node_loads s') j = (if j = sr_assigned_node_id r
            then map_option (\<lambda>l. l\<lparr>nl_pending := nl_pending l + 1\<rparr>) (hm_get (ds_node_loads s) j) else hm_get (ds_node_loads s) j)
      \<and> (ds_task_queue s = Some q \<longrightarrow> (\<exists>q' msg. ds_task_queue s' = Some q' \<and> qm_payload msg = to_text task
            \<and> (0 < qc_max_queue_size (dq_config q) \<longrightarrow> waiting q' (''dist_task_'' @ sr_assigned_node_id r) \<noteq> []
                 \<and> last (waiting q' (''dist_task_'' @ sr_assigned_node_id r)) = msg)
            \<and> (topic \<noteq> ''dist_task_'' @ sr_assigned_node_id r \<longrightarrow> waiting q' topic = waiting q topic))))"
proof -
  obtain x s1 where sel: "select_node F hash nanos ms task s = (x, s1)" by fastforce
  from select_node_state [of F hash nanos ms task s] sel
  have s1: "s1 = s\<lparr>ds_round_robin := (if dc_strategy (ds_config s) = RoundRobin
      then snd (select_round_robin (ds_node_loads s) (ds_round_robin s)) else ds_round_robin s)\<rparr>" by simp
  show ?thesis
  proof (cases x)
    case (Inl e)
    have "dc_strategy (ds_config s) = RoundRobin \<Longrightarrow> online_loads (ds_node_loads s) = []"
      using sel Inl by (auto simp: select_node_def select_round_robin_def Let_def node_choice_def split: if_splits)
    then have "s1 = s" unfolding s1 by (simp add: select_round_robin_def)
    with assms sel Inl show ?thesis by (auto simp: submit_task_def)
  next
    case (Inr r')
    with assms sel have res: "res = Inr r'" by (simp add: submit_task_def Let_def)
    from assms sel Inr s1 have loads: "ds_node_loads s' = hm_modify (sr_assigned_node_id r') (\<lambda>l. l\<lparr>nl_pending := nl_pending l + 1\<rparr>) (ds_node_loads s)"
      and queue: "ds_task_queue s' = map_option (\<lambda>q. snd (publish fresh utc (''dist_task_'' @ sr_assigned_node_id r') (to_text task) q)) (ds_task_queue s)"
      by (auto simp: submit_task_def Let_def split: option.split)
    have "\<exists>msg. qm_payload msg = to_text task
        \<and> (0 < qc_max_queue_size (dq_config q) \<longrightarrow> waiting (snd (publish fresh utc t (to_text task) q)) t \<noteq> []
             \<and> last (waiting (snd (publish fresh utc t (to_text task) q)) t) = msg)
        \<and> (topic \<noteq> t \<longrightarrow> waiting (snd (publish fresh utc t (to_text task) q)) topic = waiting q topic)" for t
      by (rule exI [of _ "fst (publish fresh utc t (to_text task) q)"])
        (auto simp: publish_def waiting_def partition_of_def push_message_def Let_def)
    with res loads queue show ?thesis by auto
  qed
qed

theorem submit_task_exact_witness:
  "hm_get (ds_node_loads (snd (submit_task rat_ops (\<lambda>_. 0) 0 0 dt_name ''m'' 0 (dist_task_new 1 0 ''t'' ''x'' Null) sample_dist))) ''a''
   = Some (sample_load ''a'' 3)"
proof -
  let ?out = "submit_task rat_ops (\<lambda>_. 0) 0 0 dt_name ''m'' 0 (dist_task_new 1 0 ''t'' ''x'' Null) sample_dist"
  obtain r where r: "fst (select_node rat_ops (\<lambda>_. 0) 0 0 (dist_task_new 1 0 ''t'' ''x'' Null) sample_dist) = Inr r"
    "sr_assigned_node_id r = ''b''"
    by (auto simp: select_node_def sample_dist_def dist_config_default_def select_least_tasks_def online_loads_def node_choice_def
        sample_load_def node_load_new_def Let_def)
  then have "fst ?out = Inr r" by (simp add: submit_task_def case_prod_unfold Let_def)
  then have "?out = (Inr r, snd ?out)" by (metis prod.collapse)
  from submit_task_exact [OF this, of r "''a''"] r(2) show ?thesis by (simp add: sample_dist_def)
qed

section \<open>The loads and the cluster\<close>

text \<open>A new scheduler knows no node, not even its own: until the loop has run once with a cluster that lists members,
  every submission fails.\<close>

lemma fresh_selects_nothing: "fst (select_node F hash nanos ms task (dist_scheduler_new F now c)) = Inl NoAvailableNode"
  by (cases "dc_strategy c")
    (simp_all add: select_node_def dist_scheduler_new_def select_least_tasks_def select_round_robin_def select_weighted_def
      select_consistent_hash_def select_local_first_def select_adaptive_def online_loads_def)

text \<open>The weights that are set are not the ones the weighted strategy reads.\<close>

lemma weighted_ignores_weights:
  "dc_strategy (ds_config s) = Weighted \<Longrightarrow>
   fst (select_node F hash nanos ms task (set_node_weight F i w s)) = fst (select_node F hash nanos ms task s)"
  by (simp add: select_node_def set_node_weight_def Let_def split: option.split)

lemma refresh_get: "hm_get (refresh_member F now n loads) i = (if i = cn_id n
    then Some ((case hm_get loads (cn_id n) of Some l \<Rightarrow> l | None \<Rightarrow> node_load_new F now (cn_id n) (cn_addr n))
          \<lparr>nl_online := (cn_status n = Alive), nl_last_updated := now\<rparr>)
    else hm_get loads i)"
  by (simp add: refresh_member_def Let_def)

lemma refresh_ok: "hm_ok loads \<Longrightarrow> hm_ok (fold (refresh_member F now) ns loads)"
  by (induction ns arbitrary: loads) (simp_all add: refresh_member_def Let_def)

lemma refresh_fold:
  assumes "distinct (map cn_id ns)"
  shows "hm_get (fold (refresh_member F now) ns loads) i = (case find (\<lambda>n. cn_id n = i) ns of
      Some n \<Rightarrow> hm_get (refresh_member F now n loads) i | None \<Rightarrow> hm_get loads i)"
  using assms
proof (induction ns arbitrary: loads)
  case (Cons n ns)
  show ?case
  proof (cases "cn_id n = i")
    case True
    with Cons.prems have "find (\<lambda>n. cn_id n = i) ns = None" by (auto simp: find_None_iff) (metis image_eqI)
    with True Cons show ?thesis by simp
  next
    case False
    with Cons show ?thesis by (auto simp: refresh_get split: option.split)
  qed
qed simp

text \<open>After a turn of the loop every member of the cluster has a load that is online exactly if the member is alive, and that is
  as new as the clock, so that a member that is dead is never dropped; the loads of nodes that are no members stay until
  they are too old.\<close>

theorem health_tick_exact:
  assumes "hm_ok (ds_node_loads s)" "distinct (map cn_id (hm_values (cs_members cluster)))"
    and "0 < as_i64 (dc_node_timeout_secs (ds_config s))"
  shows "(n \<in> set (hm_values (cs_members cluster)) \<longrightarrow> (\<exists>l. hm_get (ds_node_loads (health_tick F now cluster s)) (cn_id n) = Some l
            \<and> (nl_online l \<longleftrightarrow> cn_status n = Alive) \<and> nl_last_updated l = now
            \<and> nl_pending l = (case hm_get (ds_node_loads s) (cn_id n) of Some l' \<Rightarrow> nl_pending l' | None \<Rightarrow> 0)))
    \<and> (i \<notin> cn_id ` set (hm_values (cs_members cluster)) \<longrightarrow>
         hm_get (ds_node_loads (health_tick F now cluster s)) i = (case hm_get (ds_node_loads s) i of
            Some l \<Rightarrow> if now - nl_last_updated l < as_i64 (dc_node_timeout_secs (ds_config s)) then Some l else None
          | None \<Rightarrow> None))"
proof -
  let ?ns = "hm_values (cs_members cluster)"
  let ?loads = "fold (refresh_member F now) ?ns (ds_node_loads s)"
  have get: "hm_get (ds_node_loads (health_tick F now cluster s)) j = (case hm_get ?loads j of None \<Rightarrow> None
      | Some l \<Rightarrow> if now - nl_last_updated l < as_i64 (dc_node_timeout_secs (ds_config s)) then Some l else None)" for j
    by (simp add: health_tick_def Let_def hm_get_retain [OF refresh_ok [OF assms(1)]])
  have member: "find (\<lambda>m. cn_id m = cn_id n) ?ns = Some n" if "n \<in> set ?ns"
  proof (cases "find (\<lambda>m. cn_id m = cn_id n) ?ns")
    case None
    with that show ?thesis by (auto simp: find_None_iff)
  next
    case (Some m)
    then have "m \<in> set ?ns" "cn_id m = cn_id n" by (auto simp: find_Some_iff)
    with that assms(2) have "m = n" by (metis distinct_map inj_onD)
    with Some show ?thesis by simp
  qed
  have "find (\<lambda>m. cn_id m = i) ?ns = None" if "i \<notin> cn_id ` set ?ns" using that by (auto simp: find_None_iff)
  then show ?thesis
    using assms(3) member by (auto simp: get refresh_fold [OF assms(2)] refresh_get node_load_new_def split: option.splits)
qed

theorem health_tick_exact_witness:
  "\<exists>l. hm_get (ds_node_loads (health_tick rat_ops 9 ((cluster_new 0 \<lparr>cl_node_id = ''a'', cl_bind_addr = ''x'', cl_heartbeat_secs = 1,
      cl_suspicion_mult = 1\<rparr>)\<lparr>cs_members := [(''m'', \<lparr>cn_id = ''m'', cn_addr = ''y'', cn_role = Follower, cn_status = Dead,
        cn_last_heartbeat = 0, cn_version = 0\<rparr>)]\<rparr>) sample_dist)) ''m'' = Some l \<and> \<not> nl_online l"
proof -
  let ?n = "\<lparr>cn_id = ''m'', cn_addr = ''y'', cn_role = Follower, cn_status = Dead, cn_last_heartbeat = 0, cn_version = 0\<rparr>"
  let ?c = "(cluster_new 0 \<lparr>cl_node_id = ''a'', cl_bind_addr = ''x'', cl_heartbeat_secs = 1, cl_suspicion_mult = 1\<rparr>)\<lparr>cs_members := [(''m'', ?n)]\<rparr>"
  have "hm_ok (ds_node_loads sample_dist)" "distinct (map cn_id (hm_values (cs_members ?c)))"
    "0 < as_i64 (dc_node_timeout_secs (ds_config sample_dist))"
    by (simp_all add: sample_dist_def dist_config_default_def as_i64_def)
  from health_tick_exact [OF this, where n = ?n and F = rat_ops and now = 9 and i = "''m''"] show ?thesis by auto
qed

end
