(* ===== verification/Rate_Limit.thy ===== *)
theory Rate_Limit
  imports Floats "HOL-Library.Signed_Division"
begin

text \<open>
  Rate limiting (the crate \<open>ratelimit\<close>): the token bucket, the sliding window, limiters applied one after the
  other, and the guard of rules.

  Times are Unix seconds for the bucket and milliseconds for the window; each reading of the clock is an argument of its
  own, because the code reads it more than once in an operation. Counts are below the limit they are compared with, so the
  64-bit counters do not wrap. Operations that divide by the size of the window panic when it is 0: they return an option.
\<close>

record rate_limit_result =
  rl_allowed :: bool
  rl_remaining :: nat
  rl_reset_at :: nat
  rl_limit :: nat

section \<open>Token bucket\<close>

record 'f token_bucket =
  tb_tokens :: 'f
  tb_capacity :: 'f
  tb_fill_rate :: 'f
  tb_last_refill :: 'f

definition bucket_new :: "'f float_ops \<Rightarrow> int \<Rightarrow> nat \<Rightarrow> 'f \<Rightarrow> 'f token_bucket" where
  "bucket_new F now capacity rate = \<lparr>tb_tokens = fl_int F (int capacity), tb_capacity = fl_int F (int capacity),
     tb_fill_rate = rate, tb_last_refill = fl_int F now\<rparr>"

definition bucket_refill :: "'f float_ops \<Rightarrow> int \<Rightarrow> 'f token_bucket \<Rightarrow> 'f token_bucket" where
  "bucket_refill F now b =
     (let elapsed = fl_max F (fl_sub F (fl_int F now) (tb_last_refill b)) (fl_int F 0);
          new_tokens = fl_mul F elapsed (tb_fill_rate b)
      in b\<lparr>tb_tokens := fl_min F (fl_add F (tb_tokens b) new_tokens) (tb_capacity b), tb_last_refill := fl_int F now\<rparr>)"

definition bucket_check :: "'f float_ops \<Rightarrow> int \<Rightarrow> string \<Rightarrow> 'f token_bucket \<Rightarrow> rate_limit_result \<times> 'f token_bucket" where
  "bucket_check F now key b =
     (let b1 = bucket_refill F now b;
          allowed = fl_le F (fl_int F 1) (tb_tokens b1);
          b2 = (if allowed then b1\<lparr>tb_tokens := fl_sub F (tb_tokens b1) (fl_int F 1)\<rparr> else b1);
          reset_at = fl_to_uint F 64 (fl_add F (tb_last_refill b2)
            (fl_div F (fl_sub F (tb_capacity b2) (tb_tokens b2)) (tb_fill_rate b2)))
      in (\<lparr>rl_allowed = allowed, rl_remaining = fl_to_uint F 64 (fl_floor F (tb_tokens b2)), rl_reset_at = reset_at,
           rl_limit = fl_to_uint F 64 (tb_capacity b2)\<rparr>, b2))"

definition bucket_peek :: "'f float_ops \<Rightarrow> int \<Rightarrow> int \<Rightarrow> string \<Rightarrow> 'f token_bucket \<Rightarrow> rate_limit_result \<times> 'f token_bucket" where
  "bucket_peek F now now2 key b =
     (let b1 = bucket_refill F now b; tokens = tb_tokens b1
      in (\<lparr>rl_allowed = fl_le F (fl_int F 1) tokens, rl_remaining = fl_to_uint F 64 (fl_floor F tokens),
           rl_reset_at = fl_to_uint F 64 (fl_add F (fl_int F now2)
             (fl_div F (fl_sub F (fl_int F 1) tokens) (tb_fill_rate b1))),
           rl_limit = fl_to_uint F 64 (tb_capacity b1)\<rparr>, b1))"

definition bucket_reset :: "'f float_ops \<Rightarrow> int \<Rightarrow> string \<Rightarrow> 'f token_bucket \<Rightarrow> 'f token_bucket" where
  "bucket_reset F now key b = b\<lparr>tb_tokens := tb_capacity b, tb_last_refill := fl_int F now\<rparr>"

section \<open>Sliding window\<close>

record window_entry =
  we_window_start :: int
  we_count :: nat
  we_prev_count :: nat

record rate_window =
  sw_limit :: nat
  sw_window_ms :: int
  sw_state :: "(string, window_entry) hmap"

text \<open>The number of seconds is multiplied as a 64-bit word and cast.\<close>

definition rate_window_new :: "nat \<Rightarrow> 64 word \<Rightarrow> rate_window" where
  "rate_window_new limit window_secs = \<lparr>sw_limit = limit, sw_window_ms = sint (window_secs * 1000), sw_state = []\<rparr>"

definition calculate_usage :: "'f float_ops \<Rightarrow> int \<Rightarrow> rate_window \<Rightarrow> window_entry \<Rightarrow> 'f" where
  "calculate_usage F now w e =
     (let elapsed = now - we_window_start e
      in if elapsed \<ge> sw_window_ms w then fl_int F 0
         else (let weight = fl_sub F (fl_int F 1) (fl_div F (fl_int F elapsed) (fl_int F (sw_window_ms w)))
               in fl_add F (fl_mul F (fl_int F (int (we_prev_count e))) weight) (fl_int F (int (we_count e)))))"

text \<open>The entry of a key, created when it is missing, and its move into the current window.\<close>

definition window_entry_of :: "int \<Rightarrow> string \<Rightarrow> rate_window \<Rightarrow> window_entry" where
  "window_entry_of start key w = (case hm_get (sw_state w) key of
       Some e \<Rightarrow> e
     | None \<Rightarrow> \<lparr>we_window_start = start, we_count = 0, we_prev_count = 0\<rparr>)"

definition roll_window :: "int \<Rightarrow> int \<Rightarrow> window_entry \<Rightarrow> window_entry" where
  "roll_window cur len e =
     (if cur \<noteq> we_window_start e
      then \<lparr>we_window_start = cur, we_count = 0, we_prev_count = (if cur - we_window_start e \<le> len then we_count e else 0)\<rparr>
      else e)"

definition window_result :: "'f float_ops \<Rightarrow> bool \<Rightarrow> 'f \<Rightarrow> int \<Rightarrow> rate_window \<Rightarrow> rate_limit_result" where
  "window_result F allowed usage start w =
     \<lparr>rl_allowed = allowed,
      rl_remaining = fl_to_uint F 64 (fl_max F (fl_sub F (fl_int F (int (sw_limit w))) usage) (fl_int F 0)),
      rl_reset_at = nat (((start + sw_window_ms w) sdiv 1000) mod 2 ^ 64), rl_limit = sw_limit w\<rparr>"

text \<open>The clock is read at \<open>t1\<close> to find the window, and at \<open>t2\<close> and \<open>t3\<close> to compute the usage before and after the
  request is counted.\<close>

definition window_check ::
  "'f float_ops \<Rightarrow> int \<Rightarrow> int \<Rightarrow> int \<Rightarrow> string \<Rightarrow> rate_window \<Rightarrow> (rate_limit_result \<times> rate_window) option" where
  "window_check F t1 t2 t3 key w =
     (if sw_window_ms w = 0 then None
      else let start = (t1 sdiv sw_window_ms w) * sw_window_ms w;
               e = roll_window start (sw_window_ms w) (window_entry_of start key w);
               allowed = fl_lt F (calculate_usage F t2 w e) (fl_int F (int (sw_limit w)));
               e' = (if allowed then e\<lparr>we_count := we_count e + 1\<rparr> else e)
           in Some (window_result F allowed (calculate_usage F t3 w e') start w,
                w\<lparr>sw_state := hm_insert key e' (sw_state w)\<rparr>))"

definition window_peek ::
  "'f float_ops \<Rightarrow> int \<Rightarrow> int \<Rightarrow> string \<Rightarrow> rate_window \<Rightarrow> (rate_limit_result \<times> rate_window) option" where
  "window_peek F t1 t2 key w =
     (if sw_window_ms w = 0 then None
      else let start = (t1 sdiv sw_window_ms w) * sw_window_ms w;
               e = window_entry_of start key w;
               usage = calculate_usage F t2 w e
           in Some (window_result F (fl_lt F usage (fl_int F (int (sw_limit w)))) usage start w,
                w\<lparr>sw_state := hm_insert key e (sw_state w)\<rparr>))"

definition window_reset :: "string \<Rightarrow> rate_window \<Rightarrow> rate_window" where
  "window_reset key w = w\<lparr>sw_state := hm_remove key (sw_state w)\<rparr>"

section \<open>Several limiters\<close>

text \<open>A limiter is an object behind its interface: its check takes a key and the state of all limiters, which may be
  shared, and returns an error or a result.\<close>

type_synonym 's checker = "string \<Rightarrow> 's \<Rightarrow> rate_limit_result ls_result \<times> 's"

type_synonym 's multi_limiter = "(string \<times> 's checker) list"

definition multi_add :: "string \<Rightarrow> 's checker \<Rightarrow> 's multi_limiter \<Rightarrow> 's multi_limiter" where
  "multi_add name limiter ls = ls @ [(name, limiter)]"

definition best_result :: rate_limit_result where
  "best_result = \<lparr>rl_allowed = True, rl_remaining = 2 ^ 64 - 1, rl_reset_at = 0, rl_limit = 2 ^ 64 - 1\<rparr>"

fun check_from :: "string \<Rightarrow> rate_limit_result \<Rightarrow> 's multi_limiter \<Rightarrow> 's \<Rightarrow> rate_limit_result ls_result \<times> 's" where
  "check_from key worst [] s = (Inr worst, s)"
| "check_from key worst ((_, check) # ls) s = (case check key s of
       (Inl e, s1) \<Rightarrow> (Inl e, s1)
     | (Inr r, s1) \<Rightarrow>
         if \<not> rl_allowed r then (Inr r, s1)
         else check_from key (if rl_remaining r < rl_remaining worst then r else worst) ls s1)"

definition check_all :: "string \<Rightarrow> 's multi_limiter \<Rightarrow> 's \<Rightarrow> rate_limit_result ls_result \<times> 's" where
  "check_all key ls s = check_from key best_result ls s"

section \<open>The guard\<close>

datatype rate_limit_decision = Allowed | Denied (denied_remaining: nat) (denied_reset_at: nat) (denied_limit: nat)

record 's rate_limit_rule =
  rr_name :: string
  rr_check :: "'s checker"
  rr_peek :: "'s checker"
  rr_key :: "string \<Rightarrow> string"

definition add_rule :: "'s rate_limit_rule \<Rightarrow> 's rate_limit_rule list \<Rightarrow> 's rate_limit_rule list" where
  "add_rule rule rules = rules @ [rule]"

text \<open>Both functions of the guard are the same loop over the rules, with \<open>check\<close> or with \<open>peek\<close>.\<close>

fun guard_loop :: "('s rate_limit_rule \<Rightarrow> 's checker) \<Rightarrow> string \<Rightarrow> 's rate_limit_rule list \<Rightarrow> 's \<Rightarrow> rate_limit_decision ls_result \<times> 's" where
  "guard_loop op ident [] s = (Inr Allowed, s)"
| "guard_loop op ident (rule # rules) s = (case op rule (rr_key rule ident) s of
       (Inl e, s1) \<Rightarrow> (Inl e, s1)
     | (Inr r, s1) \<Rightarrow>
         if \<not> rl_allowed r then (Inr (Denied (rl_remaining r) (rl_reset_at r) (rl_limit r)), s1)
         else guard_loop op ident rules s1)"

definition guard_check :: "string \<Rightarrow> 's rate_limit_rule list \<Rightarrow> 's \<Rightarrow> rate_limit_decision ls_result \<times> 's" where
  "guard_check ident rules s = guard_loop rr_check ident rules s"

definition guard_peek :: "string \<Rightarrow> 's rate_limit_rule list \<Rightarrow> 's \<Rightarrow> rate_limit_decision ls_result \<times> 's" where
  "guard_peek ident rules s = guard_loop rr_peek ident rules s"

section \<open>The limit of a window\<close>

text \<open>What a sequence of checks answers: the key, the first reading of the clock and whether it was let through.\<close>

fun window_trace :: "'f float_ops \<Rightarrow> (string \<times> int \<times> int \<times> int) list \<Rightarrow> rate_window \<Rightarrow> (string \<times> int \<times> bool) list" where
  "window_trace F [] w = []"
| "window_trace F ((key, t1, t2, t3) # evs) w = (case window_check F t1 t2 t3 key w of
       None \<Rightarrow> []
     | Some (r, w') \<Rightarrow> (key, t1, rl_allowed r) # window_trace F evs w')"

definition passed_in :: "int \<Rightarrow> string \<Rightarrow> int \<Rightarrow> (string \<times> int \<times> bool) list \<Rightarrow> nat" where
  "passed_in len key j tr = length (filter (\<lambda>(k, t, ok). k = key \<and> t div len = j \<and> ok) tr)"

lemma sdiv_nonneg: "0 \<le> a \<Longrightarrow> 0 < b \<Longrightarrow> a sdiv b = a div (b :: int)"
  by (cases "a = 0") (simp_all add: signed_divide_int_def)

lemma window_bounds:
  assumes "0 < (len :: int)"
  shows "t div len * len \<le> t" "t < t div len * len + len"
  using div_mult_mod_eq [of t len] pos_mod_sign [OF assms, of t] pos_mod_bound [OF assms, of t] by linarith+

text \<open>The usage is at least the count of the window, so that a request is let through only below the limit. The weight of
  the window before is a number that is not negative, as is its product with a count.\<close>

definition weight_laws :: "'f float_ops \<Rightarrow> bool" where
  "weight_laws F \<longleftrightarrow> (\<forall>p e len. 0 \<le> p \<longrightarrow> 0 \<le> e \<longrightarrow> e < len \<longrightarrow>
     fl_le F (fl_int F 0) (fl_mul F (fl_int F p) (fl_sub F (fl_int F 1) (fl_div F (fl_int F e) (fl_int F len)))))"

lemma rat_weight [simp]: "weight_laws rat_ops"
  by (simp add: weight_laws_def zero_le_mult_iff)

lemma usage_below:
  assumes laws: "float_laws F" "weight_laws F"
    and time: "we_window_start e \<le> t" "t < we_window_start e + sw_window_ms w"
    and lt: "fl_lt F (calculate_usage F t w e) (fl_int F (int (sw_limit w)))"
  shows "we_count e < sw_limit w"
proof -
  let ?c = "fl_int F (int (we_count e))"
  let ?p = "fl_mul F (fl_int F (int (we_prev_count e))) (fl_sub F (fl_int F 1)
      (fl_div F (fl_int F (t - we_window_start e)) (fl_int F (sw_window_ms w))))"
  have "fl_le F (fl_int F 0) ?p" using laws(2) time by (simp add: weight_laws_def)
  moreover have "fl_le F (fl_int F 0) ?c" by (rule fl_le_int [OF laws(1)]) simp
  ultimately have "fl_le F ?c (fl_add F ?p ?c)" by (rule fl_le_add [OF laws(1)])
  moreover have "fl_lt F (fl_add F ?p ?c) (fl_int F (int (sw_limit w)))"
    using lt time by (simp add: calculate_usage_def Let_def)
  ultimately have "fl_lt F ?c (fl_int F (int (sw_limit w)))" by (rule fl_le_lt_trans [OF laws(1)])
  from fl_less_int [OF laws(1) this] show ?thesis by simp
qed

text \<open>The number of requests that a key may still pass in the window \<open>j\<close>, and what holds of the entries between
  the checks.\<close>

definition room :: "rate_window \<Rightarrow> string \<Rightarrow> int \<Rightarrow> nat" where
  "room w key j = (case hm_get (sw_state w) key of
       None \<Rightarrow> sw_limit w
     | Some e \<Rightarrow> if j * sw_window_ms w = we_window_start e then sw_limit w - we_count e
         else if j * sw_window_ms w < we_window_start e then 0 else sw_limit w)"

definition window_ok :: "int \<Rightarrow> rate_window \<Rightarrow> bool" where
  "window_ok now w \<longleftrightarrow> (\<forall>key e. hm_get (sw_state w) key = Some e \<longrightarrow>
     we_window_start e = (we_window_start e div sw_window_ms w) * sw_window_ms w \<and> we_window_start e \<le> now)"

lemma check_room:
  assumes laws: "float_laws F" "weight_laws F" and size: "0 < sw_window_ms w"
    and time: "0 \<le> t1" "t1 \<le> t2" "t2 div sw_window_ms w = t1 div sw_window_ms w"
    and ok: "window_ok t1 w" and run: "window_check F t1 t2 t3 key w = Some (r, w')"
  shows "room w' k j + (if k = key \<and> t1 div sw_window_ms w = j \<and> rl_allowed r then 1 else 0) \<le> room w k j"
    and "window_ok t1 w'" and "sw_window_ms w' = sw_window_ms w" and "sw_limit w' = sw_limit w"
proof -
  let ?len = "sw_window_ms w"
  define start where "start = t1 div ?len * ?len"
  define e where "e = roll_window start ?len (window_entry_of start key w)"
  define a where "a = fl_lt F (calculate_usage F t2 w e) (fl_int F (int (sw_limit w)))"
  have start: "t1 sdiv ?len * ?len = start" "start \<le> t1" "t1 < start + ?len" "start div ?len = t1 div ?len"
    using size time(1) window_bounds [OF size, of t1] by (simp_all add: start_def sdiv_nonneg)
  have e_start: "we_window_start e = start"
    by (simp add: e_def roll_window_def window_entry_of_def)
  have t2: "start \<le> t2" "t2 < start + ?len"
    using start time window_bounds [OF size, of t2] by (simp_all add: start_def)
  have w': "w' = w\<lparr>sw_state := hm_insert key (if a then e\<lparr>we_count := we_count e + 1\<rparr> else e) (sw_state w)\<rparr>"
    and r: "rl_allowed r = a"
    using run size by (auto simp: window_check_def Let_def start e_def a_def window_result_def)
  have below: "a \<Longrightarrow> we_count e < sw_limit w"
    using usage_below [OF laws, of e t2 w] t2 by (simp add: e_start a_def)
  show "sw_window_ms w' = sw_window_ms w" "sw_limit w' = sw_limit w" by (simp_all add: w')
  show "window_ok t1 w'"
    using ok start e_start by (auto simp: window_ok_def w' start_def split: if_splits)
  have old: "room w key j \<ge> (if j * ?len = start then sw_limit w - we_count e else if j * ?len < start then 0 else sw_limit w)"
  proof (cases "hm_get (sw_state w) key")
    case None
    then show ?thesis by (simp add: room_def)
  next
    case (Some old)
    with ok have "we_window_start old = we_window_start old div ?len * ?len" "we_window_start old \<le> t1"
      by (auto simp: window_ok_def)
    then have "we_window_start old \<le> start"
      using size by (metis start_def mult_right_mono zdiv_mono1 less_le)
    moreover have "we_window_start old = start \<Longrightarrow> e = old" using Some by (simp add: e_def roll_window_def window_entry_of_def)
    ultimately show ?thesis using Some by (auto simp: room_def)
  qed
  have j: "t1 div ?len = j \<longleftrightarrow> j * ?len = start" using size by (auto simp: start_def)
  show "room w' k j + (if k = key \<and> t1 div ?len = j \<and> rl_allowed r then 1 else 0) \<le> room w k j"
  proof (cases "k = key")
    case False
    then have "hm_get (sw_state w') k = hm_get (sw_state w) k" "sw_limit w' = sw_limit w" "sw_window_ms w' = sw_window_ms w"
      by (simp_all add: w')
    with False show ?thesis by (simp add: room_def split: option.split)
  next
    case True
    have "room w' key j = (if j * ?len = start then sw_limit w - (if a then we_count e + 1 else we_count e)
        else if j * ?len < start then 0 else sw_limit w)"
      by (simp add: room_def w' e_start)
    with old below True show ?thesis by (auto simp: r j split: if_splits)
  qed
qed

lemma trace_room:
  assumes "float_laws F" "weight_laws F" "0 < sw_window_ms w"
    and "\<forall>(k, t1, t2, t3) \<in> set evs. 0 \<le> t1 \<and> t1 \<le> t2 \<and> t2 div sw_window_ms w = t1 div sw_window_ms w"
    and "sorted (now # map (\<lambda>(k, t1, t2, t3). t1) evs)" "window_ok now w"
  shows "passed_in (sw_window_ms w) key j (window_trace F evs w) \<le> room w key j"
  using assms(3-)
proof (induction evs arbitrary: w now)
  case Nil
  then show ?case by (simp add: passed_in_def)
next
  case (Cons ev evs)
  obtain k t1 t2 t3 where ev: "ev = (k, t1, t2, t3)" by (cases ev)
  obtain r w' where run: "window_check F t1 t2 t3 k w = Some (r, w')"
    using Cons.prems(1) by (auto simp: window_check_def Let_def)
  have "now \<le> t1" using Cons.prems(3) by (simp add: ev)
  then have "window_ok t1 w" using Cons.prems(4) unfolding window_ok_def by (meson order_trans)
  note step = check_room [OF assms(1, 2) Cons.prems(1) _ _ _ this run]
  have "passed_in (sw_window_ms w) key j (window_trace F evs w') \<le> room w' key j"
    using Cons.IH [of w' t1] step Cons.prems ev by auto
  then show ?case using step(1) [of key j] Cons.prems(2) by (auto simp: ev run passed_in_def split: if_splits)
qed



text \<open>When the window ends between the two readings, the usage counts as 0: a request over the limit is let through.\<close>

lemma boundary_overrun:
  "map_option (\<lambda>(r, _). rl_allowed r) (window_check rat_ops 5999 6000 6000 ''k''
     \<lparr>sw_limit = 1, sw_window_ms = 1000, sw_state = [(''k'', \<lparr>we_window_start = 5000, we_count = 1, we_prev_count = 0\<rparr>)]\<rparr>) = Some True"
  by (simp add: window_check_def sdiv_nonneg window_entry_of_def roll_window_def calculate_usage_def window_result_def Let_def)

section \<open>The burst of a bucket\<close>

fun bucket_trace :: "'f float_ops \<Rightarrow> int \<Rightarrow> string list \<Rightarrow> 'f token_bucket \<Rightarrow> bool list" where
  "bucket_trace F now [] b = []"
| "bucket_trace F now (key # keys) b =
     (let (r, b') = bucket_check F now key b in rl_allowed r # bucket_trace F now keys b')"

text \<open>The laws of 0 the refill uses when no second has passed.\<close>

definition refill_laws :: "'f float_ops \<Rightarrow> 'f \<Rightarrow> bool" where
  "refill_laws F rate \<longleftrightarrow> fl_mul F (fl_int F 0) rate = fl_int F 0 \<and> (\<forall>t. fl_sub F (fl_int F t) (fl_int F t) = fl_int F 0)"

lemma refill_now:
  assumes "float_laws F" "exact_laws F" "refill_laws F (tb_fill_rate b)" "tb_last_refill b = fl_int F now"
    and "tb_tokens b = fl_int F (int n)" "tb_capacity b = fl_int F (int c)" "n \<le> c" "int c \<le> 2 ^ 53"
  shows "bucket_refill F now b = b"
proof -
  have not_nan: "fl_le F (fl_int F a) (fl_int F a)" for a using assms(1) by (simp add: fl_le_int)
  have "\<not> fl_lt F (fl_int F (int c)) (fl_int F (int n))" using fl_less_int [OF assms(1)] assms(7) by fastforce
  moreover have "fl_add F (fl_int F (int n)) (fl_int F 0) = fl_int F (int n)"
    using assms(2, 7, 8) by (simp add: exact_laws_def)
  moreover have "\<not> fl_lt F (fl_int F 0) (fl_int F 0)" using fl_less_int [OF assms(1)] by fastforce
  ultimately show ?thesis
    using assms(3-6) by (simp add: bucket_refill_def refill_laws_def fl_max_def fl_min_def fl_nan_def not_nan)
qed

lemma bucket_trace_exact:
  assumes "float_laws F" "exact_laws F" "refill_laws F (tb_fill_rate b)" "tb_last_refill b = fl_int F now"
    and "tb_tokens b = fl_int F (int n)" "tb_capacity b = fl_int F (int c)" "n \<le> c" "int c \<le> 2 ^ 53"
  shows "bucket_trace F now keys b = replicate (min n (length keys)) True @ replicate (length keys - n) False"
  using assms(3-)
proof (induction keys arbitrary: b n)
  case Nil
  then show ?case by simp
next
  case (Cons key keys)
  note same = refill_now [OF assms(1, 2) Cons.prems]
  show ?case
  proof (cases n)
    case 0
    have "\<not> fl_le F (fl_int F 1) (fl_int F 0)"
    proof -
      have "fl_lt F (fl_int F 0) (fl_int F 1)" using assms(2) by (simp add: exact_laws_def)
      with assms(1) show ?thesis by (simp add: fl_lt_iff)
    qed
    with 0 same Cons.prems(3) have "bucket_check F now key b = (fst (bucket_check F now key b), b)"
      "\<not> rl_allowed (fst (bucket_check F now key b))" by (simp_all add: bucket_check_def Let_def)
    with Cons.IH [OF Cons.prems] 0 show ?thesis by (simp add: case_prod_unfold Let_def) (metis snd_conv)
  next
    case (Suc m)
    have le: "fl_le F (fl_int F 1) (fl_int F (int n))" using assms(1) Suc by (simp add: fl_le_int)
    have "fl_sub F (fl_int F (int n)) (fl_int F 1) = fl_int F (int m)"
      using assms(2) Suc Cons.prems(5, 6) by (simp add: exact_laws_def)
    then have step: "snd (bucket_check F now key b) = b\<lparr>tb_tokens := fl_int F (int m)\<rparr>" "rl_allowed (fst (bucket_check F now key b))"
      using same Cons.prems(3) le by (simp_all add: bucket_check_def Let_def)
    have "bucket_trace F now keys (b\<lparr>tb_tokens := fl_int F (int m)\<rparr>)
        = replicate (min m (length keys)) True @ replicate (length keys - m) False"
      by (rule Cons.IH) (use Cons.prems Suc in simp_all)
    with step Suc show ?thesis by (simp add: case_prod_unfold Let_def)
  qed
qed

text \<open>Of the requests within the second in which a bucket was made, exactly as many pass as its capacity, the first
  ones, whatever their keys: all keys share the one bucket.\<close>

theorem bucket_burst_exact:
  assumes "float_laws F" "exact_laws F" "refill_laws F rate" "int capacity \<le> 2 ^ 53"
  shows "bucket_trace F now keys (bucket_new F now capacity rate)
    = replicate (min capacity (length keys)) True @ replicate (length keys - capacity) False"
  by (rule bucket_trace_exact) (use assms in \<open>simp_all add: bucket_new_def\<close>)

theorem bucket_burst_exact_witness:
  "bucket_trace rat_ops 7 [''a'', ''b'', ''a''] (bucket_new rat_ops 7 2 (1 / 2)) = [True, True, False]"
  using bucket_burst_exact [of rat_ops "1 / 2" 2 7 "[''a'', ''b'', ''a'']"]
  by (simp add: refill_laws_def numeral_2_eq_2)

section \<open>Checks in sequence\<close>

text \<open>The guard lets a request through exactly if every rule answers and allows it, each in the state the rules before it
  left. When a rule denies it, the rules before it have already been charged for it.\<close>

lemma guard_loop_prefix:
  assumes "op rule (rr_key rule ident) (snd (guard_loop op ident rules s)) = (Inr r, s')" "\<not> rl_allowed r"
    and "fst (guard_loop op ident rules s) = Inr Allowed"
  shows "guard_loop op ident (rules @ rule # rest) s = (Inr (Denied (rl_remaining r) (rl_reset_at r) (rl_limit r)), s')"
  using assms(1, 3)
proof (induction rules arbitrary: s)
  case Nil
  with assms(2) show ?case by simp
next
  case (Cons r0 rules)
  then show ?case by (auto split: prod.splits sum.splits if_splits)
qed

lemma guard_loop_allowed:
  "fst (guard_loop op ident (rules @ [rule]) s) = Inr Allowed \<longleftrightarrow> fst (guard_loop op ident rules s) = Inr Allowed
     \<and> (\<exists>r. fst (op rule (rr_key rule ident) (snd (guard_loop op ident rules s))) = Inr r \<and> rl_allowed r)"
  by (induction rules arbitrary: s) (auto split: prod.splits sum.splits if_splits)

end
