(* ===== verification/Response_Cache.thy ===== *)
theory Response_Cache
  imports Core
begin

text \<open>
  The response cache (the crate \<open>cache\<close>): the backend in memory with a time to live, and the layer that adds a
  prefix to the keys and encodes the values. The clients for Redis and Memcached only forward calls and
  are not modelled.

  Times are nanoseconds of the monotonic clock, whose seconds are a signed 64-bit number: adding a longer time to live
  panics. Values are encoded by \<open>serde_json\<close>, an argument of the operations of the layer.
\<close>

section \<open>The backend in memory\<close>

type_synonym bytes = "8 word list"

record stored_entry =
  se_data :: bytes
  se_expires_at :: "int option"

record memory_cache =
  mc_store :: "(string, stored_entry) hmap"
  mc_hits :: nat
  mc_misses :: nat

record response_cache_stats =
  st_hits :: nat
  st_misses :: nat
  st_keys :: nat
  st_backend :: string

definition memory_cache_new :: memory_cache where
  "memory_cache_new = \<lparr>mc_store = [], mc_hits = 0, mc_misses = 0\<rparr>"

definition lapsed :: "int \<Rightarrow> stored_entry \<Rightarrow> bool" where
  "lapsed now e \<longleftrightarrow> (case se_expires_at e of Some t \<Rightarrow> t \<le> now | None \<Rightarrow> False)"

definition purge_expired :: "int \<Rightarrow> memory_cache \<Rightarrow> nat \<times> memory_cache" where
  "purge_expired now c =
     (let store = hm_retain (\<lambda>_ e. \<not> lapsed now e) (mc_store c)
      in (length (mc_store c) - length store, c\<lparr>mc_store := store\<rparr>))"

definition delete_raw :: "string \<Rightarrow> memory_cache \<Rightarrow> bool \<times> memory_cache" where
  "delete_raw key c = (hm_has key (mc_store c), c\<lparr>mc_store := hm_remove key (mc_store c)\<rparr>)"

text \<open>A read first looks at the entry under the lock for reading. If the entry has expired, it releases that
  lock and removes the key under the lock for writing: other operations may come in between.\<close>

datatype read_outcome = Answered "bytes option" | Stale

definition get_begin :: "int \<Rightarrow> string \<Rightarrow> memory_cache \<Rightarrow> read_outcome \<times> memory_cache" where
  "get_begin now key c = (case hm_get (mc_store c) key of
       Some e \<Rightarrow> if lapsed now e then (Stale, c)
                 else (Answered (Some (se_data e)), c\<lparr>mc_hits := mc_hits c + 1\<rparr>)
     | None \<Rightarrow> (Answered None, c\<lparr>mc_misses := mc_misses c + 1\<rparr>))"

definition get_end :: "string \<Rightarrow> memory_cache \<Rightarrow> memory_cache" where
  "get_end key c = (let (_, c1) = delete_raw key c in c1\<lparr>mc_misses := mc_misses c1 + 1\<rparr>)"

definition get_raw :: "int \<Rightarrow> string \<Rightarrow> memory_cache \<Rightarrow> bytes option \<times> memory_cache" where
  "get_raw now key c = (case get_begin now key c of
       (Answered r, c1) \<Rightarrow> (r, c1)
     | (Stale, c1) \<Rightarrow> (None, get_end key c1))"

definition exists_begin :: "int \<Rightarrow> string \<Rightarrow> memory_cache \<Rightarrow> bool option" where
  "exists_begin now key c = (case hm_get (mc_store c) key of
       Some e \<Rightarrow> if lapsed now e then None else Some True
     | None \<Rightarrow> Some False)"

definition exists_raw :: "int \<Rightarrow> string \<Rightarrow> memory_cache \<Rightarrow> bool \<times> memory_cache" where
  "exists_raw now key c = (case exists_begin now key c of
       Some r \<Rightarrow> (r, c)
     | None \<Rightarrow> (False, snd (delete_raw key c)))"

definition instant_add_secs :: "int \<Rightarrow> nat \<Rightarrow> int option" where
  "instant_add_secs t secs = (if t div 1000000000 + int secs < 2 ^ 63 then Some (t + int secs * 1000000000) else None)"

definition set_raw :: "int \<Rightarrow> string \<Rightarrow> bytes \<Rightarrow> nat \<Rightarrow> memory_cache \<Rightarrow> memory_cache option" where
  "set_raw now key data ttl_secs c =
     (if ttl_secs > 0
      then (case instant_add_secs now ttl_secs of
              None \<Rightarrow> None
            | Some t \<Rightarrow> Some (c\<lparr>mc_store := hm_insert key \<lparr>se_data = data, se_expires_at = Some t\<rparr> (mc_store c)\<rparr>))
      else Some (c\<lparr>mc_store := hm_insert key \<lparr>se_data = data, se_expires_at = None\<rparr> (mc_store c)\<rparr>))"

definition clear_raw :: "memory_cache \<Rightarrow> memory_cache" where
  "clear_raw c = c\<lparr>mc_store := []\<rparr>"

definition stats_raw :: "memory_cache \<Rightarrow> response_cache_stats" where
  "stats_raw c = \<lparr>st_hits = mc_hits c, st_misses = mc_misses c, st_keys = 0, st_backend = ''in-memory''\<rparr>"

section \<open>The contract of a backend\<close>

text \<open>What the layer needs of a backend: a value is read back while its time to live lasts, writing or
  removing another key does not change what a key reads as, and neither does a read at an earlier time.\<close>

datatype cache_op = OpGet int string | OpSet int string bytes nat | OpDelete int string

fun op_key :: "cache_op \<Rightarrow> string" where
  "op_key (OpGet t k) = k" | "op_key (OpSet t k v ttl) = k" | "op_key (OpDelete t k) = k"

fun op_time :: "cache_op \<Rightarrow> int" where
  "op_time (OpGet t k) = t" | "op_time (OpSet t k v ttl) = t" | "op_time (OpDelete t k) = t"

fun op_writes :: "cache_op \<Rightarrow> bool" where
  "op_writes (OpGet t k) = False" | "op_writes (OpSet t k v ttl) = True" | "op_writes (OpDelete t k) = True"

locale cache_backend =
  fixes get :: "int \<Rightarrow> string \<Rightarrow> 's \<Rightarrow> bytes option \<times> 's"
    and set :: "int \<Rightarrow> string \<Rightarrow> bytes \<Rightarrow> nat \<Rightarrow> 's \<Rightarrow> 's option"
    and del :: "string \<Rightarrow> 's \<Rightarrow> bool \<times> 's"
  assumes get_after_set: "set now k v ttl s = Some s' \<Longrightarrow> ttl = 0 \<or> t < now + int ttl * 1000000000 \<Longrightarrow> fst (get t k s') = Some v"
    and get_other_set: "set now k v ttl s = Some s' \<Longrightarrow> k' \<noteq> k \<Longrightarrow> fst (get t k' s') = fst (get t k' s)"
    and get_other_del: "k' \<noteq> k \<Longrightarrow> fst (get t k' (snd (del k s))) = fst (get t k' s)"
    and get_after_get: "now \<le> t \<Longrightarrow> fst (get t k' (snd (get now k s))) = fst (get t k' s)"
begin

fun run :: "cache_op list \<Rightarrow> 's \<Rightarrow> 's option" where
  "run [] s = Some s"
| "run (OpGet t k # ops) s = run ops (snd (get t k s))"
| "run (OpSet t k v ttl # ops) s = (case set t k v ttl s of None \<Rightarrow> None | Some s' \<Rightarrow> run ops s')"
| "run (OpDelete t k # ops) s = run ops (snd (del k s))"

lemma run_reads_same:
  assumes "run ops s = Some s'" "\<forall>op \<in> List.set ops. op_time op \<le> t \<and> (op_writes op \<longrightarrow> op_key op \<noteq> k)"
  shows "fst (get t k s') = fst (get t k s)"
  using assms
  by (induction ops s rule: run.induct)
    (auto simp: get_after_get get_other_del get_other_set split: option.splits)

lemma read_back:
  assumes "set now k v ttl s = Some s1" "run ops s1 = Some s2" "ttl = 0 \<or> t < now + int ttl * 1000000000"
    and "\<forall>op \<in> List.set ops. op_time op \<le> t \<and> (op_writes op \<longrightarrow> op_key op \<noteq> k)"
  shows "fst (get t k s2) = Some v"
  using run_reads_same [OF assms(2, 4)] get_after_set [OF assms(1, 3)] by simp

end

lemma get_raw_fst: "fst (get_raw now key c) = (case hm_get (mc_store c) key of
    Some e \<Rightarrow> if lapsed now e then None else Some (se_data e) | None \<Rightarrow> None)"
  by (simp add: get_raw_def get_begin_def split: option.split)

lemma get_raw_store: "mc_store (snd (get_raw now key c)) = (case hm_get (mc_store c) key of
    Some e \<Rightarrow> if lapsed now e then hm_remove key (mc_store c) else mc_store c | None \<Rightarrow> mc_store c)"
  by (simp add: get_raw_def get_begin_def get_end_def delete_raw_def split: option.split)

lemma set_raw_Some: "set_raw now k v ttl c = Some c' \<longleftrightarrow>
    (ttl = 0 \<or> now div 1000000000 + int ttl < 2 ^ 63) \<and> c' = c\<lparr>mc_store := hm_insert k
      \<lparr>se_data = v, se_expires_at = (if ttl = 0 then None else Some (now + int ttl * 1000000000))\<rparr> (mc_store c)\<rparr>"
  by (auto simp: set_raw_def instant_add_secs_def)

interpretation memory_backend: cache_backend get_raw set_raw delete_raw
proof
  show "set_raw now k v ttl s = Some s' \<Longrightarrow> ttl = 0 \<or> t < now + int ttl * 1000000000 \<Longrightarrow> fst (get_raw t k s') = Some v"
    for now k v ttl s s' t
    by (auto simp: set_raw_Some get_raw_fst lapsed_def)
  show "set_raw now k v ttl s = Some s' \<Longrightarrow> k' \<noteq> k \<Longrightarrow> fst (get_raw t k' s') = fst (get_raw t k' s)" for now k v ttl s s' t k'
    by (auto simp: set_raw_Some get_raw_fst)
  show "k' \<noteq> k \<Longrightarrow> fst (get_raw t k' (snd (delete_raw k s))) = fst (get_raw t k' s)" for t k k' s
    by (simp add: get_raw_fst delete_raw_def)
  show "now \<le> t \<Longrightarrow> fst (get_raw t k' (snd (get_raw now k s))) = fst (get_raw t k' s)" for t k k' s now
    by (auto simp: get_raw_fst get_raw_store lapsed_def split: option.splits)
qed

section \<open>The layer\<close>

record 's cache_layer =
  cy_backend :: 's
  cy_prefix :: string

definition layer_new :: "'s \<Rightarrow> 's cache_layer" where
  "layer_new b = \<lparr>cy_backend = b, cy_prefix = []\<rparr>"

definition layer_in_memory :: "memory_cache cache_layer" where
  "layer_in_memory = \<lparr>cy_backend = memory_cache_new, cy_prefix = []\<rparr>"

definition with_prefix :: "string \<Rightarrow> 's cache_layer \<Rightarrow> 's cache_layer" where
  "with_prefix p l = l\<lparr>cy_prefix := p\<rparr>"

definition build_key :: "string \<Rightarrow> string \<Rightarrow> string" where
  "build_key prefix key = (if prefix = [] then key else prefix @ '':'' @ key)"

definition layer_get ::
  "(bytes \<Rightarrow> string + 'a) \<Rightarrow> int \<Rightarrow> string \<Rightarrow> memory_cache cache_layer \<Rightarrow> 'a option ls_result \<times> memory_cache cache_layer" where
  "layer_get decode now key l =
     (case get_raw now (build_key (cy_prefix l) key) (cy_backend l) of
        (None, b) \<Rightarrow> (Inr None, l\<lparr>cy_backend := b\<rparr>)
      | (Some data, b) \<Rightarrow> ((case decode data of
            Inl e \<Rightarrow> Inl (Internal (''cache deserialize: '' @ e))
          | Inr v \<Rightarrow> Inr (Some v)), l\<lparr>cy_backend := b\<rparr>))"

definition layer_set ::
  "('a \<Rightarrow> string + bytes) \<Rightarrow> int \<Rightarrow> string \<Rightarrow> 'a \<Rightarrow> nat \<Rightarrow> memory_cache cache_layer \<Rightarrow> (unit ls_result \<times> memory_cache cache_layer) option" where
  "layer_set encode now key v ttl_secs l = (case encode v of
       Inl e \<Rightarrow> Some (Inl (Internal (''cache serialize: '' @ e)), l)
     | Inr data \<Rightarrow> map_option (\<lambda>b. (Inr (), l\<lparr>cy_backend := b\<rparr>))
         (set_raw now (build_key (cy_prefix l) key) data ttl_secs (cy_backend l)))"

definition layer_delete :: "string \<Rightarrow> memory_cache cache_layer \<Rightarrow> bool \<times> memory_cache cache_layer" where
  "layer_delete key l = (let (r, b) = delete_raw (build_key (cy_prefix l) key) (cy_backend l) in (r, l\<lparr>cy_backend := b\<rparr>))"

definition layer_exists :: "int \<Rightarrow> string \<Rightarrow> memory_cache cache_layer \<Rightarrow> bool \<times> memory_cache cache_layer" where
  "layer_exists now key l = (let (r, b) = exists_raw now (build_key (cy_prefix l) key) (cy_backend l) in (r, l\<lparr>cy_backend := b\<rparr>))"

definition layer_clear :: "memory_cache cache_layer \<Rightarrow> memory_cache cache_layer" where
  "layer_clear l = l\<lparr>cy_backend := clear_raw (cy_backend l)\<rparr>"

definition layer_stats :: "memory_cache cache_layer \<Rightarrow> response_cache_stats" where
  "layer_stats l = stats_raw (cy_backend l)"

section \<open>Responses of language models\<close>

definition llm_cache_key :: "string \<Rightarrow> string \<Rightarrow> nat \<Rightarrow> string" where
  "llm_cache_key model messages_hash temperature = ''llm:'' @ model @ '':'' @ messages_hash @ '':t'' @ show_nat temperature"

text \<open>SHA-256 is an argument; the hash is taken of the bytes of all messages one after the other.\<close>

definition hash_messages :: "(bytes \<Rightarrow> string) \<Rightarrow> bytes list \<Rightarrow> string" where
  "hash_messages sha256 msgs = sha256 (concat msgs)"

record 's llm_cache =
  lc_cache :: "'s cache_layer"
  lc_default_ttl :: nat
  lc_enabled :: bool

definition llm_cache_new :: "'s cache_layer \<Rightarrow> 's llm_cache" where
  "llm_cache_new l = \<lparr>lc_cache = l, lc_default_ttl = 3600, lc_enabled = True\<rparr>"

definition with_ttl :: "nat \<Rightarrow> 's llm_cache \<Rightarrow> 's llm_cache" where
  "with_ttl secs c = c\<lparr>lc_default_ttl := secs\<rparr>"

definition llm_cache_disabled :: "memory_cache llm_cache" where
  "llm_cache_disabled = \<lparr>lc_cache = layer_in_memory, lc_default_ttl = 0, lc_enabled = False\<rparr>"

section \<open>Properties\<close>

text \<open>A value set in a layer is read back through every layer with the same prefix until its time to live is over,
  whatever was read in between and whatever was written or removed under other full keys.\<close>

theorem layer_reads_back:
  assumes "\<And>v. decode (encode v) = Inr v"
    and "layer_set (\<lambda>v. Inr (encode v)) now key v ttl l = Some (Inr (), l1)"
    and "memory_backend.run ops (cy_backend l1) = Some b"
    and "ttl = 0 \<or> t < now + int ttl * 1000000000"
    and "\<forall>op \<in> set ops. op_time op \<le> t \<and> (op_writes op \<longrightarrow> op_key op \<noteq> build_key (cy_prefix l) key)"
  shows "fst (layer_get decode t key (l\<lparr>cy_backend := b\<rparr>)) = Inr (Some v)"
proof -
  have "set_raw now (build_key (cy_prefix l) key) (encode v) ttl (cy_backend l) = Some (cy_backend l1)"
    using assms(2) by (auto simp: layer_set_def)
  from memory_backend.read_back [OF this assms(3-5)]
  obtain b' where "get_raw t (build_key (cy_prefix l) key) b = (Some (encode v), b')" by (metis prod.collapse)
  then show ?thesis by (simp add: layer_get_def assms(1))
qed

theorem layer_reads_back_witness:
  "fst (layer_get (\<lambda>d. Inr (rev d)) 4000000000 ''k'' \<lparr>cy_backend = the (memory_backend.run [OpSet 1 ''k'' [9] 0, OpGet 2 ''t:k'']
     (cy_backend (snd (the (layer_set (\<lambda>v. Inr (rev v)) 0 ''k'' [1, 2] 5 (with_prefix ''t'' layer_in_memory)))))), cy_prefix = ''t''\<rparr>)
   = Inr (Some [1, 2])"
proof -
  let ?l = "with_prefix ''t'' layer_in_memory"
  define l1 where "l1 = snd (the (layer_set (\<lambda>v. Inr (rev v)) 0 ''k'' [1, 2] 5 ?l))"
  define b where "b = the (memory_backend.run [OpSet 1 ''k'' [9] 0, OpGet 2 ''t:k''] (cy_backend l1))"
  have set: "layer_set (\<lambda>v. Inr (rev v)) 0 ''k'' [1, 2] 5 ?l = Some (Inr (), l1)"
    by (simp add: l1_def layer_set_def set_raw_def instant_add_secs_def layer_in_memory_def with_prefix_def)
  have run: "memory_backend.run [OpSet 1 ''k'' [9] 0, OpGet 2 ''t:k''] (cy_backend l1) = Some b"
    by (simp add: b_def set_raw_def)
  have "fst (layer_get (\<lambda>d. Inr (rev d)) 4000000000 ''k'' (?l\<lparr>cy_backend := b\<rparr>)) = Inr (Some [1, 2])"
    by (rule layer_reads_back [OF _ set run]) (simp_all add: with_prefix_def layer_in_memory_def build_key_def)
  then show ?thesis by (simp add: b_def l1_def with_prefix_def layer_in_memory_def)
qed

text \<open>Prefixes do not separate tenants: a prefix with a colon reads the keys of a shorter one, and clearing one layer
  removes what all layers stored. A read that found an expired entry removes what was written since.\<close>

lemma prefixes_collide: "build_key p (q @ '':'' @ key) = build_key (p @ '':'' @ q) key" if "p \<noteq> []"
  using that by (simp add: build_key_def)

lemma build_key_inj: "p \<noteq> [] \<Longrightarrow> p' \<noteq> [] \<Longrightarrow> CHR '':'' \<notin> set p \<Longrightarrow> CHR '':'' \<notin> set p' \<Longrightarrow>
    build_key p key = build_key p' key' \<longleftrightarrow> p = p' \<and> key = key'"
proof (induction p arbitrary: p')
  case Nil
  then show ?case by simp
next
  case (Cons c p)
  obtain c' q where p': "p' = c' # q" using Cons.prems(2) by (cases p') auto
  show ?case
  proof (cases "p = [] \<or> q = []")
    case True
    with Cons.prems p' show ?thesis by (cases p; cases q) (auto simp: build_key_def)
  next
    case False
    with Cons.IH [of q] Cons.prems p' show ?thesis by (auto simp: build_key_def)
  qed
qed

lemma clear_removes_all: "fst (get_raw t key (cy_backend (layer_clear l))) = None"
  by (simp add: layer_clear_def clear_raw_def get_raw_fst)

lemma stale_read_removes_new_value:
  assumes "get_begin now key c = (Stale, c)" "set_raw now key v ttl c = Some c1"
  shows "fst (get_raw t key (get_end key c1)) = None"
  by (simp add: get_end_def delete_raw_def get_raw_fst)

end
