(* ===== verification/Swarm_Types.thy ===== *)
theory Swarm_Types
  imports Floats
begin

text \<open>
  The data of a swarm of agents (\<open>swarm/src/types.rs\<close>): its configuration, agents, tasks, results, bids and
  consensus. Identifiers and the clock are arguments; durations are milliseconds.
\<close>

datatype swarm_strategy = Voting | Consensus | Hierarchical | Democratic | Bidding | Hybrid

fun swarm_strategy_text :: "swarm_strategy \<Rightarrow> string" where
  "swarm_strategy_text Voting = ''voting''"
| "swarm_strategy_text Consensus = ''consensus''"
| "swarm_strategy_text Hierarchical = ''hierarchical''"
| "swarm_strategy_text Democratic = ''democratic''"
| "swarm_strategy_text Bidding = ''bidding''"
| "swarm_strategy_text Hybrid = ''hybrid''"

definition requires_majority :: "swarm_strategy \<Rightarrow> bool" where
  "requires_majority s \<longleftrightarrow> s = Voting \<or> s = Consensus"

definition requires_leader :: "swarm_strategy \<Rightarrow> bool" where
  "requires_leader s \<longleftrightarrow> s = Hierarchical"

datatype swarm_topology = Star | Mesh | Ring | Tree | Dynamic

fun swarm_topology_text :: "swarm_topology \<Rightarrow> string" where
  "swarm_topology_text Star = ''star''"
| "swarm_topology_text Mesh = ''mesh''"
| "swarm_topology_text Ring = ''ring''"
| "swarm_topology_text Tree = ''tree''"
| "swarm_topology_text Dynamic = ''dynamic''"

record 'f swarm_config =
  sf_name :: string
  sf_strategy :: swarm_strategy
  sf_topology :: swarm_topology
  sf_min_agents :: nat
  sf_max_agents :: nat
  sf_task_timeout :: nat
  sf_heartbeat_interval :: nat
  sf_enable_autonomy :: bool
  sf_enable_emergent :: bool
  sf_idle_timeout :: nat
  sf_consensus_threshold :: 'f
  sf_max_retries :: nat
  sf_enable_audit :: bool

definition swarm_config_default :: "'f float_ops \<Rightarrow> 'f swarm_config" where
  "swarm_config_default F = \<lparr>sf_name = ''default-swarm'', sf_strategy = Democratic, sf_topology = Mesh, sf_min_agents = 2,
     sf_max_agents = 16, sf_task_timeout = 300000, sf_heartbeat_interval = 5000, sf_enable_autonomy = True,
     sf_enable_emergent = True, sf_idle_timeout = 600000, sf_consensus_threshold = fl_dec F 67 2, sf_max_retries = 3,
     sf_enable_audit = True\<rparr>"

datatype swarm_role =
  Analyst | Creator | Validator | Negotiator | Observer | Planner | Executor | Tester | Aggregator | Router

fun swarm_role_text :: "swarm_role \<Rightarrow> string" where
  "swarm_role_text Analyst = ''analyst''"
| "swarm_role_text Creator = ''creator''"
| "swarm_role_text Validator = ''validator''"
| "swarm_role_text Negotiator = ''negotiator''"
| "swarm_role_text Observer = ''observer''"
| "swarm_role_text Planner = ''planner''"
| "swarm_role_text Executor = ''executor''"
| "swarm_role_text Tester = ''tester''"
| "swarm_role_text Aggregator = ''aggregator''"
| "swarm_role_text Router = ''router''"

fun swarm_role_description :: "swarm_role \<Rightarrow> string" where
  "swarm_role_description Analyst = ''Analyzes tasks and breaks down problems''"
| "swarm_role_description Creator = ''Generates creative content and code''"
| "swarm_role_description Validator = ''Validates results and checks quality''"
| "swarm_role_description Negotiator = ''Coordinates conflicts and builds consensus''"
| "swarm_role_description Observer = ''Monitors swarm health and records behavior''"
| "swarm_role_description Planner = ''Creates execution plans''"
| "swarm_role_description Executor = ''Executes specific tasks''"
| "swarm_role_description Tester = ''Tests outputs and detects defects''"
| "swarm_role_description Aggregator = ''Aggregates and summarizes multi-agent outputs''"
| "swarm_role_description Router = ''Routes tasks to best-suited agents''"

datatype swarm_agent_status = Idle | Busy | Evaluating | Faulted | Offline | Removed

record 'f swarm_agent =
  sa_id :: ls_id
  sa_name :: string
  sa_role :: swarm_role
  sa_alternative_roles :: "swarm_role list"
  sa_status :: swarm_agent_status
  sa_capability_score :: 'f
  sa_success_rate :: 'f
  sa_tasks_completed :: nat
  sa_avg_execution_ms :: 'f
  sa_expertise :: "(string, 'f) hmap"
  sa_last_active :: int
  sa_joined_at :: int
  sa_metadata :: "(string, string) hmap"

definition swarm_agent_new :: "'f float_ops \<Rightarrow> ls_id \<Rightarrow> int \<Rightarrow> string \<Rightarrow> swarm_role \<Rightarrow> 'f swarm_agent" where
  "swarm_agent_new F fresh now name role = \<lparr>sa_id = fresh, sa_name = name, sa_role = role, sa_alternative_roles = [],
     sa_status = Idle, sa_capability_score = fl_dec F 5 1, sa_success_rate = fl_int F 1, sa_tasks_completed = 0,
     sa_avg_execution_ms = fl_int F 0, sa_expertise = [], sa_last_active = now, sa_joined_at = now, sa_metadata = []\<rparr>"

definition with_expertise :: "string \<Rightarrow> 'f \<Rightarrow> 'f swarm_agent \<Rightarrow> 'f swarm_agent" where
  "with_expertise d x a = a\<lparr>sa_expertise := hm_insert d x (sa_expertise a)\<rparr>"

definition with_alternative_role :: "swarm_role \<Rightarrow> 'f swarm_agent \<Rightarrow> 'f swarm_agent" where
  "with_alternative_role r a = a\<lparr>sa_alternative_roles := sa_alternative_roles a @ [r]\<rparr>"

definition is_available :: "'f swarm_agent \<Rightarrow> bool" where
  "is_available a \<longleftrightarrow> sa_status a = Idle"

text \<open>The exponential average of an agent's scores.\<close>

definition moving_average :: "'f float_ops \<Rightarrow> 'f \<Rightarrow> 'f \<Rightarrow> 'f \<Rightarrow> 'f" where
  "moving_average F alpha new old = fl_add F (fl_mul F alpha new) (fl_mul F (fl_sub F (fl_int F 1) alpha) old)"

definition update_capability :: "'f float_ops \<Rightarrow> int \<Rightarrow> bool \<Rightarrow> 'f \<Rightarrow> 'f swarm_agent \<Rightarrow> 'f swarm_agent" where
  "update_capability F now success ms a =
     (let alpha = fl_dec F 3 1; score = (if success then fl_int F 1 else fl_int F 0)
      in a\<lparr>sa_capability_score := moving_average F alpha score (sa_capability_score a),
           sa_success_rate := moving_average F alpha score (sa_success_rate a),
           sa_tasks_completed := sa_tasks_completed a + 1,
           sa_avg_execution_ms := (if sa_tasks_completed a + 1 = 1 then ms
             else fl_add F (fl_mul F (fl_dec F 9 1) (sa_avg_execution_ms a)) (fl_mul F (fl_dec F 1 1) ms)),
           sa_last_active := now\<rparr>)"

record swarm_task =
  st_id :: ls_id
  st_name :: string
  st_description :: string
  st_input :: json
  st_required_role :: "swarm_role option"
  st_required_expertise :: "string list"
  st_priority :: nat
  st_max_bidders :: nat
  st_depends_on :: "ls_id list"
  st_created_at :: int
  st_timeout_secs :: nat

definition swarm_task_new :: "ls_id \<Rightarrow> int \<Rightarrow> string \<Rightarrow> string \<Rightarrow> json \<Rightarrow> swarm_task" where
  "swarm_task_new fresh now name description input = \<lparr>st_id = fresh, st_name = name, st_description = description,
     st_input = input, st_required_role = None, st_required_expertise = [], st_priority = 5, st_max_bidders = 3,
     st_depends_on = [], st_created_at = now, st_timeout_secs = 300\<rparr>"

definition with_required_role :: "swarm_role \<Rightarrow> swarm_task \<Rightarrow> swarm_task" where
  "with_required_role r t = t\<lparr>st_required_role := Some r\<rparr>"

definition with_swarm_priority :: "nat \<Rightarrow> swarm_task \<Rightarrow> swarm_task" where
  "with_swarm_priority p t = t\<lparr>st_priority := min p 10\<rparr>"

definition with_dependency :: "ls_id \<Rightarrow> swarm_task \<Rightarrow> swarm_task" where
  "with_dependency d t = t\<lparr>st_depends_on := st_depends_on t @ [d]\<rparr>"

record 'f swarm_task_result =
  tr_task_id :: ls_id
  tr_agent_id :: ls_id
  tr_agent_name :: string
  tr_output :: json
  tr_success :: bool
  tr_execution_ms :: nat
  tr_confidence :: 'f
  tr_error :: "string option"
  tr_started_at :: int
  tr_completed_at :: int

record 'f swarm_state =
  ss_id :: ls_id
  ss_name :: string
  ss_strategy :: swarm_strategy
  ss_topology :: swarm_topology
  ss_agents :: "'f swarm_agent list"
  ss_active_tasks :: nat
  ss_completed :: nat
  ss_failed :: nat
  ss_success_rate :: 'f
  ss_started_at :: int
  ss_last_updated :: int
  ss_metadata :: "(string, string) hmap"

definition swarm_state_new ::
  "'f float_ops \<Rightarrow> ls_id \<Rightarrow> int \<Rightarrow> string \<Rightarrow> swarm_strategy \<Rightarrow> swarm_topology \<Rightarrow> 'f swarm_state" where
  "swarm_state_new F fresh now name strategy topology = \<lparr>ss_id = fresh, ss_name = name, ss_strategy = strategy,
     ss_topology = topology, ss_agents = [], ss_active_tasks = 0, ss_completed = 0, ss_failed = 0,
     ss_success_rate = fl_int F 1, ss_started_at = now, ss_last_updated = now, ss_metadata = []\<rparr>"

definition agent_count :: "'f swarm_state \<Rightarrow> nat" where
  "agent_count s = length (ss_agents s)"

definition available_agents :: "'f swarm_state \<Rightarrow> 'f swarm_agent list" where
  "available_agents s = filter is_available (ss_agents s)"

definition available_agent_count :: "'f swarm_state \<Rightarrow> nat" where
  "available_agent_count s = length (filter is_available (ss_agents s))"

definition busy_agent_count :: "'f swarm_state \<Rightarrow> nat" where
  "busy_agent_count s = length (filter (\<lambda>a. sa_status a = Busy) (ss_agents s))"

record 'f swarm_bid =
  sb_agent_id :: ls_id
  sb_agent_name :: string
  sb_bid_score :: 'f
  sb_estimated_ms :: nat
  sb_rationale :: string
  sb_timestamp :: int

datatype vote_value = Yes | No | Abstain

record swarm_vote =
  sv_agent_id :: ls_id
  sv_vote :: vote_value
  sv_rationale :: string
  sv_timestamp :: int

record 'f consensus_result =
  cr_achieved :: bool
  cr_total_votes :: nat
  cr_yes_votes :: nat
  cr_no_votes :: nat
  cr_abstain_votes :: nat
  cr_approval_ratio :: 'f
  cr_decision :: json
  cr_minority_opinions :: "string list"

end
