(* ===== verification/Swarm_Strategy.thy ===== *)
theory Swarm_Strategy
  imports Swarm_Types
begin

text \<open>
  The strategies by which a swarm chooses an agent and judges results (\<open>swarm/src/strategy.rs\<close>). A strategy
  behind its interface is a datatype of the implementations. Choosing the strategy to delegate to panics in
  a hybrid without strategies: the operations return an option. No operation returns an error.

  The text of JSON values and of numbers with two decimals are arguments.
\<close>

section \<open>Strategies\<close>

datatype 'f decision_strategy =
  VotingStrategy 'f
| ConsensusStrategy 'f
| HierarchicalStrategy
| DemocraticStrategy
| BiddingStrategy
| HybridStrategy "'f decision_strategy list"

fun decision_name :: "'f decision_strategy \<Rightarrow> string" where
  "decision_name (VotingStrategy x) = ''voting''"
| "decision_name (ConsensusStrategy x) = ''consensus''"
| "decision_name HierarchicalStrategy = ''hierarchical''"
| "decision_name DemocraticStrategy = ''democratic''"
| "decision_name BiddingStrategy = ''bidding''"
| "decision_name (HybridStrategy ss) = ''hybrid''"

fun strategy_type :: "'f decision_strategy \<Rightarrow> swarm_strategy" where
  "strategy_type (VotingStrategy x) = Voting"
| "strategy_type (ConsensusStrategy x) = Consensus"
| "strategy_type HierarchicalStrategy = Hierarchical"
| "strategy_type DemocraticStrategy = Democratic"
| "strategy_type BiddingStrategy = Bidding"
| "strategy_type (HybridStrategy ss) = Hybrid"

fun needs_bidding :: "'f decision_strategy \<Rightarrow> bool" where
  "needs_bidding (VotingStrategy x) = False"
| "needs_bidding (ConsensusStrategy x) = False"
| "needs_bidding HierarchicalStrategy = False"
| "needs_bidding DemocraticStrategy = True"
| "needs_bidding BiddingStrategy = True"
| "needs_bidding (HybridStrategy ss) = True"

definition voting_default :: "'f float_ops \<Rightarrow> 'f decision_strategy" where
  "voting_default F = VotingStrategy (fl_dec F 5 1)"

definition consensus_default :: "'f float_ops \<Rightarrow> 'f decision_strategy" where
  "consensus_default F = ConsensusStrategy (fl_dec F 67 2)"

definition hybrid_default :: "'f float_ops \<Rightarrow> 'f decision_strategy" where
  "hybrid_default F = HybridStrategy [voting_default F, consensus_default F, HierarchicalStrategy, DemocraticStrategy, BiddingStrategy]"

definition create_strategy :: "'f float_ops \<Rightarrow> 'f swarm_config \<Rightarrow> 'f decision_strategy" where
  "create_strategy F c = (case sf_strategy c of
       Voting \<Rightarrow> VotingStrategy (sf_consensus_threshold c)
     | Consensus \<Rightarrow> ConsensusStrategy (sf_consensus_threshold c)
     | Hierarchical \<Rightarrow> HierarchicalStrategy
     | Democratic \<Rightarrow> DemocraticStrategy
     | Bidding \<Rightarrow> BiddingStrategy
     | Hybrid \<Rightarrow> hybrid_default F)"

section \<open>Choosing an agent\<close>

text \<open>The fitness of an agent for a task: its score, a part of its expertise in each required domain, and a
  bonus for the role; the bonuses differ between the voting strategy and the bids of the coordinator.\<close>

definition expertise_score :: "'f float_ops \<Rightarrow> 'f \<Rightarrow> swarm_task \<Rightarrow> 'f swarm_agent \<Rightarrow> 'f \<Rightarrow> 'f" where
  "expertise_score F share t a = fold (\<lambda>d s. case hm_get (sa_expertise a) d of
     Some x \<Rightarrow> fl_add F s (fl_mul F x share) | None \<Rightarrow> s) (st_required_expertise t)"

definition role_bonus :: "'f float_ops \<Rightarrow> 'f \<Rightarrow> 'f \<Rightarrow> swarm_task \<Rightarrow> 'f swarm_agent \<Rightarrow> 'f \<Rightarrow> 'f" where
  "role_bonus F own alternative t a s = (case st_required_role t of
     None \<Rightarrow> s
   | Some r \<Rightarrow> if sa_role a = r then fl_add F s own
               else if r \<in> set (sa_alternative_roles a) then fl_add F s alternative else s)"

definition calculate_fitness :: "'f float_ops \<Rightarrow> swarm_task \<Rightarrow> 'f swarm_agent \<Rightarrow> 'f" where
  "calculate_fitness F t a = fl_min F
     (role_bonus F (fl_dec F 3 1) (fl_dec F 15 2) t a (expertise_score F (fl_dec F 2 1) t a (sa_capability_score a))) (fl_int F 1)"

definition consensus_score :: "'f float_ops \<Rightarrow> 'f swarm_agent \<Rightarrow> 'f" where
  "consensus_score F a = fl_add F (fl_mul F (sa_success_rate a) (fl_dec F 6 1)) (fl_mul F (sa_capability_score a) (fl_dec F 4 1))"

definition select_hierarchical :: "'f float_ops \<Rightarrow> swarm_task \<Rightarrow> 'f swarm_agent list \<Rightarrow> 'f swarm_agent option" where
  "select_hierarchical F t agents =
     (let available = filter is_available agents
      in case (case st_required_role t of Some r \<Rightarrow> find (\<lambda>a. sa_role a = r) available | None \<Rightarrow> None) of
           Some a \<Rightarrow> Some a
         | None \<Rightarrow> fl_best F sa_capability_score available)"

definition least_loaded :: "'f swarm_agent list \<Rightarrow> 'f swarm_agent option" where
  "least_loaded agents = (case filter is_available agents of [] \<Rightarrow> None | a # as \<Rightarrow> Some (first_min sa_tasks_completed a as))"

definition select_democratic :: "'f float_ops \<Rightarrow> 'f swarm_agent list \<Rightarrow> 'f swarm_bid list \<Rightarrow> 'f swarm_agent option" where
  "select_democratic F agents bids =
     (case (case fl_best F sb_bid_score bids of Some b \<Rightarrow> find (\<lambda>a. sa_id a = sb_agent_id b) agents | None \<Rightarrow> None) of
        Some a \<Rightarrow> Some a
      | None \<Rightarrow> least_loaded agents)"

definition bid_value :: "'f float_ops \<Rightarrow> nat \<Rightarrow> 'f swarm_bid \<Rightarrow> 'f" where
  "bid_value F max_ms b = fl_mul F (sb_bid_score b)
     (fl_sub F (fl_int F 1) (fl_div F (fl_int F (int (sb_estimated_ms b))) (fl_int F (int max_ms))))"

definition agent_of_bid :: "'f float_ops \<Rightarrow> 'f swarm_bid \<Rightarrow> 'f swarm_agent" where
  "agent_of_bid F b = \<lparr>sa_id = sb_agent_id b, sa_name = sb_agent_name b, sa_role = Executor, sa_alternative_roles = [],
     sa_status = Idle, sa_capability_score = sb_bid_score b, sa_success_rate = fl_dec F 5 1, sa_tasks_completed = 0,
     sa_avg_execution_ms = fl_int F 0, sa_expertise = [], sa_last_active = sb_timestamp b, sa_joined_at = sb_timestamp b,
     sa_metadata = []\<rparr>"

definition select_bidding :: "'f float_ops \<Rightarrow> 'f swarm_bid list \<Rightarrow> 'f swarm_agent option" where
  "select_bidding F bids =
     (let max_ms = fold max (map sb_estimated_ms bids) 1
      in map_option (agent_of_bid F) (fl_best F (bid_value F max_ms) bids))"

text \<open>The strategy a hybrid delegates to: the first of the preferred kind, otherwise its first one.\<close>

definition preferred_kind :: "swarm_task \<Rightarrow> swarm_strategy" where
  "preferred_kind t =
     (if st_priority t \<ge> 8 \<and> st_required_role t = Some Creator then Bidding
      else if st_required_role t = Some Validator \<or> st_required_role t = Some Tester then Consensus
      else if st_priority t \<le> 3 then Hierarchical
      else Democratic)"

definition select_strategy :: "'f decision_strategy list \<Rightarrow> swarm_task \<Rightarrow> 'f decision_strategy option" where
  "select_strategy ss t = (case find (\<lambda>s. strategy_type s = preferred_kind t) ss of
       Some s \<Rightarrow> Some s
     | None \<Rightarrow> (case ss of [] \<Rightarrow> None | s # _ \<Rightarrow> Some s))"

lemma select_strategy_mem: "select_strategy ss t = Some s \<Longrightarrow> s \<in> set ss"
  by (auto simp: select_strategy_def find_Some_iff split: option.splits list.splits)

lemma select_strategy_None: "select_strategy ss t = None \<longleftrightarrow> ss = []"
  by (cases "find (\<lambda>s. strategy_type s = preferred_kind t) ss"; cases ss) (simp_all add: select_strategy_def)

function strategy_select ::
  "'f float_ops \<Rightarrow> 'f decision_strategy \<Rightarrow> swarm_task \<Rightarrow> 'f swarm_agent list \<Rightarrow> 'f swarm_bid list \<Rightarrow> 'f swarm_agent option option" where
  "strategy_select F (VotingStrategy x) t agents bids = Some (fl_best F (calculate_fitness F t) (filter is_available agents))"
| "strategy_select F (ConsensusStrategy x) t agents bids = Some (fl_best F (consensus_score F) (filter is_available agents))"
| "strategy_select F HierarchicalStrategy t agents bids = Some (select_hierarchical F t agents)"
| "strategy_select F DemocraticStrategy t agents bids = Some (select_democratic F agents bids)"
| "strategy_select F BiddingStrategy t agents bids = Some (select_bidding F bids)"
| "strategy_select F (HybridStrategy ss) t agents bids = (case select_strategy ss t of
     None \<Rightarrow> None | Some s \<Rightarrow> strategy_select F s t agents bids)"
  by pat_completeness auto
termination
proof (relation "measure (\<lambda>(F, s, _). size s)")
  show "((F, s, t, agents, bids), F, HybridStrategy ss, t, agents, bids) \<in> measure (\<lambda>(F, s, _). size s)"
    if "select_strategy ss t = Some s" for F :: "'f float_ops" and ss s t agents bids
    using size_list_estimation' [OF select_strategy_mem [OF that] order_refl, of size] by simp
qed simp

section \<open>Judging results\<close>

definition no_consensus :: "'f float_ops \<Rightarrow> 'f consensus_result" where
  "no_consensus F = \<lparr>cr_achieved = False, cr_total_votes = 0, cr_yes_votes = 0, cr_no_votes = 0, cr_abstain_votes = 0,
     cr_approval_ratio = fl_int F 0, cr_decision = Null, cr_minority_opinions = []\<rparr>"

definition vote_of :: "'f float_ops \<Rightarrow> 'f \<Rightarrow> vote_value" where
  "vote_of F x = (if fl_le F (fl_dec F 7 1) x then Yes else if fl_le F (fl_dec F 4 1) x then Abstain else No)"

definition approval :: "'f float_ops \<Rightarrow> nat \<Rightarrow> nat \<Rightarrow> 'f" where
  "approval F yes votes_cast = (if votes_cast > 0 then fl_div F (fl_int F (int yes)) (fl_int F (int votes_cast)) else fl_int F 0)"

definition best_output :: "'f float_ops \<Rightarrow> 'f swarm_task_result list \<Rightarrow> json" where
  "best_output F rs = (case fl_best F tr_confidence rs of Some r \<Rightarrow> tr_output r | None \<Rightarrow> Null)"

definition evaluate_voting :: "'f float_ops \<Rightarrow> 'f \<Rightarrow> 'f swarm_task_result list \<Rightarrow> 'f swarm_agent list \<Rightarrow> 'f consensus_result" where
  "evaluate_voting F threshold rs agents =
     (if rs = [] \<or> agents = [] then no_consensus F
      else let votes = map (\<lambda>r. vote_of F (tr_confidence r)) rs;
               yes = count_list votes Yes; no = count_list votes No; abstain = count_list votes Abstain;
               votes_cast = yes + no + abstain;
               ratio = approval F yes votes_cast
           in \<lparr>cr_achieved = fl_le F threshold ratio, cr_total_votes = votes_cast, cr_yes_votes = yes, cr_no_votes = no,
               cr_abstain_votes = abstain, cr_approval_ratio = ratio, cr_decision = best_output F rs,
               cr_minority_opinions = concat (map (\<lambda>r. if vote_of F (tr_confidence r) = No
                 then (case tr_error r of Some e \<Rightarrow> [''Agent '' @ tr_agent_name r @ '': '' @ e] | None \<Rightarrow> []) else []) rs)\<rparr>)"

definition combined_score :: "'f float_ops \<Rightarrow> (json \<Rightarrow> string) \<Rightarrow> 'f swarm_task_result list \<Rightarrow> nat \<Rightarrow> 'f" where
  "combined_score F to_text rs i =
     (let outs = map (\<lambda>r. to_text (tr_output r)) rs;
          agreements = length (filter (\<lambda>j. i \<noteq> j \<and> outs ! i = outs ! j) [0..<length outs]);
          consistency = (if length rs > 1 then fl_div F (fl_int F (int agreements)) (fl_int F (int (length rs - 1))) else fl_int F 1)
      in fl_add F (fl_mul F (tr_confidence (rs ! i)) (fl_dec F 6 1)) (fl_mul F consistency (fl_dec F 4 1)))"

definition evaluate_consensus ::
  "'f float_ops \<Rightarrow> (json \<Rightarrow> string) \<Rightarrow> ('f \<Rightarrow> string) \<Rightarrow> 'f \<Rightarrow> 'f swarm_task_result list \<Rightarrow> 'f swarm_agent list \<Rightarrow> 'f consensus_result" where
  "evaluate_consensus F to_text show2 threshold rs agents =
     (if rs = [] \<or> agents = [] then no_consensus F
      else let votes = map (\<lambda>i. vote_of F (combined_score F to_text rs i)) [0..<length rs];
               yes = count_list votes Yes; no = count_list votes No; abstain = count_list votes Abstain;
               votes_cast = yes + no + abstain;
               ratio = approval F yes votes_cast
           in \<lparr>cr_achieved = fl_le F threshold ratio, cr_total_votes = votes_cast, cr_yes_votes = yes, cr_no_votes = no,
               cr_abstain_votes = abstain, cr_approval_ratio = ratio, cr_decision = best_output F rs,
               cr_minority_opinions = map (\<lambda>r. ''Agent '' @ tr_agent_name r @ '' (confidence='' @ show2 (tr_confidence r) @ '')'')
                 (filter (\<lambda>r. fl_lt F (tr_confidence r) (fl_dec F 4 1)) rs)\<rparr>)"

definition single_verdict :: "'f float_ops \<Rightarrow> 'f swarm_task_result \<Rightarrow> 'f consensus_result" where
  "single_verdict F r = \<lparr>cr_achieved = tr_success r, cr_total_votes = 1, cr_yes_votes = (if tr_success r then 1 else 0),
     cr_no_votes = (if tr_success r then 0 else 1), cr_abstain_votes = 0,
     cr_approval_ratio = (if tr_success r then fl_int F 1 else fl_int F 0), cr_decision = tr_output r, cr_minority_opinions = []\<rparr>"

function evaluate_result ::
  "'f float_ops \<Rightarrow> (json \<Rightarrow> string) \<Rightarrow> ('f \<Rightarrow> string) \<Rightarrow> 'f decision_strategy \<Rightarrow> swarm_task \<Rightarrow> 'f swarm_task_result list
     \<Rightarrow> 'f swarm_agent list \<Rightarrow> 'f consensus_result option" where
  "evaluate_result F js sh (VotingStrategy x) t rs agents = Some (evaluate_voting F x rs agents)"
| "evaluate_result F js sh (ConsensusStrategy x) t rs agents = Some (evaluate_consensus F js sh x rs agents)"
| "evaluate_result F js sh HierarchicalStrategy t rs agents = Some (case fl_best F tr_confidence rs of
     None \<Rightarrow> no_consensus F | Some r \<Rightarrow> single_verdict F r)"
| "evaluate_result F js sh DemocraticStrategy t rs agents = Some (evaluate_voting F (fl_dec F 5 1) rs agents)"
| "evaluate_result F js sh BiddingStrategy t rs agents = Some (case rs of [] \<Rightarrow> no_consensus F | r # _ \<Rightarrow> single_verdict F r)"
| "evaluate_result F js sh (HybridStrategy ss) t rs agents = (case select_strategy ss t of
     None \<Rightarrow> None | Some s \<Rightarrow> evaluate_result F js sh s t rs agents)"
  by pat_completeness auto
termination
proof (relation "measure (\<lambda>(F, js, sh, s, _). size s)")
  show "((F, js, sh, s, t, rs, agents), F, js, sh, HybridStrategy ss, t, rs, agents) \<in> measure (\<lambda>(F, js, sh, s, _). size s)"
    if "select_strategy ss t = Some s" for F :: "'f float_ops" and ss s t rs agents js sh
    using size_list_estimation' [OF select_strategy_mem [OF that] order_refl, of size] by simp
qed simp

section \<open>What the strategies choose\<close>

text \<open>A strategy that is not a hybrid without strategies always answers.\<close>

fun well_formed :: "'f decision_strategy \<Rightarrow> bool" where
  "well_formed (HybridStrategy ss) \<longleftrightarrow> ss \<noteq> [] \<and> list_all well_formed ss"
| "well_formed s \<longleftrightarrow> True"

lemma strategy_select_total: "well_formed s \<Longrightarrow> \<exists>x. strategy_select F s t agents bids = Some x"
proof (induction F s t agents bids rule: strategy_select.induct)
  case (6 F ss t agents bids)
  from 6(2) obtain s where s: "select_strategy ss t = Some s"
    using select_strategy_None [of ss t] by (cases "select_strategy ss t") auto
  with 6(2) select_strategy_mem [OF s] have "well_formed s" by (simp add: list_all_iff)
  from 6(1) [OF s this] show ?case by (simp add: s)
qed simp_all

lemma evaluate_result_total: "well_formed s \<Longrightarrow> \<exists>x. evaluate_result F js sh s t rs agents = Some x"
proof (induction F js sh s t rs agents rule: evaluate_result.induct)
  case (6 F js sh ss t rs agents)
  from 6(2) obtain s where s: "select_strategy ss t = Some s"
    using select_strategy_None [of ss t] by (cases "select_strategy ss t") auto
  with 6(2) select_strategy_mem [OF s] have "well_formed s" by (simp add: list_all_iff)
  from 6(1) [OF s this] show ?case by (simp add: s)
qed simp_all

lemma hybrid_delegates: "select_strategy [voting_default F, consensus_default F, HierarchicalStrategy, DemocraticStrategy, BiddingStrategy] t
    = Some (case preferred_kind t of Bidding \<Rightarrow> BiddingStrategy | Consensus \<Rightarrow> consensus_default F
        | Hierarchical \<Rightarrow> HierarchicalStrategy | _ \<Rightarrow> DemocraticStrategy)"
  by (simp add: select_strategy_def preferred_kind_def voting_default_def consensus_default_def)

text \<open>The key by which a strategy compares the agents that are available.\<close>

fun strategy_key :: "'f float_ops \<Rightarrow> 'f decision_strategy \<Rightarrow> swarm_task \<Rightarrow> 'f swarm_agent \<Rightarrow> 'f" where
  "strategy_key F (VotingStrategy x) t = calculate_fitness F t"
| "strategy_key F (ConsensusStrategy x) t = consensus_score F"
| "strategy_key F s t = sa_capability_score"

text \<open>Under voting, consensus and hierarchy a selection returns nobody exactly when no agent is available, and otherwise an
  agent of the swarm that is available: under the hierarchy one with the required role if there is one, else one of
  which no available agent is better by the strategy's own score.\<close>

theorem selection_exact:
  assumes "strategy_type s \<in> {Voting, Consensus, Hierarchical}"
  shows "\<exists>x. strategy_select F s t agents bids = Some x \<and> (x = None \<longleftrightarrow> (\<forall>a \<in> set agents. \<not> is_available a))
    \<and> (\<forall>a. x = Some a \<longrightarrow> a \<in> set agents \<and> is_available a
         \<and> (strategy_type s = Hierarchical \<and> (\<exists>r b. st_required_role t = Some r \<and> b \<in> set agents \<and> is_available b \<and> sa_role b = r)
              \<longrightarrow> st_required_role t = Some (sa_role a))
         \<and> (float_laws F \<and> (\<forall>b \<in> set agents. is_available b \<longrightarrow> \<not> fl_nan F (strategy_key F s t b))
              \<and> (strategy_type s = Hierarchical \<longrightarrow> st_required_role t = None)
              \<longrightarrow> (\<forall>b \<in> set agents. is_available b \<longrightarrow> \<not> fl_lt F (strategy_key F s t a) (strategy_key F s t b))))"
proof -
  let ?av = "filter is_available agents"
  have none: "fl_best F key ?av = None \<longleftrightarrow> (\<forall>a \<in> set agents. \<not> is_available a)" for key
    by (simp add: filter_empty_conv)
  have some: "fl_best F key ?av = Some a \<Longrightarrow> a \<in> set agents \<and> is_available a" for key a
    using fl_best_mem [of F key ?av a] by simp
  have top: "\<not> fl_lt F (key a) (key b)" if "fl_best F key ?av = Some a" "float_laws F"
    "\<forall>b \<in> set agents. is_available b \<longrightarrow> \<not> fl_nan F (key b)" "b \<in> set agents" "is_available b" for key a b
    by (rule fl_best_greatest [OF that(2) _ that(1)]) (use that in auto)
  have hier: "(select_hierarchical F t agents = None \<longleftrightarrow> (\<forall>a \<in> set agents. \<not> is_available a))
      \<and> (\<forall>a. select_hierarchical F t agents = Some a \<longrightarrow> a \<in> set agents \<and> is_available a
         \<and> ((\<exists>r b. st_required_role t = Some r \<and> b \<in> set agents \<and> is_available b \<and> sa_role b = r) \<longrightarrow> st_required_role t = Some (sa_role a)))"
  proof (cases "st_required_role t")
    case None
    have sel: "select_hierarchical F t agents = fl_best F sa_capability_score ?av" by (simp add: select_hierarchical_def None)
    show ?thesis unfolding sel None using none [of sa_capability_score] some [of sa_capability_score] by blast
  next
    case (Some r)
    show ?thesis
    proof (cases "find (\<lambda>a. sa_role a = r) ?av")
      case None
      then have no: "\<not> (\<exists>b \<in> set agents. is_available b \<and> sa_role b = r)" by (auto simp: find_None_iff)
      have sel: "select_hierarchical F t agents = fl_best F sa_capability_score ?av"
        by (simp add: select_hierarchical_def None Some)
      have "\<nexists>r b. st_required_role t = Some r \<and> b \<in> set agents \<and> is_available b \<and> sa_role b = r" using no Some by auto
      with none [of sa_capability_score] some [of sa_capability_score] show ?thesis unfolding sel by blast
    next
      case found: (Some a)
      from find_mem [OF found] have "a \<in> set agents" "is_available a" "sa_role a = r" by simp_all
      moreover have "select_hierarchical F t agents = Some a" by (simp add: select_hierarchical_def found Some)
      ultimately show ?thesis using Some by auto
    qed
  qed
  show ?thesis
  proof (cases s)
    case (VotingStrategy x)
    have sel: "strategy_select F s t agents bids = Some (fl_best F (calculate_fitness F t) ?av)" "strategy_key F s t = calculate_fitness F t" "strategy_type s \<noteq> Hierarchical"
      by (simp_all add: VotingStrategy)
    show ?thesis unfolding sel(1, 2) using sel(3) none [of "calculate_fitness F t"] some [of "calculate_fitness F t"] top [of "calculate_fitness F t"] by blast
  next
    case (ConsensusStrategy x)
    have sel: "strategy_select F s t agents bids = Some (fl_best F (consensus_score F) ?av)" "strategy_key F s t = consensus_score F" "strategy_type s \<noteq> Hierarchical"
      by (simp_all add: ConsensusStrategy)
    show ?thesis unfolding sel(1, 2) using sel(3) none [of "consensus_score F"] some [of "consensus_score F"] top [of "consensus_score F"] by blast
  next
    case HierarchicalStrategy
    have sel: "strategy_select F s t agents bids = Some (select_hierarchical F t agents)" "strategy_key F s t = sa_capability_score"
      "strategy_type s = Hierarchical" by (simp_all add: HierarchicalStrategy)
    have "st_required_role t = None \<Longrightarrow> select_hierarchical F t agents = fl_best F sa_capability_score ?av"
      by (simp add: select_hierarchical_def)
    then have "\<not> fl_lt F (sa_capability_score a) (sa_capability_score b)"
      if "select_hierarchical F t agents = Some a" "float_laws F" "\<forall>b \<in> set agents. is_available b \<longrightarrow> \<not> fl_nan F (sa_capability_score b)"
        "st_required_role t = None" "b \<in> set agents" "is_available b" for a b
      using top [of sa_capability_score a b] that by simp
    with hier show ?thesis unfolding sel simp_thms by blast
  qed (use assms in simp_all)
qed

definition sample_swarm_agent :: "ls_id \<Rightarrow> rat \<Rightarrow> swarm_agent_status \<Rightarrow> rat swarm_agent" where
  "sample_swarm_agent i x st = (swarm_agent_new rat_ops i 0 ''a'' Executor)\<lparr>sa_capability_score := x, sa_status := st\<rparr>"

theorem selection_exact_witness:
  "\<exists>a. strategy_select rat_ops HierarchicalStrategy (swarm_task_new 1 0 ''t'' ''d'' Null)
     [sample_swarm_agent 1 (1 / 2) Idle, sample_swarm_agent 2 (3 / 4) Idle, sample_swarm_agent 3 1 Busy] [] = Some (Some a)
     \<and> a \<noteq> sample_swarm_agent 1 (1 / 2) Idle \<and> a \<noteq> sample_swarm_agent 3 1 Busy"
proof -
  let ?as = "[sample_swarm_agent 1 (1 / 2) Idle, sample_swarm_agent 2 (3 / 4) Idle, sample_swarm_agent 3 1 Busy]"
  let ?t = "swarm_task_new 1 0 ''t'' ''d'' Null"
  obtain x where x: "strategy_select rat_ops HierarchicalStrategy ?t ?as [] = Some x" "x = None \<longleftrightarrow> (\<forall>a \<in> set ?as. \<not> is_available a)"
    "\<forall>a. x = Some a \<longrightarrow> is_available a \<and> (\<forall>b \<in> set ?as. is_available b \<longrightarrow> \<not> sa_capability_score a < sa_capability_score b)"
    using selection_exact [of HierarchicalStrategy rat_ops ?t ?as "[]"] by (auto simp: swarm_task_new_def fl_nan_def)
  from x(2) obtain a where "x = Some a" by (cases x) (auto simp: sample_swarm_agent_def is_available_def)
  with x show ?thesis by (auto simp: sample_swarm_agent_def is_available_def swarm_agent_new_def)
qed

text \<open>When all bids estimate the same time, as they do while no agent has run a task, each is worth 0 to the bidding
  strategy: it takes the last bid, whatever was bid, and the coordinator has put the lowest one last.\<close>

theorem equal_bids_take_last:
  assumes "bids \<noteq> []" "\<forall>b \<in> set bids. sb_estimated_ms b = ms" "0 < ms"
    and "float_laws F" "fl_div F (fl_int F (int ms)) (fl_int F (int ms)) = fl_int F 1"
    and "fl_sub F (fl_int F 1) (fl_int F 1) = fl_int F 0" "\<forall>b \<in> set bids. fl_mul F (sb_bid_score b) (fl_int F 0) = fl_int F 0"
  shows "strategy_select F BiddingStrategy t agents bids = Some (Some (agent_of_bid F (last bids)))"
proof -
  have "\<forall>x \<in> set xs. x = ms \<Longrightarrow> fold max xs m = (if xs = [] then m else max ms m)" for xs m
    by (induction xs arbitrary: m) auto
  from this [of "map sb_estimated_ms bids" 1] have max: "fold max (map sb_estimated_ms bids) 1 = ms" using assms(1-3) by auto
  have zero: "bid_value F ms b = fl_int F 0" if "b \<in> set bids" for b
    using assms(2, 5-7) that by (simp add: bid_value_def)
  have "\<not> fl_lt F (fl_int F 0) (fl_int F 0)" using fl_less_int [OF assms(4)] by blast
  then have "last_max (\<lambda>a b. \<not> fl_lt F (bid_value F ms b) (bid_value F ms a)) x xs = last (x # xs)"
    if "\<forall>b \<in> insert x (set xs). bid_value F ms b = fl_int F 0" for x xs
    using that by (induction xs arbitrary: x) auto
  then have "fl_best F (bid_value F ms) bids = Some (last bids)"
    using assms(1) zero by (cases bids) (auto simp: fl_best_def)
  then show ?thesis by (simp only: strategy_select.simps select_bidding_def max Let_def option.map)
qed

definition sample_bid :: "ls_id \<Rightarrow> rat \<Rightarrow> rat swarm_bid" where
  "sample_bid i x = \<lparr>sb_agent_id = i, sb_agent_name = ''a'', sb_bid_score = x, sb_estimated_ms = 100, sb_rationale = [], sb_timestamp = 0\<rparr>"

theorem equal_bids_take_last_witness:
  "map_option (map_option sa_id) (strategy_select rat_ops BiddingStrategy (swarm_task_new 1 0 ''t'' ''d'' Null) []
     [sample_bid 1 (9 / 10), sample_bid 2 (1 / 10)]) = Some (Some 2)"
  using equal_bids_take_last [of "[sample_bid 1 (9 / 10), sample_bid 2 (1 / 10)]" 100 rat_ops "swarm_task_new 1 0 ''t'' ''d'' Null" "[]"]
  by (simp add: sample_bid_def agent_of_bid_def)

text \<open>The democratic strategy does not ask whether the agent of the best bid is still available.\<close>

lemma democratic_selects_busy:
  "strategy_select rat_ops DemocraticStrategy t [sample_swarm_agent 1 1 Busy, sample_swarm_agent 2 1 Idle] [sample_bid 1 1]
   = Some (Some (sample_swarm_agent 1 1 Busy))"
  by (simp add: select_democratic_def fl_best_def sample_bid_def sample_swarm_agent_def swarm_agent_new_def)

text \<open>Every result casts one vote, the swarm agrees exactly when the share of approvals reaches the threshold, and the
  decision is the output of a result that no other exceeds in confidence.\<close>

theorem voting_exact:
  assumes "rs \<noteq> []" "agents \<noteq> []" "evaluate_result F js sh (VotingStrategy threshold) t rs agents = Some c"
  shows "cr_total_votes c = length rs \<and> cr_yes_votes c + cr_no_votes c + cr_abstain_votes c = length rs
    \<and> cr_yes_votes c = length (filter (\<lambda>r. fl_le F (fl_dec F 7 1) (tr_confidence r)) rs)
    \<and> (cr_achieved c \<longleftrightarrow> fl_le F threshold (fl_div F (fl_int F (int (cr_yes_votes c))) (fl_int F (int (length rs)))))
    \<and> (\<exists>r \<in> set rs. cr_decision c = tr_output r
         \<and> (float_laws F \<and> (\<forall>r \<in> set rs. \<not> fl_nan F (tr_confidence r)) \<longrightarrow> (\<forall>r' \<in> set rs. \<not> fl_lt F (tr_confidence r) (tr_confidence r'))))"
proof -
  let ?votes = "map (\<lambda>r. vote_of F (tr_confidence r)) rs"
  have "count_list vs Yes + count_list vs No + count_list vs Abstain = length vs" for vs
  proof (induction vs)
    case (Cons v vs)
    then show ?case by (cases v) simp_all
  qed simp
  then have sum: "count_list ?votes Yes + count_list ?votes No + count_list ?votes Abstain = length rs" by simp
  have yes: "count_list ?votes Yes = length (filter (\<lambda>r. fl_le F (fl_dec F 7 1) (tr_confidence r)) rs)"
    by (induction rs) (auto simp: vote_of_def)
  obtain r where r: "fl_best F tr_confidence rs = Some r" using assms(1) by fastforce
  have out: "best_output F rs = tr_output r" by (simp add: best_output_def r)
  have best: "float_laws F \<and> (\<forall>r \<in> set rs. \<not> fl_nan F (tr_confidence r)) \<longrightarrow> (\<forall>r' \<in> set rs. \<not> fl_lt F (tr_confidence r) (tr_confidence r'))"
    using fl_best_greatest [OF _ _ r] by blast
  have c: "c = evaluate_voting F threshold rs agents" using assms(3) by simp
  have pos: "0 < length rs" using assms(1) by simp
  have "cr_total_votes c = length rs" "cr_yes_votes c + cr_no_votes c + cr_abstain_votes c = length rs"
    "cr_yes_votes c = count_list ?votes Yes" "cr_decision c = tr_output r"
    "cr_achieved c \<longleftrightarrow> fl_le F threshold (fl_div F (fl_int F (int (count_list ?votes Yes))) (fl_int F (int (length rs))))"
    using assms(1, 2) pos sum out unfolding c evaluate_voting_def Let_def by (simp_all add: approval_def)
  with yes best fl_best_mem [OF r] show ?thesis by auto
qed

definition sample_result :: "rat \<Rightarrow> json \<Rightarrow> rat swarm_task_result" where
  "sample_result x out = \<lparr>tr_task_id = 1, tr_agent_id = 2, tr_agent_name = ''a'', tr_output = out, tr_success = True,
     tr_execution_ms = 5, tr_confidence = x, tr_error = None, tr_started_at = 0, tr_completed_at = 5\<rparr>"

theorem voting_exact_witness:
  "\<exists>c. evaluate_result rat_ops (\<lambda>_. []) (\<lambda>_. []) (VotingStrategy (1 / 2)) (swarm_task_new 1 0 ''t'' ''d'' Null)
     [sample_result (3 / 4) Null, sample_result (1 / 2) (Bool True)] [sample_swarm_agent 1 1 Idle] = Some c
     \<and> cr_achieved c \<and> cr_decision c = Null"
proof -
  let ?rs = "[sample_result (3 / 4) Null, sample_result (1 / 2) (Bool True)]" and ?as = "[sample_swarm_agent 1 1 Idle]"
  let ?c = "evaluate_voting rat_ops (1 / 2) ?rs ?as"
  have "evaluate_result rat_ops (\<lambda>_. []) (\<lambda>_. []) (VotingStrategy (1 / 2)) (swarm_task_new 1 0 ''t'' ''d'' Null) ?rs ?as = Some ?c"
    by simp
  from voting_exact [OF _ _ this] this show ?thesis by (auto simp: sample_result_def fl_nan_def)
qed

end
