(* ===== verification/Swarm_Topology.thy ===== *)
theory Swarm_Topology
  imports Swarm_Types Std_Text
begin

text \<open>
  The topology of a swarm (\<open>swarm/src/topology.rs\<close>): which agents are neighbours, the changes of the topology,
  and the search that tells whether the graph is connected. The map of nodes is iterated in any order.
\<close>

section \<open>Data\<close>

record topology_node =
  tn_agent_id :: ls_id
  tn_neighbors :: "ls_id list"
  tn_level :: nat
  tn_parent :: "ls_id option"

record topology_switch =
  ts_from :: swarm_topology
  ts_to :: swarm_topology
  ts_reason :: string
  ts_timestamp :: int

record topology_manager =
  tm_current :: swarm_topology
  tm_nodes :: "(ls_id, topology_node) hmap"
  tm_switches :: "topology_switch list"

record 'f topology_stats =
  tp_topology :: swarm_topology
  tp_node_count :: nat
  tp_edge_count :: nat
  tp_avg_degree :: 'f
  tp_diameter :: nat
  tp_is_connected :: bool

definition topology_new :: "swarm_topology \<Rightarrow> topology_manager" where
  "topology_new t = \<lparr>tm_current = t, tm_nodes = [], tm_switches = []\<rparr>"

section \<open>Neighbours\<close>

definition index_of :: "ls_id \<Rightarrow> ls_id list \<Rightarrow> nat option" where
  "index_of i ids = find (\<lambda>k. ids ! k = i) [0..<length ids]"

definition other_ids :: "ls_id \<Rightarrow> ls_id list \<Rightarrow> ls_id list" where
  "other_ids i ids = filter (\<lambda>j. j \<noteq> i) ids"

definition star_neighbors :: "ls_id \<Rightarrow> ls_id list \<Rightarrow> ls_id list" where
  "star_neighbors i ids = (case ids of
       [] \<Rightarrow> []
     | center # _ \<Rightarrow> if center = i then other_ids i ids else [center])"

definition ring_neighbors :: "ls_id \<Rightarrow> ls_id list \<Rightarrow> ls_id list" where
  "ring_neighbors i ids = (case index_of i ids of
       None \<Rightarrow> []
     | Some pos \<Rightarrow> [ids ! ((pos + length ids - 1) mod length ids), ids ! ((pos + 1) mod length ids)])"

definition tree_neighbors :: "ls_id \<Rightarrow> ls_id list \<Rightarrow> ls_id list" where
  "tree_neighbors i ids = (case index_of i ids of
       None \<Rightarrow> []
     | Some idx \<Rightarrow> (if idx > 0 then [ids ! ((idx - 1) div 2)] else [])
         @ (if 2 * idx + 1 < length ids then [ids ! (2 * idx + 1)] else [])
         @ (if 2 * idx + 2 < length ids then [ids ! (2 * idx + 2)] else []))"

definition dynamic_neighbors :: "'f float_ops \<Rightarrow> ls_id \<Rightarrow> 'f swarm_agent list \<Rightarrow> ls_id list" where
  "dynamic_neighbors F i agents = (case find (\<lambda>a. sa_id a = i) agents of
       None \<Rightarrow> []
     | Some me \<Rightarrow>
         (let scored = map (\<lambda>a. (fl_abs F (fl_sub F (sa_capability_score me) (sa_capability_score a)), sa_id a))
                         (filter (\<lambda>a. sa_id a \<noteq> i) agents)
          in map snd (take 3 (fl_sort (\<lambda>p q. fl_lt F (fst p) (fst q)) scored))))"

definition calculate_neighbors :: "'f float_ops \<Rightarrow> ls_id \<Rightarrow> 'f swarm_agent list \<Rightarrow> swarm_topology \<Rightarrow> ls_id list" where
  "calculate_neighbors F i agents topology = (case topology of
       Mesh \<Rightarrow> other_ids i (map sa_id agents)
     | Star \<Rightarrow> star_neighbors i (map sa_id agents)
     | Ring \<Rightarrow> ring_neighbors i (map sa_id agents)
     | Tree \<Rightarrow> tree_neighbors i (map sa_id agents)
     | Dynamic \<Rightarrow> dynamic_neighbors F i agents)"

text \<open>The logarithm to base 2 is an argument; from index 1 on it is at least 1.\<close>

definition calculate_hierarchy :: "'f float_ops \<Rightarrow> ('f \<Rightarrow> 'f) \<Rightarrow> ls_id \<Rightarrow> ls_id list \<Rightarrow> swarm_topology \<Rightarrow> nat \<times> ls_id option" where
  "calculate_hierarchy F log2 i ids topology =
     (if topology = Tree \<or> topology = Star
      then (case index_of i ids of
              None \<Rightarrow> (0, None)
            | Some idx \<Rightarrow>
                if idx = 0 then (0, None)
                else (fl_to_uint F 64 (fl_ceil F (log2 (fl_add F (fl_int F (int idx)) (fl_int F 1)))) - 1,
                      Some (ids ! ((idx - 1) div 2))))
      else (0, None))"

definition topology_node_of :: "'f float_ops \<Rightarrow> ('f \<Rightarrow> 'f) \<Rightarrow> ls_id \<Rightarrow> 'f swarm_agent list \<Rightarrow> swarm_topology \<Rightarrow> topology_node" where
  "topology_node_of F log2 i agents topology =
     (let (level, parent) = calculate_hierarchy F log2 i (map sa_id agents) topology
      in \<lparr>tn_agent_id = i, tn_neighbors = calculate_neighbors F i agents topology, tn_level = level, tn_parent = parent\<rparr>)"

section \<open>Operations\<close>

definition topology_register ::
  "'f float_ops \<Rightarrow> ('f \<Rightarrow> 'f) \<Rightarrow> 'f swarm_agent \<Rightarrow> 'f swarm_agent list \<Rightarrow> topology_manager \<Rightarrow> topology_manager" where
  "topology_register F log2 a agents m =
     m\<lparr>tm_nodes := hm_insert (sa_id a) (topology_node_of F log2 (sa_id a) agents (tm_current m)) (tm_nodes m)\<rparr>"

definition topology_remove :: "ls_id \<Rightarrow> topology_manager \<Rightarrow> topology_manager" where
  "topology_remove i m = m\<lparr>tm_nodes := hm_map_values (\<lambda>_ n. n\<lparr>tn_neighbors := filter (\<lambda>j. j \<noteq> i) (tn_neighbors n)\<rparr>)
     (hm_remove i (tm_nodes m))\<rparr>"

definition get_neighbors :: "ls_id \<Rightarrow> topology_manager \<Rightarrow> ls_id list" where
  "get_neighbors i m = (case hm_get (tm_nodes m) i of Some n \<Rightarrow> tn_neighbors n | None \<Rightarrow> [])"

fun swarm_topology_debug :: "swarm_topology \<Rightarrow> string" where
  "swarm_topology_debug Star = ''Star''"
| "swarm_topology_debug Mesh = ''Mesh''"
| "swarm_topology_debug Ring = ''Ring''"
| "swarm_topology_debug Tree = ''Tree''"
| "swarm_topology_debug Dynamic = ''Dynamic''"

definition switch_topology ::
  "'f float_ops \<Rightarrow> ('f \<Rightarrow> 'f) \<Rightarrow> int \<Rightarrow> swarm_topology \<Rightarrow> 'f swarm_agent list \<Rightarrow> topology_manager \<Rightarrow> topology_manager" where
  "switch_topology F log2 now t agents m =
     (if tm_current m = t then m
      else m\<lparr>tm_current := t,
             tm_nodes := fold (\<lambda>a nodes. hm_insert (sa_id a) (topology_node_of F log2 (sa_id a) agents t) nodes) agents (tm_nodes m),
             tm_switches := tm_switches m @ [\<lparr>ts_from = tm_current m, ts_to = t,
               ts_reason = ''Topology change: '' @ swarm_topology_debug (tm_current m) @ '' '' @ utf8 [226, 134, 146] @ '' '' @ swarm_topology_debug t,
               ts_timestamp = now\<rparr>]\<rparr>)"

definition adaptive_topology :: "'f swarm_state \<Rightarrow> swarm_topology" where
  "adaptive_topology s =
     (let n = agent_count s
      in if n \<le> 3 then Mesh
         else if n \<le> 10 then Star
         else if n \<le> 20 then Tree
         else if busy_agent_count s > available_agent_count s * 2 then Ring
         else Dynamic)"

section \<open>The search for connected nodes\<close>

text \<open>A search over the stack; identifiers that are neighbours but no nodes are visited as well. The number of
  identifiers not visited goes down, or the stack gets shorter.\<close>

definition node_links :: "(ls_id, topology_node) hmap \<Rightarrow> ls_id \<Rightarrow> ls_id list" where
  "node_links nodes i = (case hm_get nodes i of Some n \<Rightarrow> tn_neighbors n | None \<Rightarrow> [])"

definition known_ids :: "(ls_id, topology_node) hmap \<Rightarrow> ls_id set" where
  "known_ids nodes = (\<Union>n \<in> set (hm_values nodes). set (tn_neighbors n))"

lemma node_links_known: "set (node_links nodes i) \<subseteq> known_ids nodes"
proof (cases "hm_get nodes i")
  case (Some n)
  then have "n \<in> set (hm_values nodes)" using image_eqI [of n snd "(i, n)" "set nodes"] by (auto dest: map_of_SomeD)
  with Some show ?thesis by (auto simp: node_links_def known_ids_def)
qed (simp add: node_links_def)

function topo_search :: "(ls_id, topology_node) hmap \<Rightarrow> ls_id set \<Rightarrow> ls_id list \<Rightarrow> ls_id set" where
  "topo_search nodes visited [] = visited"
| "topo_search nodes visited (i # stack) =
     (if i \<in> visited then topo_search nodes visited stack
      else topo_search nodes (insert i visited) (rev (filter (\<lambda>j. j \<notin> insert i visited) (node_links nodes i)) @ stack))"
  by pat_completeness auto
termination
proof (relation "measures [\<lambda>(nodes, visited, stack). card ((known_ids nodes \<union> set stack) - visited), \<lambda>(nodes, visited, stack). length stack]")
  show "((nodes, visited, stack), nodes, visited, i # stack) \<in>
      measures [\<lambda>(nodes, visited, stack). card ((known_ids nodes \<union> set stack) - visited), \<lambda>(nodes, visited, stack). length stack]"
    if "i \<in> visited" for nodes :: "(ls_id, topology_node) hmap" and visited i stack
    using that by (simp add: insert_Diff_if)
  show "((nodes, insert i visited, rev (filter (\<lambda>j. j \<notin> insert i visited) (node_links nodes i)) @ stack), nodes, visited, i # stack) \<in>
      measures [\<lambda>(nodes, visited, stack). card ((known_ids nodes \<union> set stack) - visited), \<lambda>(nodes, visited, stack). length stack]"
    if "i \<notin> visited" for nodes :: "(ls_id, topology_node) hmap" and visited i stack
  proof -
    have "finite (known_ids nodes)" by (simp add: known_ids_def)
    moreover have "(known_ids nodes \<union> set (rev (filter (\<lambda>j. j \<notin> insert i visited) (node_links nodes i)) @ stack)) - insert i visited
        \<subset> (known_ids nodes \<union> set (i # stack)) - visited"
      using that node_links_known [of nodes i] by auto
    ultimately show ?thesis by (auto intro!: psubset_card_mono)
  qed
qed simp

definition topology_stats_of :: "'f float_ops \<Rightarrow> topology_manager \<Rightarrow> 'f topology_stats" where
  "topology_stats_of F m =
     (let nodes = tm_nodes m; node_count = length nodes;
          edge_count = sum_list (map (\<lambda>n. length (tn_neighbors n)) (hm_values nodes)) div 2
      in \<lparr>tp_topology = tm_current m, tp_node_count = node_count, tp_edge_count = edge_count,
          tp_avg_degree = (if node_count > 0 then fl_div F (fl_int F (int edge_count)) (fl_int F (int node_count)) else fl_int F 0),
          tp_diameter = node_count,
          tp_is_connected = (case nodes of
              [] \<Rightarrow> True
            | (i, _) # rest \<Rightarrow> rest = [] \<or> card (topo_search nodes {} [i]) = node_count)\<rparr>)"

section \<open>Neighbours are mutual\<close>

lemma index_of_nth: "distinct ids \<Longrightarrow> k < length ids \<Longrightarrow> index_of (ids ! k) ids = Some k"
  by (auto simp: index_of_def find_Some_iff nth_eq_iff_index_eq intro!: exI [of _ k])

lemma index_of_Some: "index_of i ids = Some k \<Longrightarrow> k < length ids \<and> ids ! k = i"
  unfolding index_of_def by (drule find_mem) auto

lemma index_of_None: "index_of i ids = None \<Longrightarrow> i \<notin> set ids"
  by (auto simp: index_of_def find_None_iff in_set_conv_nth)

lemma star_mutual: "distinct ids \<Longrightarrow> i \<in> set ids \<Longrightarrow> j \<in> set ids \<Longrightarrow> j \<in> set (star_neighbors i ids) \<Longrightarrow> i \<in> set (star_neighbors j ids)"
  by (cases ids) (auto simp: star_neighbors_def other_ids_def split: if_splits)

lemma ring_mutual:
  assumes "distinct ids" "j \<in> set (ring_neighbors i ids)"
  shows "i \<in> set (ring_neighbors j ids)"
proof -
  let ?n = "length ids"
  from assms(2) obtain k where k: "index_of i ids = Some k" by (cases "index_of i ids") (auto simp: ring_neighbors_def)
  with index_of_Some have i: "k < ?n" "i = ids ! k" by auto
  have step: "index_of (ids ! ((k + d) mod ?n)) ids = Some ((k + d) mod ?n)" for d
    using i(1) by (intro index_of_nth assms(1) mod_less_divisor) linarith
  from assms(2) k i consider "j = ids ! ((k + (?n - 1)) mod ?n)" | "j = ids ! ((k + 1) mod ?n)"
    by (auto simp: ring_neighbors_def)
  then show ?thesis
  proof cases
    case 1
    have "((k + (?n - 1)) mod ?n + 1) mod ?n = (k + (?n - 1) + 1) mod ?n" by (rule mod_add_left_eq)
    also have "k + (?n - 1) + 1 = k + ?n" using i(1) by linarith
    also have "(k + ?n) mod ?n = k" using i(1) by simp
    finally show ?thesis using step [of "?n - 1"] 1 i(2) by (simp add: ring_neighbors_def)
  next
    case 2
    have "((k + 1) mod ?n + (?n - 1)) mod ?n = (k + 1 + (?n - 1)) mod ?n" by (rule mod_add_left_eq)
    also have "k + 1 + (?n - 1) = k + ?n" using i(1) by linarith
    also have "(k + ?n) mod ?n = k" using i(1) by simp
    also have "(k + 1) mod ?n + (?n - 1) = (k + 1) mod ?n + ?n - 1" using i(1) by linarith
    finally have "((k + 1) mod ?n + ?n - 1) mod ?n = k" .
    then show ?thesis using step [of 1] 2 i(2) by (simp add: ring_neighbors_def)
  qed
qed

lemma tree_mutual:
  assumes "distinct ids" "j \<in> set (tree_neighbors i ids)"
  shows "i \<in> set (tree_neighbors j ids)"
proof -
  let ?n = "length ids"
  from assms(2) obtain k where k: "index_of i ids = Some k" by (cases "index_of i ids") (auto simp: tree_neighbors_def)
  with index_of_Some have i: "k < ?n" "i = ids ! k" by auto
  from assms(2) k consider "0 < k" "j = ids ! ((k - 1) div 2)"
    | "2 * k + 1 < ?n" "j = ids ! (2 * k + 1)" | "2 * k + 2 < ?n" "j = ids ! (2 * k + 2)"
    by (auto simp: tree_neighbors_def split: if_splits)
  then show ?thesis
  proof cases
    case 1
    let ?p = "(k - 1) div 2"
    have p: "?p < ?n" using i(1) by linarith
    have "k = 2 * ?p + 1 \<or> k = 2 * ?p + 2" using 1(1) by presburger
    then show ?thesis using index_of_nth [OF assms(1) p] 1 i by (auto simp: tree_neighbors_def)
  next
    case 2
    then show ?thesis using index_of_nth [OF assms(1) 2(1)] i by (simp add: tree_neighbors_def)
  next
    case 3
    have "(2 * k + 2 - 1) div 2 = k" by simp
    then show ?thesis using index_of_nth [OF assms(1) 3(1)] i 3(2) by (simp add: tree_neighbors_def)
  qed
qed

lemma calculate_mutual:
  assumes "distinct (map sa_id agents)" "i \<in> sa_id ` set agents" "j \<in> sa_id ` set agents" "t \<noteq> Dynamic"
    and "j \<in> set (calculate_neighbors F i agents t)"
  shows "i \<in> set (calculate_neighbors F j agents t)"
  using assms star_mutual [of "map sa_id agents" i j] ring_mutual [of "map sa_id agents" j i] tree_mutual [of "map sa_id agents" j i]
  by (cases t) (auto simp: calculate_neighbors_def other_ids_def)

lemma tn_neighbors_of: "tn_neighbors (topology_node_of F log2 i agents t) = calculate_neighbors F i agents t"
  by (simp add: topology_node_of_def case_prod_unfold Let_def)

lemma hm_get_fold_insert:
  "hm_get (fold (\<lambda>a nodes. hm_insert (f a) (g (f a)) nodes) xs nodes) i = (if i \<in> f ` set xs then Some (g i) else hm_get nodes i)"
  by (induction xs arbitrary: nodes) auto

text \<open>After a change to a star, mesh, ring or tree of agents with different identifiers, neighbours are mutual: whoever can
  reach an agent directly is reached by it. All of the agents have a node with the new neighbours.\<close>

theorem switched_mutual:
  assumes "distinct (map sa_id agents)" "t \<noteq> Dynamic" "tm_current m \<noteq> t" "i \<in> sa_id ` set agents" "j \<in> sa_id ` set agents"
  shows "j \<in> set (get_neighbors i (switch_topology F log2 now t agents m))
    \<longleftrightarrow> i \<in> set (get_neighbors j (switch_topology F log2 now t agents m))"
proof -
  have "get_neighbors k (switch_topology F log2 now t agents m) = calculate_neighbors F k agents t" if "k \<in> sa_id ` set agents" for k
    using assms(3) that hm_get_fold_insert [of sa_id "\<lambda>i. topology_node_of F log2 i agents t" agents "tm_nodes m" k]
    by (simp add: get_neighbors_def switch_topology_def tn_neighbors_of)
  then show ?thesis
    using calculate_mutual [OF assms(1, 4, 5, 2)] calculate_mutual [OF assms(1, 5, 4, 2)] assms(4, 5) by auto
qed

theorem switched_mutual_witness:
  "let agents = map (\<lambda>i. swarm_agent_new rat_ops i 0 ''a'' Executor) [3, 5, 7];
       m = switch_topology rat_ops id 0 Ring agents (topology_new Mesh)
   in 5 \<in> set (get_neighbors 3 m) \<longleftrightarrow> 3 \<in> set (get_neighbors 5 m)"
  unfolding Let_def by (rule switched_mutual) (simp_all add: swarm_agent_new_def topology_new_def)

text \<open>Registering an agent gives it its neighbours, but not to the others: the second agent of a mesh has the
  first as a neighbour, and the first has none. A ring of one agent is its own neighbour twice.\<close>

lemma register_one_sided:
  assumes "sa_id a \<noteq> sa_id b"
  shows "let m = topology_register F log2 b [a, b] (topology_register F log2 a [a] (topology_new Mesh))
    in get_neighbors (sa_id b) m = [sa_id a] \<and> get_neighbors (sa_id a) m = []"
  using assms by (simp add: topology_register_def topology_new_def get_neighbors_def topology_node_of_def case_prod_unfold
      calculate_neighbors_def other_ids_def Let_def)

lemma ring_of_one: "ring_neighbors i [i] = [i, i]"
  by (simp add: ring_neighbors_def index_of_def)

text \<open>The parents of a star are those of a binary tree and not its center; and the first child of the root of a tree is on the
  level of the root.\<close>

lemma star_parent_not_center:
  assumes "distinct [a, b, c, d]"
  shows "snd (calculate_hierarchy F log2 d [a, b, c, d] Star) = Some b" "calculate_neighbors F d (map (\<lambda>i. swarm_agent_new F i now n r) [a, b, c, d]) Star = [a]"
  using assms index_of_nth [OF assms, of 3]
  by (simp_all add: calculate_hierarchy_def calculate_neighbors_def star_neighbors_def swarm_agent_new_def)

lemma first_child_level:
  assumes "a \<noteq> b" "log2 2 = 1"
  shows "calculate_hierarchy rat_ops log2 b [a, b] Tree = (0, Some a)"
  using assms index_of_nth [of "[a, b]" 1] by (simp add: calculate_hierarchy_def fl_to_uint_def)

section \<open>Connected nodes\<close>

definition links :: "(ls_id, topology_node) hmap \<Rightarrow> (ls_id \<times> ls_id) set" where
  "links nodes = {(i, j). j \<in> set (node_links nodes i)}"

lemma topo_search_inv:
  assumes "visited \<union> set stack \<subseteq> (links nodes)\<^sup>* `` {s}" "s \<in> visited \<union> set stack" "links nodes `` visited \<subseteq> visited \<union> set stack"
  shows "topo_search nodes visited stack \<subseteq> (links nodes)\<^sup>* `` {s} \<and> s \<in> topo_search nodes visited stack
    \<and> links nodes `` topo_search nodes visited stack \<subseteq> topo_search nodes visited stack"
  using assms
proof (induction nodes visited stack rule: topo_search.induct)
  case (1 nodes visited)
  then show ?case by simp
next
  case (2 nodes visited i stack)
  show ?case
  proof (cases "i \<in> visited")
    case True
    with "2.IH"(1) "2.prems" show ?thesis by (auto simp: insert_absorb)
  next
    case False
    let ?stack = "rev (filter (\<lambda>j. j \<notin> insert i visited) (node_links nodes i)) @ stack"
    have i: "(s, i) \<in> (links nodes)\<^sup>*" using "2.prems"(1) by auto
    have "set (node_links nodes i) \<subseteq> (links nodes)\<^sup>* `` {s}"
      using rtrancl_into_rtrancl [OF i] by (auto simp: links_def)
    then have "insert i visited \<union> set ?stack \<subseteq> (links nodes)\<^sup>* `` {s}" using "2.prems"(1) by auto
    moreover have "s \<in> insert i visited \<union> set ?stack" using "2.prems"(2) by auto
    moreover have "links nodes `` insert i visited \<subseteq> insert i visited \<union> set ?stack"
      using "2.prems"(3) by (auto simp: links_def)
    ultimately show ?thesis using "2.IH"(2) [OF False] False by simp
  qed
qed

text \<open>The search visits exactly the identifiers reachable from the first node over neighbours.\<close>

lemma topo_search_exact: "topo_search nodes {} [s] = (links nodes)\<^sup>* `` {s}"
proof -
  have inv: "topo_search nodes {} [s] \<subseteq> (links nodes)\<^sup>* `` {s}" "s \<in> topo_search nodes {} [s]"
    "links nodes `` topo_search nodes {} [s] \<subseteq> topo_search nodes {} [s]"
    using topo_search_inv [of "{}" "[s]" nodes s] by auto
  have "j \<in> topo_search nodes {} [s]" if "(s, j) \<in> (links nodes)\<^sup>*" for j
    using that by (induction rule: rtrancl_induct) (use inv in auto)
  with inv(1) show ?thesis by auto
qed

theorem connected_exact:
  "tp_is_connected (topology_stats_of F m) \<longleftrightarrow> (case tm_nodes m of [] \<Rightarrow> True
     | (i, _) # rest \<Rightarrow> rest = [] \<or> card ((links (tm_nodes m))\<^sup>* `` {i}) = length (tm_nodes m))"
  unfolding topology_stats_of_def Let_def topo_search_exact by (auto simp del: topo_search.simps split: list.split)

end
