(* ===== verification/Swarm_Comm.thy ===== *)
theory Swarm_Comm
  imports Swarm_Types Std_Text
begin

text \<open>
  The channel by which the agents of a swarm talk (\<open>swarm/src/communication.rs\<close>). The broadcast channel of the
  runtime keeps its last 1024 messages: it is the list of all messages sent and the position of each reader, and a
  reader left behind skips what is gone. A direct channel is an inbox, open while its receiver exists. Handles
  of readers and inboxes are numbers.
\<close>

section \<open>Messages\<close>

datatype swarm_msg_type = TaskAssignment | TaskResult | BidMsg | VoteMsg | Negotiation | Notification | HeartbeatMsg
  | StateSync | CapabilityAnnounce | ErrorMsg | Query | Response | Emergency

fun swarm_msg_type_text :: "swarm_msg_type \<Rightarrow> string" where
  "swarm_msg_type_text TaskAssignment = ''task_assignment''"
| "swarm_msg_type_text TaskResult = ''task_result''"
| "swarm_msg_type_text BidMsg = ''bid''"
| "swarm_msg_type_text VoteMsg = ''vote''"
| "swarm_msg_type_text Negotiation = ''negotiation''"
| "swarm_msg_type_text Notification = ''notification''"
| "swarm_msg_type_text HeartbeatMsg = ''heartbeat''"
| "swarm_msg_type_text StateSync = ''state_sync''"
| "swarm_msg_type_text CapabilityAnnounce = ''capability_announce''"
| "swarm_msg_type_text ErrorMsg = ''error''"
| "swarm_msg_type_text Query = ''query''"
| "swarm_msg_type_text Response = ''response''"
| "swarm_msg_type_text Emergency = ''emergency''"

record swarm_message =
  sg_id :: ls_id
  sg_type :: swarm_msg_type
  sg_sender :: ls_id
  sg_sender_name :: string
  sg_target :: "ls_id option"
  sg_payload :: json
  sg_timestamp :: int
  sg_requires_ack :: bool
  sg_ttl :: nat

definition swarm_message_new :: "ls_id \<Rightarrow> int \<Rightarrow> swarm_msg_type \<Rightarrow> ls_id \<Rightarrow> string \<Rightarrow> json \<Rightarrow> swarm_message" where
  "swarm_message_new fresh now t i n payload = \<lparr>sg_id = fresh, sg_type = t, sg_sender = i, sg_sender_name = n, sg_target = None,
     sg_payload = payload, sg_timestamp = now, sg_requires_ack = False, sg_ttl = 3\<rparr>"

definition message_to :: "ls_id \<Rightarrow> swarm_message \<Rightarrow> swarm_message" where
  "message_to i m = m\<lparr>sg_target := Some i\<rparr>"

definition with_ack :: "swarm_message \<Rightarrow> swarm_message" where
  "with_ack m = m\<lparr>sg_requires_ack := True\<rparr>"

section \<open>The channel\<close>

record swarm_channel =
  wc_sent :: "swarm_message list"
  wc_readers :: "(nat, nat) hmap"
  wc_direct :: "(ls_id \<times> nat) list"
  wc_inboxes :: "(nat, swarm_message list) hmap"
  wc_next :: nat
  wc_history :: "swarm_message list"
  wc_max_history :: nat

definition swarm_channel_new :: "nat \<Rightarrow> swarm_channel" where
  "swarm_channel_new max_history = \<lparr>wc_sent = [], wc_readers = [], wc_direct = [], wc_inboxes = [], wc_next = 0,
     wc_history = [], wc_max_history = max_history\<rparr>"

definition channel_subscribe :: "swarm_channel \<Rightarrow> nat \<times> swarm_channel" where
  "channel_subscribe c = (wc_next c, c\<lparr>wc_readers := hm_insert (wc_next c) (length (wc_sent c)) (wc_readers c), wc_next := wc_next c + 1\<rparr>)"

definition channel_register :: "ls_id \<Rightarrow> swarm_channel \<Rightarrow> nat \<times> swarm_channel" where
  "channel_register i c = (wc_next c, c\<lparr>wc_direct := wc_direct c @ [(i, wc_next c)], wc_inboxes := hm_insert (wc_next c) [] (wc_inboxes c),
     wc_next := wc_next c + 1\<rparr>)"

definition channel_unregister :: "ls_id \<Rightarrow> swarm_channel \<Rightarrow> swarm_channel" where
  "channel_unregister i c = c\<lparr>wc_direct := filter (\<lambda>(j, h). j \<noteq> i) (wc_direct c)\<rparr>"

definition broadcast_out :: "swarm_message \<Rightarrow> swarm_channel \<Rightarrow> string + swarm_channel" where
  "broadcast_out m c = (if wc_readers c = [] then Inl ''broadcast failed: channel closed''
     else Inr (c\<lparr>wc_sent := wc_sent c @ [m]\<rparr>))"

text \<open>The text of an identifier is an argument.\<close>

definition send_direct :: "(ls_id \<Rightarrow> string) \<Rightarrow> ls_id \<Rightarrow> swarm_message \<Rightarrow> swarm_channel \<Rightarrow> string + swarm_channel" where
  "send_direct id_text i m c = (case find (\<lambda>(j, h). j = i) (wc_direct c) of
       None \<Rightarrow> Inl (''Agent '' @ id_text i @ '' not registered'')
     | Some (_, h) \<Rightarrow> (case hm_get (wc_inboxes c) h of
           None \<Rightarrow> Inl ''Receiver channel closed''
         | Some q \<Rightarrow> Inr (c\<lparr>wc_inboxes := hm_insert h (q @ [m]) (wc_inboxes c)\<rparr>)))"

definition record_history :: "swarm_message \<Rightarrow> swarm_channel \<Rightarrow> swarm_channel" where
  "record_history m c = (let h = wc_history c @ [m] in c\<lparr>wc_history := if length h > wc_max_history c then tl h else h\<rparr>)"

definition swarm_send :: "(ls_id \<Rightarrow> string) \<Rightarrow> swarm_message \<Rightarrow> swarm_channel \<Rightarrow> (string + unit) \<times> swarm_channel" where
  "swarm_send id_text m c =
     (case (case sg_target m of None \<Rightarrow> broadcast_out m c | Some i \<Rightarrow> send_direct id_text i m c) of
        Inl e \<Rightarrow> (Inl e, c)
      | Inr c' \<Rightarrow> (Inr (), record_history m c'))"

definition messages_by_type :: "swarm_msg_type \<Rightarrow> swarm_channel \<Rightarrow> swarm_message list" where
  "messages_by_type t c = filter (\<lambda>m. sg_type m = t) (wc_history c)"

section \<open>An agent's end of the channel\<close>

record swarm_communicator =
  cm_agent :: ls_id
  cm_name :: string
  cm_reader :: nat
  cm_inbox :: "nat option"

definition communicator_new :: "ls_id \<Rightarrow> string \<Rightarrow> swarm_channel \<Rightarrow> swarm_communicator \<times> swarm_channel" where
  "communicator_new i n c = (let (h, c') = channel_subscribe c
     in (\<lparr>cm_agent = i, cm_name = n, cm_reader = h, cm_inbox = None\<rparr>, c'))"

text \<open>The receiver of an earlier initialisation is dropped, which closes its inbox, and the registration stays.\<close>

definition close_inbox :: "nat option \<Rightarrow> swarm_channel \<Rightarrow> swarm_channel" where
  "close_inbox h c = (case h of None \<Rightarrow> c | Some h \<Rightarrow> c\<lparr>wc_inboxes := hm_remove h (wc_inboxes c)\<rparr>)"

definition communicator_init :: "swarm_communicator \<Rightarrow> swarm_channel \<Rightarrow> swarm_communicator \<times> swarm_channel" where
  "communicator_init a c = (let (h, c') = channel_register (cm_agent a) c
     in (a\<lparr>cm_inbox := Some h\<rparr>, close_inbox (cm_inbox a) c'))"

definition communicator_drop :: "swarm_communicator \<Rightarrow> swarm_channel \<Rightarrow> swarm_channel" where
  "communicator_drop a c = close_inbox (cm_inbox a) (c\<lparr>wc_readers := hm_remove (cm_reader a) (wc_readers c)\<rparr>)"

definition communicator_send ::
  "(ls_id \<Rightarrow> string) \<Rightarrow> ls_id \<Rightarrow> int \<Rightarrow> swarm_msg_type \<Rightarrow> json \<Rightarrow> swarm_communicator \<Rightarrow> swarm_channel \<Rightarrow> (string + unit) \<times> swarm_channel" where
  "communicator_send id_text fresh now t payload a c = swarm_send id_text (swarm_message_new fresh now t (cm_agent a) (cm_name a) payload) c"

definition communicator_send_to ::
  "(ls_id \<Rightarrow> string) \<Rightarrow> ls_id \<Rightarrow> int \<Rightarrow> ls_id \<Rightarrow> swarm_msg_type \<Rightarrow> json \<Rightarrow> swarm_communicator \<Rightarrow> swarm_channel
     \<Rightarrow> (string + unit) \<times> swarm_channel" where
  "communicator_send_to id_text fresh now target t payload a c =
     swarm_send id_text (message_to target (swarm_message_new fresh now t (cm_agent a) (cm_name a) payload)) c"

text \<open>A reader more than 1024 messages behind gets an error once, which reads as no message, and goes on with the oldest kept.\<close>

definition recv_broadcast :: "swarm_communicator \<Rightarrow> swarm_channel \<Rightarrow> swarm_message option \<times> swarm_channel" where
  "recv_broadcast a c = (case hm_get (wc_readers c) (cm_reader a) of
       None \<Rightarrow> (None, c)
     | Some p \<Rightarrow>
         if p = length (wc_sent c) then (None, c)
         else if length (wc_sent c) - p > 1024
              then (None, c\<lparr>wc_readers := hm_insert (cm_reader a) (length (wc_sent c) - 1024) (wc_readers c)\<rparr>)
         else (Some (wc_sent c ! p), c\<lparr>wc_readers := hm_insert (cm_reader a) (p + 1) (wc_readers c)\<rparr>))"

definition recv_direct :: "swarm_communicator \<Rightarrow> swarm_channel \<Rightarrow> swarm_message option \<times> swarm_channel" where
  "recv_direct a c = (case cm_inbox a of
       None \<Rightarrow> (None, c)
     | Some h \<Rightarrow> (case hm_get (wc_inboxes c) h of
           Some (m # q) \<Rightarrow> (Some m, c\<lparr>wc_inboxes := hm_insert h q (wc_inboxes c)\<rparr>)
         | _ \<Rightarrow> (None, c)))"

definition communicator_shutdown :: "swarm_communicator \<Rightarrow> swarm_channel \<Rightarrow> swarm_channel" where
  "communicator_shutdown a c = channel_unregister (cm_agent a) c"

section \<open>Handles\<close>

text \<open>Handles in use are below the next one, and a reader's position is in the list of messages.\<close>

definition channel_ok :: "swarm_channel \<Rightarrow> bool" where
  "channel_ok c \<longleftrightarrow> (\<forall>h \<in> hm_dom (wc_readers c). h < wc_next c) \<and> (\<forall>h \<in> hm_dom (wc_inboxes c). h < wc_next c)
     \<and> (\<forall>(i, h) \<in> set (wc_direct c). h < wc_next c)
     \<and> (\<forall>h p. hm_get (wc_readers c) h = Some p \<longrightarrow> p \<le> length (wc_sent c))
     \<and> length (wc_history c) \<le> wc_max_history c"

lemma channel_ok_new: "channel_ok (swarm_channel_new k)"
  by (simp add: channel_ok_def swarm_channel_new_def)

lemma channel_ok_subscribe: "channel_ok c \<Longrightarrow> channel_ok (snd (channel_subscribe c))"
  by (fastforce simp: channel_ok_def channel_subscribe_def less_Suc_eq)

lemma channel_ok_register: "channel_ok c \<Longrightarrow> channel_ok (snd (channel_register i c))"
  by (fastforce simp: channel_ok_def channel_register_def less_Suc_eq)

lemma channel_ok_unregister: "channel_ok c \<Longrightarrow> channel_ok (channel_unregister i c)"
  by (auto simp: channel_ok_def channel_unregister_def)

lemma channel_ok_close: "channel_ok c \<Longrightarrow> channel_ok (close_inbox h c)"
  by (auto simp: channel_ok_def close_inbox_def split: option.splits)

lemma channel_ok_record: "channel_ok c \<Longrightarrow> channel_ok (record_history m c)"
  by (auto simp: channel_ok_def record_history_def Let_def)

lemma channel_ok_broadcast: "channel_ok c \<Longrightarrow> broadcast_out m c = Inr c' \<Longrightarrow> channel_ok c'"
  by (fastforce simp: channel_ok_def broadcast_out_def le_Suc_eq split: if_splits)

lemma send_direct_Inr: "send_direct f i m c = Inr c' \<longleftrightarrow>
    (\<exists>j h q. find (\<lambda>(j, h). j = i) (wc_direct c) = Some (j, h) \<and> hm_get (wc_inboxes c) h = Some q
       \<and> c' = c\<lparr>wc_inboxes := hm_insert h (q @ [m]) (wc_inboxes c)\<rparr>)"
  by (auto simp: send_direct_def split: option.split)

lemma channel_ok_direct: "channel_ok c \<Longrightarrow> send_direct f i m c = Inr c' \<Longrightarrow> channel_ok c'"
  unfolding send_direct_Inr by (fastforce simp: channel_ok_def dest: hm_get_dom)

lemma channel_ok_send:
  assumes "channel_ok c"
  shows "channel_ok (snd (swarm_send f m c))"
proof (cases "case sg_target m of None \<Rightarrow> broadcast_out m c | Some i \<Rightarrow> send_direct f i m c")
  case (Inr c')
  then have "channel_ok c'"
    using channel_ok_broadcast [OF assms] channel_ok_direct [OF assms] by (cases "sg_target m") simp_all
  with Inr show ?thesis using channel_ok_record by (simp add: swarm_send_def)
qed (simp add: swarm_send_def assms)

lemma channel_ok_recv: "channel_ok c \<Longrightarrow> channel_ok (snd (recv_broadcast a c))"
  unfolding channel_ok_def recv_broadcast_def
  by (auto simp: Suc_le_eq le_neq_implies_less dest: hm_get_dom split: option.split)

section \<open>What is received\<close>

text \<open>What a reader has still to see, and what a broadcast and a reception do to it.\<close>

definition unread :: "swarm_communicator \<Rightarrow> swarm_channel \<Rightarrow> swarm_message list" where
  "unread a c = (case hm_get (wc_readers c) (cm_reader a) of None \<Rightarrow> [] | Some p \<Rightarrow> drop p (wc_sent c))"

lemma recv_unread:
  assumes "channel_ok c" "length (unread a c) \<le> 1024"
  shows "fst (recv_broadcast a c) = (case unread a c of [] \<Rightarrow> None | m # _ \<Rightarrow> Some m)
    \<and> unread a (snd (recv_broadcast a c)) = tl (unread a c)"
proof (cases "hm_get (wc_readers c) (cm_reader a)")
  case (Some p)
  with assms(1) have "p \<le> length (wc_sent c)" by (auto simp: channel_ok_def)
  with Some assms(2) show ?thesis
    by (cases "p = length (wc_sent c)") (auto simp: recv_broadcast_def unread_def Cons_nth_drop_Suc [symmetric] tl_drop drop_Suc)
qed (simp add: recv_broadcast_def unread_def)

lemma recv_lagged:
  assumes "channel_ok c" "length (unread a c) > 1024"
  shows "fst (recv_broadcast a c) = None
    \<and> unread a (snd (recv_broadcast a c)) = drop (length (unread a c) - 1024) (unread a c)"
  using assms by (auto simp: recv_broadcast_def unread_def split: option.splits)

text \<open>A message sent without a target is put at the end of what every reader has to see, or fails when nobody reads;
  one with a target goes to the end of the first inbox registered for it only.\<close>

lemma unread_record [simp]: "unread a (record_history m c) = unread a c"
  by (simp add: unread_def record_history_def Let_def split: option.split)

lemma unread_broadcast:
  assumes "channel_ok c" "sg_target m = None" "cm_reader a \<in> hm_dom (wc_readers c)"
  shows "fst (swarm_send f m c) = Inr () \<and> unread a (snd (swarm_send f m c)) = unread a c @ [m]
    \<and> wc_readers (snd (swarm_send f m c)) = wc_readers c"
proof -
  obtain p where p: "hm_get (wc_readers c) (cm_reader a) = Some p" using hm_dom_get [OF assms(3)] by auto
  with assms(1) have "p \<le> length (wc_sent c)" by (auto simp: channel_ok_def)
  moreover have "wc_readers c \<noteq> []" using assms(3) by auto
  ultimately show ?thesis
    using p assms(2) by (simp add: swarm_send_def broadcast_out_def unread_def record_history_def Let_def)
qed

lemma broadcast_without_readers:
  "wc_readers c = [] \<Longrightarrow> sg_target m = None \<Longrightarrow> swarm_send f m c = (Inl ''broadcast failed: channel closed'', c)"
  by (simp add: swarm_send_def broadcast_out_def)

lemma direct_exact:
  assumes "sg_target m = Some i"
  shows "swarm_send f m c = (case find (\<lambda>(j, h). j = i) (wc_direct c) of
      None \<Rightarrow> (Inl (''Agent '' @ f i @ '' not registered''), c)
    | Some (_, h) \<Rightarrow> (case hm_get (wc_inboxes c) h of
          None \<Rightarrow> (Inl ''Receiver channel closed'', c)
        | Some q \<Rightarrow> (Inr (), record_history m (c\<lparr>wc_inboxes := hm_insert h (q @ [m]) (wc_inboxes c)\<rparr>))))"
  using assms by (auto simp: swarm_send_def send_direct_def split: option.split)

lemma history_last: "wc_max_history c > 0 \<Longrightarrow> wc_history c = h \<Longrightarrow> last (wc_history (record_history m c)) = m"
  by (cases h) (simp_all add: record_history_def Let_def)

section \<open>Broadcasts are read back\<close>

fun send_all :: "(ls_id \<Rightarrow> string) \<Rightarrow> swarm_message list \<Rightarrow> swarm_channel \<Rightarrow> swarm_channel" where
  "send_all f [] c = c"
| "send_all f (m # ms) c = send_all f ms (snd (swarm_send f m c))"

fun recv_times :: "nat \<Rightarrow> swarm_communicator \<Rightarrow> swarm_channel \<Rightarrow> swarm_message option list" where
  "recv_times 0 a c = []"
| "recv_times (Suc n) a c = (let (r, c') = recv_broadcast a c in r # recv_times n a c')"

lemma send_all_unread:
  assumes "channel_ok c" "\<forall>m \<in> set ms. sg_target m = None" "cm_reader a \<in> hm_dom (wc_readers c)"
  shows "channel_ok (send_all f ms c) \<and> unread a (send_all f ms c) = unread a c @ ms"
  using assms
proof (induction ms arbitrary: c)
  case (Cons m ms)
  have m: "sg_target m = None" using Cons.prems by simp
  show ?case
    using Cons.IH [of "snd (swarm_send f m c)"] unread_broadcast [OF Cons.prems(1) m Cons.prems(3), of f]
      channel_ok_send [OF Cons.prems(1), of f m] Cons.prems by simp
qed simp

lemma recv_times_unread:
  "channel_ok c \<Longrightarrow> length (unread a c) \<le> 1024 \<Longrightarrow> n \<le> length (unread a c) \<Longrightarrow> recv_times n a c = map Some (take n (unread a c))"
proof (induction n arbitrary: c)
  case (Suc n)
  then obtain m ms where u: "unread a c = m # ms" by (cases "unread a c") auto
  with recv_unread [OF Suc.prems(1,2)] have
    "fst (recv_broadcast a c) = Some m" "unread a (snd (recv_broadcast a c)) = ms" by simp_all
  then show ?case using Suc.IH [of "snd (recv_broadcast a c)"] Suc.prems channel_ok_recv [OF Suc.prems(1), of a] u
    by (cases "recv_broadcast a c") simp
qed simp

text \<open>A reader that has seen everything and then reads after at most 1024 broadcasts gets exactly these, in order.\<close>

theorem broadcasts_read_back:
  assumes "channel_ok c" "unread a c = []" "cm_reader a \<in> hm_dom (wc_readers c)"
    and "\<forall>m \<in> set ms. sg_target m = None" "length ms \<le> 1024"
  shows "recv_times (length ms) a (send_all f ms c) = map Some ms"
  using send_all_unread [OF assms(1, 4, 3), of f] recv_times_unread [of "send_all f ms c" a "length ms"] assms(2, 5) by simp

theorem broadcasts_read_back_witness:
  "let (a, c) = communicator_new 1 ''a'' (swarm_channel_new 10);
       m = swarm_message_new 5 0 Query 2 ''b'' Null; n = swarm_message_new 6 0 Response 2 ''b'' Null
   in recv_times 2 a (send_all (\<lambda>_. ''id'') [m, n] c) = [Some m, Some n]"
proof -
  let ?c = "communicator_new 1 ''a'' (swarm_channel_new 10)"
  let ?ms = "[swarm_message_new 5 0 Query 2 ''b'' Null, swarm_message_new 6 0 Response 2 ''b'' Null]"
  have "recv_times (length ?ms) (fst ?c) (send_all (\<lambda>_. ''id'') ?ms (snd ?c)) = map Some ?ms"
    by (rule broadcasts_read_back)
      (simp_all add: communicator_new_def channel_subscribe_def swarm_channel_new_def channel_ok_def unread_def swarm_message_new_def)
  then show ?thesis by (simp add: case_prod_unfold Let_def numeral_2_eq_2)
qed

text \<open>An agent initialised twice is registered twice; messages go to the inbox of the first registration, which is closed.\<close>

lemma init_twice_deaf:
  assumes "channel_ok c" "find (\<lambda>(j, h). j = cm_agent a) (wc_direct c) = None" "sg_target m = Some (cm_agent a)" "cm_inbox a = None"
    and "communicator_init a c = (a1, c1)" "communicator_init a1 c1 = (a2, c2)"
  shows "swarm_send f m c2 = (Inl ''Receiver channel closed'', c2)"
proof -
  have "find (\<lambda>(j, h). j = i) (ds @ (i, h) # xs) = Some (i, h)" if "find (\<lambda>(j, h). j = i) ds = None"
    for ds xs and i :: ls_id and h :: nat
    using that by (induction ds) (auto split: if_splits)
  note this [OF assms(2)]
  then show ?thesis using assms(3-6)
    by (auto simp: communicator_init_def channel_register_def close_inbox_def direct_exact)
qed

text \<open>A communicator that was never initialised cannot be reached directly.\<close>

lemma new_not_registered:
  assumes "find (\<lambda>(j, h). j = i) (wc_direct c) = None" "communicator_new i n c = (a, c1)" "sg_target m = Some i"
  shows "swarm_send f m c1 = (Inl (''Agent '' @ f i @ '' not registered''), c1)"
  using assms by (auto simp: communicator_new_def channel_subscribe_def direct_exact)

end
