(* ===== verification/Swarm_Memory.thy ===== *)
theory Swarm_Memory
  imports Swarm_Types
begin

text \<open>
  What a swarm learns (\<open>swarm/src/memory.rs\<close>) and measures (\<open>swarm/src/metrics.rs\<close>): the profiles from which a change
  of an agent's role is suggested, the results and patterns kept, and the counters, latencies and percentiles.
  The text of a number with two decimals is an argument; maps are iterated in any order.
\<close>

section \<open>Profiles\<close>

record 'f role_performance =
  rp_execution_count :: nat
  rp_success_rate :: 'f
  rp_avg_execution_ms :: 'f
  rp_avg_confidence :: 'f
  rp_last_executed :: int

record 'f task_record =
  tk_task_name :: string
  tk_role :: swarm_role
  tk_success :: bool
  tk_execution_ms :: nat
  tk_confidence :: 'f
  tk_timestamp :: int

record 'f agent_profile =
  pf_agent_id :: ls_id
  pf_name :: string
  pf_role_performance :: "(string, 'f role_performance) hmap"
  pf_optimal_role :: swarm_role
  pf_expertise_areas :: "(string, 'f) hmap"
  pf_task_history :: "'f task_record list"
  pf_learning_rate :: 'f

record role_switch =
  rw_agent_id :: ls_id
  rw_from :: swarm_role
  rw_to :: swarm_role
  rw_reason :: string
  rw_timestamp :: int

record 'f emergent =
  eg_profiles :: "(ls_id, 'f agent_profile) hmap"
  eg_switches :: "role_switch list"
  eg_min_executions :: nat
  eg_threshold :: 'f

definition emergent_new :: "nat \<Rightarrow> 'f \<Rightarrow> 'f emergent" where
  "emergent_new n x = \<lparr>eg_profiles = [], eg_switches = [], eg_min_executions = n, eg_threshold = x\<rparr>"

definition profile_of :: "'f float_ops \<Rightarrow> 'f swarm_agent \<Rightarrow> 'f agent_profile" where
  "profile_of F a = \<lparr>pf_agent_id = sa_id a, pf_name = sa_name a, pf_role_performance = [], pf_optimal_role = sa_role a,
     pf_expertise_areas = sa_expertise a, pf_task_history = [], pf_learning_rate = fl_dec F 3 1\<rparr>"

definition emergent_register :: "'f float_ops \<Rightarrow> 'f swarm_agent \<Rightarrow> 'f emergent \<Rightarrow> 'f emergent" where
  "emergent_register F a e = (if hm_has (sa_id a) (eg_profiles e) then e
     else e\<lparr>eg_profiles := hm_insert (sa_id a) (profile_of F a) (eg_profiles e)\<rparr>)"

definition first_performance :: "'f float_ops \<Rightarrow> 'f role_performance" where
  "first_performance F = \<lparr>rp_execution_count = 0, rp_success_rate = fl_dec F 5 1, rp_avg_execution_ms = fl_int F 0,
     rp_avg_confidence = fl_dec F 5 1, rp_last_executed = 0\<rparr>"

definition update_performance :: "'f float_ops \<Rightarrow> int \<Rightarrow> 'f \<Rightarrow> 'f swarm_task_result \<Rightarrow> 'f role_performance \<Rightarrow> 'f role_performance" where
  "update_performance F now alpha r p = \<lparr>rp_execution_count = rp_execution_count p + 1,
     rp_success_rate = moving_average F alpha (if tr_success r then fl_int F 1 else fl_int F 0) (rp_success_rate p),
     rp_avg_execution_ms = moving_average F alpha (fl_int F (int (tr_execution_ms r))) (rp_avg_execution_ms p),
     rp_avg_confidence = moving_average F alpha (tr_confidence r) (rp_avg_confidence p), rp_last_executed = now\<rparr>"

definition update_profile ::
  "'f float_ops \<Rightarrow> int \<Rightarrow> string \<Rightarrow> swarm_role \<Rightarrow> 'f swarm_task_result \<Rightarrow> 'f agent_profile \<Rightarrow> 'f agent_profile" where
  "update_profile F now name role r p =
     (let key = swarm_role_text role; alpha = pf_learning_rate p;
          perf = (case hm_get (pf_role_performance p) key of Some q \<Rightarrow> q | None \<Rightarrow> first_performance F)
      in p\<lparr>pf_role_performance := hm_insert key (update_performance F now alpha r perf) (pf_role_performance p),
           pf_task_history := take 100 (\<lparr>tk_task_name = name, tk_role = role, tk_success = tr_success r,
             tk_execution_ms = tr_execution_ms r, tk_confidence = tr_confidence r, tk_timestamp = now\<rparr> # pf_task_history p),
           pf_expertise_areas := hm_map_values (\<lambda>_ x. moving_average F alpha
             (if tr_success r then tr_confidence r else fl_int F 0) x) (pf_expertise_areas p)\<rparr>)"

definition emergent_record ::
  "'f float_ops \<Rightarrow> int \<Rightarrow> ls_id \<Rightarrow> string \<Rightarrow> swarm_role \<Rightarrow> 'f swarm_task_result \<Rightarrow> 'f emergent \<Rightarrow> 'f emergent" where
  "emergent_record F now i name role r e = e\<lparr>eg_profiles := hm_modify i (update_profile F now name role r) (eg_profiles e)\<rparr>"

text \<open>The role a key names.\<close>

definition all_roles :: "swarm_role list" where
  "all_roles = [Analyst, Creator, Validator, Negotiator, Observer, Planner, Executor, Tester, Aggregator, Router]"

definition role_of_text :: "string \<Rightarrow> swarm_role option" where
  "role_of_text s = find (\<lambda>r. swarm_role_text r = s) all_roles"

text \<open>Whether a role would be better than the current one, whose record is \<open>cur\<close>.\<close>

definition better_role :: "'f float_ops \<Rightarrow> 'f emergent \<Rightarrow> swarm_role \<Rightarrow> 'f role_performance \<Rightarrow> string \<times> 'f role_performance \<Rightarrow> bool" where
  "better_role F e optimal cur entry = (case role_of_text (fst entry) of
       None \<Rightarrow> False
     | Some role \<Rightarrow> role \<noteq> optimal \<and> rp_execution_count (snd entry) \<ge> eg_min_executions e
         \<and> fl_lt F (fl_add F (rp_success_rate cur) (eg_threshold e)) (rp_success_rate (snd entry)))"

definition suggest_role_change :: "'f float_ops \<Rightarrow> ('f \<Rightarrow> string) \<Rightarrow> int \<Rightarrow> ls_id \<Rightarrow> 'f emergent \<Rightarrow> role_switch option" where
  "suggest_role_change F show2 now i e = (case hm_get (eg_profiles e) i of
       None \<Rightarrow> None
     | Some p \<Rightarrow> (case hm_get (pf_role_performance p) (swarm_role_text (pf_optimal_role p)) of
           None \<Rightarrow> None
         | Some cur \<Rightarrow> (case find (better_role F e (pf_optimal_role p) cur) (pf_role_performance p) of
               None \<Rightarrow> None
             | Some (key, perf) \<Rightarrow> Some \<lparr>rw_agent_id = i, rw_from = pf_optimal_role p, rw_to = the (role_of_text key),
                 rw_reason = ''Emergent specialization: success_rate improved from '' @ show2 (rp_success_rate cur)
                   @ '' to '' @ show2 (rp_success_rate perf),
                 rw_timestamp = now\<rparr>)))"

definition apply_role_switch :: "role_switch \<Rightarrow> 'f emergent \<Rightarrow> 'f emergent" where
  "apply_role_switch w e = (if hm_has (rw_agent_id w) (eg_profiles e)
     then e\<lparr>eg_profiles := hm_modify (rw_agent_id w) (\<lambda>p. p\<lparr>pf_optimal_role := rw_to w\<rparr>) (eg_profiles e),
            eg_switches := eg_switches e @ [w]\<rparr>
     else e)"

definition get_optimal_role :: "ls_id \<Rightarrow> 'f emergent \<Rightarrow> swarm_role option" where
  "get_optimal_role i e = map_option pf_optimal_role (hm_get (eg_profiles e) i)"

section \<open>Shared memory\<close>

record 'f emergent_pattern =
  ep_name :: string
  ep_description :: string
  ep_occurrence_count :: nat
  ep_success_rate :: 'f
  ep_first_observed :: int
  ep_last_observed :: int

record 'f swarm_memory =
  my_outcomes :: "(ls_id, 'f swarm_task_result) hmap"
  my_patterns :: "'f emergent_pattern list"
  my_decisions :: "'f consensus_result list"

definition swarm_memory_new :: "'f swarm_memory" where
  "swarm_memory_new = \<lparr>my_outcomes = [], my_patterns = [], my_decisions = []\<rparr>"

fun bump_pattern :: "'f float_ops \<Rightarrow> int \<Rightarrow> 'f emergent_pattern list \<Rightarrow> 'f emergent_pattern list" where
  "bump_pattern F now [] = [\<lparr>ep_name = ''repeated_failure'', ep_description = ''Multiple consecutive task failures detected'',
     ep_occurrence_count = 1, ep_success_rate = fl_int F 0, ep_first_observed = now, ep_last_observed = now\<rparr>]"
| "bump_pattern F now (p # ps) = (if ep_name p = ''repeated_failure''
     then p\<lparr>ep_occurrence_count := ep_occurrence_count p + 1, ep_last_observed := now\<rparr> # ps
     else p # bump_pattern F now ps)"

definition memory_record :: "'f float_ops \<Rightarrow> int \<Rightarrow> swarm_task \<Rightarrow> 'f swarm_task_result \<Rightarrow> 'f swarm_memory \<Rightarrow> 'f swarm_memory" where
  "memory_record F now t r m =
     (let outcomes = hm_insert (st_id t) r (my_outcomes m)
      in m\<lparr>my_outcomes := outcomes,
           my_patterns := (if length (filter (\<lambda>r. \<not> tr_success r) (hm_values outcomes)) \<ge> 3
             then bump_pattern F now (my_patterns m) else my_patterns m)\<rparr>)"

definition record_decision :: "'f consensus_result \<Rightarrow> 'f swarm_memory \<Rightarrow> 'f swarm_memory" where
  "record_decision d m = m\<lparr>my_decisions := my_decisions m @ [d]\<rparr>"

definition failure_patterns :: "'f float_ops \<Rightarrow> 'f swarm_memory \<Rightarrow> 'f emergent_pattern list" where
  "failure_patterns F m = filter (\<lambda>p. fl_lt F (ep_success_rate p) (fl_dec F 5 1)) (my_patterns m)"

definition recent_results :: "nat \<Rightarrow> 'f swarm_memory \<Rightarrow> 'f swarm_task_result list" where
  "recent_results n m = take n (sort_key (\<lambda>r. - tr_completed_at r) (hm_values (my_outcomes m)))"

section \<open>Metrics\<close>

record 'f metrics_collector =
  mc_latency :: "'f list"
  mc_success :: nat
  mc_failure :: nat
  mc_consensus_success :: nat
  mc_consensus_failure :: nat
  mc_timestamps :: "int list"
  mc_max_history :: nat
  mc_window_secs :: int

definition metrics_new :: "nat \<Rightarrow> int \<Rightarrow> 'f metrics_collector" where
  "metrics_new n w = \<lparr>mc_latency = [], mc_success = 0, mc_failure = 0, mc_consensus_success = 0, mc_consensus_failure = 0,
     mc_timestamps = [], mc_max_history = n, mc_window_secs = w\<rparr>"

definition metrics_record :: "int \<Rightarrow> bool \<Rightarrow> 'f \<Rightarrow> 'f metrics_collector \<Rightarrow> 'f metrics_collector" where
  "metrics_record now success ms c =
     (let latency = mc_latency c @ [ms]
      in c\<lparr>mc_latency := drop (length latency - mc_max_history c) latency,
           mc_success := (if success then mc_success c + 1 else mc_success c),
           mc_failure := (if success then mc_failure c else mc_failure c + 1),
           mc_timestamps := dropWhile (\<lambda>t. now - t > mc_window_secs c) (mc_timestamps c @ [now])\<rparr>)"

definition metrics_consensus :: "bool \<Rightarrow> 'f metrics_collector \<Rightarrow> 'f metrics_collector" where
  "metrics_consensus achieved c = (if achieved then c\<lparr>mc_consensus_success := mc_consensus_success c + 1\<rparr>
     else c\<lparr>mc_consensus_failure := mc_consensus_failure c + 1\<rparr>)"

record 'f swarm_metrics =
  sm_swarm_id :: ls_id
  sm_throughput :: 'f
  sm_success_rate :: 'f
  sm_avg_execution_ms :: 'f
  sm_p50 :: 'f
  sm_p90 :: 'f
  sm_p99 :: 'f
  sm_agent_utilization :: 'f
  sm_consensus_rate :: 'f
  sm_active_agents :: nat
  sm_total_agents :: nat
  sm_collected_at :: int
  sm_custom :: "(string, 'f) hmap"

text \<open>The index of a percentile is cut off at the last element.\<close>

definition percentile :: "'f float_ops \<Rightarrow> 'f list \<Rightarrow> 'f \<Rightarrow> 'f" where
  "percentile F xs p = (if xs = [] then fl_int F 0
     else xs ! min (fl_to_uint F 64 (fl_round F (fl_mul F (fl_div F p (fl_int F 100)) (fl_sub F (fl_int F (int (length xs))) (fl_int F 1)))))
       (length xs - 1))"

definition rate_of :: "'f float_ops \<Rightarrow> 'f \<Rightarrow> nat \<Rightarrow> nat \<Rightarrow> 'f" where
  "rate_of F none part whole = (if whole > 0 then fl_div F (fl_int F (int part)) (fl_int F (int whole)) else none)"

definition collect_metrics :: "'f float_ops \<Rightarrow> int \<Rightarrow> ls_id \<Rightarrow> 'f swarm_state \<Rightarrow> 'f metrics_collector \<Rightarrow> 'f swarm_metrics" where
  "collect_metrics F now i s c =
     (let xs = fl_sort (fl_lt F) (mc_latency c); window = fl_int F (mc_window_secs c)
      in \<lparr>sm_swarm_id = i,
          sm_throughput = (if fl_lt F (fl_int F 0) window
            then fl_mul F (fl_div F (fl_int F (int (length (mc_timestamps c)))) window) (fl_int F 60) else fl_int F 0),
          sm_success_rate = rate_of F (fl_int F 1) (mc_success c) (mc_success c + mc_failure c),
          sm_avg_execution_ms = (if xs \<noteq> [] then fl_div F (fl_sum F xs) (fl_int F (int (length xs))) else fl_int F 0),
          sm_p50 = percentile F xs (fl_int F 50), sm_p90 = percentile F xs (fl_int F 90), sm_p99 = percentile F xs (fl_int F 99),
          sm_agent_utilization = rate_of F (fl_int F 0) (busy_agent_count s) (agent_count s),
          sm_consensus_rate = rate_of F (fl_int F 1) (mc_consensus_success c) (mc_consensus_success c + mc_consensus_failure c),
          sm_active_agents = busy_agent_count s + available_agent_count s, sm_total_agents = agent_count s,
          sm_collected_at = now, sm_custom = []\<rparr>)"

definition metrics_reset :: "'f metrics_collector \<Rightarrow> 'f metrics_collector" where
  "metrics_reset c = metrics_new (mc_max_history c) (mc_window_secs c)"

section \<open>Roles\<close>

lemma role_of_text_text [simp]: "role_of_text (swarm_role_text r) = Some r"
  by (cases r) (simp_all add: role_of_text_def all_roles_def)

lemma role_of_text_Some: "role_of_text s = Some r \<longleftrightarrow> s = swarm_role_text r"
proof
  assume "role_of_text s = Some r"
  then show "s = swarm_role_text r" unfolding role_of_text_def by (drule_tac find_mem) auto
qed simp

lemma swarm_role_text_inject [simp]: "swarm_role_text r = swarm_role_text r' \<longleftrightarrow> r = r'"
  by (metis role_of_text_text option.inject)

text \<open>A change of role is suggested exactly if some role other than the agent's best one has been executed often enough and
  succeeded more often than the best one by more than the threshold, for every order of the map.\<close>

theorem role_change_exact:
  assumes "hm_get (eg_profiles e) i = Some p"
  shows "(\<exists>w. suggest_role_change F show2 now i e = Some w \<and> rw_to w \<noteq> pf_optimal_role p
        \<and> get_optimal_role i (apply_role_switch w e) = Some (rw_to w))
      \<longleftrightarrow> (\<exists>cur role perf. hm_get (pf_role_performance p) (swarm_role_text (pf_optimal_role p)) = Some cur
        \<and> (swarm_role_text role, perf) \<in> set (pf_role_performance p) \<and> role \<noteq> pf_optimal_role p
        \<and> eg_min_executions e \<le> rp_execution_count perf
        \<and> fl_lt F (fl_add F (rp_success_rate cur) (eg_threshold e)) (rp_success_rate perf))"
    (is "?suggested \<longleftrightarrow> ?better")
proof (cases "hm_get (pf_role_performance p) (swarm_role_text (pf_optimal_role p))")
  case None
  with assms show ?thesis by (simp add: suggest_role_change_def)
next
  case (Some cur)
  let ?test = "better_role F e (pf_optimal_role p) cur"
  have test: "?test (key, perf) \<longleftrightarrow> (\<exists>role. key = swarm_role_text role \<and> role \<noteq> pf_optimal_role p
      \<and> eg_min_executions e \<le> rp_execution_count perf
      \<and> fl_lt F (fl_add F (rp_success_rate cur) (eg_threshold e)) (rp_success_rate perf))" for key perf
    by (auto simp: better_role_def role_of_text_Some split: option.split)
  show ?thesis
  proof (cases "find ?test (pf_role_performance p)")
    case None
    then have "\<forall>x \<in> set (pf_role_performance p). \<not> ?test x" by (auto simp: find_None_iff)
    with None Some assms show ?thesis by (auto simp: suggest_role_change_def test)
  next
    case found: (Some x)
    obtain key perf where x: "x = (key, perf)" by (cases x)
    from find_mem [OF found] have mem: "(key, perf) \<in> set (pf_role_performance p)" "?test (key, perf)" by (auto simp: x)
    then obtain role where role: "key = swarm_role_text role" "role \<noteq> pf_optimal_role p"
      by (auto simp: test)
    with found Some assms x have "\<exists>w. suggest_role_change F show2 now i e = Some w \<and> rw_to w = role \<and> rw_agent_id w = i"
      by (simp add: suggest_role_change_def)
    moreover have "get_optimal_role i (apply_role_switch w e) = Some role" if "rw_to w = role" "rw_agent_id w = i" for w
      using that assms hm_get_dom [OF assms] by (simp add: apply_role_switch_def get_optimal_role_def)
    ultimately have "?suggested" using role(2) by metis
    moreover have "?better" using mem role Some by (auto simp: test)
    ultimately show ?thesis by simp
  qed
qed

theorem role_change_exact_witness:
  "let p = \<lparr>pf_agent_id = 7, pf_name = ''a'', pf_role_performance = [(''tester'', (first_performance rat_ops)\<lparr>rp_execution_count := 3, rp_success_rate := 1\<rparr>),
         (''creator'', first_performance rat_ops)], pf_optimal_role = Creator, pf_expertise_areas = [], pf_task_history = [], pf_learning_rate = 3 / 10\<rparr>;
       e = \<lparr>eg_profiles = [(7, p)], eg_switches = [], eg_min_executions = 3, eg_threshold = 1 / 10\<rparr>
   in \<exists>w. suggest_role_change rat_ops (\<lambda>_. ''x'') 0 7 e = Some w"
proof -
  let ?p = "\<lparr>pf_agent_id = 7, pf_name = ''a'', pf_role_performance = [(''tester'', (first_performance rat_ops)\<lparr>rp_execution_count := 3, rp_success_rate := 1\<rparr>),
         (''creator'', first_performance rat_ops)], pf_optimal_role = Creator, pf_expertise_areas = [], pf_task_history = [], pf_learning_rate = 3 / 10\<rparr>"
  let ?e = "\<lparr>eg_profiles = [(7, ?p)], eg_switches = [], eg_min_executions = 3, eg_threshold = 1 / 10\<rparr>"
  have "\<exists>w. suggest_role_change rat_ops (\<lambda>_. ''x'') 0 7 ?e = Some w \<and> rw_to w \<noteq> pf_optimal_role ?p
      \<and> get_optimal_role 7 (apply_role_switch w ?e) = Some (rw_to w)"
    by (subst role_change_exact [of ?e 7 ?p "rat_ops" "\<lambda>_. ''x''" 0])
      (auto simp: first_performance_def rat_ops_def intro!: exI [of _ Tester])
  then show ?thesis by (auto simp: Let_def)
qed

text \<open>Without a record of its best role an agent is never moved, however well it does in others; an agent without a
  profile is never moved.\<close>

lemma no_baseline_no_switch:
  "hm_get (eg_profiles e) i = Some p \<Longrightarrow> hm_get (pf_role_performance p) (swarm_role_text (pf_optimal_role p)) = None
    \<Longrightarrow> suggest_role_change F show2 now i e = None"
  by (simp add: suggest_role_change_def)

lemma no_profile_no_switch: "eg_profiles e = [] \<Longrightarrow> suggest_role_change F show2 now i e = None"
  by (simp add: suggest_role_change_def)

lemma record_without_profile: "i \<notin> hm_dom (eg_profiles e) \<Longrightarrow> emergent_record F now i name role r e = e"
proof -
  assume i: "i \<notin> hm_dom (eg_profiles e)"
  have "i \<notin> hm_dom m \<Longrightarrow> hm_modify i f m = m" for m :: "(ls_id, 'a agent_profile) hmap" and f
    by (induction m) (auto simp: hm_modify_def)
  from this [OF i] show ?thesis by (simp add: emergent_record_def)
qed

text \<open>A profile keeps at most 100 tasks, the newest first.\<close>

lemma history_bounded: "length (pf_task_history (update_profile F now name role r p)) \<le> 100"
  by (simp add: update_profile_def Let_def)

section \<open>Counters\<close>

text \<open>With a clock that does not go back, the times kept after a recording are those in the window.\<close>

definition clock_ok :: "int \<Rightarrow> 'f metrics_collector \<Rightarrow> bool" where
  "clock_ok now c \<longleftrightarrow> sorted (mc_timestamps c) \<and> (\<forall>t \<in> set (mc_timestamps c). t \<le> now)"

lemma dropWhile_window: "sorted ts \<Longrightarrow> dropWhile (\<lambda>t. now - t > (w::int)) ts = filter (\<lambda>t. now - t \<le> w) ts"
proof (induction ts)
  case (Cons t ts)
  show ?case
  proof (cases "now - t > w")
    case False
    with Cons.prems have "\<forall>x \<in> set (t # ts). now - x \<le> w" by auto
    then show ?thesis using False by (simp add: filter_id_conv)
  qed (use Cons in simp)
qed simp

lemma metrics_record_window:
  assumes "clock_ok now c"
  shows "mc_timestamps (metrics_record now success ms c) = filter (\<lambda>t. now - t \<le> mc_window_secs c) (mc_timestamps c @ [now])"
    and "clock_ok now (metrics_record now success ms c)"
proof -
  have "sorted (mc_timestamps c @ [now])" using assms by (simp add: clock_ok_def sorted_append)
  from dropWhile_window [OF this]
  show eq: "mc_timestamps (metrics_record now success ms c) = filter (\<lambda>t. now - t \<le> mc_window_secs c) (mc_timestamps c @ [now])"
    by (simp add: metrics_record_def Let_def)
  show "clock_ok now (metrics_record now success ms c)"
    using assms \<open>sorted (mc_timestamps c @ [now])\<close> sorted_wrt_filter [of "(\<le>)" "mc_timestamps c @ [now]" "\<lambda>t. now - t \<le> mc_window_secs c"]
    unfolding clock_ok_def eq by auto
qed

text \<open>The counters of a sequence of recordings, and the latencies kept.\<close>

fun record_all :: "(int \<times> bool \<times> 'f) list \<Rightarrow> 'f metrics_collector \<Rightarrow> 'f metrics_collector" where
  "record_all [] c = c"
| "record_all ((now, success, ms) # rs) c = record_all rs (metrics_record now success ms c)"

lemma drop_snoc_drop: "drop (length (drop (length xs - k) xs @ [x]) - k) (drop (length xs - k) xs @ [x]) = drop (Suc (length xs) - k) (xs @ [x])"
  by (cases "length xs \<le> k") (auto simp: drop_Suc tl_drop Suc_diff_le)

theorem metrics_exact:
  "mc_success (record_all rs (metrics_new k w)) = length (filter (\<lambda>(now, success, ms). success) rs)
   \<and> mc_failure (record_all rs (metrics_new k w)) = length (filter (\<lambda>(now, success, ms). \<not> success) rs)
   \<and> mc_latency (record_all rs (metrics_new k w)) = drop (length rs - k) (map (\<lambda>(now, success, ms). ms) rs)"
proof -
  have "let c = record_all rs (metrics_new k w)
      in mc_success c = length (filter (\<lambda>(now, success, ms). success) rs)
       \<and> mc_failure c = length (filter (\<lambda>(now, success, ms). \<not> success) rs)
       \<and> mc_latency c = drop (length rs - k) (map (\<lambda>(now, success, ms). ms) rs) \<and> mc_max_history c = k" for rs :: "(int \<times> bool \<times> 'a) list"
  proof (induction rs rule: rev_induct)
    case (snoc r rs)
    have "record_all (rs @ [r]) c = record_all [r] (record_all rs c)" for c :: "'a metrics_collector"
      by (induction rs c rule: record_all.induct) auto
    with snoc drop_snoc_drop [of "map (\<lambda>(now, success, ms). ms) rs" k] show ?case
      by (cases r) (simp add: metrics_record_def Let_def Suc_diff_le split: prod.splits)
  qed (simp add: metrics_new_def)
  then show ?thesis by (simp add: Let_def)
qed

text \<open>A percentile of latencies is one of them, with no index out of bounds; the throughput does not depend on the
  time it is read at, so that it stays as it was when the swarm has nothing to do.\<close>

lemma percentile_mem: "xs \<noteq> [] \<Longrightarrow> percentile F xs p \<in> set xs"
proof -
  assume "xs \<noteq> []"
  then have "min k (length xs - 1) < length xs" for k by (cases xs) auto
  with \<open>xs \<noteq> []\<close> show ?thesis by (simp add: percentile_def)
qed

lemma throughput_ignores_now: "sm_throughput (collect_metrics F now i s c) = sm_throughput (collect_metrics F later i s c)"
  by (simp add: collect_metrics_def Let_def)

text \<open>A pattern of failures is counted again by a result that is a success, once three tasks have failed at any time.\<close>

lemma success_counts_as_failure:
  assumes "length (filter (\<lambda>r. \<not> tr_success r) (hm_values (my_outcomes m))) \<ge> 3" "st_id t \<notin> hm_dom (my_outcomes m)" "tr_success r"
    and "my_patterns m = [p]" "ep_name p = ''repeated_failure''"
  shows "ep_occurrence_count (hd (my_patterns (memory_record F now t r m))) = ep_occurrence_count p + 1"
proof -
  have "i \<notin> hm_dom xs \<Longrightarrow> hm_insert i r xs = xs @ [(i, r)]" for i and xs :: "(ls_id, 'a swarm_task_result) hmap"
    by (induction xs) auto
  with assms show ?thesis by (simp add: memory_record_def Let_def)
qed

end
