(* ===== verification/Swarm_Roles.thy ===== *)
theory Swarm_Roles
  imports Swarm_Types
begin

text \<open>
  The agents with a special role (\<open>swarm/src/specialized.rs\<close>). The interface is a datatype of its implementations, none
  of which returns an error. The JSON number of a float is an argument, and so are the identifiers drawn and the clock
  in milliseconds. A difference of times is cast to an unsigned number of 64 bits.
\<close>

section \<open>The implementations\<close>

datatype 'f specialist =
  AnalystAgent string
| CreatorAgent string
| ValidatorAgent string 'f
| NegotiatorAgent string
| ObserverAgent string
| TesterAgent string

record 'f validation_report =
  vr_passed :: bool
  vr_score :: 'f
  vr_issues :: "string list"
  vr_recommendations :: "string list"

definition validator_new :: "'f float_ops \<Rightarrow> string \<Rightarrow> 'f \<Rightarrow> 'f specialist" where
  "validator_new F n strictness = ValidatorAgent n (fl_clamp F (fl_int F 0) (fl_int F 1) strictness)"

fun create_specialized_agent :: "'f float_ops \<Rightarrow> string \<Rightarrow> swarm_role \<Rightarrow> 'f specialist" where
  "create_specialized_agent F n Analyst = AnalystAgent n"
| "create_specialized_agent F n Creator = CreatorAgent n"
| "create_specialized_agent F n Validator = validator_new F n (fl_dec F 7 1)"
| "create_specialized_agent F n Negotiator = NegotiatorAgent n"
| "create_specialized_agent F n Observer = ObserverAgent n"
| "create_specialized_agent F n Tester = TesterAgent n"
| "create_specialized_agent F n _ = CreatorAgent n"

fun specialist_role :: "'f specialist \<Rightarrow> swarm_role" where
  "specialist_role (AnalystAgent n) = Analyst"
| "specialist_role (CreatorAgent n) = Creator"
| "specialist_role (ValidatorAgent n x) = Validator"
| "specialist_role (NegotiatorAgent n) = Negotiator"
| "specialist_role (ObserverAgent n) = Observer"
| "specialist_role (TesterAgent n) = Tester"

fun specialist_name :: "'f specialist \<Rightarrow> string" where
  "specialist_name (AnalystAgent n) = n"
| "specialist_name (CreatorAgent n) = n"
| "specialist_name (ValidatorAgent n x) = n"
| "specialist_name (NegotiatorAgent n) = n"
| "specialist_name (ObserverAgent n) = n"
| "specialist_name (TesterAgent n) = n"

section \<open>Decomposition\<close>

definition analyze_complexity :: "'f float_ops \<Rightarrow> swarm_task \<Rightarrow> 'f" where
  "analyze_complexity F t =
     (let one = fl_int F 1;
          desc_len = fl_int F (int (length (st_description t)));
          input_complexity = (case st_input t of
              Object m \<Rightarrow> fl_mul F (fl_int F (int (length m))) (fl_dec F 1 1)
            | Array a \<Rightarrow> fl_mul F (fl_int F (int (length a))) (fl_dec F 5 2)
            | _ \<Rightarrow> fl_dec F 1 1);
          deps = fl_mul F (fl_int F (int (length (st_depends_on t)))) (fl_dec F 2 1)
      in fl_min F (fl_add F (fl_add F (fl_mul F (fl_div F (fl_min F desc_len (fl_int F 1000)) (fl_int F 1000)) (fl_dec F 5 1))
             (fl_mul F (fl_min F input_complexity one) (fl_dec F 3 1))) (fl_mul F (fl_min F deps one) (fl_dec F 2 1))) one)"

definition subtask_count :: "'f float_ops \<Rightarrow> nat \<Rightarrow> 'f \<Rightarrow> nat" where
  "subtask_count F bits complexity = fl_to_uint F bits (fl_ceil F (fl_mul F complexity (fl_int F 5))) + 1"

definition subtask_role :: "nat \<Rightarrow> swarm_role" where
  "subtask_role i = (if i mod 4 = 0 then Analyst else if i mod 4 = 1 then Creator else if i mod 4 = 2 then Executor else Validator)"

definition subtask_of :: "(nat \<Rightarrow> ls_id) \<Rightarrow> int \<Rightarrow> swarm_task \<Rightarrow> nat \<Rightarrow> swarm_task" where
  "subtask_of fresh now t i = \<lparr>st_id = fresh i, st_name = st_name t @ ''-part-'' @ show_nat (i + 1),
     st_description = ''Sub-task '' @ show_nat (i + 1) @ '' of '' @ [CHR 0x27] @ st_name t @ [CHR 0x27] @ '': '' @ st_description t,
     st_input = st_input t, st_required_role = Some (subtask_role i), st_required_expertise = st_required_expertise t,
     st_priority = st_priority t, st_max_bidders = st_max_bidders t,
     st_depends_on = (if i > 0 then [fresh (i - 1)] else []), st_created_at = now, st_timeout_secs = st_timeout_secs t\<rparr>"

definition decompose_task :: "'f float_ops \<Rightarrow> (nat \<Rightarrow> ls_id) \<Rightarrow> int \<Rightarrow> swarm_task \<Rightarrow> 'f \<Rightarrow> swarm_task list" where
  "decompose_task F fresh now t complexity = map (subtask_of fresh now t) [0..<min (subtask_count F 64 complexity) 8]"

fun specialist_analyze :: "'f float_ops \<Rightarrow> (nat \<Rightarrow> ls_id) \<Rightarrow> int \<Rightarrow> swarm_task \<Rightarrow> 'f specialist \<Rightarrow> swarm_task list" where
  "specialist_analyze F fresh now t (AnalystAgent n) = decompose_task F fresh now t (analyze_complexity F t)"
| "specialist_analyze F fresh now t _ = [t]"

section \<open>Execution\<close>

definition elapsed_ms :: "int \<Rightarrow> int \<Rightarrow> nat" where
  "elapsed_ms start stop = nat ((stop - start) mod 2 ^ 64)"

definition role_result ::
  "ls_id \<Rightarrow> int \<Rightarrow> int \<Rightarrow> string \<Rightarrow> swarm_task \<Rightarrow> json \<Rightarrow> bool \<Rightarrow> 'f \<Rightarrow> string option \<Rightarrow> 'f swarm_task_result" where
  "role_result fresh start stop n t out success confidence err = \<lparr>tr_task_id = st_id t, tr_agent_id = fresh, tr_agent_name = n,
     tr_output = out, tr_success = success, tr_execution_ms = elapsed_ms start stop, tr_confidence = confidence, tr_error = err,
     tr_started_at = start, tr_completed_at = stop\<rparr>"

definition analyst_output :: "'f float_ops \<Rightarrow> ('f \<Rightarrow> json) \<Rightarrow> swarm_task \<Rightarrow> json" where
  "analyst_output F jf t = Object [(''complexity'', jf (analyze_complexity F t)),
     (''estimated_subtasks'', Number (int (subtask_count F 32 (analyze_complexity F t)))),
     (''priority'', Number (int (st_priority t))), (''required_skills'', Array (map Str (st_required_expertise t))),
     (''suggested_approach'', Str (if st_priority t \<ge> 7 then ''parallel_execution'' else ''sequential_execution'')),
     (''task_name'', Str (st_name t))]"

definition creator_output :: "'f float_ops \<Rightarrow> ('f \<Rightarrow> json) \<Rightarrow> swarm_task \<Rightarrow> json" where
  "creator_output F jf t = Object [(''content_generated'', Bool True), (''format'', Str ''structured''),
     (''quality_estimate'', jf (fl_div F (fl_int F (int (st_priority t))) (fl_int F 10))), (''task'', Str (st_name t)),
     (''type'', Str ''creation'')]"

text \<open>The checks of a validator: the text of an issue and its weight.\<close>

definition validator_checks :: "'f float_ops \<Rightarrow> swarm_task \<Rightarrow> (string \<times> 'f) list" where
  "validator_checks F t =
     (if st_description t = [] then [(''Empty task description'', fl_dec F 2 1)] else [])
   @ (if st_input t = Null then [(''Null task input'', fl_dec F 3 1)] else [])
   @ (if st_depends_on t = [] \<and> st_priority t \<ge> 8 then [(''High-priority task has no dependencies declared'', fl_dec F 1 1)] else [])
   @ (if st_required_expertise t = [] \<and> st_priority t \<ge> 6
      then [(''Medium-high priority task has no required expertise'', fl_dec F 5 2)] else [])"

definition validator_score :: "'f float_ops \<Rightarrow> 'f \<Rightarrow> swarm_task \<Rightarrow> 'f" where
  "validator_score F strictness t = fold (\<lambda>(_, w) score. fl_sub F score (fl_mul F w strictness)) (validator_checks F t) (fl_int F 1)"

definition validator_passes :: "'f float_ops \<Rightarrow> 'f \<Rightarrow> swarm_task \<Rightarrow> bool" where
  "validator_passes F strictness t \<longleftrightarrow> fl_le F (fl_sub F (fl_int F 1) (fl_mul F strictness (fl_dec F 5 1))) (validator_score F strictness t)"

fun join_issues :: "string list \<Rightarrow> string" where
  "join_issues [] = []"
| "join_issues [x] = x"
| "join_issues (x # y # ys) = x @ ''; '' @ join_issues (y # ys)"

fun specialist_execute ::
  "'f float_ops \<Rightarrow> ('f \<Rightarrow> json) \<Rightarrow> ls_id \<Rightarrow> int \<Rightarrow> int \<Rightarrow> swarm_task \<Rightarrow> 'f specialist \<Rightarrow> 'f swarm_task_result" where
  "specialist_execute F jf fresh start stop t (AnalystAgent n) =
     role_result fresh start stop n t (analyst_output F jf t) True (fl_dec F 85 2) None"
| "specialist_execute F jf fresh start stop t (CreatorAgent n) =
     role_result fresh start stop n t (creator_output F jf t) True (fl_dec F 8 1) None"
| "specialist_execute F jf fresh start stop t (ValidatorAgent n x) =
     (let issues = map fst (validator_checks F t); score = validator_score F x t; passed = validator_passes F x t
      in role_result fresh start stop n t
           (Object [(''issues'', Array (map Str issues)), (''score'', jf (fl_max F score (fl_int F 0))), (''strictness'', jf x),
              (''validated'', Bool passed)])
           passed (fl_max F score (fl_int F 0)) (if passed then None else Some (''Validation failed: '' @ join_issues issues)))"
| "specialist_execute F jf fresh start stop t (NegotiatorAgent n) =
     role_result fresh start stop n t (Object [(''approach'', Str ''consensus_building''), (''negotiation_complete'', Bool True),
       (''resolution'', Str ''compromise''), (''stakeholders'', Array (map Str (st_required_expertise t)))]) True (fl_dec F 75 2) None"
| "specialist_execute F jf fresh start stop t (ObserverAgent n) =
     role_result fresh start stop n t (Object [(''observation_type'', Str ''routine''), (''recommendations'', Array []),
       (''status'', Str ''normal''), (''swarm_health'', jf (fl_int F 1))]) True (fl_dec F 9 1) None"
| "specialist_execute F jf fresh start stop t (TesterAgent n) =
     role_result fresh start stop n t (Object [(''coverage'', jf (fl_dec F 85 2)), (''result'', Str ''pass''),
       (''test_type'', Str ''structural''), (''tested'', Bool True)]) True (fl_dec F 85 2) None"

fun specialist_validate :: "'f swarm_task_result \<Rightarrow> 'f specialist \<Rightarrow> 'f validation_report" where
  "specialist_validate r (AnalystAgent n) = \<lparr>vr_passed = tr_success r, vr_score = tr_confidence r,
     vr_issues = (if tr_success r then [] else [''Analysis failed'']), vr_recommendations = []\<rparr>"
| "specialist_validate r (CreatorAgent n) = \<lparr>vr_passed = tr_success r, vr_score = tr_confidence r, vr_issues = [],
     vr_recommendations = [''Consider peer review for critical output'']\<rparr>"
| "specialist_validate r s = \<lparr>vr_passed = tr_success r, vr_score = tr_confidence r, vr_issues = [], vr_recommendations = []\<rparr>"

text \<open>Helpers no caller uses: the common ground of results and the health of a swarm.\<close>

definition find_common_ground :: "(json \<Rightarrow> string) \<Rightarrow> 'f swarm_task_result list \<Rightarrow> string list" where
  "find_common_ground to_text rs = (case rs of
       [] \<Rightarrow> []
     | r # _ \<Rightarrow> if \<forall>q \<in> set rs. to_text (tr_output q) = to_text (tr_output r) then [''Full consensus reached''] else [])"

definition calculate_health :: "'f float_ops \<Rightarrow> 'f swarm_state \<Rightarrow> 'f" where
  "calculate_health F s =
     (let total_agents = agent_count s; tasks = ss_completed s + ss_failed s
      in if total_agents = 0 then fl_int F 0
         else let availability = fl_div F (fl_int F (int (available_agent_count s))) (fl_int F (int total_agents));
                  utilization = fl_div F (fl_int F (int (busy_agent_count s))) (fl_int F (int (max total_agents 1)));
                  success_rate = (if tasks > 0 then fl_div F (fl_int F (int (ss_completed s))) (fl_int F (int tasks)) else fl_int F 1)
              in fl_min F (fl_add F (fl_add F (fl_mul F availability (fl_dec F 4 1))
                   (fl_mul F (fl_sub F (fl_int F 1) utilization) (fl_dec F 2 1))) (fl_mul F success_rate (fl_dec F 4 1))) (fl_int F 1))"

section \<open>What they do\<close>

text \<open>A decomposition has between one and eight parts, which depend on each other in a chain: each part on the one
  before it and nothing else, the first on nothing. Every part keeps the input, expertise, priority and
  timeout of the task and forgets what the task itself depends on.\<close>

theorem decomposition_chain:
  "1 \<le> length (decompose_task F fresh now t c) \<and> length (decompose_task F fresh now t c) \<le> 8
   \<and> (\<forall>i < length (decompose_task F fresh now t c).
        st_depends_on (decompose_task F fresh now t c ! i) = (if i = 0 then [] else [st_id (decompose_task F fresh now t c ! (i - 1))])
      \<and> st_required_role (decompose_task F fresh now t c ! i) = Some ([Analyst, Creator, Executor, Validator] ! (i mod 4))
      \<and> st_priority (decompose_task F fresh now t c ! i) = st_priority t
      \<and> st_input (decompose_task F fresh now t c ! i) = st_input t)"
proof -
  have roles: "subtask_role i = [Analyst, Creator, Executor, Validator] ! (i mod 4)" for i
  proof -
    have "i mod 4 = 0 \<or> i mod 4 = 1 \<or> i mod 4 = 2 \<or> i mod 4 = 3" by presburger
    then show ?thesis by (auto simp: subtask_role_def)
  qed
  obtain n where n: "n = min (subtask_count F 64 c) 8" "1 \<le> n" "n \<le> 8" by (simp add: subtask_count_def)
  then have "decompose_task F fresh now t c = map (subtask_of fresh now t) [0..<n]" by (simp add: decompose_task_def)
  with n(2,3) show ?thesis by (simp add: subtask_of_def roles)
qed

theorem decomposition_chain_witness:
  "st_depends_on (decompose_task rat_ops (\<lambda>i. i + 10) 0 (swarm_task_new 1 0 ''t'' ''d'' Null) 1 ! 2) = [11]"
proof -
  let ?d = "decompose_task rat_ops (\<lambda>i. i + 10) 0 (swarm_task_new 1 0 ''t'' ''d'' Null) 1"
  have len: "2 < length ?d" by (simp add: decompose_task_def subtask_count_def fl_to_uint_def)
  have "st_id (?d ! 1) = 11" using len by (simp add: decompose_task_def subtask_of_def)
  then show ?thesis
    using decomposition_chain [of rat_ops "\<lambda>i. i + 10" 0 "swarm_task_new 1 0 ''t'' ''d'' Null" 1] len by simp
qed

text \<open>In exact arithmetic a validator that is not of strictness 0 rejects a task exactly if it has no description and no input and,
  besides, a high priority without dependencies or without required expertise. Whatever else it complains of, it passes.\<close>

theorem validator_exact:
  assumes "0 \<le> x"
  shows "tr_success (specialist_execute rat_ops jf fresh start stop t (ValidatorAgent n x)) \<longleftrightarrow>
    \<not> (0 < x \<and> st_description t = [] \<and> st_input t = Null
       \<and> (st_depends_on t = [] \<and> st_priority t \<ge> 8 \<or> st_required_expertise t = [] \<and> st_priority t \<ge> 6))"
  using assms by (auto simp: role_result_def Let_def validator_passes_def validator_score_def validator_checks_def rat_ops_def)

theorem validator_exact_witness:
  "\<not> tr_success (specialist_execute rat_ops (\<lambda>_. Null) 1 0 0 ((swarm_task_new 1 0 ''t'' '''' Null)\<lparr>st_priority := 6\<rparr>) (ValidatorAgent ''v'' 1))"
  by (subst validator_exact) (simp_all add: swarm_task_new_def)

text \<open>The result of a specialist names an identifier drawn for it and not the agent it was asked for.\<close>

lemma specialist_anonymous: "tr_agent_id (specialist_execute F jf fresh start stop t s) = fresh"
  by (cases s) (simp_all add: role_result_def Let_def)

end
