(* ===== verification/Swarm_Engine.thy ===== *)
theory Swarm_Engine
  imports Swarm_Strategy Swarm_Topology Swarm_Comm Swarm_Memory Swarm_Roles
begin

text \<open>
  The coordinator of a swarm and its engine (\<open>swarm/src/coordinator.rs\<close>, \<open>swarm/src/engine.rs\<close>). The texts of JSON values
  and of numbers, the JSON number of a float and the logarithm are one record of arguments, and the
  identifiers drawn and the times read in a coordination are another. A coordination whose strategy panics is \<open>None\<close>.
\<close>

section \<open>The coordinator\<close>

record 'f swarm_lib =
  lb_float :: "'f float_ops"
  lb_text :: "json \<Rightarrow> string"
  lb_show2 :: "'f \<Rightarrow> string"
  lb_json :: "'f \<Rightarrow> json"
  lb_log2 :: "'f \<Rightarrow> 'f"

record swarm_inputs =
  in_part_ids :: "nat \<Rightarrow> ls_id"
  in_result_ids :: "nat \<Rightarrow> ls_id"
  in_start :: "nat \<Rightarrow> int"
  in_stop :: "nat \<Rightarrow> int"
  in_now :: int

record coordinator_config =
  cc_enable_bidding :: bool
  cc_enable_dynamic_roles :: bool
  cc_max_parallel_tasks :: nat
  cc_max_evaluators :: nat
  cc_enable_adaptive_topology :: bool

definition coordinator_config_default :: coordinator_config where
  "coordinator_config_default = \<lparr>cc_enable_bidding = True, cc_enable_dynamic_roles = True, cc_max_parallel_tasks = 10,
     cc_max_evaluators = 3, cc_enable_adaptive_topology = True\<rparr>"

record 'f coordinator =
  cd_config :: coordinator_config
  cd_strategy :: "'f decision_strategy"
  cd_emergent :: "'f emergent"
  cd_memory :: "'f swarm_memory"
  cd_metrics :: "'f metrics_collector"
  cd_topology :: topology_manager
  cd_specialists :: "'f specialist list"

definition coordinator_new :: "'f float_ops \<Rightarrow> 'f swarm_config \<Rightarrow> 'f decision_strategy \<Rightarrow> 'f coordinator" where
  "coordinator_new F c strategy = \<lparr>cd_config = coordinator_config_default, cd_strategy = strategy,
     cd_emergent = emergent_new 3 (fl_dec F 1 1), cd_memory = swarm_memory_new, cd_metrics = metrics_new 10000 60,
     cd_topology = topology_new (sf_topology c), cd_specialists = []\<rparr>"

definition register_specialized :: "'f specialist \<Rightarrow> 'f coordinator \<Rightarrow> 'f coordinator" where
  "register_specialized x c = c\<lparr>cd_specialists := cd_specialists c @ [x]\<rparr>"

definition analyze_task :: "'f float_ops \<Rightarrow> swarm_inputs \<Rightarrow> swarm_task \<Rightarrow> 'f coordinator \<Rightarrow> swarm_task list" where
  "analyze_task F inp t c =
     (if st_priority t \<le> 3 \<or> length (st_description t) < 100 then [t]
      else case find (\<lambda>x. specialist_role x = Analyst) (cd_specialists c) of
             None \<Rightarrow> [t]
           | Some x \<Rightarrow> (let parts = specialist_analyze F (in_part_ids inp) (in_now inp) t x in if length parts > 1 then parts else [t]))"

definition bid_for :: "'f swarm_lib \<Rightarrow> int \<Rightarrow> swarm_task \<Rightarrow> 'f swarm_agent \<Rightarrow> 'f swarm_bid" where
  "bid_for L now t a =
     (let F = lb_float L;
          score = expertise_score F (fl_dec F 15 2) t a (role_bonus F (fl_dec F 2 1) (fl_dec F 1 1) t a (sa_capability_score a))
      in \<lparr>sb_agent_id = sa_id a, sb_agent_name = sa_name a, sb_bid_score = fl_min F score (fl_int F 1),
          sb_estimated_ms = fl_to_uint F 64 (fl_max F (fl_mul F (sa_avg_execution_ms a)
            (fl_sub F (fl_dec F 15 1) (sa_capability_score a))) (fl_int F 100)),
          sb_rationale = ''Agent '' @ [CHR 0x27] @ sa_name a @ [CHR 0x27] @ '' bid with score '' @ lb_show2 L score, sb_timestamp = now\<rparr>)"

definition collect_bids :: "'f swarm_lib \<Rightarrow> int \<Rightarrow> swarm_task list \<Rightarrow> 'f swarm_agent list \<Rightarrow> 'f swarm_bid list" where
  "collect_bids L now tasks agents = (case tasks of
       [] \<Rightarrow> []
     | t # ts \<Rightarrow>
         (let best = last_max (\<lambda>a b. st_priority a \<le> st_priority b) t ts
          in take (length tasks * 2) (fl_sort (\<lambda>a b. fl_lt (lb_float L) (sb_bid_score b) (sb_bid_score a))
               (map (bid_for L now best) (filter is_available agents)))))"

definition default_output :: "swarm_task \<Rightarrow> 'f swarm_agent \<Rightarrow> json" where
  "default_output t a = Object [(''executed_by'', Str (sa_name a)), (''status'', Str ''completed''), (''task'', Str (st_name t))]"

definition execute_subtask ::
  "'f swarm_lib \<Rightarrow> swarm_inputs \<Rightarrow> nat \<Rightarrow> swarm_task \<Rightarrow> 'f swarm_agent list \<Rightarrow> 'f swarm_bid list \<Rightarrow> 'f coordinator
     \<Rightarrow> 'f swarm_task_result option" where
  "execute_subtask L inp i t agents bids c =
     map_option (\<lambda>choice. case choice of
         None \<Rightarrow> role_result (in_result_ids inp i) (in_start inp i) (in_stop inp i) ''none'' t Null False
           (fl_int (lb_float L) 0) (Some ''No available agent for task'')
       | Some a \<Rightarrow> (case find (\<lambda>x. specialist_role x = sa_role a) (cd_specialists c) of
             Some x \<Rightarrow> specialist_execute (lb_float L) (lb_json L) (in_result_ids inp i) (in_start inp i) (in_stop inp i) t x
           | None \<Rightarrow> role_result (sa_id a) (in_start inp i) (in_stop inp i) (sa_name a) t (default_output t a) True
               (sa_capability_score a) None))
       (strategy_select (lb_float L) (cd_strategy c) t agents bids)"

definition record_subtask :: "'f swarm_lib \<Rightarrow> int \<Rightarrow> swarm_task \<Rightarrow> 'f swarm_task_result \<Rightarrow> 'f coordinator \<Rightarrow> 'f coordinator" where
  "record_subtask L now t r c =
     (let F = lb_float L; role = (case st_required_role t of None \<Rightarrow> Executor | Some x \<Rightarrow> x)
      in c\<lparr>cd_emergent := emergent_record F now (tr_agent_id r) (st_name t) role r (cd_emergent c),
           cd_memory := memory_record F now t r (cd_memory c),
           cd_metrics := metrics_record now (tr_success r) (fl_int F (int (tr_execution_ms r))) (cd_metrics c)\<rparr>)"

fun run_subtasks ::
  "'f swarm_lib \<Rightarrow> swarm_inputs \<Rightarrow> 'f swarm_agent list \<Rightarrow> 'f swarm_bid list \<Rightarrow> nat \<Rightarrow> swarm_task list \<Rightarrow> 'f coordinator
     \<Rightarrow> ('f swarm_task_result list \<times> 'f coordinator) option" where
  "run_subtasks L inp agents bids i [] c = Some ([], c)"
| "run_subtasks L inp agents bids i (t # ts) c = (case execute_subtask L inp i t agents bids c of
       None \<Rightarrow> None
     | Some r \<Rightarrow> map_option (\<lambda>(rs, c'). (r # rs, c')) (run_subtasks L inp agents bids (i + 1) ts (record_subtask L (in_now inp) t r c)))"

definition adaptive_role_assignment :: "'f swarm_lib \<Rightarrow> int \<Rightarrow> 'f swarm_agent list \<Rightarrow> 'f emergent \<Rightarrow> 'f emergent" where
  "adaptive_role_assignment L now agents e = fold (\<lambda>a e. case suggest_role_change (lb_float L) (lb_show2 L) now (sa_id a) e of
     None \<Rightarrow> e | Some w \<Rightarrow> apply_role_switch w e) agents e"

definition adapt_topology :: "'f swarm_lib \<Rightarrow> int \<Rightarrow> 'f swarm_state \<Rightarrow> topology_manager \<Rightarrow> topology_manager" where
  "adapt_topology L now s m = switch_topology (lb_float L) (lb_log2 L) now (adaptive_topology s) (ss_agents s) m"

definition finish_coordination ::
  "'f swarm_lib \<Rightarrow> int \<Rightarrow> 'f swarm_state \<Rightarrow> 'f consensus_result \<Rightarrow> 'f coordinator \<Rightarrow> 'f coordinator" where
  "finish_coordination L now s d c =
     c\<lparr>cd_memory := record_decision d (cd_memory c),
       cd_metrics := metrics_consensus (cr_achieved d) (cd_metrics c),
       cd_emergent := (if cc_enable_dynamic_roles (cd_config c)
         then adaptive_role_assignment L now (ss_agents s) (cd_emergent c) else cd_emergent c),
       cd_topology := (if cc_enable_adaptive_topology (cd_config c) then adapt_topology L now s (cd_topology c) else cd_topology c)\<rparr>"

definition coordinate ::
  "'f swarm_lib \<Rightarrow> swarm_inputs \<Rightarrow> swarm_task \<Rightarrow> 'f swarm_state \<Rightarrow> 'f coordinator \<Rightarrow> ('f consensus_result \<times> 'f coordinator) option" where
  "coordinate L inp t s c =
     (let tasks = analyze_task (lb_float L) inp t c;
          bids = (if cc_enable_bidding (cd_config c) then collect_bids L (in_now inp) tasks (ss_agents s) else [])
      in case run_subtasks L inp (ss_agents s) bids 0 tasks c of
           None \<Rightarrow> None
         | Some (rs, c') \<Rightarrow> map_option (\<lambda>d. (d, finish_coordination L (in_now inp) s d c'))
             (evaluate_result (lb_float L) (lb_text L) (lb_show2 L) (cd_strategy c) t rs (ss_agents s)))"

section \<open>The engine\<close>

record 'f swarm_engine =
  se_state :: "'f swarm_state"
  se_config :: "'f swarm_config"
  se_coordinator :: "'f coordinator"
  se_channel :: swarm_channel
  se_topology :: topology_manager
  se_emergent :: "'f emergent"
  se_memory :: "'f swarm_memory"
  se_metrics :: "'f metrics_collector"
  se_running :: bool

definition engine_new :: "'f swarm_lib \<Rightarrow> ls_id \<Rightarrow> int \<Rightarrow> 'f swarm_config \<Rightarrow> 'f swarm_engine" where
  "engine_new L fresh now c =
     (let F = lb_float L
      in \<lparr>se_state = swarm_state_new F fresh now (sf_name c) (sf_strategy c) (sf_topology c), se_config = c,
          se_coordinator = coordinator_new F c (create_strategy F c), se_channel = swarm_channel_new 10000,
          se_topology = topology_new (sf_topology c), se_emergent = emergent_new 3 (fl_dec F 1 1), se_memory = swarm_memory_new,
          se_metrics = metrics_new 10000 60, se_running = False\<rparr>)"

definition engine_start :: "'f swarm_engine \<Rightarrow> 'f swarm_engine" where
  "engine_start e = e\<lparr>se_running := True\<rparr>"

definition engine_stop :: "'f swarm_engine \<Rightarrow> 'f swarm_engine" where
  "engine_stop e = e\<lparr>se_running := False\<rparr>"

definition swarm_full_text :: "string \<Rightarrow> nat \<Rightarrow> string" where
  "swarm_full_text n k = ''Swarm '' @ [CHR 0x27] @ n @ [CHR 0x27] @ '' at max capacity ('' @ show_nat k @ '')''"

definition engine_add_agent :: "'f swarm_lib \<Rightarrow> 'f swarm_agent \<Rightarrow> 'f swarm_engine \<Rightarrow> unit ls_result \<times> 'f swarm_engine" where
  "engine_add_agent L a e =
     (let F = lb_float L; s = se_state e
      in if length (ss_agents s) \<ge> sf_max_agents (se_config e)
         then (Inl (Internal (swarm_full_text (ss_name s) (sf_max_agents (se_config e)))), e)
         else let s' = s\<lparr>ss_agents := ss_agents s @ [a]\<rparr>;
                  (m, ch) = communicator_new (sa_id a) (sa_name a) (se_channel e)
              in (Inr (), e\<lparr>se_state := s', se_topology := topology_register F (lb_log2 L) a (ss_agents s') (se_topology e),
                     se_emergent := emergent_register F a (se_emergent e), se_channel := communicator_drop m ch\<rparr>))"

fun engine_add_agents :: "'f swarm_lib \<Rightarrow> 'f swarm_agent list \<Rightarrow> 'f swarm_engine \<Rightarrow> unit ls_result \<times> 'f swarm_engine" where
  "engine_add_agents L [] e = (Inr (), e)"
| "engine_add_agents L (a # as) e = (case engine_add_agent L a e of
     (Inl x, e') \<Rightarrow> (Inl x, e') | (Inr u, e') \<Rightarrow> engine_add_agents L as e')"

fun remove_first :: "('a \<Rightarrow> bool) \<Rightarrow> 'a list \<Rightarrow> 'a list" where
  "remove_first P [] = []"
| "remove_first P (x # xs) = (if P x then xs else x # remove_first P xs)"

definition engine_remove_agent :: "ls_id \<Rightarrow> 'f swarm_engine \<Rightarrow> unit ls_result \<times> 'f swarm_engine" where
  "engine_remove_agent i e =
     (let s = se_state e
      in if \<exists>a \<in> set (ss_agents s). sa_id a = i
         then (Inr (), e\<lparr>se_state := s\<lparr>ss_agents := remove_first (\<lambda>a. sa_id a = i) (ss_agents s)\<rparr>,
                 se_topology := topology_remove i (se_topology e)\<rparr>)
         else (Inl (Internal (''Agent '' @ show_id i @ '' not found in swarm '' @ [CHR 0x27] @ ss_name s @ [CHR 0x27])), e))"

definition engine_register_specialized :: "'f specialist \<Rightarrow> 'f swarm_engine \<Rightarrow> 'f swarm_engine" where
  "engine_register_specialized x e = e\<lparr>se_coordinator := register_specialized x (se_coordinator e)\<rparr>"

text \<open>What a submission does after it has been coordinated and has got the state for writing.\<close>

definition count_submission :: "'f float_ops \<Rightarrow> int \<Rightarrow> 'f consensus_result \<Rightarrow> 'f swarm_state \<Rightarrow> 'f swarm_state" where
  "count_submission F now d s =
     (let done = (if cr_achieved d then ss_completed s + 1 else ss_completed s);
          failed = (if cr_achieved d then ss_failed s else ss_failed s + 1)
      in s\<lparr>ss_active_tasks := ss_active_tasks s - 1, ss_completed := done, ss_failed := failed,
           ss_success_rate := (if done + failed > 0 then fl_div F (fl_int F (int done)) (fl_int F (int (done + failed))) else fl_int F 1),
           ss_last_updated := now\<rparr>)"

definition engine_metrics :: "'f swarm_lib \<Rightarrow> int \<Rightarrow> 'f swarm_engine \<Rightarrow> 'f swarm_metrics" where
  "engine_metrics L now e = collect_metrics (lb_float L) now (ss_id (se_state e)) (se_state e) (se_metrics e)"

record 'f swarm_summary =
  su_swarm_id :: ls_id
  su_name :: string
  su_strategy :: swarm_strategy
  su_topology :: swarm_topology
  su_agent_count :: nat
  su_available_agents :: nat
  su_busy_agents :: nat
  su_completed :: nat
  su_failed :: nat
  su_success_rate :: 'f
  su_throughput :: 'f
  su_avg_latency_ms :: 'f
  su_p50 :: 'f
  su_p90 :: 'f
  su_uptime_seconds :: nat
  su_is_running :: bool

definition engine_summary :: "'f swarm_lib \<Rightarrow> int \<Rightarrow> 'f swarm_engine \<Rightarrow> 'f swarm_summary" where
  "engine_summary L now e =
     (let s = se_state e; m = engine_metrics L now e
      in \<lparr>su_swarm_id = ss_id s, su_name = ss_name s, su_strategy = ss_strategy s, su_topology = ss_topology s,
          su_agent_count = agent_count s, su_available_agents = available_agent_count s, su_busy_agents = busy_agent_count s,
          su_completed = ss_completed s, su_failed = ss_failed s, su_success_rate = ss_success_rate s,
          su_throughput = sm_throughput m, su_avg_latency_ms = sm_avg_execution_ms m, su_p50 = sm_p50 m, su_p90 = sm_p90 m,
          su_uptime_seconds = nat (max (now - ss_started_at s) 0), su_is_running = se_running e\<rparr>)"

section \<open>Coordination\<close>

text \<open>The strategies of a configuration answer, so that a coordination always ends with a verdict.\<close>

lemma create_strategy_ok: "well_formed (create_strategy F c)"
  by (simp add: create_strategy_def hybrid_default_def voting_default_def consensus_default_def split: swarm_strategy.split)

lemma record_subtask_fields [simp]:
  "cd_strategy (record_subtask L now t r c) = cd_strategy c" "cd_specialists (record_subtask L now t r c) = cd_specialists c"
  "cd_config (record_subtask L now t r c) = cd_config c" "cd_topology (record_subtask L now t r c) = cd_topology c"
  by (simp_all add: record_subtask_def Let_def)

text \<open>What running subtasks gives: one result for each, and the counters go up by their number in all.\<close>

lemma run_subtasks_exact:
  assumes "well_formed (cd_strategy c)"
  shows "\<exists>rs c'. run_subtasks L inp agents bids i ts c = Some (rs, c') \<and> length rs = length ts \<and> map tr_task_id rs = map st_id ts
    \<and> cd_strategy c' = cd_strategy c \<and> cd_specialists c' = cd_specialists c \<and> cd_config c' = cd_config c \<and> cd_topology c' = cd_topology c
    \<and> mc_success (cd_metrics c') + mc_failure (cd_metrics c') = mc_success (cd_metrics c) + mc_failure (cd_metrics c) + length ts
    \<and> mc_success (cd_metrics c') = mc_success (cd_metrics c) + length (filter tr_success rs)"
  using assms
proof (induction ts arbitrary: i c)
  case (Cons t ts)
  from strategy_select_total [OF Cons.prems] obtain x where x: "strategy_select (lb_float L) (cd_strategy c) t agents bids = Some x"
    by blast
  then obtain r where r: "execute_subtask L inp i t agents bids c = Some r" by (simp add: execute_subtask_def)
  have id: "tr_task_id (specialist_execute F jf fresh start stop t y) = st_id t" for F :: "'a float_ops" and jf fresh start stop y
    by (cases y) (simp_all add: role_result_def Let_def)
  from r x have tr: "tr_task_id r = st_id t"
    by (auto simp: execute_subtask_def role_result_def id split: option.splits)
  let ?c = "record_subtask L (in_now inp) t r c"
  obtain rs c' where IH: "run_subtasks L inp agents bids (i + 1) ts ?c = Some (rs, c')" "length rs = length ts"
      "map tr_task_id rs = map st_id ts" "cd_strategy c' = cd_strategy c" "cd_specialists c' = cd_specialists c"
      "cd_config c' = cd_config c" "cd_topology c' = cd_topology c"
      "mc_success (cd_metrics c') + mc_failure (cd_metrics c') = mc_success (cd_metrics ?c) + mc_failure (cd_metrics ?c) + length ts"
      "mc_success (cd_metrics c') = mc_success (cd_metrics ?c) + length (filter tr_success rs)"
    using Cons.IH [of ?c "i + 1"] Cons.prems by auto
  have "mc_success (cd_metrics ?c) = mc_success (cd_metrics c) + (if tr_success r then 1 else 0)"
    "mc_success (cd_metrics ?c) + mc_failure (cd_metrics ?c) = mc_success (cd_metrics c) + mc_failure (cd_metrics c) + 1"
    by (simp_all add: record_subtask_def metrics_record_def Let_def)
  with IH r tr show ?case by simp
qed simp

lemma metrics_consensus_fields [simp]:
  "mc_success (metrics_consensus a c) = mc_success c" "mc_failure (metrics_consensus a c) = mc_failure c"
  by (simp_all add: metrics_consensus_def)

text \<open>A coordination gives a verdict, the one of the strategy over one result for each part of the task, keeps it in the
  memory and counts every part.\<close>

theorem coordinate_exact:
  assumes "well_formed (cd_strategy c)"
  shows "\<exists>d c' rs. coordinate L inp t s c = Some (d, c')
    \<and> evaluate_result (lb_float L) (lb_text L) (lb_show2 L) (cd_strategy c) t rs (ss_agents s) = Some d
    \<and> map tr_task_id rs = map st_id (analyze_task (lb_float L) inp t c)
    \<and> (\<exists>ds. my_decisions (cd_memory c') = ds @ [d])
    \<and> mc_success (cd_metrics c') + mc_failure (cd_metrics c') = mc_success (cd_metrics c) + mc_failure (cd_metrics c) + length rs
    \<and> cd_strategy c' = cd_strategy c"
proof -
  let ?ts = "analyze_task (lb_float L) inp t c"
  let ?bids = "if cc_enable_bidding (cd_config c) then collect_bids L (in_now inp) ?ts (ss_agents s) else []"
  obtain rs c1 where run: "run_subtasks L inp (ss_agents s) ?bids 0 ?ts c = Some (rs, c1)" "length rs = length ?ts"
      "map tr_task_id rs = map st_id ?ts" "cd_strategy c1 = cd_strategy c"
      "mc_success (cd_metrics c1) + mc_failure (cd_metrics c1) = mc_success (cd_metrics c) + mc_failure (cd_metrics c) + length ?ts"
    using run_subtasks_exact [OF assms, of L inp "ss_agents s" ?bids 0 ?ts] by blast
  obtain d where d: "evaluate_result (lb_float L) (lb_text L) (lb_show2 L) (cd_strategy c) t rs (ss_agents s) = Some d"
    using evaluate_result_total [OF assms] by blast
  let ?c = "finish_coordination L (in_now inp) s d c1"
  have "coordinate L inp t s c = Some (d, ?c)" using run(1) d by (simp add: coordinate_def Let_def)
  moreover have "my_decisions (cd_memory ?c) = my_decisions (cd_memory c1) @ [d]"
    by (simp add: finish_coordination_def record_decision_def)
  moreover have "cd_strategy ?c = cd_strategy c" using run(4) by (simp add: finish_coordination_def)
  moreover have "mc_success (cd_metrics ?c) + mc_failure (cd_metrics ?c) = mc_success (cd_metrics c) + mc_failure (cd_metrics c) + length rs"
    using run(2,5) by (simp add: finish_coordination_def)
  ultimately show ?thesis using d run(3) by blast
qed

definition rat_lib :: "rat swarm_lib" where
  "rat_lib = \<lparr>lb_float = rat_ops, lb_text = (\<lambda>_. ''x''), lb_show2 = (\<lambda>_. ''0''), lb_json = (\<lambda>_. Null), lb_log2 = id\<rparr>"

definition sample_inputs :: swarm_inputs where
  "sample_inputs = \<lparr>in_part_ids = (\<lambda>i. i + 100), in_result_ids = (\<lambda>i. i + 200), in_start = (\<lambda>_. 0), in_stop = (\<lambda>_. 1), in_now = 0\<rparr>"

theorem coordinate_exact_witness:
  "\<exists>d c'. coordinate rat_lib sample_inputs (swarm_task_new 1 0 ''t'' ''d'' Null) (swarm_state_new rat_ops 1 0 ''s'' Voting Mesh)
      (coordinator_new rat_ops (swarm_config_default rat_ops) HierarchicalStrategy) = Some (d, c')
    \<and> mc_success (cd_metrics c') + mc_failure (cd_metrics c') = 1"
proof -
  let ?t = "swarm_task_new 1 0 ''t'' ''d'' Null"
  let ?c = "coordinator_new rat_ops (swarm_config_default rat_ops) HierarchicalStrategy"
  have parts: "analyze_task (lb_float rat_lib) sample_inputs ?t ?c = [?t]" by (simp add: analyze_task_def swarm_task_new_def)
  have "well_formed (cd_strategy ?c)" by (simp add: coordinator_new_def)
  from coordinate_exact [OF this, of rat_lib sample_inputs ?t "swarm_state_new rat_ops 1 0 ''s'' Voting Mesh"]
  obtain d c' and rs :: "rat swarm_task_result list" where d: "coordinate rat_lib sample_inputs ?t (swarm_state_new rat_ops 1 0 ''s'' Voting Mesh) ?c = Some (d, c')"
    "map tr_task_id rs = map st_id [?t]"
    "mc_success (cd_metrics c') + mc_failure (cd_metrics c') = mc_success (cd_metrics ?c) + mc_failure (cd_metrics ?c) + length rs"
    unfolding parts by blast
  from d(2) have "length rs = 1" by (metis length_map length_Cons list.size(3) One_nat_def)
  with d(3) have "mc_success (cd_metrics c') + mc_failure (cd_metrics c') = 1"
    by (simp add: coordinator_new_def metrics_new_def)
  with d(1) show ?thesis by blast
qed

section \<open>What the engine learns\<close>

text \<open>The parts of the engine and of its coordinator are different ones: what coordination records is in the coordinator's memory
  and metrics, whose profiles are empty, and the engine's own are never written.\<close>

lemma suggestions_empty: "eg_profiles e = [] \<Longrightarrow> adaptive_role_assignment L now agents e = e"
  unfolding adaptive_role_assignment_def by (induction agents) (simp_all add: no_profile_no_switch)

lemma record_empty: "eg_profiles e = [] \<Longrightarrow> emergent_record F now i name role r e = e"
  by (rule record_without_profile) simp

lemma run_subtasks_emergent:
  "eg_profiles (cd_emergent c) = [] \<Longrightarrow> run_subtasks L inp agents bids i ts c = Some (rs, c') \<Longrightarrow> cd_emergent c' = cd_emergent c"
proof (induction ts arbitrary: i c rs c')
  case (Cons t ts)
  from Cons.prems(2) obtain r where r: "execute_subtask L inp i t agents bids c = Some r" by (auto split: option.splits)
  let ?c = "record_subtask L (in_now inp) t r c"
  from Cons.prems(1) have eq: "cd_emergent ?c = cd_emergent c" by (simp add: record_subtask_def Let_def record_empty)
  from Cons.prems(2) r obtain rs' where "run_subtasks L inp agents bids (i + 1) ts ?c = Some (rs', c')" by auto
  from Cons.IH [OF _ this] show ?case using Cons.prems(1) by (simp add: eq)
qed simp

lemma coordinate_emergent:
  assumes "eg_profiles (cd_emergent c) = []" "coordinate L inp t s c = Some (d, c')"
  shows "cd_emergent c' = cd_emergent c"
proof -
  from assms(2) obtain bids rs c1 where run: "run_subtasks L inp (ss_agents s) bids 0 (analyze_task (lb_float L) inp t c) c = Some (rs, c1)"
    and c': "c' = finish_coordination L (in_now inp) s d c1"
    by (auto simp: coordinate_def Let_def split: option.splits prod.splits)
  from run_subtasks_emergent [OF assms(1) run] assms(1) show ?thesis
    by (simp add: c' finish_coordination_def suggestions_empty)
qed

lemma coordinate_strategy:
  assumes "well_formed (cd_strategy c)" "coordinate L inp t s c = Some (d, c')"
  shows "cd_strategy c' = cd_strategy c"
proof -
  from assms(2) obtain bids rs c1 where run: "run_subtasks L inp (ss_agents s) bids 0 (analyze_task (lb_float L) inp t c) c = Some (rs, c1)"
    and c': "c' = finish_coordination L (in_now inp) s d c1"
    by (auto simp: coordinate_def Let_def split: option.splits prod.splits)
  from run_subtasks_exact [OF assms(1), of L inp "ss_agents s" bids 0 "analyze_task (lb_float L) inp t c"] run
  show ?thesis by (auto simp: c' finish_coordination_def)
qed

text \<open>The operations of the engine, with a submission as far as its coordination.\<close>

inductive swarm_engine_step :: "'f swarm_lib \<Rightarrow> 'f swarm_engine \<Rightarrow> 'f swarm_engine \<Rightarrow> bool" for L where
  step_start: "swarm_engine_step L e (engine_start e)"
| step_stop: "swarm_engine_step L e (engine_stop e)"
| step_add: "swarm_engine_step L e (snd (engine_add_agent L a e))"
| step_remove: "swarm_engine_step L e (snd (engine_remove_agent i e))"
| step_specialist: "swarm_engine_step L e (engine_register_specialized x e)"
| step_coordinate: "coordinate L inp t (se_state e) (se_coordinator e) = Some (d, c) \<Longrightarrow> swarm_engine_step L e (e\<lparr>se_coordinator := c\<rparr>)"
| step_count: "swarm_engine_step L e (e\<lparr>se_state := count_submission F now d (se_state e)\<rparr>)"

definition swarm_engine_inv :: "'f swarm_lib \<Rightarrow> 'f swarm_config \<Rightarrow> 'f swarm_engine \<Rightarrow> bool" where
  "swarm_engine_inv L c e \<longleftrightarrow> se_config e = c \<and> length (ss_agents (se_state e)) \<le> sf_max_agents c
     \<and> se_metrics e = metrics_new 10000 60 \<and> se_memory e = swarm_memory_new
     \<and> cd_emergent (se_coordinator e) = emergent_new 3 (fl_dec (lb_float L) 1 1)
     \<and> well_formed (cd_strategy (se_coordinator e))"

lemma swarm_engine_inv_new: "swarm_engine_inv L c (engine_new L fresh now c)"
  by (simp add: swarm_engine_inv_def engine_new_def coordinator_new_def swarm_state_new_def Let_def create_strategy_ok)

lemma length_remove_first: "length (remove_first P xs) \<le> length xs"
  by (induction xs) auto

lemma swarm_engine_inv_step: "swarm_engine_step L e e' \<Longrightarrow> swarm_engine_inv L c e \<Longrightarrow> swarm_engine_inv L c e'"
proof (induction rule: swarm_engine_step.induct)
  case (step_remove e i)
  then show ?case using length_remove_first [of "\<lambda>a. sa_id a = i" "ss_agents (se_state e)"]
    by (simp add: swarm_engine_inv_def engine_remove_agent_def Let_def)
next
  case (step_coordinate inp t e d cd)
  then have "well_formed (cd_strategy (se_coordinator e))" "eg_profiles (cd_emergent (se_coordinator e)) = []"
    by (simp_all add: swarm_engine_inv_def emergent_new_def)
  note this(1) coordinate_strategy [OF this(1) step_coordinate(1)] coordinate_emergent [OF this(2) step_coordinate(1)]
  with step_coordinate(2) show ?case by (simp add: swarm_engine_inv_def)
qed (auto simp: swarm_engine_inv_def engine_start_def engine_stop_def engine_add_agent_def engine_register_specialized_def register_specialized_def
    count_submission_def Let_def split: prod.splits)

text \<open>C32: whatever is done with an engine, its numbers of agents stay within the maximum; its metrics are those of an engine that has done
  nothing and its memory is empty; and the coordinator never has a profile or changes a role.\<close>

theorem engine_learns_nothing:
  assumes "(swarm_engine_step L)\<^sup>*\<^sup>* (engine_new L fresh now c) e"
  shows "length (ss_agents (se_state e)) \<le> sf_max_agents c
    \<and> se_metrics e = metrics_new 10000 60 \<and> failure_patterns (lb_float L) (se_memory e) = []
    \<and> sm_p99 (engine_metrics L later e) = fl_int (lb_float L) 0 \<and> sm_success_rate (engine_metrics L later e) = fl_int (lb_float L) 1
    \<and> eg_switches (cd_emergent (se_coordinator e)) = []
    \<and> (\<forall>i. suggest_role_change (lb_float L) (lb_show2 L) later i (cd_emergent (se_coordinator e)) = None)"
proof -
  from assms have "swarm_engine_inv L c e"
    by (induction rule: rtranclp_induct) (auto intro: swarm_engine_inv_new swarm_engine_inv_step)
  then show ?thesis
    by (simp add: swarm_engine_inv_def failure_patterns_def swarm_memory_new_def emergent_new_def no_profile_no_switch engine_metrics_def
        collect_metrics_def metrics_new_def percentile_def rate_of_def fl_sort_def Let_def)
qed

theorem engine_learns_nothing_witness:
  "eg_switches (cd_emergent (se_coordinator (engine_start (engine_new rat_lib 1 0 (swarm_config_default rat_ops))))) = []"
proof -
  have "(swarm_engine_step rat_lib)\<^sup>*\<^sup>* (engine_new rat_lib 1 0 (swarm_config_default rat_ops))
      (engine_start (engine_new rat_lib 1 0 (swarm_config_default rat_ops)))"
    by (rule r_into_rtranclp) (rule step_start)
  from engine_learns_nothing [OF this] show ?thesis by blast
qed

text \<open>An agent that has been added is not reached by a message: its end of the channel is never initialised.\<close>

lemma added_not_registered:
  assumes "wc_direct (se_channel e) = []" "engine_add_agent L a e = (r, e')" "sg_target m = Some i"
  shows "fst (swarm_send f m (se_channel e')) = Inl (''Agent '' @ f i @ '' not registered'')"
proof -
  have "wc_direct (se_channel e') = []"
    using assms(1,2) by (auto simp: engine_add_agent_def communicator_new_def channel_subscribe_def communicator_drop_def close_inbox_def
        Let_def split: if_splits)
  with assms(3) show ?thesis by (simp add: direct_exact)
qed

end
