(* ===== verification/Swarm_Locks.thy ===== *)
theory Swarm_Locks
  imports Swarm_Engine
begin

text \<open>
  Calls of a swarm engine that run at the same time (\<open>swarm/src/engine.rs\<close>). The state is behind a lock for readers and
  writers that serves requests in the order of their arrival: a request waits until all before it have been served
  and, to read, until nobody writes, to write, until nobody reads or writes. A submission keeps its guard for
  reading while it asks for one for writing, and a summary keeps its guard while it asks for a second one for reading.
  Each stretch between two requests is one step.
\<close>

section \<open>Calls\<close>

datatype 'f swarm_call =
  CSubmit swarm_inputs swarm_task
| CAdd "'f swarm_agent"
| CRemove ls_id
| CRead
| CSummary

datatype 'f swarm_return =
  RConsensus "'f consensus_result ls_result"
| RUnit "unit ls_result"
| RState "'f swarm_state"
| RSummary "'f swarm_summary"

text \<open>A call waits for its first guard, holds it, waits for a second one while holding the first, holds both, or has returned.\<close>

datatype 'f call_phase =
  Waiting "'f swarm_call"
| Holding "'f swarm_call"
| Upgrading "'f swarm_call" "'f consensus_result option"
| Both "'f swarm_call" "'f consensus_result option"
| Returned "'f swarm_return"

record 'f swarm_sys =
  sy_engine :: "'f swarm_engine"
  sy_readers :: "nat list"
  sy_writer :: "nat option"
  sy_queue :: "(nat \<times> bool) list"
  sy_phase :: "nat \<Rightarrow> 'f call_phase option"

definition sys_new :: "'f swarm_engine \<Rightarrow> 'f swarm_sys" where
  "sys_new e = \<lparr>sy_engine = e, sy_readers = [], sy_writer = None, sy_queue = [], sy_phase = (\<lambda>_. None)\<rparr>"

fun is_submit :: "'f swarm_call \<Rightarrow> bool" where
  "is_submit (CSubmit inp t) = True"
| "is_submit _ = False"

fun wants_write :: "'f swarm_call \<Rightarrow> bool" where
  "wants_write (CAdd a) = True"
| "wants_write (CRemove i) = True"
| "wants_write _ = False"

definition set_phase :: "nat \<Rightarrow> 'f call_phase \<Rightarrow> 'f swarm_sys \<Rightarrow> 'f swarm_sys" where
  "set_phase u p s = s\<lparr>sy_phase := (sy_phase s)(u \<mapsto> p)\<rparr>"

definition request :: "nat \<Rightarrow> bool \<Rightarrow> 'f swarm_sys \<Rightarrow> 'f swarm_sys" where
  "request u w s = s\<lparr>sy_queue := sy_queue s @ [(u, w)]\<rparr>"

definition release_read :: "nat \<Rightarrow> 'f swarm_sys \<Rightarrow> 'f swarm_sys" where
  "release_read u s = s\<lparr>sy_readers := remove1 u (sy_readers s)\<rparr>"

fun promote :: "'f call_phase \<Rightarrow> 'f call_phase" where
  "promote (Waiting c) = Holding c"
| "promote (Upgrading c d) = Both c d"
| "promote p = p"

definition not_running :: "'f swarm_return" where
  "not_running = RConsensus (Inl (Internal ''SwarmEngine is not running''))"

definition no_agents :: "'f swarm_return" where
  "no_agents = RConsensus (Inl (Internal ''No agents in swarm''))"

inductive sys_step :: "'f swarm_lib \<Rightarrow> 'f swarm_sys \<Rightarrow> 'f swarm_sys \<Rightarrow> bool" for L where
  toggle: "sys_step L s (s\<lparr>sy_engine := (sy_engine s)\<lparr>se_running := b\<rparr>\<rparr>)"
| call: "sy_phase s u = None \<Longrightarrow> \<not> se_running (sy_engine s) \<Longrightarrow> sys_step L s (set_phase u (Returned not_running) s)"
| call_wait: "sy_phase s u = None \<Longrightarrow> \<not> is_submit c \<or> se_running (sy_engine s) \<Longrightarrow>
    sys_step L s (set_phase u (Waiting c) (request u (wants_write c) s))"
| grant_read: "sy_queue s = (u, False) # q \<Longrightarrow> sy_writer s = None \<Longrightarrow> sy_phase s u = Some p \<Longrightarrow>
    sys_step L s (set_phase u (promote p) (s\<lparr>sy_queue := q, sy_readers := u # sy_readers s\<rparr>))"
| grant_write: "sy_queue s = (u, True) # q \<Longrightarrow> sy_writer s = None \<Longrightarrow> sy_readers s = [] \<Longrightarrow> sy_phase s u = Some p \<Longrightarrow>
    sys_step L s (set_phase u (promote p) (s\<lparr>sy_queue := q, sy_writer := Some u\<rparr>))"
| submit_empty: "sy_phase s u = Some (Holding (CSubmit inp t)) \<Longrightarrow> ss_agents (se_state (sy_engine s)) = [] \<Longrightarrow>
    sys_step L s (set_phase u (Returned no_agents) (release_read u s))"
| submit_coordinate: "sy_phase s u = Some (Holding (CSubmit inp t)) \<Longrightarrow> ss_agents (se_state (sy_engine s)) \<noteq> [] \<Longrightarrow>
    coordinate L inp t (se_state (sy_engine s)) (se_coordinator (sy_engine s)) = Some (d, c) \<Longrightarrow>
    sys_step L s (set_phase u (Upgrading (CSubmit inp t) (Some d))
      (request u True (s\<lparr>sy_engine := (sy_engine s)\<lparr>se_coordinator := c\<rparr>\<rparr>)))"
| submit_done: "sy_phase s u = Some (Both (CSubmit inp t) (Some d)) \<Longrightarrow> sy_writer s = Some u \<Longrightarrow>
    sys_step L s (set_phase u (Returned (RConsensus (Inr d))) (release_read u (s\<lparr>sy_writer := None,
      sy_engine := (sy_engine s)\<lparr>se_state := count_submission (lb_float L) (in_now inp) d (se_state (sy_engine s))\<rparr>\<rparr>)))"
| add_done: "sy_phase s u = Some (Holding (CAdd a)) \<Longrightarrow> sy_writer s = Some u \<Longrightarrow> engine_add_agent L a (sy_engine s) = (r, e) \<Longrightarrow>
    sys_step L s (set_phase u (Returned (RUnit r)) (s\<lparr>sy_writer := None, sy_engine := e\<rparr>))"
| remove_done: "sy_phase s u = Some (Holding (CRemove i)) \<Longrightarrow> sy_writer s = Some u \<Longrightarrow> engine_remove_agent i (sy_engine s) = (r, e) \<Longrightarrow>
    sys_step L s (set_phase u (Returned (RUnit r)) (s\<lparr>sy_writer := None, sy_engine := e\<rparr>))"
| read_done: "sy_phase s u = Some (Holding CRead) \<Longrightarrow>
    sys_step L s (set_phase u (Returned (RState (se_state (sy_engine s)))) (release_read u s))"
| summary_again: "sy_phase s u = Some (Holding CSummary) \<Longrightarrow>
    sys_step L s (set_phase u (Upgrading CSummary None) (request u False s))"
| summary_done: "sy_phase s u = Some (Both CSummary None) \<Longrightarrow>
    sys_step L s (set_phase u (Returned (RSummary (engine_summary L now (sy_engine s)))) (release_read u (release_read u s)))"

inductive_cases sys_stepE: "sys_step L s s'"

lemmas sys_defs = set_phase_def request_def release_read_def

section \<open>Who holds the lock\<close>

text \<open>Guards to read and to write are never out at once, a call that waits for its second guard has its first, and the
  requests in the queue are those of the calls that wait. A submission never has both of its guards.\<close>

fun holds_read :: "'f call_phase \<Rightarrow> bool" where
  "holds_read (Holding c) = (\<not> wants_write c)"
| "holds_read (Upgrading c d) = True"
| "holds_read _ = False"

fun waits_for :: "'f call_phase \<Rightarrow> bool option" where
  "waits_for (Waiting c) = Some (wants_write c)"
| "waits_for (Upgrading c d) = Some (is_submit c)"
| "waits_for _ = None"

fun outcome_ok :: "'f call_phase \<Rightarrow> bool" where
  "outcome_ok (Both c d) = (\<not> is_submit c)"
| "outcome_ok (Upgrading c d) = (\<not> wants_write c)"
| "outcome_ok (Returned (RConsensus r)) = (RConsensus r = not_running \<or> RConsensus r = no_agents)"
| "outcome_ok _ = True"

definition lock_inv :: "'f swarm_sys \<Rightarrow> bool" where
  "lock_inv s \<longleftrightarrow> (sy_writer s \<noteq> None \<longrightarrow> sy_readers s = []) \<and> distinct (map fst (sy_queue s))
     \<and> (\<forall>u w. (u, w) \<in> set (sy_queue s) \<longleftrightarrow> (\<exists>p. sy_phase s u = Some p \<and> waits_for p = Some w))
     \<and> (\<forall>u p. sy_phase s u = Some p \<longrightarrow> (holds_read p \<longrightarrow> u \<in> set (sy_readers s)) \<and> outcome_ok p)"

lemma lock_inv_new: "lock_inv (sys_new e)"
  by (simp add: lock_inv_def sys_new_def)


lemma lock_inv_step:
  assumes "sys_step L s s'" "lock_inv s"
  shows "lock_inv s'"
  using assms
proof (induction rule: sys_step.induct)
  case (toggle s b)
  then show ?case by (simp add: lock_inv_def)
next
  case (call s u)
  then show ?case by (auto simp: lock_inv_def sys_defs not_running_def)
next
  case (call_wait s u c)
  then show ?case unfolding lock_inv_def sys_defs by (cases c) (auto simp: image_iff)
next
  case (grant_read s u q p)
  then have "(u, False) \<in> set (sy_queue s)" by simp
  with grant_read have "waits_for p = Some False" unfolding lock_inv_def by (metis option.inject)
  with grant_read show ?case unfolding lock_inv_def sys_defs
    by (cases p) (auto simp: image_iff)
next
  case (grant_write s u q p)
  then have "(u, True) \<in> set (sy_queue s)" by simp
  with grant_write have "waits_for p = Some True" "\<not> holds_read p" unfolding lock_inv_def by (metis option.inject, auto)
  with grant_write show ?case unfolding lock_inv_def sys_defs
    by (cases p) (auto simp: image_iff)
next
  case (submit_empty s u inp t)
  then show ?case unfolding lock_inv_def sys_defs by (auto simp: no_agents_def)
next
  case (submit_coordinate s u inp t d c)
  then show ?case unfolding lock_inv_def sys_defs by (auto simp: image_iff)
next
  case (submit_done s u inp t d)
  then have "outcome_ok (Both (CSubmit inp t) (Some d))" unfolding lock_inv_def by blast
  then show ?case by simp
next
  case (add_done s u a r e)
  then show ?case unfolding lock_inv_def sys_defs by auto
next
  case (remove_done s u i r e)
  then show ?case unfolding lock_inv_def sys_defs by auto
next
  case (read_done s u)
  then show ?case unfolding lock_inv_def sys_defs by auto
next
  case (summary_again s u)
  then show ?case unfolding lock_inv_def sys_defs by (auto simp: image_iff)
next
  case (summary_done s u now)
  then show ?case unfolding lock_inv_def sys_defs by auto
qed


section \<open>Calls that never return\<close>

text \<open>A call is stuck that waits for its second guard behind a request to write, its own or another's: the request to write
  cannot be served while the call reads, and nothing behind it is served before it.\<close>

definition stuck :: "nat \<Rightarrow> nat set \<Rightarrow> 'f swarm_sys \<Rightarrow> bool" where
  "stuck t later s \<longleftrightarrow> (\<exists>c d. sy_phase s t = Some (Upgrading c d)) \<and> t \<in> set (sy_readers s) \<and> sy_writer s = None
     \<and> (\<exists>pre w post. sy_queue s = pre @ (w, True) # post \<and> t \<notin> fst ` set pre \<and> later \<inter> insert w (fst ` set pre) = {})
     \<and> (\<forall>u \<in> later. sy_phase s u = None \<or> (\<exists>c. sy_phase s u = Some (Waiting c)) \<or> sy_phase s u = Some (Returned not_running))"

lemma stuck_mono_queue:
  assumes "pre @ (w, True) # post = (u, b) # q"
  shows "(b \<and> u = w \<and> pre = []) \<or> (\<exists>pre'. pre = (u, b) # pre' \<and> q = pre' @ (w, True) # post)"
  using assms by (cases pre) auto

lemma stuck_step:
  assumes "sys_step L s s'" "stuck t later s"
  shows "stuck t later s' \<and> sy_phase s' t = sy_phase s t \<and> se_state (sy_engine s') = se_state (sy_engine s)"
  using assms
proof (induction rule: sys_step.induct)
  case (toggle s b)
  then show ?case by (simp add: stuck_def)
next
  case (call s u)
  then show ?case by (auto simp: stuck_def sys_defs)
next
  case (call_wait s u c)
  from call_wait(3) obtain pre w post where q: "sy_queue s = pre @ (w, True) # post" "t \<notin> fst ` set pre" "later \<inter> insert w (fst ` set pre) = {}"
    by (auto simp: stuck_def)
  then have "sy_queue s @ [(u, wants_write c)] = pre @ (w, True) # (post @ [(u, wants_write c)])" by simp
  with call_wait q(2,3) show ?case unfolding stuck_def sys_defs by auto
next
  case (grant_read s u q p)
  from grant_read(4) obtain pre w post where pre: "sy_queue s = pre @ (w, True) # post" "t \<notin> fst ` set pre" "later \<inter> insert w (fst ` set pre) = {}"
    by (auto simp: stuck_def)
  with stuck_mono_queue [of pre w post u False q] grant_read(1) obtain pre' where "pre = (u, False) # pre'" "q = pre' @ (w, True) # post"
    by auto
  with pre grant_read show ?case unfolding stuck_def sys_defs by auto
next
  case (grant_write s u q p)
  then show ?case by (simp add: stuck_def)
next
  case (submit_empty s u inp t')
  then show ?case unfolding stuck_def sys_defs by auto
next
  case (submit_coordinate s u inp t' d c)
  from submit_coordinate(4) obtain pre w post where q: "sy_queue s = pre @ (w, True) # post" "t \<notin> fst ` set pre" "later \<inter> insert w (fst ` set pre) = {}"
    by (auto simp: stuck_def)
  then have "sy_queue s @ [(u, True)] = pre @ (w, True) # (post @ [(u, True)])" by simp
  with submit_coordinate q(2,3) show ?case unfolding stuck_def sys_defs by auto
next
  case (submit_done s u inp t' d)
  then show ?case by (simp add: stuck_def)
next
  case (add_done s u a r e)
  then show ?case by (simp add: stuck_def)
next
  case (remove_done s u i r e)
  then show ?case by (simp add: stuck_def)
next
  case (read_done s u)
  then show ?case unfolding stuck_def sys_defs by auto
next
  case (summary_again s u)
  from summary_again(2) obtain pre w post where q: "sy_queue s = pre @ (w, True) # post" "t \<notin> fst ` set pre" "later \<inter> insert w (fst ` set pre) = {}"
    by (auto simp: stuck_def)
  then have "sy_queue s @ [(u, False)] = pre @ (w, True) # (post @ [(u, False)])" by simp
  with summary_again q(2,3) show ?case unfolding stuck_def sys_defs by auto
next
  case (summary_done s u now)
  then show ?case unfolding stuck_def sys_defs by auto
qed

lemma stuck_steps:
  assumes "(sys_step L)\<^sup>*\<^sup>* s s'" "stuck t later s"
  shows "stuck t later s' \<and> sy_phase s' t = sy_phase s t \<and> se_state (sy_engine s') = se_state (sy_engine s)"
  using assms(1)
proof (induction rule: rtranclp_induct)
  case (step s1 s2)
  then show ?case using stuck_step [of L s1 s2 t later] by auto
qed (use assms(2) in simp)


lemma lock_inv_steps: "(sys_step L)\<^sup>*\<^sup>* (sys_new e) s \<Longrightarrow> lock_inv s"
  by (induction rule: rtranclp_induct) (auto intro: lock_inv_new lock_inv_step)

lemma stuck_behind_write:
  assumes "lock_inv s" "sy_phase s t = Some (Upgrading c d)" "sy_queue s = pre @ (w, True) # post" "t \<notin> fst ` set pre"
  shows "stuck t {u. sy_phase s u = None} s"
proof -
  have "t \<in> set (sy_readers s)" using assms(1,2) unfolding lock_inv_def by (metis holds_read.simps(2))
  moreover from this have "sy_writer s = None" using assms(1) unfolding lock_inv_def by auto
  moreover have "{u. sy_phase s u = None} \<inter> insert w (fst ` set pre) = {}"
  proof -
    have "sy_phase s u \<noteq> None" if "u \<in> insert w (fst ` set pre)" for u
    proof -
      have "u \<in> fst ` set (sy_queue s)" using that assms(3) by auto
      then obtain b where "(u, b) \<in> set (sy_queue s)" by auto
      then show ?thesis using assms(1) unfolding lock_inv_def by auto
    qed
    then have "\<forall>u \<in> insert w (fst ` set pre). sy_phase s u \<noteq> None" by blast
    then show ?thesis by blast
  qed
  ultimately show ?thesis using assms(2-4) unfolding stuck_def by blast
qed

text \<open>C31: a submission that has been coordinated waits for itself: it never returns, in whatever order the calls go on. From then on the
  state of the swarm is never changed, and no later call is served: it is not made, waits for ever, or is told that
  the engine does not run.\<close>

theorem submit_never_returns:
  assumes "(sys_step L)\<^sup>*\<^sup>* (sys_new e) s" "sy_phase s t = Some (Upgrading (CSubmit inp x) d)" "(sys_step L)\<^sup>*\<^sup>* s s'"
  shows "sy_phase s' t = sy_phase s t \<and> se_state (sy_engine s') = se_state (sy_engine s)
    \<and> (\<forall>u. sy_phase s u = None \<longrightarrow> sy_phase s' u = None \<or> (\<exists>c. sy_phase s' u = Some (Waiting c))
         \<or> sy_phase s' u = Some (Returned not_running))"
proof -
  have inv: "lock_inv s" by (rule lock_inv_steps [OF assms(1)])
  have "(t, True) \<in> set (sy_queue s)" using inv assms(2) unfolding lock_inv_def by auto
  then obtain pre post where q: "sy_queue s = pre @ (t, True) # post" by (meson split_list)
  moreover have "t \<notin> fst ` set pre" using inv q unfolding lock_inv_def by auto
  ultimately have "stuck t {u. sy_phase s u = None} s" by (rule stuck_behind_write [OF inv assms(2)])
  note stuck_steps [OF assms(3) this]
  then show ?thesis by (auto simp: stuck_def)
qed

text \<open>A summary that waits behind a request to write waits for ever with everything after it.\<close>

lemma summary_stuck:
  assumes "(sys_step L)\<^sup>*\<^sup>* (sys_new e) s" "sy_phase s t = Some (Upgrading CSummary None)"
    and "sy_queue s = pre @ (w, True) # post" "t \<notin> fst ` set pre" "(sys_step L)\<^sup>*\<^sup>* s s'"
  shows "sy_phase s' t = sy_phase s t \<and> se_state (sy_engine s') = se_state (sy_engine s)"
  using stuck_steps [OF assms(5) stuck_behind_write [OF lock_inv_steps [OF assms(1)] assms(2-4)]] by blast


section \<open>A submission that gets stuck\<close>

lemma submission_coordinated:
  fixes e :: "'f swarm_engine"
  assumes "well_formed (cd_strategy (se_coordinator e))" "length (ss_agents (se_state e)) < sf_max_agents (se_config e)"
  shows "\<exists>s d. (sys_step L)\<^sup>*\<^sup>* (sys_new e) s \<and> sy_phase s 1 = Some (Upgrading (CSubmit inp x) (Some d))"
proof -
  let ?s1 = "(sys_new e)\<lparr>sy_engine := e\<lparr>se_running := True\<rparr>\<rparr>"
  fix a :: "'f swarm_agent"
  let ?s2 = "set_phase 0 (Waiting (CAdd a)) (request 0 (wants_write (CAdd a)) ?s1)"
  let ?s3 = "set_phase 0 (Holding (CAdd a)) (?s2\<lparr>sy_queue := [], sy_writer := Some 0\<rparr>)"
  obtain r e4 where e4: "engine_add_agent L a (e\<lparr>se_running := True\<rparr>) = (r, e4)"
    by (cases "engine_add_agent L a (e\<lparr>se_running := True\<rparr>)") blast
  let ?s4 = "set_phase 0 (Returned (RUnit r)) (?s3\<lparr>sy_writer := None, sy_engine := e4\<rparr>)"
  let ?s5 = "set_phase 1 (Waiting (CSubmit inp x)) (request 1 (wants_write (CSubmit inp x :: 'f swarm_call)) ?s4)"
  let ?s6 = "set_phase 1 (Holding (CSubmit inp x)) (?s5\<lparr>sy_queue := [], sy_readers := [1]\<rparr>)"
  have e4': "se_running e4" "ss_agents (se_state e4) \<noteq> []" "se_coordinator e4 = se_coordinator e"
    using e4 assms(2) by (auto simp: engine_add_agent_def Let_def split: prod.splits)
  obtain d c where d: "coordinate L inp x (se_state e4) (se_coordinator e4) = Some (d, c)"
  proof -
    obtain rs c1 where "run_subtasks L inp (ss_agents (se_state e4)) (if cc_enable_bidding (cd_config (se_coordinator e4))
        then collect_bids L (in_now inp) (analyze_task (lb_float L) inp x (se_coordinator e4)) (ss_agents (se_state e4)) else [])
        0 (analyze_task (lb_float L) inp x (se_coordinator e4)) (se_coordinator e4) = Some (rs, c1)"
      using run_subtasks_exact [of "se_coordinator e4"] assms(1) e4'(3) by metis
    moreover obtain d where "evaluate_result (lb_float L) (lb_text L) (lb_show2 L) (cd_strategy (se_coordinator e4)) x rs (ss_agents (se_state e4)) = Some d"
      using evaluate_result_total assms(1) e4'(3) by metis
    ultimately show ?thesis using that by (simp add: coordinate_def Let_def)
  qed
  have "sys_step L (sys_new e) ?s1" using sys_step.toggle [of L "sys_new e" True] by (simp add: sys_new_def)
  moreover have "sys_step L ?s1 ?s2" by (rule call_wait) (simp_all add: sys_new_def)
  moreover have "sys_step L ?s2 ?s3"
    using grant_write [of ?s2 0 "[]" "Waiting (CAdd a)" L] by (simp add: sys_new_def sys_defs)
  moreover have "sys_step L ?s3 ?s4" by (rule add_done [where a = a]) (simp_all add: sys_defs sys_new_def, rule e4)
  moreover have "sys_step L ?s4 ?s5" by (rule call_wait) (simp_all add: sys_defs sys_new_def e4')
  moreover have "sys_step L ?s5 ?s6"
    using grant_read [of ?s5 1 "[]" "Waiting (CSubmit inp x)" L] by (simp add: sys_new_def sys_defs)
  moreover have "sys_step L ?s6 (set_phase 1 (Upgrading (CSubmit inp x) (Some d))
      (request 1 True (?s6\<lparr>sy_engine := (sy_engine ?s6)\<lparr>se_coordinator := c\<rparr>\<rparr>)))"
    by (rule submit_coordinate) (simp_all add: sys_defs e4'(1,2), rule d)
  ultimately have "(sys_step L)\<^sup>*\<^sup>* (sys_new e) (set_phase 1 (Upgrading (CSubmit inp x) (Some d))
      (request 1 True (?s6\<lparr>sy_engine := (sy_engine ?s6)\<lparr>se_coordinator := c\<rparr>\<rparr>)))"
    by (meson rtranclp.rtrancl_into_rtrancl rtranclp.rtrancl_refl)
  then show ?thesis by (intro exI conjI, assumption) (simp add: sys_defs)
qed

theorem submit_never_returns_witness:
  "\<exists>s s'. (sys_step rat_lib)\<^sup>*\<^sup>* (sys_new (engine_new rat_lib 1 0 (swarm_config_default rat_ops))) s \<and> sys_step rat_lib s s'
     \<and> sy_phase s' 1 \<noteq> None \<and> sy_phase s' 1 = sy_phase s 1 \<and> se_state (sy_engine s') = se_state (sy_engine s)"
proof -
  let ?e = "engine_new rat_lib 1 0 (swarm_config_default rat_ops)"
  obtain s d where s: "(sys_step rat_lib)\<^sup>*\<^sup>* (sys_new ?e) s"
    "sy_phase s 1 = Some (Upgrading (CSubmit sample_inputs (swarm_task_new 1 0 ''t'' ''d'' Null)) (Some d))"
  proof -
    have "well_formed (cd_strategy (se_coordinator ?e))" "length (ss_agents (se_state ?e)) < sf_max_agents (se_config ?e)"
      by (simp_all add: engine_new_def coordinator_new_def create_strategy_ok swarm_state_new_def swarm_config_default_def Let_def)
    from submission_coordinated [OF this, of rat_lib sample_inputs "swarm_task_new 1 0 ''t'' ''d'' Null"] that
    show thesis by blast
  qed
  let ?s = "s\<lparr>sy_engine := (sy_engine s)\<lparr>se_running := False\<rparr>\<rparr>"
  have step: "sys_step rat_lib s ?s" by (rule toggle)
  from step have "(sys_step rat_lib)\<^sup>*\<^sup>* s ?s" by (rule r_into_rtranclp)
  from submit_never_returns [OF s this] have "sy_phase ?s 1 = sy_phase s 1" by blast
  then show ?thesis using s step by (intro exI [of _ s] exI [of _ ?s]) simp
qed


end
