(* ===== verification/Prompts.thy ===== *)
theory Prompts
  imports Std_Text Floats
begin

text \<open>
  Prompt templates, their versions and tests of two versions against each other (\<open>prompt/src/template.rs\<close>, \<open>registry.rs\<close>,
  \<open>abtest.rs\<close>). The regular expression of a template engine is a function from a text to its matches: the text
  before each match, the match and its first group, and the text after the last one. Identifiers, the clock and
  the random number are arguments; the 64-bit counters of versions and results are natural numbers, which they are below 2 to the 64.
\<close>

section \<open>Templates\<close>

record template_variable =
  tv_name :: string
  tv_description :: "string option"
  tv_required :: bool
  tv_default :: "string option"

record compiled_prompt =
  cp_text :: string
  cp_variables :: "(string, string) hmap"
  cp_template_version :: string

record regex_match =
  rx_before :: string
  rx_text :: string
  rx_group :: "string option"

type_synonym regex = "string \<Rightarrow> regex_match list \<times> string"

text \<open>What the matches of a regular expression are: the text in pieces.\<close>

definition regex_law :: "regex \<Rightarrow> bool" where
  "regex_law re \<longleftrightarrow> (\<forall>s ms rest. re s = (ms, rest) \<longrightarrow> s = concat (map (\<lambda>m. rx_before m @ rx_text m) ms) @ rest)"

definition push_new :: "'a \<Rightarrow> 'a list \<Rightarrow> 'a list" where
  "push_new x xs = (if x \<in> set xs then xs else xs @ [x])"

definition extract_variables :: "regex \<Rightarrow> string \<Rightarrow> string list" where
  "extract_variables re template = fold (\<lambda>m vars. case rx_group m of None \<Rightarrow> vars | Some n \<Rightarrow> push_new n vars) (fst (re template)) []"

definition match_name :: "regex_match \<Rightarrow> string" where
  "match_name m = (case rx_group m of None \<Rightarrow> [] | Some n \<Rightarrow> n)"

definition replacement :: "(string, string) hmap \<Rightarrow> regex_match \<Rightarrow> string" where
  "replacement vars m = (case hm_get vars (match_name m) of Some v \<Rightarrow> v | None \<Rightarrow> rx_text m)"

definition used_variables :: "(string, string) hmap \<Rightarrow> regex_match list \<Rightarrow> (string, string) hmap" where
  "used_variables vars ms = fold (\<lambda>m used. case hm_get vars (match_name m) of
     Some v \<Rightarrow> hm_insert (match_name m) v used | None \<Rightarrow> used) ms []"

definition compile_template :: "regex \<Rightarrow> string \<Rightarrow> (string, string) hmap \<Rightarrow> string \<Rightarrow> compiled_prompt" where
  "compile_template re template vars version =
     (let (ms, rest) = re template
      in \<lparr>cp_text = concat (map (\<lambda>m. rx_before m @ replacement vars m) ms) @ rest,
          cp_variables = used_variables vars ms, cp_template_version = version\<rparr>)"

definition validate_template :: "regex \<Rightarrow> string \<Rightarrow> template_variable list \<Rightarrow> string list + unit" where
  "validate_template re template defined_vars =
     (let missing = filter (\<lambda>n. \<forall>v \<in> set defined_vars. tv_name v \<noteq> n) (extract_variables re template)
      in if missing = [] then Inr () else Inl missing)"

section \<open>The registry\<close>

record prompt_version =
  pv_version_id :: ls_id
  pv_number :: nat
  pv_template :: string
  pv_variables :: "template_variable list"
  pv_created_at :: int
  pv_changelog :: "string option"

record prompt_info =
  pm_id :: ls_id
  pm_name :: string
  pm_description :: string
  pm_current :: nat
  pm_versions :: "prompt_version list"
  pm_created_at :: int
  pm_updated_at :: int
  pm_tags :: "string list"

type_synonym prompt_registry = "(string, prompt_info) hmap"

definition prompt_missing :: "string \<Rightarrow> string" where
  "prompt_missing name = ''prompt '' @ quoted name @ '' not found''"

definition prompt_register ::
  "ls_id \<Rightarrow> ls_id \<Rightarrow> int \<Rightarrow> string \<Rightarrow> string \<Rightarrow> string \<Rightarrow> template_variable list \<Rightarrow> prompt_registry
     \<Rightarrow> prompt_info ls_result \<times> prompt_registry" where
  "prompt_register vid pid now name description template vars r =
     (if hm_has name r then (Inl (Internal (''prompt '' @ quoted name @ '' already exists'')), r)
      else let version = \<lparr>pv_version_id = vid, pv_number = 1, pv_template = template, pv_variables = vars, pv_created_at = now,
                 pv_changelog = Some ''initial version''\<rparr>;
               info = \<lparr>pm_id = pid, pm_name = name, pm_description = description, pm_current = 1, pm_versions = [version],
                 pm_created_at = now, pm_updated_at = now, pm_tags = []\<rparr>
           in (Inr info, hm_insert name info r))"

definition prompt_get :: "string \<Rightarrow> prompt_registry \<Rightarrow> prompt_info ls_result" where
  "prompt_get name r = (case hm_get r name of Some i \<Rightarrow> Inr i | None \<Rightarrow> Inl (NotFound (prompt_missing name)))"

definition prompt_get_version :: "string \<Rightarrow> nat \<Rightarrow> prompt_registry \<Rightarrow> prompt_version ls_result" where
  "prompt_get_version name n r = ok_bind (prompt_get name r) (\<lambda>i. case find (\<lambda>v. pv_number v = n) (pm_versions i) of
     Some v \<Rightarrow> Inr v | None \<Rightarrow> Inl (NotFound (''prompt '' @ quoted name @ '' version '' @ show_nat n)))"

text \<open>A new version is made of a copy of the prompt, which replaces it afterwards.\<close>

definition next_version :: "ls_id \<Rightarrow> int \<Rightarrow> string \<Rightarrow> template_variable list \<Rightarrow> string \<Rightarrow> prompt_info \<Rightarrow> prompt_version" where
  "next_version vid now template vars changelog i = \<lparr>pv_version_id = vid, pv_number = pm_current i + 1, pv_template = template,
     pv_variables = vars, pv_created_at = now, pv_changelog = Some changelog\<rparr>"

definition add_version :: "int \<Rightarrow> prompt_version \<Rightarrow> prompt_info \<Rightarrow> prompt_info" where
  "add_version now v i = i\<lparr>pm_versions := pm_versions i @ [v], pm_current := pv_number v, pm_updated_at := now\<rparr>"

definition create_version ::
  "ls_id \<Rightarrow> int \<Rightarrow> string \<Rightarrow> string \<Rightarrow> template_variable list \<Rightarrow> string \<Rightarrow> prompt_registry
     \<Rightarrow> prompt_version ls_result \<times> prompt_registry" where
  "create_version vid now name template vars changelog r = (case prompt_get name r of
       Inl e \<Rightarrow> (Inl e, r)
     | Inr i \<Rightarrow> (let v = next_version vid now template vars changelog i in (Inr v, hm_insert name (add_version now v i) r)))"

definition compile_prompt :: "string \<Rightarrow> (string, string) hmap \<Rightarrow> regex \<Rightarrow> prompt_registry \<Rightarrow> compiled_prompt ls_result" where
  "compile_prompt name vars re r = ok_bind (prompt_get name r) (\<lambda>i. case find (\<lambda>v. pv_number v = pm_current i) (pm_versions i) of
     None \<Rightarrow> Inl (Internal (''no version found for prompt '' @ quoted name))
   | Some v \<Rightarrow> Inr (compile_template re (pv_template v) vars (name @ ''.v'' @ show_nat (pm_current i))))"

definition prompt_add_tag :: "string \<Rightarrow> string \<Rightarrow> prompt_registry \<Rightarrow> unit ls_result \<times> prompt_registry" where
  "prompt_add_tag name tag r = (if hm_has name r
     then (Inr (), hm_modify name (\<lambda>i. i\<lparr>pm_tags := push_new tag (pm_tags i)\<rparr>) r)
     else (Inl (NotFound (prompt_missing name)), r))"

definition prompt_list :: "prompt_registry \<Rightarrow> prompt_info list" where
  "prompt_list r = hm_values r"

section \<open>Tests of two variants\<close>

record ab_config =
  ab_name :: string
  ab_variant_a :: string
  ab_variant_b :: string
  ab_traffic_percent_b :: nat
  ab_enabled :: bool
  ab_start_at :: int
  ab_end_at :: "int option"

record 'f ab_stats =
  as_a :: nat
  as_b :: nat
  as_a_success :: nat
  as_b_success :: nat
  as_a_latency :: 'f
  as_b_latency :: 'f

record 'f ab_result =
  br_test_name :: string
  br_variant_a :: string
  br_variant_b :: string
  br_a_count :: nat
  br_b_count :: nat
  br_a_success :: nat
  br_b_success :: nat
  br_a_avg_latency_ms :: 'f
  br_b_avg_latency_ms :: 'f

definition success_share :: "'f float_ops \<Rightarrow> nat \<Rightarrow> nat \<Rightarrow> 'f" where
  "success_share F count_all successes =
     (if count_all = 0 then fl_int F 0 else fl_div F (fl_int F (int successes)) (fl_int F (int count_all)))"

definition a_success_rate :: "'f float_ops \<Rightarrow> 'f ab_result \<Rightarrow> 'f" where
  "a_success_rate F r = success_share F (br_a_count r) (br_a_success r)"

definition b_success_rate :: "'f float_ops \<Rightarrow> 'f ab_result \<Rightarrow> 'f" where
  "b_success_rate F r = success_share F (br_b_count r) (br_b_success r)"

definition b_is_winner :: "'f float_ops \<Rightarrow> 'f ab_result \<Rightarrow> bool" where
  "b_is_winner F r \<longleftrightarrow> fl_lt F (a_success_rate F r) (b_success_rate F r)"

record 'f ab_manager =
  am_configs :: "(string, ab_config) hmap"
  am_stats :: "(string, 'f ab_stats) hmap"

definition ab_manager_new :: "'f ab_manager" where
  "ab_manager_new = \<lparr>am_configs = [], am_stats = []\<rparr>"

definition ab_register :: "'f float_ops \<Rightarrow> ab_config \<Rightarrow> 'f ab_manager \<Rightarrow> unit ls_result \<times> 'f ab_manager" where
  "ab_register F c m =
     (if hm_has (ab_name c) (am_configs m) then (Inl (Internal (''AB test '' @ quoted (ab_name c) @ '' already exists'')), m)
      else if ab_traffic_percent_b c > 100 then (Inl (Internal ''traffic_percent_b must be 0-100''), m)
      else (Inr (), \<lparr>am_configs = hm_insert (ab_name c) c (am_configs m),
             am_stats = hm_insert (ab_name c) \<lparr>as_a = 0, as_b = 0, as_a_success = 0, as_b_success = 0, as_a_latency = fl_int F 0,
               as_b_latency = fl_int F 0\<rparr> (am_stats m)\<rparr>))"

definition ab_missing :: "string \<Rightarrow> ls_error" where
  "ab_missing name = NotFound (''AB test '' @ quoted name @ '' not found'')"

text \<open>\<open>roll\<close> is the random number from 0 to 99.\<close>

definition select_variant :: "int \<Rightarrow> nat \<Rightarrow> string \<Rightarrow> 'f ab_manager \<Rightarrow> string ls_result" where
  "select_variant now roll name m = (case hm_get (am_configs m) name of
       None \<Rightarrow> Inl (ab_missing name)
     | Some c \<Rightarrow>
         if \<not> ab_enabled c then Inr (ab_variant_a c)
         else if (case ab_end_at c of Some e \<Rightarrow> now > e | None \<Rightarrow> False) then Inr (ab_variant_a c)
         else if roll < ab_traffic_percent_b c then Inr (ab_variant_b c) else Inr (ab_variant_a c))"

definition count_result :: "'f float_ops \<Rightarrow> ab_config \<Rightarrow> string \<Rightarrow> bool \<Rightarrow> 'f \<Rightarrow> 'f ab_stats \<Rightarrow> 'f ab_stats" where
  "count_result F c variant success ms s =
     (if variant = ab_variant_a c
      then s\<lparr>as_a := as_a s + 1, as_a_success := (if success then as_a_success s + 1 else as_a_success s),
             as_a_latency := fl_add F (as_a_latency s) ms\<rparr>
      else if variant = ab_variant_b c
      then s\<lparr>as_b := as_b s + 1, as_b_success := (if success then as_b_success s + 1 else as_b_success s),
             as_b_latency := fl_add F (as_b_latency s) ms\<rparr>
      else s)"

definition record_ab_result ::
  "'f float_ops \<Rightarrow> string \<Rightarrow> string \<Rightarrow> bool \<Rightarrow> 'f \<Rightarrow> 'f ab_manager \<Rightarrow> unit ls_result \<times> 'f ab_manager" where
  "record_ab_result F name variant success ms m = (case hm_get (am_configs m) name of
       None \<Rightarrow> (Inl (ab_missing name), m)
     | Some c \<Rightarrow> if hm_has name (am_stats m)
         then (Inr (), m\<lparr>am_stats := hm_modify name (count_result F c variant success ms) (am_stats m)\<rparr>)
         else (Inl (NotFound (''AB test '' @ quoted name @ '' stats not found'')), m))"

definition mean_latency :: "'f float_ops \<Rightarrow> nat \<Rightarrow> 'f \<Rightarrow> 'f" where
  "mean_latency F n x = (if n > 0 then fl_div F x (fl_int F (int n)) else fl_int F 0)"

definition get_ab_result :: "'f float_ops \<Rightarrow> string \<Rightarrow> 'f ab_manager \<Rightarrow> 'f ab_result ls_result" where
  "get_ab_result F name m = (case hm_get (am_configs m) name of
       None \<Rightarrow> Inl (ab_missing name)
     | Some c \<Rightarrow> (case hm_get (am_stats m) name of
           None \<Rightarrow> Inl (NotFound (''AB test '' @ quoted name @ '' stats not found''))
         | Some s \<Rightarrow> Inr \<lparr>br_test_name = name, br_variant_a = ab_variant_a c, br_variant_b = ab_variant_b c, br_a_count = as_a s,
             br_b_count = as_b s, br_a_success = as_a_success s, br_b_success = as_b_success s,
             br_a_avg_latency_ms = mean_latency F (as_a s) (as_a_latency s),
             br_b_avg_latency_ms = mean_latency F (as_b s) (as_b_latency s)\<rparr>))"

section \<open>Versions\<close>

text \<open>The registries the operations reach.\<close>

inductive prompt_step :: "prompt_registry \<Rightarrow> prompt_registry \<Rightarrow> bool" where
  "prompt_step r (snd (prompt_register vid pid now name description template vars r))"
| "prompt_step r (snd (create_version vid now name template vars changelog r))"
| "prompt_step r (snd (prompt_add_tag name tag r))"

definition info_ok :: "string \<Rightarrow> prompt_info \<Rightarrow> bool" where
  "info_ok name i \<longleftrightarrow> pm_name i = name \<and> pm_current i \<ge> 1 \<and> map pv_number (pm_versions i) = [1..<pm_current i + 1]"

definition prompt_inv :: "prompt_registry \<Rightarrow> bool" where
  "prompt_inv r \<longleftrightarrow> (\<forall>name i. hm_get r name = Some i \<longrightarrow> info_ok name i)"

lemma info_ok_add: "info_ok name i \<Longrightarrow> info_ok name (add_version now (next_version vid now t vars c i) i)"
  by (simp add: info_ok_def add_version_def next_version_def)

lemma prompt_inv_step: "prompt_step r r' \<Longrightarrow> prompt_inv r \<Longrightarrow> prompt_inv r'"
proof (induction rule: prompt_step.induct)
  case (1 r vid pid now name description template vars)
  then show ?case by (simp add: prompt_inv_def prompt_register_def Let_def info_ok_def)
next
  case (2 r vid now name template vars changelog)
  then show ?case using info_ok_add
    by (cases "hm_get r name") (auto simp: prompt_inv_def create_version_def prompt_get_def Let_def)
next
  case (3 r name tag)
  then show ?case by (auto simp: prompt_inv_def prompt_add_tag_def info_ok_def)
qed

lemma prompt_inv_reach: "prompt_step\<^sup>*\<^sup>* [] r \<Longrightarrow> prompt_inv r"
  by (induction rule: rtranclp_induct) (simp add: prompt_inv_def, rule prompt_inv_step)

lemma find_version:
  assumes "map pv_number vs = [1..<k + 1]"
  shows "find (\<lambda>v. pv_number v = n) vs = (if 1 \<le> n \<and> n \<le> k then Some (vs ! (n - 1)) else None)"
proof -
  have len: "length vs = k" using arg_cong [OF assms, of length] by simp
  have num: "pv_number (vs ! j) = j + 1" if "j < k" for j
    using arg_cong [OF assms, of "\<lambda>l. l ! j"] that len by (simp del: upt_Suc)
  have "\<forall>v \<in> set vs. 1 \<le> pv_number v \<and> pv_number v \<le> k"
    using num len by (auto simp: in_set_conv_nth)
  show ?thesis
  proof (cases "1 \<le> n \<and> n \<le> k")
    case True
    then have n: "n - 1 < length vs" "pv_number (vs ! (n - 1)) = n" using num [of "n - 1"] len by auto
    show ?thesis
    proof (cases "find (\<lambda>v. pv_number v = n) vs")
      case None
      with n show ?thesis by (auto simp: find_None_iff)
    next
      case (Some v)
      from find_mem [OF Some] obtain j where "j < k" "v = vs ! j" "pv_number v = n" by (auto simp: in_set_conv_nth len)
      with num [of j] have "j = n - 1" by simp
      with Some True \<open>v = vs ! j\<close> show ?thesis by simp
    qed
  next
    case False
    with \<open>\<forall>v \<in> set vs. _\<close> have "find (\<lambda>v. pv_number v = n) vs = None" by (auto simp: find_None_iff)
    with False show ?thesis by auto
  qed
qed

text \<open>In every reachable registry a prompt has exactly the versions from 1 to the current one: any other number is an error, and the
  current one is always there to compile.\<close>

lemma prompt_versions_exact:
  assumes "prompt_step\<^sup>*\<^sup>* [] r" "hm_get r name = Some i"
  shows "(\<exists>v. prompt_get_version name n r = Inr v \<and> pv_number v = n) \<longleftrightarrow> 1 \<le> n \<and> n \<le> pm_current i"
    and "compile_prompt name vars re r = Inr (compile_template re (pv_template (last (pm_versions i))) vars (name @ ''.v'' @ show_nat (pm_current i)))"
proof -
  from prompt_inv_reach [OF assms(1)] assms(2) have i: "1 \<le> pm_current i" "map pv_number (pm_versions i) = [1..<pm_current i + 1]"
    by (auto simp: prompt_inv_def info_ok_def)
  note find = find_version [OF i(2)]
  have len: "length (pm_versions i) = pm_current i" using arg_cong [OF i(2), of length] by simp
  have "pv_number (pm_versions i ! (n - 1)) = n" if "1 \<le> n" "n \<le> pm_current i"
    using arg_cong [OF i(2), of "\<lambda>l. l ! (n - 1)"] that len by (simp del: upt_Suc)
  then show "(\<exists>v. prompt_get_version name n r = Inr v \<and> pv_number v = n) \<longleftrightarrow> 1 \<le> n \<and> n \<le> pm_current i"
    using assms(2) by (auto simp: prompt_get_version_def prompt_get_def find)
  have "last (pm_versions i) = pm_versions i ! (pm_current i - 1)" using i(1) len by (subst last_conv_nth) auto
  then show "compile_prompt name vars re r = Inr (compile_template re (pv_template (last (pm_versions i))) vars (name @ ''.v'' @ show_nat (pm_current i)))"
    using assms(2) i(1) by (simp add: compile_prompt_def prompt_get_def find)
qed

text \<open>A version that was made can be read for ever after as it was made: no operation changes or removes it.\<close>

lemma version_kept_step:
  assumes "prompt_step r r'" "prompt_get_version name n r = Inr v"
  shows "prompt_get_version name n r' = Inr v"
proof -
  from assms(2) obtain i where i: "hm_get r name = Some i" "find (\<lambda>v. pv_number v = n) (pm_versions i) = Some v"
    by (auto simp: prompt_get_version_def prompt_get_def split: option.splits)
  have append: "find P (xs @ ys) = Some v" if "find P xs = Some v" for P and xs ys :: "prompt_version list"
    using that by (induction xs) (auto split: if_splits)
  from assms(1) i have "\<exists>i'. hm_get r' name = Some i' \<and> find (\<lambda>v. pv_number v = n) (pm_versions i') = Some v"
  proof (induction rule: prompt_step.induct)
    case (1 r vid pid now nm description template vars)
    then show ?case by (auto simp: prompt_register_def Let_def hm_get_dom)
  next
    case (2 r vid now nm template vars changelog)
    then show ?case using append
      by (cases "hm_get r nm") (auto simp: create_version_def prompt_get_def add_version_def Let_def)
  next
    case (3 r nm tag)
    then show ?case by (auto simp: prompt_add_tag_def)
  qed
  then show ?thesis by (auto simp: prompt_get_version_def prompt_get_def)
qed

theorem prompt_versions_kept:
  assumes "prompt_step\<^sup>*\<^sup>* r r'" "prompt_get_version name n r = Inr v"
  shows "prompt_get_version name n r' = Inr v"
  using assms by (induction rule: rtranclp_induct) (auto intro: version_kept_step)

definition sample_prompts :: prompt_registry where
  "sample_prompts = snd (prompt_register 1 2 0 ''greet'' ''d'' ''Hi'' [] [])"

theorem prompt_versions_kept_witness:
  "map_sum id pv_template (prompt_get_version ''greet'' 1 (snd (create_version 3 5 ''greet'' ''Hello'' [] ''c'' sample_prompts))) = Inr ''Hi''"
proof -
  have step: "prompt_step\<^sup>*\<^sup>* sample_prompts (snd (create_version 3 5 ''greet'' ''Hello'' [] ''c'' sample_prompts))"
    by (rule r_into_rtranclp) (rule prompt_step.intros)
  have "\<exists>v. prompt_get_version ''greet'' 1 sample_prompts = Inr v \<and> pv_template v = ''Hi''"
    by (simp add: sample_prompts_def prompt_register_def prompt_get_version_def prompt_get_def Let_def)
  then obtain v where v: "prompt_get_version ''greet'' 1 sample_prompts = Inr v" "pv_template v = ''Hi''" by blast
  show ?thesis unfolding prompt_versions_kept [OF step v(1)] by (simp add: v(2))
qed

text \<open>Two callers who each read the prompt before the other writes it both get version 2, and the first one's is lost.\<close>

lemma concurrent_version_lost:
  assumes "hm_get r name = Some i" "info_ok name i"
    and "v1 = next_version a now t1 vars c i" "v2 = next_version b now t2 vars c i" "a \<noteq> b"
    and "r1 = hm_insert name (add_version now v1 i) r" "r2 = hm_insert name (add_version now v2 i) r1"
  shows "pv_number v1 = pv_number v2 \<and> (\<forall>n. prompt_get_version name n r2 \<noteq> Inr v1)"
proof -
  have "pv_number v < pm_current i + 1" if "v \<in> set (pm_versions i)" for v
    using assms(2) imageI [OF that, of pv_number] unfolding info_ok_def set_map [symmetric] by (auto simp del: set_map)
  then have "v1 \<notin> set (pm_versions i)" using assms(3) by (fastforce simp: next_version_def)
  moreover have "v1 \<noteq> v2" using assms(3-5) by (auto simp: next_version_def)
  ultimately have "find P (pm_versions i @ [v2]) \<noteq> Some v1" for P using find_mem [of P "pm_versions i @ [v2]" v1] by auto
  then show ?thesis using assms(3,4,6,7)
    by (auto simp: next_version_def prompt_get_version_def prompt_get_def add_version_def split: option.splits)
qed

section \<open>Compilation\<close>

text \<open>Without values a template is compiled to itself. The variables reported as used are those of the matches that have a
  value; values for other names change nothing.\<close>

lemma compile_without_values: "regex_law re \<Longrightarrow> cp_text (compile_template re t [] v) = t"
  by (cases "re t") (simp add: compile_template_def regex_law_def replacement_def)

lemma used_exact: "hm_get (used_variables vars ms) n = (if n \<in> match_name ` set ms then hm_get vars n else None)"
proof -
  have "hm_get (fold (\<lambda>m used. case hm_get vars (match_name m) of Some v \<Rightarrow> hm_insert (match_name m) v used | None \<Rightarrow> used) ms used) n
      = (if n \<in> match_name ` set ms \<and> hm_get vars n \<noteq> None then hm_get vars n else hm_get used n)" for used
    by (induction ms arbitrary: used) (auto split: option.split)
  from this [of "[]"] show ?thesis by (auto simp: used_variables_def)
qed

lemma extract_set: "set (extract_variables re t) = {n. \<exists>m \<in> set (fst (re t)). rx_group m = Some n}"
proof -
  have "set (fold (\<lambda>m vars. case rx_group m of None \<Rightarrow> vars | Some n \<Rightarrow> push_new n vars) ms xs)
      = set xs \<union> {n. \<exists>m \<in> set ms. rx_group m = Some n}" for ms xs
    by (induction ms arbitrary: xs) (auto simp: push_new_def split: option.split)
  from this [of "fst (re t)" "[]"] show ?thesis by (simp add: extract_variables_def)
qed

text \<open>A compilation depends only on the values of the variables the template names, reports exactly those of them that have a
  value, and leaves the template as it is where there is none.\<close>

theorem compile_exact:
  assumes "regex_law re" "\<forall>m \<in> set (fst (re t)). rx_group m \<noteq> None"
    and "\<And>n. n \<in> set (extract_variables re t) \<Longrightarrow> hm_get vars n = hm_get vars' n"
  shows "cp_text (compile_template re t vars v) = cp_text (compile_template re t vars' v)
    \<and> (\<forall>n. hm_get (cp_variables (compile_template re t vars v)) n = (if n \<in> set (extract_variables re t) then hm_get vars n else None))
    \<and> ((\<forall>n \<in> set (extract_variables re t). hm_get vars n = None) \<longrightarrow> cp_text (compile_template re t vars v) = t)"
proof -
  obtain ms rest where re: "re t = (ms, rest)" by (cases "re t")
  have names: "match_name ` set ms = set (extract_variables re t)"
    using assms(2) unfolding extract_set re match_name_def by (force split: option.splits)
  have same: "replacement vars m = replacement vars' m" if "m \<in> set ms" for m
  proof -
    have "match_name m \<in> set (extract_variables re t)" using that names by blast
    from assms(3) [OF this] show ?thesis by (simp add: replacement_def)
  qed
  then have eq: "map (\<lambda>m. rx_before m @ replacement vars m) ms = map (\<lambda>m. rx_before m @ replacement vars' m) ms" by simp
  have none: "map (\<lambda>m. rx_before m @ replacement vars m) ms = map (\<lambda>m. rx_before m @ rx_text m) ms"
    if "\<forall>n \<in> set (extract_variables re t). hm_get vars n = None"
  proof -
    have "replacement vars m = rx_text m" if "m \<in> set ms" for m
      using that names \<open>\<forall>n \<in> set (extract_variables re t). _ n\<close> by (force simp: replacement_def)
    then show ?thesis by simp
  qed
  have t: "concat (map (\<lambda>m. rx_before m @ rx_text m) ms) @ rest = t" using assms(1) re by (auto simp: regex_law_def)
  have shape: "cp_text (compile_template re t vs v) = concat (map (\<lambda>m. rx_before m @ replacement vs m) ms) @ rest" for vs
    by (simp add: compile_template_def re)
  have "cp_variables (compile_template re t vars v) = used_variables vars ms" by (simp add: compile_template_def re)
  then show ?thesis unfolding shape eq [symmetric] by (simp add: used_exact names none t del: append_eq_append_conv)
qed

text \<open>A regular expression for the letter x, whose group is the letter.\<close>

fun x_matches :: "string \<Rightarrow> string \<Rightarrow> regex_match list \<times> string" where
  "x_matches before [] = ([], before)"
| "x_matches before (c # s) = (if c = CHR ''x''
     then (let (ms, rest) = x_matches [] s in (\<lparr>rx_before = before, rx_text = [c], rx_group = Some [c]\<rparr> # ms, rest))
     else x_matches (before @ [c]) s)"

lemma x_matches_text: "x_matches b s = (ms, rest) \<Longrightarrow> b @ s = concat (map (\<lambda>m. rx_before m @ rx_text m) ms) @ rest"
  by (induction b s arbitrary: ms rest rule: x_matches.induct) (fastforce split: if_splits prod.splits)+

theorem compile_exact_witness:
  "cp_text (compile_template (x_matches []) ''axb'' [(''y'', ''z'')] ''v'') = ''axb''"
proof -
  have "regex_law (x_matches [])" using x_matches_text [of "[]"] by (auto simp: regex_law_def)
  from compile_exact [OF this, of "''axb''" "[(''y'', ''z'')]" "[(''y'', ''z'')]" "''v''"]
  show ?thesis by (simp add: extract_variables_def push_new_def)
qed

text \<open>The check of a template looks for definitions of the names it uses only: a required variable the template lacks is
  accepted.\<close>

lemma validate_exact:
  "validate_template re t vs = Inr () \<longleftrightarrow> set (extract_variables re t) \<subseteq> tv_name ` set vs"
  by (auto simp: validate_template_def Let_def filter_empty_conv)

section \<open>Traffic\<close>

text \<open>Of the hundred random numbers exactly the given share selects the second variant, as long as the test is enabled and not over;
  whether it has begun is not looked at.\<close>

theorem traffic_exact:
  assumes "ab_register F c m = (Inr (), m')" "ab_enabled c" "\<forall>e. ab_end_at c = Some e \<longrightarrow> now \<le> e" "ab_variant_a c \<noteq> ab_variant_b c"
  shows "card {roll. roll < 100 \<and> select_variant now roll (ab_name c) m' = Inr (ab_variant_b c)} = ab_traffic_percent_b c"
proof -
  from assms(1) have c: "hm_get (am_configs m') (ab_name c) = Some c" "ab_traffic_percent_b c \<le> 100"
    by (auto simp: ab_register_def split: if_splits)
  have "\<not> (case ab_end_at c of Some e \<Rightarrow> now > e | None \<Rightarrow> False)" using assms(3) by (auto split: option.split)
  then have "{roll. roll < 100 \<and> select_variant now roll (ab_name c) m' = Inr (ab_variant_b c)} = {..<ab_traffic_percent_b c}"
    using assms(2,4) c by (auto simp: select_variant_def)
  then show ?thesis by simp
qed

definition sample_test :: ab_config where
  "sample_test = \<lparr>ab_name = ''t'', ab_variant_a = ''a'', ab_variant_b = ''b'', ab_traffic_percent_b = 30, ab_enabled = True,
     ab_start_at = 100, ab_end_at = None\<rparr>"

theorem traffic_exact_witness:
  "card {roll. roll < 100 \<and> select_variant 0 roll ''t'' (snd (ab_register rat_ops sample_test ab_manager_new)) = Inr ''b''} = 30"
  using traffic_exact [of rat_ops sample_test ab_manager_new "snd (ab_register rat_ops sample_test ab_manager_new)" 0]
  by (simp add: ab_register_def sample_test_def ab_manager_new_def)

text \<open>The counts of a test are the numbers of results recorded for its variants.\<close>

fun record_ab_all :: "'f float_ops \<Rightarrow> string \<Rightarrow> (string \<times> bool \<times> 'f) list \<Rightarrow> 'f ab_manager \<Rightarrow> 'f ab_manager" where
  "record_ab_all F name [] m = m"
| "record_ab_all F name ((variant, success, ms) # rs) m = record_ab_all F name rs (snd (record_ab_result F name variant success ms m))"

lemma record_ab_counts:
  assumes "hm_get (am_configs m) name = Some c" "hm_get (am_stats m) name = Some s"
  shows "\<exists>s'. hm_get (am_stats (record_ab_all F name rs m)) name = Some s' \<and> hm_get (am_configs (record_ab_all F name rs m)) name = Some c
    \<and> as_a s' = as_a s + length (filter (\<lambda>(v, ok, ms). v = ab_variant_a c) rs)
    \<and> as_a_success s' = as_a_success s + length (filter (\<lambda>(v, ok, ms). v = ab_variant_a c \<and> ok) rs)
    \<and> as_b s' = as_b s + length (filter (\<lambda>(v, ok, ms). v \<noteq> ab_variant_a c \<and> v = ab_variant_b c) rs)
    \<and> as_b_success s' = as_b_success s + length (filter (\<lambda>(v, ok, ms). v \<noteq> ab_variant_a c \<and> v = ab_variant_b c \<and> ok) rs)"
  using assms
proof (induction rs arbitrary: m s)
  case (Cons r rs)
  obtain v ok ms where r: "r = (v, ok, ms)" by (cases r)
  let ?m = "snd (record_ab_result F name v ok ms m)"
  have "hm_get (am_configs ?m) name = Some c" "hm_get (am_stats ?m) name = Some (count_result F c v ok ms s)"
    using Cons.prems hm_get_dom [OF Cons.prems(2)] by (simp_all add: record_ab_result_def)
  from Cons.IH [OF this] show ?case by (auto simp: r count_result_def)
qed simp

end
