(* ===== verification/Api_Keys.thy ===== *)
theory Api_Keys
  imports Std_Text
begin

text \<open>
  The keys of callers, permissions and audit entries (\<open>security/src/api_key.rs\<close>, \<open>permission.rs\<close>, \<open>audit.rs\<close>). The hash of a
  key, the random part of a new one, the clock and the sum of a moment and a span of seconds, which is \<open>None\<close> where
  the library panics, are arguments, and so is the order in which a map is iterated when the history is cut.
\<close>

section \<open>Keys\<close>

record api_key_entry =
  ak_key_id :: string
  ak_key_prefix :: string
  ak_owner :: string
  ak_roles :: "string list"
  ak_created_at :: int
  ak_expires_at :: "int option"
  ak_revoked :: bool
  ak_last_used_at :: "int option"

record api_key_manager =
  km_active :: "(string, api_key_entry) hmap"
  km_history :: "(string, api_key_entry) hmap"
  km_max_history :: nat

definition key_manager_new :: "nat option \<Rightarrow> api_key_manager" where
  "key_manager_new retention = \<lparr>km_active = [], km_history = [], km_max_history = (case retention of Some n \<Rightarrow> n | None \<Rightarrow> 5)\<rparr>"

text \<open>The moment a key expires; the outer option is the panic of the library.\<close>

definition expiry_of :: "(int \<Rightarrow> int \<Rightarrow> int option) \<Rightarrow> int \<Rightarrow> nat option \<Rightarrow> int option option" where
  "expiry_of later now ttl = (case ttl of None \<Rightarrow> Some None | Some s \<Rightarrow> map_option Some (later now (as_i64 s)))"

definition full_key :: "string \<Rightarrow> string \<Rightarrow> string" where
  "full_key prefix raw = ''ls_'' @ prefix @ ''_'' @ raw"

definition key_generate ::
  "(string \<Rightarrow> string) \<Rightarrow> (int \<Rightarrow> int \<Rightarrow> int option) \<Rightarrow> int \<Rightarrow> string \<Rightarrow> string \<Rightarrow> string \<Rightarrow> string list \<Rightarrow> nat option \<Rightarrow> api_key_manager
     \<Rightarrow> ((string \<times> api_key_entry) \<times> api_key_manager) option" where
  "key_generate hash later now raw prefix owner roles ttl m =
     (let key = full_key prefix raw
      in map_option (\<lambda>expires.
           let entry = \<lparr>ak_key_id = hash key, ak_key_prefix = ''ls_'' @ prefix @ ''_'', ak_owner = owner, ak_roles = roles,
                 ak_created_at = now, ak_expires_at = expires, ak_revoked = False, ak_last_used_at = None\<rparr>
           in ((key, entry), m\<lparr>km_active := hm_insert (hash key) entry (km_active m)\<rparr>))
         (expiry_of later now ttl))"

definition past_expiry :: "int \<Rightarrow> api_key_entry \<Rightarrow> bool" where
  "past_expiry now e = (case ak_expires_at e of Some x \<Rightarrow> now > x | None \<Rightarrow> False)"

definition key_verify :: "(string \<Rightarrow> string) \<Rightarrow> int \<Rightarrow> string \<Rightarrow> api_key_manager \<Rightarrow> api_key_entry ls_result" where
  "key_verify hash now key m = (case hm_get (km_active m) (hash key) of
       None \<Rightarrow> Inl (AuthenticationFailed ''invalid API key'')
     | Some e \<Rightarrow>
         if ak_revoked e then Inl (AuthenticationFailed ''API key revoked'')
         else if past_expiry now e then Inl (AuthenticationFailed ''API key expired'')
         else Inr e)"

definition key_revoke ::
  "((string, api_key_entry) hmap \<Rightarrow> (string, api_key_entry) hmap) \<Rightarrow> string \<Rightarrow> api_key_manager \<Rightarrow> unit ls_result \<times> api_key_manager" where
  "key_revoke order key_id m = (case hm_get (km_active m) key_id of
       None \<Rightarrow> (Inl (NotFound (''API key '' @ quoted key_id @ '' not found'')), m)
     | Some e \<Rightarrow>
         (let e' = e\<lparr>ak_revoked := True\<rparr>; history = order (hm_insert key_id e' (km_history m))
          in (Inr (), m\<lparr>km_active := hm_insert key_id e' (km_active m),
                        km_history := drop (length history - km_max_history m) history\<rparr>)))"

definition key_rotate ::
  "((string, api_key_entry) hmap \<Rightarrow> (string, api_key_entry) hmap) \<Rightarrow> (string \<Rightarrow> string) \<Rightarrow> (int \<Rightarrow> int \<Rightarrow> int option) \<Rightarrow> int \<Rightarrow> string
     \<Rightarrow> string \<Rightarrow> string \<Rightarrow> string \<Rightarrow> string list \<Rightarrow> nat option \<Rightarrow> api_key_manager
     \<Rightarrow> ((string \<times> api_key_entry) ls_result \<times> api_key_manager) option" where
  "key_rotate order hash later now raw old_key_id prefix owner roles ttl m = (case key_revoke order old_key_id m of
       (Inl e, m') \<Rightarrow> Some (Inl e, m')
     | (Inr _, m') \<Rightarrow> map_option (\<lambda>(r, m''). (Inr r, m'')) (key_generate hash later now raw prefix owner roles ttl m'))"

definition mark_used :: "int \<Rightarrow> string \<Rightarrow> api_key_manager \<Rightarrow> api_key_manager" where
  "mark_used now key_id m = m\<lparr>km_active := hm_modify key_id (\<lambda>e. e\<lparr>ak_last_used_at := Some now\<rparr>) (km_active m)\<rparr>"

definition list_active :: "api_key_manager \<Rightarrow> api_key_entry list" where
  "list_active m = hm_values (km_active m)"

definition list_history :: "api_key_manager \<Rightarrow> api_key_entry list" where
  "list_history m = hm_values (km_history m)"

definition clean_expired_keys :: "int \<Rightarrow> api_key_manager \<Rightarrow> nat \<times> api_key_manager" where
  "clean_expired_keys now m = (length (filter (\<lambda>(k, e). past_expiry now e) (km_active m)),
     m\<lparr>km_active := hm_retain (\<lambda>k e. \<not> past_expiry now e) (km_active m)\<rparr>)"

section \<open>Permissions and audit entries\<close>

definition permission_new :: "string \<Rightarrow> string \<Rightarrow> string \<Rightarrow> string" where
  "permission_new domain resource action = ''ls.'' @ domain @ ''.'' @ resource @ ''.'' @ action"

definition permission_parse :: "string \<Rightarrow> string ls_result" where
  "permission_parse s = (let parts = split_on CHR ''.'' s in
     if length parts \<ge> 4 \<and> parts ! 0 = ''ls'' then Inr s else Inl (InvalidArgument (''invalid permission format: '' @ s)))"

datatype isolation_level = GlobalLevel | TenantLevel | UserLevel | SessionLevel

definition permission_granted :: "string set \<Rightarrow> string list \<Rightarrow> string \<Rightarrow> unit ls_result" where
  "permission_granted admin granted required =
     (if required \<in> admin then Inr () else if required \<in> set granted then Inr ()
      else Inl (PermissionDenied (''missing permission: '' @ required)))"

definition grant_admin :: "string \<Rightarrow> string set \<Rightarrow> string set" where
  "grant_admin permission admin = insert permission admin"

record security_audit_entry =
  sx_audit_id :: ls_id
  sx_subject_id :: string
  sx_session_id :: ls_id
  sx_trace_id :: ls_id
  sx_resource :: string
  sx_action :: string
  sx_result :: string
  sx_source_ip :: string
  sx_timestamp :: int
  sx_details :: "string option"

definition denied_entry :: "ls_id \<Rightarrow> int \<Rightarrow> string \<Rightarrow> ls_id \<Rightarrow> ls_id \<Rightarrow> string \<Rightarrow> string \<Rightarrow> string \<Rightarrow> security_audit_entry" where
  "denied_entry fresh now subject session trace resource action ip = \<lparr>sx_audit_id = fresh, sx_subject_id = subject,
     sx_session_id = session, sx_trace_id = trace, sx_resource = resource, sx_action = action, sx_result = ''denied'',
     sx_source_ip = ip, sx_timestamp = now, sx_details = None\<rparr>"

text \<open>A permission that is made is parsed, also when its parts have dots in them.\<close>

lemma permission_round_trip: "permission_parse (permission_new d r a) = Inr (permission_new d r a)"
proof -
  have parts: "split_on c (xs @ c # ys) = butlast (split_on c xs) @ [last (split_on c xs)] @ split_on c ys" for c :: char and xs ys
    by (induction xs) (auto split: list.split)
  have "length (split_on c (xs @ c # ys)) = length (split_on c xs) + length (split_on c ys)" for c :: char and xs ys
    unfolding parts by (simp add: Suc_leI)
  note len = this
  have pos: "length (split_on c xs) \<ge> 1" for c and xs :: string using split_on_not_Nil [of c xs] by (cases "split_on c xs") auto
  have "split_on CHR ''.'' (permission_new d r a) = ''ls'' # split_on CHR ''.'' (d @ ''.'' @ r @ ''.'' @ a)"
    using split_on_append [of "CHR ''.''" "''ls''"] by (simp add: permission_new_def)
  moreover have "length (split_on CHR ''.'' (d @ ''.'' @ r @ ''.'' @ a)) \<ge> 3"
    using len [of "CHR ''.''" d "r @ ''.'' @ a"] len [of "CHR ''.''" r a] pos [of "CHR ''.''" d] pos [of "CHR ''.''" r] pos [of "CHR ''.''" a]
    by simp
  ultimately show ?thesis by (simp add: permission_parse_def Let_def)
qed

section \<open>The life of a key\<close>

datatype key_op =
  Generate int string string string "string list" "nat option"
| Revoke string
| MarkUsed int string
| CleanExpired int

fun run_key_op ::
  "((string, api_key_entry) hmap \<Rightarrow> (string, api_key_entry) hmap) \<Rightarrow> (string \<Rightarrow> string) \<Rightarrow> (int \<Rightarrow> int \<Rightarrow> int option) \<Rightarrow> key_op
     \<Rightarrow> api_key_manager \<Rightarrow> api_key_manager" where
  "run_key_op order hash later (Generate now raw prefix owner roles ttl) m =
     (case key_generate hash later now raw prefix owner roles ttl m of Some (_, m') \<Rightarrow> m' | None \<Rightarrow> m)"
| "run_key_op order hash later (Revoke i) m = snd (key_revoke order i m)"
| "run_key_op order hash later (MarkUsed now i) m = mark_used now i m"
| "run_key_op order hash later (CleanExpired now) m = snd (clean_expired_keys now m)"

definition run_key_ops where
  "run_key_ops order hash later ops m = fold (run_key_op order hash later) ops m"

fun harmless :: "(string \<Rightarrow> string) \<Rightarrow> string \<Rightarrow> int \<Rightarrow> key_op \<Rightarrow> bool" where
  "harmless hash i t (Generate now raw prefix owner roles ttl) = (hash (full_key prefix raw) \<noteq> i)"
| "harmless hash i t (CleanExpired now) = (now \<le> t)"
| "harmless hash i t _ = True"

text \<open>What a key has become: the entry as it was made, apart from the time of its last use, or revoked, or, when it has expired, gone.\<close>

definition key_as_made :: "string \<Rightarrow> int \<Rightarrow> bool \<Rightarrow> api_key_entry \<Rightarrow> api_key_manager \<Rightarrow> bool" where
  "key_as_made i t revoked e m \<longleftrightarrow>
     (case hm_get (km_active m) i of
        None \<Rightarrow> past_expiry t e
      | Some e' \<Rightarrow> ak_owner e' = ak_owner e \<and> ak_roles e' = ak_roles e \<and> ak_expires_at e' = ak_expires_at e \<and> ak_revoked e' = revoked)
     \<and> hm_ok (km_active m)"

lemma key_as_made_op:
  assumes "key_as_made i t revoked e m" "harmless hash i t op"
  shows "key_as_made i t (revoked \<or> op = Revoke i) e (run_key_op order hash later op m)"
proof (cases op)
  case (Generate now raw prefix owner roles ttl)
  then show ?thesis using assms
    by (auto simp: key_as_made_def key_generate_def Let_def split: option.split)
next
  case (Revoke j)
  then show ?thesis using assms by (cases "j = i") (auto simp: key_as_made_def key_revoke_def Let_def split: option.splits)
next
  case (MarkUsed now j)
  then show ?thesis using assms by (cases "j = i") (auto simp: key_as_made_def mark_used_def split: option.splits)
next
  case (CleanExpired now)
  have mono: "past_expiry now e' \<Longrightarrow> now \<le> t \<Longrightarrow> past_expiry t e'" for e'
    by (auto simp: past_expiry_def split: option.splits)
  show ?thesis
  proof (cases "hm_get (km_active m) i")
    case None
    with assms CleanExpired show ?thesis by (simp add: key_as_made_def clean_expired_keys_def hm_get_retain)
  next
    case (Some e')
    with assms(1) have "past_expiry x e' = past_expiry x e" for x by (simp add: key_as_made_def past_expiry_def)
    with Some assms CleanExpired mono [of e'] show ?thesis
      by (auto simp: key_as_made_def clean_expired_keys_def hm_get_retain split: option.split)
  qed
qed

lemma key_as_made_ops:
  assumes "key_as_made i t revoked e m" "\<forall>op \<in> set ops. harmless hash i t op"
  shows "key_as_made i t (revoked \<or> Revoke i \<in> set ops) e (run_key_ops order hash later ops m)"
  using assms
proof (induction ops arbitrary: m revoked)
  case (Cons op ops)
  from Cons.prems have "key_as_made i t (revoked \<or> op = Revoke i) e (run_key_op order hash later op m)"
    by (intro key_as_made_op) simp_all
  from Cons.IH [OF this] Cons.prems(2) have "key_as_made i t ((revoked \<or> op = Revoke i) \<or> Revoke i \<in> set ops) e
      (run_key_ops order hash later ops (run_key_op order hash later op m))"
    by simp
  moreover have "((revoked \<or> op = Revoke i) \<or> Revoke i \<in> set ops) = (revoked \<or> Revoke i \<in> set (op # ops))" by auto
  ultimately show ?case by (simp add: run_key_ops_def)
qed (simp add: run_key_ops_def)

text \<open>C38: whatever is done in between, a key that was generated is accepted exactly until its time is over, if it was never revoked, and with the
  owner and the roles it was made for; as long as no other key has the same hash and the clock does not go back.\<close>

theorem key_valid_exact:
  assumes "key_generate hash later now raw prefix owner roles ttl m = Some ((key, e), m')" "hm_ok (km_active m)"
    and "\<forall>op \<in> set ops. harmless hash (hash key) t op"
  shows "(\<exists>e'. key_verify hash t key (run_key_ops order hash later ops m') = Inr e' \<and> ak_owner e' = owner \<and> ak_roles e' = roles)
    \<longleftrightarrow> Revoke (hash key) \<notin> set ops \<and> \<not> past_expiry t e"
proof -
  from assms(1) have e: "ak_owner e = owner" "ak_roles e = roles" "hm_get (km_active m') (hash key) = Some e" "\<not> ak_revoked e"
    "km_active m' = hm_insert (hash key) e (km_active m)"
    by (auto simp: key_generate_def Let_def)
  then have "key_as_made (hash key) t False e m'" using assms(2) by (simp add: key_as_made_def)
  from key_as_made_ops [OF this assms(3)] have "key_as_made (hash key) t (Revoke (hash key) \<in> set ops) e (run_key_ops order hash later ops m')"
    by simp
  then show ?thesis using e(1,2)
    by (auto simp: key_as_made_def key_verify_def past_expiry_def split: option.splits)
qed

theorem key_valid_exact_witness:
  "\<exists>m'. key_verify id 5 ''ls_p_r'' (run_key_ops id id (\<lambda>t s. Some (t + s))
      [MarkUsed 2 ''x'', Revoke ''y''] m') = Inr \<lparr>ak_key_id = ''ls_p_r'', ak_key_prefix = ''ls_p_'', ak_owner = ''o'', ak_roles = [''r''],
        ak_created_at = 0, ak_expires_at = Some 9, ak_revoked = False, ak_last_used_at = None\<rparr>"
proof -
  let ?e = "\<lparr>ak_key_id = ''ls_p_r'', ak_key_prefix = ''ls_p_'', ak_owner = ''o'', ak_roles = [''r''],
        ak_created_at = 0, ak_expires_at = Some 9, ak_revoked = False, ak_last_used_at = None\<rparr>"
  let ?m' = "(key_manager_new None)\<lparr>km_active := [(''ls_p_r'', ?e)]\<rparr>"
  have gen: "key_generate id (\<lambda>t s. Some (t + s)) 0 ''r'' ''p'' ''o'' [''r''] (Some 9) (key_manager_new None) = Some ((''ls_p_r'', ?e), ?m')"
    by (simp add: key_generate_def expiry_of_def full_key_def key_manager_new_def Let_def)
  have "\<exists>e'. key_verify id 5 ''ls_p_r'' (run_key_ops id id (\<lambda>t s. Some (t + s)) [MarkUsed 2 ''x'', Revoke ''y''] ?m') = Inr e'
      \<and> ak_owner e' = ''o'' \<and> ak_roles e' = [''r'']"
    by (subst key_valid_exact [OF gen]) (simp_all add: key_manager_new_def past_expiry_def)
  then show ?thesis
    by (intro exI [of _ ?m']) (auto simp: key_verify_def run_key_ops_def mark_used_def key_revoke_def hm_modify_def split: if_splits option.splits)
qed

text \<open>A rotation ends the old key at once, and a revoked key is still listed among the active ones. The history can drop the key that has just
  been revoked instead of the oldest one.\<close>

lemma rotated_key_refused:
  assumes "key_rotate order hash later now raw (hash old) prefix owner roles ttl m = Some (Inr r, m')" "hash (full_key prefix raw) \<noteq> hash old"
  shows "key_verify hash t old m' = Inl (AuthenticationFailed ''API key revoked'')"
  using assms by (auto simp: key_rotate_def key_revoke_def key_generate_def key_verify_def Let_def split: option.splits prod.splits)

lemma revoked_listed_active:
  assumes "key_revoke order i m = (Inr (), m')" "hm_get (km_active m) i = Some e"
  shows "e\<lparr>ak_revoked := True\<rparr> \<in> set (list_active m')"
proof -
  have "hm_get (km_active m') i = Some (e\<lparr>ak_revoked := True\<rparr>)"
    using assms by (auto simp: key_revoke_def Let_def)
  from imageI [OF map_of_SomeD [OF this], of snd] show ?thesis by (simp add: list_active_def)
qed

lemma history_drops_newest:
  assumes "km_max_history m = 1" "km_history m = [(''a'', e1)]" "hm_get (km_active m) ''b'' = Some e2"
  shows "hm_dom (km_history (snd (key_revoke rev ''b'' m))) = {''a''}"
  using assms by (simp add: key_revoke_def Let_def)

end
