(* ===== verification/Know_Graph.thy ===== *)
theory Know_Graph
  imports Std_Text Floats "HOL-Library.List_Lexorder" "HOL-Library.Char_ord"
begin

text \<open>
  Knowledge graphs, their builder and the queries over them (\<open>knowledge-graph/src/types.rs\<close>, \<open>builder.rs\<close>). Texts are compared
  and lowered as ASCII; the text of the present moment is an argument.
\<close>

section \<open>The types\<close>

datatype node_type = File | Function | Class | Module | Concept | Config | Document | Service | Table | Endpoint | Pipeline
  | Schema | Resource | Domain | Flow | Step | Article | Entity | Topic | Claim | Source

fun node_type_str :: "node_type \<Rightarrow> string" where
  "node_type_str File = ''file''"
| "node_type_str Function = ''function''"
| "node_type_str Class = ''class''"
| "node_type_str Module = ''module''"
| "node_type_str Concept = ''concept''"
| "node_type_str Config = ''config''"
| "node_type_str Document = ''document''"
| "node_type_str Service = ''service''"
| "node_type_str Table = ''table''"
| "node_type_str Endpoint = ''endpoint''"
| "node_type_str Pipeline = ''pipeline''"
| "node_type_str Schema = ''schema''"
| "node_type_str Resource = ''resource''"
| "node_type_str Domain = ''domain''"
| "node_type_str Flow = ''flow''"
| "node_type_str Step = ''step''"
| "node_type_str Article = ''article''"
| "node_type_str Entity = ''entity''"
| "node_type_str Topic = ''topic''"
| "node_type_str Claim = ''claim''"
| "node_type_str Source = ''source''"

datatype edge_type = Imports | Exports | Contains | Inherits | Implements | Calls | Subscribes | Publishes | Middleware | ReadsFrom
  | WritesTo | Transforms | Validates | DependsOn | TestedBy | Configures | Related | SimilarTo | Deploys | Serves | Provisions
  | Triggers | Migrates | Documents | Routes | DefinesSchema | ContainsFlow | FlowStep | CrossDomain | Cites | Contradicts
  | BuildsOn | Exemplifies | CategorizedUnder | AuthoredBy

fun edge_type_str :: "edge_type \<Rightarrow> string" where
  "edge_type_str Imports = ''imports''"
| "edge_type_str Exports = ''exports''"
| "edge_type_str Contains = ''contains''"
| "edge_type_str Inherits = ''inherits''"
| "edge_type_str Implements = ''implements''"
| "edge_type_str Calls = ''calls''"
| "edge_type_str Subscribes = ''subscribes''"
| "edge_type_str Publishes = ''publishes''"
| "edge_type_str Middleware = ''middleware''"
| "edge_type_str ReadsFrom = ''reads_from''"
| "edge_type_str WritesTo = ''writes_to''"
| "edge_type_str Transforms = ''transforms''"
| "edge_type_str Validates = ''validates''"
| "edge_type_str DependsOn = ''depends_on''"
| "edge_type_str TestedBy = ''tested_by''"
| "edge_type_str Configures = ''configures''"
| "edge_type_str Related = ''related''"
| "edge_type_str SimilarTo = ''similar_to''"
| "edge_type_str Deploys = ''deploys''"
| "edge_type_str Serves = ''serves''"
| "edge_type_str Provisions = ''provisions''"
| "edge_type_str Triggers = ''triggers''"
| "edge_type_str Migrates = ''migrates''"
| "edge_type_str Documents = ''documents''"
| "edge_type_str Routes = ''routes''"
| "edge_type_str DefinesSchema = ''defines_schema''"
| "edge_type_str ContainsFlow = ''contains_flow''"
| "edge_type_str FlowStep = ''flow_step''"
| "edge_type_str CrossDomain = ''cross_domain''"
| "edge_type_str Cites = ''cites''"
| "edge_type_str Contradicts = ''contradicts''"
| "edge_type_str BuildsOn = ''builds_on''"
| "edge_type_str Exemplifies = ''exemplifies''"
| "edge_type_str CategorizedUnder = ''categorized_under''"
| "edge_type_str AuthoredBy = ''authored_by''"

datatype edge_direction = Forward | Backward | Bidirectional

datatype complexity = Simple | Moderate | Complex

datatype graph_kind = Codebase | Knowledge | Agent | CustomKind string

record domain_meta =
  dm_entities :: "string list"
  dm_business_rules :: "string list"
  dm_cross_domain_interactions :: "string list"
  dm_entry_point :: "string option"

record knowledge_meta =
  km_wikilinks :: "string list"
  km_backlinks :: "string list"
  km_category :: "string option"
  km_content :: "string option"

record graph_node =
  gn_id :: string
  gn_node_type :: node_type
  gn_name :: string
  gn_file_path :: "string option"
  gn_line_range :: "(nat \<times> nat) option"
  gn_summary :: string
  gn_tags :: "string list"
  gn_complexity :: complexity
  gn_language :: "string option"
  gn_domain_meta :: "domain_meta option"
  gn_knowledge_meta :: "knowledge_meta option"

record 'f graph_edge =
  ge_source :: string
  ge_target :: string
  ge_edge_type :: edge_type
  ge_direction :: edge_direction
  ge_description :: "string option"
  ge_weight :: 'f

record graph_layer =
  ly_id :: string
  ly_name :: string
  ly_description :: string
  ly_node_ids :: "string list"

record tour_step =
  to_order :: nat
  to_title :: string
  to_description :: string
  to_node_ids :: "string list"
  to_language_lesson :: "string option"

record project_meta =
  pj_name :: string
  pj_languages :: "string list"
  pj_frameworks :: "string list"
  pj_description :: string
  pj_analyzed_at :: string
  pj_git_commit_hash :: string

record 'f knowledge_graph =
  kg_version :: string
  kg_kind :: graph_kind
  kg_project :: project_meta
  kg_nodes :: "graph_node list"
  kg_edges :: "'f graph_edge list"
  kg_layers :: "graph_layer list"
  kg_tour :: "tour_step list"

definition graph_new :: "string \<Rightarrow> string \<Rightarrow> string \<Rightarrow> 'f knowledge_graph" where
  "graph_new now name git_hash = \<lparr>kg_version = ''1.0.0'', kg_kind = Codebase,
     kg_project = \<lparr>pj_name = name, pj_languages = [], pj_frameworks = [], pj_description = [], pj_analyzed_at = now, pj_git_commit_hash = git_hash\<rparr>,
     kg_nodes = [], kg_edges = [], kg_layers = [], kg_tour = []\<rparr>"

section \<open>The builder\<close>

record 'f graph_builder =
  gb_nodes :: "graph_node list"
  gb_edges :: "'f graph_edge list"
  gb_node_ids :: "string set"
  gb_edge_keys :: "string set"
  gb_project_name :: string
  gb_git_hash :: string

definition builder_new :: "string \<Rightarrow> string \<Rightarrow> 'f graph_builder" where
  "builder_new name git_hash = \<lparr>gb_nodes = [], gb_edges = [], gb_node_ids = {}, gb_edge_keys = {}, gb_project_name = name, gb_git_hash = git_hash\<rparr>"

definition edge_key :: "'f graph_edge \<Rightarrow> string" where
  "edge_key e = edge_type_str (ge_edge_type e) @ ''|'' @ ge_source e @ ''|'' @ ge_target e"

definition gb_add_node :: "graph_node \<Rightarrow> 'f graph_builder \<Rightarrow> bool \<times> 'f graph_builder" where
  "gb_add_node n b = (if gn_id n \<in> gb_node_ids b then (False, b)
     else (True, b\<lparr>gb_node_ids := insert (gn_id n) (gb_node_ids b), gb_nodes := gb_nodes b @ [n]\<rparr>))"

definition gb_add_edge :: "'f graph_edge \<Rightarrow> 'f graph_builder \<Rightarrow> bool \<times> 'f graph_builder" where
  "gb_add_edge e b = (if edge_key e \<in> gb_edge_keys b then (False, b)
     else (True, b\<lparr>gb_edge_keys := insert (edge_key e) (gb_edge_keys b), gb_edges := gb_edges b @ [e]\<rparr>))"

definition file_node_id :: "string \<Rightarrow> string" where
  "file_node_id path = ''file:'' @ path"

definition function_node_id :: "string \<Rightarrow> string \<Rightarrow> string" where
  "function_node_id path name = ''function:'' @ path @ '':'' @ name"

definition class_node_id :: "string \<Rightarrow> string \<Rightarrow> string" where
  "class_node_id path name = ''class:'' @ path @ '':'' @ name"

definition child_node :: "string \<Rightarrow> node_type \<Rightarrow> string \<Rightarrow> string \<Rightarrow> string \<times> string \<times> nat \<times> nat \<Rightarrow> graph_node" where
  "child_node i t path language = (\<lambda>(name, summary, range). \<lparr>gn_id = i, gn_node_type = t, gn_name = name, gn_file_path = Some path,
     gn_line_range = Some range, gn_summary = summary, gn_tags = [], gn_complexity = Simple, gn_language = Some language,
     gn_domain_meta = None, gn_knowledge_meta = None\<rparr>)"

definition plain_edge :: "string \<Rightarrow> string \<Rightarrow> edge_type \<Rightarrow> 'f \<Rightarrow> 'f graph_edge" where
  "plain_edge s t ty w = \<lparr>ge_source = s, ge_target = t, ge_edge_type = ty, ge_direction = Forward, ge_description = None, ge_weight = w\<rparr>"

text \<open>A function or class of a file: its node and the edge from the file to it.\<close>

definition add_child ::
  "'f float_ops \<Rightarrow> (string \<Rightarrow> string \<Rightarrow> string) \<Rightarrow> node_type \<Rightarrow> string \<Rightarrow> string \<Rightarrow> string \<times> string \<times> nat \<times> nat \<Rightarrow> 'f graph_builder \<Rightarrow> 'f graph_builder"
where
  "add_child F mk t path language child b =
     (let i = mk path (fst child)
      in snd (gb_add_edge (plain_edge (file_node_id path) i Contains (fl_dec F 10 1)) (snd (gb_add_node (child_node i t path language child) b))))"

definition file_node :: "string \<Rightarrow> string \<Rightarrow> string list \<Rightarrow> complexity \<Rightarrow> string \<Rightarrow> graph_node" where
  "file_node path summary tags c language = \<lparr>gn_id = file_node_id path, gn_node_type = File, gn_name = last (split_on CHR ''/'' path),
     gn_file_path = Some path, gn_line_range = None, gn_summary = summary, gn_tags = tags, gn_complexity = c, gn_language = Some language,
     gn_domain_meta = None, gn_knowledge_meta = None\<rparr>"

definition add_file_with_children ::
  "'f float_ops \<Rightarrow> string \<Rightarrow> string \<Rightarrow> string list \<Rightarrow> complexity \<Rightarrow> string \<Rightarrow> (string \<times> string \<times> nat \<times> nat) list
     \<Rightarrow> (string \<times> string \<times> nat \<times> nat) list \<Rightarrow> 'f graph_builder \<Rightarrow> 'f graph_builder" where
  "add_file_with_children F path summary tags c language functions classes b =
     fold (add_child F class_node_id Class path language) classes
       (fold (add_child F function_node_id Function path language) functions
         (snd (gb_add_node (file_node path summary tags c language) b)))"

definition add_import :: "'f float_ops \<Rightarrow> string \<Rightarrow> string \<Rightarrow> 'f graph_builder \<Rightarrow> 'f graph_builder" where
  "add_import F a c b = snd (gb_add_edge (plain_edge (file_node_id a) (file_node_id c) Imports (fl_dec F 7 1)) b)"

definition add_call :: "'f float_ops \<Rightarrow> string \<Rightarrow> string \<Rightarrow> string \<Rightarrow> string \<Rightarrow> 'f graph_builder \<Rightarrow> 'f graph_builder" where
  "add_call F from_file from_func to_file to_func b =
     snd (gb_add_edge (plain_edge (function_node_id from_file from_func) (function_node_id to_file to_func) Calls (fl_dec F 8 1)) b)"

definition add_knowledge_node :: "string \<Rightarrow> node_type \<Rightarrow> string \<Rightarrow> string \<Rightarrow> string \<Rightarrow> 'f graph_builder \<Rightarrow> 'f graph_builder" where
  "add_knowledge_node i t name summary category b = snd (gb_add_node \<lparr>gn_id = i, gn_node_type = t, gn_name = name, gn_file_path = None,
     gn_line_range = None, gn_summary = summary, gn_tags = [category], gn_complexity = Simple, gn_language = None, gn_domain_meta = None,
     gn_knowledge_meta = Some \<lparr>km_wikilinks = [], km_backlinks = [], km_category = Some category, km_content = None\<rparr>\<rparr> b)"

definition node_languages :: "graph_node list \<Rightarrow> string list" where
  "node_languages ns = sort (remdups (List.map_filter gn_language ns))"

definition graph_build :: "string \<Rightarrow> 'f graph_builder \<Rightarrow> 'f knowledge_graph" where
  "graph_build now b =
     (let g = graph_new now (gb_project_name b) (gb_git_hash b)
      in g\<lparr>kg_project := (kg_project g)\<lparr>pj_languages := node_languages (gb_nodes b)\<rparr>, kg_nodes := gb_nodes b, kg_edges := gb_edges b\<rparr>)"

section \<open>Queries\<close>

definition nodes_by_type :: "node_type \<Rightarrow> 'f knowledge_graph \<Rightarrow> graph_node list" where
  "nodes_by_type t g = filter (\<lambda>n. gn_node_type n = t) (kg_nodes g)"

definition nodes_by_tag :: "string \<Rightarrow> 'f knowledge_graph \<Rightarrow> graph_node list" where
  "nodes_by_tag t g = filter (\<lambda>n. t \<in> set (gn_tags n)) (kg_nodes g)"

definition outgoing_edges :: "string \<Rightarrow> 'f knowledge_graph \<Rightarrow> 'f graph_edge list" where
  "outgoing_edges i g = filter (\<lambda>e. ge_source e = i) (kg_edges g)"

definition incoming_edges :: "string \<Rightarrow> 'f knowledge_graph \<Rightarrow> 'f graph_edge list" where
  "incoming_edges i g = filter (\<lambda>e. ge_target e = i) (kg_edges g)"

definition node_matches :: "string \<Rightarrow> graph_node \<Rightarrow> bool" where
  "node_matches q n \<longleftrightarrow> contains_str (to_lower (gn_name n)) q \<or> contains_str (to_lower (gn_summary n)) q
     \<or> (\<exists>t \<in> set (gn_tags n). contains_str (to_lower t) q)"

definition graph_search :: "string \<Rightarrow> 'f knowledge_graph \<Rightarrow> graph_node list" where
  "graph_search query g = filter (node_matches (to_lower query)) (kg_nodes g)"

definition import_pair :: "graph_node list \<Rightarrow> 'f graph_edge \<Rightarrow> (graph_node \<times> graph_node) option" where
  "import_pair ns e = (case find (\<lambda>n. gn_id n = ge_source e) ns of None \<Rightarrow> None
     | Some a \<Rightarrow> (case find (\<lambda>n. gn_id n = ge_target e) ns of None \<Rightarrow> None
         | Some b \<Rightarrow> let files = gn_id ` set (filter (\<lambda>n. gn_node_type n = File) ns)
             in if gn_id a \<in> files \<and> gn_id b \<in> files then Some (a, b) else None))"

definition file_import_graph :: "'f knowledge_graph \<Rightarrow> (graph_node \<times> graph_node) list" where
  "file_import_graph g = List.map_filter (import_pair (kg_nodes g)) (filter (\<lambda>e. ge_edge_type e = Imports) (kg_edges g))"

section \<open>What a built graph is\<close>

inductive builder_step :: "'f float_ops \<Rightarrow> 'f graph_builder \<Rightarrow> 'f graph_builder \<Rightarrow> bool" for F where
  "builder_step F b (snd (gb_add_node n b))"
| "builder_step F b (snd (gb_add_edge e b))"
| "builder_step F b (add_file_with_children F path summary tags c language functions classes b)"
| "builder_step F b (add_import F a x b)"
| "builder_step F b (add_call F from_file from_func to_file to_func b)"
| "builder_step F b (add_knowledge_node i t name summary category b)"

definition builder_inv :: "'f graph_builder \<Rightarrow> bool" where
  "builder_inv b \<longleftrightarrow> distinct (map gn_id (gb_nodes b)) \<and> distinct (map edge_key (gb_edges b))
     \<and> gb_node_ids b = gn_id ` set (gb_nodes b) \<and> gb_edge_keys b = edge_key ` set (gb_edges b)"

lemma builder_inv_new: "builder_inv (builder_new name h)"
  by (simp add: builder_inv_def builder_new_def)

lemma builder_inv_node [intro]: "builder_inv b \<Longrightarrow> builder_inv (snd (gb_add_node n b))"
  by (auto simp: builder_inv_def gb_add_node_def)

lemma builder_inv_edge [intro]: "builder_inv b \<Longrightarrow> builder_inv (snd (gb_add_edge e b))"
  by (auto simp: builder_inv_def gb_add_edge_def)

lemma builder_inv_child: "builder_inv b \<Longrightarrow> builder_inv (add_child F mk t path language child b)"
  unfolding add_child_def Let_def by blast

lemma builder_inv_children: "builder_inv b \<Longrightarrow> builder_inv (fold (add_child F mk t path language) children b)"
  by (induction children arbitrary: b) (auto intro: builder_inv_child)

lemma builder_inv_step: "builder_step F b b' \<Longrightarrow> builder_inv b \<Longrightarrow> builder_inv b'"
  by (induction rule: builder_step.induct)
    (auto simp: add_import_def add_call_def add_knowledge_node_def add_file_with_children_def intro!: builder_inv_children)

interpretation gb: machine "\<lambda>b. \<exists>name h. b = builder_new name h" "builder_step F" builder_inv for F
  by unfold_locales (auto intro: builder_inv_new builder_inv_step)

text \<open>In a graph the builder makes no two nodes have the same identifier and no two edges the same type and ends.\<close>

lemma built_graph_unique:
  assumes "reaches (\<lambda>b. \<exists>name h. b = builder_new name h) (builder_step F) b"
  shows "distinct (map gn_id (kg_nodes (graph_build now b)))"
    and "distinct (map (\<lambda>e. (ge_edge_type e, ge_source e, ge_target e)) (kg_edges (graph_build now b)))"
proof -
  from gb.reaches_inv [OF assms] have inv: "builder_inv b" .
  then show "distinct (map gn_id (kg_nodes (graph_build now b)))" by (simp add: graph_build_def builder_inv_def Let_def)
  have same: "edge_key e = edge_key e'"
    if "(ge_edge_type e, ge_source e, ge_target e) = (ge_edge_type e', ge_source e', ge_target e')" for e e' :: "'a graph_edge"
    using that by (simp add: edge_key_def)
  have "distinct (map edge_key (gb_edges b))" using inv by (simp add: builder_inv_def)
  then have "distinct (gb_edges b)" "inj_on edge_key (set (gb_edges b))" by (simp_all add: distinct_map)
  moreover from this(2) have "inj_on (\<lambda>e. (ge_edge_type e, ge_source e, ge_target e)) (set (gb_edges b))"
    unfolding inj_on_def using same by blast
  ultimately show "distinct (map (\<lambda>e. (ge_edge_type e, ge_source e, ge_target e)) (kg_edges (graph_build now b)))"
    by (simp add: graph_build_def Let_def distinct_map)
qed

text \<open>The other direction fails: the key of an edge does not separate its ends, so a different edge is taken for one that is there.\<close>

lemma edge_key_confuses:
  "fst (gb_add_edge (plain_edge ''a'' ''b|c'' Related w) (snd (gb_add_edge (plain_edge ''a|b'' ''c'' Related w) b))) = False"
  by (simp add: gb_add_edge_def edge_key_def plain_edge_def)

text \<open>Where no identifier has a bar in it, an edge is refused only when it is there already.\<close>

lemma split_bar: "CHR ''|'' \<notin> set a \<Longrightarrow> CHR ''|'' \<notin> set a' \<Longrightarrow> a @ CHR ''|'' # b = a' @ CHR ''|'' # b' \<longleftrightarrow> a = a' \<and> b = b'"
proof (induction a arbitrary: a')
  case Nil
  then show ?case by (cases a') auto
next
  case (Cons x a)
  then show ?case by (cases a') auto
qed

lemma edge_type_str_no_bar: "CHR ''|'' \<notin> set (edge_type_str t)"
  by (cases t) simp_all

lemma edge_type_str_inj: "edge_type_str t = edge_type_str t' \<Longrightarrow> t = t'"
  by (cases t; cases t') simp_all

lemma edge_key_exact:
  assumes "CHR ''|'' \<notin> set (ge_source e)" "CHR ''|'' \<notin> set (ge_source e')"
  shows "edge_key e = edge_key e' \<longleftrightarrow> ge_edge_type e = ge_edge_type e' \<and> ge_source e = ge_source e' \<and> ge_target e = ge_target e'"
  using assms by (auto simp: edge_key_def split_bar edge_type_str_no_bar dest: edge_type_str_inj)

end
