(* ===== verification/Know_Memory.thy ===== *)
theory Know_Memory
  imports Know_Graph
begin

text \<open>
  Knowledge graphs as the memory of agents (\<open>knowledge-graph/src/memory.rs\<close>): graphs by name, interactions in their order, and
  the search for a path. A search holds the lock from its start to its end, and every other operation does too, so that
  operations are single steps.
\<close>

type_synonym 'f graph_memory = "(string, 'f knowledge_graph) hmap"

definition graph_missing :: "string \<Rightarrow> ls_error" where
  "graph_missing name = NotFound (''graph '' @ quoted name)"

section \<open>The store\<close>

definition store_graph :: "'f knowledge_graph \<Rightarrow> 'f graph_memory \<Rightarrow> 'f graph_memory" where
  "store_graph g m = hm_insert (pj_name (kg_project g)) g m"

definition get_graph :: "string \<Rightarrow> 'f graph_memory \<Rightarrow> 'f knowledge_graph option" where
  "get_graph name m = hm_get m name"

definition memory_add_node :: "string \<Rightarrow> graph_node \<Rightarrow> 'f graph_memory \<Rightarrow> bool ls_result \<times> 'f graph_memory" where
  "memory_add_node name n m = (case hm_get m name of
       None \<Rightarrow> (Inl (graph_missing name), m)
     | Some g \<Rightarrow> if \<exists>x \<in> set (kg_nodes g). gn_id x = gn_id n then (Inr False, m)
         else (Inr True, hm_insert name (g\<lparr>kg_nodes := kg_nodes g @ [n]\<rparr>) m))"

definition memory_add_edge :: "string \<Rightarrow> 'f graph_edge \<Rightarrow> 'f graph_memory \<Rightarrow> bool ls_result \<times> 'f graph_memory" where
  "memory_add_edge name e m = (case hm_get m name of
       None \<Rightarrow> (Inl (graph_missing name), m)
     | Some g \<Rightarrow> if \<exists>x \<in> set (kg_edges g). edge_key x = edge_key e then (Inr False, m)
         else (Inr True, hm_insert name (g\<lparr>kg_edges := kg_edges g @ [e]\<rparr>) m))"

definition search_nodes :: "string \<Rightarrow> string \<Rightarrow> 'f graph_memory \<Rightarrow> graph_node list ls_result" where
  "search_nodes name query m = (case hm_get m name of
       None \<Rightarrow> Inl (graph_missing name)
     | Some g \<Rightarrow> Inr (filter (node_matches (to_lower query)) (kg_nodes g)))"

definition edge_neighbors :: "string \<Rightarrow> 'f graph_edge list \<Rightarrow> string set" where
  "edge_neighbors i es = set (map (\<lambda>e. if ge_source e = i then ge_target e else ge_source e)
     (filter (\<lambda>e. ge_source e = i \<or> ge_target e = i) es))"

definition memory_neighbors :: "string \<Rightarrow> string \<Rightarrow> 'f graph_memory \<Rightarrow> graph_node list ls_result" where
  "memory_neighbors name i m = (case hm_get m name of
       None \<Rightarrow> Inl (graph_missing name)
     | Some g \<Rightarrow> Inr (filter (\<lambda>n. gn_id n \<in> edge_neighbors i (kg_edges g)) (kg_nodes g)))"

definition list_graphs :: "'f graph_memory \<Rightarrow> string list" where
  "list_graphs m = hm_keys m"

definition interaction_id :: "string \<Rightarrow> nat \<Rightarrow> string" where
  "interaction_id agent k = ''interaction:'' @ agent @ '':'' @ show_nat k"

definition interaction_node :: "string \<Rightarrow> string \<Rightarrow> string \<Rightarrow> string \<Rightarrow> graph_node" where
  "interaction_node i agent action summary = \<lparr>gn_id = i, gn_node_type = Concept, gn_name = action, gn_file_path = None, gn_line_range = None,
     gn_summary = summary, gn_tags = [agent, ''interaction''], gn_complexity = Simple, gn_language = None, gn_domain_meta = None,
     gn_knowledge_meta = None\<rparr>"

text \<open>An interaction is a node behind the others, joined to the one that was the last until then.\<close>

definition append_interaction :: "'f float_ops \<Rightarrow> string \<Rightarrow> string \<Rightarrow> string \<Rightarrow> 'f knowledge_graph \<Rightarrow> 'f knowledge_graph" where
  "append_interaction F agent action summary g =
     (let i = interaction_id agent (length (kg_nodes g) + 1);
          g' = g\<lparr>kg_nodes := kg_nodes g @ [interaction_node i agent action summary]\<rparr>
      in if length (kg_nodes g') > 1
         then g'\<lparr>kg_edges := kg_edges g @ [\<lparr>ge_source = gn_id (kg_nodes g' ! (length (kg_nodes g') - 2)), ge_target = i, ge_edge_type = Related,
                ge_direction = Forward, ge_description = Some ''chronological'', ge_weight = fl_dec F 5 1\<rparr>]\<rparr>
         else g')"

definition record_interaction ::
  "'f float_ops \<Rightarrow> string \<Rightarrow> string \<Rightarrow> string \<Rightarrow> string \<Rightarrow> string \<Rightarrow> 'f graph_memory \<Rightarrow> 'f graph_memory" where
  "record_interaction F now name agent action summary m =
     (let g = (case hm_get m name of Some g \<Rightarrow> g | None \<Rightarrow> (graph_new now name [])\<lparr>kg_kind := Agent\<rparr>)
      in hm_insert name (append_interaction F agent action summary g) m)"

section \<open>Paths\<close>

text \<open>The node at the other end of an edge, and one round of the search: the edges in their order, each new neighbour behind
  the queue with the path to it.\<close>

definition edge_neighbor :: "string \<Rightarrow> 'f graph_edge \<Rightarrow> string option" where
  "edge_neighbor current e = (if ge_source e = current then Some (ge_target e)
     else if ge_target e = current then Some (ge_source e) else None)"

fun scan_edges ::
  "string \<Rightarrow> string list \<Rightarrow> 'f graph_edge list \<Rightarrow> string set \<Rightarrow> (string \<times> string list) list \<Rightarrow> string set \<times> (string \<times> string list) list" where
  "scan_edges current path [] visited queue = (visited, queue)"
| "scan_edges current path (e # es) visited queue = (case edge_neighbor current e of
     None \<Rightarrow> scan_edges current path es visited queue
   | Some n \<Rightarrow> if n \<in> visited then scan_edges current path es visited queue
       else scan_edges current path es (insert n visited) (queue @ [(n, path @ [n])]))"

definition edge_ends :: "'f graph_edge list \<Rightarrow> string set" where
  "edge_ends es = ge_source ` set es \<union> ge_target ` set es"

definition kg_neighbors :: "'f graph_edge list \<Rightarrow> string \<Rightarrow> string set" where
  "kg_neighbors es u = {n. \<exists>e \<in> set es. edge_neighbor u e = Some n}"

lemma kg_neighbors_simps [simp]:
  "kg_neighbors [] u = {}"
  "kg_neighbors (e # es) u = (case edge_neighbor u e of None \<Rightarrow> {} | Some n \<Rightarrow> {n}) \<union> kg_neighbors es u"
  by (auto simp: kg_neighbors_def split: option.split)

lemma kg_neighbors_ends: "kg_neighbors es u \<subseteq> edge_ends es"
  by (auto simp: kg_neighbors_def edge_ends_def edge_neighbor_def split: if_splits)

text \<open>A round adds the new neighbours to the visited ones and to the end of the queue, each once.\<close>

lemma scan_edges_exact:
  "\<exists>new. scan_edges u p es vis q = (vis \<union> kg_neighbors es u, q @ map (\<lambda>n. (n, p @ [n])) new) \<and> set new = kg_neighbors es u - vis \<and> distinct new"
proof (induction es arbitrary: vis q)
  case (Cons e es)
  show ?case
  proof (cases "edge_neighbor u e")
    case None
    with Cons.IH [of vis q] show ?thesis by simp
  next
    case (Some n)
    show ?thesis
    proof (cases "n \<in> vis")
      case True
      with Some Cons.IH [of vis q] show ?thesis by (auto simp: insert_absorb)
    next
      case False
      from Cons.IH [of "insert n vis" "q @ [(n, p @ [n])]"] obtain new where
        new: "scan_edges u p es (insert n vis) (q @ [(n, p @ [n])]) = (insert n vis \<union> kg_neighbors es u, (q @ [(n, p @ [n])]) @ map (\<lambda>n. (n, p @ [n])) new)"
          "set new = kg_neighbors es u - insert n vis" "distinct new" by blast
      with Some False show ?thesis by (intro exI [of _ "n # new"]) auto
    qed
  qed
qed simp

lemma finite_ends [simp]: "finite (edge_ends es)"
  by (simp add: edge_ends_def)

text \<open>The search ends: a round takes one entry off the queue, and a new entry is an end of an edge not visited before.\<close>

lemma scan_edges_less:
  assumes "scan_edges u p es vis q = (vis', q')"
  shows "card (edge_ends es - vis') + length q' = card (edge_ends es - vis) + length q"
proof -
  from scan_edges_exact [of u p es vis q] obtain new where
    new: "vis' = vis \<union> kg_neighbors es u" "q' = q @ map (\<lambda>n. (n, p @ [n])) new" "set new = kg_neighbors es u - vis" "distinct new"
    using assms by auto
  have sub: "set new \<subseteq> edge_ends es - vis" using new(3) kg_neighbors_ends by blast
  have "edge_ends es - vis' = (edge_ends es - vis) - set new" using new(1,3) by blast
  moreover have "card ((edge_ends es - vis) - set new) = card (edge_ends es - vis) - length new"
    using sub distinct_card [OF new(4)] by (simp add: card_Diff_subset)
  moreover have "length new \<le> card (edge_ends es - vis)"
    using card_mono [OF _ sub] distinct_card [OF new(4)] by simp
  ultimately show ?thesis by (simp add: new(2))
qed

function path_loop :: "'f graph_edge list \<Rightarrow> string \<Rightarrow> string set \<Rightarrow> (string \<times> string list) list \<Rightarrow> string list option" where
  "path_loop es goal visited [] = None"
| "path_loop es goal visited ((current, path) # queue) =
     (if current = goal then Some path
      else (case scan_edges current path es visited queue of (visited', queue') \<Rightarrow> path_loop es goal visited' queue'))"
  by pat_completeness auto
termination
proof (relation "measure (\<lambda>(es, goal, visited, queue). card (edge_ends es - visited) + length queue)", goal_cases)
  case (2 es goal visited current path queue x y)
  from scan_edges_less [OF 2(2) [symmetric]] show ?case using 2(2) [symmetric] by simp
qed simp

definition find_path :: "string \<Rightarrow> string \<Rightarrow> string \<Rightarrow> 'f graph_memory \<Rightarrow> string list ls_result" where
  "find_path name from_id to_id m = (case hm_get m name of
       None \<Rightarrow> Inl (graph_missing name)
     | Some g \<Rightarrow> (case path_loop (kg_edges g) to_id {from_id} [(from_id, [from_id])] of
           Some p \<Rightarrow> Inr p
         | None \<Rightarrow> Inl (NotFound (''no path from '' @ from_id @ '' to '' @ to_id))))"

section \<open>The path found is a shortest one\<close>

text \<open>A walk goes over edges, in either direction.\<close>

fun walk :: "'f graph_edge list \<Rightarrow> string list \<Rightarrow> bool" where
  "walk es [] = False"
| "walk es [u] = True"
| "walk es (u # v # p) \<longleftrightarrow> v \<in> kg_neighbors es u \<and> walk es (v # p)"

lemma walk_snoc: "walk es (p @ [v]) \<longleftrightarrow> p = [] \<or> walk es p \<and> v \<in> kg_neighbors es (last p)"
  by (induction es p rule: walk.induct) auto

definition walk_to :: "'f graph_edge list \<Rightarrow> string \<Rightarrow> string \<Rightarrow> string list \<Rightarrow> bool" where
  "walk_to es s v p \<longleftrightarrow> walk es p \<and> hd p = s \<and> last p = v"

lemma walk_to_start: "walk_to es s s [s]"
  by (simp add: walk_to_def)

lemma walk_to_nonempty: "walk_to es s v p \<Longrightarrow> p \<noteq> []"
  by (auto simp: walk_to_def)

lemma walk_to_snoc: "walk_to es s u p \<Longrightarrow> v \<in> kg_neighbors es u \<Longrightarrow> walk_to es s v (p @ [v])"
  by (cases p) (auto simp: walk_to_def walk_snoc simp flip: append_Cons)

lemma walk_to_cases:
  assumes "walk_to es s v p"
  obtains "p = [s]" "v = s" | u q where "p = q @ [v]" "walk_to es s u q" "v \<in> kg_neighbors es u"
proof (cases p rule: rev_cases)
  case Nil
  with assms show ?thesis by (simp add: walk_to_def)
next
  case (snoc q x)
  with assms that show ?thesis by (cases q) (auto simp: walk_to_def walk_snoc simp flip: append_Cons)
qed

text \<open>The invariant of the search: the queue holds shortest walks in the order of their lengths, which differ by one at most;
  every node that can be reached by a walk as long as the first of them is visited; and a node that is visited and no longer in the
  queue has all its neighbours visited.\<close>

definition queue_sorted :: "(string \<times> string list) list \<Rightarrow> bool" where
  "queue_sorted q \<longleftrightarrow> sorted (map (length \<circ> snd) q) \<and> (\<forall>x \<in> set q. \<forall>y \<in> set q. length (snd x) \<le> Suc (length (snd y)))"

definition search_inv :: "'f graph_edge list \<Rightarrow> string \<Rightarrow> string \<Rightarrow> string set \<Rightarrow> (string \<times> string list) list \<Rightarrow> bool" where
  "search_inv es s goal vis q \<longleftrightarrow> s \<in> vis \<and> fst ` set q \<subseteq> vis
     \<and> queue_sorted q
     \<and> (\<forall>(v, p) \<in> set q. walk_to es s v p \<and> (\<forall>w. walk_to es s v w \<longrightarrow> length p \<le> length w))
     \<and> (\<forall>u \<in> vis - fst ` set q. u \<noteq> goal \<and> kg_neighbors es u \<subseteq> vis)
     \<and> (\<forall>v w. walk_to es s v w \<longrightarrow> (\<exists>p. q \<noteq> [] \<and> p = snd (hd q) \<and> length w \<le> length p) \<longrightarrow> v \<in> vis)"

lemma search_inv_init: "search_inv es s goal {s} [(s, [s])]"
proof -
  have "v = s" if "walk_to es s v w" "length w \<le> Suc 0" for v w
    using that walk_to_nonempty [OF that(1)] by (cases w) (auto simp: walk_to_def)
  moreover have "Suc 0 \<le> length w" if "walk_to es s v w" for v w
    using walk_to_nonempty [OF that] by (cases w) auto
  ultimately show ?thesis by (auto simp: search_inv_def queue_sorted_def walk_to_start)
qed

text \<open>With an empty queue everything that can be reached was visited.\<close>

lemma search_inv_empty:
  assumes "search_inv es s goal vis []" "walk_to es s v w"
  shows "v \<in> vis \<and> v \<noteq> goal"
proof -
  have closed: "s \<in> vis" "\<forall>u \<in> vis. u \<noteq> goal \<and> kg_neighbors es u \<subseteq> vis" using assms(1) by (auto simp: search_inv_def)
  have "v \<in> vis" using assms(2)
  proof (induction "length w" arbitrary: v w rule: less_induct)
    case less
    from less.prems show ?case
    proof (cases rule: walk_to_cases)
      case 1
      with closed show ?thesis by simp
    next
      case (2 u q)
      with less.hyps [of q u] closed show ?thesis by auto
    qed
  qed
  with closed show ?thesis by blast
qed

text \<open>A round of the search keeps the invariant.\<close>

lemma search_inv_round:
  assumes inv: "search_inv es s goal vis ((u, p) # q)" and "u \<noteq> goal" and scan: "scan_edges u p es vis q = (vis', q')"
  shows "search_inv es s goal vis' q'"
proof -
  obtain new where vis': "vis' = vis \<union> kg_neighbors es u" and q': "q' = q @ map (\<lambda>n. (n, p @ [n])) new"
    and new: "set new = kg_neighbors es u - vis" using scan scan_edges_exact [of u p es vis q] by auto
  have sv: "s \<in> vis" "u \<in> vis" "fst ` set q \<subseteq> vis" and sorted: "queue_sorted ((u, p) # q)"
    and short: "\<forall>(v, p) \<in> set ((u, p) # q). walk_to es s v p \<and> (\<forall>w. walk_to es s v w \<longrightarrow> length p \<le> length w)"
    and gone: "\<forall>x \<in> vis - fst ` set ((u, p) # q). x \<noteq> goal \<and> kg_neighbors es x \<subseteq> vis"
    and near: "\<And>v w. walk_to es s v w \<Longrightarrow> length w \<le> length p \<Longrightarrow> v \<in> vis"
    using inv unfolding search_inv_def by auto
  have lens: "length (snd x) = length p \<or> length (snd x) = Suc (length p)" if "x \<in> set q" for x
    using sorted that by (force simp: queue_sorted_def)
  have newlen: "length (snd x) = Suc (length p)" if "x \<in> set (map (\<lambda>n. (n, p @ [n])) new)" for x using that by auto
  have "queue_sorted q'"
  proof -
    have "sorted (map (length \<circ> snd) q)" using sorted by (simp add: queue_sorted_def)
    moreover have "sorted (map (length \<circ> snd) (map (\<lambda>n. (n, p @ [n])) new))" by (induction new) auto
    moreover have "\<forall>x \<in> set q. length (snd x) \<le> Suc (length p)" using lens by force
    ultimately have "sorted (map (length \<circ> snd) q')" unfolding q' map_append sorted_append by auto
    moreover have "length (snd x) \<le> Suc (length (snd y))" if "x \<in> set q'" "y \<in> set q'" for x y
    proof -
      have "length (snd z) = length p \<or> length (snd z) = Suc (length p)" if "z \<in> set q'" for z
        using that lens [of z] newlen [of z] unfolding q' set_append Un_iff by blast
      from this [OF that(1)] this [OF that(2)] show ?thesis by auto
    qed
    ultimately show ?thesis by (simp add: queue_sorted_def)
  qed
  moreover have short': "walk_to es s v r \<and> (\<forall>w. walk_to es s v w \<longrightarrow> length r \<le> length w)" if "(v, r) \<in> set q'" for v r
  proof (cases "(v, r) \<in> set q")
    case True
    with short show ?thesis by auto
  next
    case False
    with that have v: "r = p @ [v]" "v \<in> kg_neighbors es u" "v \<notin> vis" by (auto simp: q' new)
    have "walk_to es s u p" using short by simp
    from walk_to_snoc [OF this v(2)] have "walk_to es s v r" by (simp add: v(1))
    moreover have "length r \<le> length w" if "walk_to es s v w" for w
      using near [OF that] v(1,3) by (cases "length w \<le> length p") auto
    ultimately show ?thesis by blast
  qed
  moreover have gone': "x \<noteq> goal \<and> kg_neighbors es x \<subseteq> vis'" if "x \<in> vis' - fst ` set q'" for x
  proof (cases "x = u")
    case True
    then show ?thesis using \<open>u \<noteq> goal\<close> by (simp add: vis')
  next
    case False
    have "x \<in> vis"
    proof (rule ccontr)
      assume "x \<notin> vis"
      with that have "x \<in> set new" by (auto simp: vis' new)
      with that show False by (force simp: q')
    qed
    with that False gone show ?thesis by (auto simp: q' vis')
  qed
  moreover have "v \<in> vis'" if "walk_to es s v w" "q' \<noteq> []" "length w \<le> length (snd (hd q'))" for v w
  proof (cases "length w \<le> length p")
    case True
    with near [OF that(1)] show ?thesis by (simp add: vis')
  next
    case False
    have "length (snd (hd q')) = length p \<or> length (snd (hd q')) = Suc (length p)"
      using that(2) lens [of "hd q'"] newlen [of "hd q'"] hd_in_set [of q'] by (auto simp: q')
    with False that(3) have lw: "length w = Suc (length p)" and hd: "length (snd (hd q')) = Suc (length p)" by auto
    from that(1) show ?thesis
    proof (cases rule: walk_to_cases)
      case 1
      then show ?thesis using sv by (simp add: vis')
    next
      case (2 x r)
      then have "length r = length p" using lw by simp
      with near [OF 2(2)] have "x \<in> vis" by simp
      moreover have "x \<notin> fst ` set q'"
      proof
        assume "x \<in> fst ` set q'"
        then obtain r' where r': "(x, r') \<in> set q'" by auto
        have "length (snd (hd q')) \<le> length (snd y)" if "y \<in> set q'" for y
          using \<open>queue_sorted q'\<close> that by (cases q') (auto simp: queue_sorted_def)
        from this [OF r'] hd have "Suc (length p) \<le> length r'" by simp
        moreover have "length r' \<le> length r" using short' [OF r'] 2(2) by blast
        ultimately show False using \<open>length r = length p\<close> by simp
      qed
      ultimately show ?thesis using gone' [of x] 2(3) by (auto simp: vis')
    qed
  qed
  ultimately show ?thesis using sv by (auto simp: search_inv_def vis' q' new)
qed

lemma path_loop_shortest:
  assumes "search_inv es s goal vis q"
  shows "case path_loop es goal vis q of
      Some p \<Rightarrow> walk_to es s goal p \<and> (\<forall>w. walk_to es s goal w \<longrightarrow> length p \<le> length w)
    | None \<Rightarrow> \<nexists>w. walk_to es s goal w"
  using assms
proof (induction es goal vis q rule: path_loop.induct)
  case (1 es goal vis)
  then show ?case using search_inv_empty by fastforce
next
  case (2 es goal vis u p q)
  show ?case
  proof (cases "u = goal")
    case True
    with 2(2) show ?thesis by (auto simp: search_inv_def)
  next
    case False
    obtain vis' q' where scan: "scan_edges u p es vis q = (vis', q')" by fastforce
    from 2(1) [OF False scan [symmetric]] search_inv_round [OF 2(2) False scan] False scan show ?thesis by simp
  qed
qed

text \<open>C36: the search for a path always ends. It answers with a shortest walk over the edges, in either direction, and says that there is
  no path exactly when there is no walk.\<close>

theorem find_path_shortest:
  assumes "hm_get m name = Some g"
  shows "case find_path name s t m of
      Inr p \<Rightarrow> walk_to (kg_edges g) s t p \<and> (\<forall>w. walk_to (kg_edges g) s t w \<longrightarrow> length p \<le> length w)
    | Inl e \<Rightarrow> e = NotFound (''no path from '' @ s @ '' to '' @ t) \<and> (\<nexists>w. walk_to (kg_edges g) s t w)"
  using path_loop_shortest [OF search_inv_init, of "kg_edges g" s t] assms
  by (cases "path_loop (kg_edges g) t {s} [(s, [s])]") (simp_all add: find_path_def)

definition sample_knowledge :: "rat knowledge_graph" where
  "sample_knowledge = (graph_new [] ''g'' [])\<lparr>kg_edges := map (\<lambda>(a, b). plain_edge a b Related 1)
     [(''a'', ''b''), (''b'', ''c''), (''c'', ''d''), (''d'', ''a'')]\<rparr>"

theorem find_path_shortest_witness:
  "find_path ''g'' ''a'' ''c'' [(''g'', sample_knowledge)] = Inr [''a'', ''b'', ''c''] \<and> \<not> walk_to (kg_edges sample_knowledge) ''a'' ''c'' [''a'', ''c'']"
proof -
  have path: "find_path ''g'' ''a'' ''c'' [(''g'', sample_knowledge)] = Inr [''a'', ''b'', ''c'']"
    by (simp add: find_path_def sample_knowledge_def plain_edge_def edge_neighbor_def)
  with find_path_shortest [of "[(''g'', sample_knowledge)]" "''g''" sample_knowledge "''a''" "''c''"] show ?thesis by force
qed

text \<open>The direction of an edge is not looked at, and the ends need not be nodes of the graph.\<close>

lemma path_against_edge:
  "find_path ''g'' ''b'' ''a'' [(''g'', sample_knowledge)] = Inr [''b'', ''a'']"
  "find_path ''g'' ''z'' ''z'' [(''g'', sample_knowledge)] = Inr [''z'']"
  by (simp_all add: find_path_def sample_knowledge_def plain_edge_def edge_neighbor_def)

section \<open>Interactions\<close>

text \<open>In a graph that holds the interactions of agents only, each is joined to the one before it, so that any later one is reached from
  any earlier one.\<close>

fun record_interactions :: "'f float_ops \<Rightarrow> string \<Rightarrow> string \<Rightarrow> (string \<times> string \<times> string) list \<Rightarrow> 'f graph_memory \<Rightarrow> 'f graph_memory" where
  "record_interactions F now name [] m = m"
| "record_interactions F now name ((agent, action, summary) # rs) m = record_interactions F now name rs (record_interaction F now name agent action summary m)"

definition chained :: "'f knowledge_graph \<Rightarrow> bool" where
  "chained g \<longleftrightarrow> (\<forall>k. Suc k < length (kg_nodes g) \<longrightarrow> gn_id (kg_nodes g ! Suc k) \<in> kg_neighbors (kg_edges g) (gn_id (kg_nodes g ! k)))"

lemma kg_neighbors_append: "kg_neighbors (es @ es') u = kg_neighbors es u \<union> kg_neighbors es' u"
  by (auto simp: kg_neighbors_def)

lemma chained_append:
  assumes "chained g"
  shows "chained (append_interaction F agent action summary g)" (is "chained ?g")
proof -
  have "gn_id (kg_nodes ?g ! Suc k) \<in> kg_neighbors (kg_edges ?g) (gn_id (kg_nodes ?g ! k))" if "Suc k < length (kg_nodes ?g)" for k
  proof (cases "Suc k < length (kg_nodes g)")
    case True
    with assms show ?thesis by (auto simp: chained_def append_interaction_def Let_def kg_neighbors_append nth_append)
  next
    case False
    with that have "length (kg_nodes g) = Suc k" by (simp add: append_interaction_def Let_def split: if_splits)
    then show ?thesis by (simp add: append_interaction_def Let_def kg_neighbors_append nth_append edge_neighbor_def interaction_node_def)
  qed
  then show ?thesis by (simp add: chained_def)
qed

lemma chain_walk:
  assumes "chained g" "i \<le> j" "j < length (kg_nodes g)"
  shows "\<exists>w. walk_to (kg_edges g) (gn_id (kg_nodes g ! i)) (gn_id (kg_nodes g ! j)) w"
  using assms(2,3)
proof (induction j rule: dec_induct)
  case base
  show ?case using walk_to_start by blast
next
  case (step k)
  then obtain w where "walk_to (kg_edges g) (gn_id (kg_nodes g ! i)) (gn_id (kg_nodes g ! k)) w" by auto
  from walk_to_snoc [OF this] step(4) assms(1) show ?case by (auto simp: chained_def)
qed

lemma record_interactions_chained:
  assumes "\<forall>g. hm_get m name = Some g \<longrightarrow> chained g"
  shows "\<forall>g. hm_get (record_interactions F now name rs m) name = Some g \<longrightarrow> chained g"
  using assms
proof (induction rs arbitrary: m)
  case (Cons r rs)
  obtain agent action summary where r: "r = (agent, action, summary)" by (cases r)
  have "chained ((graph_new now name [])\<lparr>kg_kind := Agent\<rparr>)" by (simp add: chained_def graph_new_def)
  with Cons.prems have "\<forall>g. hm_get (record_interaction F now name agent action summary m) name = Some g \<longrightarrow> chained g"
    by (auto simp: record_interaction_def Let_def split: option.split intro!: chained_append)
  from Cons.IH [OF this] show ?case by (simp add: r)
qed simp

lemma interactions_connected:
  assumes "hm_get (record_interactions F now name rs []) name = Some g" "i \<le> j" "j < length (kg_nodes g)"
  shows "\<exists>p. path_loop (kg_edges g) (gn_id (kg_nodes g ! j)) {gn_id (kg_nodes g ! i)} [(gn_id (kg_nodes g ! i), [gn_id (kg_nodes g ! i)])] = Some p"
proof -
  have "chained g" using record_interactions_chained [of "[]" name F now rs] assms(1) by simp
  from chain_walk [OF this assms(2,3)] path_loop_shortest [OF search_inv_init, of "kg_edges g" "gn_id (kg_nodes g ! i)" "gn_id (kg_nodes g ! j)"]
  show ?thesis by (auto split: option.splits)
qed

text \<open>The identifier of an interaction is not compared with those that are there: with a node of that name in the graph two nodes share
  it.\<close>

lemma interaction_id_taken:
  assumes "kg_nodes g = [interaction_node (interaction_id agent 2) agent action summary]"
  shows "map gn_id (kg_nodes (append_interaction F agent action summary g)) = [interaction_id agent 2, interaction_id agent 2]"
  using assms by (simp add: append_interaction_def interaction_node_def Let_def numeral_2_eq_2)

end
