(* ===== verification/Audit_Log.thy ===== *)
theory Audit_Log
  imports Std_Text "HOL-Library.Multiset"
begin

text \<open>
  The audit log and the sourcing of events (\<open>audit/src/log.rs\<close>, \<open>query.rs\<close>, \<open>event.rs\<close>). An event store is an interface of the
  crate, here a locale, with the store in memory as its interpretation. Identifiers, the clock and JSON values are arguments. Versions
  and counts are natural numbers, as they are below 2 to the 64.
\<close>

section \<open>Entries and queries\<close>

datatype audit_event_type = UserLogin | UserLogout | ApiCall | AgentExecution | AdminAction | ConfigChange | PermissionChange
  | SystemEvent | CustomEvent string

record log_entry =
  lg_id :: ls_id
  lg_timestamp :: int
  lg_event_type :: audit_event_type
  lg_event_name :: string
  lg_actor :: string
  lg_resource_type :: string
  lg_resource_id :: string
  lg_detail :: string
  lg_trace_id :: "string option"
  lg_source :: "string option"
  lg_result :: string

definition log_entry_new :: "ls_id \<Rightarrow> int \<Rightarrow> audit_event_type \<Rightarrow> string \<Rightarrow> string \<Rightarrow> string \<Rightarrow> string \<Rightarrow> string \<Rightarrow> log_entry" where
  "log_entry_new fresh now ty name actor rtype rid detail = \<lparr>lg_id = fresh, lg_timestamp = now, lg_event_type = ty, lg_event_name = name,
     lg_actor = actor, lg_resource_type = rtype, lg_resource_id = rid, lg_detail = detail, lg_trace_id = None, lg_source = None,
     lg_result = ''success''\<rparr>"

definition with_trace_id :: "string \<Rightarrow> log_entry \<Rightarrow> log_entry" where
  "with_trace_id t e = e\<lparr>lg_trace_id := Some t\<rparr>"

definition with_log_source :: "string \<Rightarrow> log_entry \<Rightarrow> log_entry" where
  "with_log_source t e = e\<lparr>lg_source := Some t\<rparr>"

definition with_failure :: "log_entry \<Rightarrow> log_entry" where
  "with_failure e = e\<lparr>lg_result := ''failure''\<rparr>"

record audit_query =
  aq_actor :: "string option"
  aq_event_type :: "audit_event_type option"
  aq_event_name :: "string option"
  aq_resource_type :: "string option"
  aq_resource_id :: "string option"
  aq_start_time :: "int option"
  aq_end_time :: "int option"
  aq_result :: "string option"
  aq_offset :: "nat option"
  aq_limit :: "nat option"

definition query_all :: audit_query where
  "query_all = \<lparr>aq_actor = None, aq_event_type = None, aq_event_name = None, aq_resource_type = None, aq_resource_id = None,
     aq_start_time = None, aq_end_time = None, aq_result = None, aq_offset = None, aq_limit = None\<rparr>"

definition with_time_range :: "int \<Rightarrow> int \<Rightarrow> audit_query \<Rightarrow> audit_query" where
  "with_time_range start end_time q = q\<lparr>aq_start_time := Some start, aq_end_time := Some end_time\<rparr>"

definition query_actor :: "string \<Rightarrow> audit_query \<Rightarrow> audit_query" where
  "query_actor x q = q\<lparr>aq_actor := Some x\<rparr>"

definition query_event_type :: "audit_event_type \<Rightarrow> audit_query \<Rightarrow> audit_query" where
  "query_event_type x q = q\<lparr>aq_event_type := Some x\<rparr>"

definition query_event_name :: "string \<Rightarrow> audit_query \<Rightarrow> audit_query" where
  "query_event_name x q = q\<lparr>aq_event_name := Some x\<rparr>"

definition query_resource_type :: "string \<Rightarrow> audit_query \<Rightarrow> audit_query" where
  "query_resource_type x q = q\<lparr>aq_resource_type := Some x\<rparr>"

definition query_resource_id :: "string \<Rightarrow> audit_query \<Rightarrow> audit_query" where
  "query_resource_id x q = q\<lparr>aq_resource_id := Some x\<rparr>"

definition query_result :: "string \<Rightarrow> audit_query \<Rightarrow> audit_query" where
  "query_result x q = q\<lparr>aq_result := Some x\<rparr>"

definition query_offset :: "nat \<Rightarrow> audit_query \<Rightarrow> audit_query" where
  "query_offset x q = q\<lparr>aq_offset := Some x\<rparr>"

definition query_limit :: "nat \<Rightarrow> audit_query \<Rightarrow> audit_query" where
  "query_limit x q = q\<lparr>aq_limit := Some x\<rparr>"

definition agrees :: "'a option \<Rightarrow> 'a \<Rightarrow> bool" where
  "agrees x a = (case x of Some b \<Rightarrow> a = b | None \<Rightarrow> True)"

definition query_matches :: "audit_query \<Rightarrow> log_entry \<Rightarrow> bool" where
  "query_matches q e \<longleftrightarrow> agrees (aq_actor q) (lg_actor e) \<and> agrees (aq_event_type q) (lg_event_type e)
     \<and> agrees (aq_event_name q) (lg_event_name e) \<and> agrees (aq_resource_type q) (lg_resource_type e)
     \<and> agrees (aq_resource_id q) (lg_resource_id e)
     \<and> (case aq_start_time q of Some t \<Rightarrow> \<not> lg_timestamp e < t | None \<Rightarrow> True)
     \<and> (case aq_end_time q of Some t \<Rightarrow> \<not> lg_timestamp e > t | None \<Rightarrow> True)
     \<and> agrees (aq_result q) (lg_result e)"

definition newest_first :: "log_entry list \<Rightarrow> log_entry list" where
  "newest_first es = sort_key (\<lambda>e. - lg_timestamp e) es"

definition apply_query :: "log_entry list \<Rightarrow> audit_query \<Rightarrow> log_entry list" where
  "apply_query es q = take (case aq_limit q of Some n \<Rightarrow> n | None \<Rightarrow> 100)
     (drop (case aq_offset q of Some n \<Rightarrow> n | None \<Rightarrow> 0) (newest_first (filter (query_matches q) es)))"

section \<open>The log in memory\<close>

type_synonym audit_log = "log_entry list"

definition log_append :: "log_entry \<Rightarrow> audit_log \<Rightarrow> audit_log" where
  "log_append e l = l @ [e]"

definition log_get_by_id :: "ls_id \<Rightarrow> audit_log \<Rightarrow> log_entry ls_result" where
  "log_get_by_id i l = ok_or (NotFound (''audit entry '' @ show_id i)) (find (\<lambda>e. lg_id e = i) l)"

definition log_query :: "audit_query \<Rightarrow> audit_log \<Rightarrow> log_entry list" where
  "log_query q l = apply_query l q"

definition log_count :: "audit_query \<Rightarrow> audit_log \<Rightarrow> nat" where
  "log_count q l = length (apply_query l q)"

text \<open>The pages of a query are the matching entries, newest first and in the order of their arrival where the times are equal, each on one
  page.\<close>

lemma take_pages: "concat (map (\<lambda>i. take k (drop (i * k) xs)) [0..<n]) = take (n * k) xs"
  by (induction n) (simp_all add: add.commute [of k] take_add)

theorem pages_partition:
  assumes "length (filter (query_matches q) l) \<le> n * k"
  shows "concat (map (\<lambda>i. log_query (q\<lparr>aq_offset := Some (i * k), aq_limit := Some k\<rparr>) l) [0..<n]) = newest_first (filter (query_matches q) l)"
proof -
  have same: "query_matches (q\<lparr>aq_offset := x, aq_limit := y\<rparr>) = query_matches q" for x y
    by (rule ext) (simp add: query_matches_def)
  show ?thesis using take_pages [of k "newest_first (filter (query_matches q) l)" n] assms
    by (simp add: log_query_def apply_query_def same newest_first_def)
qed

definition sample_log :: audit_log where
  "sample_log = map (\<lambda>(i, t). log_entry_new i t UserLogin ''l'' ''u'' ''r'' ''x'' []) [(1, 10), (2, 30), (3, 20)]"

theorem pages_partition_witness:
  "map (map lg_id) (map (\<lambda>i. log_query (query_all\<lparr>aq_offset := Some (i * 2), aq_limit := Some 2\<rparr>) sample_log) [0..<2]) = [[2, 3], [1]]
    \<and> concat (map (\<lambda>i. log_query (query_all\<lparr>aq_offset := Some (i * 2), aq_limit := Some 2\<rparr>) sample_log) [0..<2]) = newest_first sample_log"
proof -
  have all: "filter (query_matches query_all) sample_log = sample_log" by (simp add: query_matches_def query_all_def agrees_def)
  have "map (map lg_id) (map (\<lambda>i. log_query (query_all\<lparr>aq_offset := Some (i * 2), aq_limit := Some 2\<rparr>) sample_log) [0..<2]) = [[2, 3], [1]]"
    by (simp add: upt_rec log_query_def apply_query_def newest_first_def sample_log_def log_entry_new_def query_matches_def query_all_def agrees_def)
  moreover have "length (filter (query_matches query_all) sample_log) \<le> 2 * 2" unfolding all by (simp add: sample_log_def)
  from pages_partition [OF this] have "concat (map (\<lambda>i. log_query (query_all\<lparr>aq_offset := Some (i * 2), aq_limit := Some 2\<rparr>) sample_log) [0..<2])
      = newest_first sample_log" unfolding all .
  ultimately show ?thesis by blast
qed

text \<open>The number of entries a query reports is that of its first page: never more than a hundred where no limit is given.\<close>

lemma count_capped: "aq_limit q = None \<Longrightarrow> log_count q l \<le> 100"
  by (simp add: log_count_def apply_query_def)

lemma count_of_log: "log_count query_all l = min 100 (length l)"
proof -
  have "filter (query_matches query_all) l = l" by (simp add: query_matches_def query_all_def agrees_def)
  then show ?thesis by (simp add: log_count_def apply_query_def newest_first_def query_all_def)
qed

text \<open>An entry is found by its identifier from the moment it is written, whatever is written afterwards.\<close>

lemma entry_kept: "find P l = Some e \<Longrightarrow> find P (l @ l') = Some e"
  by (induction l) auto

lemma log_reads_back:
  assumes "lg_id e \<notin> lg_id ` set l"
  shows "log_get_by_id (lg_id e) (fold log_append es (log_append e l)) = Inr e"
proof -
  have "fold log_append es l' = l' @ es" for l' by (induction es arbitrary: l') (simp_all add: log_append_def)
  moreover have "find (\<lambda>x. lg_id x = lg_id e) (l @ [e]) = Some e" using assms by (induction l) auto
  ultimately show ?thesis using entry_kept [of "\<lambda>x. lg_id x = lg_id e" "l @ [e]" e es] by (simp add: log_get_by_id_def log_append_def)
qed

section \<open>Event sourcing\<close>

record 'j stored_event =
  se_id :: ls_id
  se_aggregate_type :: string
  se_aggregate_id :: string
  se_event_type :: string
  se_version :: nat
  se_data :: 'j
  se_metadata :: 'j
  se_timestamp :: int

type_synonym 'j event_log = "'j stored_event list"

definition of_aggregate :: "string \<Rightarrow> string \<Rightarrow> 'j stored_event \<Rightarrow> bool" where
  "of_aggregate ty i e \<longleftrightarrow> se_aggregate_type e = ty \<and> se_aggregate_id e = i"

definition mem_save_event :: "'j stored_event \<Rightarrow> 'j event_log \<Rightarrow> unit ls_result \<times> 'j event_log" where
  "mem_save_event e s = (Inr (), s @ [e])"

definition mem_get_events :: "string \<Rightarrow> string \<Rightarrow> 'j event_log \<Rightarrow> 'j stored_event list ls_result" where
  "mem_get_events ty i s = Inr (sort_key se_version (filter (of_aggregate ty i) s))"

definition mem_current_version :: "string \<Rightarrow> string \<Rightarrow> 'j event_log \<Rightarrow> nat ls_result" where
  "mem_current_version ty i s = ok_bind (mem_get_events ty i s) (\<lambda>es. Inr (if es = [] then 0 else se_version (last es)))"

definition event_after :: "ls_id \<Rightarrow> int \<Rightarrow> 'j \<Rightarrow> string \<Rightarrow> string \<Rightarrow> string \<Rightarrow> 'j \<Rightarrow> nat \<Rightarrow> 'j stored_event" where
  "event_after fresh now meta ty i event_type data v = \<lparr>se_id = fresh, se_aggregate_type = ty, se_aggregate_id = i, se_event_type = event_type,
     se_version = v + 1, se_data = data, se_metadata = meta, se_timestamp = now\<rparr>"

text \<open>The recorder over any store: the version is read in one call of the store and the event saved in another.\<close>

definition record_event ::
  "('j stored_event \<Rightarrow> 's \<Rightarrow> unit ls_result \<times> 's) \<Rightarrow> (string \<Rightarrow> string \<Rightarrow> 's \<Rightarrow> nat ls_result) \<Rightarrow> ls_id \<Rightarrow> int \<Rightarrow> 'j \<Rightarrow> string \<Rightarrow> string
     \<Rightarrow> string \<Rightarrow> 'j \<Rightarrow> 's \<Rightarrow> 'j stored_event ls_result \<times> 's" where
  "record_event save current fresh now meta ty i event_type data s = (case current ty i s of
       Inl e \<Rightarrow> (Inl e, s)
     | Inr v \<Rightarrow> (let e = event_after fresh now meta ty i event_type data v
         in case save e s of (Inl err, s') \<Rightarrow> (Inl err, s') | (Inr _, s') \<Rightarrow> (Inr e, s')))"

definition replay_events :: "(string \<Rightarrow> string \<Rightarrow> 's \<Rightarrow> 'j stored_event list ls_result) \<Rightarrow> string \<Rightarrow> string \<Rightarrow> 's \<Rightarrow> 'j stored_event list ls_result" where
  "replay_events get ty i s = get ty i s"

record 'j event_request =
  er_fresh :: ls_id
  er_now :: int
  er_meta :: 'j
  er_type :: string
  er_aggregate :: string
  er_event_type :: string
  er_data :: 'j

fun record_events ::
  "('j stored_event \<Rightarrow> 's \<Rightarrow> unit ls_result \<times> 's) \<Rightarrow> (string \<Rightarrow> string \<Rightarrow> 's \<Rightarrow> nat ls_result) \<Rightarrow> 'j event_request list \<Rightarrow> 's \<Rightarrow> 's" where
  "record_events save current [] s = s"
| "record_events save current (r # rs) s = record_events save current rs
     (snd (record_event save current (er_fresh r) (er_now r) (er_meta r) (er_type r) (er_aggregate r) (er_event_type r) (er_data r) s))"

text \<open>Events whose versions are 1, 2 and so on.\<close>

definition numbered :: "'j stored_event list \<Rightarrow> bool" where
  "numbered es \<longleftrightarrow> map se_version es = [1..<length es + 1]"

lemma numbered_Nil [simp]: "numbered []"
  by (simp add: numbered_def)

lemma numbered_snoc: "numbered es \<Longrightarrow> se_version e = length es + 1 \<Longrightarrow> numbered (es @ [e])"
  by (simp add: numbered_def)

lemma numbered_last: "numbered es \<Longrightarrow> (if es = [] then 0 else se_version (last es)) = length es"
  by (cases es rule: rev_cases) (simp_all add: numbered_def split: if_splits)

lemma numbered_le: "numbered es \<Longrightarrow> x \<in> set es \<Longrightarrow> se_version x \<le> length es"
  using imageI [of x "set es" se_version] unfolding numbered_def set_map [symmetric] by (auto simp del: set_map)

text \<open>What the recorder relies on: a new event with the greatest version of its aggregate is read behind the ones before, and changes no
  other aggregate.\<close>

locale event_store =
  fixes save :: "'j stored_event \<Rightarrow> 's \<Rightarrow> unit ls_result \<times> 's"
    and get :: "string \<Rightarrow> string \<Rightarrow> 's \<Rightarrow> 'j stored_event list ls_result"
    and current :: "string \<Rightarrow> string \<Rightarrow> 's \<Rightarrow> nat ls_result"
  assumes save_get: "get ty i s = Inr es \<Longrightarrow> of_aggregate ty i e \<Longrightarrow> \<forall>x \<in> set es. se_version x \<le> se_version e
      \<Longrightarrow> \<exists>s'. save e s = (Inr (), s') \<and> get ty i s' = Inr (es @ [e])"
    and save_other: "\<not> of_aggregate ty i e \<Longrightarrow> save e s = (Inr (), s') \<Longrightarrow> get ty i s' = get ty i s"
    and current_last: "get ty i s = Inr es \<Longrightarrow> current ty i s = Inr (if es = [] then 0 else se_version (last es))"
begin

text \<open>Recorded one after the other, the events of an aggregate are numbered without gaps and replayed as they were recorded.\<close>

lemma record_numbered:
  assumes "get ty i s = Inr es" "numbered es"
  shows "\<exists>s'. record_event save current fresh now meta ty i et data s = (Inr (event_after fresh now meta ty i et data (length es)), s')
    \<and> get ty i s' = Inr (es @ [event_after fresh now meta ty i et data (length es)])
    \<and> (\<forall>ty' i'. (ty', i') \<noteq> (ty, i) \<longrightarrow> get ty' i' s' = get ty' i' s)"
proof -
  let ?e = "event_after fresh now meta ty i et data (length es)"
  have v: "(if es = [] then 0 else se_version (last es)) = length es"
    by (rule numbered_last [OF assms(2)])
  have "\<forall>x \<in> set es. se_version x \<le> se_version ?e"
  proof
    fix x assume "x \<in> set es"
    then show "se_version x \<le> se_version ?e" using numbered_le [OF assms(2)] by (force simp: event_after_def)
  qed
  moreover have "of_aggregate ty i ?e" by (simp add: of_aggregate_def event_after_def)
  ultimately obtain s' where s': "save ?e s = (Inr (), s')" "get ty i s' = Inr (es @ [?e])" using save_get [OF assms(1)] by blast
  moreover have "get ty' i' s' = get ty' i' s" if "(ty', i') \<noteq> (ty, i)" for ty' i'
    using that by (intro save_other [OF _ s'(1)]) (auto simp: of_aggregate_def event_after_def)
  ultimately show ?thesis using current_last [OF assms(1)] v by (simp add: record_event_def)
qed

lemma records_replayed:
  assumes "\<forall>ty i. \<exists>es. get ty i s = Inr es \<and> numbered es" "get ty i s = Inr es"
  shows "\<exists>new. replay_events get ty i (record_events save current rs s) = Inr (es @ new)
    \<and> numbered (es @ new)
    \<and> map (\<lambda>e. (se_event_type e, se_data e)) new = map (\<lambda>r. (er_event_type r, er_data r)) (filter (\<lambda>r. er_type r = ty \<and> er_aggregate r = i) rs)"
  using assms
proof (induction rs arbitrary: s es)
  case Nil
  from Nil(1) have "\<exists>es'. get ty i s = Inr es' \<and> numbered es'" by blast
  with Nil(2) have "numbered es" by auto
  with Nil(2) show ?case by (simp add: replay_events_def)
next
  case (Cons r rs)
  obtain old where old: "get (er_type r) (er_aggregate r) s = Inr old" "numbered old" using Cons.prems(1) by blast
  let ?e = "event_after (er_fresh r) (er_now r) (er_meta r) (er_type r) (er_aggregate r) (er_event_type r) (er_data r) (length old)"
  obtain s' where s': "record_event save current (er_fresh r) (er_now r) (er_meta r) (er_type r) (er_aggregate r) (er_event_type r) (er_data r) s = (Inr ?e, s')"
    "get (er_type r) (er_aggregate r) s' = Inr (old @ [?e])"
    "\<And>ty' i'. (ty', i') \<noteq> (er_type r, er_aggregate r) \<Longrightarrow> get ty' i' s' = get ty' i' s"
    using record_numbered [OF old] by blast
  have e: "se_version ?e = length old + 1" "se_event_type ?e = er_event_type r" "se_data ?e = er_data r" by (simp_all add: event_after_def)
  have "\<exists>es. get ty i s' = Inr es \<and> numbered es" for ty i
  proof (cases "(ty, i) = (er_type r, er_aggregate r)")
    case True
    with s'(2) numbered_snoc [OF old(2) e(1)] show ?thesis by simp
  next
    case False
    with s'(3) Cons.prems(1) show ?thesis by simp
  qed
  then have all: "\<forall>ty i. \<exists>es. get ty i s' = Inr es \<and> numbered es" by blast
  show ?case
  proof (cases "(ty, i) = (er_type r, er_aggregate r)")
    case True
    with s'(2) old(1) Cons.prems(2) have "get ty i s' = Inr (es @ [?e])" by simp
    from Cons.IH [OF all this] obtain new where new: "replay_events get ty i (record_events save current rs s') = Inr ((es @ [?e]) @ new)"
      "numbered ((es @ [?e]) @ new)"
      "map (\<lambda>e. (se_event_type e, se_data e)) new = map (\<lambda>r. (er_event_type r, er_data r)) (filter (\<lambda>r. er_type r = ty \<and> er_aggregate r = i) rs)"
      by blast
    show ?thesis by (rule exI [of _ "?e # new"]) (use new True s'(1) e in simp)
  next
    case False
    with s'(3) Cons.prems(2) have "get ty i s' = Inr es" by simp
    from Cons.IH [OF all this] False s'(1) show ?thesis by auto
  qed
qed

end

lemma sort_key_snoc: "\<forall>x \<in> set xs. f x \<le> f y \<Longrightarrow> sort_key f (xs @ [y]) = sort_key f xs @ [y]"
proof (induction xs)
  case (Cons x xs)
  have "insort_key f x (zs @ [y]) = insort_key f x zs @ [y]" if "f x \<le> f y" for zs using that by (induction zs) auto
  with Cons show ?case by simp
qed simp

interpretation ms: event_store mem_save_event mem_get_events mem_current_version
proof (unfold_locales, goal_cases)
  case (1 ty i s es e)
  then have es: "es = sort_key se_version (filter (of_aggregate ty i) s)" by (simp add: mem_get_events_def)
  with 1(3) have "sort_key se_version (filter (of_aggregate ty i) s @ [e]) = es @ [e]" by (simp add: sort_key_snoc)
  then show ?case using 1(2) by (simp add: mem_save_event_def mem_get_events_def)
next
  case (2 ty i e s s')
  then show ?case by (auto simp: mem_save_event_def mem_get_events_def)
next
  case (3 ty i s es)
  then show ?case by (simp add: mem_current_version_def)
qed


text \<open>Reading the version and saving are two calls: of two tasks that both read before either saves, both events get the same version.\<close>

lemma concurrent_versions:
  assumes "mem_current_version ty i s = Inr v" "e1 = event_after a t m ty i et1 d1 v" "e2 = event_after b t m ty i et2 d2 v"
  shows "\<exists>es. mem_get_events ty i (snd (mem_save_event e2 (snd (mem_save_event e1 s)))) = Inr es \<and> \<not> distinct (map se_version es)"
proof -
  let ?s = "s @ [e1, e2]"
  have "mset (map se_version (sort_key se_version (filter (of_aggregate ty i) ?s))) = mset (map se_version (filter (of_aggregate ty i) ?s))"
    by simp
  then have "distinct (map se_version (sort_key se_version (filter (of_aggregate ty i) ?s))) = distinct (map se_version (filter (of_aggregate ty i) ?s))"
    by (rule mset_eq_imp_distinct_iff)
  moreover have "\<not> distinct (map se_version (filter (of_aggregate ty i) ?s))"
    using assms(2,3) by (simp add: of_aggregate_def event_after_def)
  ultimately show ?thesis by (simp add: mem_get_events_def mem_save_event_def)
qed

end
