(* ===== verification/Llm_Router.thy ===== *)
theory Llm_Router
  imports Floats Std_Text "HOL-Library.Word" "HOL-Library.Multiset"
begin

text \<open>
  The router over several language models (\<open>llm-router/src/lib.rs\<close>, \<open>metrics.rs\<close>, \<open>strategies.rs\<close>). What a model answers is an
  argument, as are the clock, the time a call takes (in nanoseconds) and the order in which the map of entries is
  iterated. A call is modelled in the steps its locks make: the choice, the call of models without the lock of the metrics, and the
  records. The counter of the rotation is a word of 64 bits, which wraps as the atomic counter does.
\<close>

section \<open>Metrics\<close>

record 'f backend_metrics =
  bm_name :: string
  bm_total_calls :: nat
  bm_success_calls :: nat
  bm_error_calls :: nat
  bm_avg_latency_ms :: 'f
  bm_p50_latency_ms :: 'f
  bm_p95_latency_ms :: 'f
  bm_p99_latency_ms :: 'f
  bm_total_cost :: 'f
  bm_last_error :: "string option"
  bm_last_call_at :: "int option"

definition bm_error_rate :: "'f float_ops \<Rightarrow> 'f backend_metrics \<Rightarrow> 'f" where
  "bm_error_rate F b = (if bm_total_calls b = 0 then fl_int F 0 else fl_div F (fl_int F (int (bm_error_calls b))) (fl_int F (int (bm_total_calls b))))"

definition bm_success_rate :: "'f float_ops \<Rightarrow> 'f backend_metrics \<Rightarrow> 'f" where
  "bm_success_rate F b = (if bm_total_calls b = 0 then fl_int F 1 else fl_div F (fl_int F (int (bm_success_calls b))) (fl_int F (int (bm_total_calls b))))"

record 'f router_metrics =
  mc_latencies :: "(string, nat list) hmap"
  mc_errors :: "(string, nat) hmap"
  mc_successes :: "(string, nat) hmap"
  mc_costs :: "(string, 'f) hmap"
  mc_last_errors :: "(string, string option) hmap"
  mc_last_calls :: "(string, int option) hmap"

definition collector_new :: "'f router_metrics" where
  "collector_new = \<lparr>mc_latencies = [], mc_errors = [], mc_successes = [], mc_costs = [], mc_last_errors = [], mc_last_calls = []\<rparr>"

definition value_or :: "'v \<Rightarrow> string \<Rightarrow> (string, 'v) hmap \<Rightarrow> 'v" where
  "value_or d k m = (case hm_get m k of Some v \<Rightarrow> v | None \<Rightarrow> d)"

definition mc_record :: "'f float_ops \<Rightarrow> int \<Rightarrow> string \<Rightarrow> nat \<Rightarrow> 'f \<Rightarrow> bool \<Rightarrow> 'f router_metrics \<Rightarrow> 'f router_metrics" where
  "mc_record F now backend latency cost success m = m\<lparr>
     mc_latencies := hm_insert backend (value_or [] backend (mc_latencies m) @ [latency]) (mc_latencies m),
     mc_successes := (if success then hm_insert backend (value_or 0 backend (mc_successes m) + 1) (mc_successes m) else mc_successes m),
     mc_errors := (if success then mc_errors m else hm_insert backend (value_or 0 backend (mc_errors m) + 1) (mc_errors m)),
     mc_costs := hm_insert backend (fl_add F (value_or (fl_int F 0) backend (mc_costs m)) cost) (mc_costs m),
     mc_last_calls := hm_insert backend (Some now) (mc_last_calls m)\<rparr>"

definition mc_record_error :: "string \<Rightarrow> string \<Rightarrow> 'f router_metrics \<Rightarrow> 'f router_metrics" where
  "mc_record_error backend err m = m\<lparr>
     mc_errors := hm_insert backend (value_or 0 backend (mc_errors m) + 1) (mc_errors m),
     mc_last_errors := hm_insert backend (Some err) (mc_last_errors m)\<rparr>"

text \<open>\<open>as_secs_f64\<close> of a time in nanoseconds, and the percentile of a sorted list.\<close>

definition as_secs :: "'f float_ops \<Rightarrow> nat \<Rightarrow> 'f" where
  "as_secs F n = fl_add F (fl_int F (int (n div 1000000000))) (fl_div F (fl_int F (int (n mod 1000000000))) (fl_int F 1000000000))"

definition latency_percentile :: "'f float_ops \<Rightarrow> nat list \<Rightarrow> 'f \<Rightarrow> 'f" where
  "latency_percentile F ns p = (if ns = [] then fl_int F 0
     else let i = fl_to_uint F 64 (fl_ceil F (fl_mul F (fl_int F (int (length ns))) p))
          in as_secs F (ns ! (min (max i 1) (length ns) - 1)))"

definition mc_get :: "'f float_ops \<Rightarrow> string \<Rightarrow> 'f router_metrics \<Rightarrow> 'f backend_metrics option" where
  "mc_get F backend m = map_option (\<lambda>latencies.
     let sorted_ns = sort latencies; n = length latencies; ms = (\<lambda>x. fl_mul F x (fl_int F 1000));
         avg = (if n > 0 then fl_div F (fl_sum F (map (as_secs F) sorted_ns)) (fl_int F (int n)) else fl_int F 0)
     in \<lparr>bm_name = backend, bm_total_calls = n, bm_success_calls = value_or 0 backend (mc_successes m),
         bm_error_calls = value_or 0 backend (mc_errors m), bm_avg_latency_ms = ms avg,
         bm_p50_latency_ms = ms (latency_percentile F sorted_ns (fl_dec F 50 2)),
         bm_p95_latency_ms = ms (latency_percentile F sorted_ns (fl_dec F 95 2)),
         bm_p99_latency_ms = ms (latency_percentile F sorted_ns (fl_dec F 99 2)),
         bm_total_cost = value_or (fl_int F 0) backend (mc_costs m),
         bm_last_error = value_or None backend (mc_last_errors m),
         bm_last_call_at = value_or None backend (mc_last_calls m)\<rparr>) (hm_get (mc_latencies m) backend)"

definition mc_all :: "'f float_ops \<Rightarrow> 'f router_metrics \<Rightarrow> (string, 'f backend_metrics) hmap" where
  "mc_all F m = List.map_filter (\<lambda>k. map_option (Pair k) (mc_get F k m)) (hm_keys (mc_latencies m))"

definition mc_clear :: "'f router_metrics \<Rightarrow> 'f router_metrics" where
  "mc_clear m = collector_new"

section \<open>Strategies\<close>

datatype router_policy = Priority | Fallback | Latency | Cost | RoundRobin

datatype router_strategy = PriorityStrategy | FallbackStrategy | LatencyStrategy | CostStrategy | RoundRobinStrategy "64 word"

fun strategy_of :: "router_policy \<Rightarrow> router_strategy" where
  "strategy_of Priority = PriorityStrategy"
| "strategy_of Fallback = FallbackStrategy"
| "strategy_of Latency = LatencyStrategy"
| "strategy_of Cost = CostStrategy"
| "strategy_of RoundRobin = RoundRobinStrategy 0"

definition first_by :: "('f \<Rightarrow> 'f \<Rightarrow> bool) \<Rightarrow> (string \<Rightarrow> 'f) \<Rightarrow> string list \<Rightarrow> string option" where
  "first_by before key names = (case fl_sort (\<lambda>a b. before (snd a) (snd b)) (map (\<lambda>n. (n, key n)) names) of [] \<Rightarrow> None | c # _ \<Rightarrow> Some (fst c))"

definition success_of :: "'f float_ops \<Rightarrow> 'f router_metrics \<Rightarrow> string \<Rightarrow> 'f" where
  "success_of F m n = (case mc_get F n m of Some b \<Rightarrow> bm_success_rate F b | None \<Rightarrow> fl_int F 1)"

text \<open>The greatest finite value of \<open>f64\<close>, for a backend that was never called.\<close>

definition f64_max :: "'f float_ops \<Rightarrow> 'f" where
  "f64_max F = fl_int F ((2 ^ 53 - 1) * 2 ^ 971)"

definition latency_of :: "'f float_ops \<Rightarrow> 'f router_metrics \<Rightarrow> string \<Rightarrow> 'f" where
  "latency_of F m n = (case mc_get F n m of Some b \<Rightarrow> bm_avg_latency_ms b | None \<Rightarrow> f64_max F)"

definition cost_of :: "'f float_ops \<Rightarrow> 'f router_metrics \<Rightarrow> string \<Rightarrow> 'f" where
  "cost_of F m n = (case mc_get F n m of Some b \<Rightarrow> bm_total_cost b | None \<Rightarrow> fl_int F 0)"

fun router_choose :: "'f float_ops \<Rightarrow> router_strategy \<Rightarrow> string list \<Rightarrow> 'f router_metrics \<Rightarrow> string option \<times> router_strategy" where
  "router_choose F PriorityStrategy names m = ((case names of [] \<Rightarrow> None | n # _ \<Rightarrow> Some n), PriorityStrategy)"
| "router_choose F FallbackStrategy names m = (first_by (\<lambda>a b. fl_lt F b a) (success_of F m) names, FallbackStrategy)"
| "router_choose F LatencyStrategy names m = (first_by (fl_lt F) (latency_of F m) names, LatencyStrategy)"
| "router_choose F CostStrategy names m = (first_by (fl_lt F) (cost_of F m) names, CostStrategy)"
| "router_choose F (RoundRobinStrategy c) names m =
     (if names = [] then (None, RoundRobinStrategy c) else (Some (names ! (unat c mod length names)), RoundRobinStrategy (c + 1)))"

section \<open>The router\<close>

record 'f backend_entry =
  be_name :: string
  be_label :: string
  be_priority :: nat
  be_cost_per_request :: 'f
  be_enabled :: bool
  be_models :: "string list"
  be_metadata :: "(string, string) hmap"

definition backend_entry_new :: "'f float_ops \<Rightarrow> string \<Rightarrow> 'f backend_entry" where
  "backend_entry_new F name = \<lparr>be_name = name, be_label = [], be_priority = 100, be_cost_per_request = fl_int F 0, be_enabled = True,
     be_models = [], be_metadata = []\<rparr>"

definition entry_with_priority :: "nat \<Rightarrow> 'f backend_entry \<Rightarrow> 'f backend_entry" where
  "entry_with_priority p e = e\<lparr>be_priority := p\<rparr>"

definition with_cost :: "'f \<Rightarrow> 'f backend_entry \<Rightarrow> 'f backend_entry" where
  "with_cost c e = e\<lparr>be_cost_per_request := c\<rparr>"

definition with_models :: "string list \<Rightarrow> 'f backend_entry \<Rightarrow> 'f backend_entry" where
  "with_models ms e = e\<lparr>be_models := ms\<rparr>"

record ('f, 'l) llm_router =
  lr_backends :: "(string, 'l) hmap"
  lr_entries :: "(string, 'f backend_entry) hmap"
  lr_strategy :: router_strategy
  lr_metrics :: "'f router_metrics"
  lr_policy :: router_policy

definition router_new :: "router_policy \<Rightarrow> ('f, 'l) llm_router" where
  "router_new p = \<lparr>lr_backends = [], lr_entries = [], lr_strategy = strategy_of p, lr_metrics = collector_new, lr_policy = p\<rparr>"

definition router_register :: "'f backend_entry \<Rightarrow> 'l \<Rightarrow> ('f, 'l) llm_router \<Rightarrow> ('f, 'l) llm_router" where
  "router_register e l r = r\<lparr>lr_backends := hm_insert (be_name e) l (lr_backends r), lr_entries := hm_insert (be_name e) e (lr_entries r)\<rparr>"

text \<open>The names of the enabled entries, as the map is iterated.\<close>

definition backend_names :: "(string list \<Rightarrow> string list) \<Rightarrow> ('f, 'l) llm_router \<Rightarrow> string list" where
  "backend_names order r = order (map fst (filter (\<lambda>(n, e). be_enabled e) (lr_entries r)))"

definition router_get_metrics :: "'f float_ops \<Rightarrow> string \<Rightarrow> ('f, 'l) llm_router \<Rightarrow> 'f backend_metrics option" where
  "router_get_metrics F backend r = mc_get F backend (lr_metrics r)"

definition set_policy :: "router_policy \<Rightarrow> ('f, 'l) llm_router \<Rightarrow> ('f, 'l) llm_router" where
  "set_policy p r = r\<lparr>lr_strategy := strategy_of p\<rparr>"

definition set_backend_enabled :: "string \<Rightarrow> bool \<Rightarrow> unit ls_result" where
  "set_backend_enabled name enabled = Inl (NotImplemented ''use register() to reconfigure'')"

text \<open>The choice of a backend and the update of the counter.\<close>

definition route_select :: "'f float_ops \<Rightarrow> string list \<Rightarrow> ('f, 'l) llm_router \<Rightarrow> string \<times> ('f, 'l) llm_router" where
  "route_select F enabled r = (let (choice, st) = router_choose F (lr_strategy r) enabled (lr_metrics r)
     in ((case choice of Some n \<Rightarrow> n | None \<Rightarrow> hd enabled), r\<lparr>lr_strategy := st\<rparr>))"

text \<open>The other backends in turn until one answers; the result comes with the names that were called.\<close>

fun try_fallback :: "('l \<Rightarrow> 'r ls_result) \<Rightarrow> (string, 'l) hmap \<Rightarrow> string \<Rightarrow> string list \<Rightarrow> 'r ls_result \<times> string list" where
  "try_fallback answer backends failed [] = (Inl (Internal ''all backends exhausted in fallback''), [])"
| "try_fallback answer backends failed (n # ns) =
     (if n = failed then try_fallback answer backends failed ns
      else case hm_get backends n of
        None \<Rightarrow> try_fallback answer backends failed ns
      | Some l \<Rightarrow> (case answer l of
            Inr resp \<Rightarrow> (Inr resp, [n])
          | Inl _ \<Rightarrow> (let (res, called) = try_fallback answer backends failed ns in (res, n # called))))"

text \<open>A request: the choice, the call, its record, and the other backends when it failed. \<open>t\<close> and \<open>t'\<close> are the times
  measured from the beginning.\<close>

definition route_and_invoke ::
  "'f float_ops \<Rightarrow> ('l \<Rightarrow> 'r ls_result) \<Rightarrow> (string list \<Rightarrow> string list) \<Rightarrow> int \<Rightarrow> nat \<Rightarrow> nat \<Rightarrow> ('f, 'l) llm_router
     \<Rightarrow> ('r ls_result \<times> string list) \<times> ('f, 'l) llm_router" where
  "route_and_invoke F answer order now t t' r =
     (let enabled = backend_names order r
      in if enabled = [] then ((Inl (NotImplemented ''no LLM backends registered in router''), []), r)
         else let (n, r1) = route_select F enabled r
           in case hm_get (lr_backends r1) n of
                None \<Rightarrow> ((Inl (Internal (''backend '' @ quoted n @ '' not found in router'')), []), r1)
              | Some l \<Rightarrow>
                  (let result = answer l;
                       r2 = r1\<lparr>lr_metrics := mc_record F now n t (fl_int F 0) (\<not> isl result) (lr_metrics r1)\<rparr>
                   in if isl result \<and> length enabled > 1
                      then case try_fallback answer (lr_backends r1) n enabled of
                          (Inr resp, called) \<Rightarrow> ((Inr resp, n # called),
                             r2\<lparr>lr_metrics := mc_record F now ''fallback'' t' (fl_int F 0) True (lr_metrics r2)\<rparr>)
                        | (Inl _, called) \<Rightarrow> ((result, n # called), r2)
                      else ((result, [n]), r2)))"

definition route_stream :: "('l \<Rightarrow> 's ls_result) \<Rightarrow> (string list \<Rightarrow> string list) \<Rightarrow> ('f, 'l) llm_router \<Rightarrow> 's ls_result" where
  "route_stream stream order r = (case backend_names order r of
       [] \<Rightarrow> Inl (NotImplemented ''no LLM backends registered'')
     | n # _ \<Rightarrow> (case hm_get (lr_backends r) n of
           None \<Rightarrow> Inl (Internal (''backend '' @ quoted n @ '' not found''))
         | Some l \<Rightarrow> stream l))"

definition router_build :: "router_policy \<Rightarrow> ('f backend_entry \<times> 'l) list \<Rightarrow> ('f, 'l) llm_router" where
  "router_build p bs = fold (\<lambda>(e, l). router_register e l) bs (router_new p)"

definition add_stat :: "string \<Rightarrow> string \<times> 64 word \<Rightarrow> (string, 64 word) hmap \<Rightarrow> (string, 64 word) hmap" where
  "add_stat name = (\<lambda>(k, v) acc. hm_insert (name @ ''_'' @ k) (value_or 0 (name @ ''_'' @ k) acc + v) acc)"

definition usage_stats :: "('l \<Rightarrow> (string, 64 word) hmap ls_result) \<Rightarrow> ('f, 'l) llm_router \<Rightarrow> (string, 64 word) hmap" where
  "usage_stats stats r = fold (\<lambda>(name, l) acc. case stats l of Inl _ \<Rightarrow> acc | Inr s \<Rightarrow> fold (add_stat name) s acc) (lr_backends r) []"

section \<open>A request is answered if any enabled backend answers\<close>

text \<open>Every entry has its backend, under its own name.\<close>

definition router_inv :: "('f, 'l) llm_router \<Rightarrow> bool" where
  "router_inv r \<longleftrightarrow> hm_ok (lr_entries r) \<and> hm_dom (lr_entries r) = hm_dom (lr_backends r)
     \<and> (\<forall>n e. hm_get (lr_entries r) n = Some e \<longrightarrow> be_name e = n)"

lemma router_inv_new: "router_inv (router_new p)"
  by (simp add: router_inv_def router_new_def)

lemma router_inv_register: "router_inv r \<Longrightarrow> router_inv (router_register e l r)"
  by (auto simp: router_inv_def router_register_def)

lemma router_inv_policy: "router_inv r \<Longrightarrow> router_inv (set_policy p r)"
  by (simp add: router_inv_def set_policy_def)

lemma route_keeps: "lr_backends (snd (route_and_invoke F answer order now t t' r)) = lr_backends r
    \<and> lr_entries (snd (route_and_invoke F answer order now t t' r)) = lr_entries r"
  by (auto simp: route_and_invoke_def route_select_def Let_def split: prod.split option.split sum.split)

lemma router_inv_route: "router_inv r \<Longrightarrow> router_inv (snd (route_and_invoke F answer order now t t' r))"
  unfolding router_inv_def using route_keeps by metis

lemma router_inv_build: "router_inv (router_build p bs)"
proof -
  have "router_inv (fold (\<lambda>(e, l). router_register e l) bs r)" if "router_inv r" for r :: "('a, 'b) llm_router"
    using that by (induction bs arbitrary: r) (auto intro: router_inv_register)
  then show ?thesis unfolding router_build_def using router_inv_new by blast
qed

lemma enabled_exact:
  assumes "router_inv r" "\<And>xs. mset (order xs) = mset xs"
  shows "set (backend_names order r) = {n. \<exists>e. hm_get (lr_entries r) n = Some e \<and> be_enabled e}" "distinct (backend_names order r)"
proof -
  have set: "set (order xs) = set xs" for xs using assms(2) by (metis set_mset_mset)
  have ok: "hm_ok (lr_entries r)" using assms(1) by (simp add: router_inv_def)
  show "set (backend_names order r) = {n. \<exists>e. hm_get (lr_entries r) n = Some e \<and> be_enabled e}"
    unfolding backend_names_def set using hm_ok_mem [OF ok] by force
  have "distinct (map fst (filter (\<lambda>(n, e). be_enabled e) (lr_entries r)))"
    using ok by (auto simp: hm_ok_def intro: distinct_map_filter)
  then show "distinct (backend_names order r)" unfolding backend_names_def using assms(2) by (metis mset_eq_imp_distinct_iff)
qed

lemma try_fallback_exact:
  assumes "\<And>n. n \<in> set ns \<Longrightarrow> hm_get backends n = Some (handle n)"
  shows "try_fallback answer backends failed ns =
    (let others = filter (\<lambda>n. n \<noteq> failed) ns
     in case find (\<lambda>n. \<not> isl (answer (handle n))) others of
          None \<Rightarrow> (Inl (Internal ''all backends exhausted in fallback''), others)
        | Some n \<Rightarrow> (answer (handle n), takeWhile (\<lambda>n. isl (answer (handle n))) others @ [n]))"
  using assms
proof (induction ns)
  case (Cons n ns)
  then have n: "hm_get backends n = Some (handle n)" by simp
  show ?case
  proof (cases "answer (handle n)")
    case (Inl e)
    with Cons n show ?thesis by (simp add: Let_def split: option.split)
  next
    case (Inr resp)
    with Cons n show ?thesis by (simp add: Let_def)
  qed
qed (simp add: Let_def)

text \<open>The routers the operations reach.\<close>

inductive router_step :: "'f float_ops \<Rightarrow> ('l \<Rightarrow> 'r ls_result) \<Rightarrow> ('f, 'l) llm_router \<Rightarrow> ('f, 'l) llm_router \<Rightarrow> bool" for F answer where
  "router_step F answer r (router_register e l r)"
| "router_step F answer r (set_policy p r)"
| "router_step F answer r (snd (route_and_invoke F answer order now t t' r))"

lemma router_inv_step: "router_step F answer r r' \<Longrightarrow> router_inv r \<Longrightarrow> router_inv r'"
  by (induction rule: router_step.induct) (auto intro: router_inv_register router_inv_policy router_inv_route)

interpretation lr: machine "\<lambda>r. \<exists>p bs. r = router_build p bs" "router_step F answer" router_inv for F answer
  by unfold_locales (auto intro: router_inv_build router_inv_step)

lemma first_by_mem: "names \<noteq> [] \<Longrightarrow> \<exists>n \<in> set names. first_by before key names = Some n"
proof -
  assume "names \<noteq> []"
  let ?xs = "fl_sort (\<lambda>a b. before (snd a) (snd b)) (map (\<lambda>n. (n, key n)) names)"
  have "set ?xs = (\<lambda>n. (n, key n)) ` set names" by simp
  moreover from this \<open>names \<noteq> []\<close> have "?xs \<noteq> []" by (metis image_is_empty set_empty)
  ultimately have "hd ?xs \<in> (\<lambda>n. (n, key n)) ` set names" "?xs = hd ?xs # tl ?xs" using hd_in_set [of ?xs] by simp_all
  then show ?thesis by (auto simp: first_by_def split: list.split)
qed

lemma select_mem: "names \<noteq> [] \<Longrightarrow> \<exists>n \<in> set names. fst (router_choose F st names m) = Some n"
  by (cases st) (auto simp: first_by_mem neq_Nil_conv intro: nth_mem)

lemma route_select_mem: "enabled \<noteq> [] \<Longrightarrow> fst (route_select F enabled r) \<in> set enabled"
  using select_mem [of enabled F "lr_strategy r" "lr_metrics r"] by (auto simp: route_select_def Let_def split: prod.split)

text \<open>What a request answers, in terms of the answers of the enabled backends: the one of the chosen backend, or else of the first other that
  answers, or the error of the chosen one.\<close>

lemma route_result:
  fixes r :: "('f, 'l) llm_router"
  assumes "router_inv r" "\<And>xs. mset (order xs) = mset xs" "backend_names order r \<noteq> []"
    and handle: "\<And>n. n \<in> set (backend_names order r) \<Longrightarrow> hm_get (lr_backends r) n = Some (handle n)"
  shows "\<exists>n \<in> set (backend_names order r). fst (route_and_invoke F answer order now t t' r) =
    (let others = filter (\<lambda>k. k \<noteq> n) (backend_names order r)
     in if isl (answer (handle n))
        then case find (\<lambda>k. \<not> isl (answer (handle k))) others of
            None \<Rightarrow> (answer (handle n), n # others)
          | Some k \<Rightarrow> (answer (handle k), n # takeWhile (\<lambda>k. isl (answer (handle k))) others @ [k])
        else (answer (handle n), [n]))"
proof -
  let ?names = "backend_names order r"
  obtain n r1 where sel: "route_select F ?names r = (n, r1)" by fastforce
  have n: "n \<in> set ?names" using route_select_mem [OF assms(3), of F r] by (simp add: sel)
  have same: "lr_backends r1 = lr_backends r" using sel by (auto simp: route_select_def Let_def split: prod.splits)
  have ans: "hm_get (lr_backends r1) n = Some (handle n)" using handle [OF n] by (simp add: same)
  have fb: "try_fallback answer (lr_backends r1) n ?names =
    (let others = filter (\<lambda>k. k \<noteq> n) ?names
     in case find (\<lambda>k. \<not> isl (answer (handle k))) others of
          None \<Rightarrow> (Inl (Internal ''all backends exhausted in fallback''), others)
        | Some k \<Rightarrow> (answer (handle k), takeWhile (\<lambda>k. isl (answer (handle k))) others @ [k]))"
    by (rule try_fallback_exact) (use handle same in simp)
  have right: "\<exists>resp. answer (handle k) = Inr resp" if "find (\<lambda>k. \<not> isl (answer (handle k))) xs = Some k" for xs k
    using find_mem [OF that] by (cases "answer (handle k)") auto
  have single: "filter (\<lambda>k. k \<noteq> n) ?names = []" if "\<not> length ?names > 1"
    using that n by (cases ?names) auto
  show ?thesis
  proof (rule bexI [OF _ n], cases "isl (answer (handle n)) \<and> length ?names > 1")
    case True
    then show "fst (route_and_invoke F answer order now t t' r) = (let others = filter (\<lambda>k. k \<noteq> n) ?names
       in if isl (answer (handle n))
          then case find (\<lambda>k. \<not> isl (answer (handle k))) others of
              None \<Rightarrow> (answer (handle n), n # others)
            | Some k \<Rightarrow> (answer (handle k), n # takeWhile (\<lambda>k. isl (answer (handle k))) others @ [k])
          else (answer (handle n), [n]))"
      using assms(3) sel ans fb right
      by (cases "find (\<lambda>k. \<not> isl (answer (handle k))) (filter (\<lambda>k. k \<noteq> n) ?names)")
        (force simp: route_and_invoke_def Let_def)+
  next
    case False
    then show "fst (route_and_invoke F answer order now t t' r) = (let others = filter (\<lambda>k. k \<noteq> n) ?names
       in if isl (answer (handle n))
          then case find (\<lambda>k. \<not> isl (answer (handle k))) others of
              None \<Rightarrow> (answer (handle n), n # others)
            | Some k \<Rightarrow> (answer (handle k), n # takeWhile (\<lambda>k. isl (answer (handle k))) others @ [k])
          else (answer (handle n), [n]))"
      using assms(3) sel ans single by (auto simp: route_and_invoke_def Let_def)
  qed
qed

text \<open>C37: in every reachable router a request is answered exactly when some enabled backend answers it, whatever the strategy; a
  disabled backend is never called, no backend is called twice, and before an error is returned every enabled backend was called.\<close>

theorem route_answered_iff:
  assumes "reaches (\<lambda>r. \<exists>p bs. r = router_build p bs) (router_step F answer) r" "\<And>xs. mset (order xs) = mset xs"
    and "route_and_invoke F answer order now t t' r = ((result, called), r')"
  shows "((\<exists>resp. result = Inr resp) \<longleftrightarrow>
      (\<exists>n l e. hm_get (lr_entries r) n = Some e \<and> be_enabled e \<and> hm_get (lr_backends r) n = Some l \<and> \<not> isl (answer l)))
    \<and> distinct called \<and> set called \<subseteq> {n. \<exists>e. hm_get (lr_entries r) n = Some e \<and> be_enabled e}
    \<and> (isl result \<longrightarrow> set called = {n. \<exists>e. hm_get (lr_entries r) n = Some e \<and> be_enabled e})"
proof -
  let ?names = "backend_names order r"
  from lr.reaches_inv [OF assms(1)] have inv: "router_inv r" .
  note names = enabled_exact [OF inv assms(2)]
  have llm: "\<exists>l. hm_get (lr_backends r) n = Some l" if "n \<in> set ?names" for n
  proof -
    from that obtain e where "hm_get (lr_entries r) n = Some e" unfolding names by blast
    then have "n \<in> hm_dom (lr_entries r)" by (rule hm_get_dom)
    with inv show ?thesis by (simp add: router_inv_def hm_dom_get)
  qed
  define handle where "handle n = the (hm_get (lr_backends r) n)" for n
  have handle: "hm_get (lr_backends r) n = Some (handle n)" if "n \<in> set ?names" for n
    using llm [OF that] by (auto simp: handle_def)
  have some: "(\<exists>n l e. hm_get (lr_entries r) n = Some e \<and> be_enabled e \<and> hm_get (lr_backends r) n = Some l \<and> \<not> isl (answer l))
      \<longleftrightarrow> (\<exists>n \<in> set ?names. \<not> isl (answer (handle n)))"
    using handle unfolding names by force
  show ?thesis
  proof (cases "?names = []")
    case True
    with assms(3) show ?thesis unfolding some names(1) [symmetric] by (auto simp: route_and_invoke_def)
  next
    case False
    from route_result [OF inv assms(2) False handle, of F answer now t t'] obtain n where n: "n \<in> set ?names"
      "(result, called) = (let others = filter (\<lambda>k. k \<noteq> n) ?names
       in if isl (answer (handle n))
          then case find (\<lambda>k. \<not> isl (answer (handle k))) others of
              None \<Rightarrow> (answer (handle n), n # others)
            | Some k \<Rightarrow> (answer (handle k), n # takeWhile (\<lambda>k. isl (answer (handle k))) others @ [k])
          else (answer (handle n), [n]))" by (auto simp: assms(3))
    let ?others = "filter (\<lambda>k. k \<noteq> n) ?names"
    consider "\<not> isl (answer (handle n))" | "isl (answer (handle n))" "find (\<lambda>k. \<not> isl (answer (handle k))) ?others = None"
      | k where "isl (answer (handle n))" "find (\<lambda>k. \<not> isl (answer (handle k))) ?others = Some k" by fastforce
    then show ?thesis
    proof cases
      case 1
      with n have "result = answer (handle n)" "called = [n]" by simp_all
      with 1 n(1) show ?thesis unfolding some names(1) [symmetric] by (cases "answer (handle n)") (auto intro!: bexI [of _ n])
    next
      case 2
      with n have res: "result = answer (handle n)" "called = n # ?others" by simp_all
      have "isl (answer (handle k))" if "k \<in> set ?names" for k
        using 2 that by (cases "k = n") (auto simp: find_None_iff)
      moreover from this [OF n(1)] obtain e where "result = Inl e" using res(1) by (auto simp: isl_def)
      ultimately show ?thesis using res(2) n(1) names(2) unfolding some names(1) [symmetric] by auto
    next
      case 3
      with n have res: "result = answer (handle k)" "called = n # takeWhile (\<lambda>k. isl (answer (handle k))) ?others @ [k]" by simp_all
      from find_mem [OF 3(2)] have k: "k \<in> set ?names" "k \<noteq> n" "\<not> isl (answer (handle k))" by auto
      have "distinct called" using names(2) k by (auto simp: res distinct_takeWhile dest: set_takeWhileD)
      moreover have "set called \<subseteq> set ?names" using n(1) k by (auto simp: res dest: set_takeWhileD)
      moreover obtain resp where "result = Inr resp" using k(3) by (cases result) (simp_all add: res)
      ultimately show ?thesis using k unfolding some names(1) [symmetric] by auto
    qed
  qed
qed

definition sample_router :: "(rat, nat) llm_router" where
  "sample_router = router_build Priority [(backend_entry_new rat_ops ''a'', 1), (backend_entry_new rat_ops ''b'', 2)]"

definition sample_answer :: "nat \<Rightarrow> string ls_result" where
  "sample_answer l = (if l = 1 then Inl (Internal ''down'') else Inr ''hello'')"

theorem route_answered_iff_witness:
  "fst (route_and_invoke rat_ops sample_answer id 0 5 9 sample_router) = (Inr ''hello'', [''a'', ''b''])
    \<and> set [''a'', ''b''] \<subseteq> {n. \<exists>e. hm_get (lr_entries sample_router) n = Some e \<and> be_enabled e}"
proof -
  have "fst (route_and_invoke rat_ops sample_answer id 0 5 9 sample_router) = (Inr ''hello'', [''a'', ''b''])"
    by (simp add: route_and_invoke_def sample_router_def router_build_def router_register_def router_new_def backend_entry_new_def
        backend_names_def route_select_def sample_answer_def)
  moreover obtain r' where "route_and_invoke rat_ops sample_answer id 0 5 9 sample_router = ((Inr ''hello'', [''a'', ''b'']), r')"
    using calculation by (metis prod.collapse)
  moreover have "reaches (\<lambda>r. \<exists>p bs. r = router_build p bs) (router_step rat_ops sample_answer) sample_router"
    by (rule reaches.intros) (auto simp: sample_router_def)
  ultimately show ?thesis using route_answered_iff [of rat_ops sample_answer sample_router id 0 5 9 "Inr ''hello''" "[''a'', ''b'']" r'] by simp
qed

section \<open>Choices\<close>

text \<open>As long as the enabled backends stay the same and the counter does not wrap, a full turn of the rotation takes each of them once.\<close>

fun selections :: "'f float_ops \<Rightarrow> router_strategy \<Rightarrow> string list \<Rightarrow> 'f router_metrics list \<Rightarrow> string option list" where
  "selections F st names [] = []"
| "selections F st names (m # ms) = (let (n, st') = router_choose F st names m in n # selections F st' names ms)"

lemma round_robin_nth:
  assumes "names \<noteq> []" "unat c + length ms < 2 ^ 64" "k < length ms"
  shows "selections F (RoundRobinStrategy c) names ms ! k = Some (names ! ((unat c + k) mod length names))"
  using assms(2,3)
proof (induction ms arbitrary: c k)
  case (Cons m ms)
  have "unat c < 2 ^ 64 - 1" using Cons.prems(1) by simp
  then have next_c: "unat (c + 1) = unat c + 1" by (subst unat_add_lem [THEN iffD1]) simp_all
  show ?case
  proof (cases k)
    case 0
    with assms(1) show ?thesis by simp
  next
    case (Suc j)
    with Cons.IH [of "c + 1" j] Cons.prems next_c assms(1) show ?thesis by simp
  qed
qed simp

lemma length_selections [simp]: "length (selections F st names ms) = length ms"
  by (induction ms arbitrary: st) (simp_all add: split_beta)

lemma turn_less: "i < j \<Longrightarrow> j < n \<Longrightarrow> (a + i) mod n \<noteq> (a + j) mod n" for a n :: nat
  using mod_eq_dvd_iff_nat [of "a + i" "a + j" n] dvd_imp_le [of n "j - i"] by auto

lemma turn_inj: "inj_on (\<lambda>k. (a + k) mod n) {..<n}" for a n :: nat
proof (rule inj_onI)
  fix i j assume "i \<in> {..<n}" "j \<in> {..<n}" "(a + i) mod n = (a + j) mod n"
  then show "i = j" using turn_less [of i j n a] turn_less [of j i n a] by (cases i j rule: linorder_cases) auto
qed

lemma rotation_fair:
  assumes "distinct names" "names \<noteq> []" "unat c + length ms < 2 ^ 64" "length ms = length names"
  shows "mset (selections F (RoundRobinStrategy c) names ms) = image_mset Some (mset names)"
proof -
  let ?n = "length names" and ?f = "\<lambda>k. (unat c + k) mod length names"
  have "selections F (RoundRobinStrategy c) names ms = map (\<lambda>k. Some (names ! ?f k)) [0..<?n]"
    using round_robin_nth [OF assms(2,3)] assms(4) by (intro nth_equalityI) simp_all
  also have "\<dots> = map (\<lambda>i. Some (names ! i)) (map ?f [0..<?n])" by simp
  finally have eq: "selections F (RoundRobinStrategy c) names ms = map (\<lambda>i. Some (names ! i)) (map ?f [0..<?n])" .
  have inj: "inj_on ?f {..<?n}" by (rule turn_inj)
  have "?f ` {..<?n} = {..<?n}"
    by (rule card_subset_eq) (use assms(2) inj in \<open>auto simp: card_image\<close>)
  then have "mset (map ?f [0..<?n]) = mset [0..<?n]"
    using inj by (subst set_eq_iff_mset_eq_distinct [symmetric]) (auto simp: distinct_map atLeast0LessThan)
  then have "mset (selections F (RoundRobinStrategy c) names ms) = image_mset (\<lambda>i. Some (names ! i)) (mset [0..<?n])"
    unfolding eq mset_map by simp
  also have "\<dots> = image_mset Some (mset (map ((!) names) [0..<?n]))" by (simp add: multiset.map_comp comp_def)
  finally show ?thesis by (simp add: map_nth)
qed

text \<open>The strategy for the lowest latency never tries a second backend: once one was called, the others count as slow as can be.\<close>

lemma latency_sticks:
  assumes "float_laws F" "n \<in> set names" "distinct names" "hm_get (mc_latencies m) n \<noteq> None"
    and "\<And>k. k \<in> set names \<Longrightarrow> k \<noteq> n \<Longrightarrow> hm_get (mc_latencies m) k = None"
    and "fl_lt F (latency_of F m n) (f64_max F)"
  shows "fst (router_choose F LatencyStrategy names m) = Some n"
proof -
  let ?b = "\<lambda>a b. fl_lt F (snd a) (snd b)" and ?key = "latency_of F m"
  have others: "?key k = f64_max F" if "k \<in> set names" "k \<noteq> n" for k
    using assms(5) [OF that] by (simp add: latency_of_def mc_get_def)
  have irr: "\<not> fl_lt F x x" for x using fl_lt_iff [OF assms(1)] by blast
  have asym: "\<not> fl_lt F (f64_max F) (?key n)" using assms(6) fl_lt_iff [OF assms(1)] by blast
  have "hd (fl_sort ?b (map (\<lambda>n. (n, ?key n)) xs)) = (n, ?key n)" if "n \<in> set xs" "set xs \<subseteq> set names" "distinct xs" for xs
    using that
  proof (induction xs)
    case (Cons x xs)
    let ?s = "fl_sort ?b (map (\<lambda>n. (n, ?key n)) xs)"
    have sort: "fl_sort ?b (map (\<lambda>n. (n, ?key n)) (x # xs)) = fl_insert ?b (x, ?key x) ?s" by (simp add: fl_sort_def)
    show ?case
    proof (cases "x = n")
      case True
      have "\<not> ?b y (n, ?key n)" if "y \<in> set ?s" for y
      proof -
        from that obtain k where k: "k \<in> set xs" "y = (k, ?key k)" by auto
        with True Cons.prems have "k \<in> set names" "k \<noteq> n" by auto
        with others [of k] asym k(2) show ?thesis by simp
      qed
      then show ?thesis unfolding sort by (cases ?s) (auto simp: True)
    next
      case False
      with Cons have hd: "hd ?s = (n, ?key n)" and "?s \<noteq> []" by (auto simp flip: set_empty)
      moreover have "?b (n, ?key n) (x, ?key x)" using others [of x] False Cons.prems assms(6) by simp
      ultimately show ?thesis unfolding sort by (cases ?s) auto
    qed
  qed simp
  from this [of names] assms(2,3) have "hd (fl_sort ?b (map (\<lambda>n. (n, ?key n)) names)) = (n, ?key n)" by simp
  moreover have "fl_sort ?b (map (\<lambda>n. (n, ?key n)) names) \<noteq> []" using assms(2) by (auto simp flip: set_empty)
  ultimately show ?thesis by (auto simp: first_by_def split: list.split)
qed

text \<open>Neither the priority nor the price of an entry is ever looked at: the choice is the same for any others.\<close>

lemma priority_not_read:
  fixes F :: "'f float_ops"
  assumes "order = map id"
  shows "fst (route_and_invoke F answer order now t t' (router_register (entry_with_priority p (with_cost c e)) l r))
    = fst (route_and_invoke F answer order now t t' (router_register e l r))"
proof -
  have enabled: "map fst (filter (\<lambda>(n, e). be_enabled e) (AList.update (be_name e) (entry_with_priority p (with_cost c e)) es))
      = map fst (filter (\<lambda>(n, e). be_enabled e) (AList.update (be_name e) e es))" for es :: "(string, 'f backend_entry) hmap"
    by (induction es) (auto simp: entry_with_priority_def with_cost_def)
  have name: "be_name (entry_with_priority p (with_cost c e)) = be_name e" by (simp add: entry_with_priority_def with_cost_def)
  show ?thesis
    by (simp add: assms route_and_invoke_def route_select_def backend_names_def router_register_def enabled name Let_def
        split: prod.split option.split sum.split)
qed

section \<open>Counts\<close>

text \<open>Of the calls recorded for a backend each is a success or an error, so that no rate is above one.\<close>

definition metrics_ok :: "'f router_metrics \<Rightarrow> bool" where
  "metrics_ok m \<longleftrightarrow> (\<forall>k. length (value_or [] k (mc_latencies m)) = value_or 0 k (mc_successes m) + value_or 0 k (mc_errors m))"

lemma value_or_insert [simp]: "value_or d k (hm_insert k' v m) = (if k = k' then v else value_or d k m)"
  by (simp add: value_or_def)

lemma metrics_ok_new: "metrics_ok collector_new"
  by (simp add: metrics_ok_def collector_new_def value_or_def)

lemma metrics_ok_record: "metrics_ok m \<Longrightarrow> metrics_ok (mc_record F now k t c success m)"
  by (simp add: metrics_ok_def mc_record_def)

lemma metrics_ok_get: "metrics_ok m \<Longrightarrow> mc_get F k m = Some b \<Longrightarrow> bm_total_calls b = bm_success_calls b + bm_error_calls b"
proof -
  assume "metrics_ok m" "mc_get F k m = Some b"
  then obtain ls where "hm_get (mc_latencies m) k = Some ls" "bm_total_calls b = length ls" "bm_success_calls b = value_or 0 k (mc_successes m)"
    "bm_error_calls b = value_or 0 k (mc_errors m)" by (auto simp: mc_get_def Let_def)
  moreover from this(1) have "value_or [] k (mc_latencies m) = ls" by (simp add: value_or_def)
  ultimately show ?thesis using \<open>metrics_ok m\<close> by (auto simp: metrics_ok_def)
qed

text \<open>An error recorded apart from the call counts twice.\<close>

lemma error_counted_twice:
  "map_option (\<lambda>b. (bm_total_calls b, bm_error_calls b)) (mc_get F k (mc_record_error k msg (mc_record F now k t c False collector_new))) = Some (1, 2)"
  by (simp add: mc_get_def mc_record_error_def mc_record_def collector_new_def value_or_def Let_def)

text \<open>A call another backend answers is recorded under the name fallback and not under that of the backend.\<close>

lemma fallback_not_recorded:
  "map (\<lambda>k. hm_get (mc_latencies (lr_metrics (snd (route_and_invoke rat_ops sample_answer id 0 5 9 sample_router)))) k) [''a'', ''b'', ''fallback'']
    = [Some [5], None, Some [9]]"
  by (simp add: route_and_invoke_def sample_router_def router_build_def router_register_def router_new_def backend_entry_new_def
      backend_names_def route_select_def sample_answer_def mc_record_def collector_new_def value_or_def)

text \<open>The names of statistics do not separate the backend from the key: two different ones are added up.\<close>

lemma usage_names_confused:
  "usage_stats (\<lambda>l. if l = 1 then Inr [(''b_c'', 2)] else Inr [(''c'', 3)])
     \<lparr>lr_backends = [(''a'', 1 :: nat), (''a_b'', 2)], lr_entries = [], lr_strategy = PriorityStrategy, lr_metrics = m, lr_policy = Priority\<rparr>
   = [(''a_b_c'', 5)]"
  by (simp add: usage_stats_def add_stat_def value_or_def)

end
