(* ===== verification/Evidence_Graph.thy ===== *)
theory Evidence_Graph
  imports Std_Text Floats
begin

text \<open>
  Evidence graphs, the form in which memories are given back (\<open>crates/evidence-graph/src/node.rs\<close>, \<open>edge.rs\<close>, \<open>graph.rs\<close>,
  \<open>builder.rs\<close>, and \<open>Episode\<close> of \<open>crates/memory-episode/src/episode.rs\<close>). Moments are nanoseconds. Fresh identifiers are taken
  from a supply, a function from the number of identifiers made so far. The metadata of a node are always the empty JSON object.
\<close>

section \<open>Nodes, edges, episodes\<close>

record entity_ref =
  en_kind :: string
  en_name :: string

definition entity_key :: "entity_ref \<Rightarrow> string" where
  "entity_key e = en_kind e @ '':'' @ en_name e"

record state_change =
  sc_entity :: entity_ref
  sc_from :: "string option"
  sc_to :: string
  sc_change_type :: string

record episode =
  ep_id :: ls_id
  ep_timestamp :: int
  ep_title :: string
  ep_summary :: string
  ep_entities :: "entity_ref list"
  ep_tags :: "string list"
  ep_state_changes :: "state_change list"
  ep_session_id :: "string option"
  ep_source_ref :: "string option"
  ep_metadata :: "(string, string) hmap"

definition episode_new :: "ls_id \<Rightarrow> string \<Rightarrow> string \<Rightarrow> int \<Rightarrow> episode" where
  "episode_new fresh title summary t = \<lparr>ep_id = fresh, ep_timestamp = t, ep_title = title, ep_summary = summary, ep_entities = [],
     ep_tags = [], ep_state_changes = [], ep_session_id = None, ep_source_ref = None, ep_metadata = []\<rparr>"

definition episode_entity :: "entity_ref \<Rightarrow> episode \<Rightarrow> episode" where
  "episode_entity e x = x\<lparr>ep_entities := ep_entities x @ [e]\<rparr>"

definition episode_tag :: "string \<Rightarrow> episode \<Rightarrow> episode" where
  "episode_tag t x = x\<lparr>ep_tags := ep_tags x @ [t]\<rparr>"

definition episode_state_change :: "state_change \<Rightarrow> episode \<Rightarrow> episode" where
  "episode_state_change c x = x\<lparr>ep_state_changes := ep_state_changes x @ [c]\<rparr>"

definition episode_session :: "string \<Rightarrow> episode \<Rightarrow> episode" where
  "episode_session i x = x\<lparr>ep_session_id := Some i\<rparr>"

definition episode_source :: "string \<Rightarrow> episode \<Rightarrow> episode" where
  "episode_source r x = x\<lparr>ep_source_ref := Some r\<rparr>"

definition episode_metadata :: "string \<Rightarrow> string \<Rightarrow> episode \<Rightarrow> episode" where
  "episode_metadata k v x = x\<lparr>ep_metadata := hm_insert k v (ep_metadata x)\<rparr>"

datatype evidence_kind = EventNode | FactNode | EntityNode

record 'f evidence_node =
  vn_id :: ls_id
  vn_kind :: evidence_kind
  vn_title :: string
  vn_description :: string
  vn_timestamp :: "int option"
  vn_entity :: "entity_ref option"
  vn_source_ref :: "string option"
  vn_confidence :: 'f
  vn_relevance :: 'f
  vn_tags :: "string list"
  vn_metadata :: string

definition evidence_node_new ::
  "'f float_ops \<Rightarrow> ls_id \<Rightarrow> evidence_kind \<Rightarrow> string \<Rightarrow> string \<Rightarrow> int option \<Rightarrow> entity_ref option \<Rightarrow> 'f evidence_node" where
  "evidence_node_new F fresh kind title description t e = \<lparr>vn_id = fresh, vn_kind = kind, vn_title = title, vn_description = description,
     vn_timestamp = t, vn_entity = e, vn_source_ref = None, vn_confidence = fl_int F 1, vn_relevance = fl_int F 0, vn_tags = [], vn_metadata = ''{}''\<rparr>"

definition event_node :: "'f float_ops \<Rightarrow> ls_id \<Rightarrow> string \<Rightarrow> string \<Rightarrow> int \<Rightarrow> 'f evidence_node" where
  "event_node F fresh title description t = evidence_node_new F fresh EventNode title description (Some t) None"

definition fact_node :: "'f float_ops \<Rightarrow> ls_id \<Rightarrow> string \<Rightarrow> string \<Rightarrow> 'f evidence_node" where
  "fact_node F fresh title description = evidence_node_new F fresh FactNode title description None None"

definition entity_node :: "'f float_ops \<Rightarrow> ls_id \<Rightarrow> entity_ref \<Rightarrow> 'f evidence_node" where
  "entity_node F fresh e = evidence_node_new F fresh EntityNode (entity_key e) [] None (Some e)"

definition node_with_confidence :: "'f float_ops \<Rightarrow> 'f \<Rightarrow> 'f evidence_node \<Rightarrow> 'f evidence_node" where
  "node_with_confidence F c n = n\<lparr>vn_confidence := fl_clamp F (fl_int F 0) (fl_int F 1) c\<rparr>"

definition node_with_relevance :: "'f float_ops \<Rightarrow> 'f \<Rightarrow> 'f evidence_node \<Rightarrow> 'f evidence_node" where
  "node_with_relevance F c n = n\<lparr>vn_relevance := fl_clamp F (fl_int F 0) (fl_int F 1) c\<rparr>"

definition node_with_source :: "string \<Rightarrow> 'f evidence_node \<Rightarrow> 'f evidence_node" where
  "node_with_source s n = n\<lparr>vn_source_ref := Some s\<rparr>"

definition node_with_tag :: "string \<Rightarrow> 'f evidence_node \<Rightarrow> 'f evidence_node" where
  "node_with_tag t n = n\<lparr>vn_tags := vn_tags n @ [t]\<rparr>"

datatype evidence_edge_kind = TemporalEdge | RelatedEdge | StateChangeEdge

record 'f evidence_edge =
  vd_id :: ls_id
  vd_kind :: evidence_edge_kind
  vd_source_id :: ls_id
  vd_target_id :: ls_id
  vd_label :: string
  vd_confidence :: 'f
  vd_metadata :: string

definition evidence_edge_new :: "'f float_ops \<Rightarrow> ls_id \<Rightarrow> evidence_edge_kind \<Rightarrow> ls_id \<Rightarrow> ls_id \<Rightarrow> string \<Rightarrow> 'f evidence_edge" where
  "evidence_edge_new F fresh kind s t label = \<lparr>vd_id = fresh, vd_kind = kind, vd_source_id = s, vd_target_id = t, vd_label = label,
     vd_confidence = fl_int F 1, vd_metadata = ''{}''\<rparr>"

text \<open>The label of an edge in time says that the first happened before the second.\<close>

definition temporal_edge :: "'f float_ops \<Rightarrow> ls_id \<Rightarrow> ls_id \<Rightarrow> ls_id \<Rightarrow> 'f evidence_edge" where
  "temporal_edge F fresh s t = evidence_edge_new F fresh TemporalEdge s t
     (utf8 [229, 143, 145, 231, 148, 159, 228, 186, 142, 228, 185, 139, 229, 137, 141])"

definition edge_with_confidence :: "'f float_ops \<Rightarrow> 'f \<Rightarrow> 'f evidence_edge \<Rightarrow> 'f evidence_edge" where
  "edge_with_confidence F c e = e\<lparr>vd_confidence := fl_clamp F (fl_int F 0) (fl_int F 1) c\<rparr>"

section \<open>Graphs\<close>

record graph_metadata =
  gm_query :: string
  gm_created_at :: int
  gm_node_count :: nat
  gm_edge_count :: nat
  gm_entities :: "string list"
  gm_time_span_start :: "int option"
  gm_time_span_end :: "int option"
  gm_build_time_ms :: nat
  gm_source :: string
  gm_attributes :: "(string, string) hmap"

record 'f evidence_graph =
  eg_nodes :: "'f evidence_node list"
  eg_edges :: "'f evidence_edge list"
  eg_metadata :: graph_metadata

definition evidence_empty :: "int \<Rightarrow> string \<Rightarrow> 'f evidence_graph" where
  "evidence_empty now query = \<lparr>eg_nodes = [], eg_edges = [], eg_metadata = \<lparr>gm_query = query, gm_created_at = now, gm_node_count = 0,
     gm_edge_count = 0, gm_entities = [], gm_time_span_start = None, gm_time_span_end = None, gm_build_time_ms = 0, gm_source = ''empty'',
     gm_attributes = []\<rparr>\<rparr>"

definition evidence_add_node :: "'f evidence_node \<Rightarrow> 'f evidence_graph \<Rightarrow> 'f evidence_graph" where
  "evidence_add_node n g = g\<lparr>eg_metadata := (eg_metadata g)\<lparr>gm_node_count := length (eg_nodes g) + 1\<rparr>, eg_nodes := eg_nodes g @ [n]\<rparr>"

definition evidence_add_edge :: "'f evidence_edge \<Rightarrow> 'f evidence_graph \<Rightarrow> 'f evidence_graph" where
  "evidence_add_edge e g = g\<lparr>eg_metadata := (eg_metadata g)\<lparr>gm_edge_count := length (eg_edges g) + 1\<rparr>, eg_edges := eg_edges g @ [e]\<rparr>"

definition evidence_nodes_by_kind :: "evidence_kind \<Rightarrow> 'f evidence_graph \<Rightarrow> 'f evidence_node list" where
  "evidence_nodes_by_kind k g = filter (\<lambda>n. vn_kind n = k) (eg_nodes g)"

definition edges_for_node :: "ls_id \<Rightarrow> 'f evidence_graph \<Rightarrow> 'f evidence_edge list" where
  "edges_for_node i g = filter (\<lambda>e. vd_source_id e = i \<or> vd_target_id e = i) (eg_edges g)"

definition edges_by_kind :: "evidence_edge_kind \<Rightarrow> 'f evidence_graph \<Rightarrow> 'f evidence_edge list" where
  "edges_by_kind k g = filter (\<lambda>e. vd_kind e = k) (eg_edges g)"

definition events_sorted :: "'f evidence_graph \<Rightarrow> 'f evidence_node list" where
  "events_sorted g = sort_key (\<lambda>n. the (vn_timestamp n)) (filter (\<lambda>n. vn_kind n = EventNode \<and> vn_timestamp n \<noteq> None) (eg_nodes g))"

text \<open>The union of two graphs; the identifiers present are read once, before the loop.\<close>

definition evidence_union :: "'f evidence_graph \<Rightarrow> 'f evidence_graph \<Rightarrow> 'f evidence_graph" where
  "evidence_union g other =
     (let nodes = eg_nodes g @ filter (\<lambda>n. vn_id n \<notin> vn_id ` set (eg_nodes g)) (eg_nodes other);
          edges = eg_edges g @ filter (\<lambda>e. vd_id e \<notin> vd_id ` set (eg_edges g)) (eg_edges other)
      in g\<lparr>eg_nodes := nodes, eg_edges := edges, eg_metadata := (eg_metadata g)\<lparr>gm_node_count := length nodes, gm_edge_count := length edges\<rparr>\<rparr>)"

lemma union_keys:
  assumes "distinct (map f xs)" "distinct (map f ys)"
  shows "distinct (map f (xs @ filter (\<lambda>y. f y \<notin> f ` set xs) ys))"
    and "f ` set (xs @ filter (\<lambda>y. f y \<notin> f ` set xs) ys) = f ` set xs \<union> f ` set ys"
proof -
  have "f ` set (filter (\<lambda>y. f y \<notin> f ` set xs) ys) \<inter> f ` set xs = {}" by auto
  then show "distinct (map f (xs @ filter (\<lambda>y. f y \<notin> f ` set xs) ys))" using assms by (auto simp: distinct_map_filter)
  show "f ` set (xs @ filter (\<lambda>y. f y \<notin> f ` set xs) ys) = f ` set xs \<union> f ` set ys" by auto
qed

text \<open>The union has every node and every edge of both exactly once.\<close>

lemma union_exact:
  assumes "distinct (map vn_id (eg_nodes g))" "distinct (map vn_id (eg_nodes h))" "distinct (map vd_id (eg_edges g))" "distinct (map vd_id (eg_edges h))"
  shows "distinct (map vn_id (eg_nodes (evidence_union g h))) \<and> distinct (map vd_id (eg_edges (evidence_union g h)))"
    and "vn_id ` set (eg_nodes (evidence_union g h)) = vn_id ` set (eg_nodes g) \<union> vn_id ` set (eg_nodes h)"
    and "vd_id ` set (eg_edges (evidence_union g h)) = vd_id ` set (eg_edges g) \<union> vd_id ` set (eg_edges h)"
  using union_keys [OF assms(1,2)] union_keys [OF assms(3,4)] by (simp_all add: evidence_union_def Let_def)

section \<open>Graphs from episodes\<close>

record 'f build_state =
  bs_graph :: "'f evidence_graph"
  bs_entities :: "(string, ls_id) hmap"
  bs_events :: "ls_id list"
  bs_made :: nat

definition fresh_id :: "(nat \<Rightarrow> ls_id) \<Rightarrow> 'f build_state \<Rightarrow> ls_id" where
  "fresh_id ids b = ids (bs_made b)"

definition build_entity :: "'f float_ops \<Rightarrow> (nat \<Rightarrow> ls_id) \<Rightarrow> episode \<Rightarrow> entity_ref \<Rightarrow> 'f build_state \<Rightarrow> 'f build_state" where
  "build_entity F ids ep e b = (if hm_has (entity_key e) (bs_entities b) then b
     else let n = node_with_source (show_id (ep_id ep)) (entity_node F (fresh_id ids b) e);
              g = evidence_add_node n (bs_graph b)
          in b\<lparr>bs_graph := g\<lparr>eg_metadata := (eg_metadata g)\<lparr>gm_entities := gm_entities (eg_metadata g) @ [entity_key e]\<rparr>\<rparr>,
               bs_entities := hm_insert (entity_key e) (vn_id n) (bs_entities b), bs_made := bs_made b + 1\<rparr>)"

definition build_event :: "'f float_ops \<Rightarrow> (nat \<Rightarrow> ls_id) \<Rightarrow> episode \<Rightarrow> 'f build_state \<Rightarrow> 'f build_state" where
  "build_event F ids ep b =
     (let n = fold node_with_tag (ep_tags ep) (node_with_confidence F (fl_int F 1) (node_with_source (show_id (ep_id ep))
            (event_node F (fresh_id ids b) (ep_title ep) (ep_summary ep) (ep_timestamp ep))))
      in b\<lparr>bs_graph := evidence_add_node n (bs_graph b), bs_events := bs_events b @ [vn_id n], bs_made := bs_made b + 1\<rparr>)"

definition build_edge :: "(ls_id \<Rightarrow> 'f evidence_edge) \<Rightarrow> (nat \<Rightarrow> ls_id) \<Rightarrow> 'f build_state \<Rightarrow> 'f build_state" where
  "build_edge mk ids b = b\<lparr>bs_graph := evidence_add_edge (mk (fresh_id ids b)) (bs_graph b), bs_made := bs_made b + 1\<rparr>"

definition build_related :: "'f float_ops \<Rightarrow> (nat \<Rightarrow> ls_id) \<Rightarrow> ls_id \<Rightarrow> entity_ref \<Rightarrow> 'f build_state \<Rightarrow> 'f build_state" where
  "build_related F ids event e b = (case hm_get (bs_entities b) (entity_key e) of
       None \<Rightarrow> b
     | Some i \<Rightarrow> build_edge (\<lambda>fresh. evidence_edge_new F fresh RelatedEdge event i (utf8 [230, 182, 137, 229, 143, 138] @ entity_key e)) ids b)"

definition change_label :: "state_change \<Rightarrow> string" where
  "change_label c = sc_change_type c @ '': '' @ (case sc_from c of Some s \<Rightarrow> s | None \<Rightarrow> ''?'') @ utf8 [32, 226, 134, 146, 32] @ sc_to c"

definition build_change :: "'f float_ops \<Rightarrow> (nat \<Rightarrow> ls_id) \<Rightarrow> ls_id \<Rightarrow> state_change \<Rightarrow> 'f build_state \<Rightarrow> 'f build_state" where
  "build_change F ids event c b = (case hm_get (bs_entities b) (entity_key (sc_entity c)) of
       None \<Rightarrow> b
     | Some i \<Rightarrow> build_edge (\<lambda>fresh. edge_with_confidence F (fl_dec F 9 1) (evidence_edge_new F fresh StateChangeEdge event i (change_label c))) ids b)"

definition build_episode :: "'f float_ops \<Rightarrow> (nat \<Rightarrow> ls_id) \<Rightarrow> episode \<Rightarrow> 'f build_state \<Rightarrow> 'f build_state" where
  "build_episode F ids ep b =
     (let b1 = build_event F ids ep (fold (build_entity F ids ep) (ep_entities ep) b); event = last (bs_events b1)
      in fold (build_change F ids event) (ep_state_changes ep) (fold (build_related F ids event) (ep_entities ep) b1))"

fun build_timeline :: "'f float_ops \<Rightarrow> (nat \<Rightarrow> ls_id) \<Rightarrow> ls_id list \<Rightarrow> 'f build_state \<Rightarrow> 'f build_state" where
  "build_timeline F ids (a # c # js) b = build_timeline F ids (c # js) (build_edge (\<lambda>fresh. temporal_edge F fresh a c) ids b)"
| "build_timeline F ids _ b = b"

definition build_ends :: "'f float_ops \<Rightarrow> (nat \<Rightarrow> ls_id) \<Rightarrow> 'f build_state \<Rightarrow> 'f build_state" where
  "build_ends F ids b = (if length (bs_events b) > 2
     then build_edge (\<lambda>fresh. edge_with_confidence F (fl_dec F 8 1) (temporal_edge F fresh (hd (bs_events b)) (last (bs_events b)))) ids b
     else b)"

definition build_start :: "int \<Rightarrow> episode list \<Rightarrow> string \<Rightarrow> string \<Rightarrow> nat \<Rightarrow> 'f build_state" where
  "build_start now eps query source ms = (let g = evidence_empty now query in
     \<lparr>bs_graph = g\<lparr>eg_metadata := (eg_metadata g)\<lparr>gm_source := source, gm_build_time_ms := ms,
        gm_time_span_start := (case eps of [] \<Rightarrow> None | e # _ \<Rightarrow> Some (ep_timestamp e)),
        gm_time_span_end := (if eps = [] then None else Some (ep_timestamp (last eps)))\<rparr>\<rparr>,
      bs_entities = [], bs_events = [], bs_made = 0\<rparr>)"

definition from_episodes :: "'f float_ops \<Rightarrow> (nat \<Rightarrow> ls_id) \<Rightarrow> int \<Rightarrow> episode list \<Rightarrow> string \<Rightarrow> string \<Rightarrow> nat \<Rightarrow> 'f evidence_graph" where
  "from_episodes F ids now eps query source ms =
     (let b = fold (build_episode F ids) eps (build_start now eps query source ms);
          g = bs_graph (build_ends F ids (build_timeline F ids (bs_events b) b))
      in g\<lparr>eg_metadata := (eg_metadata g)\<lparr>gm_node_count := length (eg_nodes g), gm_edge_count := length (eg_edges g)\<rparr>\<rparr>)"

section \<open>The ends of every edge are nodes\<close>

definition edges_closed :: "'f evidence_graph \<Rightarrow> bool" where
  "edges_closed g \<longleftrightarrow> (\<forall>e \<in> set (eg_edges g). vd_source_id e \<in> vn_id ` set (eg_nodes g) \<and> vd_target_id e \<in> vn_id ` set (eg_nodes g))"

definition build_inv :: "(nat \<Rightarrow> ls_id) \<Rightarrow> 'f build_state \<Rightarrow> bool" where
  "build_inv ids b \<longleftrightarrow> edges_closed (bs_graph b)
     \<and> set (bs_events b) \<subseteq> vn_id ` set (eg_nodes (bs_graph b))
     \<and> (\<forall>k i. hm_get (bs_entities b) k = Some i \<longrightarrow> i \<in> vn_id ` set (eg_nodes (bs_graph b)))
     \<and> distinct (map vn_id (eg_nodes (bs_graph b)) @ map vd_id (eg_edges (bs_graph b)))
     \<and> (vn_id ` set (eg_nodes (bs_graph b)) \<union> vd_id ` set (eg_edges (bs_graph b))) \<subseteq> ids ` {..<bs_made b}
     \<and> hm_ok (bs_entities b) \<and> gm_entities (eg_metadata (bs_graph b)) = hm_keys (bs_entities b)"

lemma fresh_not_made: "inj ids \<Longrightarrow> ids k \<notin> ids ` {..<k}" for k :: nat
  by (auto simp: inj_eq)

lemma build_inv_node:
  assumes "build_inv ids b" "inj ids" "vn_id n = fresh_id ids b"
    and "bs_graph b' = evidence_add_node n (bs_graph b)" "bs_made b' = bs_made b + 1" "bs_entities b' = bs_entities b"
    and "bs_events b' = bs_events b \<or> bs_events b' = bs_events b @ [vn_id n]"
  shows "build_inv ids b'"
  using assms fresh_not_made [OF assms(2), of "bs_made b"]
  by (auto simp: build_inv_def edges_closed_def evidence_add_node_def fresh_id_def lessThan_Suc)

lemma build_inv_edge:
  assumes "build_inv ids b" "inj ids" "\<And>i. vd_id (mk i) = i"
    and "\<And>i. vd_source_id (mk i) \<in> vn_id ` set (eg_nodes (bs_graph b))" "\<And>i. vd_target_id (mk i) \<in> vn_id ` set (eg_nodes (bs_graph b))"
  shows "build_inv ids (build_edge mk ids b)"
proof -
  have "fresh_id ids b \<notin> vn_id ` set (eg_nodes (bs_graph b)) \<union> vd_id ` set (eg_edges (bs_graph b))"
    using assms(1) fresh_not_made [OF assms(2), of "bs_made b"] unfolding build_inv_def fresh_id_def by blast
  with assms show ?thesis
    by (auto simp: build_inv_def edges_closed_def evidence_add_edge_def build_edge_def fresh_id_def lessThan_Suc)
qed

lemma build_inv_entity: "build_inv ids b \<Longrightarrow> inj ids \<Longrightarrow> build_inv ids (build_entity F ids ep e b)"
proof -
  assume inv: "build_inv ids b" and inj: "inj ids"
  let ?n = "node_with_source (show_id (ep_id ep)) (entity_node F (fresh_id ids b) e)"
  let ?b = "b\<lparr>bs_graph := evidence_add_node ?n (bs_graph b), bs_made := bs_made b + 1\<rparr>"
  have n: "vn_id ?n = fresh_id ids b" by (simp add: node_with_source_def entity_node_def evidence_node_new_def)
  have step: "build_inv ids ?b" by (rule build_inv_node [OF inv inj n]) simp_all
  show ?thesis
  proof (cases "entity_key e \<in> hm_dom (bs_entities b)")
    case True
    with inv show ?thesis by (simp add: build_entity_def)
  next
    case False
    then have "hm_keys (hm_insert (entity_key e) (vn_id ?n) (bs_entities b)) = hm_keys (bs_entities b) @ [entity_key e]"
      by (simp add: update_keys hm_dom_def)
    with False step inv show ?thesis
      by (auto simp: build_inv_def edges_closed_def build_entity_def Let_def evidence_add_node_def)
  qed
qed

lemma fold_tags_id [simp]: "vn_id (fold node_with_tag ts n) = vn_id n" "vn_kind (fold node_with_tag ts n) = vn_kind n"
  "vn_title (fold node_with_tag ts n) = vn_title n"
  by (induction ts arbitrary: n) (simp_all add: node_with_tag_def)

lemma build_inv_event: "build_inv ids b \<Longrightarrow> inj ids \<Longrightarrow> build_inv ids (build_event F ids ep b)"
  by (erule build_inv_node, assumption)
    (auto simp: build_event_def Let_def node_with_confidence_def node_with_source_def event_node_def evidence_node_new_def)

lemma build_inv_fold:
  assumes "\<And>x b. x \<in> set xs \<Longrightarrow> build_inv ids b \<Longrightarrow> P b \<Longrightarrow> build_inv ids (f x b) \<and> P (f x b)" "build_inv ids b" "P b"
  shows "build_inv ids (fold f xs b) \<and> P (fold f xs b)"
  using assms by (induction xs arbitrary: b) auto

definition has_event :: "ls_id \<Rightarrow> 'f build_state \<Rightarrow> bool" where
  "has_event i b \<longleftrightarrow> i \<in> vn_id ` set (eg_nodes (bs_graph b))"

lemma nodes_build_edge [simp]: "eg_nodes (bs_graph (build_edge mk ids b)) = eg_nodes (bs_graph b)" "bs_events (build_edge mk ids b) = bs_events b"
  "bs_entities (build_edge mk ids b) = bs_entities b" "gm_entities (eg_metadata (bs_graph (build_edge mk ids b))) = gm_entities (eg_metadata (bs_graph b))"
  by (simp_all add: build_edge_def evidence_add_edge_def)

lemma build_inv_to_entity:
  assumes "build_inv ids b" "inj ids" "has_event i b" "hm_get (bs_entities b) k = Some j" "\<And>i. vd_id (mk i) = i"
    "\<And>x. vd_source_id (mk x) = i" "\<And>x. vd_target_id (mk x) = j"
  shows "build_inv ids (build_edge mk ids b) \<and> has_event i (build_edge mk ids b)"
proof -
  have "j \<in> vn_id ` set (eg_nodes (bs_graph b))" using assms(1,4) unfolding build_inv_def by blast
  with assms(3,6,7) have "build_inv ids (build_edge mk ids b)"
    by (intro build_inv_edge [OF assms(1,2,5)]) (simp_all add: has_event_def)
  with assms(3) show ?thesis by (simp add: has_event_def)
qed

lemma build_inv_related:
  "build_inv ids b \<Longrightarrow> inj ids \<Longrightarrow> has_event i b \<Longrightarrow> build_inv ids (build_related F ids i e b) \<and> has_event i (build_related F ids i e b)"
  by (cases "hm_get (bs_entities b) (entity_key e)")
    (auto simp: build_related_def evidence_edge_new_def intro!: build_inv_to_entity [THEN conjunct1] build_inv_to_entity [THEN conjunct2])

lemma build_inv_change:
  "build_inv ids b \<Longrightarrow> inj ids \<Longrightarrow> has_event i b \<Longrightarrow> build_inv ids (build_change F ids i c b) \<and> has_event i (build_change F ids i c b)"
  by (cases "hm_get (bs_entities b) (entity_key (sc_entity c))")
    (auto simp: build_change_def evidence_edge_new_def edge_with_confidence_def intro!: build_inv_to_entity [THEN conjunct1] build_inv_to_entity [THEN conjunct2])

lemma build_inv_episode:
  assumes "build_inv ids b" "inj ids"
  shows "build_inv ids (build_episode F ids ep b)"
proof -
  have "build_inv ids (fold (build_entity F ids ep) (ep_entities ep) b)"
    using build_inv_fold [of _ ids "\<lambda>_. True" "build_entity F ids ep" b] build_inv_entity assms by blast
  from build_inv_event [OF this assms(2)] have b1: "build_inv ids (build_event F ids ep (fold (build_entity F ids ep) (ep_entities ep) b))"
    (is "build_inv ids ?b1") .
  let ?i = "last (bs_events ?b1)"
  have "bs_events ?b1 \<noteq> []" by (simp add: build_event_def Let_def)
  with b1 have i: "has_event ?i ?b1" unfolding build_inv_def has_event_def by (meson last_in_set subsetD)
  have "build_inv ids (fold (build_related F ids ?i) (ep_entities ep) ?b1) \<and> has_event ?i (fold (build_related F ids ?i) (ep_entities ep) ?b1)"
    by (rule build_inv_fold [where P = "has_event ?i", OF _ b1 i]) (rule build_inv_related [OF _ assms(2)])
  then have "build_inv ids (fold (build_change F ids ?i) (ep_state_changes ep) (fold (build_related F ids ?i) (ep_entities ep) ?b1))
      \<and> has_event ?i (fold (build_change F ids ?i) (ep_state_changes ep) (fold (build_related F ids ?i) (ep_entities ep) ?b1))"
    by (elim conjE) (rule build_inv_fold [where P = "has_event ?i"], rule build_inv_change [OF _ assms(2)])
  then show ?thesis by (simp add: build_episode_def Let_def)
qed

lemma build_inv_temporal:
  assumes "build_inv ids b" "inj ids" "a \<in> set (bs_events b)" "c \<in> set (bs_events b)"
  shows "build_inv ids (build_edge (\<lambda>fresh. temporal_edge F fresh a c) ids b)"
    and "build_inv ids (build_edge (\<lambda>fresh. edge_with_confidence F x (temporal_edge F fresh a c)) ids b)"
proof -
  have "set (bs_events b) \<subseteq> vn_id ` set (eg_nodes (bs_graph b))" using assms(1) by (simp add: build_inv_def)
  with assms(3,4) have ac: "a \<in> vn_id ` set (eg_nodes (bs_graph b))" "c \<in> vn_id ` set (eg_nodes (bs_graph b))" by blast+
  then show "build_inv ids (build_edge (\<lambda>fresh. temporal_edge F fresh a c) ids b)"
    by (intro build_inv_edge [OF assms(1,2)]) (simp_all add: temporal_edge_def evidence_edge_new_def)
  from ac show "build_inv ids (build_edge (\<lambda>fresh. edge_with_confidence F x (temporal_edge F fresh a c)) ids b)"
    by (intro build_inv_edge [OF assms(1,2)]) (simp_all add: temporal_edge_def evidence_edge_new_def edge_with_confidence_def)
qed

lemma build_inv_timeline:
  "build_inv ids b \<Longrightarrow> inj ids \<Longrightarrow> set js \<subseteq> set (bs_events b)
    \<Longrightarrow> build_inv ids (build_timeline F ids js b) \<and> bs_events (build_timeline F ids js b) = bs_events b
      \<and> eg_nodes (bs_graph (build_timeline F ids js b)) = eg_nodes (bs_graph b)"
  by (induction F ids js b rule: build_timeline.induct) (simp_all add: build_inv_temporal)

lemma build_inv_start: "build_inv ids (build_start now eps query source ms)"
  by (simp add: build_inv_def build_start_def evidence_empty_def edges_closed_def Let_def)

text \<open>Each episode gives one event node, in their order.\<close>

definition event_titles :: "'f build_state \<Rightarrow> string list" where
  "event_titles b = map vn_title (filter (\<lambda>n. vn_kind n = EventNode) (eg_nodes (bs_graph b)))"

lemma titles_entity: "event_titles (build_entity F ids ep e b) = event_titles b"
  by (simp add: event_titles_def build_entity_def Let_def evidence_add_node_def node_with_source_def entity_node_def evidence_node_new_def)

lemma titles_event: "event_titles (build_event F ids ep b) = event_titles b @ [ep_title ep]"
  by (simp add: event_titles_def build_event_def Let_def evidence_add_node_def node_with_confidence_def node_with_source_def event_node_def
      evidence_node_new_def)

lemma titles_edge [simp]: "event_titles (build_edge mk ids b) = event_titles b"
  by (simp add: event_titles_def)

lemma titles_fold: "(\<And>x b. event_titles (f x b) = event_titles b) \<Longrightarrow> event_titles (fold f xs b) = event_titles b"
  by (induction xs arbitrary: b) simp_all

lemma titles_episode: "event_titles (build_episode F ids ep b) = event_titles b @ [ep_title ep]"
proof -
  have "event_titles (build_change F ids i c b) = event_titles b" for i c and b :: "'a build_state"
    by (simp add: build_change_def split: option.split)
  moreover have "event_titles (build_related F ids i c b) = event_titles b" for i c and b :: "'a build_state"
    by (simp add: build_related_def split: option.split)
  ultimately show ?thesis by (simp add: build_episode_def Let_def titles_fold titles_entity titles_event)
qed

lemma episodes_titles: "event_titles (fold (build_episode F ids) eps b) = event_titles b @ map ep_title eps"
  by (induction eps arbitrary: b) (simp_all add: titles_episode)

text \<open>In a graph built from episodes every edge joins two nodes of it, no identifier is used twice, the entities listed are distinct, and the
  events are the episodes in their order.\<close>

theorem from_episodes_sound:
  assumes "inj ids" "g = from_episodes F ids now eps query source ms"
  shows "edges_closed g \<and> distinct (map vn_id (eg_nodes g) @ map vd_id (eg_edges g)) \<and> distinct (gm_entities (eg_metadata g))
    \<and> map vn_title (evidence_nodes_by_kind EventNode g) = map ep_title eps
    \<and> gm_node_count (eg_metadata g) = length (eg_nodes g) \<and> gm_edge_count (eg_metadata g) = length (eg_edges g)"
proof -
  let ?b = "fold (build_episode F ids) eps (build_start now eps query source ms)"
  let ?t = "build_timeline F ids (bs_events ?b) ?b"
  have "build_inv ids ?b"
    using build_inv_fold [of eps ids "\<lambda>_. True" "build_episode F ids"] build_inv_start build_inv_episode assms(1) by blast
  from build_inv_timeline [OF this assms(1), of "bs_events ?b" F] have t: "build_inv ids ?t" "eg_nodes (bs_graph ?t) = eg_nodes (bs_graph ?b)" by simp_all
  have ends: "build_inv ids (build_ends F ids ?t)"
  proof (cases "length (bs_events ?t) > 2")
    case True
    then have "bs_events ?t \<noteq> []" by force
    then have "hd (bs_events ?t) \<in> set (bs_events ?t)" "last (bs_events ?t) \<in> set (bs_events ?t)" by simp_all
    from build_inv_temporal(2) [OF t(1) assms(1) this] True show ?thesis by (simp add: build_ends_def)
  next
    case False
    with t(1) show ?thesis by (simp add: build_ends_def)
  qed
  have nodes: "eg_nodes (bs_graph (build_ends F ids ?t)) = eg_nodes (bs_graph ?b)" using t(2) by (simp add: build_ends_def)
  have "event_titles ?b = map ep_title eps"
    by (simp add: episodes_titles) (simp add: event_titles_def build_start_def evidence_empty_def Let_def)
  then have titles: "map vn_title (filter (\<lambda>n. vn_kind n = EventNode) (eg_nodes (bs_graph (build_ends F ids ?t)))) = map ep_title eps"
    by (simp add: nodes event_titles_def)
  show ?thesis using ends titles unfolding assms(2)
    by (simp add: from_episodes_def Let_def build_inv_def edges_closed_def evidence_nodes_by_kind_def hm_ok_def)
qed

theorem from_episodes_sound_witness:
  "map vn_title (evidence_nodes_by_kind EventNode (from_episodes rat_ops id 0 [episode_new 7 ''a'' [] 1, episode_new 8 ''b'' [] 2] ''q'' ''s'' 3)) = [''a'', ''b'']"
  using from_episodes_sound [of id "from_episodes rat_ops id 0 [episode_new 7 ''a'' [] 1, episode_new 8 ''b'' [] 2] ''q'' ''s'' 3" rat_ops 0]
  by (simp add: episode_new_def)

end
