(* ===== verification/Evidence_Merge.thy ===== *)
theory Evidence_Merge
  imports Evidence_Graph "HOL-Library.List_Lexorder" "HOL-Library.Char_ord" "HOL-Library.Multiset"
begin

text \<open>
  Ranking the nodes of evidence graphs and merging the graphs of several workflows (\<open>crates/evidence-graph/src/ranking.rs\<close>,
  \<open>merger.rs\<close>). Logarithm, exponential and power of floating-point numbers are arguments, as are the text of a moment, the JSON
  text of conflicts and the order in which a set of names is listed. What the merger reports to the global metrics is left out.
\<close>

section \<open>Scores\<close>

record 'f math_ops =
  mt_ln :: "'f \<Rightarrow> 'f"
  mt_exp :: "'f \<Rightarrow> 'f"
  mt_pow :: "'f \<Rightarrow> 'f \<Rightarrow> 'f"

datatype 'f scorer =
  TfIdf "(string, 'f) hmap" 'f 'f
| Recency 'f 'f "int option"
| ConfidenceOf
| Composite "('f scorer \<times> 'f) list"

definition is_alnum :: "char \<Rightarrow> bool" where
  "is_alnum c \<longleftrightarrow> (let n = (of_char c :: nat) in 48 \<le> n \<and> n \<le> 57 \<or> 65 \<le> n \<and> n \<le> 90 \<or> 97 \<le> n \<and> n \<le> 122)"

fun split_by :: "(char \<Rightarrow> bool) \<Rightarrow> string \<Rightarrow> string list" where
  "split_by P [] = [[]]"
| "split_by P (c # s) = (if P c then [] # split_by P s else (case split_by P s of [] \<Rightarrow> [[c]] | w # ws \<Rightarrow> (c # w) # ws))"

definition tokenize :: "string \<Rightarrow> string list" where
  "tokenize text = filter (\<lambda>s. s \<noteq> [] \<and> length s \<ge> 2)
     (split_by (\<lambda>c. \<not> is_alnum c \<and> c \<noteq> CHR 0x27 \<and> c \<noteq> CHR ''-'') (to_lower text))"

definition tfidf_new :: "'f float_ops \<Rightarrow> 'f scorer" where
  "tfidf_new F = TfIdf [] (fl_dec F 6 1) (fl_dec F 4 1)"

definition node_words :: "'f evidence_node \<Rightarrow> string list" where
  "node_words n = remdups (tokenize (vn_title n) @ tokenize (vn_description n))"

definition doc_freq :: "'f evidence_node list \<Rightarrow> string \<Rightarrow> nat" where
  "doc_freq ns w = length (filter (\<lambda>n. w \<in> set (node_words n)) ns)"

fun with_corpus :: "'f float_ops \<Rightarrow> 'f math_ops \<Rightarrow> 'f evidence_graph list \<Rightarrow> 'f scorer \<Rightarrow> 'f scorer" where
  "with_corpus F M gs (TfIdf idf tw dw) =
     (let ns = concat (map eg_nodes gs)
      in TfIdf (fold (\<lambda>w acc. hm_insert w
           (fl_add F (mt_ln M (fl_div F (fl_int F (int (length ns))) (fl_int F (int (doc_freq ns w))))) (fl_int F 1)) acc)
           (remdups (concat (map node_words ns))) idf) tw dw)"
| "with_corpus F M gs s = s"

fun with_weights :: "'f float_ops \<Rightarrow> 'f \<Rightarrow> 'f \<Rightarrow> 'f scorer \<Rightarrow> 'f scorer" where
  "with_weights F a b (TfIdf idf tw dw) =
     (let t = fl_add F a b in if fl_lt F (fl_int F 0) t then TfIdf idf (fl_div F a t) (fl_div F b t) else TfIdf idf tw dw)"
| "with_weights F a b s = s"

definition tfidf_score :: "'f float_ops \<Rightarrow> (string, 'f) hmap \<Rightarrow> string list \<Rightarrow> string list \<Rightarrow> 'f" where
  "tfidf_score F idf query doc =
     (if doc = [] then fl_int F 0
      else let max_tf = fl_int F (int (fold (\<lambda>t m. max m (count_list doc t)) doc 0));
               add = (\<lambda>t score. let tf = fl_int F (int (count_list doc t))
                  in if fl_lt F (fl_int F 0) tf
                     then fl_add F score (fl_mul F (fl_div F tf max_tf) (case hm_get idf t of Some x \<Rightarrow> x | None \<Rightarrow> fl_int F 1))
                     else score)
           in fl_div F (fold add query (fl_int F 0)) (fl_int F (int (length query))))"

definition tfidf_total :: "'f float_ops \<Rightarrow> 'f math_ops \<Rightarrow> (string, 'f) hmap \<Rightarrow> 'f \<Rightarrow> 'f \<Rightarrow> string \<Rightarrow> 'f evidence_node \<Rightarrow> 'f" where
  "tfidf_total F M idf tw dw query n =
     (if query = [] \<or> tokenize query = [] then fl_int F 0
      else let combined = fl_add F (fl_mul F (tfidf_score F idf (tokenize query) (tokenize (vn_title n))) tw)
                 (fl_mul F (tfidf_score F idf (tokenize query) (tokenize (vn_description n))) dw)
           in if fl_le F combined (fl_int F 0) then fl_int F 0
              else fl_div F (fl_int F 1) (fl_add F (fl_int F 1) (mt_exp M (fl_mul F (fl_sub F (fl_int F 0) combined) (fl_int F 3)))))"

definition recency_new :: "'f float_ops \<Rightarrow> 'f scorer" where
  "recency_new F = Recency (fl_int F 24) (fl_dec F 1 1) None"

fun with_half_life :: "'f float_ops \<Rightarrow> 'f \<Rightarrow> 'f scorer \<Rightarrow> 'f scorer" where
  "with_half_life F h (Recency _ d r) = Recency (fl_max F h (fl_dec F 1 1)) d r"
| "with_half_life F h s = s"

text \<open>Whole minutes of a difference of moments, towards zero.\<close>

definition whole_units :: "int \<Rightarrow> int \<Rightarrow> int" where
  "whole_units unit d = sgn d * (\<bar>d\<bar> div unit)"

definition recency_score :: "'f float_ops \<Rightarrow> 'f math_ops \<Rightarrow> int \<Rightarrow> 'f \<Rightarrow> 'f \<Rightarrow> int option \<Rightarrow> 'f evidence_node \<Rightarrow> 'f" where
  "recency_score F M now half d reference n = (case vn_timestamp n of
       None \<Rightarrow> d
     | Some t \<Rightarrow>
         (let here = (case reference of Some r \<Rightarrow> r | None \<Rightarrow> now);
              age = fl_div F (fl_int F (whole_units 60000000000 (here - t))) (fl_int F 60)
          in if fl_lt F age (fl_int F 0) then fl_int F 1
             else mt_pow M (fl_int F 2) (fl_div F (fl_sub F (fl_int F 0) age) half)))"

fun score :: "'f float_ops \<Rightarrow> 'f math_ops \<Rightarrow> int \<Rightarrow> string \<Rightarrow> 'f evidence_node \<Rightarrow> 'f scorer \<Rightarrow> 'f"
  and weighted_scores :: "'f float_ops \<Rightarrow> 'f math_ops \<Rightarrow> int \<Rightarrow> string \<Rightarrow> 'f evidence_node \<Rightarrow> ('f scorer \<times> 'f) list \<Rightarrow> 'f list" where
  "score F M now query n (TfIdf idf tw dw) = tfidf_total F M idf tw dw query n"
| "score F M now query n (Recency half d r) = recency_score F M now half d r n"
| "score F M now query n ConfidenceOf = vn_confidence n"
| "score F M now query n (Composite ss) =
     (if ss = [] then fl_int F 0
      else let total_weight = fl_sum F (map snd ss)
           in if fl_le F total_weight (fl_int F 0) \<and> fl_le F (fl_int F 0) total_weight then fl_int F 0
              else fl_clamp F (fl_int F 0) (fl_int F 1) (fl_div F (fl_sum F (weighted_scores F M now query n ss)) total_weight))"
| "weighted_scores F M now query n [] = []"
| "weighted_scores F M now query n ((s, w) # ss) = fl_mul F (score F M now query n s) w # weighted_scores F M now query n ss"

definition composite_add :: "'f scorer \<Rightarrow> 'f \<Rightarrow> ('f scorer \<times> 'f) list \<Rightarrow> ('f scorer \<times> 'f) list" where
  "composite_add s w ss = ss @ [(s, w)]"

definition default_scorers :: "'f float_ops \<Rightarrow> ('f scorer \<times> 'f) list" where
  "default_scorers F = [(tfidf_new F, fl_dec F 5 1), (recency_new F, fl_dec F 3 1), (ConfidenceOf, fl_dec F 2 1)]"

definition rank_nodes :: "'f float_ops \<Rightarrow> ('f evidence_node \<Rightarrow> 'f) \<Rightarrow> 'f evidence_node list \<Rightarrow> 'f evidence_node list" where
  "rank_nodes F sc ns = fl_sort (\<lambda>a b. fl_lt F (vn_relevance b) (vn_relevance a)) (map (\<lambda>n. n\<lparr>vn_relevance := sc n\<rparr>) ns)"

definition rank_graph_nodes :: "'f float_ops \<Rightarrow> ('f evidence_node \<Rightarrow> 'f) \<Rightarrow> 'f evidence_graph \<Rightarrow> 'f evidence_graph" where
  "rank_graph_nodes F sc g = g\<lparr>eg_nodes := rank_nodes F sc (eg_nodes g)\<rparr>"

section \<open>Similar texts\<close>

record 'f dedup_config =
  dd_title_threshold :: 'f
  dd_check_timestamp :: bool
  dd_tolerance_secs :: int
  dd_merge_tags :: bool
  dd_merge_edges :: bool
  dd_detect_conflicts :: bool
  dd_description_threshold :: 'f

definition dedup_default :: "'f float_ops \<Rightarrow> 'f dedup_config" where
  "dedup_default F = \<lparr>dd_title_threshold = fl_dec F 7 1, dd_check_timestamp = True, dd_tolerance_secs = 3600, dd_merge_tags = True,
     dd_merge_edges = True, dd_detect_conflicts = True, dd_description_threshold = fl_dec F 5 1\<rparr>"

definition jaccard :: "'f float_ops \<Rightarrow> 'a list \<Rightarrow> 'a list \<Rightarrow> 'f" where
  "jaccard F xs ys = (let u = length (remdups (xs @ ys)) in
     if u = 0 then fl_int F 0 else fl_div F (fl_int F (int (length (remdups (filter (\<lambda>x. x \<in> set ys) xs))))) (fl_int F (int u)))"

definition bigrams :: "string \<Rightarrow> (char \<times> char) list" where
  "bigrams s = zip s (tl s)"

definition title_similarity :: "'f float_ops \<Rightarrow> string \<Rightarrow> string \<Rightarrow> 'f" where
  "title_similarity F a b = (let x = to_lower a; y = to_lower b in
     if x = y then fl_int F 1
     else if bigrams x = [] \<and> bigrams y = [] then jaccard F x y else jaccard F (bigrams x) (bigrams y))"

definition description_similarity :: "'f float_ops \<Rightarrow> string \<Rightarrow> string \<Rightarrow> 'f" where
  "description_similarity F a b = title_similarity F a b"

definition is_duplicate :: "'f float_ops \<Rightarrow> 'f dedup_config \<Rightarrow> 'f evidence_node \<Rightarrow> string \<Rightarrow> int option \<Rightarrow> bool" where
  "is_duplicate F c n title t =
     (if fl_lt F (title_similarity F (vn_title n) title) (dd_title_threshold c) then False
      else if dd_check_timestamp c
        then (case (vn_timestamp n, t) of (Some a, Some b) \<Rightarrow> \<not> \<bar>whole_units 1000000000 (a - b)\<bar> > dd_tolerance_secs c | _ \<Rightarrow> True)
      else True)"

section \<open>Merging\<close>

record 'f workflow_output =
  wo_workflow_name :: string
  wo_weight :: 'f
  wo_graph :: "'f evidence_graph"

datatype conflict_type = FactConflict | TemporalConflict | StateConflict

fun conflict_type_str :: "conflict_type \<Rightarrow> string" where
  "conflict_type_str FactConflict = ''fact_conflict''"
| "conflict_type_str TemporalConflict = ''temporal_conflict''"
| "conflict_type_str StateConflict = ''state_conflict''"

record 'f merge_conflict =
  cf_type :: conflict_type
  cf_description :: string
  cf_node_ids :: "string list"
  cf_node_titles :: "string list"
  cf_workflows :: "string list"
  cf_severity :: 'f

record merged_entry =
  me_id :: ls_id
  me_title :: string
  me_timestamp :: "int option"
  me_description :: string
  me_workflow :: string

record merge_stats =
  mg_total_workflows :: nat
  mg_nodes_added :: nat
  mg_nodes_deduped :: nat
  mg_edges_added :: nat
  mg_edges_deduped :: nat
  mg_conflicts_detected :: nat
  mg_total_time_ms :: nat

definition stats_zero :: merge_stats where
  "stats_zero = \<lparr>mg_total_workflows = 0, mg_nodes_added = 0, mg_nodes_deduped = 0, mg_edges_added = 0, mg_edges_deduped = 0,
     mg_conflicts_detected = 0, mg_total_time_ms = 0\<rparr>"

record 'f merge_state =
  mx_graph :: "'f evidence_graph"
  mx_entries :: "merged_entry list"
  mx_weights :: "(ls_id, 'f \<times> 'f) hmap"
  mx_sources :: "(ls_id, string list) hmap"
  mx_conflicts :: "'f merge_conflict list"
  mx_stats :: merge_stats

record 'f merge_result =
  mr_graph :: "'f evidence_graph"
  mr_stats :: merge_stats
  mr_conflicts :: "'f merge_conflict list"
  mr_source_map :: "(string, string list) hmap"

definition sources_push :: "ls_id \<Rightarrow> string \<Rightarrow> (ls_id, string list) hmap \<Rightarrow> (ls_id, string list) hmap" where
  "sources_push i w m = hm_insert i ((case hm_get m i of Some ws \<Rightarrow> ws | None \<Rightarrow> []) @ [w]) m"

definition find_duplicate :: "'f float_ops \<Rightarrow> 'f dedup_config \<Rightarrow> 'f evidence_node \<Rightarrow> merged_entry list \<Rightarrow> merged_entry option" where
  "find_duplicate F c n es = (if fl_lt F (fl_int F 0) (dd_title_threshold c)
     then find (\<lambda>m. is_duplicate F c n (me_title m) (me_timestamp m)) es else None)"

text \<open>Two descriptions of one event that differ.\<close>

definition fact_conflict :: "'f float_ops \<Rightarrow> string \<Rightarrow> 'f evidence_node \<Rightarrow> merged_entry \<Rightarrow> 'f merge_conflict" where
  "fact_conflict F flow n m = \<lparr>cf_type = FactConflict,
     cf_description = utf8 [229, 144, 140, 228, 184, 128, 228, 186, 139, 228, 187, 182, 32, 39] @ me_title m
       @ utf8 [39, 32, 229, 156, 168, 228, 184, 141, 229, 144, 140, 32, 119, 111, 114, 107, 102, 108, 111, 119, 32, 228, 184, 173, 229, 173, 152, 229, 156, 168, 230, 143, 143, 232, 191, 176, 231, 159, 155, 231, 155, 190, 58, 32, 39]
       @ me_description m @ utf8 [39, 32, 118, 115, 32, 39] @ vn_description n @ [CHR 0x27],
     cf_node_ids = [show_id (me_id m), show_id (vn_id n)], cf_node_titles = [me_title m, vn_title n],
     cf_workflows = sort (remdups [flow, me_workflow m]), cf_severity = fl_dec F 6 1\<rparr>"

definition merge_duplicate :: "'f float_ops \<Rightarrow> 'f dedup_config \<Rightarrow> string \<Rightarrow> 'f \<Rightarrow> 'f evidence_node \<Rightarrow> merged_entry \<Rightarrow> 'f merge_state \<Rightarrow> 'f merge_state" where
  "merge_duplicate F c flow w n m s =
     (let (a, b) = (case hm_get (mx_weights s) (me_id m) of Some x \<Rightarrow> x | None \<Rightarrow> (fl_int F 0, fl_int F 0))
      in s\<lparr>mx_weights := hm_insert (me_id m) (fl_add F a (fl_mul F (vn_confidence n) w), fl_add F b w) (mx_weights s),
           mx_sources := sources_push (me_id m) flow (mx_sources s),
           mx_stats := (mx_stats s)\<lparr>mg_nodes_deduped := mg_nodes_deduped (mx_stats s) + 1\<rparr>,
           mx_conflicts := (if dd_detect_conflicts c
               \<and> fl_lt F (description_similarity F (vn_description n) (me_description m)) (dd_description_threshold c)
             then mx_conflicts s @ [fact_conflict F flow n m] else mx_conflicts s)\<rparr>)"

definition merge_fresh :: "'f float_ops \<Rightarrow> string \<Rightarrow> 'f \<Rightarrow> 'f evidence_node \<Rightarrow> 'f merge_state \<Rightarrow> 'f merge_state" where
  "merge_fresh F flow w n s = s\<lparr>
     mx_entries := mx_entries s @ [\<lparr>me_id = vn_id n, me_title = vn_title n, me_timestamp = vn_timestamp n, me_description = vn_description n, me_workflow = flow\<rparr>],
     mx_graph := evidence_add_node n (mx_graph s),
     mx_weights := hm_insert (vn_id n) (fl_mul F (vn_confidence n) w, w) (mx_weights s),
     mx_sources := sources_push (vn_id n) flow (mx_sources s),
     mx_stats := (mx_stats s)\<lparr>mg_nodes_added := mg_nodes_added (mx_stats s) + 1\<rparr>\<rparr>"

definition merge_node :: "'f float_ops \<Rightarrow> 'f dedup_config \<Rightarrow> string \<Rightarrow> 'f \<Rightarrow> 'f evidence_node \<Rightarrow> 'f merge_state \<Rightarrow> 'f merge_state" where
  "merge_node F c flow w n s = (case find_duplicate F c n (mx_entries s) of
       Some m \<Rightarrow> merge_duplicate F c flow w n m s
     | None \<Rightarrow> merge_fresh F flow w n s)"

definition merge_output :: "'f float_ops \<Rightarrow> 'f dedup_config \<Rightarrow> 'f workflow_output \<Rightarrow> 'f merge_state \<Rightarrow> 'f merge_state" where
  "merge_output F c out s = fold (merge_node F c (wo_workflow_name out) (wo_weight out)) (eg_nodes (wo_graph out)) s"

definition average_confidence :: "'f float_ops \<Rightarrow> (ls_id, 'f \<times> 'f) hmap \<Rightarrow> 'f evidence_node \<Rightarrow> 'f evidence_node" where
  "average_confidence F ws n = (case hm_get ws (vn_id n) of
       None \<Rightarrow> n
     | Some (a, b) \<Rightarrow> if fl_lt F (fl_int F 0) b then n\<lparr>vn_confidence := fl_clamp F (fl_int F 0) (fl_int F 1) (fl_div F a b)\<rparr> else n)"

definition merge_edge :: "'f evidence_edge \<Rightarrow> 'f evidence_graph \<times> merge_stats \<Rightarrow> 'f evidence_graph \<times> merge_stats" where
  "merge_edge e = (\<lambda>(g, st).
     if vd_id e \<in> vd_id ` set (eg_edges g) then (g, st\<lparr>mg_edges_deduped := mg_edges_deduped st + 1\<rparr>)
     else if vd_source_id e \<in> vn_id ` set (eg_nodes g) \<and> vd_target_id e \<in> vn_id ` set (eg_nodes g)
       then (evidence_add_edge e g, st\<lparr>mg_edges_added := mg_edges_added st + 1\<rparr>)
     else (g, st))"

definition temporal_conflict :: "'f float_ops \<Rightarrow> (int \<Rightarrow> string) \<Rightarrow> 'f evidence_node \<Rightarrow> int \<Rightarrow> 'f evidence_node \<Rightarrow> int \<Rightarrow> 'f merge_conflict" where
  "temporal_conflict F stamp a ta b tb = \<lparr>cf_type = TemporalConflict,
     cf_description = utf8 [230, 151, 182, 233, 151, 180, 233, 161, 186, 229, 186, 143, 231, 159, 155, 231, 155, 190, 239, 188, 154, 39]
       @ vn_title a @ utf8 [39, 32, 40] @ stamp ta @ utf8 [41, 32, 230, 160, 135, 232, 174, 176, 228, 184, 186, 230, 151, 169, 228, 186, 142, 32, 39]
       @ vn_title b @ utf8 [39, 32, 40] @ stamp tb
       @ utf8 [41, 44, 32, 228, 189, 134, 230, 151, 182, 233, 151, 180, 230, 136, 179, 230, 152, 190, 231, 164, 186, 231, 155, 184, 229, 143, 141],
     cf_node_ids = [show_id (vn_id a), show_id (vn_id b)], cf_node_titles = [vn_title a, vn_title b], cf_workflows = [''merged''],
     cf_severity = fl_dec F 7 1\<rparr>"

definition edge_conflict :: "'f float_ops \<Rightarrow> (int \<Rightarrow> string) \<Rightarrow> 'f evidence_graph \<Rightarrow> 'f evidence_edge \<Rightarrow> 'f merge_conflict option" where
  "edge_conflict F stamp g e = (if vd_kind e \<noteq> TemporalEdge then None
     else case (find (\<lambda>n. vn_id n = vd_source_id e) (eg_nodes g), find (\<lambda>n. vn_id n = vd_target_id e) (eg_nodes g)) of
         (Some a, Some b) \<Rightarrow> (case (vn_timestamp a, vn_timestamp b) of
             (Some ta, Some tb) \<Rightarrow> if ta > tb then Some (temporal_conflict F stamp a ta b tb) else None
           | _ \<Rightarrow> None)
       | _ \<Rightarrow> None)"

definition detect_temporal_conflicts :: "'f float_ops \<Rightarrow> (int \<Rightarrow> string) \<Rightarrow> 'f evidence_graph \<Rightarrow> 'f merge_conflict list" where
  "detect_temporal_conflicts F stamp g = List.map_filter (edge_conflict F stamp g) (eg_edges g)"

definition span_bound :: "(int \<Rightarrow> int \<Rightarrow> int) \<Rightarrow> int option list \<Rightarrow> int option" where
  "span_bound f xs = (case List.map_filter id xs of [] \<Rightarrow> None | t # ts \<Rightarrow> Some (fold f ts t))"

definition conflict_attributes :: "('f merge_conflict list \<Rightarrow> string option) \<Rightarrow> 'f merge_conflict list \<Rightarrow> (string, string) hmap" where
  "conflict_attributes json cs = (if cs = [] then []
     else hm_insert ''has_conflicts'' ''true'' (case json cs of Some t \<Rightarrow> [(''merge_conflicts'', t)] | None \<Rightarrow> []))"

text \<open>The merge: nodes by falling weight, confidence, edges, conflicts, the metadata, and the ranking if a scorer is set.\<close>

definition merged_nodes :: "'f float_ops \<Rightarrow> 'f dedup_config \<Rightarrow> int \<Rightarrow> 'f workflow_output list \<Rightarrow> 'f merge_state" where
  "merged_nodes F c now outs =
     (let g = evidence_empty now (case outs of [] \<Rightarrow> [] | o1 # _ \<Rightarrow> gm_query (eg_metadata (wo_graph o1)))
      in fold (merge_output F c) outs
           \<lparr>mx_graph = g\<lparr>eg_metadata := (eg_metadata g)\<lparr>gm_source := ''weighted_merge''\<rparr>\<rparr>, mx_entries = [], mx_weights = [], mx_sources = [],
            mx_conflicts = [], mx_stats = stats_zero\<lparr>mg_total_workflows := length outs\<rparr>\<rparr>)"

definition merged_graph :: "'f float_ops \<Rightarrow> 'f dedup_config \<Rightarrow> int \<Rightarrow> 'f workflow_output list \<Rightarrow> 'f evidence_graph \<times> merge_stats" where
  "merged_graph F c now outs =
     (let s = merged_nodes F c now outs; g = (mx_graph s)\<lparr>eg_nodes := map (average_confidence F (mx_weights s)) (eg_nodes (mx_graph s))\<rparr>
      in fold merge_edge (concat (map (\<lambda>out. eg_edges (wo_graph out)) outs)) (g, mx_stats s))"

definition weighted_merge ::
  "'f float_ops \<Rightarrow> (int \<Rightarrow> string) \<Rightarrow> ('f merge_conflict list \<Rightarrow> string option) \<Rightarrow> (string list \<Rightarrow> string list) \<Rightarrow> 'f dedup_config
     \<Rightarrow> ('f evidence_node \<Rightarrow> 'f) option \<Rightarrow> int \<Rightarrow> nat \<Rightarrow> nat \<Rightarrow> 'f workflow_output list \<Rightarrow> 'f merge_result" where
  "weighted_merge F stamp json order c ranking now ms ms' outputs =
     (if outputs = [] then \<lparr>mr_graph = evidence_empty now ''merged'', mr_stats = stats_zero, mr_conflicts = [], mr_source_map = []\<rparr>
      else let outs = fl_sort (\<lambda>a b. fl_lt F (wo_weight b) (wo_weight a)) outputs;
               s = merged_nodes F c now outs;
               (g, st) = merged_graph F c now outs;
               conflicts = mx_conflicts s @ (if dd_detect_conflicts c then detect_temporal_conflicts F stamp g else []);
               meta = (eg_metadata g)\<lparr>gm_node_count := length (eg_nodes g), gm_edge_count := length (eg_edges g), gm_build_time_ms := ms,
                  gm_attributes := conflict_attributes json conflicts,
                  gm_entities := order (remdups (concat (map (\<lambda>out. gm_entities (eg_metadata (wo_graph out))) outs))),
                  gm_time_span_start := span_bound min (map (\<lambda>out. gm_time_span_start (eg_metadata (wo_graph out))) outs),
                  gm_time_span_end := span_bound max (map (\<lambda>out. gm_time_span_end (eg_metadata (wo_graph out))) outs)\<rparr>;
               g' = g\<lparr>eg_metadata := meta\<rparr>
           in \<lparr>mr_graph = (case ranking of Some sc \<Rightarrow> rank_graph_nodes F sc g' | None \<Rightarrow> g'),
               mr_stats = st\<lparr>mg_conflicts_detected := length conflicts, mg_total_time_ms := ms'\<rparr>,
               mr_conflicts = conflicts, mr_source_map = map (\<lambda>(i, ws). (show_id i, ws)) (mx_sources s)\<rparr>)"

section \<open>Nothing is lost but what is said\<close>

lemma mset_fl_sort: "mset (fl_sort before xs) = mset xs"
proof -
  have "mset (fl_insert before x ys) = add_mset x (mset ys)" for x ys by (induction ys) auto
  then show ?thesis by (induction xs) (simp_all add: fl_sort_def)
qed

lemma fold_nodes_edge [simp]: "eg_nodes (fst (fold merge_edge es (g, st))) = eg_nodes g"
proof (induction es arbitrary: g st)
  case (Cons e es)
  obtain g' st' where e: "merge_edge e (g, st) = (g', st')" by fastforce
  then have "eg_nodes g' = eg_nodes g" by (auto simp: merge_edge_def evidence_add_edge_def split: if_splits)
  with Cons.IH [of g' st'] e show ?case by simp
qed simp

definition entry_key :: "merged_entry \<Rightarrow> ls_id \<times> string \<times> int option" where
  "entry_key m = (me_id m, me_title m, me_timestamp m)"

definition node_key :: "'f evidence_node \<Rightarrow> ls_id \<times> string \<times> int option" where
  "node_key n = (vn_id n, vn_title n, vn_timestamp n)"

definition covered :: "'f float_ops \<Rightarrow> 'f dedup_config \<Rightarrow> 'f evidence_node list \<Rightarrow> 'f evidence_node \<Rightarrow> bool" where
  "covered F c ms n \<longleftrightarrow> (\<exists>m \<in> set ms. vn_id m = vn_id n \<or> is_duplicate F c n (vn_title m) (vn_timestamp m))"

definition nodes_inv :: "'f float_ops \<Rightarrow> 'f dedup_config \<Rightarrow> 'f evidence_node list \<Rightarrow> 'f merge_state \<Rightarrow> bool" where
  "nodes_inv F c seen s \<longleftrightarrow> eg_edges (mx_graph s) = [] \<and> map entry_key (mx_entries s) = map node_key (eg_nodes (mx_graph s))
     \<and> mg_nodes_added (mx_stats s) = length (eg_nodes (mx_graph s))
     \<and> mg_nodes_added (mx_stats s) + mg_nodes_deduped (mx_stats s) = length seen
     \<and> (\<forall>n \<in> set seen. covered F c (eg_nodes (mx_graph s)) n)"

lemma nodes_inv_node:
  assumes "nodes_inv F c seen s"
  shows "nodes_inv F c (seen @ [n]) (merge_node F c flow w n s)"
proof (cases "find_duplicate F c n (mx_entries s)")
  case None
  have "covered F c (eg_nodes (mx_graph s) @ [n]) x" if "covered F c (eg_nodes (mx_graph s)) x \<or> x = n" for x
    using that by (auto simp: covered_def)
  with assms None show ?thesis
    by (auto simp: nodes_inv_def merge_node_def merge_fresh_def evidence_add_node_def entry_key_def node_key_def)
next
  case (Some m)
  then have m: "m \<in> set (mx_entries s)" "is_duplicate F c n (me_title m) (me_timestamp m)"
    by (auto simp: find_duplicate_def split: if_splits dest!: find_mem)
  then have "entry_key m \<in> set (map node_key (eg_nodes (mx_graph s)))" using assms by (metis nodes_inv_def imageI set_map)
  then obtain k where "k \<in> set (eg_nodes (mx_graph s))" "vn_title k = me_title m" "vn_timestamp k = me_timestamp m"
    by (auto simp: entry_key_def node_key_def)
  with m(2) have "covered F c (eg_nodes (mx_graph s)) n" by (auto simp: covered_def intro!: bexI [of _ k])
  with assms Some show ?thesis
    by (auto simp: nodes_inv_def merge_node_def merge_duplicate_def split: prod.split)
qed

lemma nodes_inv_nodes: "nodes_inv F c seen s \<Longrightarrow> nodes_inv F c (seen @ ns) (fold (merge_node F c flow w) ns s)"
proof (induction ns arbitrary: seen s)
  case (Cons n ns)
  from Cons.IH [OF nodes_inv_node [OF Cons.prems]] show ?case by simp
qed simp

lemma nodes_inv_outputs:
  "nodes_inv F c seen s \<Longrightarrow> nodes_inv F c (seen @ concat (map (\<lambda>out. eg_nodes (wo_graph out)) outs)) (fold (merge_output F c) outs s)"
proof (induction outs arbitrary: seen s)
  case (Cons out outs)
  have "nodes_inv F c (seen @ eg_nodes (wo_graph out)) (merge_output F c out s)"
    unfolding merge_output_def by (rule nodes_inv_nodes) (rule Cons.prems)
  from Cons.IH [OF this] show ?case by simp
qed simp

lemma nodes_inv_merged: "nodes_inv F c (concat (map (\<lambda>out. eg_nodes (wo_graph out)) outs)) (merged_nodes F c now outs)"
proof -
  let ?g = "evidence_empty now (case outs of [] \<Rightarrow> [] | o1 # _ \<Rightarrow> gm_query (eg_metadata (wo_graph o1))) :: 'a evidence_graph"
  have "nodes_inv F c [] \<lparr>mx_graph = ?g\<lparr>eg_metadata := (eg_metadata ?g)\<lparr>gm_source := ''weighted_merge''\<rparr>\<rparr>, mx_entries = [], mx_weights = [],
      mx_sources = [], mx_conflicts = [], mx_stats = stats_zero\<lparr>mg_total_workflows := length outs\<rparr>\<rparr>"
    by (simp add: nodes_inv_def evidence_empty_def stats_zero_def)
  from nodes_inv_outputs [OF this, of outs] show ?thesis by (simp add: merged_nodes_def Let_def)
qed

definition edges_inv :: "'f evidence_edge list \<Rightarrow> 'f evidence_graph \<Rightarrow> bool" where
  "edges_inv seen g \<longleftrightarrow> edges_closed g \<and> distinct (map vd_id (eg_edges g)) \<and> set (eg_edges g) \<subseteq> set seen
     \<and> (\<forall>e \<in> set seen. vd_source_id e \<in> vn_id ` set (eg_nodes g) \<longrightarrow> vd_target_id e \<in> vn_id ` set (eg_nodes g)
          \<longrightarrow> vd_id e \<in> vd_id ` set (eg_edges g))"

lemma edges_inv_edge: "edges_inv seen g \<Longrightarrow> edges_inv (seen @ [e]) (fst (merge_edge e (g, st)))"
  by (auto simp: edges_inv_def edges_closed_def merge_edge_def evidence_add_edge_def)

lemma edges_inv_edges: "edges_inv seen g \<Longrightarrow> edges_inv (seen @ es) (fst (fold merge_edge es (g, st)))"
proof (induction es arbitrary: seen g st)
  case (Cons e es)
  obtain g' st' where e: "merge_edge e (g, st) = (g', st')" by fastforce
  with edges_inv_edge [OF Cons.prems, of e st] have "edges_inv (seen @ [e]) g'" by simp
  from Cons.IH [OF this, of st'] e show ?case by simp
qed simp

lemma stats_edges_both:
  "mg_nodes_added (snd (fold merge_edge es (g, st))) = mg_nodes_added st \<and> mg_nodes_deduped (snd (fold merge_edge es (g, st))) = mg_nodes_deduped st"
proof (induction es arbitrary: g st)
  case (Cons e es)
  obtain g' st' where e: "merge_edge e (g, st) = (g', st')" by fastforce
  then have "mg_nodes_added st' = mg_nodes_added st" "mg_nodes_deduped st' = mg_nodes_deduped st"
    by (auto simp: merge_edge_def split: if_splits)
  with Cons.IH [of g' st'] e show ?case by simp
qed simp

lemmas stats_edges [simp] = stats_edges_both [THEN conjunct1] stats_edges_both [THEN conjunct2]

lemma average_key [simp]: "vn_id (average_confidence F ws n) = vn_id n" "vn_title (average_confidence F ws n) = vn_title n"
  "vn_timestamp (average_confidence F ws n) = vn_timestamp n"
  by (simp_all add: average_confidence_def split: option.split prod.split)

lemma covered_image: "(\<And>n. vn_id (f n) = vn_id n \<and> vn_title (f n) = vn_title n \<and> vn_timestamp (f n) = vn_timestamp n)
    \<Longrightarrow> covered F c (map f ms) n = covered F c ms n"
  by (simp add: covered_def)

lemma covered_set: "set ms = set ms' \<Longrightarrow> covered F c ms n = covered F c ms' n"
  by (simp add: covered_def)

lemma merged_graph_sound:
  assumes "merged_graph F c now outs = (g, st)"
  shows "mg_nodes_added st + mg_nodes_deduped st = length (concat (map (\<lambda>out. eg_nodes (wo_graph out)) outs))"
    "length (eg_nodes g) = mg_nodes_added st"
    "\<forall>n \<in> set (concat (map (\<lambda>out. eg_nodes (wo_graph out)) outs)). covered F c (eg_nodes g) n"
    "edges_inv (concat (map (\<lambda>out. eg_edges (wo_graph out)) outs)) g"
proof -
  let ?s = "merged_nodes F c now outs" and ?es = "concat (map (\<lambda>out. eg_edges (wo_graph out)) outs)"
  let ?g = "(mx_graph ?s)\<lparr>eg_nodes := map (average_confidence F (mx_weights ?s)) (eg_nodes (mx_graph ?s))\<rparr>"
  note inv = nodes_inv_merged [of F c outs now]
  have g: "g = fst (fold merge_edge ?es (?g, mx_stats ?s))" and st: "st = snd (fold merge_edge ?es (?g, mx_stats ?s))"
    using assms by (simp_all add: merged_graph_def Let_def)
  have nodes: "eg_nodes g = map (average_confidence F (mx_weights ?s)) (eg_nodes (mx_graph ?s))" by (simp add: g)
  have "mg_nodes_added st = mg_nodes_added (mx_stats ?s)" "mg_nodes_deduped st = mg_nodes_deduped (mx_stats ?s)" by (simp_all add: st)
  moreover have "mg_nodes_added (mx_stats ?s) = length (eg_nodes (mx_graph ?s))"
    "mg_nodes_added (mx_stats ?s) + mg_nodes_deduped (mx_stats ?s) = length (concat (map (\<lambda>out. eg_nodes (wo_graph out)) outs))"
    using inv unfolding nodes_inv_def by blast+
  ultimately show "mg_nodes_added st + mg_nodes_deduped st = length (concat (map (\<lambda>out. eg_nodes (wo_graph out)) outs))"
    and "length (eg_nodes g) = mg_nodes_added st" by (simp_all only: nodes length_map)
  show "\<forall>n \<in> set (concat (map (\<lambda>out. eg_nodes (wo_graph out)) outs)). covered F c (eg_nodes g) n"
    using inv unfolding nodes by (subst covered_image) (simp_all add: nodes_inv_def)
  have "edges_inv [] ?g" using inv by (simp add: edges_inv_def edges_closed_def nodes_inv_def)
  from edges_inv_edges [OF this, of ?es "mx_stats ?s"] show "edges_inv ?es g" by (simp add: g)
qed

lemma rank_nodes_set:
  "length (rank_nodes F sc ns) = length ns" "vn_id ` set (rank_nodes F sc ns) = vn_id ` set ns" "covered F c (rank_nodes F sc ns) n = covered F c ns n"
proof -
  let ?f = "\<lambda>n. n\<lparr>vn_relevance := sc n\<rparr>"
  show "length (rank_nodes F sc ns) = length ns" by (simp add: rank_nodes_def)
  show "vn_id ` set (rank_nodes F sc ns) = vn_id ` set ns" by (simp add: rank_nodes_def image_image)
  have "covered F c (rank_nodes F sc ns) n = covered F c (map ?f ns) n" by (rule covered_set) (simp add: rank_nodes_def)
  then show "covered F c (rank_nodes F sc ns) n = covered F c ns n" by (simp add: covered_image)
qed


text \<open>Two workflows that know the same fact under different identifiers. The edge of the second one starts at its own node of the fact,
  which is left out as a duplicate; the edge is not moved to the node that was kept, but dropped.\<close>

definition sample_outputs :: "rat workflow_output list" where
  "sample_outputs =
     [\<lparr>wo_workflow_name = ''v'', wo_weight = 2, wo_graph = (evidence_empty 0 ''q'')\<lparr>eg_nodes := [fact_node rat_ops 1 ''a'' []]\<rparr>\<rparr>,
      \<lparr>wo_workflow_name = ''w'', wo_weight = 1, wo_graph = (evidence_empty 0 ''q'')\<lparr>eg_nodes := [fact_node rat_ops 2 ''a'' [], fact_node rat_ops 3 ''zz'' []],
        eg_edges := [evidence_edge_new rat_ops 10 RelatedEdge 2 3 ''r'']\<rparr>\<rparr>]"

definition sample_merge :: "rat merge_result" where
  "sample_merge = weighted_merge rat_ops (\<lambda>t. []) (\<lambda>cs. None) id (dedup_default rat_ops) None 0 0 0 sample_outputs"

lemma sample_same: "to_lower ''a'' = ''a''" "to_lower ''zz'' = ''zz''"
  by (simp_all add: to_lower_def lower_char_def Let_def)

lemma sample_duplicate: "is_duplicate rat_ops (dedup_default rat_ops) (fact_node rat_ops 2 ''a'' []) ''a'' None"
  by (simp add: is_duplicate_def title_similarity_def dedup_default_def fact_node_def evidence_node_new_def)

lemma sample_different: "\<not> is_duplicate rat_ops (dedup_default rat_ops) (fact_node rat_ops 3 ''zz'' []) ''a'' None"
  by (simp add: is_duplicate_def title_similarity_def dedup_default_def fact_node_def evidence_node_new_def Let_def bigrams_def jaccard_def sample_same)

lemma sample_merged:
  "map vn_id (eg_nodes (mr_graph sample_merge)) = [1, 3]" "eg_edges (mr_graph sample_merge) = []" "mr_conflicts sample_merge = []"
proof -
  let ?c = "dedup_default rat_ops" and ?n1 = "fact_node rat_ops 1 ''a'' []" and ?n2 = "fact_node rat_ops 2 ''a'' []" and ?n3 = "fact_node rat_ops 3 ''zz'' []"
  have c: "dd_title_threshold ?c = 7 / 10" "dd_detect_conflicts ?c" "dd_description_threshold ?c = 5 / 10" by (simp_all add: dedup_default_def)
  have f: "vn_id (fact_node rat_ops i t d) = i" "vn_title (fact_node rat_ops i t d) = t" "vn_description (fact_node rat_ops i t d) = d"
    "vn_timestamp (fact_node rat_ops i t d) = None" for i t d by (simp_all add: fact_node_def evidence_node_new_def)
  have same: "description_similarity rat_ops [] [] = 1" by (simp add: description_similarity_def title_similarity_def)
  have outs: "fl_sort (\<lambda>a b. wo_weight b < wo_weight a) sample_outputs = sample_outputs"
    by (simp add: fl_sort_def sample_outputs_def)
  have nodes: "map vn_id (eg_nodes (mx_graph (merged_nodes rat_ops ?c 0 sample_outputs))) = [1, 3]"
    "eg_edges (mx_graph (merged_nodes rat_ops ?c 0 sample_outputs)) = []" "mx_conflicts (merged_nodes rat_ops ?c 0 sample_outputs) = []"
    using sample_duplicate sample_different
    by (simp_all add: merged_nodes_def sample_outputs_def merge_output_def merge_node_def find_duplicate_def merge_fresh_def merge_duplicate_def
        evidence_add_node_def evidence_empty_def c f same split_beta)
  have ids: "vn_id ` set (eg_nodes (mx_graph (merged_nodes rat_ops ?c 0 sample_outputs))) = {1, 3}"
    using arg_cong [OF nodes(1), of set] by simp
  have edges: "concat (map (\<lambda>out. eg_edges (wo_graph out)) sample_outputs) = [evidence_edge_new rat_ops 10 RelatedEdge 2 3 ''r'']"
    by (simp add: sample_outputs_def evidence_empty_def)
  have mg: "map vn_id (eg_nodes (fst (merged_graph rat_ops ?c 0 sample_outputs))) = [1, 3]" "eg_edges (fst (merged_graph rat_ops ?c 0 sample_outputs)) = []"
    using nodes ids by (simp_all add: merged_graph_def Let_def edges merge_edge_def evidence_edge_new_def image_image comp_def)
  have ne: "sample_outputs \<noteq> []" by (simp add: sample_outputs_def)
  show "map vn_id (eg_nodes (mr_graph sample_merge)) = [1, 3]" "eg_edges (mr_graph sample_merge) = []" "mr_conflicts sample_merge = []"
    using mg nodes(3) by (simp_all add: sample_merge_def weighted_merge_def ne outs Let_def split_beta detect_temporal_conflicts_def map_filter_simps)
qed

lemma edge_of_duplicate_lost:
  "\<exists>out \<in> set sample_outputs. \<exists>e \<in> set (eg_edges (wo_graph out)). vd_id e \<notin> vd_id ` set (eg_edges (mr_graph sample_merge))"
  by (simp add: sample_merged sample_outputs_def evidence_empty_def)


text \<open>The settings for tags and edges change nothing.\<close>

lemma merge_settings_ignored:
  "weighted_merge F stamp json order (c\<lparr>dd_merge_tags := x, dd_merge_edges := y\<rparr>) ranking now ms ms' outs
    = weighted_merge F stamp json order c ranking now ms ms' outs"
proof -
  let ?c = "c\<lparr>dd_merge_tags := x, dd_merge_edges := y\<rparr>"
  have "is_duplicate F ?c = is_duplicate F c" by (intro ext) (simp add: is_duplicate_def cong: prod.case_cong option.case_cong)
  then have "find_duplicate F ?c = find_duplicate F c" by (intro ext) (simp add: find_duplicate_def)
  moreover have "merge_duplicate F ?c = merge_duplicate F c" by (intro ext) (simp add: merge_duplicate_def)
  ultimately have "merge_node F ?c = merge_node F c" by (intro ext) (simp add: merge_node_def split: option.split)
  then have "merge_output F ?c = merge_output F c" by (intro ext) (simp add: merge_output_def)
  then have "merged_nodes F ?c = merged_nodes F c" by (intro ext) (simp add: merged_nodes_def)
  then show ?thesis by (simp add: weighted_merge_def merged_graph_def)
qed

text \<open>A score that combines others lies between 0 and 1, unless it is not a number.\<close>

lemma composite_bounds:
  assumes "float_laws F" "\<not> fl_lt F (fl_int F 1) (fl_int F 0)"
  shows "\<not> fl_lt F (score F M now q n (Composite ss)) (fl_int F 0) \<and> \<not> fl_lt F (fl_int F 1) (score F M now q n (Composite ss))"
proof -
  have irr: "\<not> fl_lt F x x" for x using fl_lt_iff [OF assms(1)] by blast
  have clamp: "\<not> fl_lt F (fl_clamp F (fl_int F 0) (fl_int F 1) x) (fl_int F 0) \<and> \<not> fl_lt F (fl_int F 1) (fl_clamp F (fl_int F 0) (fl_int F 1) x)" for x
    using assms(2) irr by (simp add: fl_clamp_def)
  then show ?thesis using assms(2) irr by (simp add: Let_def)
qed

end
