(* ===== verification/Spec2Isabelle.thy ===== *)
theory Spec2Isabelle
  imports Dag_Props Breaker_Props Dist_Store Dist_Cache Dist_Queue Cluster Tenant Billing Gossip_Net Fed_State Sched_Props
    Agent_Pool Cron_Props Tool_Props Orch_Props Plugin_Market
    Agent_Runtime Recovery Multi_Agent Dist_Scheduler Rate_Limit Response_Cache
    Swarm_Locks Prompts Api_Keys Know_Memory Audit_Log Llm_Router Evidence_Merge Service_Auth
begin

text \<open>
  LingShu: the core of a distributed agent runtime in Rust, a workspace of about fifty crates.

  Parts and how they interact.  A request enters with a context (\<open>core\<close>), runs as a job of the task
  scheduler (\<open>runtime\<close>) or as a workflow, a graph of nodes with dependencies (\<open>backends/src/workflow\<close>).
  Calls to outside services pass a circuit breaker (\<open>circuit-breaker\<close>).  The nodes of one cluster
  share a store, a cache, queues and a leader (\<open>distributed\<close>); clusters form a federation, which
  exchanges its members by gossip, opens links between clusters and replicates state over them
  (\<open>federation\<close>).  An orchestrator delegates requests to registered agents by capability and
  rolls messages between them (\<open>orchestrator\<close>), a pool keeps idle agents for reuse and a scheduler
  triggers work by cron expressions (\<open>runtime\<close>); agents call tools through a registry that checks the
  caller's permission (\<open>tool\<close>).  Plugins bring tools with them, are loaded from libraries, reloaded
  when their files change and installed from a market; what happens to them and to agents is published
  to callbacks (\<open>plugin\<close>), and other events to subscribers by topic (\<open>eventbus\<close>).  A runtime
  holds the registries, the pool, the sessions and its life cycle, watches its components for faults and
  lets agents in different roles work on a goal in rounds (\<open>runtime\<close>).  A swarm gives a task to the agents its
  strategy selects, judges the results and learns from them (\<open>swarm\<close>), and a distributed scheduler places tasks on
  the nodes of a cluster (\<open>distributed\<close>).  Every caller belongs to an organisation (\<open>tenant\<close>) and its calls of language
  models are counted, priced and limited (\<open>billing\<close>), requests are limited in rate (\<open>ratelimit\<close>) and responses
  are cached (\<open>cache\<close>).  Callers hold keys (\<open>security\<close>), and the texts sent to the models come from templates in
  versions (\<open>prompt\<close>); a router picks the model (\<open>llm-router\<close>).  What agents learn is kept as graphs
  (\<open>knowledge-graph\<close>, \<open>crates/evidence-graph\<close>), and what they do is logged (\<open>audit\<close>).

  Theories and the source files they model:

  \<^item> \<open>Prelude\<close>: hash maps as association lists with the operations of the standard library the
    code uses, errors as the left of a sum, and the locale \<open>machine\<close> of step relations with an invariant.
  \<^item> \<open>Core\<close>: \<open>core/src/error.rs\<close>, \<open>id.rs\<close>, \<open>context.rs\<close>.
  \<^item> \<open>Dag_Graph\<close>, \<open>Dag_State\<close>, \<open>Dag_Topo\<close>, \<open>Dag_Exec\<close>, \<open>Dag_Run\<close>, \<open>Checkpoint\<close>, \<open>Dag_Props\<close>:
    \<open>backends/src/workflow/dag.rs\<close> and \<open>checkpoint.rs\<close>: the cycle check, the operations on the graph,
    Kahn's sort, the execution in rounds with retries and time limits, snapshots and resuming.
  \<^item> \<open>Breaker\<close>, \<open>Breaker_Props\<close>: \<open>circuit-breaker/src/*.rs\<close>: the sliding window and the state machine.
  \<^item> \<open>Sharding\<close>, \<open>Dist_Store\<close>, \<open>Dist_Cache\<close>, \<open>Dist_Queue\<close>, \<open>Cluster\<close>: \<open>distributed/src/store.rs\<close>,
    \<open>cache.rs\<close>, \<open>queue.rs\<close>, \<open>cluster.rs\<close> and \<open>leader.rs\<close>.
  \<^item> \<open>Tenant\<close>, \<open>Billing\<close>: \<open>tenant/src/*.rs\<close> and \<open>billing/src/*.rs\<close>.
  \<^item> \<open>Gossip\<close>, \<open>Gossip_Net\<close>, \<open>Fed_Protocol\<close>, \<open>Fed_Link\<close>, \<open>Fed_Link_Props\<close>, \<open>Fed_State\<close>:
    \<open>federation/src/gossip.rs\<close>, \<open>protocol.rs\<close>, \<open>types.rs\<close>, \<open>link.rs\<close>, \<open>executor.rs\<close>,
    \<open>replication.rs\<close>, \<open>discovery.rs\<close>.
  \<^item> \<open>Job_Queue\<close>, \<open>Task_Scheduler\<close>, \<open>Sched_Inv\<close>, \<open>Sched_Props\<close>: \<open>runtime/src/task_queue.rs\<close> and
    \<open>task_scheduler.rs\<close>.
  \<^item> \<open>Agents\<close>, \<open>Agent_Pool\<close>: the status of an agent (\<open>traits/src/agent.rs\<close>) and \<open>runtime/src/agent_pool.rs\<close>.
  \<^item> \<open>Std_Text\<close>, \<open>Cron\<close>, \<open>Cron_Props\<close>: the functions of \<open>str\<close> the parsers call, and
    \<open>runtime/src/cron_scheduler.rs\<close>: the parser of cron expressions, the search for the next
    occurrence, the scheduler of triggers.
  \<^item> \<open>Tools\<close>, \<open>Tool_Props\<close>: \<open>tool/src/*.rs\<close> and \<open>traits/src/tool.rs\<close>: the registry with its indexes,
    the checks before a call and the statistics.
  \<^item> \<open>Orch_Registry\<close>, \<open>Orchestrator\<close>, \<open>Orch_Props\<close>: \<open>orchestrator/src/registry.rs\<close>, \<open>scheduler.rs\<close>,
    \<open>comm.rs\<close>, \<open>orchestrator.rs\<close>.
  \<^item> \<open>Plugin_Types\<close>, \<open>Plugin_Events\<close>, \<open>Plugin_Registry\<close>, \<open>Plugin_Props\<close>, \<open>Plugin_Reload\<close>,
    \<open>Plugin_Market\<close>: \<open>traits/src/plugin.rs\<close> and \<open>plugin/src/*.rs\<close>: manifests, dependencies and permissions,
    the callbacks of the event bus, the registry with the states of a plugin, hot reload, the market.
  \<^item> \<open>Event_Topics\<close>: \<open>eventbus/src/*.rs\<close> and \<open>runtime/src/events.rs\<close>.
  \<^item> \<open>Runtime_State\<close>, \<open>Agent_Manager\<close>, \<open>Agent_Runtime\<close>: \<open>runtime/src/lifecycle.rs\<close>, \<open>session.rs\<close>,
    \<open>scheduler.rs\<close>, \<open>agent_factory.rs\<close>, \<open>agent_manager.rs\<close>, \<open>agent_runtime.rs\<close>.
  \<^item> \<open>Recovery\<close>, \<open>Multi_Agent\<close>: \<open>runtime/src/recovery.rs\<close> and \<open>multi_agent.rs\<close>.

  \<^item> \<open>Floats\<close>: the operations of \<open>f64\<close> as a record of functions, and facts of IEEE arithmetic as named
    hypotheses, which the rational numbers satisfy.
  \<^item> \<open>Dist_Scheduler\<close>, \<open>Rate_Limit\<close>, \<open>Response_Cache\<close>: \<open>distributed/src/scheduler.rs\<close>, \<open>ratelimit/src/*.rs\<close>,
    \<open>cache/src/lib.rs\<close> and \<open>memory.rs\<close>.
  \<^item> \<open>Swarm_Types\<close>, \<open>Swarm_Strategy\<close>, \<open>Swarm_Topology\<close>, \<open>Swarm_Comm\<close>, \<open>Swarm_Memory\<close>, \<open>Swarm_Roles\<close>,
    \<open>Swarm_Engine\<close>, \<open>Swarm_Locks\<close>: \<open>swarm/src/*.rs\<close>: the strategies that select agents and judge results, the
    topology, the channel, profiles and metrics, the special roles, the coordinator with its engine, and the
    calls of an engine that run at the same time behind its lock.
  \<^item> \<open>Prompts\<close>: \<open>prompt/src/template.rs\<close>, \<open>registry.rs\<close>, \<open>abtest.rs\<close>: templates, their versions and tests of two.
  \<^item> \<open>Api_Keys\<close>: \<open>security/src/api_key.rs\<close>, \<open>permission.rs\<close>, \<open>audit.rs\<close>.
  \<^item> \<open>Service_Auth\<close>: \<open>security/src/service_auth.rs\<close>, \<open>auth.rs\<close>: signed tokens between services, the rotation of keys, tokens of users.
  \<^item> \<open>Know_Graph\<close>, \<open>Know_Memory\<close>: \<open>knowledge-graph/src/types.rs\<close>, \<open>builder.rs\<close>, \<open>memory.rs\<close>: graphs without duplicates,
    the memory of agents and the search for a shortest path.
  \<^item> \<open>Audit_Log\<close>: \<open>audit/src/log.rs\<close>, \<open>query.rs\<close>, \<open>event.rs\<close>.
  \<^item> \<open>Llm_Router\<close>: \<open>llm-router/src/lib.rs\<close>, \<open>metrics.rs\<close>, \<open>strategies.rs\<close>.
  \<^item> \<open>Evidence_Graph\<close>, \<open>Evidence_Merge\<close>: \<open>crates/evidence-graph/src/*.rs\<close> and \<open>crates/memory-episode/src/episode.rs\<close>: graphs of
    evidence from episodes, their ranking, and the merge of the graphs of several workflows.

  How the model corresponds to the code.  A struct is a record, an enumeration a datatype, a map the
  association list of its entries, an operation on \<open>&mut self\<close> a function that returns the new state
  beside its result, an error the left of \<open>ls_error + 'a\<close> with the text the code formats.  Machine
  integers are words where they can wrap, otherwise numbers whose bound is stated.  The clock, fresh
  identifiers, random choices, the iteration order of a hash map where it can be seen, what a handler
  or a job returns and what another process sends are arguments.  Where tasks run concurrently, the
  stretches between two lock operations are the steps of an inductive relation, and the properties
  hold for every order of the steps.

  What the lemmas show.  Each component has an invariant and one preservation lemma for each of its
  operations, gathered in an interpretation of \<open>machine\<close> or of the component's interface; the
  properties apply it to all reachable states.  Interfaces are locales: the step machine (\<open>machine\<close>),
  a map split into shards (\<open>sharded\<close>), the checkpoint store (\<open>checkpoint_store\<close>), the state backend
  (\<open>state_backend\<close>), the event store (\<open>event_store\<close>), the cache behind a layer (\<open>cache_backend\<close>) and the job queue (\<open>job_queue\<close>), each interpreted on the implementations in memory.  The
  properties state functional correctness (sorting, execution, merging, decoding), refinement of a
  simpler specification (the breaker, the store, checkpoints), safety (access, order of
  events, jobs held once), error behaviour, bounds and round trips.

  Termination.  Every function is total.  Loops over a work list terminate by a measure that is
  shown next to them (nodes not yet completed, edges not yet relaxed, bytes left); the search for
  the next cron occurrence stops after the two years the code itself allows; no fuel is used, and loops of the
  code that run for ever (workers, timers) are sequences of steps.

  The fields of a date (the calendar of \<open>chrono\<close>), the sum of a time and a span, the floating-point arithmetic of the
  duration parser, the text of a JSON value and its parser, the comparison of semantic versions and the digest of
  a file are arguments of the definitions that use them, as are the answers of agents, plugins, loaded libraries,
  language models, the file system and servers.

  Not modelled: the rounding of floating-point operations, which are arguments; back-off delays; logging and metrics; the text form of
  times; the text form of JSON, which is a codec with its documented laws as hypotheses; network
  and database access; crates that are interfaces to outside services.  The manifest lists them
  with reasons.
\<close>

end
